(* ===== verification/Prelude.thy ===== *)
theory Prelude
  imports Main "HOL-Library.AList"
begin

text \<open>
  The shared base of the development: the exceptions of the Python code as values, the
  result type of a function that may raise, the result type of a method that may raise
  after it has changed its object, and the lemmas on lists and association lists (the
  model of Python's insertion-ordered dictionaries) that the components share.
\<close>

section \<open>Exceptions and results\<close>

text \<open>
  One constructor for each exception class that the modelled code raises or catches. The
  bare \<^verbatim>\<open>raise Exception(...)\<close> of the code carries the first argument of its message.
  \<open>LoopBound\<close> is none of them: it is the outcome of a loop that has not ended within the number of
  rounds the model gives it.
\<close>

datatype py_error =
    KeyError
  | IndexError
  | ValueError
  | TypeError
  | AttributeError
  | AssertionError
  | RuntimeError
  | NotImplementedError
  | StructError
  | UnicodeError
  | FileNotFoundError
  | OperationalError
  | ClientError
  | UnsupportedAlterOperation
  | TransactionNotFound
  | LookupError
  | LoopBound
  | PyException string

text \<open>\<^verbatim>\<open>Inl e\<close>: the call raised \<^verbatim>\<open>e\<close>; \<^verbatim>\<open>Inr x\<close>: it returned \<^verbatim>\<open>x\<close>.\<close>

type_synonym 'a res = "py_error + 'a"

definition bindE :: "'a res \<Rightarrow> ('a \<Rightarrow> 'b res) \<Rightarrow> 'b res" where
  "bindE m f = (case m of Inl e \<Rightarrow> Inl e | Inr x \<Rightarrow> f x)"

text \<open>\<^verbatim>\<open>if cond: raise e\<close> in front of the rest of a function.\<close>

definition raise_if :: "bool \<Rightarrow> py_error \<Rightarrow> 'a res \<Rightarrow> 'a res" where
  "raise_if b e m = (if b then Inl e else m)"

named_theorems res_simps \<open>rewriting of results\<close>

lemma bindE_simps [simp]:
  "bindE (Inl e) f = Inl e"
  "bindE (Inr x) f = f x"
  by (simp_all add: bindE_def)

lemma bindE_cong [fundef_cong]:
  "m = m' \<Longrightarrow> (\<And>x. m' = Inr x \<Longrightarrow> f x = g x) \<Longrightarrow> bindE m f = bindE m' g"
  by (auto simp: bindE_def split: sum.splits)

lemma bindE_Inr_iff [res_simps]:
  "bindE m f = Inr y \<longleftrightarrow> (\<exists>x. m = Inr x \<and> f x = Inr y)"
  by (cases m) auto

lemma bindE_Inl_iff [res_simps]:
  "bindE m f = Inl e \<longleftrightarrow> m = Inl e \<or> (\<exists>x. m = Inr x \<and> f x = Inl e)"
  by (cases m) auto

lemma raise_if_Inr_iff [res_simps]: "raise_if b e m = Inr y \<longleftrightarrow> \<not> b \<and> m = Inr y"
  by (simp add: raise_if_def)

lemma raise_if_simps [simp]: "raise_if True e m = Inl e" "raise_if False e m = m"
  by (simp_all add: raise_if_def)

fun mapE :: "('a \<Rightarrow> 'b res) \<Rightarrow> 'a list \<Rightarrow> 'b list res" where
  "mapE f [] = Inr []"
| "mapE f (x # xs) = bindE (f x) (\<lambda>y. bindE (mapE f xs) (\<lambda>ys. Inr (y # ys)))"

text \<open>A loop \<^verbatim>\<open>for x in xs\<close> whose body updates a state and may raise.\<close>

fun foldE :: "('a \<Rightarrow> 's \<Rightarrow> 's res) \<Rightarrow> 'a list \<Rightarrow> 's \<Rightarrow> 's res" where
  "foldE f [] s = Inr s"
| "foldE f (x # xs) s = bindE (f x s) (foldE f xs)"

lemma mapE_cong [fundef_cong]:
  assumes "xs = ys" and "\<And>x. x \<in> set ys \<Longrightarrow> f x = g x"
  shows "mapE f xs = mapE g ys"
  using assms by (induction xs arbitrary: ys) (auto intro: bindE_cong)

lemma mapE_Inr_length: "mapE f xs = Inr ys \<Longrightarrow> length ys = length xs"
  by (induction xs arbitrary: ys) (auto simp: res_simps)

lemma mapE_Inr_nth: "mapE f xs = Inr ys \<Longrightarrow> i < length xs \<Longrightarrow> f (xs ! i) = Inr (ys ! i)"
  by (induction xs arbitrary: ys i) (auto simp: res_simps nth_Cons split: nat.splits)

lemma mapE_Inr_iff_list_all2:
  "mapE f xs = Inr ys \<longleftrightarrow> list_all2 (\<lambda>x y. f x = Inr y) xs ys"
  by (induction xs arbitrary: ys) (auto simp: res_simps list_all2_Cons1)

lemma mapE_total: "(\<And>x. x \<in> set xs \<Longrightarrow> f x = Inr (g x)) \<Longrightarrow> mapE f xs = Inr (map g xs)"
  by (induction xs) auto

lemma mapE_append: "mapE f (xs @ ys) = bindE (mapE f xs) (\<lambda>us. bindE (mapE f ys) (\<lambda>vs. Inr (us @ vs)))"
  by (induction xs) (auto simp: bindE_def split: sum.splits)

lemma foldE_append: "foldE f (xs @ ys) s = bindE (foldE f xs s) (foldE f ys)"
  by (induction xs arbitrary: s) (auto simp: bindE_def split: sum.splits)

lemma foldE_invariant:
  assumes "foldE f xs s = Inr t" and "P s"
    and "\<And>x s t. x \<in> set xs \<Longrightarrow> P s \<Longrightarrow> f x s = Inr t \<Longrightarrow> P t"
  shows "P t"
  using assms by (induction xs arbitrary: s) (auto simp: res_simps)

section \<open>Methods that raise after changing their object\<close>

text \<open>
  A method of a stateful object: it takes the state and gives the outcome together with
  the state as it is when the call returns or raises. An exception does not undo the
  updates made before it.
\<close>

type_synonym ('s, 'a) act = "'s \<Rightarrow> 'a res \<times> 's"

definition retA :: "'a \<Rightarrow> ('s, 'a) act" where
  "retA x = (\<lambda>s. (Inr x, s))"

definition raiseA :: "py_error \<Rightarrow> ('s, 'a) act" where
  "raiseA e = (\<lambda>s. (Inl e, s))"

definition bindA :: "('s, 'a) act \<Rightarrow> ('a \<Rightarrow> ('s, 'b) act) \<Rightarrow> ('s, 'b) act" where
  "bindA m f = (\<lambda>s. case m s of (Inl e, t) \<Rightarrow> (Inl e, t) | (Inr x, t) \<Rightarrow> f x t)"

definition modifyA :: "('s \<Rightarrow> 's) \<Rightarrow> ('s, unit) act" where
  "modifyA f = (\<lambda>s. (Inr (), f s))"

text \<open>A pure computation that may raise, run inside a method.\<close>

definition liftA :: "('s \<Rightarrow> 'a res) \<Rightarrow> ('s, 'a) act" where
  "liftA f = (\<lambda>s. (f s, s))"

fun mapA :: "('a \<Rightarrow> ('s, unit) act) \<Rightarrow> 'a list \<Rightarrow> ('s, unit) act" where
  "mapA f [] = retA ()"
| "mapA f (x # xs) = bindA (f x) (\<lambda>_. mapA f xs)"

named_theorems act_simps \<open>unfolding of methods\<close>

lemmas act_defs [act_simps] = retA_def raiseA_def bindA_def modifyA_def liftA_def

lemma bindA_liftA: "bindA (liftA f) k s = (case f s of Inl e \<Rightarrow> (Inl e, s) | Inr x \<Rightarrow> k x s)"
  by (simp add: bindA_def liftA_def split: sum.split)

lemma bindA_Inr_iff:
  "bindA m f s = (Inr y, u) \<longleftrightarrow> (\<exists>x t. m s = (Inr x, t) \<and> f x t = (Inr y, u))"
  by (auto simp: bindA_def split: prod.splits sum.splits)

lemma bindA_Inl_iff:
  "bindA m f s = (Inl e, u) \<longleftrightarrow>
    m s = (Inl e, u) \<or> (\<exists>x t. m s = (Inr x, t) \<and> f x t = (Inl e, u))"
  by (auto simp: bindA_def split: prod.splits sum.splits)

lemma mapA_invariant:
  assumes "\<And>x s. x \<in> set xs \<Longrightarrow> P s \<Longrightarrow> P (snd (f x s))" and "P s"
  shows "P (snd (mapA f xs s))"
  using assms
proof (induction xs arbitrary: s)
  case Nil
  then show ?case by (simp add: retA_def)
next
  case (Cons x xs)
  obtain r t where rt: "f x s = (r, t)" by fastforce
  with Cons.prems have "P t" by (metis list.set_intros(1) snd_conv)
  with Cons rt show ?case by (auto simp: bindA_def split: sum.splits)
qed

section \<open>Lists\<close>

text \<open>
  \<^verbatim>\<open>xs.index(x)\<close>: the position of the first occurrence, ValueError when there is none.
\<close>

fun index_of :: "'a list \<Rightarrow> 'a \<Rightarrow> nat res" where
  "index_of [] x = Inl ValueError"
| "index_of (y # ys) x = (if y = x then Inr 0 else bindE (index_of ys x) (\<lambda>i. Inr (Suc i)))"

lemma index_of_Inr: "index_of xs x = Inr i \<Longrightarrow> i < length xs \<and> xs ! i = x"
  by (induction xs arbitrary: i) (auto simp: res_simps split: if_splits)

lemma index_of_total: "x \<in> set xs \<Longrightarrow> \<exists>i. index_of xs x = Inr i"
  by (induction xs) auto

lemma index_of_Inl: "index_of xs x = Inl e \<Longrightarrow> x \<notin> set xs"
  by (induction xs) (auto simp: res_simps split: if_splits)

lemma index_of_ok_iff: "(\<exists>i. index_of xs x = Inr i) \<longleftrightarrow> x \<in> set xs"
  using index_of_total index_of_Inr nth_mem by metis

text \<open>\<^verbatim>\<open>xs[i]\<close> for a non-negative \<^verbatim>\<open>i\<close>: IndexError out of range.\<close>

definition nthE :: "'a list \<Rightarrow> nat \<Rightarrow> 'a res" where
  "nthE xs i = (if i < length xs then Inr (xs ! i) else Inl IndexError)"

lemma nthE_Inr_iff [res_simps]: "nthE xs i = Inr y \<longleftrightarrow> i < length xs \<and> y = xs ! i"
  by (auto simp: nthE_def)

text \<open>\<^verbatim>\<open>xs[-1]\<close>.\<close>

definition lastE :: "'a list \<Rightarrow> 'a res" where
  "lastE xs = (if xs = [] then Inl IndexError else Inr (last xs))"

section \<open>Dictionaries\<close>

text \<open>
  A Python dictionary keeps insertion order: assigning to an existing key keeps its
  position, deleting and assigning again moves it to the end. \<^const>\<open>AList.update\<close> and
  \<^const>\<open>AList.delete\<close> on association lists behave exactly so.
\<close>

type_synonym ('k, 'v) dict = "('k \<times> 'v) list"

definition dict_get :: "('k, 'v) dict \<Rightarrow> 'k \<Rightarrow> 'v res" where
  "dict_get d k = (case map_of d k of None \<Rightarrow> Inl KeyError | Some v \<Rightarrow> Inr v)"

definition dict_wf :: "('k, 'v) dict \<Rightarrow> bool" where
  "dict_wf d \<longleftrightarrow> distinct (map fst d)"

lemma dict_get_Inr_iff [res_simps]: "dict_get d k = Inr v \<longleftrightarrow> map_of d k = Some v"
  by (auto simp: dict_get_def split: option.splits)

lemma dict_get_Inl_iff: "dict_get d k = Inl e \<longleftrightarrow> map_of d k = None \<and> e = KeyError"
  by (auto simp: dict_get_def split: option.splits)

lemma dict_wf_Nil [simp]: "dict_wf []"
  by (simp add: dict_wf_def)

lemma dict_wf_update [simp]: "dict_wf d \<Longrightarrow> dict_wf (AList.update k v d)"
  by (simp add: dict_wf_def distinct_update)

lemma dict_wf_delete [simp]: "dict_wf d \<Longrightarrow> dict_wf (AList.delete k d)"
  by (simp add: dict_wf_def distinct_delete)

lemma dict_map_of_update [simp]: "map_of (AList.update k v d) = (map_of d)(k \<mapsto> v)"
  by (simp add: update_conv')

lemma dict_map_of_delete [simp]: "map_of (AList.delete k d) = (map_of d)(k := None)"
  by (simp add: delete_conv')

lemma dict_wf_map_of_iff:
  "dict_wf d \<Longrightarrow> (k, v) \<in> set d \<longleftrightarrow> map_of d k = Some v"
  by (auto simp: dict_wf_def)

lemma map_of_None_keys: "map_of d k = None \<longleftrightarrow> k \<notin> fst ` set d"
  by (rule map_of_eq_None_iff)

end
