(* ===== verification/PyStr.thy ===== *)
theory PyStr
  imports Prelude "HOL-Library.Char_ord" "HOL-Library.List_Lexorder" "HOL-Library.Product_Lexorder"
begin

text \<open>
  The part of Python's string library that the code uses, as functions on \<^typ>\<open>string\<close>.
  Strings are sequences of characters with codes below 256; case conversion is that of the
  ASCII letters. The lexicographic orders of the imported library theories on lists and
  pairs are Python's orders on strings and tuples.
\<close>

section \<open>Special characters\<close>

abbreviation bquote :: char where "bquote \<equiv> CHR 0x60"
abbreviation squote :: char where "squote \<equiv> CHR 0x27"
abbreviation dquote :: char where "dquote \<equiv> CHR 0x22"
abbreviation bslash :: char where "bslash \<equiv> CHR 0x5C"
abbreviation nl :: char where "nl \<equiv> CHR 0x0A"

section \<open>Characters\<close>

definition code :: "char \<Rightarrow> nat" where
  "code c = of_char c"

definition is_space :: "char \<Rightarrow> bool" where
  "is_space c \<longleftrightarrow> 9 \<le> code c \<and> code c \<le> 13 \<or> 28 \<le> code c \<and> code c \<le> 32
     \<or> code c = 133 \<or> code c = 160"

definition is_digit :: "char \<Rightarrow> bool" where
  "is_digit c \<longleftrightarrow> 48 \<le> code c \<and> code c \<le> 57"

definition is_upper :: "char \<Rightarrow> bool" where
  "is_upper c \<longleftrightarrow> 65 \<le> code c \<and> code c \<le> 90"

definition is_lower :: "char \<Rightarrow> bool" where
  "is_lower c \<longleftrightarrow> 97 \<le> code c \<and> code c \<le> 122"

definition is_alnum :: "char \<Rightarrow> bool" where
  "is_alnum c \<longleftrightarrow> is_digit c \<or> is_upper c \<or> is_lower c"

text \<open>\<^verbatim>\<open>\w\<close> of a regular expression.\<close>

definition is_word_char :: "char \<Rightarrow> bool" where
  "is_word_char c \<longleftrightarrow> is_alnum c \<or> c = CHR ''_''"

definition to_lower :: "char \<Rightarrow> char" where
  "to_lower c = (if is_upper c then char_of (code c + 32) else c)"

definition to_upper :: "char \<Rightarrow> char" where
  "to_upper c = (if is_lower c then char_of (code c - 32) else c)"

lemma code_less: "code c < 256"
  by (simp add: code_def)

lemma code_char_of [simp]: "n < 256 \<Longrightarrow> code (char_of n) = n"
  by (simp add: code_def)

lemma char_of_code [simp]: "char_of (code c) = c"
  by (simp add: code_def)

lemma code_eq_iff: "code c = code d \<longleftrightarrow> c = d"
  by (simp add: code_def)

lemma to_lower_idem [simp]: "to_lower (to_lower c) = to_lower c"
  by (simp add: to_lower_def is_upper_def)

lemma is_space_to_lower [simp]: "is_space (to_lower c) = is_space c"
  by (auto simp: to_lower_def is_space_def is_upper_def)

lemma digit_not_space: "is_digit c \<Longrightarrow> \<not> is_space c"
  by (auto simp: is_digit_def is_space_def)

text \<open>Character classes on the bits of a character, for evaluation.\<close>

lemma code_Char:
  "code (Char b0 b1 b2 b3 b4 b5 b6 b7) =
    of_bool b0 + 2 * of_bool b1 + 4 * of_bool b2 + 8 * of_bool b3 + 16 * of_bool b4 + 32 * of_bool b5
    + 64 * of_bool b6 + 128 * of_bool b7"
  by (simp add: code_def)

lemma is_upper_Char [code]:
  "is_upper (Char b0 b1 b2 b3 b4 b5 b6 b7) \<longleftrightarrow>
    \<not> b7 \<and> b6 \<and> \<not> b5 \<and> (b0 \<or> b1 \<or> b2 \<or> b3 \<or> b4) \<and> \<not> (b4 \<and> b3 \<and> (b2 \<or> b1 \<and> b0))"
  unfolding is_upper_def code_Char
  by (cases b7; cases b6; cases b5; cases b4; cases b3; cases b2; cases b1; cases b0; simp)

lemma is_lower_Char [code]:
  "is_lower (Char b0 b1 b2 b3 b4 b5 b6 b7) \<longleftrightarrow>
    \<not> b7 \<and> b6 \<and> b5 \<and> (b0 \<or> b1 \<or> b2 \<or> b3 \<or> b4) \<and> \<not> (b4 \<and> b3 \<and> (b2 \<or> b1 \<and> b0))"
  unfolding is_lower_def code_Char
  by (cases b7; cases b6; cases b5; cases b4; cases b3; cases b2; cases b1; cases b0; simp)

lemma is_digit_Char [code]:
  "is_digit (Char b0 b1 b2 b3 b4 b5 b6 b7) \<longleftrightarrow>
    \<not> b7 \<and> \<not> b6 \<and> b5 \<and> b4 \<and> \<not> (b3 \<and> (b2 \<or> b1))"
  unfolding is_digit_def code_Char
  by (cases b7; cases b6; cases b5; cases b4; cases b3; cases b2; cases b1; cases b0; simp)

lemma is_space_Char [code]:
  "is_space (Char b0 b1 b2 b3 b4 b5 b6 b7) \<longleftrightarrow>
    (if b7 then \<not> b6 \<and> \<not> b4 \<and> \<not> b3 \<and> \<not> b1 \<and> (if b5 then \<not> b2 \<and> \<not> b0 else b2 \<and> b0)
     else \<not> b6 \<and> (if b5 then \<not> b4 \<and> \<not> b3 \<and> \<not> b2 \<and> \<not> b1 \<and> \<not> b0
       else if b4 then b3 \<and> b2 else b3 \<and> (b2 \<or> b1 \<or> b0) \<and> \<not> (b2 \<and> b1)))"
  unfolding is_space_def code_Char
  by (cases b7; cases b6; cases b5; cases b4; cases b3; cases b2; cases b1; cases b0; simp)

lemma to_lower_Char [code]:
  "to_lower (Char b0 b1 b2 b3 b4 b5 b6 b7) =
    Char b0 b1 b2 b3 b4 (b5 \<or> is_upper (Char b0 b1 b2 b3 b4 b5 b6 b7)) b6 b7"
proof (cases "is_upper (Char b0 b1 b2 b3 b4 b5 b6 b7)")
  case True
  then have "\<not> b5" by (simp add: is_upper_Char)
  with True have "code (Char b0 b1 b2 b3 b4 b5 b6 b7) + 32 = code (Char b0 b1 b2 b3 b4 True b6 b7)"
    by (simp add: code_Char)
  then have "char_of (code (Char b0 b1 b2 b3 b4 b5 b6 b7) + 32) = Char b0 b1 b2 b3 b4 True b6 b7" by simp
  with True show ?thesis by (simp add: to_lower_def)
qed (simp add: to_lower_def)

lemma to_upper_Char [code]:
  "to_upper (Char b0 b1 b2 b3 b4 b5 b6 b7) =
    Char b0 b1 b2 b3 b4 (b5 \<and> \<not> is_lower (Char b0 b1 b2 b3 b4 b5 b6 b7)) b6 b7"
proof (cases "is_lower (Char b0 b1 b2 b3 b4 b5 b6 b7)")
  case True
  then have "b5" by (simp add: is_lower_Char)
  with True have "code (Char b0 b1 b2 b3 b4 b5 b6 b7) - 32 = code (Char b0 b1 b2 b3 b4 False b6 b7)"
    by (simp add: code_Char)
  then have "char_of (code (Char b0 b1 b2 b3 b4 b5 b6 b7) - 32) = Char b0 b1 b2 b3 b4 False b6 b7" by simp
  with True show ?thesis by (simp add: to_upper_def)
qed (simp add: to_upper_def)

section \<open>Case, stripping, prefixes\<close>

definition lower :: "string \<Rightarrow> string" where
  "lower = map to_lower"

definition upper :: "string \<Rightarrow> string" where
  "upper = map to_upper"

definition lstrip :: "string \<Rightarrow> string" where
  "lstrip = dropWhile is_space"

definition rstrip :: "string \<Rightarrow> string" where
  "rstrip s = rev (dropWhile is_space (rev s))"

definition strip :: "string \<Rightarrow> string" where
  "strip s = rstrip (lstrip s)"

text \<open>\<^verbatim>\<open>s.strip(chars)\<close>.\<close>

definition strip_of :: "string \<Rightarrow> string \<Rightarrow> string" where
  "strip_of cs s = rev (dropWhile (\<lambda>c. c \<in> set cs) (rev (dropWhile (\<lambda>c. c \<in> set cs) s)))"

definition startswith :: "string \<Rightarrow> string \<Rightarrow> bool" where
  "startswith s p \<longleftrightarrow> take (length p) s = p"

definition endswith :: "string \<Rightarrow> string \<Rightarrow> bool" where
  "endswith s p \<longleftrightarrow> startswith (rev s) (rev p)"

text \<open>\<^verbatim>\<open>p in s\<close>.\<close>

fun contains :: "string \<Rightarrow> string \<Rightarrow> bool" where
  "contains [] p = (p = [])"
| "contains (c # s) p = (startswith (c # s) p \<or> contains s p)"

text \<open>\<^verbatim>\<open>s.find(c)\<close> for one character: \<^const>\<open>None\<close> for \<^verbatim>\<open>-1\<close>.\<close>

fun find_char :: "char \<Rightarrow> string \<Rightarrow> nat option" where
  "find_char c [] = None"
| "find_char c (d # s) = (if d = c then Some 0 else map_option Suc (find_char c s))"

text \<open>\<^verbatim>\<open>s.find(p)\<close> for a string.\<close>

fun find_sub :: "string \<Rightarrow> string \<Rightarrow> nat option" where
  "find_sub p [] = (if p = [] then Some 0 else None)"
| "find_sub p (d # s) = (if startswith (d # s) p then Some 0 else map_option Suc (find_sub p s))"

text \<open>\<^verbatim>\<open>s.replace(p, q)\<close> for non-empty \<^verbatim>\<open>p\<close>.\<close>

function replace_sub :: "string \<Rightarrow> string \<Rightarrow> string \<Rightarrow> string" where
  "replace_sub p q [] = []"
| "replace_sub p q (c # s) =
     (if p \<noteq> [] \<and> startswith (c # s) p then q @ replace_sub p q (drop (length p) (c # s))
      else c # replace_sub p q s)"
  by pat_completeness auto
termination
  by (relation "measure (\<lambda>(p, q, s). length s)") auto

lemma startswith_append [simp]: "startswith (p @ s) p"
  by (simp add: startswith_def)

lemma startswith_iff: "startswith s p \<longleftrightarrow> (\<exists>t. s = p @ t)"
  by (metis append_take_drop_id startswith_append startswith_def)

lemma startswith_Nil [simp]: "startswith s []"
  by (simp add: startswith_def)

lemma startswith_Cons [simp]: "startswith (c # s) (d # p) \<longleftrightarrow> c = d \<and> startswith s p"
  by (auto simp: startswith_def)

lemma startswith_Nil_Cons [simp]: "\<not> startswith [] (d # p)"
  by (simp add: startswith_def)

lemma endswith_iff: "endswith s p \<longleftrightarrow> (\<exists>t. s = t @ p)"
  unfolding endswith_def startswith_iff by (metis rev_append rev_rev_ident)

lemma contains_iff: "contains s p \<longleftrightarrow> (\<exists>u v. s = u @ p @ v)"
proof (induction s)
  case Nil
  then show ?case by auto
next
  case (Cons c s)
  have "(\<exists>u v. c # s = u @ p @ v) \<longleftrightarrow> (\<exists>v. c # s = p @ v) \<or> (\<exists>u v. s = u @ p @ v)"
    (is "?l \<longleftrightarrow> ?a \<or> ?b")
  proof
    assume ?l
    then obtain u v where uv: "c # s = u @ p @ v" by blast
    then show "?a \<or> ?b" by (cases u) auto
  next
    assume "?a \<or> ?b"
    then show ?l
    proof
      assume ?a
      then obtain v where "c # s = [] @ p @ v" by auto
      then show ?l by blast
    next
      assume ?b
      then obtain u v where "c # s = (c # u) @ p @ v" by auto
      then show ?l by blast
    qed
  qed
  with Cons.IH show ?case by (simp add: startswith_iff)
qed

lemma lower_idem [simp]: "lower (lower s) = lower s"
  by (simp add: lower_def)

lemma length_lower [simp]: "length (lower s) = length s"
  by (simp add: lower_def)

lemma lower_append [simp]: "lower (s @ t) = lower s @ lower t"
  by (simp add: lower_def)

lemma find_char_Some: "find_char c s = Some i \<Longrightarrow> i < length s \<and> s ! i = c \<and> c \<notin> set (take i s)"
  by (induction s arbitrary: i) (auto split: if_splits)

lemma find_char_None: "find_char c s = None \<longleftrightarrow> c \<notin> set s"
  by (induction s) auto

section \<open>Splitting and joining\<close>

text \<open>\<^verbatim>\<open>s.split()\<close>: the maximal runs of non-white-space characters.\<close>

fun split_ws_acc :: "string \<Rightarrow> string \<Rightarrow> string list" where
  "split_ws_acc acc [] = (if acc = [] then [] else [rev acc])"
| "split_ws_acc acc (c # s) =
     (if is_space c then (if acc = [] then split_ws_acc [] s else rev acc # split_ws_acc [] s)
      else split_ws_acc (c # acc) s)"

definition split_ws :: "string \<Rightarrow> string list" where
  "split_ws s = split_ws_acc [] s"

text \<open>\<^verbatim>\<open>s.split(d)\<close> for a one-character separator: never empty.\<close>

fun split_char :: "char \<Rightarrow> string \<Rightarrow> string list" where
  "split_char d [] = [[]]"
| "split_char d (c # s) =
     (if c = d then [] # split_char d s
      else (case split_char d s of [] \<Rightarrow> [[c]] | w # ws \<Rightarrow> (c # w) # ws))"

text \<open>\<^verbatim>\<open>sep.join(ws)\<close>.\<close>

fun join :: "string \<Rightarrow> string list \<Rightarrow> string" where
  "join sep [] = []"
| "join sep [w] = w"
| "join sep (w # v # ws) = w @ sep @ join sep (v # ws)"

lemma join_Cons: "ws \<noteq> [] \<Longrightarrow> join sep (w # ws) = w @ sep @ join sep ws"
  by (cases ws) auto

definition word :: "string \<Rightarrow> bool" where
  "word w \<longleftrightarrow> w \<noteq> [] \<and> (\<forall>c \<in> set w. \<not> is_space c)"

lemma split_char_not_Nil [simp]: "split_char d s \<noteq> []"
  by (induction s) (auto split: list.splits)

lemma split_ws_acc_run:
  "\<forall>c \<in> set w. \<not> is_space c \<Longrightarrow> split_ws_acc acc (w @ s) = split_ws_acc (rev w @ acc) s"
  by (induction w arbitrary: acc) auto

lemma split_ws_acc_words:
  "\<forall>c \<in> set acc. \<not> is_space c \<Longrightarrow> w \<in> set (split_ws_acc acc s) \<Longrightarrow> word w"
proof (induction s arbitrary: acc)
  case Nil
  then show ?case by (auto simp: word_def split: if_splits)
next
  case (Cons c s)
  show ?case
  proof (cases "is_space c")
    case True
    then have "acc \<noteq> [] \<and> w = rev acc \<or> w \<in> set (split_ws_acc [] s)"
      using Cons.prems(2) by (simp split: if_splits)
    then show ?thesis using Cons.IH [of "[]"] Cons.prems(1) by (auto simp: word_def)
  next
    case False
    then show ?thesis using Cons.IH [of "c # acc"] Cons.prems by simp
  qed
qed

lemma split_ws_words: "w \<in> set (split_ws s) \<Longrightarrow> word w"
  by (auto simp: split_ws_def dest: split_ws_acc_words [rotated])

lemma split_ws_join:
  assumes "\<And>w. w \<in> set ws \<Longrightarrow> word w"
  shows "split_ws (join '' '' ws) = ws"
  using assms
proof (induction ws)
  case Nil
  then show ?case by (simp add: split_ws_def)
next
  case (Cons w ws)
  then have w: "\<forall>c \<in> set w. \<not> is_space c" "w \<noteq> []" by (auto simp: word_def)
  have sp: "is_space CHR '' ''" by (simp add: is_space_def code_def)
  show ?case
  proof (cases "ws = []")
    case True
    with w show ?thesis using split_ws_acc_run [of w "[]" "[]"] by (simp add: split_ws_def)
  next
    case False
    have "split_ws (join '' '' ws) = ws" using Cons by simp
    with w False sp show ?thesis
      using split_ws_acc_run [of w "[]" "'' '' @ join '' '' ws"]
      by (simp add: join_Cons split_ws_def)
  qed
qed

text \<open>\<^verbatim>\<open>s.rsplit(d, 1)\<close> when \<^verbatim>\<open>d\<close> occurs: what is before and after the last \<^verbatim>\<open>d\<close>.\<close>

definition rsplit_once :: "char \<Rightarrow> string \<Rightarrow> (string \<times> string) option" where
  "rsplit_once d s = (case find_char d (rev s) of None \<Rightarrow> None
     | Some i \<Rightarrow> Some (take (length s - Suc i) s, drop (length s - i) s))"

lemma find_char_append: "c \<notin> set u \<Longrightarrow> find_char c (u @ c # v) = Some (length u)"
  by (induction u) auto

lemma rsplit_once_append: "d \<notin> set v \<Longrightarrow> rsplit_once d (u @ d # v) = Some (u, v)"
  using find_char_append [of d "rev v" "rev u"] by (simp add: rsplit_once_def)

section \<open>Decimal numbers\<close>

definition digit_char :: "nat \<Rightarrow> char" where
  "digit_char n = char_of (48 + n)"

fun str_nat :: "nat \<Rightarrow> string" where
  "str_nat n = (if n < 10 then [digit_char n] else str_nat (n div 10) @ [digit_char (n mod 10)])"

declare str_nat.simps [simp del]

text \<open>\<^verbatim>\<open>str(i)\<close> of an integer.\<close>

definition str_int :: "int \<Rightarrow> string" where
  "str_int i = (if i < 0 then CHR ''-'' # str_nat (nat (- i)) else str_nat (nat i))"

definition digits_val :: "string \<Rightarrow> nat" where
  "digits_val s = foldl (\<lambda>a c. 10 * a + (code c - 48)) 0 s"

definition digits :: "string \<Rightarrow> bool" where
  "digits s \<longleftrightarrow> s \<noteq> [] \<and> list_all is_digit s"

text \<open>
  \<^verbatim>\<open>int(s)\<close>: surrounding white space, a sign, and digits with single underscores
  between them; ValueError otherwise.
\<close>

definition py_nat :: "string \<Rightarrow> nat res" where
  "py_nat s = (let ws = split_char CHR ''_'' s
     in if list_all digits ws then Inr (digits_val (concat ws)) else Inl ValueError)"

definition py_int :: "string \<Rightarrow> int res" where
  "py_int s = (case strip s of
       [] \<Rightarrow> Inl ValueError
     | c # t \<Rightarrow>
         if c = CHR ''-'' then bindE (py_nat t) (\<lambda>n. Inr (- int n))
         else if c = CHR ''+'' then bindE (py_nat t) (\<lambda>n. Inr (int n))
         else bindE (py_nat (c # t)) (\<lambda>n. Inr (int n)))"

lemma is_digit_digit_char [simp]: "n < 10 \<Longrightarrow> is_digit (digit_char n)"
  by (simp add: is_digit_def digit_char_def)

lemma code_digit_char [simp]: "n < 10 \<Longrightarrow> code (digit_char n) = 48 + n"
  by (simp add: digit_char_def)

lemma digits_val_Nil [simp]: "digits_val [] = 0"
  by (simp add: digits_val_def)

lemma digits_val_snoc [simp]: "digits_val (s @ [c]) = 10 * digits_val s + (code c - 48)"
  by (simp add: digits_val_def)

lemma digits_str_nat [simp]: "digits (str_nat n)"
proof (induction n rule: str_nat.induct)
  case (1 n)
  show ?case
    by (subst str_nat.simps) (use 1 in \<open>auto simp: digits_def\<close>)
qed

lemma digits_val_str_nat [simp]: "digits_val (str_nat n) = n"
proof (induction n rule: str_nat.induct)
  case (1 n)
  show ?case
  proof (cases "n < 10")
    case True
    then show ?thesis
      using digits_val_snoc [of "[]" "digit_char n"] by (simp add: str_nat.simps [of n])
  next
    case False
    with 1 show ?thesis by (simp add: str_nat.simps [of n])
  qed
qed

lemma str_nat_inject [simp]: "str_nat m = str_nat n \<longleftrightarrow> m = n"
  by (metis digits_val_str_nat)

lemma split_char_notin: "d \<notin> set s \<Longrightarrow> split_char d s = [s]"
  by (induction s) auto

lemma is_digit_not_sign: "is_digit c \<Longrightarrow> c \<noteq> CHR ''-'' \<and> c \<noteq> CHR ''+'' \<and> c \<noteq> CHR ''_'' \<and> c \<noteq> CHR ''.''"
  by (auto simp: is_digit_def code_def)

lemma digits_notin: "digits s \<Longrightarrow> CHR ''_'' \<notin> set s \<and> CHR ''.'' \<notin> set s"
  by (auto simp: digits_def list_all_iff dest: is_digit_not_sign)

lemma py_nat_digits: "digits s \<Longrightarrow> py_nat s = Inr (digits_val s)"
  using digits_notin [of s] by (simp add: py_nat_def split_char_notin)

lemma dropWhile_none: "\<forall>c \<in> set s. \<not> P c \<Longrightarrow> dropWhile P s = s"
  by (cases s) auto

lemma strip_no_space: "\<forall>c \<in> set s. \<not> is_space c \<Longrightarrow> strip s = s"
  by (simp add: strip_def lstrip_def rstrip_def dropWhile_none)

lemma py_int_digits: "digits s \<Longrightarrow> py_int s = Inr (int (digits_val s))"
proof -
  assume d: "digits s"
  then obtain c t where s: "s = c # t" and c: "is_digit c" by (cases s) (auto simp: digits_def)
  from d have "strip s = s"
    by (intro strip_no_space) (auto simp: digits_def list_all_iff dest: digit_not_space)
  with s is_digit_not_sign [OF c] py_nat_digits [OF d] show ?thesis
    by (simp add: py_int_def)
qed

lemma py_int_str_nat [simp]: "py_int (str_nat n) = Inr (int n)"
  by (simp add: py_int_digits)

lemma py_int_str_int [simp]: "py_int (str_int i) = Inr i"
proof (cases "i < 0")
  case True
  have "strip (CHR ''-'' # str_nat (nat (- i))) = CHR ''-'' # str_nat (nat (- i))"
    using digits_str_nat [of "nat (- i)"]
    by (intro strip_no_space) (auto simp: digits_def list_all_iff is_space_def code_def
        simp del: digits_str_nat str_nat.simps dest: digit_not_space [unfolded is_space_def code_def])
  with True show ?thesis
    by (simp add: str_int_def py_int_def py_nat_digits del: str_nat.simps)
qed (simp add: str_int_def del: str_nat.simps)

lemma str_int_no_dot: "CHR ''.'' \<notin> set (str_int i)"
  using digits_notin [OF digits_str_nat] by (simp add: str_int_def del: str_nat.simps)

lemma split_char_append: "d \<notin> set u \<Longrightarrow> split_char d (u @ d # v) = u # split_char d v"
  by (induction u) auto

text \<open>On digit strings of one length, Python's string order is the numeric order.\<close>

lemma split_char_join:
  "ws \<noteq> [] \<Longrightarrow> \<forall>w \<in> set ws. d \<notin> set w \<Longrightarrow> split_char d (join [d] ws) = ws"
proof (induction ws)
  case (Cons w ws)
  then show ?case by (cases ws) (simp_all add: split_char_notin split_char_append)
qed simp

lemma set_join: "set (join sep ws) \<subseteq> set sep \<union> (\<Union>w \<in> set ws. set w)"
  by (induction sep ws rule: join.induct) auto

lemma digits_val_Cons:
  "digits_val (c # s) = (code c - 48) * 10 ^ length s + digits_val s"
proof (induction s rule: rev_induct)
  case Nil
  then show ?case using digits_val_snoc [of "[]" c] by simp
next
  case (snoc d s)
  then have "digits_val ((c # s) @ [d]) = 10 * digits_val (c # s) + (code d - 48)"
    by (rule_tac digits_val_snoc)
  with snoc show ?case by (simp add: algebra_simps)
qed

lemma digits_val_bound: "list_all is_digit s \<Longrightarrow> digits_val s < 10 ^ length s"
proof (induction s)
  case (Cons c s)
  then have "is_digit c" by simp
  then have "code c - 48 \<le> 9" by (auto simp: is_digit_def)
  then have "(code c - 48) * 10 ^ length s \<le> 9 * 10 ^ length s" by simp
  moreover have "digits_val s < 10 ^ length s" using Cons by simp
  ultimately have "(code c - 48) * 10 ^ length s + digits_val s < 9 * 10 ^ length s + 10 ^ length s"
    by linarith
  then show ?case by (simp add: digits_val_Cons)
qed simp

lemma char_less_code: "c < d \<longleftrightarrow> code c < code d"
  by (simp add: code_def less_char_def)

lemma digits_less_iff:
  assumes "list_all is_digit s" "list_all is_digit t" "length s = length t"
  shows "s < t \<longleftrightarrow> digits_val s < digits_val t"
  using assms
proof (induction s arbitrary: t)
  case (Cons c s)
  then obtain d u where t: "t = d # u" by (cases t) auto
  have cd: "48 \<le> code c" "48 \<le> code d" using Cons.prems t by (auto simp: is_digit_def)
  have b: "digits_val s < 10 ^ length s" "digits_val u < 10 ^ length s"
    using Cons.prems t digits_val_bound [of s] digits_val_bound [of u] by auto
  have IH: "s < u \<longleftrightarrow> digits_val s < digits_val u" using Cons t by auto
  consider "c = d" | "code c < code d" | "code d < code c"
    using code_eq_iff by (metis linorder_neqE_nat)
  then show ?case
  proof cases
    case 1
    with IH t Cons.prems show ?thesis by (simp add: digits_val_Cons)
  next
    case 2
    then have "Suc (code c - 48) * 10 ^ length s \<le> (code d - 48) * 10 ^ length s"
      using cd by (intro mult_right_mono) auto
    with 2 b t Cons.prems show ?thesis by (simp add: digits_val_Cons char_less_code)
  next
    case 3
    then have "Suc (code d - 48) * 10 ^ length s \<le> (code c - 48) * 10 ^ length s"
      using cd by (intro mult_right_mono) auto
    with 3 b t Cons.prems show ?thesis by (auto simp: digits_val_Cons char_less_code)
  qed
qed simp

end
