(* ===== verification/Bytes.thy ===== *)
theory Bytes
  imports PyStr "HOL-Library.Word"
begin

text \<open>
  Bytes and fixed-width integers: Python's \<^verbatim>\<open>struct\<close> codes for unsigned and two's
  complement integers of either byte order, and the integer helpers of
  \<^verbatim>\<open>pymysqlreplication/util/bytes.py\<close> built on them. \<^verbatim>\<open>struct.unpack\<close> raises
  \<^verbatim>\<open>struct.error\<close> when the data has not exactly the size of the format.
\<close>

unbundle bit_operations_syntax

type_synonym byte = "8 word"

section \<open>Integers in bytes\<close>

primrec le_nat :: "byte list \<Rightarrow> nat" where
  "le_nat [] = 0"
| "le_nat (b # bs) = unat b + 256 * le_nat bs"

primrec le_bytes :: "nat \<Rightarrow> nat \<Rightarrow> byte list" where
  "le_bytes 0 n = []"
| "le_bytes (Suc k) n = of_nat (n mod 256) # le_bytes k (n div 256)"

definition be_nat :: "byte list \<Rightarrow> nat" where
  "be_nat bs = le_nat (rev bs)"

definition be_bytes :: "nat \<Rightarrow> nat \<Rightarrow> byte list" where
  "be_bytes k n = rev (le_bytes k n)"

text \<open>Two's complement reading of an unsigned value of \<open>k\<close> bytes.\<close>

definition to_signed :: "nat \<Rightarrow> nat \<Rightarrow> int" where
  "to_signed k n = (if 2 ^ (8 * k) \<le> 2 * n then int n - 2 ^ (8 * k) else int n)"

definition unpack_le :: "nat \<Rightarrow> byte list \<Rightarrow> nat res" where
  "unpack_le k bs = (if length bs = k then Inr (le_nat bs) else Inl StructError)"

definition unpack_be :: "nat \<Rightarrow> byte list \<Rightarrow> nat res" where
  "unpack_be k bs = (if length bs = k then Inr (be_nat bs) else Inl StructError)"

definition unpack_le_signed :: "nat \<Rightarrow> byte list \<Rightarrow> int res" where
  "unpack_le_signed k bs = bindE (unpack_le k bs) (\<lambda>n. Inr (to_signed k n))"

definition unpack_be_signed :: "nat \<Rightarrow> byte list \<Rightarrow> int res" where
  "unpack_be_signed k bs = bindE (unpack_be k bs) (\<lambda>n. Inr (to_signed k n))"

definition pack_be :: "nat \<Rightarrow> nat \<Rightarrow> byte list res" where
  "pack_be k n = (if n < 2 ^ (8 * k) then Inr (be_bytes k n) else Inl StructError)"

definition pack_le :: "nat \<Rightarrow> nat \<Rightarrow> byte list res" where
  "pack_le k n = (if n < 2 ^ (8 * k) then Inr (le_bytes k n) else Inl StructError)"

lemma length_le_bytes [simp]: "length (le_bytes k n) = k"
  by (induction k arbitrary: n) auto

lemma length_be_bytes [simp]: "length (be_bytes k n) = k"
  by (simp add: be_bytes_def)

lemma le_nat_le_bytes: "le_nat (le_bytes k n) = n mod 256 ^ k"
proof (induction k arbitrary: n)
  case (Suc k)
  have "unat (of_nat (n mod 256) :: byte) = n mod 256" by (simp add: unat_of_nat)
  with Suc show ?case by (simp add: mod_mult2_eq)
qed simp

lemma unat_byte: "unat (b :: byte) < 256"
proof -
  have "unat b < 2 ^ LENGTH(8)" by (rule unsigned_less)
  then show ?thesis by simp
qed

lemma le_nat_bound: "le_nat bs < 256 ^ length bs"
proof (induction bs)
  case (Cons b bs)
  have "unat b < 256" by (rule unat_byte)
  with Cons show ?case by simp
qed simp

lemma le_bytes_le_nat: "le_bytes (length bs) (le_nat bs) = bs"
proof (induction bs)
  case (Cons b bs)
  have b: "unat b < 256" by (rule unat_byte)
  then have "(unat b + 256 * le_nat bs) mod 256 = unat b" "(unat b + 256 * le_nat bs) div 256 = le_nat bs"
    by simp_all
  with Cons show ?case by simp
qed simp

lemma pow_256: "(256 :: nat) ^ k = 2 ^ (8 * k)"
  by (simp add: power_mult)

lemma unpack_le_pack: "pack_le k n = Inr bs \<Longrightarrow> unpack_le k bs = Inr n"
  by (auto simp: pack_le_def unpack_le_def le_nat_le_bytes pow_256 split: if_splits)

lemma unpack_be_pack: "pack_be k n = Inr bs \<Longrightarrow> unpack_be k bs = Inr n"
  by (auto simp: pack_be_def unpack_be_def be_nat_def be_bytes_def le_nat_le_bytes pow_256 split: if_splits)

lemma pack_be_length: "pack_be k n = Inr bs \<Longrightarrow> length bs = k"
  by (auto simp: pack_be_def split: if_splits)

lemma be_nat_be_bytes: "n < 2 ^ (8 * k) \<Longrightarrow> be_nat (be_bytes k n) = n"
  by (simp add: be_nat_def be_bytes_def le_nat_le_bytes pow_256)

lemma to_signed_bounds:
  assumes "n < 2 ^ (8 * k)" "0 < k"
  shows "- (2 ^ (8 * k - 1)) \<le> to_signed k n \<and> to_signed k n < 2 ^ (8 * k - 1)"
proof -
  have e: "(2 :: int) ^ (8 * k) = 2 * 2 ^ (8 * k - 1)"
    using assms(2) by (simp add: power_Suc [symmetric] del: power_Suc)
  have "int n < 2 ^ (8 * k)" using assms(1) by (metis of_nat_less_iff of_nat_numeral of_nat_power)
  moreover have "2 ^ (8 * k) \<le> 2 * n \<longleftrightarrow> (2 :: int) ^ (8 * k) \<le> 2 * int n"
    by (metis of_nat_le_iff of_nat_mult of_nat_numeral of_nat_power)
  ultimately show ?thesis using e by (auto simp: to_signed_def)
qed

lemma to_signed_mod: "to_signed k n mod 2 ^ (8 * k) = int n mod 2 ^ (8 * k)"
  by (auto simp: to_signed_def mod_diff_left_eq)

section \<open>Big-endian and little-endian codecs as one contract\<close>

text \<open>
  The contract of a fixed-width unsigned codec: packing a value of the right range gives
  \<open>width\<close> bytes that unpack to the value, and unpacking accepts exactly \<open>width\<close> bytes.
\<close>

locale uint_codec =
  fixes pack :: "nat \<Rightarrow> byte list res" and unpack :: "byte list \<Rightarrow> nat res" and width :: nat
  assumes pack_ok: "n < 2 ^ (8 * width) \<Longrightarrow> \<exists>bs. pack n = Inr bs \<and> length bs = width"
    and pack_big: "2 ^ (8 * width) \<le> n \<Longrightarrow> pack n = Inl StructError"
    and unpack_pack: "pack n = Inr bs \<Longrightarrow> unpack bs = Inr n"
    and unpack_ok_iff: "(\<exists>n. unpack bs = Inr n) \<longleftrightarrow> length bs = width"
begin

lemma pack_Inr_iff: "(\<exists>bs. pack n = Inr bs) \<longleftrightarrow> n < 2 ^ (8 * width)"
  using pack_ok [of n] pack_big [of n] by (cases "n < 2 ^ (8 * width)") auto

lemma pack_inject: "pack m = Inr bs \<Longrightarrow> pack n = Inr bs \<Longrightarrow> m = n"
  by (metis sum.inject(2) unpack_pack)

lemma pack_length: "pack n = Inr bs \<Longrightarrow> length bs = width"
  using pack_ok [of n] pack_Inr_iff [of n] by auto

end

interpretation be: uint_codec "pack_be k" "unpack_be k" k for k
  by unfold_locales (auto simp: pack_be_def unpack_be_def be_nat_be_bytes split: if_splits)

interpretation le: uint_codec "pack_le k" "unpack_le k" k for k
  by unfold_locales (auto simp: pack_le_def unpack_le_def le_nat_le_bytes pow_256 split: if_splits)

section \<open>util/bytes.py\<close>

definition is_data_short :: "byte list \<Rightarrow> nat \<Rightarrow> bool" where
  "is_data_short data expected = (if length data < expected then True else False)"

definition parse_int16 :: "byte list \<Rightarrow> int res" where
  "parse_int16 data = unpack_le_signed 2 (take 2 data)"

definition parse_uint16 :: "byte list \<Rightarrow> nat res" where
  "parse_uint16 data = unpack_le 2 (take 2 data)"

text \<open>
  The first branch of \<^verbatim>\<open>parse_uint24\<close> applies \<^verbatim>\<open>struct.unpack\<close> to an integer, which
  raises TypeError on Python 3; an item out of range raises IndexError.
\<close>

definition parse_uint24 :: "byte list \<Rightarrow> nat res" where
  "parse_uint24 data =
     bindE (nthE data 0) (\<lambda>a. bindE (nthE data 1) (\<lambda>b. bindE (nthE data 2) (\<lambda>c.
       Inr (unat a + push_bit 8 (unat b) + push_bit 16 (unat c)))))"

definition parse_int32 :: "byte list \<Rightarrow> int res" where
  "parse_int32 data = unpack_le_signed 4 (take 4 data)"

definition parse_uint32 :: "byte list \<Rightarrow> nat res" where
  "parse_uint32 data = unpack_le 4 (take 4 data)"

definition parse_int64 :: "byte list \<Rightarrow> int res" where
  "parse_int64 data = unpack_le_signed 8 (take 8 data)"

definition parse_uint64 :: "byte list \<Rightarrow> nat res" where
  "parse_uint64 data = unpack_le 8 (take 8 data)"

definition parse_string :: "nat \<Rightarrow> nat \<Rightarrow> byte list \<Rightarrow> byte list" where
  "parse_string n len data = take len (drop n data)"

definition decode_count :: "byte list \<Rightarrow> bool \<Rightarrow> nat res" where
  "decode_count data is_small = (if is_small then parse_uint16 data else parse_uint32 data)"

definition decode_uint :: "byte list \<Rightarrow> nat res" where
  "decode_uint data = (if is_data_short data 2 then Inr 0 else parse_uint16 data)"

text \<open>The triple (value or None, is_null, number of bytes read).\<close>

definition length_encoded_int :: "byte list \<Rightarrow> (nat option \<times> bool \<times> nat) res" where
  "length_encoded_int data =
     (case data of
        [] \<Rightarrow> Inr (Some 0, True, 0)
      | c # rest \<Rightarrow>
          if unat c = 251 then Inr (None, True, 1)
          else if unat c = 252 then bindE (parse_uint16 rest) (\<lambda>n. Inr (Some n, False, 3))
          else if unat c = 253 then bindE (parse_uint24 rest) (\<lambda>n. Inr (Some n, False, 4))
          else if unat c = 254 then bindE (parse_uint64 rest) (\<lambda>n. Inr (Some n, False, 9))
          else Inr (Some (unat c), False, 1))"

text \<open>
  The loop of \<^verbatim>\<open>decode_variable_length\<close>, with \<^verbatim>\<open>sys.maxsize\<close> of a 64-bit platform. The
  loop counts \<open>max_count\<close> down; \<open>pos\<close> and \<open>len\<close> are its variables.
\<close>

definition sys_maxsize :: nat where
  "sys_maxsize = 2 ^ 63 - 1"

fun decode_varlen_loop :: "nat \<Rightarrow> byte list \<Rightarrow> nat \<Rightarrow> nat \<Rightarrow> nat \<times> nat" where
  "decode_varlen_loop 0 data pos len = (0, 0)"
| "decode_varlen_loop (Suc k) data pos len =
     (let v = unat (data ! pos);
          len' = len OR push_bit (7 * pos) (v AND 0x7F)
      in if v AND 0x80 = 0 then (if sys_maxsize - 1 < len' then (0, 0) else (len', Suc pos))
         else decode_varlen_loop k data (Suc pos) len')"

definition decode_variable_length :: "byte list \<Rightarrow> nat \<times> nat" where
  "decode_variable_length data =
     (let max_count = (if length data < 5 then length data else 5)
      in decode_varlen_loop max_count data 0 0)"

section \<open>Variable-length integers\<close>

text \<open>
  The reference encoding: groups of seven bits, least significant first, the high bit set
  on all bytes but the last.
\<close>

fun encode_variable_length :: "nat \<Rightarrow> byte list" where
  "encode_variable_length n =
     (if n < 128 then [of_nat n]
      else of_nat (128 + n mod 128) # encode_variable_length (n div 128))"

declare encode_variable_length.simps [simp del]

lemma or_push_bit_add:
  fixes a b :: nat
  assumes "a < 2 ^ k"
  shows "a OR push_bit k b = a + b * 2 ^ k"
proof -
  have "a AND push_bit k b = 0"
  proof (rule bit_eqI)
    fix n
    have "take_bit k a = a" using assms by (rule take_bit_nat_eq_self)
    then have "bit a n \<Longrightarrow> n < k" by (metis bit_take_bit_iff)
    then show "bit (a AND push_bit k b) n = bit 0 n" by (auto simp: bit_simps)
  qed
  then show ?thesis by (simp add: disjunctive_add_eq_or [symmetric] push_bit_eq_mult)
qed

lemma and_7F: "v AND 0x7F = v mod 128" for v :: nat
proof -
  have "v AND mask 7 = v mod 2 ^ 7" by (simp only: take_bit_eq_mask [symmetric] take_bit_eq_mod)
  then show ?thesis by (simp add: mask_eq_exp_minus_1)
qed

lemma and_80: "v < 256 \<Longrightarrow> v AND 0x80 = 0 \<longleftrightarrow> v < 128" for v :: nat
proof -
  assume v: "v < 256"
  have "(0x80 :: nat) = 2 ^ 7" by simp
  then have "v AND 0x80 = 0 \<longleftrightarrow> \<not> bit v 7" by (simp only: and_exp_eq_0_iff_not_bit)
  also have "\<dots> \<longleftrightarrow> even (v div 128)" by (simp add: bit_iff_odd)
  also have "\<dots> \<longleftrightarrow> v < 128"
  proof -
    have "v div 128 = 0 \<or> v div 128 = 1" using v by auto
    then show ?thesis by auto
  qed
  finally show ?thesis .
qed

lemma unat_of_nat_byte: "n < 256 \<Longrightarrow> unat (of_nat n :: byte) = n"
  by (simp add: unat_of_nat)

lemma decode_varlen_loop_encode:
  assumes "length (encode_variable_length n) \<le> k" "len < 2 ^ (7 * length pre)"
    "len + n * 2 ^ (7 * length pre) < 2 ^ 35"
  shows "decode_varlen_loop k (pre @ encode_variable_length n @ rest) (length pre) len
    = (len + n * 2 ^ (7 * length pre), length pre + length (encode_variable_length n))"
  using assms
proof (induction k arbitrary: n pre len)
  case 0
  then show ?case by (simp add: encode_variable_length.simps [of n] split: if_splits)
next
  case (Suc k)
  have big: "\<not> sys_maxsize - 1 < len + n * 2 ^ (7 * length pre)"
    using Suc.prems(3) by (simp add: sys_maxsize_def)
  show ?case
  proof (cases "n < 128")
    case True
    then have e: "encode_variable_length n = [of_nat n]" by (simp add: encode_variable_length.simps)
    show ?thesis
      using True big Suc.prems(2)
      by (simp add: e nth_append Let_def unat_of_nat_byte and_7F and_80 or_push_bit_add)
  next
    case False
    define b where "b = (of_nat (128 + n mod 128) :: byte)"
    have ub: "unat b = 128 + n mod 128" unfolding b_def by (rule unat_of_nat_byte) simp
    have e: "encode_variable_length n = b # encode_variable_length (n div 128)"
      using False by (simp add: encode_variable_length.simps [of n] b_def)
    let ?len = "len + n mod 128 * 2 ^ (7 * length pre)"
    have "n mod 128 * 2 ^ (7 * length pre) \<le> 127 * 2 ^ (7 * length pre)"
      by (intro mult_right_mono) (simp_all add: Suc_le_eq [symmetric])
    then have "?len < 128 * 2 ^ (7 * length pre)" using Suc.prems(2) by linarith
    then have len: "?len < 2 ^ (7 * length (pre @ [b]))" by (simp add: power_add)
    have dist: "x * p + y * (128 * p) = (x + 128 * y) * p" for x y p :: nat
      by (simp add: algebra_simps)
    have sum: "?len + n div 128 * 2 ^ (7 * length (pre @ [b])) = len + n * 2 ^ (7 * length pre)"
      using dist [of "n mod 128" "2 ^ (7 * length pre)" "n div 128"] by (simp add: power_add)
    have IH: "decode_varlen_loop k ((pre @ [b]) @ encode_variable_length (n div 128) @ rest) (length (pre @ [b])) ?len
      = (len + n * 2 ^ (7 * length pre), length (pre @ [b]) + length (encode_variable_length (n div 128)))"
      using Suc.IH [OF _ len, of "n div 128"] Suc.prems(1,3) sum e by simp
    have "unat b mod 128 = n mod 128" "\<not> unat b < 128" using ub by simp_all
    then show ?thesis
      using IH Suc.prems(2) by (simp add: e nth_append Let_def and_7F and_80 [OF unat_byte] or_push_bit_add)
  qed
qed

lemma length_encode_variable_length: "n < 2 ^ (7 * k) \<Longrightarrow> 0 < k \<Longrightarrow> length (encode_variable_length n) \<le> k"
proof (induction k arbitrary: n)
  case (Suc k)
  show ?case
  proof (cases "n < 128")
    case True
    then show ?thesis by (simp add: encode_variable_length.simps)
  next
    case False
    then have "0 < k" using Suc.prems(1) by (cases k) auto
    moreover have "n div 128 < 2 ^ (7 * k)"
      using Suc.prems(1) by (simp add: power_add less_mult_imp_div_less mult.commute)
    ultimately show ?thesis using Suc.IH False by (simp add: encode_variable_length.simps [of n])
  qed
qed simp

section \<open>Properties\<close>

text \<open>decode_variable_length inverts the seven-bit group encoding of every length below
  2 ^ 35 (five groups), whatever bytes follow, and reports exactly the number of bytes the
  encoding takes.
\<close>
theorem decode_variable_length_encode:
  assumes "n < 2 ^ 35"
  shows "decode_variable_length (encode_variable_length n @ rest) = (n, length (encode_variable_length n))"
proof -
  have "length (encode_variable_length n) \<le> 5"
    using length_encode_variable_length [of n 5] assms by simp
  then show ?thesis
    using decode_varlen_loop_encode [of n _ 0 "[]" rest] assms
    by (simp add: decode_variable_length_def)
qed

theorem decode_variable_length_encode_witness:
  "decode_variable_length (encode_variable_length 300 @ [1, 2, 3]) = (300, 2)"
proof -
  have e: "encode_variable_length 300 = [172, 2]"
    by (simp add: encode_variable_length.simps)
  show ?thesis using decode_variable_length_encode [of 300 "[1, 2, 3]"] by (simp add: e)
qed

end
