(* ===== verification/PyValue.thy ===== *)
theory PyValue
  imports Bytes
begin

text \<open>
  The dynamically typed values that travel through the replicator: column values read from
  MySQL, converted for ClickHouse and sent to it. A float is its IEEE bit pattern; a decimal
  is its text; a UUID its 16 bytes; a timedelta its microseconds. A set is the list of its
  elements. \<^verbatim>\<open>isinstance(x, int)\<close> holds for booleans too.
\<close>

datatype py_val =
    VNone
  | VBool bool
  | VInt int
  | VFloat "64 word"
  | VStr string
  | VBytes "byte list"
  | VDecimal string
  | VDate int int int
  | VDateTime int int int int int int int
  | VTimeDelta int
  | VUuid "byte list"
  | VTuple "py_val list"
  | VList "py_val list"
  | VSet "py_val list"
  | VDict "(py_val \<times> py_val) list"

type_synonym row = "py_val list"

fun is_int :: "py_val \<Rightarrow> bool" where
  "is_int (VInt _) = True"
| "is_int (VBool _) = True"
| "is_int _ = False"

fun int_of :: "py_val \<Rightarrow> int" where
  "int_of (VInt i) = i"
| "int_of (VBool b) = (if b then 1 else 0)"
| "int_of _ = 0"

fun is_bytes :: "py_val \<Rightarrow> bool" where
  "is_bytes (VBytes _) = True"
| "is_bytes _ = False"

fun is_str :: "py_val \<Rightarrow> bool" where
  "is_str (VStr _) = True"
| "is_str _ = False"

text \<open>Truth of a value in a condition: \<^verbatim>\<open>if x\<close>.\<close>

fun truthy :: "py_val \<Rightarrow> bool" where
  "truthy VNone = False"
| "truthy (VBool b) = b"
| "truthy (VInt i) = (i \<noteq> 0)"
| "truthy (VFloat w) = (w \<noteq> 0 \<and> w \<noteq> 0x8000000000000000)"
| "truthy (VStr s) = (s \<noteq> [])"
| "truthy (VBytes bs) = (bs \<noteq> [])"
| "truthy (VDecimal d) = list_ex (\<lambda>c. c \<notin> set ''0.-+'') (takeWhile (\<lambda>c. c \<noteq> CHR ''E'') d)"
| "truthy (VTimeDelta d) = (d \<noteq> 0)"
| "truthy (VTuple vs) = (vs \<noteq> [])"
| "truthy (VList vs) = (vs \<noteq> [])"
| "truthy (VSet vs) = (vs \<noteq> [])"
| "truthy (VDict kvs) = (kvs \<noteq> [])"
| "truthy _ = True"

text \<open>\<^verbatim>\<open>for x in v\<close>: TypeError if \<^verbatim>\<open>v\<close> is not iterable.\<close>

fun py_iter :: "py_val \<Rightarrow> py_val list res" where
  "py_iter (VStr s) = Inr (map (\<lambda>c. VStr [c]) s)"
| "py_iter (VBytes bs) = Inr (map (\<lambda>b. VInt (uint b)) bs)"
| "py_iter (VTuple vs) = Inr vs"
| "py_iter (VList vs) = Inr vs"
| "py_iter (VSet vs) = Inr vs"
| "py_iter (VDict kvs) = Inr (map fst kvs)"
| "py_iter _ = Inl TypeError"

section \<open>Relay events\<close>

text \<open>\<^verbatim>\<open>EventType\<close> and \<^verbatim>\<open>LogEvent\<close> of \<^verbatim>\<open>binlog_replicator.py\<close>.\<close>

datatype event_type = UNKNOWN | ADD_EVENT | REMOVE_EVENT | QUERY

text \<open>The \<^verbatim>\<open>records\<close> of a row event are its rows, those of a query event the query text.\<close>

datatype records = Rows "row list" | Query string

record log_event =
  transaction_id :: "string \<times> int"
  db_name :: string
  event_table :: string
  records_of :: records
  event_type_of :: event_type

text \<open>\<^verbatim>\<open>len(log_event.records)\<close>.\<close>

fun records_len :: "records \<Rightarrow> nat" where
  "records_len (Rows rs) = length rs"
| "records_len (Query q) = length q"

end
