(* ===== verification/Config.thy ===== *)
theory Config
  imports PyValue
begin

text \<open>
  \<^verbatim>\<open>config.py\<close>: the settings, read from a YAML mapping with overrides from the environment,
  their validation, and the queries the other components ask of them: which databases and
  tables are replicated, where they go, and the extra clauses configured for a table.
  Values that come from YAML are dynamically typed. The parsed YAML, the environment and
  the time zone database are arguments.
\<close>

section \<open>Shell patterns\<close>

text \<open>
  \<^verbatim>\<open>fnmatch.fnmatch\<close> of the standard library, on POSIX: \<^verbatim>\<open>*\<close>, \<^verbatim>\<open>?\<close>, \<^verbatim>\<open>[seq]\<close>, \<^verbatim>\<open>[!seq]\<close>.
\<close>

definition parse_class :: "string \<Rightarrow> (bool \<times> string \<times> string) option" where
  "parse_class p =
     (let (neg, q) = (case p of c # r \<Rightarrow> if c = CHR ''!'' then (True, r) else (False, p) | [] \<Rightarrow> (False, p));
          (pre, q') = (case q of c # r \<Rightarrow> if c = CHR '']'' then ([c], r) else ([], q) | [] \<Rightarrow> ([], q))
      in case find_char CHR '']'' q' of
           None \<Rightarrow> None
         | Some i \<Rightarrow> Some (neg, pre @ take i q', drop (Suc i) q'))"

fun class_items :: "string \<Rightarrow> (char \<times> char) list" where
  "class_items (a # b # c # r) = (if b = CHR ''-'' then (a, c) # class_items r else (a, a) # class_items (b # c # r))"
| "class_items (a # r) = (a, a) # class_items r"
| "class_items [] = []"

definition class_has :: "bool \<Rightarrow> string \<Rightarrow> char \<Rightarrow> bool" where
  "class_has neg stuff c \<longleftrightarrow> (list_ex (\<lambda>(lo, hi). code lo \<le> code c \<and> code c \<le> code hi) (class_items stuff) \<noteq> neg)"

lemma parse_class_length: "parse_class p = Some (neg, stuff, rest) \<Longrightarrow> length rest \<le> length p"
  by (auto simp: parse_class_def Let_def split: list.splits option.splits if_splits prod.splits)

function glob :: "string \<Rightarrow> string \<Rightarrow> bool" where
  "glob [] s = (s = [])"
| "glob (c # p) s =
     (if c = CHR ''*'' then glob p s \<or> (case s of [] \<Rightarrow> False | _ # t \<Rightarrow> glob (c # p) t)
      else case s of
        [] \<Rightarrow> False
      | d # t \<Rightarrow>
          if c = CHR ''?'' then glob p t
          else if c = CHR ''['' then
            (case parse_class p of
               None \<Rightarrow> d = c \<and> glob p t
             | Some (neg, stuff, rest) \<Rightarrow> class_has neg stuff d \<and> glob rest t)
          else d = c \<and> glob p t)"
  by pat_completeness auto
termination
  by (relation "measure (\<lambda>(p, s). length p + length s)") (auto dest: parse_class_length)

declare glob.simps(2) [simp del]

definition fnmatch :: "string \<Rightarrow> py_val \<Rightarrow> bool res" where
  "fnmatch name pattern = (case pattern of VStr p \<Rightarrow> Inr (glob p name) | _ \<Rightarrow> Inl TypeError)"

section \<open>Settings\<close>

record MysqlSettings =
  mysql_host :: py_val
  mysql_port :: py_val
  mysql_user :: py_val
  mysql_password :: py_val
  mysql_charset :: py_val

record ClickhouseSettings =
  ch_host :: py_val
  ch_port :: py_val
  ch_user :: py_val
  ch_password :: py_val
  ch_cluster :: py_val
  connection_timeout :: py_val
  send_receive_timeout :: py_val
  erase_batch_size :: py_val

record BinlogReplicatorSettings =
  data_dir_path :: py_val
  br_records_per_file :: py_val
  binlog_retention_period :: py_val

text \<open>\<^verbatim>\<open>Index\<close>, \<^verbatim>\<open>PartitionBy\<close> and \<^verbatim>\<open>OrderBy\<close> have the same shape: \<open>clause\<close> is the third field.\<close>

record TableClause =
  cl_databases :: py_val
  cl_tables :: py_val
  clause :: py_val

record PostInitialReplicationCommands =
  pc_databases :: py_val
  commands :: py_val

record Settings =
  mysql :: MysqlSettings
  clickhouse :: ClickhouseSettings
  binlog_replicator :: BinlogReplicatorSettings
  databases :: py_val
  tables :: py_val
  exclude_databases :: py_val
  exclude_tables :: py_val
  log_level :: py_val
  debug_log_level :: bool
  optimize_interval :: py_val
  enable_optimize_final :: py_val
  check_db_updated_interval :: py_val
  indexes :: "TableClause list"
  partition_bys :: "TableClause list"
  order_bys :: "TableClause list"
  post_initial_replication_commands :: "PostInitialReplicationCommands list"
  auto_restart_interval :: py_val
  http_host :: py_val
  http_port :: py_val
  types_mapping :: py_val
  target_databases :: py_val
  target_tables :: py_val
  initial_replication_threads :: py_val
  ignore_deletes :: py_val
  cluster_mode :: bool
  mysql_timezone :: py_val
  initial_replication_batch_size :: py_val
  skip_initial_replication :: py_val
  version_initial_value :: py_val

text \<open>
  \<^verbatim>\<open>Class(**kwargs)\<close> for a dataclass with the fields \<open>names\<close>: the argument must be a mapping
  with these keys only; \<open>field kw name default\<close> is the value the object gets.
\<close>

definition kwargs :: "string list \<Rightarrow> py_val \<Rightarrow> (py_val \<times> py_val) list res" where
  "kwargs names v = (case v of
      VDict kvs \<Rightarrow> if list_all (\<lambda>(k, _). k \<in> VStr ` set names) kvs then Inr kvs else Inl TypeError
    | _ \<Rightarrow> Inl TypeError)"

definition kwfield :: "(py_val \<times> py_val) list \<Rightarrow> string \<Rightarrow> py_val \<Rightarrow> py_val" where
  "kwfield kvs name dflt = (case map_of kvs (VStr name) of None \<Rightarrow> dflt | Some v \<Rightarrow> v)"

definition make_mysql :: "py_val \<Rightarrow> MysqlSettings res" where
  "make_mysql v = bindE (kwargs [''host'', ''port'', ''user'', ''password'', ''charset''] v) (\<lambda>kw. Inr
     \<lparr>mysql_host = kwfield kw ''host'' (VStr ''localhost''), mysql_port = kwfield kw ''port'' (VInt 3306),
      mysql_user = kwfield kw ''user'' (VStr ''root''), mysql_password = kwfield kw ''password'' (VStr ''''),
      mysql_charset = kwfield kw ''charset'' (VStr ''utf8mb4'')\<rparr>)"

definition make_clickhouse :: "py_val \<Rightarrow> ClickhouseSettings res" where
  "make_clickhouse v = bindE (kwargs [''host'', ''port'', ''user'', ''password'', ''cluster'',
       ''connection_timeout'', ''send_receive_timeout'', ''erase_batch_size''] v) (\<lambda>kw. Inr
     \<lparr>ch_host = kwfield kw ''host'' (VStr ''localhost''), ch_port = kwfield kw ''port'' (VInt 3306),
      ch_user = kwfield kw ''user'' (VStr ''root''), ch_password = kwfield kw ''password'' (VStr ''''),
      ch_cluster = kwfield kw ''cluster'' (VStr ''''),
      connection_timeout = kwfield kw ''connection_timeout'' (VInt 30),
      send_receive_timeout = kwfield kw ''send_receive_timeout'' (VInt 120),
      erase_batch_size = kwfield kw ''erase_batch_size'' (VInt 100000)\<rparr>)"

definition make_binlog_replicator :: "py_val \<Rightarrow> BinlogReplicatorSettings res" where
  "make_binlog_replicator v = bindE (kwargs [''data_dir'', ''records_per_file'', ''binlog_retention_period''] v) (\<lambda>kw. Inr
     \<lparr>data_dir_path = kwfield kw ''data_dir'' (VStr ''binlog''),
      br_records_per_file = kwfield kw ''records_per_file'' (VInt 100000),
      binlog_retention_period = kwfield kw ''binlog_retention_period'' (VInt 43200)\<rparr>)"

definition make_clause :: "string \<Rightarrow> py_val \<Rightarrow> TableClause res" where
  "make_clause name v = bindE (kwargs [''databases'', ''tables'', name] v) (\<lambda>kw. Inr
     \<lparr>cl_databases = kwfield kw ''databases'' (VStr ''*''), cl_tables = kwfield kw ''tables'' (VStr ''*''),
      clause = kwfield kw name (VStr '''')\<rparr>)"

definition make_commands :: "py_val \<Rightarrow> PostInitialReplicationCommands res" where
  "make_commands v = bindE (kwargs [''databases'', ''commands''] v) (\<lambda>kw. Inr
     \<lparr>pc_databases = kwfield kw ''databases'' (VStr ''*''), commands = kwfield kw ''commands'' VNone\<rparr>)"

section \<open>Validation\<close>

text \<open>Each check of the validators, in order; all of them raise ValueError.\<close>

definition check :: "bool list \<Rightarrow> unit res" where
  "check cs = (if list_all id cs then Inr () else Inl ValueError)"

definition MysqlSettings_validate :: "MysqlSettings \<Rightarrow> unit res" where
  "MysqlSettings_validate m = check [is_str (mysql_host m), is_int (mysql_port m), is_str (mysql_user m),
     is_str (mysql_password m), is_str (mysql_charset m)]"

definition ClickhouseSettings_validate :: "ClickhouseSettings \<Rightarrow> unit res" where
  "ClickhouseSettings_validate c = check [is_str (ch_host c), is_int (ch_port c), is_str (ch_user c),
     is_str (ch_password c), is_str (ch_cluster c), is_int (connection_timeout c), is_int (send_receive_timeout c),
     0 < int_of (connection_timeout c), 0 < int_of (send_receive_timeout c),
     is_int (erase_batch_size c), 0 < int_of (erase_batch_size c)]"

definition BinlogReplicatorSettings_validate :: "BinlogReplicatorSettings \<Rightarrow> unit res" where
  "BinlogReplicatorSettings_validate b = check [is_str (data_dir_path b), is_int (br_records_per_file b),
     0 < int_of (br_records_per_file b), is_int (binlog_retention_period b), 0 < int_of (binlog_retention_period b)]"

definition validate_log_level :: "Settings \<Rightarrow> Settings res" where
  "validate_log_level s =
     (if log_level s \<notin> {VStr ''critical'', VStr ''error'', VStr ''warning'', VStr ''info'', VStr ''debug''}
      then Inl ValueError
      else Inr (if log_level s = VStr ''debug'' then s\<lparr>debug_log_level := True\<rparr> else s))"

definition validate_mysql_timezone :: "(string \<Rightarrow> bool) \<Rightarrow> Settings \<Rightarrow> unit res" where
  "validate_mysql_timezone tz_known s =
     (case mysql_timezone s of VStr tz \<Rightarrow> check [tz_known tz] | _ \<Rightarrow> Inl ValueError)"

definition is_dict :: "py_val \<Rightarrow> bool" where
  "is_dict v = (case v of VDict _ \<Rightarrow> True | _ \<Rightarrow> False)"

definition Settings_validate :: "(string \<Rightarrow> bool) \<Rightarrow> Settings \<Rightarrow> Settings res" where
  "Settings_validate tz_known s =
     bindE (MysqlSettings_validate (mysql s)) (\<lambda>_.
     bindE (ClickhouseSettings_validate (clickhouse s)) (\<lambda>_.
     bindE (BinlogReplicatorSettings_validate (binlog_replicator s)) (\<lambda>_.
     bindE (validate_log_level s) (\<lambda>s1.
     bindE (check [is_dict (target_databases s1), is_dict (target_tables s1),
              is_int (initial_replication_threads s1), 0 \<le> int_of (initial_replication_threads s1),
              is_int (version_initial_value s1), 0 \<le> int_of (version_initial_value s1)]) (\<lambda>_.
     bindE (validate_mysql_timezone tz_known s1) (\<lambda>_. Inr s1))))))"

section \<open>Loading\<close>

text \<open>
  \<^verbatim>\<open>os.getenv(name)\<close> when it is set and not empty.
\<close>

type_synonym environment = "string \<Rightarrow> string option"

definition getenv :: "environment \<Rightarrow> string \<Rightarrow> string option" where
  "getenv env name = (case env name of None \<Rightarrow> None | Some v \<Rightarrow> if v = [] then None else Some v)"

definition override :: "environment \<Rightarrow> string \<Rightarrow> py_val \<Rightarrow> py_val" where
  "override env name v = (case getenv env name of None \<Rightarrow> v | Some s \<Rightarrow> VStr s)"

definition override_int :: "environment \<Rightarrow> string \<Rightarrow> py_val \<Rightarrow> py_val res" where
  "override_int env name v = (case getenv env name of None \<Rightarrow> Inr v | Some s \<Rightarrow> bindE (py_int s) (\<lambda>i. Inr (VInt i)))"

definition apply_env_overrides :: "environment \<Rightarrow> MysqlSettings \<times> ClickhouseSettings \<Rightarrow> (MysqlSettings \<times> ClickhouseSettings) res" where
  "apply_env_overrides env = (\<lambda>(m, c).
     bindE (override_int env ''MYSQL_PORT'' (mysql_port m)) (\<lambda>mport.
     bindE (override_int env ''CLICKHOUSE_PORT'' (ch_port c)) (\<lambda>cport.
       Inr (m\<lparr>mysql_host := override env ''MYSQL_HOST'' (mysql_host m), mysql_port := mport,
              mysql_user := override env ''MYSQL_USER'' (mysql_user m),
              mysql_password := override env ''MYSQL_PASSWORD'' (mysql_password m),
              mysql_charset := override env ''MYSQL_CHARSET'' (mysql_charset m)\<rparr>,
            c\<lparr>ch_host := override env ''CLICKHOUSE_HOST'' (ch_host c), ch_port := cport,
              ch_user := override env ''CLICKHOUSE_USER'' (ch_user c),
              ch_password := override env ''CLICKHOUSE_PASSWORD'' (ch_password c)\<rparr>))))"

definition known_options :: "string list" where
  "known_options = [''mysql'', ''clickhouse'', ''databases'', ''tables'', ''exclude_databases'', ''exclude_tables'',
     ''log_level'', ''optimize_interval'', ''enable_optimize_final'', ''check_db_updated_interval'',
     ''auto_restart_interval'', ''types_mapping'', ''http_host'', ''http_port'', ''target_databases'',
     ''target_tables'', ''initial_replication_threads'', ''ignore_deletes'', ''mysql_timezone'',
     ''initial_replication_batch_size'', ''skip_initial_replication'', ''version_initial_value'', ''indexes'',
     ''partition_bys'', ''order_bys'', ''post_initial_replication_commands'', ''binlog_replicator'']"

definition popE :: "(py_val \<times> py_val) list \<Rightarrow> string \<Rightarrow> py_val res" where
  "popE data name = (case map_of data (VStr name) of None \<Rightarrow> Inl KeyError | Some v \<Rightarrow> Inr v)"

definition load_list :: "(py_val \<Rightarrow> 'a res) \<Rightarrow> py_val \<Rightarrow> 'a list res" where
  "load_list mk v = bindE (py_iter v) (mapE mk)"

text \<open>
  \<^verbatim>\<open>Settings.load\<close> on the parsed YAML value; every option is popped from it, and what is
  left over is refused.
\<close>

definition Settings_load :: "(string \<Rightarrow> bool) \<Rightarrow> environment \<Rightarrow> py_val \<Rightarrow> Settings res" where
  "Settings_load tz_known env v = (case v of
     VDict data \<Rightarrow>
       bindE (make_mysql (kwfield data ''mysql'' (VDict []))) (\<lambda>m.
       bindE (make_clickhouse (kwfield data ''clickhouse'' (VDict []))) (\<lambda>c.
       bindE (apply_env_overrides env (m, c)) (\<lambda>(m, c).
       bindE (popE data ''databases'') (\<lambda>dbs.
       bindE (load_list (make_clause ''index'') (kwfield data ''indexes'' (VList []))) (\<lambda>ixs.
       bindE (load_list (make_clause ''partition_by'') (kwfield data ''partition_bys'' (VList []))) (\<lambda>pbs.
       bindE (load_list (make_clause ''order_by'') (kwfield data ''order_bys'' (VList []))) (\<lambda>obs.
       bindE (load_list make_commands (kwfield data ''post_initial_replication_commands'' (VList []))) (\<lambda>pcs.
       let tbls = kwfield data ''tables'' (VStr ''*'');
           str_or_list = (\<lambda>x. case x of VStr _ \<Rightarrow> True | VList _ \<Rightarrow> True | _ \<Rightarrow> False)
       in raise_if (\<not> str_or_list dbs) AssertionError (raise_if (\<not> str_or_list tbls) AssertionError
       (bindE (popE data ''binlog_replicator'') (\<lambda>brv.
        bindE (make_binlog_replicator brv) (\<lambda>br.
        raise_if (list_ex (\<lambda>(k, _). k \<notin> VStr ` set known_options) data) (PyException ''Unsupported config options'')
        (Settings_validate tz_known
          \<lparr>mysql = m, clickhouse = c, binlog_replicator = br, databases = dbs, tables = tbls,
           exclude_databases = kwfield data ''exclude_databases'' (VStr ''''),
           exclude_tables = kwfield data ''exclude_tables'' (VStr ''''),
           log_level = kwfield data ''log_level'' (VStr ''info''), debug_log_level = False,
           optimize_interval = kwfield data ''optimize_interval'' (VInt 86400),
           enable_optimize_final = kwfield data ''enable_optimize_final'' (VBool True),
           check_db_updated_interval = kwfield data ''check_db_updated_interval'' (VInt 120),
           indexes = ixs, partition_bys = pbs, order_bys = obs, post_initial_replication_commands = pcs,
           auto_restart_interval = kwfield data ''auto_restart_interval'' (VInt 3600),
           http_host = kwfield data ''http_host'' (VStr ''''), http_port = kwfield data ''http_port'' (VInt 0),
           types_mapping = kwfield data ''types_mapping'' (VDict []),
           target_databases = kwfield data ''target_databases'' (VDict []),
           target_tables = kwfield data ''target_tables'' (VDict []),
           initial_replication_threads = kwfield data ''initial_replication_threads'' (VInt 0),
           ignore_deletes = kwfield data ''ignore_deletes'' (VBool False),
           cluster_mode = truthy (ch_cluster c),
           mysql_timezone = kwfield data ''mysql_timezone'' (VStr ''UTC''),
           initial_replication_batch_size = kwfield data ''initial_replication_batch_size'' (VInt 50000),
           skip_initial_replication = kwfield data ''skip_initial_replication'' (VBool False),
           version_initial_value = kwfield data ''version_initial_value'' (VInt 0)\<rparr>)))))))))))))
   | _ \<Rightarrow> Inl AttributeError)"

section \<open>Queries\<close>

fun any_matches :: "string \<Rightarrow> py_val list \<Rightarrow> bool res" where
  "any_matches substr [] = Inr False"
| "any_matches substr (p # ps) = bindE (fnmatch substr p) (\<lambda>m. if m then Inr True else any_matches substr ps)"

definition is_pattern_matches :: "string \<Rightarrow> py_val \<Rightarrow> bool res" where
  "is_pattern_matches substr pattern =
     (if \<not> truthy pattern \<or> pattern = VStr ''*'' then Inr True
      else case pattern of
             VStr _ \<Rightarrow> fnmatch substr pattern
           | VList ps \<Rightarrow> any_matches substr ps
           | _ \<Rightarrow> Inl ValueError)"

definition matches_unless_excluded :: "py_val \<Rightarrow> py_val \<Rightarrow> string \<Rightarrow> bool res" where
  "matches_unless_excluded excluded included name =
     (if truthy excluded
      then bindE (is_pattern_matches name excluded) (\<lambda>ex. if ex then Inr False else is_pattern_matches name included)
      else is_pattern_matches name included)"

definition is_database_matches :: "Settings \<Rightarrow> string \<Rightarrow> bool res" where
  "is_database_matches s name = matches_unless_excluded (exclude_databases s) (databases s) name"

definition is_table_matches :: "Settings \<Rightarrow> string \<Rightarrow> bool res" where
  "is_table_matches s name = matches_unless_excluded (exclude_tables s) (tables s) name"

fun select_clauses :: "string \<Rightarrow> string \<Rightarrow> TableClause list \<Rightarrow> py_val list res" where
  "select_clauses db table [] = Inr []"
| "select_clauses db table (c # cs) =
     bindE (is_pattern_matches db (cl_databases c)) (\<lambda>dm.
       if \<not> dm then select_clauses db table cs
       else bindE (is_pattern_matches table (cl_tables c)) (\<lambda>tm.
         if \<not> tm then select_clauses db table cs
         else bindE (select_clauses db table cs) (\<lambda>rs. Inr (clause c # rs))))"

definition get_indexes :: "Settings \<Rightarrow> string \<Rightarrow> string \<Rightarrow> py_val list res" where
  "get_indexes s db table = select_clauses db table (indexes s)"

definition get_partition_bys :: "Settings \<Rightarrow> string \<Rightarrow> string \<Rightarrow> py_val list res" where
  "get_partition_bys s db table = select_clauses db table (partition_bys s)"

definition get_order_bys :: "Settings \<Rightarrow> string \<Rightarrow> string \<Rightarrow> py_val list res" where
  "get_order_bys s db table = select_clauses db table (order_bys s)"

fun select_commands :: "string \<Rightarrow> PostInitialReplicationCommands list \<Rightarrow> py_val list res" where
  "select_commands db [] = Inr []"
| "select_commands db (c # cs) =
     bindE (is_pattern_matches db (pc_databases c)) (\<lambda>m.
       if \<not> m then select_commands db cs
       else bindE (if truthy (commands c) then py_iter (commands c) else Inr []) (\<lambda>xs.
         bindE (select_commands db cs) (\<lambda>rs. Inr (xs @ rs))))"

definition get_post_initial_replication_commands :: "Settings \<Rightarrow> string \<Rightarrow> py_val list res" where
  "get_post_initial_replication_commands s db = select_commands db (post_initial_replication_commands s)"

text \<open>The counting loop with its early exit.\<close>

fun count_target :: "py_val \<Rightarrow> nat \<Rightarrow> (py_val \<times> py_val) list \<Rightarrow> bool" where
  "count_target target n [] = False"
| "count_target target n ((_, ch_db) # rest) =
     (if ch_db = target then (if 1 < Suc n then True else count_target target (Suc n) rest)
      else count_target target n rest)"

definition is_multiple_mysql_dbs_to_single_ch_db :: "Settings \<Rightarrow> string \<Rightarrow> string \<Rightarrow> bool" where
  "is_multiple_mysql_dbs_to_single_ch_db s mysql_database target_database =
     (case target_databases s of
        VDict kvs \<Rightarrow> if kvs = [] then False else count_target (VStr target_database) 0 kvs
      | _ \<Rightarrow> False)"

definition get_target_table_name :: "Settings \<Rightarrow> string \<Rightarrow> string \<Rightarrow> py_val" where
  "get_target_table_name s source_database source_table =
     (case target_tables s of
        VDict kvs \<Rightarrow> kwfield kvs (source_database @ ''.'' @ source_table) (VStr source_table)
      | _ \<Rightarrow> VStr source_table)"

section \<open>Patterns and selection\<close>

lemma glob_star_Nil [simp]: "glob ''*'' s"
  by (induction s) (simp_all add: glob.simps(2))

lemma glob_plain:
  "list_all (\<lambda>c. c \<notin> set ''*?['') u \<Longrightarrow> glob (u @ p) s \<longleftrightarrow> (\<exists>t. s = u @ t \<and> glob p t)"
proof (induction u arbitrary: s)
  case (Cons c u)
  then show ?case by (cases s) (auto simp: glob.simps(2))
qed simp

text \<open>The patterns users write: a plain name, and a prefix followed by a star.\<close>

lemma glob_name: "list_all (\<lambda>c. c \<notin> set ''*?['') u \<Longrightarrow> glob u s \<longleftrightarrow> s = u"
  using glob_plain [of u "[]" s] by simp

lemma glob_prefix: "list_all (\<lambda>c. c \<notin> set ''*?['') u \<Longrightarrow> glob (u @ ''*'') s \<longleftrightarrow> startswith s u"
  using glob_plain [of u "''*''" s] by (simp add: startswith_iff)

lemma glob_star_iff: "glob (CHR ''*'' # p) s \<longleftrightarrow> (\<exists>u t. s = u @ t \<and> glob p t)"
proof (induction s)
  case Nil
  then show ?case by (simp add: glob.simps(2))
next
  case (Cons c s)
  have "glob (CHR ''*'' # p) (c # s) \<longleftrightarrow> glob p (c # s) \<or> glob (CHR ''*'' # p) s"
    by (simp add: glob.simps(2))
  with Cons show ?case
    by (auto simp: Cons_eq_append_conv)
qed

lemma any_matches_strings: "any_matches name (map VStr ps) = Inr (\<exists>p \<in> set ps. glob p name)"
  by (induction ps) (auto simp: fnmatch_def)

text \<open>A selection in the settings: a pattern or a list of patterns.\<close>

fun selection :: "py_val \<Rightarrow> string list option" where
  "selection (VStr s) = Some [s]"
| "selection (VList vs) = (if list_all is_str vs then Some (map (\<lambda>v. case v of VStr s \<Rightarrow> s | _ \<Rightarrow> []) vs) else None)"
| "selection _ = None"

lemma selection_list: "selection (VList vs) = Some ps \<Longrightarrow> vs = map VStr ps"
  by (auto split: if_splits) (induction vs arbitrary: ps, auto split: py_val.splits elim!: is_str.elims)

lemma is_pattern_matches_selection:
  assumes "selection pattern = Some ps"
  shows "is_pattern_matches name pattern = Inr (\<not> truthy pattern \<or> (\<exists>p \<in> set ps. glob p name))"
proof (cases pattern)
  case (VStr s)
  with assms show ?thesis by (auto simp: is_pattern_matches_def fnmatch_def)
next
  case (VList vs)
  with assms selection_list [of vs ps] any_matches_strings [of name ps] show ?thesis
    by (auto simp: is_pattern_matches_def simp del: selection.simps)
qed (use assms in auto)

text \<open>C16. Which databases are replicated. When the configured \<^verbatim>\<open>databases\<close> and
  \<^verbatim>\<open>exclude_databases\<close> are patterns or lists of patterns, the decision never raises, and a
  database is replicated exactly when no exclude pattern matches its name and the include
  patterns are empty or one of them matches: exclusion wins.\<close>

theorem database_selected_iff:
  assumes "selection (databases s) = Some included" and "selection (exclude_databases s) = Some excluded"
  shows "is_database_matches s name = Inr (
     \<not> (truthy (exclude_databases s) \<and> (\<exists>p \<in> set excluded. glob p name))
     \<and> (truthy (databases s) \<longrightarrow> (\<exists>p \<in> set included. glob p name)))"
  using is_pattern_matches_selection [OF assms(1), of name] is_pattern_matches_selection [OF assms(2), of name]
  by (auto simp: is_database_matches_def matches_unless_excluded_def)

definition sample_yaml :: py_val where
  "sample_yaml = VDict [(VStr ''databases'', VList [VStr ''shop_*'', VStr ''crm'']),
     (VStr ''exclude_databases'', VStr ''*_test''),
     (VStr ''clickhouse'', VDict [(VStr ''cluster'', VStr ''main'')]),
     (VStr ''target_databases'', VDict [(VStr ''a'', VStr ''x''), (VStr ''b'', VStr ''x'')]),
     (VStr ''log_level'', VStr ''debug''),
     (VStr ''binlog_replicator'', VDict [(VStr ''data_dir'', VStr ''/data'')])]"

definition sample_settings :: Settings where
  "sample_settings = (case Settings_load (\<lambda>tz. tz = ''UTC'') (\<lambda>_. None) sample_yaml of Inr s \<Rightarrow> s)"

lemma sample_settings_load:
  "Settings_load (\<lambda>tz. tz = ''UTC'') (\<lambda>_. None) sample_yaml = Inr sample_settings"
proof -
  have "case Settings_load (\<lambda>tz. tz = ''UTC'') (\<lambda>_. None) sample_yaml of Inr s \<Rightarrow> True | Inl _ \<Rightarrow> False"
    by code_simp
  then show ?thesis
    by (simp add: sample_settings_def split: sum.splits)
qed

theorem database_selected_iff_witness:
  "is_database_matches sample_settings ''shop_eu'' = Inr True
   \<and> is_database_matches sample_settings ''shop_test'' = Inr False"
proof -
  have "selection (databases sample_settings) = Some [''shop_*'', ''crm'']"
    "selection (exclude_databases sample_settings) = Some [''*_test'']"
    by code_simp+
  note d = database_selected_iff [OF this]
  moreover have "glob ''shop_*'' ''shop_eu'' = True" "glob ''*_test'' ''shop_eu'' = False"
    "glob ''*_test'' ''shop_test'' = True"
    by code_simp+
  moreover have "truthy (exclude_databases sample_settings) = True" by code_simp
  ultimately show ?thesis by simp
qed

section \<open>A loaded configuration is valid\<close>

lemma check_Inr_iff [res_simps]: "check cs = Inr u \<longleftrightarrow> list_all id cs"
  by (simp add: check_def)

definition settings_valid :: "(string \<Rightarrow> bool) \<Rightarrow> Settings \<Rightarrow> bool" where
  "settings_valid tz_known s \<longleftrightarrow>
     is_int (mysql_port (mysql s)) \<and> is_str (mysql_host (mysql s))
   \<and> is_int (ch_port (clickhouse s)) \<and> 0 < int_of (connection_timeout (clickhouse s))
   \<and> 0 < int_of (send_receive_timeout (clickhouse s)) \<and> 0 < int_of (erase_batch_size (clickhouse s))
   \<and> 0 < int_of (br_records_per_file (binlog_replicator s))
   \<and> 0 < int_of (binlog_retention_period (binlog_replicator s))
   \<and> 0 \<le> int_of (initial_replication_threads s) \<and> 0 \<le> int_of (version_initial_value s)
   \<and> is_dict (target_databases s) \<and> is_dict (target_tables s)
   \<and> (case mysql_timezone s of VStr tz \<Rightarrow> tz_known tz | _ \<Rightarrow> False)"

lemma Settings_validate_Inr:
  assumes "Settings_validate tz_known s = Inr t" and "\<not> debug_log_level s"
  shows "settings_valid tz_known t" and "debug_log_level t \<longleftrightarrow> log_level t = VStr ''debug''"
    and "t = s\<lparr>debug_log_level := debug_log_level t\<rparr>"
  using assms
  by (auto simp: Settings_validate_def MysqlSettings_validate_def ClickhouseSettings_validate_def
      BinlogReplicatorSettings_validate_def validate_log_level_def validate_mysql_timezone_def
      settings_valid_def res_simps split: if_splits py_val.splits)

lemma Settings_load_validates:
  assumes "Settings_load tz_known env (VDict data) = Inr s"
  shows "\<exists>s0. Settings_validate tz_known s0 = Inr s \<and> \<not> debug_log_level s0
     \<and> (cluster_mode s0 \<longleftrightarrow> truthy (ch_cluster (clickhouse s0)))
     \<and> fst ` set data \<subseteq> VStr ` set known_options"
  using assms unfolding Settings_load_def
  apply (clarsimp simp: Let_def res_simps list_ex_iff)
  apply (rule exI, rule conjI, assumption)
  apply force
  done



lemma count_target_count:
  "count_target t n kvs \<longleftrightarrow> 2 \<le> n + length (filter (\<lambda>(_, d). d = t) kvs) \<and> (\<exists>p \<in> set kvs. snd p = t)"
  by (induction t n kvs rule: count_target.induct) (force simp: Suc_le_eq filter_empty_conv)+

text \<open>Exactly when at least two MySQL databases are mapped to the target.\<close>

lemma is_multiple_iff:
  "target_databases s = VDict kvs \<Longrightarrow> is_multiple_mysql_dbs_to_single_ch_db s db t
     \<longleftrightarrow> 2 \<le> length (filter (\<lambda>(_, d). d = VStr t) kvs)"
proof -
  assume "target_databases s = VDict kvs"
  then have "is_multiple_mysql_dbs_to_single_ch_db s db t \<longleftrightarrow> kvs \<noteq> [] \<and> count_target (VStr t) 0 kvs"
    by (simp add: is_multiple_mysql_dbs_to_single_ch_db_def)
  moreover have "\<exists>p \<in> set kvs. snd p = VStr t" if "2 \<le> length (filter (\<lambda>(_, d). d = VStr t) kvs)"
    using that by (cases "filter (\<lambda>(_, d). d = VStr t) kvs") (auto simp: filter_eq_Cons_iff)
  ultimately show ?thesis
    by (cases "kvs = []") (auto simp: count_target_count)
qed

text \<open>Settings in normal form, for the examples of other theories.\<close>

definition plain_settings :: Settings where
  "plain_settings = \<lparr>mysql = \<lparr>mysql_host = VStr ''localhost'', mysql_port = VInt 3306, mysql_user = VStr ''root'',
       mysql_password = VStr [], mysql_charset = VStr ''utf8mb4''\<rparr>,
     clickhouse = \<lparr>ch_host = VStr ''localhost'', ch_port = VInt 3306, ch_user = VStr ''root'', ch_password = VStr [],
       ch_cluster = VStr [], connection_timeout = VInt 30, send_receive_timeout = VInt 120, erase_batch_size = VInt 100000\<rparr>,
     binlog_replicator = \<lparr>data_dir_path = VStr ''/data'', br_records_per_file = VInt 100000,
       binlog_retention_period = VInt 43200\<rparr>,
     databases = VList [VStr ''shop_*'', VStr ''crm''], tables = VStr ''*'', exclude_databases = VStr [], exclude_tables = VStr [],
     log_level = VStr ''info'', debug_log_level = False, optimize_interval = VInt 86400, enable_optimize_final = VBool True,
     check_db_updated_interval = VInt 120, indexes = [], partition_bys = [], order_bys = [],
     post_initial_replication_commands = [], auto_restart_interval = VInt 3600, http_host = VStr [], http_port = VInt 0,
     types_mapping = VDict [], target_databases = VDict [], target_tables = VDict [], initial_replication_threads = VInt 0,
     ignore_deletes = VBool False, cluster_mode = False, mysql_timezone = VStr ''UTC'',
     initial_replication_batch_size = VInt 50000, skip_initial_replication = VBool False, version_initial_value = VInt 0\<rparr>"

end
