(* ===== verification/RelayFile.thy ===== *)
theory RelayFile
  imports PyValue
begin

text \<open>
  The files of the local relay, \<^verbatim>\<open>FileWriter\<close> and \<^verbatim>\<open>FileReader\<close> of
  \<^verbatim>\<open>binlog_replicator.py\<close>: each event is a four-byte big-endian length and that many bytes of
  pickled data. The reader runs in another process while the writer appends, so a call may
  find any prefix of what will be written; it keeps the bytes of an incomplete frame and
  goes on from there at the next call. \<^verbatim>\<open>pickle.dumps\<close> and \<^verbatim>\<open>pickle.loads\<close> are the
  arguments \<open>dumps\<close> and \<open>loads\<close>.
\<close>

section \<open>FileWriter\<close>

text \<open>
  \<open>disk\<close> is what other processes see; \<open>unflushed\<close> is the buffer of the Python file object.
\<close>

record file_writer =
  num_records :: nat
  disk :: "byte list"
  unflushed :: "byte list"
  last_flush_time :: int

definition FLUSH_INTERVAL :: int where
  "FLUSH_INTERVAL = 1"

definition new_file_writer :: file_writer where
  "new_file_writer = \<lparr>num_records = 0, disk = [], unflushed = [], last_flush_time = 0\<rparr>"

definition flush :: "file_writer \<Rightarrow> file_writer" where
  "flush w = w\<lparr>disk := disk w @ unflushed w, unflushed := []\<rparr>"

definition close_writer :: "file_writer \<Rightarrow> file_writer" where
  "close_writer w = flush w"

definition write_event :: "(log_event \<Rightarrow> byte list) \<Rightarrow> int \<Rightarrow> log_event \<Rightarrow> file_writer \<Rightarrow> file_writer res" where
  "write_event dumps curr_time ev w =
     (let data = dumps ev
      in bindE (pack_be 4 (length data)) (\<lambda>size.
           let w1 = w\<lparr>unflushed := unflushed w @ size @ data\<rparr>;
               w2 = (if FLUSH_INTERVAL < curr_time - last_flush_time w then flush w1 else w1)
           in Inr (w2\<lparr>num_records := num_records w2 + records_len (records_of ev)\<rparr>)))"

section \<open>FileReader\<close>

record file_reader =
  current_buffer :: "byte list"
  offset :: nat
  file_num :: int

definition new_file_reader :: "int \<Rightarrow> file_reader" where
  "new_file_reader n = \<lparr>current_buffer = [], offset = 0, file_num = n\<rparr>"

text \<open>
  \<^verbatim>\<open>self.current_buffer += self.file.read(n)\<close> on the content the file has now; a negative
  size reads everything.
\<close>

definition file_read :: "byte list \<Rightarrow> int \<Rightarrow> file_reader \<Rightarrow> file_reader" where
  "file_read content n r =
     (let data = (if n < 0 then drop (offset r) content else take (nat n) (drop (offset r) content))
      in r\<lparr>current_buffer := current_buffer r @ data, offset := offset r + length data\<rparr>)"

definition read_next_event ::
  "(byte list \<Rightarrow> log_event res) \<Rightarrow> byte list \<Rightarrow> file_reader \<Rightarrow> log_event option res \<times> file_reader" where
  "read_next_event loads content r =
     (let r1 = (if length (current_buffer r) < 4
                then file_read content (4 - int (length (current_buffer r))) r else r)
      in if length (current_buffer r1) < 4 then (Inr None, r1)
         else
           let size_to_read = be_nat (take 4 (current_buffer r1));
               r2 = (if length (current_buffer r1) \<noteq> size_to_read + 4
                     then file_read content (int (size_to_read + 4) - int (length (current_buffer r1))) r1
                     else r1)
           in if length (current_buffer r2) \<noteq> size_to_read + 4 then (Inr None, r2)
              else (case loads (drop 4 (current_buffer r2)) of
                      Inl e \<Rightarrow> (Inl e, r2)
                    | Inr ev \<Rightarrow> (Inr (Some ev), r2\<lparr>current_buffer := []\<rparr>)))"

section \<open>Frames\<close>

definition frame :: "(log_event \<Rightarrow> byte list) \<Rightarrow> log_event \<Rightarrow> byte list" where
  "frame dumps ev = be_bytes 4 (length (dumps ev)) @ dumps ev"

definition frames :: "(log_event \<Rightarrow> byte list) \<Rightarrow> log_event list \<Rightarrow> byte list" where
  "frames dumps es = concat (map (frame dumps) es)"

text \<open>What the relay needs of pickle and of the size field for the events \<open>es\<close>.\<close>

definition storable :: "(log_event \<Rightarrow> byte list) \<Rightarrow> (byte list \<Rightarrow> log_event res) \<Rightarrow> log_event list \<Rightarrow> bool" where
  "storable dumps loads es \<longleftrightarrow> (\<forall>ev \<in> set es. loads (dumps ev) = Inr ev \<and> length (dumps ev) < 2 ^ 32)"

lemma length_frame [simp]: "length (frame dumps ev) = 4 + length (dumps ev)"
  by (simp add: frame_def)

lemma frames_simps [simp]:
  "frames dumps [] = []"
  "frames dumps (ev # es) = frame dumps ev @ frames dumps es"
  "frames dumps (es @ fs) = frames dumps es @ frames dumps fs"
  by (simp_all add: frames_def)

lemma write_event_Inr_iff:
  "(\<exists>w'. write_event dumps t ev w = Inr w') \<longleftrightarrow> length (dumps ev) < 2 ^ 32"
  by (simp add: write_event_def Let_def pack_be_def)

lemma write_event_content:
  "write_event dumps t ev w = Inr w' \<Longrightarrow>
     disk w' @ unflushed w' = disk w @ unflushed w @ frame dumps ev
     \<and> num_records w' = num_records w + records_len (records_of ev)
     \<and> last_flush_time w' = last_flush_time w"
  by (auto simp: write_event_def Let_def pack_be_def frame_def flush_def split: if_splits)

text \<open>
  \<^verbatim>\<open>last_flush_time\<close> is never updated, so with a clock past its first seconds every event is
  flushed at once.
\<close>

lemma write_event_flushes:
  "write_event dumps t ev w = Inr w' \<Longrightarrow> last_flush_time w = 0 \<Longrightarrow> 1 < t \<Longrightarrow>
     unflushed w' = [] \<and> disk w' = disk w @ unflushed w @ frame dumps ev"
  by (auto simp: write_event_def Let_def pack_be_def frame_def flush_def FLUSH_INTERVAL_def split: if_splits)

section \<open>The reader invariant\<close>

text \<open>
  \<open>reader_at dumps es k r\<close>: \<open>k\<close> events of the stream \<open>es\<close> have been returned, and the
  buffer holds the first bytes of the next frame, up to the position in the file.
\<close>

definition reader_at :: "(log_event \<Rightarrow> byte list) \<Rightarrow> log_event list \<Rightarrow> nat \<Rightarrow> file_reader \<Rightarrow> bool" where
  "reader_at dumps es k r \<longleftrightarrow> k \<le> length es
     \<and> offset r = length (frames dumps (take k es)) + length (current_buffer r)
     \<and> current_buffer r = take (length (current_buffer r)) (frames dumps (drop k es))
     \<and> (k < length es \<longrightarrow> length (current_buffer r) < length (frame dumps (es ! k)))
     \<and> (k = length es \<longrightarrow> current_buffer r = [])"

lemma reader_at_new: "reader_at dumps es 0 (new_file_reader n)"
  by (simp add: reader_at_def new_file_reader_def)

text \<open>
  The same for one stretch of the file: \<open>b\<close> bytes of \<open>rest\<close>, which starts at \<open>p\<close>, are
  in the buffer.
\<close>

definition buffered :: "nat \<Rightarrow> byte list \<Rightarrow> nat \<Rightarrow> file_reader \<Rightarrow> bool" where
  "buffered p rest b r \<longleftrightarrow> current_buffer r = take b rest \<and> b \<le> length rest \<and> offset r = p + b"

lemma buffered_length: "buffered p rest b r \<Longrightarrow> length (current_buffer r) = b"
  by (auto simp: buffered_def)

lemma file_read_buffered:
  assumes "buffered (length pre) rest b r" and "content = take n (pre @ rest)"
    and "length pre + b \<le> n" and "b \<le> c" and "c \<le> length rest"
  shows "buffered (length pre) rest (min c (n - length pre)) (file_read content (int c - int b) r)"
proof -
  let ?p = "length pre" and ?d = "take (c - b) (take (n - (length pre + b)) (drop b rest))"
  have "drop (?p + b) (take n (pre @ rest)) = take (n - (?p + b)) (drop (?p + b) (pre @ rest))"
    by (rule drop_take)
  then have d: "drop (offset r) content = take (n - (?p + b)) (drop b rest)"
    using assms(1,2) by (simp add: buffered_def)
  have n: "nat (int c - int b) = c - b"
    by simp
  have c: "b + min (c - b) (n - (?p + b)) = min c (n - ?p)"
    using assms(3,4) by arith
  have "take b rest @ ?d = take (b + min (c - b) (n - (?p + b))) rest"
    by (simp add: take_add)
  moreover have "length ?d = min (c - b) (n - (?p + b))"
    using assms(4,5) by (simp add: min_def; arith)
  moreover have "min c (n - ?p) \<le> length rest"
    using assms(5) by (rule min.coboundedI1)
  ultimately show ?thesis
    using assms(1,4) d n c by (auto simp: buffered_def file_read_def Let_def)
qed

lemma reader_at_buffered:
  "reader_at dumps es k r \<longleftrightarrow> k \<le> length es
     \<and> (\<exists>b. buffered (length (frames dumps (take k es))) (frames dumps (drop k es)) b r
          \<and> b < (if k < length es then length (frame dumps (es ! k)) else 1))"
proof
  assume l: "reader_at dumps es k r"
  have "length (current_buffer r) \<le> length (frames dumps (drop k es))"
    using l unfolding reader_at_def by (metis length_take min.absorb_iff2 min.commute)
  then show "k \<le> length es
     \<and> (\<exists>b. buffered (length (frames dumps (take k es))) (frames dumps (drop k es)) b r
          \<and> b < (if k < length es then length (frame dumps (es ! k)) else 1))"
    using l by (auto simp: reader_at_def buffered_def intro!: exI [of _ "length (current_buffer r)"])
next
  assume "k \<le> length es
     \<and> (\<exists>b. buffered (length (frames dumps (take k es))) (frames dumps (drop k es)) b r
          \<and> b < (if k < length es then length (frame dumps (es ! k)) else 1))"
  then show "reader_at dumps es k r"
    by (auto simp: reader_at_def buffered_def split: if_splits)
qed

text \<open>The two reads of one call, on a stretch that starts with the frame of \<open>ev\<close>.\<close>

lemma read_next_event_frame:
  assumes b: "buffered (length pre) rest b r" "b < length (frame dumps ev)"
    and content: "content = take n (pre @ rest)" "length pre + b \<le> n"
    and rest: "rest = frame dumps ev @ rest'" and ok: "storable dumps loads [ev]"
  shows "\<exists>r'. buffered (length pre) rest (min (length (frame dumps ev)) (n - length pre)) r'
     \<and> read_next_event loads content r =
         (if length pre + length (frame dumps ev) \<le> n
          then (Inr (Some ev), r'\<lparr>current_buffer := []\<rparr>) else (Inr None, r'))"
proof -
  let ?p = "length pre" and ?L = "length (dumps ev)"
  have L: "?L < 2 ^ 32" "loads (dumps ev) = Inr ev"
    using ok by (auto simp: storable_def)
  have lr: "4 + ?L \<le> length rest"
    using rest by simp
  define r1 where "r1 = (if b < 4 then file_read content (int 4 - int b) r else r)"
  define b1 where "b1 = (if b < 4 then min 4 (n - ?p) else b)"
  have r1: "buffered ?p rest b1 r1"
    using file_read_buffered [OF b(1) content, of 4] b(1) lr by (auto simp: r1_def b1_def)
  have rd: "read_next_event loads content r =
     (if b1 < 4 then (Inr None, r1)
      else let s = be_nat (take 4 (current_buffer r1));
               r2 = (if b1 \<noteq> s + 4 then file_read content (int (s + 4) - int b1) r1 else r1)
           in if length (current_buffer r2) \<noteq> s + 4 then (Inr None, r2)
              else (case loads (drop 4 (current_buffer r2)) of Inl e \<Rightarrow> (Inl e, r2)
                    | Inr ev \<Rightarrow> (Inr (Some ev), r2\<lparr>current_buffer := []\<rparr>)))"
  proof -
    have "(if length (current_buffer r) < 4 then file_read content (4 - int (length (current_buffer r))) r
           else r) = r1"
      using buffered_length [OF b(1)] by (simp add: r1_def)
    then show ?thesis
      by (simp only: read_next_event_def Let_def buffered_length [OF r1])
  qed
  show ?thesis
  proof (cases "b1 < 4")
    case True
    then have "min (4 + ?L) (n - ?p) = b1" "\<not> ?p + (4 + ?L) \<le> n"
      using content(2) by (auto simp: b1_def split: if_splits)
    then show ?thesis
      using rd r1 True by auto
  next
    case False
    have b1: "4 \<le> b1" "b1 \<le> 4 + ?L" "?p + b1 \<le> n"
      using False b(2) content(2) by (auto simp: b1_def split: if_splits)
    have "take 4 (current_buffer r1) = be_bytes 4 ?L"
      using r1 b1(1) rest by (simp add: buffered_def frame_def min_def)
    then have s: "be_nat (take 4 (current_buffer r1)) = ?L"
      using L(1) by (simp add: be_nat_be_bytes)
    define r2 where "r2 = (if b1 \<noteq> ?L + 4 then file_read content (int (?L + 4) - int b1) r1 else r1)"
    have r2: "buffered ?p rest (min (?L + 4) (n - ?p)) r2"
      using file_read_buffered [OF r1 content(1) b1(3), of "?L + 4"] r1 b1 lr
      by (auto simp: r2_def min_def)
    have rd2: "read_next_event loads content r =
       (if length (current_buffer r2) \<noteq> ?L + 4 then (Inr None, r2)
        else (case loads (drop 4 (current_buffer r2)) of Inl e \<Rightarrow> (Inl e, r2)
              | Inr ev \<Rightarrow> (Inr (Some ev), r2\<lparr>current_buffer := []\<rparr>)))"
      by (simp only: rd Let_def s r2_def [symmetric] False if_False)
    have full: "drop 4 (current_buffer r2) = dumps ev" if "?p + (4 + ?L) \<le> n"
    proof -
      have "min (?L + 4) (n - ?p) = 4 + ?L" using that by simp
      then have "current_buffer r2 = take (4 + ?L) rest"
        using r2 by (simp add: buffered_def)
      then show ?thesis using rest by (simp add: frame_def)
    qed
    have len: "length (current_buffer r2) = min (?L + 4) (n - ?p)"
      using r2 by (rule buffered_length)
    show ?thesis
    proof (intro exI conjI)
      show "buffered ?p rest (min (length (frame dumps ev)) (n - ?p)) r2"
        using r2 by (simp add: add.commute)
      show "read_next_event loads content r =
         (if ?p + length (frame dumps ev) \<le> n
          then (Inr (Some ev), r2\<lparr>current_buffer := []\<rparr>) else (Inr None, r2))"
        using rd2 full len L(2) by (auto simp: min_def split: if_splits)
    qed
  qed
qed

text \<open>
  One call of the reader, whatever prefix of the stream is on disk: it returns the next
  event exactly when its frame is complete, and keeps its place otherwise.
\<close>

lemma read_next_event_step:
  assumes at: "reader_at dumps es k r" "offset r \<le> n" and ok: "storable dumps loads es"
    and res: "read_next_event loads (take n (frames dumps es)) r = (out, r')"
  shows "offset r' \<le> n"
    and "if k < length es \<and> length (frames dumps (take (Suc k) es)) \<le> n
         then out = Inr (Some (es ! k)) \<and> reader_at dumps es (Suc k) r'
         else out = Inr None \<and> reader_at dumps es k r'"
proof -
  let ?pre = "frames dumps (take k es)" and ?rest = "frames dumps (drop k es)"
  have split: "frames dumps es = ?pre @ ?rest"
    by (metis append_take_drop_id frames_simps(3))
  obtain b where k: "k \<le> length es" and b: "buffered (length ?pre) ?rest b r"
    and lt: "b < (if k < length es then length (frame dumps (es ! k)) else 1)"
    using at(1) by (auto simp: reader_at_buffered)
  have n: "length ?pre + b \<le> n"
    using at(2) b by (simp add: buffered_def)
  have "offset r' \<le> n \<and> (if k < length es \<and> length (frames dumps (take (Suc k) es)) \<le> n
         then out = Inr (Some (es ! k)) \<and> reader_at dumps es (Suc k) r'
         else out = Inr None \<and> reader_at dumps es k r')"
  proof (cases "k < length es")
    case False
    then have "k = length es" "b = 0" "current_buffer r = []" "offset r = length (frames dumps es)"
      using k lt b by (auto simp: buffered_def)
    then have "out = Inr None" "r' = r"
      using res by (auto simp: read_next_event_def file_read_def Let_def)
    then show ?thesis
      using at False by simp
  next
    case True
    let ?F = "length (frame dumps (es ! k))"
    have rest: "?rest = frame dumps (es ! k) @ frames dumps (drop (Suc k) es)"
      using True by (metis Cons_nth_drop_Suc frames_simps(2))
    have next_at: "length (frames dumps (take (Suc k) es)) = length ?pre + ?F"
      using True by (simp add: take_Suc_conv_app_nth)
    have lt': "b < ?F"
      using lt True by simp
    have c: "take n (frames dumps es) = take n (?pre @ ?rest)"
      by (simp only: split)
    have st: "storable dumps loads [es ! k]"
      using ok True by (simp add: storable_def)
    obtain r2 where r2: "buffered (length ?pre) ?rest (min ?F (n - length ?pre)) r2"
      and out: "(out, r') = (if length ?pre + ?F \<le> n then (Inr (Some (es ! k)), r2\<lparr>current_buffer := []\<rparr>)
                    else (Inr None, r2))"
      using read_next_event_frame [OF b lt' c n rest st, unfolded res] by blast
    show ?thesis
    proof (cases "length ?pre + ?F \<le> n")
      case full: True
      then have "min ?F (n - length ?pre) = ?F" by simp
      then have "buffered (length (frames dumps (take (Suc k) es))) (frames dumps (drop (Suc k) es)) 0
          (r2\<lparr>current_buffer := []\<rparr>)"
        using r2 next_at by (simp add: buffered_def)
      then have "reader_at dumps es (Suc k) (r2\<lparr>current_buffer := []\<rparr>)"
        unfolding reader_at_buffered using True by (auto intro!: exI [of _ 0])
      then show ?thesis
        using full out True next_at r2 by (auto simp: buffered_def)
    next
      case part: False
      then have "min ?F (n - length ?pre) < ?F" by simp
      then have "reader_at dumps es k r2"
        unfolding reader_at_buffered using True k r2 by auto
      then show ?thesis
        using part out next_at r2 n by (auto simp: buffered_def)
    qed
  qed
  then show "offset r' \<le> n"
    and "if k < length es \<and> length (frames dumps (take (Suc k) es)) \<le> n
         then out = Inr (Some (es ! k)) \<and> reader_at dumps es (Suc k) r'
         else out = Inr None \<and> reader_at dumps es k r'"
    by auto
qed

section \<open>Polling a growing file\<close>

text \<open>
  The reader's loop over a list of sizes the file has had at the successive calls; the
  events that were returned, and the reader at the end.
\<close>

fun poll :: "(byte list \<Rightarrow> log_event res) \<Rightarrow> byte list \<Rightarrow> nat list \<Rightarrow> file_reader
    \<Rightarrow> (log_event list \<times> file_reader) res" where
  "poll loads stream [] r = Inr ([], r)"
| "poll loads stream (n # ns) r =
     (case read_next_event loads (take n stream) r of
        (Inl e, _) \<Rightarrow> Inl e
      | (Inr None, r') \<Rightarrow> poll loads stream ns r'
      | (Inr (Some ev), r') \<Rightarrow>
          bindE (poll loads stream ns r') (\<lambda>(evs, r''). Inr (ev # evs, r'')))"

fun written_events :: "(log_event \<Rightarrow> byte list) \<Rightarrow> int \<Rightarrow> log_event list \<Rightarrow> file_writer \<Rightarrow> file_writer res" where
  "written_events dumps t [] w = Inr w"
| "written_events dumps t (ev # evs) w = bindE (write_event dumps t ev w) (written_events dumps t evs)"

lemma written_events_content:
  "written_events dumps t evs w = Inr w' \<Longrightarrow>
     disk w' @ unflushed w' = disk w @ unflushed w @ frames dumps evs"
proof (induction evs arbitrary: w)
  case (Cons ev evs)
  then obtain w1 where "write_event dumps t ev w = Inr w1" "written_events dumps t evs w1 = Inr w'"
    by (auto simp: res_simps)
  with Cons.IH [of w1] write_event_content [of dumps t ev w w1] show ?case by simp
qed simp

lemma written_events_total:
  "(\<And>ev. ev \<in> set evs \<Longrightarrow> length (dumps ev) < 2 ^ 32) \<Longrightarrow> \<exists>w'. written_events dumps t evs w = Inr w'"
proof (induction evs arbitrary: w)
  case (Cons ev evs)
  then obtain w1 where "write_event dumps t ev w = Inr w1"
    using write_event_Inr_iff [of dumps t ev w] by (metis list.set_intros(1))
  then show ?case using Cons by simp
qed simp

lemma poll_prefix:
  assumes "reader_at dumps es k r" and "storable dumps loads es"
    and "sorted (offset r # ns)"
  shows "\<exists>m r'. poll loads (frames dumps es) ns r = Inr (take m (drop k es), r')
     \<and> m \<le> length es - k \<and> m \<le> length ns \<and> reader_at dumps es (k + m) r'
     \<and> (m < length ns \<longrightarrow> (\<forall>n \<in> set (take 1 ns). k + m = length es
            \<or> n < length (frames dumps (take (Suc (k + m)) es))))"
  using assms
proof (induction ns arbitrary: k r)
  case Nil
  then show ?case by (auto intro!: exI [of _ 0])
next
  case (Cons n ns)
  obtain out r1 where rd: "read_next_event loads (take n (frames dumps es)) r = (out, r1)"
    by fastforce
  note st = read_next_event_step [OF Cons.prems(1) _ Cons.prems(2) rd]
  have le: "offset r1 \<le> n"
    using st(1) Cons.prems(3) by simp
  then have sorted: "sorted (offset r1 # ns)"
    using Cons.prems(3) by auto
  show ?case
  proof (cases "k < length es \<and> length (frames dumps (take (Suc k) es)) \<le> n")
    case True
    then have o: "out = Inr (Some (es ! k))" "reader_at dumps es (Suc k) r1"
      using st(2) Cons.prems(3) by auto
    obtain m r' where m: "poll loads (frames dumps es) ns r1 = Inr (take m (drop (Suc k) es), r')"
      "m \<le> length es - Suc k" "m \<le> length ns" "reader_at dumps es (Suc k + m) r'"
      "m < length ns \<longrightarrow> (\<forall>n \<in> set (take 1 ns). Suc k + m = length es
            \<or> n < length (frames dumps (take (Suc (Suc k + m)) es)))"
      using Cons.IH [OF o(2) Cons.prems(2) sorted] by blast
    have "es ! k # take m (drop (Suc k) es) = take (Suc m) (drop k es)"
      using True by (simp flip: Cons_nth_drop_Suc)
    moreover have "Suc m < length (n # ns) \<longrightarrow> Suc k + m = length es
            \<or> n < length (frames dumps (take (Suc (Suc k + m)) es))"
    proof (intro impI)
      assume "Suc m < length (n # ns)"
      moreover from this obtain n' ns' where ns: "ns = n' # ns'" by (cases ns) auto
      ultimately have "Suc k + m = length es \<or> n' < length (frames dumps (take (Suc (Suc k + m)) es))"
        using m(5) by simp
      moreover have "n \<le> n'" using Cons.prems(3) ns by simp
      ultimately show "Suc k + m = length es \<or> n < length (frames dumps (take (Suc (Suc k + m)) es))"
        by linarith
    qed
    moreover have "poll loads (frames dumps es) (n # ns) r = Inr (es ! k # take m (drop (Suc k) es), r')"
      by (simp only: poll.simps rd o(1) m(1) prod.case sum.case option.case bindE_simps)
    moreover have "Suc m \<le> length es - k" "Suc m \<le> length (n # ns)" "reader_at dumps es (k + Suc m) r'"
      using m(2-4) True by auto
    ultimately show ?thesis
      by (intro exI [of _ "Suc m"] exI [of _ r']) simp
  next
    case False
    then have o: "out = Inr None" "reader_at dumps es k r1"
      using st(2) Cons.prems(3) by auto
    obtain m r' where m: "poll loads (frames dumps es) ns r1 = Inr (take m (drop k es), r')"
      "m \<le> length es - k" "m \<le> length ns" "reader_at dumps es (k + m) r'"
      using Cons.IH [OF o(2) Cons.prems(2) sorted] by blast
    have pre: "length (frames dumps (take (Suc k) es)) \<le> length (frames dumps (take (Suc (k + m)) es))"
    proof -
      have "take (Suc (k + m)) es = take (Suc k) es @ take m (drop (Suc k) es)"
        by (simp flip: take_add add: add.commute)
      then show ?thesis by simp
    qed
    have "poll loads (frames dumps es) (n # ns) r = Inr (take m (drop k es), r')"
      by (simp only: poll.simps rd o(1) m(1) prod.case sum.case option.case)
    moreover have "k + m = length es \<or> n < length (frames dumps (take (Suc (k + m)) es))"
      using False pre m(2) Cons.prems(1) by (cases "k < length es") (auto simp: reader_at_def)
    ultimately show ?thesis
      using m(2-4) by (intro exI [of _ m] exI [of _ r']) simp
  qed
qed

lemma frames_take_mono: "i \<le> j \<Longrightarrow> length (frames dumps (take i es)) \<le> length (frames dumps (take j es))"
proof -
  assume "i \<le> j"
  then have "take j es = take i es @ take (j - i) (drop i es)"
    by (metis le_add_diff_inverse take_add)
  then show ?thesis by simp
qed


definition sample_event :: "int \<Rightarrow> log_event" where
  "sample_event i = \<lparr>transaction_id = (''mysql-bin.000001'', i), db_name = ''db'', event_table = ''t'',
     records_of = Rows [[VInt i]], event_type_of = ADD_EVENT\<rparr>"

definition sample_dumps :: "log_event \<Rightarrow> byte list" where
  "sample_dumps ev = [of_int (snd (transaction_id ev))]"

definition sample_loads :: "byte list \<Rightarrow> log_event res" where
  "sample_loads bs = (case bs of [b] \<Rightarrow> Inr (sample_event (uint b)) | _ \<Rightarrow> Inl ValueError)"


end
