(* ===== verification/Transactions.thy ===== *)
theory Transactions
  imports PyStr
begin

text \<open>
  Binlog positions: the functions at the top of \<^verbatim>\<open>binlog_replicator.py\<close> that compare
  the transaction identifiers \<^verbatim>\<open>(file_name, log_pos)\<close> by the number of the binlog file.
  The replicators also compare identifiers with Python's \<^verbatim>\<open><=\<close> on tuples, which is the
  lexicographic order of \<^typ>\<open>string \<times> int\<close>; the last section relates the two.
\<close>

section \<open>Definitions\<close>

type_synonym transaction = "string \<times> int"

definition get_binlog_file_num :: "string \<Rightarrow> int res" where
  "get_binlog_file_num file_name =
     (case rsplit_once CHR ''.'' file_name of
        None \<Rightarrow> Inl IndexError
      | Some (_, num) \<Rightarrow> py_int num)"

definition compare_transactions :: "transaction \<Rightarrow> transaction \<Rightarrow> int res" where
  "compare_transactions left right =
     bindE (get_binlog_file_num (fst left)) (\<lambda>left_file_num.
     bindE (get_binlog_file_num (fst right)) (\<lambda>right_file_num.
       if left_file_num \<noteq> right_file_num then Inr (left_file_num - right_file_num)
       else Inr (snd left - snd right)))"

text \<open>The key function of \<^verbatim>\<open>min_transaction\<close>.\<close>

definition transaction_key :: "transaction \<Rightarrow> (int \<times> int) res" where
  "transaction_key item = bindE (get_binlog_file_num (fst item)) (\<lambda>n. Inr (n, snd item))"

text \<open>\<^verbatim>\<open>min(iterable, key=...)\<close>: the first element with the least key, ValueError if empty.\<close>

fun min_by_key :: "(transaction \<times> int \<times> int) \<Rightarrow> (transaction \<times> int \<times> int) list \<Rightarrow> transaction" where
  "min_by_key (best, k) [] = best"
| "min_by_key (best, k) ((x, kx) # xs) =
     (if kx < k then min_by_key (x, kx) xs else min_by_key (best, k) xs)"

definition min_transaction :: "transaction list \<Rightarrow> transaction res" where
  "min_transaction transactions =
     bindE (mapE (\<lambda>t. bindE (transaction_key t) (\<lambda>k. Inr (t, k))) transactions) (\<lambda>kts.
       case kts of [] \<Rightarrow> Inl ValueError | kt # kts' \<Rightarrow> Inr (min_by_key kt kts'))"

text \<open>
  A stored identifier is either absent or a sequence of two items (a tuple, or a list when
  it comes from JSON); \<^verbatim>\<open>tuple(...)\<close> makes it a tuple again.
\<close>

definition normalize_transaction :: "transaction option \<Rightarrow> transaction option" where
  "normalize_transaction transaction_id =
     (case transaction_id of None \<Rightarrow> None | Some t \<Rightarrow> Some (fst t, snd t))"

section \<open>Well-formed identifiers\<close>

definition binlog_name :: "string \<Rightarrow> string \<Rightarrow> string" where
  "binlog_name base num = base @ CHR ''.'' # num"

definition tx_ok :: "transaction \<Rightarrow> bool" where
  "tx_ok t = (case get_binlog_file_num (fst t) of Inr _ \<Rightarrow> True | Inl _ \<Rightarrow> False)"

definition tx_num :: "transaction \<Rightarrow> int" where
  "tx_num t = (case get_binlog_file_num (fst t) of Inr n \<Rightarrow> n | Inl _ \<Rightarrow> 0)"

abbreviation tx_key :: "transaction \<Rightarrow> int \<times> int" where
  "tx_key t \<equiv> (tx_num t, snd t)"

lemma get_binlog_file_num_name:
  "digits num \<Longrightarrow> get_binlog_file_num (binlog_name base num) = Inr (int (digits_val num))"
  using digits_notin [of num]
  by (simp add: get_binlog_file_num_def binlog_name_def rsplit_once_append py_int_digits)

lemma tx_okE:
  assumes "tx_ok t" obtains n where "get_binlog_file_num (fst t) = Inr n" "tx_num t = n"
  using assms by (auto simp: tx_ok_def tx_num_def split: sum.splits)

lemma compare_transactions_ok:
  assumes "tx_ok l" "tx_ok r"
  shows "compare_transactions l r =
    Inr (if tx_num l \<noteq> tx_num r then tx_num l - tx_num r else snd l - snd r)"
  using assms by (auto simp: compare_transactions_def elim!: tx_okE)

lemma compare_transactions_pos:
  assumes "tx_ok l" "tx_ok r"
  shows "compare_transactions l r = Inr c \<Longrightarrow> 0 < c \<longleftrightarrow> tx_key r < tx_key l"
  using compare_transactions_ok [OF assms] by (auto split: if_splits)

lemma compare_transactions_Inr_ok:
  "compare_transactions l r = Inr c \<Longrightarrow> tx_ok l \<and> tx_ok r"
  by (auto simp: compare_transactions_def tx_ok_def res_simps)

section \<open>The comparison is the lexicographic order of file number and position\<close>

lemma compare_transactions_sign:
  assumes "tx_ok l" "tx_ok r"
  shows "\<exists>c. compare_transactions l r = Inr c \<and> (c < 0 \<longleftrightarrow> tx_key l < tx_key r)
      \<and> (c = 0 \<longleftrightarrow> tx_key l = tx_key r) \<and> (0 < c \<longleftrightarrow> tx_key r < tx_key l)"
  using compare_transactions_ok [OF assms] by auto

lemma compare_transactions_raises:
  "(\<exists>e. compare_transactions l r = Inl e) \<longleftrightarrow> \<not> (tx_ok l \<and> tx_ok r)"
  using compare_transactions_Inr_ok compare_transactions_sign
  by (metis Inl_Inr_False old.sum.exhaust)

lemma min_by_key_min:
  "\<exists>km. (min_by_key (b, k) xs, km) \<in> set ((b, k) # xs) \<and> (\<forall>p \<in> set ((b, k) # xs). km \<le> snd p)"
proof (induction xs arbitrary: b k)
  case Nil
  then show ?case by auto
next
  case (Cons p xs)
  obtain x kx where p: "p = (x, kx)" by (rule prod.exhaust)
  show ?case
  proof (cases "kx < k")
    case True
    obtain km where km: "(min_by_key (x, kx) xs, km) \<in> set ((x, kx) # xs)"
      "\<forall>q \<in> set ((x, kx) # xs). km \<le> snd q" using Cons.IH by blast
    then have "km \<le> k" using True by (metis less_imp_le list.set_intros(1) order.trans snd_conv)
    with km p True show ?thesis by (intro exI [of _ km]) simp
  next
    case False
    obtain km where km: "(min_by_key (b, k) xs, km) \<in> set ((b, k) # xs)"
      "\<forall>q \<in> set ((b, k) # xs). km \<le> snd q" using Cons.IH by blast
    then have "km \<le> kx" using False by (metis linorder_not_less list.set_intros(1) order.trans snd_conv)
    with km p False show ?thesis by (intro exI [of _ km]) auto
  qed
qed

lemma min_transaction_keys:
  "mapE (\<lambda>t. bindE (transaction_key t) (\<lambda>k. Inr (t, k))) ts = Inr kts \<Longrightarrow>
     kts = map (\<lambda>t. (t, tx_key t)) ts \<and> (\<forall>t \<in> set ts. tx_ok t)"
  by (induction ts arbitrary: kts)
     (auto simp: res_simps transaction_key_def tx_ok_def tx_num_def)

section \<open>Tuple order and file numbers\<close>

lemma append_less_cancel: "(u @ s :: string) < u @ t \<longleftrightarrow> s < t"
  by (induction u) auto

lemma binlog_name_less_iff:
  assumes "digits m" "digits n" "length m = length n"
  shows "binlog_name b m < binlog_name b n \<longleftrightarrow> digits_val m < digits_val n"
  using assms digits_less_iff [of m n]
  by (simp add: binlog_name_def append_less_cancel digits_def)

lemma digits_val_inject:
  "digits m \<Longrightarrow> digits n \<Longrightarrow> length m = length n \<Longrightarrow> digits_val m = digits_val n \<Longrightarrow> m = n"
  using digits_less_iff [of m n] digits_less_iff [of n m]
  by (metis digits_def nat_neq_iff not_less_iff_gr_or_eq)

text \<open>Inside one series of equally long numbers, \<^verbatim>\<open><=\<close> on tuples is the order of positions.\<close>

lemma tuple_le_iff_key_le:
  assumes "digits m" "digits n" "length m = length n"
  shows "(binlog_name b m, i) \<le> (binlog_name b n, j)
    \<longleftrightarrow> tx_key (binlog_name b m, i) \<le> tx_key (binlog_name b n, j)"
proof -
  have "binlog_name b m = binlog_name b n \<longleftrightarrow> digits_val m = digits_val n"
    using digits_val_inject [of m n] assms by (auto simp: binlog_name_def)
  then show ?thesis
    using binlog_name_less_iff [OF assms] get_binlog_file_num_name [OF assms(1)]
      get_binlog_file_num_name [OF assms(2)]
    by (auto simp: tx_num_def less_eq_prod_def order.order_iff_strict)
qed

section \<open>Properties\<close>

text \<open>The start of a relay rebuild is a least position: when \<^verbatim>\<open>min_transaction\<close> returns,
  its result is one of the given transactions, and no given transaction is before it in
  the order of \<^verbatim>\<open>compare_transactions\<close>; it returns for every non-empty list of
  identifiers whose file names end in a number.
\<close>
theorem min_transaction_least:
  assumes "ts \<noteq> []" and "\<forall>t \<in> set ts. tx_ok t"
  shows "\<exists>m. min_transaction ts = Inr m \<and> m \<in> set ts
    \<and> (\<forall>t \<in> set ts. \<exists>c. compare_transactions m t = Inr c \<and> c \<le> 0)"
proof -
  have "mapE (\<lambda>t. bindE (transaction_key t) (\<lambda>k. Inr (t, k))) ts = Inr (map (\<lambda>t. (t, tx_key t)) ts)"
    by (intro mapE_total) (use assms(2) in \<open>auto simp: transaction_key_def elim!: tx_okE\<close>)
  moreover obtain t ts' where ts: "ts = t # ts'" using assms(1) by (cases ts) auto
  ultimately have m: "min_transaction ts = Inr (min_by_key (t, tx_key t) (map (\<lambda>t. (t, tx_key t)) ts'))"
    by (simp add: min_transaction_def del: mapE.simps)
  obtain m where md: "m = min_by_key (t, tx_key t) (map (\<lambda>t. (t, tx_key t)) ts')" by simp
  from min_by_key_min [of t "tx_key t" "map (\<lambda>t. (t, tx_key t)) ts'"] ts md
  have "m \<in> set ts" and le: "\<forall>u \<in> set ts. tx_key m \<le> tx_key u"
    by auto
  moreover have "\<exists>c. compare_transactions m u = Inr c \<and> c \<le> 0" if "u \<in> set ts" for u
    using compare_transactions_sign [of m u] assms(2) le that \<open>m \<in> set ts\<close>
    by (metis leD linorder_not_less)
  ultimately show ?thesis using m md by blast
qed

theorem min_transaction_least_witness:
  "\<exists>m. min_transaction [(''mysql-bin.000010'', 4), (''mysql-bin.000009'', 700)] = Inr m
    \<and> compare_transactions m (''mysql-bin.000010'', 4) = Inr (- 1)"
proof -
  have ok: "\<forall>t \<in> set [(''mysql-bin.000010'', 4), (''mysql-bin.000009'', 700)]. tx_ok t"
    by code_simp
  obtain m where "min_transaction [(''mysql-bin.000010'', 4), (''mysql-bin.000009'', 700)] = Inr m"
    using min_transaction_least [OF _ ok] by auto
  moreover have "min_transaction [(''mysql-bin.000010'', 4), (''mysql-bin.000009'', 700)]
      = Inr (''mysql-bin.000009'', 700)"
    by code_simp
  moreover have "compare_transactions (''mysql-bin.000009'', 700) (''mysql-bin.000010'', 4) = Inr (- 1)"
    by code_simp
  ultimately show ?thesis by auto
qed

end
