(* ===== verification/DataReader.thy ===== *)
theory DataReader
  imports RelayFile Transactions
begin

text \<open>
  The local relay as its readers see it (\<^verbatim>\<open>binlog_replicator.py\<close>): the data directory with
  one directory per database, the numbered \<^verbatim>\<open>.bin\<close> files in it, and \<^verbatim>\<open>DataReader\<close>, which
  finds the file that holds a transaction, positions itself behind it and follows the
  files in the order of their numbers.
\<close>

section \<open>The data directory\<close>

record rfile =
  content :: "byte list"
  mtime :: int

type_synonym file_dict = "(string, rfile) dict"

record db_dir =
  dir_files :: file_dict
  dir_subdirs :: "(string, file_dict) dict"

record relay_state =
  last_seen_transaction :: "transaction option"
  prev_last_seen_transaction :: "transaction option"
  state_pid :: "int option"

text \<open>\<open>state_json\<close> is the content of \<^verbatim>\<open>state.json\<close>, if the file is there.\<close>

record data_dir =
  dir_exists :: bool
  dbs :: "(string, db_dir) dict"
  state_json :: "relay_state option"

definition empty_dir :: db_dir where
  "empty_dir = \<lparr>dir_files = [], dir_subdirs = []\<rparr>"

definition listdir :: "db_dir \<Rightarrow> string list" where
  "listdir d = map fst (dir_files d) @ map fst (dir_subdirs d)"

definition get_existing_file_nums :: "string \<Rightarrow> (data_dir, int list) act" where
  "get_existing_file_nums db rel =
     (case map_of (dbs rel) db of
        None \<Rightarrow> if dir_exists rel then (Inr [], rel\<lparr>dbs := AList.update db empty_dir (dbs rel)\<rparr>)
                else (Inl FileNotFoundError, rel)
      | Some d \<Rightarrow>
          (let existing_files = filter (\<lambda>f. endswith f ''.bin'') (listdir d)
           in (bindE (mapE (\<lambda>f. py_int (hd (split_char CHR ''.'' f))) existing_files)
                 (\<lambda>nums. Inr (sort nums)), rel)))"

text \<open>The last component of \<^verbatim>\<open>get_file_name_by_num\<close>; the directory is the database's.\<close>

definition get_file_name_by_num :: "int \<Rightarrow> string" where
  "get_file_name_by_num num = str_int num @ ''.bin''"

definition lookup_file :: "data_dir \<Rightarrow> string \<Rightarrow> int \<Rightarrow> rfile option" where
  "lookup_file rel db num =
     Option.bind (map_of (dbs rel) db) (\<lambda>d. map_of (dir_files d) (get_file_name_by_num num))"

text \<open>\<^verbatim>\<open>FileReader(get_file_name_by_num(...))\<close>: opening a missing file raises.\<close>

definition open_reader :: "data_dir \<Rightarrow> string \<Rightarrow> int \<Rightarrow> (byte list \<times> file_reader) res" where
  "open_reader rel db num =
     (case lookup_file rel db num of
        None \<Rightarrow> Inl FileNotFoundError
      | Some f \<Rightarrow> Inr (content f, new_file_reader num))"

section \<open>Reading a file to its end\<close>

text \<open>
  The loops \<^verbatim>\<open>while True: event = reader.read_next_event(); if event is None: break; ...\<close>.
  The body either leaves the loop with an outcome or goes on with a new local state; \<open>fin\<close>
  is what follows the loop.
\<close>

lemma read_next_event_progress:
  assumes "read_next_event loads c r = (Inr (Some ev), r')"
  shows "(length c - offset r') + length (current_buffer r') < (length c - offset r) + length (current_buffer r)"
proof -
  have fr: "(length c - offset (file_read c n q)) + length (current_buffer (file_read c n q))
      = (length c - offset q) + length (current_buffer q)" for n q
    by (auto simp: file_read_def Let_def)
  define r1 where "r1 = (if length (current_buffer r) < 4
                then file_read c (4 - int (length (current_buffer r))) r else r)"
  define s where "s = be_nat (take 4 (current_buffer r1))"
  define r2 where "r2 = (if length (current_buffer r1) \<noteq> s + 4
                     then file_read c (int (s + 4) - int (length (current_buffer r1))) r1 else r1)"
  have "(length c - offset r2) + length (current_buffer r2) = (length c - offset r1) + length (current_buffer r1)"
    by (cases "length (current_buffer r1) = s + 4") (simp_all only: r2_def fr if_True if_False not_False_eq_True simp_thms)
  also have "\<dots> = (length c - offset r) + length (current_buffer r)"
    by (cases "length (current_buffer r) < 4") (simp_all only: r1_def fr if_True if_False)
  finally have "(length c - offset r2) + length (current_buffer r2) = (length c - offset r) + length (current_buffer r)" .
  moreover have "length (current_buffer r2) = s + 4 \<and> r' = r2\<lparr>current_buffer := []\<rparr>"
    using assms unfolding read_next_event_def Let_def r1_def [symmetric] s_def [symmetric] r2_def [symmetric]
    by (auto split: if_splits sum.splits)
  ultimately show ?thesis by simp
qed

function file_loop :: "(byte list \<Rightarrow> log_event res) \<Rightarrow> byte list \<Rightarrow> (log_event \<Rightarrow> 's \<Rightarrow> 'b res + 's)
    \<Rightarrow> ('s \<Rightarrow> 'b res) \<Rightarrow> file_reader \<Rightarrow> 's \<Rightarrow> 'b res \<times> file_reader" where
  "file_loop loads c body fin r s =
     (case read_next_event loads c r of
        (Inl e, r') \<Rightarrow> (Inl e, r')
      | (Inr None, r') \<Rightarrow> (fin s, r')
      | (Inr (Some ev), r') \<Rightarrow>
          (case body ev s of Inl out \<Rightarrow> (out, r') | Inr s' \<Rightarrow> file_loop loads c body fin r' s'))"
  by pat_completeness auto
termination
  by (relation "measure (\<lambda>(_, c, _, _, r, _). (length c - offset r) + length (current_buffer r))")
    (auto dest: sym [THEN read_next_event_progress])

declare file_loop.simps [simp del]

section \<open>DataReader\<close>

definition get_last_file_num :: "string \<Rightarrow> (data_dir, int option) act" where
  "get_last_file_num db =
     bindA (get_existing_file_nums db) (\<lambda>nums.
       retA (if nums = [] then None else Some (Max (set nums))))"

definition get_last_transaction_id ::
  "(byte list \<Rightarrow> log_event res) \<Rightarrow> string \<Rightarrow> (data_dir, transaction option) act" where
  "get_last_transaction_id loads db =
     bindA (get_last_file_num db) (\<lambda>last.
       case last of None \<Rightarrow> retA None
       | Some n \<Rightarrow> liftA (\<lambda>rel. bindE (open_reader rel db n) (\<lambda>(c, r).
           fst (file_loop loads c (\<lambda>ev _. Inr (Some (transaction_id ev))) (\<lambda>last. Inr last) r None))))"

definition get_first_transaction_in_file ::
  "(byte list \<Rightarrow> log_event res) \<Rightarrow> data_dir \<Rightarrow> string \<Rightarrow> int \<Rightarrow> transaction option res" where
  "get_first_transaction_in_file loads rel db num =
     bindE (open_reader rel db num) (\<lambda>(c, r).
     bindE (fst (read_next_event loads c r)) (\<lambda>first_event.
       Inr (map_option transaction_id first_event)))"

definition file_has_transaction ::
  "(byte list \<Rightarrow> log_event res) \<Rightarrow> data_dir \<Rightarrow> string \<Rightarrow> int \<Rightarrow> transaction \<Rightarrow> bool res" where
  "file_has_transaction loads rel db num tx =
     bindE (open_reader rel db num) (\<lambda>(c, r).
       fst (file_loop loads c (\<lambda>ev _. if transaction_id ev = tx then Inl (Inr True) else Inr ())
              (\<lambda>_. Inr False) r ()))"

text \<open>The first loop of \<^verbatim>\<open>get_file_with_transaction\<close>.\<close>

fun find_matching :: "(byte list \<Rightarrow> log_event res) \<Rightarrow> data_dir \<Rightarrow> string \<Rightarrow> transaction
    \<Rightarrow> int option \<Rightarrow> int list \<Rightarrow> int option res" where
  "find_matching loads rel db tx prev [] = Inr None"
| "find_matching loads rel db tx prev (n # ns) =
     bindE (get_first_transaction_in_file loads rel db n) (\<lambda>first.
       case first of
         None \<Rightarrow> find_matching loads rel db tx prev ns
       | Some t \<Rightarrow> bindE (compare_transactions t tx) (\<lambda>c.
           if 0 < c then Inr prev else find_matching loads rel db tx (Some n) ns))"

text \<open>The second: the first file of the window that holds the transaction.\<close>

fun find_in_window :: "(byte list \<Rightarrow> log_event res) \<Rightarrow> data_dir \<Rightarrow> string \<Rightarrow> transaction
    \<Rightarrow> int list \<Rightarrow> int res" where
  "find_in_window loads rel db tx [] = Inl TransactionNotFound"
| "find_in_window loads rel db tx (n # ns) =
     bindE (file_has_transaction loads rel db n tx) (\<lambda>has.
       if has then Inr n else find_in_window loads rel db tx ns)"

definition get_file_with_transaction ::
  "(byte list \<Rightarrow> log_event res) \<Rightarrow> data_dir \<Rightarrow> string \<Rightarrow> int list \<Rightarrow> transaction \<Rightarrow> int res" where
  "get_file_with_transaction loads rel db nums tx =
     raise_if (nums = []) TransactionNotFound
       (bindE (find_matching loads rel db tx None nums) (\<lambda>matching.
        let matching_file_num = (case matching of None \<Rightarrow> last nums | Some n \<Rightarrow> n)
        in bindE (index_of nums matching_file_num) (\<lambda>idx.
             find_in_window loads rel db tx (take (idx + 10 - (idx - 10)) (drop (idx - 10) nums)))))"

text \<open>The object: the reader it is at, if any.\<close>

definition set_position_body :: "transaction \<Rightarrow> log_event \<Rightarrow> unit \<Rightarrow> unit res + unit" where
  "set_position_body tx ev s =
     (if transaction_id ev = tx then Inl (Inr ())
      else case compare_transactions (transaction_id ev) tx of
             Inl e \<Rightarrow> Inl (Inl e)
           | Inr c \<Rightarrow> if 0 < c then Inl (Inl TransactionNotFound) else Inr ())"

definition set_position :: "(byte list \<Rightarrow> log_event res) \<Rightarrow> string \<Rightarrow> transaction option
    \<Rightarrow> (data_dir \<times> file_reader option, unit) act" where
  "set_position loads db tx = (\<lambda>(rel, cur).
     case get_existing_file_nums db rel of
       (Inl e, rel') \<Rightarrow> (Inl e, (rel', cur))
     | (Inr nums, rel') \<Rightarrow>
        (case tx of
           None \<Rightarrow>
             if nums = [] then (Inr (), (rel', None))
             else (case open_reader rel' db (hd nums) of
                     Inl e \<Rightarrow> (Inl e, (rel', cur))
                   | Inr (_, r) \<Rightarrow> (Inr (), (rel', Some r)))
         | Some t \<Rightarrow>
             (case get_file_with_transaction loads rel' db nums t of
                Inl e \<Rightarrow> (Inl e, (rel', cur))
              | Inr n \<Rightarrow>
                  (case open_reader rel' db n of
                     Inl e \<Rightarrow> (Inl e, (rel', cur))
                   | Inr (c, r) \<Rightarrow>
                       (case file_loop loads c (set_position_body t) (\<lambda>_. Inl TransactionNotFound) r () of
                          (out, r') \<Rightarrow> (out, (rel', Some r')))))))"

text \<open>
  The files after the current one that are there; each switch to the next file takes one
  away, so the recursion of \<^verbatim>\<open>read_next_event\<close> ends.
\<close>

definition later_files :: "data_dir \<Rightarrow> string \<Rightarrow> int \<Rightarrow> int set" where
  "later_files rel db n = {m. n < m \<and> lookup_file rel db m \<noteq> None}"

lemma get_file_name_by_num_inject [simp]:
  "get_file_name_by_num m = get_file_name_by_num n \<longleftrightarrow> m = n"
proof
  assume "get_file_name_by_num m = get_file_name_by_num n"
  then have "str_int m = str_int n" by (simp add: get_file_name_by_num_def)
  moreover have "CHR ''-'' # s \<noteq> str_nat k" for s k
  proof
    assume "CHR ''-'' # s = str_nat k"
    then have "is_digit CHR ''-''"
      using digits_str_nat [of k] by (metis digits_def list.pred_inject(2))
    then show False using is_digit_not_sign by blast
  qed
  ultimately show "m = n"
    by (auto simp: str_int_def simp del: str_nat.simps split: if_splits dest: sym)
qed simp

lemma finite_later_files [simp]: "finite (later_files rel db n)"
proof (cases "map_of (dbs rel) db")
  case (Some d)
  have "get_file_name_by_num ` later_files rel db n \<subseteq> fst ` set (dir_files d)"
    using Some by (force simp: later_files_def lookup_file_def dest: map_of_SomeD)
  then have "finite (get_file_name_by_num ` later_files rel db n)"
    by (rule finite_subset) simp
  then show ?thesis
    by (rule finite_imageD) (simp add: inj_on_def)
qed (simp add: later_files_def lookup_file_def)

lemma later_files_decrease:
  "lookup_file rel db (n + 1) \<noteq> None \<Longrightarrow> card (later_files rel db (n + 1)) < card (later_files rel db n)"
  by (rule psubset_card_mono [OF finite_later_files]) (auto simp: later_files_def)

text \<open>
  \<^verbatim>\<open>DataReader.read_next_event\<close> with a file reader in hand. A file that has been removed
  under the reader reads as its end.
\<close>

definition content_of :: "data_dir \<Rightarrow> string \<Rightarrow> int \<Rightarrow> byte list" where
  "content_of rel db n = (case lookup_file rel db n of None \<Rightarrow> [] | Some f \<Rightarrow> content f)"

lemma read_next_event_file_num [simp]: "file_num (snd (read_next_event loads c r)) = file_num r"
proof -
  have "file_num (file_read c n q) = file_num q" for n q
    by (simp add: file_read_def Let_def)
  then show ?thesis
    by (simp add: read_next_event_def Let_def split: sum.split)
qed

function read_from :: "(byte list \<Rightarrow> log_event res) \<Rightarrow> data_dir \<Rightarrow> string \<Rightarrow> file_reader
    \<Rightarrow> log_event option res \<times> file_reader" where
  "read_from loads rel db r =
     (case read_next_event loads (content_of rel db (file_num r)) r of
        (Inr None, r') \<Rightarrow>
          (if lookup_file rel db (file_num r' + 1) = None then (Inr None, r')
           else read_from loads rel db (new_file_reader (file_num r' + 1)))
      | (result, r') \<Rightarrow> (result, r'))"
  by pat_completeness auto
termination
proof (relation "measure (\<lambda>(_, rel, db, r). card (later_files rel db (file_num r)))", goal_cases)
  case (2 loads rel db r x r' y)
  then have "file_num r' = file_num r"
    by (metis read_next_event_file_num snd_conv)
  with 2 later_files_decrease show ?case
    by (simp add: new_file_reader_def)
qed simp

declare read_from.simps [simp del]

definition DataReader_read_next_event :: "(byte list \<Rightarrow> log_event res) \<Rightarrow> string
    \<Rightarrow> (data_dir \<times> file_reader option, log_event option) act" where
  "DataReader_read_next_event loads db = (\<lambda>(rel, cur).
     case cur of
       Some r \<Rightarrow> (case read_from loads rel db r of (out, r') \<Rightarrow> (out, (rel, Some r')))
     | None \<Rightarrow>
         (case get_existing_file_nums db rel of
            (Inl e, rel') \<Rightarrow> (Inl e, (rel', None))
          | (Inr nums, rel') \<Rightarrow>
              if nums = [] then (Inr None, (rel', None))
              else (case open_reader rel' db (hd nums) of
                      Inl e \<Rightarrow> (Inl e, (rel', None))
                    | Inr (_, r) \<Rightarrow>
                        (case read_from loads rel' db r of (out, r') \<Rightarrow> (out, (rel', Some r'))))))"

section \<open>Complete files\<close>

lemma read_next_event_complete:
  assumes "reader_at dumps es k r" and "storable dumps loads es"
  obtains r' where "file_num r' = file_num r"
    and "read_next_event loads (frames dumps es) r =
           (if k < length es then (Inr (Some (es ! k)), r') else (Inr None, r'))"
    and "reader_at dumps es (if k < length es then Suc k else k) r'"
proof -
  let ?n = "length (frames dumps es)"
  obtain out r' where rd: "read_next_event loads (frames dumps es) r = (out, r')"
    by fastforce
  have "offset r \<le> ?n"
  proof -
    have "frames dumps es = frames dumps (take k es) @ frames dumps (drop k es)"
      by (metis append_take_drop_id frames_simps(3))
    with assms(1) show ?thesis
      by (auto simp: reader_at_buffered buffered_def)
  qed
  from read_next_event_step(2) [OF assms(1) this assms(2), of out r'] rd frames_take_mono [of "Suc k" "length es" dumps es]
  have "if k < length es then out = Inr (Some (es ! k)) \<and> reader_at dumps es (Suc k) r'
         else out = Inr None \<and> reader_at dumps es k r'"
    by (auto split: if_splits)
  moreover have "file_num r' = file_num r"
    using read_next_event_file_num [of loads "frames dumps es" r] rd by simp
  ultimately show ?thesis
    using rd by (intro that [of r']) (auto split: if_splits)
qed

text \<open>A loop over the events of a file, with the number of events it has consumed.\<close>

fun event_loop :: "(log_event \<Rightarrow> 's \<Rightarrow> 'b res + 's) \<Rightarrow> ('s \<Rightarrow> 'b res) \<Rightarrow> log_event list \<Rightarrow> nat \<Rightarrow> 's \<Rightarrow> 'b res \<times> nat" where
  "event_loop body fin [] k s = (fin s, k)"
| "event_loop body fin (ev # evs) k s =
     (case body ev s of Inl out \<Rightarrow> (out, Suc k) | Inr s' \<Rightarrow> event_loop body fin evs (Suc k) s')"

lemma file_loop_events:
  assumes "reader_at dumps es k r" and "storable dumps loads es"
  obtains r' where "file_num r' = file_num r"
    and "file_loop loads (frames dumps es) body fin r s = (fst (event_loop body fin (drop k es) k s), r')"
    and "reader_at dumps es (snd (event_loop body fin (drop k es) k s)) r'"
proof -
  have "\<exists>r'. file_num r' = file_num r
    \<and> file_loop loads (frames dumps es) body fin r s = (fst (event_loop body fin (drop k es) k s), r')
    \<and> reader_at dumps es (snd (event_loop body fin (drop k es) k s)) r'"
    using assms(1)
  proof (induction "length es - k" arbitrary: k r s)
    case 0
    then have k: "\<not> k < length es" by simp
    from read_next_event_complete [OF 0(2) assms(2)] k obtain r1 where
      r1: "file_num r1 = file_num r" "reader_at dumps es k r1"
        "read_next_event loads (frames dumps es) r = (Inr None, r1)" by auto
    have "file_loop loads (frames dumps es) body fin r s = (fin s, r1)"
      by (subst file_loop.simps) (simp add: r1(3))
    with k r1 show ?case by simp
  next
    case (Suc m)
    then have k: "k < length es" by simp
    from read_next_event_complete [OF Suc(3) assms(2)] k obtain r1 where
      r1: "file_num r1 = file_num r" "reader_at dumps es (Suc k) r1"
        "read_next_event loads (frames dumps es) r = (Inr (Some (es ! k)), r1)" by auto
    have d: "drop k es = es ! k # drop (Suc k) es"
      using k by (simp add: Cons_nth_drop_Suc)
    show ?case
    proof (cases "body (es ! k) s")
      case (Inl out)
      then have "file_loop loads (frames dumps es) body fin r s = (out, r1)"
        by (subst file_loop.simps) (simp add: r1(3))
      with Inl r1 d show ?thesis by simp
    next
      case (Inr s')
      from Suc(1) [of "Suc k" r1 s'] Suc(2) r1(2) have
        "\<exists>r'. file_num r' = file_num r1
          \<and> file_loop loads (frames dumps es) body fin r1 s'
              = (fst (event_loop body fin (drop (Suc k) es) (Suc k) s'), r')
          \<and> reader_at dumps es (snd (event_loop body fin (drop (Suc k) es) (Suc k) s')) r'" by simp
      moreover have "file_loop loads (frames dumps es) body fin r s = file_loop loads (frames dumps es) body fin r1 s'"
        by (subst file_loop.simps) (simp add: r1(3) Inr)
      ultimately show ?thesis using Inr r1 d by simp
    qed
  qed
  then show thesis using that by blast
qed

text \<open>
  \<open>relay_holds dumps rel db fs\<close>: the relay of \<open>db\<close> is exactly the files \<open>fs\<close>, numbers with
  their events, in ascending order, each written completely.
\<close>

definition relay_holds :: "(log_event \<Rightarrow> byte list) \<Rightarrow> data_dir \<Rightarrow> string \<Rightarrow> (int \<times> log_event list) list \<Rightarrow> bool" where
  "relay_holds dumps rel db fs \<longleftrightarrow> sorted_wrt (<) (map fst fs)
     \<and> get_existing_file_nums db rel = (Inr (map fst fs), rel)
     \<and> (\<forall>(n, es) \<in> set fs. map_option content (lookup_file rel db n) = Some (frames dumps es))
     \<and> (\<forall>n. lookup_file rel db n \<noteq> None \<longrightarrow> n \<in> fst ` set fs)"

lemma relay_holds_file:
  assumes "relay_holds dumps rel db fs" and "(n, es) \<in> set fs"
  shows "open_reader rel db n = Inr (frames dumps es, new_file_reader n)"
    and "content_of rel db n = frames dumps es"
  using assms by (auto simp: relay_holds_def open_reader_def content_of_def split: option.splits)

text \<open>The facts about one file that the search relies on.\<close>

lemma first_transaction_complete:
  assumes "relay_holds dumps rel db fs" and "(n, es) \<in> set fs" and "storable dumps loads es"
  shows "get_first_transaction_in_file loads rel db n
     = Inr (case es of [] \<Rightarrow> None | ev # _ \<Rightarrow> Some (transaction_id ev))"
proof -
  from read_next_event_complete [OF reader_at_new assms(3)]
  obtain r' where "read_next_event loads (frames dumps es) (new_file_reader n)
      = (if 0 < length es then (Inr (Some (es ! 0)), r') else (Inr None, r'))" by metis
  then show ?thesis
    by (cases es) (simp_all add: get_first_transaction_in_file_def relay_holds_file(1) [OF assms(1,2)])
qed

lemma event_loop_has:
  "fst (event_loop (\<lambda>ev _. if transaction_id ev = tx then Inl (Inr True) else Inr ()) (\<lambda>_. Inr False) es k s)
     = Inr (tx \<in> transaction_id ` set es)"
  by (induction es arbitrary: k s) auto

lemma file_has_transaction_complete:
  assumes "relay_holds dumps rel db fs" and "(n, es) \<in> set fs" and "storable dumps loads es"
  shows "file_has_transaction loads rel db n tx = Inr (tx \<in> transaction_id ` set es)"
proof -
  have "reader_at dumps es 0 (new_file_reader n)" by (rule reader_at_new)
  from file_loop_events [OF this assms(3)]
  have "fst (file_loop loads (frames dumps es) (\<lambda>ev _. if transaction_id ev = tx then Inl (Inr True) else Inr ())
     (\<lambda>_. Inr False) (new_file_reader n) ()) = Inr (tx \<in> transaction_id ` set es)"
    by (metis drop0 event_loop_has fst_conv)
  then show ?thesis
    by (simp add: file_has_transaction_def relay_holds_file(1) [OF assms(1,2)])
qed

section \<open>The search for a transaction\<close>

text \<open>
  \<open>ascending fs\<close>: the events of the files have strictly increasing positions, as an
  uninterrupted run of the binlog replicator writes them.
\<close>

definition readable :: "(log_event \<Rightarrow> byte list) \<Rightarrow> (byte list \<Rightarrow> log_event res) \<Rightarrow> (int \<times> log_event list) list \<Rightarrow> bool" where
  "readable dumps loads fs \<longleftrightarrow> storable dumps loads (concat (map snd fs))
     \<and> (\<forall>ev \<in> set (concat (map snd fs)). tx_ok (transaction_id ev))"

definition ascending :: "(int \<times> log_event list) list \<Rightarrow> bool" where
  "ascending fs \<longleftrightarrow> sorted_wrt (<) (map (\<lambda>ev. tx_key (transaction_id ev)) (concat (map snd fs)))"

lemma readable_file:
  "readable dumps loads fs \<Longrightarrow> (n, es) \<in> set fs \<Longrightarrow> storable dumps loads es"
  by (force simp: readable_def storable_def)

lemma readable_tx_ok:
  "readable dumps loads fs \<Longrightarrow> (n, es) \<in> set fs \<Longrightarrow> ev \<in> set es \<Longrightarrow> tx_ok (transaction_id ev)"
  by (force simp: readable_def)

fun match_num :: "transaction \<Rightarrow> int option \<Rightarrow> (int \<times> log_event list) list \<Rightarrow> int option" where
  "match_num tx prev [] = None"
| "match_num tx prev ((n, []) # fs) = match_num tx prev fs"
| "match_num tx prev ((n, ev # _) # fs) =
     (if tx_key tx < tx_key (transaction_id ev) then prev else match_num tx (Some n) fs)"

lemma find_matching_complete:
  assumes "relay_holds dumps rel db fs" and "readable dumps loads fs" and "tx_ok tx" and "set gs \<subseteq> set fs"
  shows "find_matching loads rel db tx prev (map fst gs) = Inr (match_num tx prev gs)"
  using assms(4)
proof (induction gs arbitrary: prev)
  case (Cons g gs)
  obtain n es where g: "g = (n, es)" by fastforce
  with Cons.prems have mem: "(n, es) \<in> set fs" by simp
  note first = first_transaction_complete [OF assms(1) mem readable_file [OF assms(2) mem]]
  show ?case
  proof (cases es)
    case Nil
    with g first Cons show ?thesis by simp
  next
    case (Cons ev evs)
    then have "tx_ok (transaction_id ev)"
      using readable_tx_ok [OF assms(2) mem] by simp
    from compare_transactions_sign [OF this assms(3)] obtain c where
      "compare_transactions (transaction_id ev) tx = Inr c"
      "0 < c \<longleftrightarrow> tx_key tx < tx_key (transaction_id ev)" by blast
    with g first Cons Cons.IH Cons.prems show ?thesis by simp
  qed
qed simp

lemma find_in_window_sound:
  assumes "find_in_window loads rel db tx ns = Inr n"
  shows "n \<in> set ns \<and> file_has_transaction loads rel db n tx = Inr True"
  using assms by (induction ns) (auto simp: res_simps split: if_splits)

lemma find_in_window_complete:
  assumes "relay_holds dumps rel db fs" and "readable dumps loads fs" and "set gs \<subseteq> set fs"
    and "gs = gs1 @ (n, es) # gs2" and "tx \<in> transaction_id ` set es"
    and "\<And>m es'. (m, es') \<in> set gs1 \<Longrightarrow> tx \<notin> transaction_id ` set es'"
  shows "find_in_window loads rel db tx (map fst gs) = Inr n"
  using assms(3-6)
proof (induction gs1 arbitrary: gs)
  case Nil
  then have mem: "(n, es) \<in> set fs" by auto
  then have "file_has_transaction loads rel db n tx = Inr True"
    using file_has_transaction_complete [OF assms(1) mem readable_file [OF assms(2) mem], of tx] Nil by simp
  with Nil show ?case by simp
next
  case (Cons g gs1)
  obtain m es' where g: "g = (m, es')" by fastforce
  then have "(m, es') \<in> set fs" "tx \<notin> transaction_id ` set es'"
    using Cons.prems by auto
  then have "file_has_transaction loads rel db m tx = Inr False"
    using file_has_transaction_complete [OF assms(1) _ readable_file [OF assms(2)], of m es' m tx] by simp
  with Cons.IH [of "gs1 @ (n, es) # gs2"] Cons.prems g show ?case by auto
qed

lemma ascending_append:
  assumes "ascending (fs1 @ (n, es) # fs2)" and "ev \<in> set es"
  shows "(m, es') \<in> set fs1 \<Longrightarrow> ev' \<in> set es' \<Longrightarrow> tx_key (transaction_id ev') < tx_key (transaction_id ev)"
    and "(m, es') \<in> set fs2 \<Longrightarrow> ev' \<in> set es' \<Longrightarrow> tx_key (transaction_id ev) < tx_key (transaction_id ev')"
  using assms by (force simp: ascending_def sorted_wrt_append simp del: less_prod_simp)+

lemma ascending_file:
  assumes "ascending (fs1 @ (n, us @ ev # vs) # fs2)"
  shows "ev' \<in> set us \<Longrightarrow> tx_key (transaction_id ev') < tx_key (transaction_id ev)"
    and "ev' \<in> set vs \<Longrightarrow> tx_key (transaction_id ev) < tx_key (transaction_id ev')"
  using assms by (auto simp: ascending_def sorted_wrt_append simp del: less_prod_simp)

lemma match_num_all_before:
  assumes "\<And>m es' ev'. (m, es') \<in> set fs1 \<Longrightarrow> ev' \<in> set es' \<Longrightarrow> tx_key (transaction_id ev') < tx_key tx"
  shows "\<exists>prev'. match_num tx prev (fs1 @ fs) = match_num tx prev' fs"
  using assms
proof (induction tx prev fs1 rule: match_num.induct)
  case (3 tx prev n ev evs fs1)
  then have "tx_key (transaction_id ev) < tx_key tx"
    by (metis list.set_intros(1))
  with 3 show ?case by (auto simp del: less_prod_simp)
qed auto

lemma match_num_all_after:
  assumes "\<And>m es' ev'. (m, es') \<in> set fs2 \<Longrightarrow> ev' \<in> set es' \<Longrightarrow> tx_key tx < tx_key (transaction_id ev')"
  shows "match_num tx prev fs2 = (if \<forall>(m, es') \<in> set fs2. es' = [] then None else prev)"
  using assms
proof (induction tx prev fs2 rule: match_num.induct)
  case (3 tx prev n ev evs fs2)
  then have "tx_key tx < tx_key (transaction_id ev)"
    by (metis list.set_intros(1))
  then show ?case by (auto simp del: less_prod_simp)
next
  case (2 tx prev n fs2)
  then have "match_num tx prev fs2 = (if \<forall>(m, es') \<in> set fs2. es' = [] then None else prev)"
    by (meson list.set_intros(2))
  then show ?case by simp
qed simp

lemma match_num_ascending:
  assumes asc: "ascending (fs1 @ (n, es) # fs2)" and ev: "ev \<in> set es"
  shows "match_num (transaction_id ev) None (fs1 @ (n, es) # fs2)
     = (if \<forall>(m, es') \<in> set fs2. es' = [] then None else Some n)"
proof -
  let ?tx = "transaction_id ev"
  have "\<exists>prev'. match_num ?tx None (fs1 @ (n, es) # fs2) = match_num ?tx prev' ((n, es) # fs2)"
    by (rule match_num_all_before) (rule ascending_append(1) [OF asc ev])
  then obtain prev' where "match_num ?tx None (fs1 @ (n, es) # fs2) = match_num ?tx prev' ((n, es) # fs2)"
    by blast
  moreover obtain ev1 evs where es: "es = ev1 # evs" using ev by (cases es) auto
  moreover have "\<not> tx_key ?tx < tx_key (transaction_id ev1)"
  proof -
    have "ev = ev1 \<or> tx_key (transaction_id ev1) < tx_key ?tx"
      using ascending_file(2) [of fs1 n "[]" ev1 evs fs2 ev] asc ev es by auto
    then show ?thesis by (auto dest: less_not_sym)
  qed
  moreover have "match_num ?tx (Some n) fs2 = (if \<forall>(m, es') \<in> set fs2. es' = [] then None else Some n)"
    by (rule match_num_all_after) (rule ascending_append(2) [OF asc ev])
  ultimately show ?thesis by (simp del: less_prod_simp)
qed

lemma index_of_nth: "distinct xs \<Longrightarrow> i < length xs \<Longrightarrow> index_of xs (xs ! i) = Inr i"
  by (metis index_of_Inr index_of_total nth_eq_iff_index_eq nth_mem)

text \<open>The window of \<^verbatim>\<open>range(max(0, idx-10), idx+10)\<close> around \<open>idx\<close>.\<close>

lemma window_split:
  assumes "idx < length (fs1 @ x # fs2)" and "idx - 10 \<le> length fs1" and "length fs1 < idx + 10"
  shows "\<exists>us vs. take (idx + 10 - (idx - 10)) (drop (idx - 10) (fs1 @ x # fs2)) = us @ x # vs
     \<and> set us \<subseteq> set fs1"
proof -
  let ?d = "drop (idx - 10) fs1"
  have "0 < idx + 10 - (idx - 10) - length ?d" "length ?d \<le> idx + 10 - (idx - 10)"
    using assms by auto
  then obtain j where "idx + 10 - (idx - 10) = length ?d + Suc j"
    by (metis Suc_pred le_add_diff_inverse)
  then have "take (idx + 10 - (idx - 10)) (drop (idx - 10) (fs1 @ x # fs2)) = ?d @ x # take j fs2"
    using assms(2) by simp
  moreover have "set ?d \<subseteq> set fs1" by (rule set_drop_subset)
  ultimately show ?thesis by blast
qed

text \<open>
  In a relay with ascending positions the search finds the one file that holds the
  transaction, unless more than ten files without a single event follow it.
\<close>

lemma get_file_with_transaction_complete:
  assumes holds: "relay_holds dumps rel db fs" and ok: "readable dumps loads fs" and asc: "ascending fs"
    and fs: "fs = fs1 @ (n, es) # fs2" and ev: "ev \<in> set es"
    and trailing: "(\<forall>(m, es') \<in> set fs2. es' = []) \<Longrightarrow> length fs2 \<le> 10"
  shows "get_file_with_transaction loads rel db (map fst fs) (transaction_id ev) = Inr n"
proof -
  let ?tx = "transaction_id ev" and ?nums = "map fst fs" and ?empty = "\<forall>(m, es') \<in> set fs2. es' = []"
  have mem: "(n, es) \<in> set fs" using fs by simp
  have txok: "tx_ok ?tx" using readable_tx_ok [OF ok mem ev] .
  have fm: "find_matching loads rel db ?tx None ?nums = Inr (if ?empty then None else Some n)"
    using find_matching_complete [OF holds ok txok, of fs None]
      match_num_ascending [OF asc [unfolded fs] ev] fs by simp
  define idx where "idx = (if ?empty then length fs1 + length fs2 else length fs1)"
  have lt: "idx < length (fs1 @ (n, es) # fs2)" "idx - 10 \<le> length fs1" "length fs1 < idx + 10"
    using trailing by (auto simp: idx_def)
  have at: "?nums ! idx = (case (if ?empty then None else Some n) of None \<Rightarrow> last ?nums | Some n \<Rightarrow> n)"
    using fs by (auto simp: idx_def last_conv_nth nth_append)
  have "distinct ?nums"
    using holds by (auto simp: relay_holds_def strict_sorted_iff)
  then have index: "index_of ?nums (?nums ! idx) = Inr idx"
    using lt(1) fs by (intro index_of_nth) auto
  let ?w = "take (idx + 10 - (idx - 10)) (drop (idx - 10) fs)"
  obtain us vs where w: "?w = us @ (n, es) # vs" and us: "set us \<subseteq> set fs1"
    using window_split [OF lt] fs by blast
  have sub: "set ?w \<subseteq> set fs"
    by (meson order.trans set_drop_subset set_take_subset)
  have "?tx \<notin> transaction_id ` set es'" if "(m, es') \<in> set us" for m es'
    using ascending_append(1) [OF asc [unfolded fs] ev, of m es'] us that by (force simp del: less_prod_simp)
  from find_in_window_complete [OF holds ok sub w _ this] ev
  have "find_in_window loads rel db ?tx (take (idx + 10 - (idx - 10)) (drop (idx - 10) ?nums)) = Inr n"
    by (simp add: drop_map take_map)
  moreover have "(?nums = []) = False" using fs by simp
  ultimately show ?thesis
    by (simp only: get_file_with_transaction_def fm bindE_simps Let_def at [symmetric] index raise_if_simps)
qed

text \<open>Whatever the relay holds, a file that is returned does have the transaction.\<close>

lemma get_file_with_transaction_sound:
  assumes "get_file_with_transaction loads rel db nums tx = Inr n"
  shows "n \<in> set nums \<and> file_has_transaction loads rel db n tx = Inr True"
  using assms
  by (auto simp: get_file_with_transaction_def Let_def res_simps
      dest!: find_in_window_sound in_set_takeD in_set_dropD)

section \<open>Resuming behind a transaction\<close>

text \<open>
  \<open>pending fs dumps r evs\<close>: the reader \<open>r\<close> is inside one of the files, and \<open>evs\<close> is what
  it has not yet returned of that file and the files behind it.
\<close>

definition pending :: "(log_event \<Rightarrow> byte list) \<Rightarrow> (int \<times> log_event list) list \<Rightarrow> file_reader \<Rightarrow> log_event list \<Rightarrow> bool" where
  "pending dumps fs r evs \<longleftrightarrow> (\<exists>fs1 es fs2 k. fs = fs1 @ (file_num r, es) # fs2
     \<and> reader_at dumps es k r \<and> evs = drop k es @ concat (map snd fs2))"

definition consecutive :: "(int \<times> log_event list) list \<Rightarrow> bool" where
  "consecutive fs \<longleftrightarrow> successively (\<lambda>m n. n = m + 1) (map fst fs)"

lemma consecutive_next:
  "consecutive (fs1 @ (n, es) # (m, es') # fs2) \<Longrightarrow> m = n + 1"
  by (simp add: consecutive_def successively_append_iff)

lemma consecutive_end:
  "relay_holds dumps rel db (fs1 @ [(n, es)]) \<Longrightarrow> lookup_file rel db (n + 1) = None"
  unfolding relay_holds_def by (force simp: sorted_wrt_append)

lemma read_from_pending:
  assumes holds: "relay_holds dumps rel db fs" and ok: "readable dumps loads fs" and c: "consecutive fs"
    and p: "pending dumps fs r evs"
  shows "\<exists>r'. pending dumps fs r' (tl evs) \<and> read_from loads rel db r
     = (Inr (case evs of [] \<Rightarrow> None | ev # _ \<Rightarrow> Some ev), r')"
proof -
  obtain fs1 es fs2 k where "fs = fs1 @ (file_num r, es) # fs2" "reader_at dumps es k r"
    "evs = drop k es @ concat (map snd fs2)"
    using p by (auto simp: pending_def)
  then show ?thesis
  proof (induction fs2 arbitrary: fs1 es k r)
    case Nil
    then have mem: "(file_num r, es) \<in> set fs" by simp
    obtain r' where r': "file_num r' = file_num r" "read_next_event loads (content_of rel db (file_num r)) r =
           (if k < length es then (Inr (Some (es ! k)), r') else (Inr None, r'))"
      "reader_at dumps es (if k < length es then Suc k else k) r'"
      using read_next_event_complete [OF Nil(2) readable_file [OF ok mem]] relay_holds_file(2) [OF holds mem] by metis
    have "lookup_file rel db (file_num r + 1) = None"
      using consecutive_end [of dumps rel db fs1 "file_num r" es] Nil(1) holds by simp
    with r' have "read_from loads rel db r = (if k < length es then (Inr (Some (es ! k)), r') else (Inr None, r'))"
      by (subst read_from.simps) simp
    moreover have "pending dumps fs r' (tl evs)"
      unfolding pending_def using Nil r' by (intro exI [of _ fs1] exI [of _ es] exI [of _ "[]"]
          exI [of _ "if k < length es then Suc k else k"]) (auto simp: tl_drop drop_Suc)
    ultimately show ?case
      using Nil by (auto split: list.splits simp: Cons_nth_drop_Suc [symmetric])
  next
    case (Cons f fs2)
    obtain m es' where f: "f = (m, es')" by fastforce
    from Cons have mem: "(file_num r, es) \<in> set fs" by simp
    obtain r' where r': "file_num r' = file_num r" "read_next_event loads (content_of rel db (file_num r)) r =
           (if k < length es then (Inr (Some (es ! k)), r') else (Inr None, r'))"
      "reader_at dumps es (if k < length es then Suc k else k) r'"
      using read_next_event_complete [OF Cons(3) readable_file [OF ok mem]] relay_holds_file(2) [OF holds mem] by metis
    have m: "m = file_num r + 1"
      using consecutive_next [of fs1 "file_num r" es m es' fs2] c Cons(2) f by simp
    have mem': "(m, es') \<in> set fs" using Cons(2) f by simp
    then have there: "lookup_file rel db (file_num r + 1) \<noteq> None"
      using holds m by (auto simp: relay_holds_def)
    show ?case
    proof (cases "k < length es")
      case True
      with r' have "read_from loads rel db r = (Inr (Some (es ! k)), r')"
        by (subst read_from.simps) simp
      moreover have "pending dumps fs r' (tl evs)"
        unfolding pending_def using Cons r' True by (intro exI [of _ fs1] exI [of _ es] exI [of _ "f # fs2"]
          exI [of _ "Suc k"]) (auto simp: tl_drop drop_Suc Cons_nth_drop_Suc [symmetric])
      ultimately show ?thesis
        using Cons True by (auto simp: Cons_nth_drop_Suc [symmetric])
    next
      case False
      with r' there have "read_from loads rel db r = read_from loads rel db (new_file_reader (file_num r + 1))"
        by (subst read_from.simps) auto
      moreover have "\<exists>r'. pending dumps fs r' (tl evs) \<and> read_from loads rel db (new_file_reader (file_num r + 1))
          = (Inr (case evs of [] \<Rightarrow> None | ev # _ \<Rightarrow> Some ev), r')"
        using Cons False f m by (intro Cons.IH [of "fs1 @ [(file_num r, es)]" _ es' 0])
          (auto simp: new_file_reader_def intro: reader_at_new [unfolded new_file_reader_def])
      ultimately show ?thesis by simp
    qed
  qed
qed

lemma set_position_loop:
  assumes "ascending (fs1 @ (n, us @ ev # vs) # fs2)" and "tx_ok (transaction_id ev)"
    and "\<And>ev'. ev' \<in> set us \<Longrightarrow> tx_ok (transaction_id ev')"
  shows "event_loop (set_position_body (transaction_id ev)) fin (us @ ev # vs) k ()
     = (Inr (), k + Suc (length us))"
proof -
  have "event_loop (set_position_body (transaction_id ev)) fin (ws @ ev # vs) k () = (Inr (), k + Suc (length ws))"
    if "set ws \<subseteq> set us" for ws
    using that
  proof (induction ws arbitrary: k)
    case Nil
    then show ?case by (simp add: set_position_body_def)
  next
    case (Cons w ws)
    then have w: "w \<in> set us" by simp
    with ascending_file(1) [OF assms(1), of w] assms(3) [of w] assms(2)
      compare_transactions_sign [of "transaction_id w" "transaction_id ev"] obtain c where
      c: "compare_transactions (transaction_id w) (transaction_id ev) = Inr c" "\<not> 0 < c"
      by (metis less_not_sym)
    moreover have "transaction_id w \<noteq> transaction_id ev"
      using ascending_file(1) [OF assms(1) w] by (metis less_irrefl)
    ultimately show ?case
      using Cons by (simp add: set_position_body_def)
  qed
  from this [of us] show ?thesis by simp
qed

text \<open>The reader's client: \<open>n\<close> calls of \<^verbatim>\<open>read_next_event\<close>, and the events they return.\<close>

fun read_events :: "(byte list \<Rightarrow> log_event res) \<Rightarrow> string \<Rightarrow> nat
    \<Rightarrow> (data_dir \<times> file_reader option, log_event option list) act" where
  "read_events loads db 0 = retA []"
| "read_events loads db (Suc n) = bindA (DataReader_read_next_event loads db) (\<lambda>ev.
     bindA (read_events loads db n) (\<lambda>evs. retA (ev # evs)))"

lemma read_events_pending:
  assumes holds: "relay_holds dumps rel db fs" and ok: "readable dumps loads fs" and c: "consecutive fs"
    and p: "pending dumps fs r evs"
  shows "\<exists>r'. read_events loads db n (rel, Some r)
     = (Inr (map Some (take n evs) @ replicate (n - length evs) None), (rel, Some r'))"
  using p
proof (induction n arbitrary: r evs)
  case 0
  then show ?case by (simp add: retA_def)
next
  case (Suc n)
  from read_from_pending [OF holds ok c Suc.prems] obtain r1 where
    r1: "pending dumps fs r1 (tl evs)" "read_from loads rel db r
      = (Inr (case evs of [] \<Rightarrow> None | ev # _ \<Rightarrow> Some ev), r1)" by blast
  from Suc.IH [OF r1(1)] obtain r2 where "read_events loads db n (rel, Some r1)
     = (Inr (map Some (take n (tl evs)) @ replicate (n - length (tl evs)) None), (rel, Some r2))" by blast
  with r1(2) show ?case
    by (cases evs) (auto simp: bindA_def retA_def DataReader_read_next_event_def)
qed

text \<open>C11. A consumer that resumes at its last processed transaction loses and repeats nothing. In a
  relay of completely written, consecutively numbered files whose events have increasing
  positions, \<^verbatim>\<open>set_position\<close> on the position of any stored event succeeds, and the calls of
  \<^verbatim>\<open>read_next_event\<close> after it return exactly the events behind that one, in order and across all
  file boundaries, and then None. The one exception is written out: if every later file is
  empty, at most ten of them may follow, the window of the search.\<close>

theorem set_position_resumes:
  assumes "relay_holds dumps rel db fs" and "readable dumps loads fs" and "ascending fs" and "consecutive fs"
    and "fs = fs1 @ (n, us @ ev # vs) # fs2"
    and "(\<forall>(m, es) \<in> set fs2. es = []) \<Longrightarrow> length fs2 \<le> 10"
  shows "\<exists>r. set_position loads db (Some (transaction_id ev)) (rel, cur) = (Inr (), (rel, Some r))
     \<and> (\<exists>r'. read_events loads db i (rel, Some r)
          = (Inr (map Some (take i (vs @ concat (map snd fs2)))
                  @ replicate (i - length (vs @ concat (map snd fs2))) None), (rel, Some r')))"
proof -
  let ?es = "us @ ev # vs" and ?tx = "transaction_id ev"
  have mem: "(n, ?es) \<in> set fs" using assms(5) by simp
  have ok: "storable dumps loads ?es" "\<And>ev'. ev' \<in> set ?es \<Longrightarrow> tx_ok (transaction_id ev')"
    using readable_file [OF assms(2) mem] readable_tx_ok [OF assms(2) mem] by auto
  have found: "get_file_with_transaction loads rel db (map fst fs) ?tx = Inr n"
    by (rule get_file_with_transaction_complete [OF assms(1-3,5)]) (use assms(6) in auto)
  obtain r where r: "file_num r = n" "file_loop loads (frames dumps ?es) (set_position_body ?tx)
      (\<lambda>_. Inl TransactionNotFound) (new_file_reader n) () = (Inr (), r)"
    "reader_at dumps ?es (Suc (length us)) r"
  proof (rule file_loop_events [OF reader_at_new ok(1), of n "set_position_body ?tx" "\<lambda>_. Inl TransactionNotFound" "()"])
    fix r
    assume "file_num r = file_num (new_file_reader n)"
      "file_loop loads (frames dumps ?es) (set_position_body ?tx) (\<lambda>_. Inl TransactionNotFound) (new_file_reader n) ()
        = (fst (event_loop (set_position_body ?tx) (\<lambda>_. Inl TransactionNotFound) (drop 0 ?es) 0 ()), r)"
      "reader_at dumps ?es (snd (event_loop (set_position_body ?tx) (\<lambda>_. Inl TransactionNotFound) (drop 0 ?es) 0 ())) r"
    with set_position_loop [OF assms(3) [unfolded assms(5)], of "\<lambda>_. Inl TransactionNotFound" 0] ok(2) show thesis
      by (intro that [of r]) (auto simp: new_file_reader_def)
  qed
  have "get_existing_file_nums db rel = (Inr (map fst fs), rel)"
    using assms(1) by (simp add: relay_holds_def)
  with found r(2) have set: "set_position loads db (Some ?tx) (rel, cur) = (Inr (), (rel, Some r))"
    by (simp add: set_position_def relay_holds_file(1) [OF assms(1) mem])
  have "pending dumps fs r (vs @ concat (map snd fs2))"
    unfolding pending_def using r assms(5) by (intro exI [of _ fs1] exI [of _ ?es] exI [of _ fs2]
      exI [of _ "Suc (length us)"]) auto
  with set read_events_pending [OF assms(1,2,4)] show ?thesis by blast
qed

definition sample_files :: "(int \<times> log_event list) list" where
  "sample_files = [(1, [sample_event 4, sample_event 5]), (2, [sample_event 7])]"

definition sample_relay :: data_dir where
  "sample_relay = \<lparr>dir_exists = True,
     dbs = [(''db'', \<lparr>dir_files = map (\<lambda>(n, es). (get_file_name_by_num n,
        \<lparr>content = frames sample_dumps es, mtime = 0\<rparr>)) sample_files, dir_subdirs = []\<rparr>)],
     state_json = None\<rparr>"

lemma sample_relay_holds: "relay_holds sample_dumps sample_relay ''db'' sample_files"
proof -
  have "get_existing_file_nums ''db'' sample_relay = (Inr [1, 2], sample_relay)"
    by code_simp
  moreover have "lookup_file sample_relay ''db'' n =
     (if n = 1 then Some \<lparr>content = frames sample_dumps [sample_event 4, sample_event 5], mtime = 0\<rparr>
      else if n = 2 then Some \<lparr>content = frames sample_dumps [sample_event 7], mtime = 0\<rparr> else None)" for n
    by (simp add: lookup_file_def sample_relay_def sample_files_def)
  ultimately show ?thesis
    by (auto simp: relay_holds_def sample_files_def)
qed

theorem set_position_resumes_witness:
  "\<exists>r. set_position sample_loads ''db'' (Some (''mysql-bin.000001'', 4)) (sample_relay, None)
      = (Inr (), (sample_relay, Some r))
     \<and> (\<exists>r'. read_events sample_loads ''db'' 3 (sample_relay, Some r)
          = (Inr [Some (sample_event 5), Some (sample_event 7), None], (sample_relay, Some r')))"
proof -
  have "\<forall>i \<in> {4, 5, 7}. tx_ok (transaction_id (sample_event i))"
    by code_simp
  moreover have "tx_key (transaction_id (sample_event i)) = (1, i)" for i
  proof -
    have "get_binlog_file_num ''mysql-bin.000001'' = Inr 1" by code_simp
    then show ?thesis by (simp add: sample_event_def tx_num_def)
  qed
  moreover have "storable sample_dumps sample_loads [sample_event 4, sample_event 5, sample_event 7]"
    by (simp add: storable_def sample_dumps_def sample_loads_def sample_event_def)
  ultimately have "readable sample_dumps sample_loads sample_files" "ascending sample_files" "consecutive sample_files"
    by (simp_all add: readable_def ascending_def consecutive_def sample_files_def)
  from set_position_resumes [OF sample_relay_holds this, of "[]" 1 "[]" "sample_event 4" "[sample_event 5]"
      "[(2, [sample_event 7])]" None 3] show ?thesis
    by (simp add: sample_files_def sample_event_def)
qed

end
