(* ===== verification/DataWriter.thy ===== *)
theory DataWriter
  imports DataReader
begin

text \<open>
  The writing side of the local relay (\<^verbatim>\<open>DataWriter\<close> of \<^verbatim>\<open>binlog_replicator.py\<close> and the
  functions that read the states of the database replicators): one open file per database,
  a new file after \<^verbatim>\<open>records_per_file\<close> records, and the clean-up of old files, which must
  keep every file a database replicator still needs.
\<close>

section \<open>States of the database replicators\<close>

text \<open>
  \<open>loads_state\<close> is \<^verbatim>\<open>pickle.loads\<close> on a state file: the dictionary it holds, of which the
  relay reads the entry \<^verbatim>\<open>last_processed_transaction\<close>.
\<close>

type_synonym state_loader = "byte list \<Rightarrow> (string, transaction option) dict res"

record DbReplicatorStateInfo =
  info_db_name :: string
  info_state_path :: string
  last_processed_transaction :: transaction

definition load_db_replicator_state_data ::
  "state_loader \<Rightarrow> db_dir \<Rightarrow> string \<Rightarrow> (string, transaction option) dict option" where
  "load_db_replicator_state_data loads_state d name =
     (case map_of (dir_files d) name of
        None \<Rightarrow> None
      | Some f \<Rightarrow> (case loads_state (content f) of Inl _ \<Rightarrow> None | Inr data \<Rightarrow> Some data))"

definition load_db_replicator_state_transaction :: "state_loader \<Rightarrow> db_dir \<Rightarrow> string \<Rightarrow> transaction option" where
  "load_db_replicator_state_transaction loads_state d name =
     (case load_db_replicator_state_data loads_state d name of
        None \<Rightarrow> None
      | Some data \<Rightarrow>
          if data = [] then None
          else normalize_transaction (Option.bind (map_of data ''last_processed_transaction'') id))"

definition get_db_replicator_state_infos ::
  "state_loader \<Rightarrow> data_dir \<Rightarrow> string list option \<Rightarrow> DbReplicatorStateInfo list" where
  "get_db_replicator_state_infos loads_state rel databases =
     (if \<not> dir_exists rel then []
      else List.map_filter (\<lambda>(db, d).
        if (case databases of None \<Rightarrow> False | Some allowed \<Rightarrow> db \<notin> set allowed) then None
        else if ''state.pckl'' \<notin> set (listdir d) then None
        else map_option (\<lambda>t. \<lparr>info_db_name = db, info_state_path = db @ ''/state.pckl'',
                               last_processed_transaction = t\<rparr>)
               (load_db_replicator_state_transaction loads_state d ''state.pckl'')) (dbs rel))"

definition is_state_file :: "string \<Rightarrow> bool" where
  "is_state_file name \<longleftrightarrow> name = ''state.pckl''
     \<or> startswith name ''state_worker_'' \<and> endswith name ''.pckl''"

definition get_db_replicator_state_transactions :: "state_loader \<Rightarrow> data_dir \<Rightarrow> string \<Rightarrow> transaction list" where
  "get_db_replicator_state_transactions loads_state rel db =
     (case map_of (dbs rel) db of
        None \<Rightarrow> []
      | Some d \<Rightarrow> List.map_filter (\<lambda>name.
          if is_state_file name then load_db_replicator_state_transaction loads_state d name else None)
          (listdir d))"

section \<open>DataWriter\<close>

text \<open>A file writer is kept with the number of the file it has open.\<close>

record data_writer =
  records_per_file :: int
  db_file_writers :: "(string, int \<times> file_writer) dict"

definition new_data_writer :: "int \<Rightarrow> data_dir \<Rightarrow> data_dir \<times> data_writer" where
  "new_data_writer per_file rel = (rel\<lparr>dir_exists := True\<rparr>, \<lparr>records_per_file = per_file, db_file_writers = []\<rparr>)"

definition put_file :: "string \<Rightarrow> int \<Rightarrow> rfile \<Rightarrow> data_dir \<Rightarrow> data_dir" where
  "put_file db num f rel =
     (case map_of (dbs rel) db of
        None \<Rightarrow> rel
      | Some d \<Rightarrow> rel\<lparr>dbs := AList.update db
          (d\<lparr>dir_files := AList.update (get_file_name_by_num num) f (dir_files d)\<rparr>) (dbs rel)\<rparr>)"

definition get_next_file_num :: "string \<Rightarrow> (data_dir, int) act" where
  "get_next_file_num db =
     bindA (get_existing_file_nums db) (\<lambda>nums.
       retA ((if nums = [] then 0 else Max (set nums)) + 1))"

definition create_file_writer :: "int \<Rightarrow> string \<Rightarrow> (data_dir, int \<times> file_writer) act" where
  "create_file_writer now db =
     bindA (get_next_file_num db) (\<lambda>num.
     bindA (modifyA (put_file db num \<lparr>content = [], mtime = now\<rparr>)) (\<lambda>_.
       retA (num, new_file_writer)))"

text \<open>Closing a writer leaves its bytes in the file.\<close>

definition close_file :: "int \<Rightarrow> string \<Rightarrow> int \<times> file_writer \<Rightarrow> data_dir \<Rightarrow> data_dir" where
  "close_file now db nw rel = put_file db (fst nw) \<lparr>content = disk (close_writer (snd nw)), mtime = now\<rparr> rel"

definition get_or_create_file_writer ::
  "int \<Rightarrow> string \<Rightarrow> (data_dir \<times> data_writer, int \<times> file_writer) act" where
  "get_or_create_file_writer now db = (\<lambda>(rel, dw).
     let make = (\<lambda>(rel, dw).
       case create_file_writer now db rel of
         (Inl e, rel') \<Rightarrow> (Inl e, (rel', dw))
       | (Inr nw, rel') \<Rightarrow> (Inr nw, (rel', dw\<lparr>db_file_writers := AList.update db nw (db_file_writers dw)\<rparr>)))
     in case map_of (db_file_writers dw) db of
          None \<Rightarrow> make (rel, dw)
        | Some nw \<Rightarrow>
            if records_per_file dw \<le> int (num_records (snd nw))
            then make (close_file now db nw rel, dw\<lparr>db_file_writers := AList.delete db (db_file_writers dw)\<rparr>)
            else (Inr nw, (rel, dw)))"

definition store_event :: "(log_event \<Rightarrow> byte list) \<Rightarrow> int \<Rightarrow> log_event \<Rightarrow> (data_dir \<times> data_writer, unit) act" where
  "store_event dumps now ev =
     bindA (get_or_create_file_writer now (db_name ev)) (\<lambda>(num, w) (rel, dw).
       case write_event dumps now ev w of
         Inl e \<Rightarrow> (Inl e, (rel, dw))
       | Inr w' \<Rightarrow> (Inr (), (put_file (db_name ev) num \<lparr>content = disk w', mtime = now\<rparr> rel,
           dw\<lparr>db_file_writers := AList.update (db_name ev) (num, w') (db_file_writers dw)\<rparr>)))"

definition close_all :: "int \<Rightarrow> data_dir \<times> data_writer \<Rightarrow> data_dir \<times> data_writer" where
  "close_all now = (\<lambda>(rel, dw). (foldl (\<lambda>r (db, nw). close_file now db nw r) rel (db_file_writers dw),
     dw\<lparr>db_file_writers := map (\<lambda>(db, n, w). (db, n, close_writer w)) (db_file_writers dw)\<rparr>))"

section \<open>Clean-up\<close>

definition get_oldest_protected_file_num ::
  "(byte list \<Rightarrow> log_event res) \<Rightarrow> state_loader \<Rightarrow> data_dir \<Rightarrow> string \<Rightarrow> int list \<Rightarrow> (int option \<times> bool) res" where
  "get_oldest_protected_file_num loads loads_state rel db nums =
     (let protected_transactions = get_db_replicator_state_transactions loads_state rel db
      in if protected_transactions = [] then Inr (None, True)
         else case mapE (\<lambda>t. get_file_with_transaction loads rel db nums t) protected_transactions of
                Inl TransactionNotFound \<Rightarrow> Inr (None, False)
              | Inl e \<Rightarrow> Inl e
              | Inr protected \<Rightarrow> Inr (Some (Min (set protected)), True))"

definition PRESERVE_FILES_COUNT :: nat where
  "PRESERVE_FILES_COUNT = 5"

definition file_nums_to_check :: "int list \<Rightarrow> int option \<Rightarrow> int list" where
  "file_nums_to_check nums protected =
     (let candidates = (if length nums \<le> PRESERVE_FILES_COUNT + 1 then []
                        else take (length nums - (PRESERVE_FILES_COUNT + 1)) nums)
      in case protected of None \<Rightarrow> candidates | Some p \<Rightarrow> filter (\<lambda>n. n < p) candidates)"

definition remove_file :: "string \<Rightarrow> int \<Rightarrow> data_dir \<Rightarrow> data_dir" where
  "remove_file db num rel =
     (case map_of (dbs rel) db of
        None \<Rightarrow> rel
      | Some d \<Rightarrow> rel\<lparr>dbs := AList.update db
          (d\<lparr>dir_files := AList.delete (get_file_name_by_num num) (dir_files d)\<rparr>) (dbs rel)\<rparr>)"

definition remove_if_old :: "int \<Rightarrow> string \<Rightarrow> int \<Rightarrow> (data_dir, unit) act" where
  "remove_if_old ts_from db num rel =
     (case lookup_file rel db num of
        None \<Rightarrow> (Inl FileNotFoundError, rel)
      | Some f \<Rightarrow> (Inr (), if mtime f \<le> ts_from then remove_file db num rel else rel))"

text \<open>The body of the loop over the databases, and the loop.\<close>

definition clean_db :: "(byte list \<Rightarrow> log_event res) \<Rightarrow> state_loader \<Rightarrow> int \<Rightarrow> string \<Rightarrow> (data_dir, unit) act" where
  "clean_db loads loads_state ts_from db =
     bindA (get_existing_file_nums db) (\<lambda>nums.
     bindA (liftA (\<lambda>rel. get_oldest_protected_file_num loads loads_state rel db nums)) (\<lambda>(protected, can_cleanup).
       if \<not> can_cleanup then retA ()
       else mapA (remove_if_old ts_from db) (file_nums_to_check nums protected)))"

definition remove_old_files :: "(byte list \<Rightarrow> log_event res) \<Rightarrow> state_loader \<Rightarrow> int \<Rightarrow> (data_dir, unit) act" where
  "remove_old_files loads loads_state ts_from rel =
     mapA (clean_db loads loads_state ts_from) (map fst (dbs rel)) rel"

section \<open>What clean-up may remove\<close>

lemma lookup_file_remove:
  "lookup_file (remove_file db n rel) db' m = (if db' = db \<and> m = n then None else lookup_file rel db' m)"
  by (auto simp: lookup_file_def remove_file_def split: option.splits)

lemma map_of_remove_file_other [simp]:
  "db' \<noteq> db \<Longrightarrow> map_of (dbs (remove_file db n rel)) db' = map_of (dbs rel) db'"
  by (auto simp: remove_file_def split: option.splits)

lemma remove_if_old_state:
  "snd (remove_if_old ts db n rel) = (case lookup_file rel db n of
      None \<Rightarrow> rel | Some f \<Rightarrow> if mtime f \<le> ts then remove_file db n rel else rel)"
  by (simp add: remove_if_old_def split: option.split)

text \<open>The search and the protected transactions depend on the directory of the database only.\<close>

lemma same_dir_lookup:
  "map_of (dbs rel) db = map_of (dbs rel') db \<Longrightarrow> lookup_file rel db n = lookup_file rel' db n"
  by (simp add: lookup_file_def)

lemma same_dir_open:
  "map_of (dbs rel) db = map_of (dbs rel') db \<Longrightarrow> open_reader rel db n = open_reader rel' db n"
  by (simp add: open_reader_def lookup_file_def)

lemma same_dir_find_matching:
  "map_of (dbs rel) db = map_of (dbs rel') db \<Longrightarrow>
     find_matching loads rel db tx prev nums = find_matching loads rel' db tx prev nums"
proof (induction nums arbitrary: prev)
  case (Cons n nums)
  have "get_first_transaction_in_file loads rel db n = get_first_transaction_in_file loads rel' db n"
    by (simp only: get_first_transaction_in_file_def same_dir_open [OF Cons.prems])
  with Cons show ?case by (simp cong: if_cong)
qed simp

lemma same_dir_find_in_window:
  "map_of (dbs rel) db = map_of (dbs rel') db \<Longrightarrow>
     find_in_window loads rel db tx nums = find_in_window loads rel' db tx nums"
proof (induction nums)
  case (Cons n nums)
  have "file_has_transaction loads rel db n tx = file_has_transaction loads rel' db n tx"
    by (simp only: file_has_transaction_def same_dir_open [OF Cons.prems])
  with Cons show ?case by (simp cong: if_cong)
qed simp

lemma same_dir_get_file:
  "map_of (dbs rel) db = map_of (dbs rel') db \<Longrightarrow>
     get_file_with_transaction loads rel db nums tx = get_file_with_transaction loads rel' db nums tx"
  unfolding get_file_with_transaction_def
  using same_dir_find_matching [of rel db rel' loads tx None nums] same_dir_find_in_window [of rel db rel' loads tx]
  by (simp only: Let_def)

lemma same_dir_protected:
  "map_of (dbs rel) db = map_of (dbs rel') db \<Longrightarrow>
     get_db_replicator_state_transactions loads_state rel db = get_db_replicator_state_transactions loads_state rel' db"
  by (simp add: get_db_replicator_state_transactions_def)

text \<open>
  \<open>removable\<close>: what the clean-up requires of a file of \<open>db\<close> before it removes it.
\<close>

definition removable :: "(byte list \<Rightarrow> log_event res) \<Rightarrow> state_loader \<Rightarrow> int \<Rightarrow> data_dir \<Rightarrow> string \<Rightarrow> int \<Rightarrow> rfile \<Rightarrow> bool" where
  "removable loads loads_state ts rel db n f \<longleftrightarrow> mtime f \<le> ts
     \<and> (\<exists>nums. fst (get_existing_file_nums db rel) = Inr nums \<and> n \<in> set (take (length nums - 6) nums)
       \<and> (\<forall>t \<in> set (get_db_replicator_state_transactions loads_state rel db).
            \<exists>m. get_file_with_transaction loads rel db nums t = Inr m \<and> n < m))"

lemma removable_same_dir:
  assumes "map_of (dbs rel) db = Some d" and "map_of (dbs rel') db = Some d"
  shows "removable loads loads_state ts rel db n f = removable loads loads_state ts rel' db n f"
proof -
  have eq: "map_of (dbs rel) db = map_of (dbs rel') db" using assms by simp
  have "fst (get_existing_file_nums db rel) = fst (get_existing_file_nums db rel')"
    using assms by (simp add: get_existing_file_nums_def Let_def)
  then show ?thesis
    by (simp only: removable_def same_dir_get_file [OF eq] same_dir_protected [OF eq])
qed

lemma file_nums_to_check_candidates:
  "n \<in> set (file_nums_to_check nums protected) \<Longrightarrow>
     n \<in> set (take (length nums - 6) nums) \<and> (\<forall>p. protected = Some p \<longrightarrow> n < p)"
  by (auto simp: file_nums_to_check_def PRESERVE_FILES_COUNT_def Let_def split: option.splits if_splits)

lemma protected_above:
  assumes "get_oldest_protected_file_num loads loads_state rel db nums = Inr (protected, True)"
    and "\<And>p. protected = Some p \<Longrightarrow> n < p"
    and "t \<in> set (get_db_replicator_state_transactions loads_state rel db)"
  shows "\<exists>m. get_file_with_transaction loads rel db nums t = Inr m \<and> n < m"
proof -
  let ?ts = "get_db_replicator_state_transactions loads_state rel db"
  have "?ts \<noteq> []" using assms(3) by auto
  then obtain ms where ms: "mapE (\<lambda>t. get_file_with_transaction loads rel db nums t) ?ts = Inr ms"
    and p: "protected = Some (Min (set ms))"
    using assms(1) by (auto simp: get_oldest_protected_file_num_def Let_def split: sum.splits py_error.splits)
  obtain i where i: "i < length ?ts" "?ts ! i = t"
    using assms(3) by (auto simp: in_set_conv_nth)
  then have "get_file_with_transaction loads rel db nums t = Inr (ms ! i)"
    using mapE_Inr_nth [OF ms i(1)] by simp
  moreover have "Min (set ms) \<le> ms ! i"
    using i mapE_Inr_length [OF ms] by simp
  ultimately show ?thesis
    using assms(2) [OF p] by auto
qed

lemma remove_loop:
  assumes "lookup_file rel db n = Some f"
  shows "lookup_file (snd (mapA (remove_if_old ts db) ns rel)) db n = Some f
    \<or> n \<in> set ns \<and> mtime f \<le> ts"
proof -
  let ?P = "\<lambda>r. lookup_file r db n = Some f \<or> n \<in> set ns \<and> mtime f \<le> ts"
  have "?P (snd (mapA (remove_if_old ts db) ns rel))"
    by (rule mapA_invariant)
      (auto simp: assms remove_if_old_state lookup_file_remove split: option.splits if_splits)
  then show ?thesis .
qed

lemma remove_loop_other:
  "db' \<noteq> db \<Longrightarrow> map_of (dbs (snd (mapA (remove_if_old ts db) ns rel))) db' = map_of (dbs rel) db'"
  by (rule mapA_invariant [where P = "\<lambda>r. map_of (dbs r) db' = map_of (dbs rel) db'"])
    (auto simp: remove_if_old_state split: option.split)

lemma get_existing_file_nums_state:
  "map_of (dbs rel) db = Some d \<Longrightarrow> snd (get_existing_file_nums db rel) = rel"
  "db' \<noteq> db \<Longrightarrow> map_of (dbs (snd (get_existing_file_nums db rel))) db' = map_of (dbs rel) db'"
  by (auto simp: get_existing_file_nums_def Let_def split: option.splits)

lemma clean_db_other:
  assumes "db' \<noteq> db"
  shows "map_of (dbs (snd (clean_db loads loads_state ts db rel))) db' = map_of (dbs rel) db'"
proof -
  obtain out rel1 where g: "get_existing_file_nums db rel = (out, rel1)" by fastforce
  then have "map_of (dbs rel1) db' = map_of (dbs rel) db'"
    using get_existing_file_nums_state(2) [OF assms, of rel] by simp
  with g show ?thesis
    by (auto simp: clean_db_def bindA_def liftA_def retA_def remove_loop_other [OF assms] split: sum.split)
qed

lemma clean_db_own:
  assumes "map_of (dbs rel) db = Some d" and "lookup_file rel db n = Some f"
  shows "lookup_file (snd (clean_db loads loads_state ts db rel)) db n = Some f
    \<or> removable loads loads_state ts rel db n f"
proof -
  obtain out where g: "get_existing_file_nums db rel = (out, rel)"
    using get_existing_file_nums_state(1) [OF assms(1)] by (metis prod.collapse)
  show ?thesis
  proof (cases out)
    case (Inl e)
    with g assms(2) show ?thesis by (simp add: clean_db_def bindA_def)
  next
    case (Inr nums)
    show ?thesis
    proof (cases "get_oldest_protected_file_num loads loads_state rel db nums")
      case (Inl e)
      with g Inr assms(2) show ?thesis by (simp add: clean_db_def bindA_def liftA_def)
    next
      case prot: (Inr pc)
      obtain p c where pc: "pc = (p, c)" by fastforce
      show ?thesis
      proof (cases c)
        case False
        with g Inr prot pc assms(2) show ?thesis by (simp add: clean_db_def bindA_def liftA_def retA_def)
      next
        case True
        then have st: "snd (clean_db loads loads_state ts db rel)
            = snd (mapA (remove_if_old ts db) (file_nums_to_check nums p) rel)"
          using g Inr prot pc by (simp add: clean_db_def bindA_def liftA_def)
        have "removable loads loads_state ts rel db n f"
          if "n \<in> set (file_nums_to_check nums p)" "mtime f \<le> ts"
          using file_nums_to_check_candidates [OF that(1)] that(2) g Inr
            protected_above [of loads loads_state rel db nums p n] prot pc True by (auto simp: removable_def)
        with st remove_loop [OF assms(2), of ts "file_nums_to_check nums p"] show ?thesis by auto
      qed
    qed
  qed
qed

lemma clean_loop:
  assumes "distinct names" and "map_of (dbs rel) db = Some d" and "lookup_file rel db n = Some f"
  shows "lookup_file (snd (mapA (clean_db loads loads_state ts) names rel)) db n = Some f
    \<or> removable loads loads_state ts rel db n f"
  using assms
proof (induction names arbitrary: rel)
  case (Cons name names)
  obtain out rel1 where c: "clean_db loads loads_state ts name rel = (out, rel1)" by fastforce
  have rest: "snd (mapA (clean_db loads loads_state ts) (name # names) rel)
      = (case out of Inl e \<Rightarrow> rel1 | Inr _ \<Rightarrow> snd (mapA (clean_db loads loads_state ts) names rel1))"
    using c by (auto simp: bindA_def split: sum.split)
  show ?case
  proof (cases "name = db")
    case True
    then have "db \<notin> set names" using Cons.prems(1) by simp
    then have "map_of (dbs (snd (mapA (clean_db loads loads_state ts) names rel1))) db = map_of (dbs rel1) db"
      by (intro mapA_invariant [where P = "\<lambda>r. map_of (dbs r) db = map_of (dbs rel1) db"])
        (use clean_db_other in metis)+
    then have "lookup_file (snd (mapA (clean_db loads loads_state ts) (name # names) rel)) db n = lookup_file rel1 db n"
      unfolding rest by (auto intro: same_dir_lookup split: sum.split)
    with clean_db_own [OF Cons.prems(2,3), of loads loads_state ts] c True show ?thesis by simp
  next
    case False
    then have d: "map_of (dbs rel1) db = Some d"
      using clean_db_other [of db name loads loads_state ts rel] c Cons.prems(2) by simp
    then have l: "lookup_file rel1 db n = Some f"
      using same_dir_lookup [of rel1 db rel n] Cons.prems(2,3) by simp
    from Cons.IH [OF _ d l] Cons.prems(1) removable_same_dir [OF Cons.prems(2) d] l show ?thesis
      unfolding rest by (auto split: sum.split)
  qed
qed (simp add: retA_def)

section \<open>Storing an event appends it\<close>

lemma lookup_file_put:
  "lookup_file (put_file db n f rel) db' m =
     (if db' = db \<and> m = n \<and> map_of (dbs rel) db \<noteq> None then Some f else lookup_file rel db' m)"
  by (auto simp: lookup_file_def put_file_def split: option.splits)

lemma map_of_put_file_other [simp]:
  "db' \<noteq> db \<Longrightarrow> map_of (dbs (put_file db n f rel)) db' = map_of (dbs rel) db'"
  by (auto simp: put_file_def split: option.splits)

lemma bin_name_num: "py_int (hd (split_char CHR ''.'' (get_file_name_by_num n))) = Inr n"
  using split_char_append [OF str_int_no_dot, of n "''bin''"] by (simp add: get_file_name_by_num_def)

lemma bin_name_bin: "endswith (get_file_name_by_num n) ''.bin''"
  by (auto simp: endswith_iff get_file_name_by_num_def)

lemma existing_nums_put:
  assumes d: "map_of (dbs rel) db = Some d" and nums: "fst (get_existing_file_nums db rel) = Inr nums"
  shows "get_existing_file_nums db (put_file db n f rel)
     = (Inr (if lookup_file rel db n = None then insort n nums else nums), put_file db n f rel)"
proof -
  let ?name = "get_file_name_by_num n" and ?bin = "\<lambda>f. endswith f ''.bin''"
    and ?num = "\<lambda>f. py_int (hd (split_char CHR ''.'' f))"
  let ?d' = "d\<lparr>dir_files := AList.update ?name f (dir_files d)\<rparr>"
  have d': "map_of (dbs (put_file db n f rel)) db = Some ?d'"
    using d by (simp add: put_file_def)
  obtain us vs where uv: "mapE ?num (filter ?bin (map fst (dir_files d))) = Inr us"
    "mapE ?num (filter ?bin (map fst (dir_subdirs d))) = Inr vs" "nums = sort (us @ vs)"
    using d nums by (auto simp: get_existing_file_nums_def listdir_def Let_def mapE_append res_simps)
  have keys: "map fst (AList.update ?name f (dir_files d))
      = (if lookup_file rel db n = None then map fst (dir_files d) @ [?name] else map fst (dir_files d))"
    using d by (auto simp: update_keys lookup_file_def map_of_eq_None_iff image_iff split: option.splits)
  have ins: "sort (us @ n # vs) = insort n (sort (us @ vs))"
    by (induction us) (simp_all add: insort_left_comm)
  show ?thesis
    using d' uv ins
    by (simp add: get_existing_file_nums_def listdir_def Let_def keys mapE_append bin_name_num bin_name_bin)
qed

lemma insort_last: "sorted nums \<Longrightarrow> (\<And>m. m \<in> set nums \<Longrightarrow> m < n) \<Longrightarrow> insort n nums = nums @ [n :: int]"
  by (induction nums) force+

text \<open>
  \<open>writer_at\<close>: the writer of \<open>db\<close>, if there is one, has the last file open and has flushed it.
\<close>

definition writer_at :: "(log_event \<Rightarrow> byte list) \<Rightarrow> data_writer \<Rightarrow> string \<Rightarrow> (int \<times> log_event list) list \<Rightarrow> bool" where
  "writer_at dumps dw db fs \<longleftrightarrow> (\<forall>n w. map_of (db_file_writers dw) db = Some (n, w) \<longrightarrow>
     (\<exists>fs' es. fs = fs' @ [(n, es)] \<and> disk w = frames dumps es \<and> unflushed w = [] \<and> last_flush_time w = 0))"

text \<open>
  \<open>relay_log dumps (rel, dw) db evs\<close>: the abstract state of the relay of one database, the
  sequence of the events stored in it.
\<close>

definition ensure_dir :: "string \<Rightarrow> data_dir \<Rightarrow> data_dir" where
  "ensure_dir db rel = snd (get_existing_file_nums db rel)"

definition relay_log :: "(log_event \<Rightarrow> byte list) \<Rightarrow> data_dir \<times> data_writer \<Rightarrow> string \<Rightarrow> log_event list \<Rightarrow> bool" where
  "relay_log dumps s db evs \<longleftrightarrow> (\<exists>fs. relay_holds dumps (ensure_dir db (fst s)) db fs
     \<and> writer_at dumps (snd s) db fs \<and> evs = concat (map snd fs))"

lemma relay_holds_dir:
  assumes "relay_holds dumps rel db fs" obtains d where "map_of (dbs rel) db = Some d"
proof (cases "map_of (dbs rel) db")
  case None
  then have "dbs (snd (get_existing_file_nums db rel)) \<noteq> dbs rel \<or> fst (get_existing_file_nums db rel) = Inl FileNotFoundError"
    by (auto simp: get_existing_file_nums_def dest!: arg_cong [where f = "\<lambda>x. map_of x db"])
  with assms show ?thesis by (auto simp: relay_holds_def)
qed

lemma relay_holds_ensure: "relay_holds dumps rel db fs \<Longrightarrow> ensure_dir db rel = rel"
  by (simp add: relay_holds_def ensure_dir_def)

text \<open>A file that grows, and a new file with a higher number.\<close>

lemma relay_holds_put:
  assumes d: "map_of (dbs rel) db = Some d" and nums: "fst (get_existing_file_nums db rel) = Inr nums"
    and n: "(if lookup_file rel db n = None then insort n nums else nums) = map fst fs @ [n]"
    and s: "sorted_wrt (<) (map fst fs)" "\<And>m. m \<in> fst ` set fs \<Longrightarrow> m < n"
    and files: "\<And>m es. (m, es) \<in> set fs \<Longrightarrow> map_option content (lookup_file rel db m) = Some (frames dumps es)"
    and all: "\<And>m. lookup_file rel db m \<noteq> None \<Longrightarrow> m = n \<or> m \<in> fst ` set fs"
  shows "relay_holds dumps (put_file db n \<lparr>content = frames dumps es, mtime = t\<rparr> rel) db (fs @ [(n, es)])"
  unfolding relay_holds_def
proof (intro conjI)
  show "sorted_wrt (<) (map fst (fs @ [(n, es)]))"
    using s by (auto simp: sorted_wrt_append)
  show "get_existing_file_nums db (put_file db n \<lparr>content = frames dumps es, mtime = t\<rparr> rel)
      = (Inr (map fst (fs @ [(n, es)])), put_file db n \<lparr>content = frames dumps es, mtime = t\<rparr> rel)"
    using existing_nums_put [OF d nums] n by simp
  have "m \<noteq> n" if "(m, es') \<in> set fs" for m es'
    using s(2) [of m] that by force
  then have "map_option content (lookup_file (put_file db n \<lparr>content = frames dumps es, mtime = t\<rparr> rel) db m)
      = Some (frames dumps es')" if "(m, es') \<in> set (fs @ [(n, es)])" for m es'
    using that files [of m es'] d by (cases "(m, es') \<in> set fs") (simp_all add: lookup_file_put)
  then show "\<forall>(m, es') \<in> set (fs @ [(n, es)]). map_option content
      (lookup_file (put_file db n \<lparr>content = frames dumps es, mtime = t\<rparr> rel) db m) = Some (frames dumps es')"
    by blast
  show "\<forall>m. lookup_file (put_file db n \<lparr>content = frames dumps es, mtime = t\<rparr> rel) db m \<noteq> None
      \<longrightarrow> m \<in> fst ` set (fs @ [(n, es)])"
    using all by (auto simp: lookup_file_put simp del: not_None_eq split: if_splits)
qed

lemma relay_holds_put_last:
  assumes "relay_holds dumps rel db (fs @ [(n, es)])"
  shows "relay_holds dumps (put_file db n \<lparr>content = frames dumps es', mtime = t\<rparr> rel) db (fs @ [(n, es')])"
proof -
  obtain d where d: "map_of (dbs rel) db = Some d" using relay_holds_dir [OF assms] .
  have "lookup_file rel db n \<noteq> None" "fst (get_existing_file_nums db rel) = Inr (map fst fs @ [n])"
    using assms by (auto simp: relay_holds_def)
  then show ?thesis
    using assms by (intro relay_holds_put [OF d]) (auto simp: relay_holds_def sorted_wrt_append)
qed

lemma relay_holds_put_new:
  assumes "relay_holds dumps rel db fs" and "\<And>m. m \<in> fst ` set fs \<Longrightarrow> m < n"
  shows "relay_holds dumps (put_file db n \<lparr>content = frames dumps es, mtime = t\<rparr> rel) db (fs @ [(n, es)])"
proof -
  obtain d where d: "map_of (dbs rel) db = Some d" using relay_holds_dir [OF assms(1)] .
  have n: "lookup_file rel db n = None" "fst (get_existing_file_nums db rel) = Inr (map fst fs)"
    using assms by (force simp: relay_holds_def)+
  have "sorted (map fst fs)"
    using assms(1) by (auto simp: relay_holds_def strict_sorted_iff)
  then have "insort n (map fst fs) = map fst fs @ [n]"
    using assms(2) by (intro insort_last) auto
  with n show ?thesis
    using assms by (intro relay_holds_put [OF d n(2)]) (auto simp: relay_holds_def)
qed

text \<open>Creating the next file.\<close>

lemma create_file_writer_holds:
  assumes "relay_holds dumps (ensure_dir db rel) db fs"
  shows "\<exists>n rel'. create_file_writer now db rel = (Inr (n, new_file_writer), rel')
     \<and> relay_holds dumps rel' db (fs @ [(n, [])])"
proof -
  let ?n = "(if map fst fs = [] then 0 else Max (set (map fst fs))) + 1"
  obtain out where g: "get_existing_file_nums db rel = (out, ensure_dir db rel)"
    by (metis ensure_dir_def prod.collapse)
  have "get_existing_file_nums db (ensure_dir db rel) = (Inr (map fst fs), ensure_dir db rel)"
    using assms by (simp add: relay_holds_def)
  then have out: "out = Inr (map fst fs)"
    using g by (auto simp: ensure_dir_def get_existing_file_nums_def Let_def empty_dir_def listdir_def split: option.splits if_splits)
  have "m < ?n" if "m \<in> fst ` set fs" for m
    using that Max_ge [of "fst ` set fs" m] by auto
  then have "relay_holds dumps (put_file db ?n \<lparr>content = [], mtime = now\<rparr> (ensure_dir db rel)) db (fs @ [(?n, [])])"
    using relay_holds_put_new [OF assms, of ?n "[]" now] by simp
  then show ?thesis
    using g out by (simp add: create_file_writer_def get_next_file_num_def bindA_def retA_def modifyA_def)
qed

lemma write_event_first:
  assumes "length (dumps ev) < 2 ^ 32" and "last_flush_time w = 0" and "unflushed w = []" and "1 < now"
  shows "\<exists>w'. write_event dumps now ev w = Inr w' \<and> disk w' = disk w @ frame dumps ev
     \<and> unflushed w' = [] \<and> last_flush_time w' = 0"
proof -
  obtain w' where w': "write_event dumps now ev w = Inr w'"
    using write_event_Inr_iff [of dumps now ev w] assms(1) by blast
  with write_event_content [OF w'] write_event_flushes [OF w' assms(2,4)] assms(2,3) show ?thesis by auto
qed

text \<open>The last step of \<^verbatim>\<open>store_event\<close>, with the open writer of the last file.\<close>

lemma store_into_last:
  assumes holds: "relay_holds dumps rel db (fs @ [(n, es)])" and w: "disk w = frames dumps es" "unflushed w = []" "last_flush_time w = 0"
    and ev: "length (dumps ev) < 2 ^ 32" "1 < now"
  shows "\<exists>w'. write_event dumps now ev w = Inr w'
     \<and> relay_log dumps (put_file db n \<lparr>content = disk w', mtime = now\<rparr> rel,
         dw\<lparr>db_file_writers := AList.update db (n, w') (db_file_writers dw)\<rparr>) db (concat (map snd (fs @ [(n, es)])) @ [ev])"
proof -
  obtain w' where w': "write_event dumps now ev w = Inr w'" "disk w' = disk w @ frame dumps ev"
    "unflushed w' = []" "last_flush_time w' = 0"
    using write_event_first [of dumps ev w now] ev w by blast
  have "disk w' = frames dumps (es @ [ev])" using w' w by simp
  then have r: "relay_holds dumps (put_file db n \<lparr>content = disk w', mtime = now\<rparr> rel) db (fs @ [(n, es @ [ev])])"
    using relay_holds_put_last [OF holds, of "es @ [ev]" now] by simp
  then have "relay_log dumps (put_file db n \<lparr>content = disk w', mtime = now\<rparr> rel,
         dw\<lparr>db_file_writers := AList.update db (n, w') (db_file_writers dw)\<rparr>) db (concat (map snd (fs @ [(n, es)])) @ [ev])"
    unfolding relay_log_def using w' w
    by (intro exI [of _ "fs @ [(n, es @ [ev])]"]) (auto simp: writer_at_def relay_holds_ensure)
  with w'(1) show ?thesis by blast
qed

lemma close_file_holds:
  assumes "relay_holds dumps rel db fs" and "writer_at dumps dw db fs" and "map_of (db_file_writers dw) db = Some nw"
  shows "relay_holds dumps (close_file now db nw rel) db fs"
proof -
  obtain n w where nw: "nw = (n, w)" by fastforce
  then obtain fs' es where fs: "fs = fs' @ [(n, es)]" "disk w = frames dumps es" "unflushed w = []"
    using assms(2,3) by (auto simp: writer_at_def)
  then show ?thesis
    using relay_holds_put_last [of dumps rel db fs' n es es now] assms(1) nw
    by (simp add: close_file_def close_writer_def flush_def)
qed

lemma map_of_close_file_other [simp]: "db' \<noteq> db \<Longrightarrow> map_of (dbs (close_file now db nw rel)) db' = map_of (dbs rel) db'"
  by (simp add: close_file_def)

lemma create_file_writer_other:
  "db' \<noteq> db \<Longrightarrow> map_of (dbs (snd (create_file_writer now db rel))) db' = map_of (dbs rel) db'"
  using get_existing_file_nums_state(2) [of db' db rel]
  by (auto simp: create_file_writer_def get_next_file_num_def bindA_def retA_def modifyA_def split: prod.splits sum.splits)

text \<open>The writer that \<^verbatim>\<open>get_or_create_file_writer\<close> gives has the last file open.\<close>

lemma get_or_create_file_writer_holds:
  assumes log: "relay_log dumps (rel, dw) db evs"
  shows "\<exists>n w rel' dw' fs es. get_or_create_file_writer now db (rel, dw) = (Inr (n, w), (rel', dw'))
     \<and> relay_holds dumps rel' db (fs @ [(n, es)]) \<and> concat (map snd (fs @ [(n, es)])) = evs
     \<and> disk w = frames dumps es \<and> unflushed w = [] \<and> last_flush_time w = 0"
proof -
  obtain fs where fs: "relay_holds dumps (ensure_dir db rel) db fs" "writer_at dumps dw db fs" "evs = concat (map snd fs)"
    using log by (auto simp: relay_log_def)
  have fresh: "\<exists>n rel'. create_file_writer now db r = (Inr (n, new_file_writer), rel')
      \<and> relay_holds dumps rel' db (fs @ [(n, [])]) \<and> concat (map snd (fs @ [(n, [])])) = evs"
    if "relay_holds dumps (ensure_dir db r) db fs" for r
    using create_file_writer_holds [OF that, of now] fs(3) by auto
  show ?thesis
  proof (cases "map_of (db_file_writers dw) db")
    case None
    from fresh [OF fs(1)] None show ?thesis
      by (fastforce simp: get_or_create_file_writer_def new_file_writer_def)
  next
    case (Some nw)
    obtain n w where nw: "nw = (n, w)" by fastforce
    with Some fs(2) obtain fs' es where last: "fs = fs' @ [(n, es)]" "disk w = frames dumps es" "unflushed w = []" "last_flush_time w = 0"
      by (auto simp: writer_at_def)
    have ens: "ensure_dir db rel = rel"
    proof (cases "map_of (dbs rel) db")
      case None
      with fs(1) last(1) have "fst (get_existing_file_nums db (ensure_dir db rel)) \<noteq> Inr []"
        by (simp add: relay_holds_def)
      with None show ?thesis
        by (auto simp: ensure_dir_def get_existing_file_nums_def empty_dir_def listdir_def split: if_splits)
    qed (simp add: ensure_dir_def get_existing_file_nums_state(1))
    show ?thesis
    proof (cases "records_per_file dw \<le> int (num_records w)")
      case True
      have c: "relay_holds dumps (close_file now db nw rel) db fs"
        using close_file_holds [OF _ fs(2) Some] fs(1) ens by simp
      from fresh [of "close_file now db nw rel"] c Some nw True show ?thesis
        by (fastforce simp: get_or_create_file_writer_def new_file_writer_def relay_holds_ensure)
    next
      case False
      with Some nw last fs ens show ?thesis
        by (fastforce simp: get_or_create_file_writer_def)
    qed
  qed
qed

lemma get_or_create_file_writer_other:
  assumes "get_or_create_file_writer now db (rel, dw) = (out, (rel', dw'))" and "db' \<noteq> db"
  shows "map_of (dbs rel') db' = map_of (dbs rel) db'"
    and "map_of (db_file_writers dw') db' = map_of (db_file_writers dw) db'"
  using assms create_file_writer_other [OF assms(2), of now rel]
    create_file_writer_other [OF assms(2), of now "close_file now db (the (map_of (db_file_writers dw) db)) rel"]
  by (auto simp: get_or_create_file_writer_def Let_def split: option.splits if_splits prod.splits sum.splits)

lemma store_event_log:
  assumes "relay_log dumps (rel, dw) (db_name ev) evs" and "length (dumps ev) < 2 ^ 32" and "1 < now"
  shows "\<exists>rel' dw'. store_event dumps now ev (rel, dw) = (Inr (), (rel', dw'))
     \<and> relay_log dumps (rel', dw') (db_name ev) (evs @ [ev])
     \<and> (\<forall>db. db \<noteq> db_name ev \<longrightarrow> map_of (dbs rel') db = map_of (dbs rel) db
            \<and> map_of (db_file_writers dw') db = map_of (db_file_writers dw) db)"
proof -
  let ?db = "db_name ev"
  obtain n w rel1 dw1 fs es where g: "get_or_create_file_writer now ?db (rel, dw) = (Inr (n, w), (rel1, dw1))"
    "relay_holds dumps rel1 ?db (fs @ [(n, es)])" "concat (map snd (fs @ [(n, es)])) = evs"
    "disk w = frames dumps es" "unflushed w = []" "last_flush_time w = 0"
    using get_or_create_file_writer_holds [OF assms(1), of now] by blast
  obtain w' where w': "write_event dumps now ev w = Inr w'"
    "relay_log dumps (put_file ?db n \<lparr>content = disk w', mtime = now\<rparr> rel1,
         dw1\<lparr>db_file_writers := AList.update ?db (n, w') (db_file_writers dw1)\<rparr>) ?db (evs @ [ev])"
    using store_into_last [of dumps rel1 ?db fs n es w ev now dw1] g assms(2,3) by auto
  have "store_event dumps now ev (rel, dw) = (Inr (), (put_file ?db n \<lparr>content = disk w', mtime = now\<rparr> rel1,
         dw1\<lparr>db_file_writers := AList.update ?db (n, w') (db_file_writers dw1)\<rparr>))"
    using g(1) w'(1) by (simp add: store_event_def bindA_def)
  with w'(2) get_or_create_file_writer_other [OF g(1)] show ?thesis by auto
qed

text \<open>What no method of the writer touches.\<close>

lemma put_file_other [simp]:
  "state_json (put_file db n f rel) = state_json rel" "dir_exists (put_file db n f rel) = dir_exists rel"
  by (simp_all add: put_file_def split: option.split)

lemma get_existing_file_nums_other [simp]:
  "state_json (snd (get_existing_file_nums db rel)) = state_json rel"
  "dir_exists (snd (get_existing_file_nums db rel)) = dir_exists rel"
  by (simp_all add: get_existing_file_nums_def Let_def split: option.split)

lemma create_file_writer_keeps:
  "state_json (snd (create_file_writer now db rel)) = state_json rel \<and> dir_exists (snd (create_file_writer now db rel)) = dir_exists rel"
proof -
  obtain out rel1 where g: "get_existing_file_nums db rel = (out, rel1)" by fastforce
  with get_existing_file_nums_other [of db rel] show ?thesis
    by (auto simp: create_file_writer_def get_next_file_num_def bindA_def retA_def modifyA_def split: sum.split)
qed

lemma store_event_keeps:
  assumes "store_event dumps now ev (rel, dw) = (out, (rel', dw'))"
  shows "state_json rel' = state_json rel" "dir_exists rel' = dir_exists rel"
proof -
  obtain out1 rel1 dw1 where g: "get_or_create_file_writer now (db_name ev) (rel, dw) = (out1, (rel1, dw1))"
    by (metis prod.collapse)
  have "state_json rel1 = state_json rel \<and> dir_exists rel1 = dir_exists rel"
    using g create_file_writer_keeps [of now "db_name ev" rel]
      create_file_writer_keeps [of now "db_name ev" "close_file now (db_name ev) (the (map_of (db_file_writers dw) (db_name ev))) rel"]
    by (auto simp: get_or_create_file_writer_def Let_def close_file_def split: option.splits if_splits prod.splits sum.splits)
  with assms g show "state_json rel' = state_json rel" "dir_exists rel' = dir_exists rel"
    by (auto simp: store_event_def bindA_def split: sum.splits prod.splits)
qed

lemma store_event_size:
  assumes "store_event dumps now ev (rel, dw) = (Inr (), s')"
  shows "length (dumps ev) < 2 ^ 32"
  using assms write_event_Inr_iff [of dumps now ev]
  by (auto simp: store_event_def bindA_def split: sum.splits prod.splits)

text \<open>C12. The relay is an append-only log per database. Whatever files its events are spread over,
  \<^verbatim>\<open>store_event\<close> of an event that can be framed succeeds and the events of its database are
  then the old ones followed by the new one: closing a full file and opening the next, the
  first file of a new database and the flush leave no gap and lose nothing. Directories and
  writers of the other databases are untouched.\<close>

theorem store_event_appends:
  assumes "relay_log dumps (rel, dw) (db_name ev) evs" and "length (dumps ev) < 2 ^ 32" and "1 < now"
  shows "\<exists>rel' dw'. store_event dumps now ev (rel, dw) = (Inr (), (rel', dw'))
     \<and> relay_log dumps (rel', dw') (db_name ev) (evs @ [ev])
     \<and> (\<forall>db. db \<noteq> db_name ev \<longrightarrow> map_of (dbs rel') db = map_of (dbs rel) db
            \<and> map_of (db_file_writers dw') db = map_of (db_file_writers dw) db)"
  by (rule store_event_log [OF assms])

theorem store_event_appends_witness:
  "\<exists>rel' dw'. store_event sample_dumps 100 (sample_event 8) (sample_relay,
       \<lparr>records_per_file = 1000, db_file_writers = []\<rparr>) = (Inr (), (rel', dw'))
     \<and> relay_log sample_dumps (rel', dw') ''db''
         [sample_event 4, sample_event 5, sample_event 7, sample_event 8]"
proof -
  have "relay_log sample_dumps (sample_relay, \<lparr>records_per_file = 1000, db_file_writers = []\<rparr>)
      (db_name (sample_event 8)) [sample_event 4, sample_event 5, sample_event 7]"
    unfolding relay_log_def using sample_relay_holds
    by (intro exI [of _ sample_files]) (auto simp: relay_holds_ensure writer_at_def sample_files_def sample_event_def)
  moreover have "length (sample_dumps (sample_event 8)) < 2 ^ 32"
    by (simp add: sample_dumps_def)
  ultimately show ?thesis
    using store_event_appends [of sample_dumps sample_relay _ "sample_event 8" _ 100]
    by (fastforce simp: sample_event_def)
qed

text \<open>C13. The clean-up of the relay never removes a file a database replicator may still need. When
  \<^verbatim>\<open>remove_old_files\<close> has run, to the end or up to an exception, a file that is gone was not
  modified after \<^verbatim>\<open>ts_from\<close>, was not among the six newest of its database, and every
  transaction that a state file of that database records was found, in a file with a higher
  number; so the file of each such transaction and every file behind it are still there.\<close>

theorem remove_old_files_safe:
  assumes "dict_wf (dbs rel)" and "lookup_file rel db n = Some f"
    and "lookup_file (snd (remove_old_files loads loads_state ts_from rel)) db n \<noteq> Some f"
  shows "mtime f \<le> ts_from
     \<and> (\<exists>nums. fst (get_existing_file_nums db rel) = Inr nums \<and> n \<in> set (take (length nums - 6) nums)
       \<and> (\<forall>t \<in> set (get_db_replicator_state_transactions loads_state rel db).
            \<exists>m. get_file_with_transaction loads rel db nums t = Inr m \<and> n < m))"
proof -
  obtain d where d: "map_of (dbs rel) db = Some d"
    using assms(2) by (auto simp: lookup_file_def split: bind_splits)
  have "distinct (map fst (dbs rel))"
    using assms(1) by (simp add: dict_wf_def)
  from clean_loop [OF this d assms(2), of loads loads_state ts_from] assms(3) show ?thesis
    by (simp add: remove_old_files_def removable_def)
qed

definition cleanup_sample :: data_dir where
  "cleanup_sample = \<lparr>dir_exists = True,
     dbs = [(''db'', \<lparr>dir_files = map (\<lambda>n. (get_file_name_by_num n,
        \<lparr>content = frames sample_dumps [sample_event n], mtime = n\<rparr>)) [1, 2, 3, 4, 5, 6, 7, 8]
        @ [(''state.pckl'', \<lparr>content = [2], mtime = 9\<rparr>)], dir_subdirs = []\<rparr>)],
     state_json = None\<rparr>"

definition sample_state_loads :: state_loader where
  "sample_state_loads bs = (case bs of
      [b] \<Rightarrow> Inr [(''last_processed_transaction'', Some (''mysql-bin.000001'', uint b))]
    | _ \<Rightarrow> Inl ValueError)"

theorem remove_old_files_safe_witness:
  "lookup_file (snd (remove_old_files sample_loads sample_state_loads 100 cleanup_sample)) ''db'' 1 = None
   \<and> (\<exists>nums. fst (get_existing_file_nums ''db'' cleanup_sample) = Inr nums \<and> 1 \<in> set (take (length nums - 6) nums)
       \<and> (\<forall>t \<in> set (get_db_replicator_state_transactions sample_state_loads cleanup_sample ''db'').
            \<exists>m. get_file_with_transaction sample_loads cleanup_sample ''db'' nums t = Inr m \<and> 1 < m))"
proof -
  have gone: "lookup_file (snd (remove_old_files sample_loads sample_state_loads 100 cleanup_sample)) ''db'' 1 = None"
    by code_simp
  have there: "lookup_file cleanup_sample ''db'' 1 = Some \<lparr>content = frames sample_dumps [sample_event 1], mtime = 1\<rparr>"
    by code_simp
  have "dict_wf (dbs cleanup_sample)"
    by (simp add: cleanup_sample_def dict_wf_def)
  from remove_old_files_safe [OF this there, of sample_loads sample_state_loads 100] gone show ?thesis
    by simp
qed

end
