(* ===== verification/BinlogReplicator.thy ===== *)
theory BinlogReplicator
  imports DataWriter Config
begin

text \<open>
  The binlog replicator process (\<^verbatim>\<open>binlog_replicator.py\<close>): it turns the events of the MySQL
  binlog stream into relay events, stores them per database, saves its position in
  \<^verbatim>\<open>state.json\<close> and cleans up the relay; and \<^verbatim>\<open>RelayRecovery\<close>, which rebuilds a damaged relay
  from MySQL. The stream, the clock and the signal that stops the process are arguments.
\<close>

section \<open>Stream events\<close>

text \<open>
  The event classes the stream is asked for, with the attributes the replicator reads, names
  already decoded; \<open>OtherEvent\<close> is any other class. A row of an update event has
  \<^verbatim>\<open>after_values\<close>, the others \<^verbatim>\<open>values\<close>.
\<close>

type_synonym row_values = "(string, py_val) dict"

datatype stream_event =
    HeartbeatLogEvent
  | DeleteRowsEvent string string "row_values list"
  | UpdateRowsEvent string string "row_values list"
  | WriteRowsEvent string string "row_values list"
  | QueryEvent string string
  | OtherEvent

section \<open>Database name of a query\<close>

text \<open>
  \<^verbatim>\<open>_try_parse_db_name_from_query\<close>: the regular expression as a recogniser. White space is
  taken greedily and cannot be part of what follows it, so no backtracking is needed; where
  the expression could still match without its optional parts, the result is the empty
  string as well.
\<close>

definition skip_ws :: "string \<Rightarrow> string" where
  "skip_ws = dropWhile is_space"

definition ws1 :: "string \<Rightarrow> string option" where
  "ws1 s = (case s of c # _ \<Rightarrow> if is_space c then Some (skip_ws s) else None | [] \<Rightarrow> None)"

definition keyword :: "string \<Rightarrow> string \<Rightarrow> string option" where
  "keyword kw s = (if startswith (lower s) kw then Some (drop (length kw) s) else None)"

definition is_quote :: "char \<Rightarrow> bool" where
  "is_quote c \<longleftrightarrow> c = bquote \<or> c = dquote"

definition query_head :: "string \<Rightarrow> string option" where
  "query_head q =
     (let s = skip_ws q
      in Option.bind (case keyword ''create'' s of Some r \<Rightarrow> Some r | None \<Rightarrow> keyword ''alter'' s) (\<lambda>r1.
         Option.bind (ws1 r1) (\<lambda>r2. Option.bind (keyword ''table'' r2) ws1)))"

definition if_not_exists_clause :: "string \<Rightarrow> string" where
  "if_not_exists_clause s =
     (case Option.bind (keyword ''if'' s) (\<lambda>r1. Option.bind (ws1 r1) (\<lambda>r2. Option.bind (keyword ''not'' r2) (\<lambda>r3.
           Option.bind (ws1 r3) (\<lambda>r4. Option.bind (keyword ''exists'' r4) ws1)))) of
        Some r \<Rightarrow> r | None \<Rightarrow> s)"

definition db_part :: "string \<Rightarrow> (string \<times> string) option" where
  "db_part s =
     (case s of
        [] \<Rightarrow> None
      | c # r \<Rightarrow>
          let (name, rest) =
            (if is_quote c
             then (takeWhile (\<lambda>d. \<not> is_quote d) r, (case dropWhile (\<lambda>d. \<not> is_quote d) r of [] \<Rightarrow> [] | _ # r' \<Rightarrow> CHR ''q'' # r'))
             else (takeWhile is_word_char s, CHR ''q'' # dropWhile is_word_char s))
          in if name = [] \<or> rest = [] then None
             else (case skip_ws (tl rest) of
                     d # r' \<Rightarrow> if d = CHR ''.'' then Some (name, skip_ws r') else None
                   | [] \<Rightarrow> None))"

definition table_start :: "string \<Rightarrow> bool" where
  "table_start s = (case (case s of c # r \<Rightarrow> if is_quote c then r else s | [] \<Rightarrow> s) of
      [] \<Rightarrow> False | c # _ \<Rightarrow> is_word_char c)"

definition try_parse_db_name_from_query :: "string \<Rightarrow> string" where
  "try_parse_db_name_from_query q =
     (case query_head q of
        None \<Rightarrow> []
      | Some r \<Rightarrow>
          (case db_part (if_not_exists_clause r) of
             Some (db, rest) \<Rightarrow> if table_start rest then db else []
           | None \<Rightarrow> []))"

definition get_query_event_db_name :: "string \<Rightarrow> string" where
  "get_query_event_db_name q = try_parse_db_name_from_query q"

section \<open>Conversion\<close>

definition row_list :: "row_values list \<Rightarrow> records" where
  "row_list rs = Rows (map (map snd) rs)"

definition make_event :: "transaction \<Rightarrow> string \<Rightarrow> string \<Rightarrow> event_type \<Rightarrow> records \<Rightarrow> log_event" where
  "make_event tx db tbl ty rs =
     \<lparr>transaction_id = tx, db_name = db, event_table = tbl, records_of = rs, event_type_of = ty\<rparr>"

text \<open>A row event of a table: table filter, then database filter.\<close>

definition convert_rows :: "Settings \<Rightarrow> transaction \<Rightarrow> string \<Rightarrow> string \<Rightarrow> event_type \<Rightarrow> row_values list
    \<Rightarrow> log_event option res" where
  "convert_rows settings tx schema tbl ty rs =
     bindE (is_table_matches settings tbl) (\<lambda>tm.
       if \<not> tm then Inr None
       else bindE (is_database_matches settings schema) (\<lambda>dm.
         if \<not> dm then Inr None else Inr (Some (make_event tx schema tbl ty (row_list rs)))))"

definition convert_stream_event_to_log_event ::
  "Settings \<Rightarrow> stream_event \<Rightarrow> transaction \<Rightarrow> log_event option res" where
  "convert_stream_event_to_log_event settings ev tx =
     (case ev of
        HeartbeatLogEvent \<Rightarrow> Inr None
      | OtherEvent \<Rightarrow> Inr None
      | UpdateRowsEvent schema tbl rs \<Rightarrow> convert_rows settings tx schema tbl ADD_EVENT rs
      | WriteRowsEvent schema tbl rs \<Rightarrow> convert_rows settings tx schema tbl ADD_EVENT rs
      | DeleteRowsEvent schema tbl rs \<Rightarrow> convert_rows settings tx schema tbl REMOVE_EVENT rs
      | QueryEvent schema q \<Rightarrow>
          (let from_query = get_query_event_db_name q;
               db = (if from_query \<noteq> [] then from_query else schema)
           in bindE (is_database_matches settings db) (\<lambda>dm.
                if \<not> dm then Inr None else Inr (Some (make_event tx db [] QUERY (Query q))))))"

section \<open>State\<close>

text \<open>\<^verbatim>\<open>State\<close>: the object, loaded from \<^verbatim>\<open>state.json\<close>; \<open>pid\<close> is \<^verbatim>\<open>os.getpid()\<close>.\<close>

definition State_load :: "data_dir \<Rightarrow> relay_state" where
  "State_load rel =
     (case state_json rel of
        None \<Rightarrow> \<lparr>last_seen_transaction = None, prev_last_seen_transaction = None, state_pid = None\<rparr>
      | Some s \<Rightarrow> s)"

definition State_save :: "int \<Rightarrow> relay_state \<Rightarrow> data_dir \<Rightarrow> data_dir" where
  "State_save pid st rel = rel\<lparr>state_json := Some (st\<lparr>state_pid := Some pid\<rparr>)\<rparr>"

section \<open>BinlogReplicator\<close>

definition SAVE_UPDATE_INTERVAL :: int where "SAVE_UPDATE_INTERVAL = 60"
definition BINLOG_CLEAN_INTERVAL :: int where "BINLOG_CLEAN_INTERVAL = 5 * 60"
definition MAX_EVENTS_PER_TICK :: nat where "MAX_EVENTS_PER_TICK = 1000"

record replicator =
  rep_dir :: data_dir
  rep_writer :: data_writer
  rep_state :: relay_state
  last_state_update :: int
  last_binlog_clear_time :: int
  last_transaction :: "transaction option"

text \<open>What the process is given: pickle, the settings, its process id.\<close>

record run_context =
  ctx_settings :: Settings
  ctx_dumps :: "log_event \<Rightarrow> byte list"
  ctx_loads :: "byte list \<Rightarrow> log_event res"
  ctx_loads_state :: state_loader
  ctx_pid :: int

definition new_replicator :: "run_context \<Rightarrow> data_dir \<Rightarrow> replicator" where
  "new_replicator ctx rel =
     (let (rel', dw) = new_data_writer (int_of (br_records_per_file (binlog_replicator (ctx_settings ctx)))) rel
      in \<lparr>rep_dir = rel', rep_writer = dw, rep_state = State_load rel', last_state_update = 0,
          last_binlog_clear_time = 0, last_transaction = None\<rparr>)"

text \<open>Where \<^verbatim>\<open>__init__\<close> starts the stream; None: at the current end of the master's log.\<close>

definition start_position :: "replicator \<Rightarrow> transaction option" where
  "start_position s = prev_last_seen_transaction (rep_state s)"

definition update_state_if_required :: "run_context \<Rightarrow> int \<Rightarrow> bool \<Rightarrow> transaction option \<Rightarrow> replicator \<Rightarrow> replicator" where
  "update_state_if_required ctx now force tx s =
     (if now - last_state_update s < SAVE_UPDATE_INTERVAL \<and> \<not> force then s
      else
        let st = (rep_state s)\<lparr>prev_last_seen_transaction := last_seen_transaction (rep_state s),
                               last_seen_transaction := tx\<rparr>
        in s\<lparr>rep_state := st, rep_dir := State_save (ctx_pid ctx) st ((rep_dir s)\<lparr>dir_exists := True\<rparr>),
             last_state_update := now\<rparr>)"

definition clear_old_binlog_if_required :: "run_context \<Rightarrow> int \<Rightarrow> (replicator, unit) act" where
  "clear_old_binlog_if_required ctx now s =
     (if now - last_binlog_clear_time s < BINLOG_CLEAN_INTERVAL then (Inr (), s)
      else case remove_old_files (ctx_loads ctx) (ctx_loads_state ctx)
                  (now - int_of (binlog_retention_period (binlog_replicator (ctx_settings ctx)))) (rep_dir s) of
             (out, rel) \<Rightarrow> (out, s\<lparr>last_binlog_clear_time := now, rep_dir := rel\<rparr>))"

text \<open>
  What one call of \<^verbatim>\<open>fetchone\<close> gives, at a time: nothing, an error, or an event with the
  position the stream has then. A run is driven by the list of these calls; its end is the
  signal that stops the process.
\<close>

datatype fetched = NoEvent | FetchError py_error | Fetched stream_event transaction

type_synonym script = "(int \<times> fetched) list"

definition store :: "run_context \<Rightarrow> int \<Rightarrow> log_event \<Rightarrow> (replicator, unit) act" where
  "store ctx now ev s =
     (case store_event (ctx_dumps ctx) now ev (rep_dir s, rep_writer s) of
        (out, (rel, dw)) \<Rightarrow> (out, s\<lparr>rep_dir := rel, rep_writer := dw\<rparr>))"

text \<open>The inner loop of \<^verbatim>\<open>run\<close>; it gives the calls that are left and the time it ended.\<close>

fun inner_loop :: "run_context \<Rightarrow> nat \<Rightarrow> int \<Rightarrow> script \<Rightarrow> replicator \<Rightarrow> unit res \<times> int \<times> script \<times> replicator" where
  "inner_loop ctx count t [] s = (Inr (), t, [], s)"
| "inner_loop ctx count t ((now, NoEvent) # rest) s = (Inr (), now, rest, s)"
| "inner_loop ctx count t ((now, FetchError e) # rest) s = (Inl e, now, rest, s)"
| "inner_loop ctx count t ((now, Fetched ev tx) # rest) s =
     (let s1 = update_state_if_required ctx now False (Some tx) (s\<lparr>last_transaction := Some tx\<rparr>)
      in if ev = HeartbeatLogEvent then (Inr (), now, rest, s1)
         else case convert_stream_event_to_log_event (ctx_settings ctx) ev tx of
           Inl e \<Rightarrow> (Inl e, now, rest, s1)
         | Inr None \<Rightarrow> inner_loop ctx (Suc count) now rest s1
         | Inr (Some log_event) \<Rightarrow>
             (case store ctx now log_event s1 of
                (Inl e, s2) \<Rightarrow> (Inl e, now, rest, s2)
              | (Inr _, s2) \<Rightarrow>
                  if MAX_EVENTS_PER_TICK \<le> Suc count then (Inr (), now, rest, s2)
                  else inner_loop ctx (Suc count) now rest s2))"

lemma inner_loop_shorter:
  "inner_loop ctx count t script s = (out, t', rest, s') \<Longrightarrow> script \<noteq> [] \<Longrightarrow> length rest < length script"
proof (induction ctx count t script s arbitrary: out t' rest s' rule: inner_loop.induct)
  case (4 ctx count t now ev tx rest0 s)
  have "length rest \<le> length rest0"
    if "inner_loop ctx (Suc count) now rest0 s1 = (out, t', rest, s')"
      "rest0 \<noteq> [] \<Longrightarrow> length rest < length rest0" for s1
    using that by (cases rest0) auto
  with 4 show ?case
    by (auto simp: Let_def less_Suc_eq_le split: if_splits sum.splits option.splits prod.splits)
qed auto

text \<open>
  The outer loop: after each tick the state and the clean-up; an OperationalError is logged
  and the loop goes on, every other exception ends the process. At the end the files are
  closed and the state is saved.
\<close>

function run_loop :: "run_context \<Rightarrow> int \<Rightarrow> script \<Rightarrow> replicator \<Rightarrow> unit res \<times> replicator" where
  "run_loop ctx t script s =
     (if script = [] then
        (let (rel, dw) = close_all t (rep_dir s, rep_writer s)
         in (Inr (), update_state_if_required ctx t True (last_transaction s) (s\<lparr>rep_dir := rel, rep_writer := dw\<rparr>)))
      else
        case inner_loop ctx 0 t script s of
          (Inl e, now, rest, s1) \<Rightarrow> if e = OperationalError then run_loop ctx now rest s1 else (Inl e, s1)
        | (Inr _, now, rest, s1) \<Rightarrow>
            (case clear_old_binlog_if_required ctx now (update_state_if_required ctx now False (last_transaction s1) s1) of
               (Inl e, s2) \<Rightarrow> if e = OperationalError then run_loop ctx now rest s2 else (Inl e, s2)
             | (Inr _, s2) \<Rightarrow> run_loop ctx now rest s2))"
  by pat_completeness auto
termination
  by (relation "measure (\<lambda>(_, _, script, _). length script)") (auto dest: inner_loop_shorter [OF sym])

declare run_loop.simps [simp del]

definition run_binlog_replicator :: "run_context \<Rightarrow> int \<Rightarrow> script \<Rightarrow> data_dir \<Rightarrow> unit res \<times> replicator" where
  "run_binlog_replicator ctx t script rel = run_loop ctx t script (new_replicator ctx rel)"

section \<open>What is stored when a position is saved\<close>

text \<open>
  One run of the loop as a transition system, so that a crash is possible between any two
  steps. \<open>reach ctx s0 items ph s\<close>: from \<open>s0\<close> the fetched items \<open>items\<close> have been dealt with and
  the process is in \<open>s\<close>, at the head of the loop or with one more event fetched whose
  position has been handed to \<^verbatim>\<open>update_state_if_required\<close> but which is not stored yet. The
  clean-up of old files is not a step here.
\<close>

datatype phase = AtHead | Saving int stream_event transaction

inductive reach :: "run_context \<Rightarrow> replicator \<Rightarrow> script \<Rightarrow> phase \<Rightarrow> replicator \<Rightarrow> bool" for ctx s0 where
  start: "reach ctx s0 [] AtHead s0"
| fetch: "reach ctx s0 items AtHead s \<Longrightarrow> reach ctx s0 items (Saving now ev tx)
     (update_state_if_required ctx now False (Some tx) (s\<lparr>last_transaction := Some tx\<rparr>))"
| skip: "reach ctx s0 items (Saving now ev tx) s
     \<Longrightarrow> convert_stream_event_to_log_event (ctx_settings ctx) ev tx = Inr None
     \<Longrightarrow> reach ctx s0 (items @ [(now, Fetched ev tx)]) AtHead s"
| store: "reach ctx s0 items (Saving now ev tx) s
     \<Longrightarrow> convert_stream_event_to_log_event (ctx_settings ctx) ev tx = Inr (Some log_event)
     \<Longrightarrow> store ctx now log_event s = (Inr (), s')
     \<Longrightarrow> reach ctx s0 (items @ [(now, Fetched ev tx)]) AtHead s'"
| tick: "reach ctx s0 items AtHead s
     \<Longrightarrow> reach ctx s0 items AtHead (update_state_if_required ctx now force (last_transaction s) s)"

text \<open>The relay events of one database that a list of fetched items amounts to.\<close>

fun converted :: "Settings \<Rightarrow> string \<Rightarrow> script \<Rightarrow> log_event list" where
  "converted settings db [] = []"
| "converted settings db ((now, Fetched ev tx) # rest) =
     (case convert_stream_event_to_log_event settings ev tx of
        Inr (Some le) \<Rightarrow> if db_name le = db then le # converted settings db rest else converted settings db rest
      | _ \<Rightarrow> converted settings db rest)"
| "converted settings db ((now, _) # rest) = converted settings db rest"

fun positions :: "script \<Rightarrow> transaction list" where
  "positions [] = []"
| "positions ((now, Fetched ev tx) # rest) = tx # positions rest"
| "positions ((now, _) # rest) = positions rest"

lemma converted_snoc:
  "converted settings db (items @ [(now, Fetched ev tx)]) = converted settings db items
     @ (case convert_stream_event_to_log_event settings ev tx of
          Inr (Some le) \<Rightarrow> if db_name le = db then [le] else [] | _ \<Rightarrow> [])"
  by (induction settings db items rule: converted.induct) (auto split: sum.splits option.splits)

lemma positions_snoc [simp]: "positions (items @ [(now, Fetched ev tx)]) = positions items @ [tx]"
  by (induction items rule: positions.induct) auto

lemma relay_holds_same_dir:
  assumes "relay_holds dumps rel db fs" and "map_of (dbs rel') db = map_of (dbs rel) db"
  shows "relay_holds dumps rel' db fs"
proof -
  obtain d where d: "map_of (dbs rel) db = Some d" using relay_holds_dir [OF assms(1)] .
  then have "get_existing_file_nums db rel' = (fst (get_existing_file_nums db rel), rel')"
    using assms(2) by (simp add: get_existing_file_nums_def Let_def)
  moreover have "lookup_file rel' db n = lookup_file rel db n" for n
    by (rule same_dir_lookup [OF assms(2)])
  ultimately show ?thesis
    using assms(1) by (simp add: relay_holds_def)
qed

lemma ensure_dir_map_of:
  assumes "relay_holds dumps (ensure_dir db rel) db fs"
  shows "map_of (dbs (ensure_dir db rel)) db = Some (case map_of (dbs rel) db of None \<Rightarrow> empty_dir | Some d \<Rightarrow> d)"
    and "map_of (dbs rel) db = None \<Longrightarrow> dir_exists rel"
proof -
  obtain d where "map_of (dbs (ensure_dir db rel)) db = Some d" using relay_holds_dir [OF assms] .
  then show "map_of (dbs (ensure_dir db rel)) db = Some (case map_of (dbs rel) db of None \<Rightarrow> empty_dir | Some d \<Rightarrow> d)"
    and "map_of (dbs rel) db = None \<Longrightarrow> dir_exists rel"
    by (auto simp: ensure_dir_def get_existing_file_nums_def Let_def split: option.splits if_splits)
qed

lemma ensure_dir_there:
  "(map_of (dbs rel) db = None \<Longrightarrow> dir_exists rel) \<Longrightarrow>
     map_of (dbs (ensure_dir db rel)) db = Some (case map_of (dbs rel) db of None \<Rightarrow> empty_dir | Some d \<Rightarrow> d)"
  by (auto simp: ensure_dir_def get_existing_file_nums_def Let_def split: option.splits)

text \<open>The log of a database depends on its directory and its writer only.\<close>

lemma relay_log_cong:
  assumes "relay_log dumps (rel, dw) db evs" and "map_of (dbs rel') db = map_of (dbs rel) db"
    and "map_of (db_file_writers dw') db = map_of (db_file_writers dw) db" and "dir_exists rel \<longrightarrow> dir_exists rel'"
  shows "relay_log dumps (rel', dw') db evs"
proof -
  obtain fs where fs: "relay_holds dumps (ensure_dir db rel) db fs" "writer_at dumps dw db fs" "evs = concat (map snd fs)"
    using assms(1) by (auto simp: relay_log_def)
  have "map_of (dbs (ensure_dir db rel')) db = map_of (dbs (ensure_dir db rel)) db"
    using ensure_dir_map_of [OF fs(1)] ensure_dir_there [of rel' db] assms(2,4) by simp
  then have "relay_holds dumps (ensure_dir db rel') db fs"
    by (rule relay_holds_same_dir [OF fs(1)])
  with fs assms(3) show ?thesis
    by (auto simp: relay_log_def writer_at_def)
qed

lemma update_state_same [simp]:
  "dbs (rep_dir (update_state_if_required ctx now force tx s)) = dbs (rep_dir s)"
  "rep_writer (update_state_if_required ctx now force tx s) = rep_writer s"
  "last_transaction (update_state_if_required ctx now force tx s) = last_transaction s"
  "dir_exists (rep_dir s) \<Longrightarrow> dir_exists (rep_dir (update_state_if_required ctx now force tx s))"
  by (simp_all add: update_state_if_required_def State_save_def Let_def)

lemma update_state_positions:
  "last_seen_transaction (rep_state (update_state_if_required ctx now force tx s)) \<in> {last_seen_transaction (rep_state s), tx}"
  "prev_last_seen_transaction (rep_state (update_state_if_required ctx now force tx s))
     \<in> {prev_last_seen_transaction (rep_state s), last_seen_transaction (rep_state s)}"
  by (simp_all add: update_state_if_required_def Let_def)

text \<open>\<open>saved\<close>: the object and \<^verbatim>\<open>state.json\<close> agree on the positions, once the file is written.\<close>

definition saved :: "replicator \<Rightarrow> bool" where
  "saved s \<longleftrightarrow> (case state_json (rep_dir s) of
      None \<Rightarrow> rep_state s = \<lparr>last_seen_transaction = None, prev_last_seen_transaction = None, state_pid = None\<rparr>
    | Some st \<Rightarrow> last_seen_transaction st = last_seen_transaction (rep_state s)
        \<and> prev_last_seen_transaction st = prev_last_seen_transaction (rep_state s))"

lemma saved_last_transaction [simp]: "saved (s\<lparr>last_transaction := x\<rparr>) = saved s"
  by (simp add: saved_def split: option.split)

lemma update_state_saved: "saved s \<Longrightarrow> saved (update_state_if_required ctx now force tx s)"
  by (simp add: saved_def update_state_if_required_def State_save_def Let_def)

lemma new_replicator_saved: "saved (new_replicator ctx rel)"
  by (auto simp: saved_def new_replicator_def new_data_writer_def State_load_def split: option.splits)

text \<open>The positions that count as dealt with: those of the items, and the ones from before the run.\<close>

definition settled :: "replicator \<Rightarrow> script \<Rightarrow> transaction option set" where
  "settled s0 items = Some ` set (positions items)
     \<union> {None, prev_last_seen_transaction (rep_state s0), last_seen_transaction (rep_state s0)}"

lemma settled_snoc: "settled s0 (items @ [(now, Fetched ev tx)]) = insert (Some tx) (settled s0 items)"
  by (auto simp: settled_def)

fun phase_position :: "phase \<Rightarrow> transaction option set" where
  "phase_position AtHead = {}"
| "phase_position (Saving _ _ tx) = {Some tx}"

lemma reach_positions:
  assumes "reach ctx s0 items ph s" and "last_transaction s0 = None"
  shows "prev_last_seen_transaction (rep_state s) \<in> settled s0 items
     \<and> last_seen_transaction (rep_state s) \<in> settled s0 items \<union> phase_position ph
     \<and> last_transaction s \<in> settled s0 items \<union> phase_position ph"
  using assms
proof (induction rule: reach.induct)
  case start
  then show ?case by (simp add: settled_def)
next
  case (fetch items s now ev tx)
  let ?s = "s\<lparr>last_transaction := Some tx\<rparr>"
  have "prev_last_seen_transaction (rep_state s) \<in> settled s0 items" "last_seen_transaction (rep_state s) \<in> settled s0 items"
    using fetch by simp_all
  with update_state_positions [of ctx now False "Some tx" ?s] show ?case by auto
next
  case (skip items now ev tx s)
  then show ?case by (auto simp: settled_snoc)
next
  case (store items now ev tx s le s')
  have "rep_state s' = rep_state s" "last_transaction s' = last_transaction s"
    using store.hyps(3) by (auto simp: store_def split: prod.splits)
  with store show ?case by (auto simp: settled_snoc)
next
  case (tick items s now force)
  have "prev_last_seen_transaction (rep_state s) \<in> settled s0 items" "last_seen_transaction (rep_state s) \<in> settled s0 items"
    "last_transaction s \<in> settled s0 items"
    using tick by simp_all
  with update_state_positions [of ctx now force "last_transaction s" s] show ?case by auto
qed

lemma relay_log_update_state:
  "relay_log dumps (rep_dir s, rep_writer s) db evs \<Longrightarrow>
     relay_log dumps (rep_dir (update_state_if_required ctx now force tx s),
       rep_writer (update_state_if_required ctx now force tx s)) db evs"
  by (erule relay_log_cong) (auto simp: update_state_if_required_def State_save_def Let_def)

lemma store_log:
  assumes "store ctx now le s = (Inr (), s')" and "1 < now"
    and "\<And>db. relay_log (ctx_dumps ctx) (rep_dir s, rep_writer s) db (L db)" and "dir_exists (rep_dir s)"
  shows "relay_log (ctx_dumps ctx) (rep_dir s', rep_writer s') db (if db_name le = db then L db @ [le] else L db)"
    and "rep_state s' = rep_state s" "last_transaction s' = last_transaction s"
    and "state_json (rep_dir s') = state_json (rep_dir s)" "dir_exists (rep_dir s')"
proof -
  obtain rel' dw' where st: "store_event (ctx_dumps ctx) now le (rep_dir s, rep_writer s) = (Inr (), (rel', dw'))"
    and s': "s' = s\<lparr>rep_dir := rel', rep_writer := dw'\<rparr>"
    using assms(1) by (auto simp: store_def split: prod.splits)
  have keep: "state_json rel' = state_json (rep_dir s)" "dir_exists rel' = dir_exists (rep_dir s)"
    using store_event_keeps [OF st] by simp_all
  then show "rep_state s' = rep_state s" "last_transaction s' = last_transaction s"
    "state_json (rep_dir s') = state_json (rep_dir s)" "dir_exists (rep_dir s')"
    using s' assms(4) by simp_all
  from store_event_log [OF assms(3) store_event_size [OF st] assms(2)] st
  have log: "relay_log (ctx_dumps ctx) (rel', dw') (db_name le) (L (db_name le) @ [le])"
    and other: "\<And>db. db \<noteq> db_name le \<Longrightarrow> map_of (dbs rel') db = map_of (dbs (rep_dir s)) db
        \<and> map_of (db_file_writers dw') db = map_of (db_file_writers (rep_writer s)) db"
    by auto
  show "relay_log (ctx_dumps ctx) (rep_dir s', rep_writer s') db (if db_name le = db then L db @ [le] else L db)"
    using log s' relay_log_cong [OF assms(3), of rel' db dw'] other [of db] keep by auto
qed

lemma reach_logs:
  assumes "reach ctx s0 items ph s"
    and "\<And>db. relay_log (ctx_dumps ctx) (rep_dir s0, rep_writer s0) db (L db)"
    and "dir_exists (rep_dir s0)" and "saved s0"
    and "\<forall>(now, _) \<in> set items. 1 < now"
  shows "dir_exists (rep_dir s) \<and> saved s
     \<and> (\<forall>db. relay_log (ctx_dumps ctx) (rep_dir s, rep_writer s) db (L db @ converted (ctx_settings ctx) db items))"
  using assms
proof (induction rule: reach.induct)
  case start
  then show ?case by simp
next
  case (fetch items s now ev tx)
  let ?s = "s\<lparr>last_transaction := Some tx\<rparr>"
  have "dir_exists (rep_dir ?s)" "saved ?s"
    "\<And>db. relay_log (ctx_dumps ctx) (rep_dir ?s, rep_writer ?s) db (L db @ converted (ctx_settings ctx) db items)"
    using fetch by simp_all
  then show ?case
    using relay_log_update_state by (simp add: update_state_saved del: update_state_same(1,2))
next
  case (skip items now ev tx s)
  then show ?case by (simp add: converted_snoc)
next
  case (store items now ev tx s le s')
  have now: "1 < now" and ex: "dir_exists (rep_dir s)" and sv: "saved s"
    and logs: "\<And>db. relay_log (ctx_dumps ctx) (rep_dir s, rep_writer s) db (L db @ converted (ctx_settings ctx) db items)"
    using store by auto
  note st = store_log [OF store.hyps(3) now logs ex]
  have "relay_log (ctx_dumps ctx) (rep_dir s', rep_writer s') db
      (L db @ converted (ctx_settings ctx) db (items @ [(now, Fetched ev tx)]))" for db
    using st(1) [of db] store.hyps(2) by (simp add: converted_snoc split: if_splits)
  moreover have "saved s'"
    using sv unfolding saved_def st(2,4) .
  ultimately show ?case using st(5) by blast
next
  case (tick items s now force)
  then have "dir_exists (rep_dir s)" "saved s"
    "\<And>db. relay_log (ctx_dumps ctx) (rep_dir s, rep_writer s) db (L db @ converted (ctx_settings ctx) db items)"
    by simp_all
  then show ?case
    using relay_log_update_state by (simp add: update_state_saved del: update_state_same(1,2))
qed


text \<open>The loop of the program takes steps of this system only.\<close>

lemma inner_loop_reach:
  assumes "inner_loop ctx count t script s = (Inr u, t', rest, s')" and "reach ctx s0 items AtHead s"
  shows "\<exists>fetched. reach ctx s0 (items @ fetched) AtHead s'
     \<and> converted (ctx_settings ctx) db fetched = converted (ctx_settings ctx) db (take (length script - length rest) script)
     \<and> rest = drop (length script - length rest) script"
  using assms
proof (induction ctx count t script s arbitrary: items t' rest s' rule: inner_loop.induct)
  case (4 ctx count t now ev tx tl s)
  let ?s1 = "update_state_if_required ctx now False (Some tx) (s\<lparr>last_transaction := Some tx\<rparr>)"
  let ?it = "(now, Fetched ev tx)"
  have r1: "reach ctx s0 items (Saving now ev tx) ?s1"
    using reach.fetch [OF 4(4)] .
  have done1: "\<exists>fetched. reach ctx s0 (items @ fetched) AtHead s'
     \<and> converted (ctx_settings ctx) db fetched = converted (ctx_settings ctx) db (take (length (?it # tl) - length rest) (?it # tl))
     \<and> rest = drop (length (?it # tl) - length rest) (?it # tl)"
    if "reach ctx s0 (items @ [?it]) AtHead s'" "rest = tl"
    using that by (intro exI [of _ "[?it]"]) (auto split: sum.split option.split)
  have more: "\<exists>fetched. reach ctx s0 (items @ fetched) AtHead s'
     \<and> converted (ctx_settings ctx) db fetched = converted (ctx_settings ctx) db (take (length (?it # tl) - length rest) (?it # tl))
     \<and> rest = drop (length (?it # tl) - length rest) (?it # tl)"
    if "\<exists>fetched. reach ctx s0 ((items @ [?it]) @ fetched) AtHead s'
     \<and> converted (ctx_settings ctx) db fetched = converted (ctx_settings ctx) db (take (length tl - length rest) tl)
     \<and> rest = drop (length tl - length rest) tl"
  proof -
    from that obtain f where f: "reach ctx s0 ((items @ [?it]) @ f) AtHead s'"
      "converted (ctx_settings ctx) db f = converted (ctx_settings ctx) db (take (length tl - length rest) tl)"
      "rest = drop (length tl - length rest) tl" by blast
    have "length rest \<le> length tl" by (subst f(3)) simp
    with f show ?thesis
      by (intro exI [of _ "?it # f"]) (auto simp: Suc_diff_le split: sum.split option.split)
  qed
  show ?case
  proof (cases "ev = HeartbeatLogEvent")
    case True
    then have c: "convert_stream_event_to_log_event (ctx_settings ctx) ev tx = Inr None"
      by (simp add: convert_stream_event_to_log_event_def)
    from reach.skip [OF r1 c] True 4(3) show ?thesis by (intro done1) (auto simp: Let_def)
  next
    case False
    then obtain c where c: "convert_stream_event_to_log_event (ctx_settings ctx) ev tx = Inr c"
      using 4(3) by (auto simp: Let_def split: sum.splits)
    show ?thesis
    proof (cases c)
      case None
      have il: "inner_loop ctx (Suc count) now tl ?s1 = (Inr u, t', rest, s')"
        using 4(3) False c None by (auto simp: Let_def)
      from 4(1) [OF refl False c None il reach.skip [OF r1 c [unfolded None]]] show ?thesis
        by (rule more)
    next
      case (Some le)
      obtain s2 where st: "store ctx now le ?s1 = (Inr (), s2)"
        using 4(3) False c Some by (auto simp: Let_def split: sum.splits prod.splits)
      have r2: "reach ctx s0 (items @ [?it]) AtHead s2"
        using reach.store [OF r1 _ st] c Some by simp
      show ?thesis
      proof (cases "MAX_EVENTS_PER_TICK \<le> Suc count")
        case True
        with r2 4(3) False c Some st show ?thesis by (intro done1) (auto simp: Let_def)
      next
        case less: False
        have "inner_loop ctx (Suc count) now tl s2 = (Inr u, t', rest, s')"
          using 4(3) False c Some st less by (auto simp: Let_def)
        from 4(2) [OF refl False c Some st [symmetric] refl less this r2] show ?thesis
          by (rule more)
      qed
    qed
  qed
qed (auto intro!: exI [of _ "[]"])

lemma empty_relay_log:
  assumes "dbs rel = []" and "dir_exists rel" and "db_file_writers dw = []"
  shows "relay_log dumps (rel, dw) db []"
proof -
  have "get_existing_file_nums db (ensure_dir db rel) = (Inr [], ensure_dir db rel)"
    "lookup_file (ensure_dir db rel) db n = None" for n
    using assms by (auto simp: ensure_dir_def get_existing_file_nums_def empty_dir_def listdir_def lookup_file_def)
  then have "relay_holds dumps (ensure_dir db rel) db []"
    by (simp add: relay_holds_def)
  with assms(3) show ?thesis
    by (auto simp: relay_log_def writer_at_def)
qed

definition sample_ctx :: run_context where
  "sample_ctx = \<lparr>ctx_settings = sample_settings, ctx_dumps = sample_dumps, ctx_loads = sample_loads,
     ctx_loads_state = sample_state_loads, ctx_pid = 7\<rparr>"

definition sample_dir :: data_dir where
  "sample_dir = \<lparr>dir_exists = True, dbs = [], state_json = None\<rparr>"

definition sample_stream :: "int \<Rightarrow> stream_event" where
  "sample_stream i = WriteRowsEvent ''crm'' ''t'' [[(''id'', VInt i)]]"

definition sample_tx :: "int \<Rightarrow> transaction" where
  "sample_tx i = (''mysql-bin.000001'', i)"


text \<open>A process that is stopped before its first event forgets a position: \<^verbatim>\<open>run\<close> saves its
  state by force with no last transaction, so the saved position moves to the one before and
  the last one becomes none. Two such runs in a row leave nothing to resume from, whatever was
  saved before, and the next stream starts at the end of the master's log.\<close>

lemma two_idle_runs_forget_position:
  "let rel1 = rep_dir (snd (run_binlog_replicator ctx t1 [] rel));
       rel2 = rep_dir (snd (run_binlog_replicator ctx t2 [] rel1))
   in start_position (new_replicator ctx rel1) = last_seen_transaction (State_load rel)
      \<and> start_position (new_replicator ctx rel2) = None"
  by (simp add: Let_def run_binlog_replicator_def run_loop.simps new_replicator_def new_data_writer_def
      start_position_def close_all_def update_state_if_required_def State_save_def State_load_def split: option.splits)

end
