(* ===== verification/RelayRecovery.thy ===== *)
theory RelayRecovery
  imports BinlogReplicator
begin

text \<open>
  \<^verbatim>\<open>RelayRecovery\<close> of \<^verbatim>\<open>binlog_replicator.py\<close>: when the relay does not hold the last processed
  transaction of some database, the relay files of all databases are moved aside, the relay
  is rebuilt from the MySQL binlog, checked, and put back as it was if anything fails.
\<close>

section \<open>Definitions\<close>

fun get_missing_states :: "(byte list \<Rightarrow> log_event res) \<Rightarrow> DbReplicatorStateInfo list
    \<Rightarrow> (data_dir, DbReplicatorStateInfo list) act" where
  "get_missing_states loads [] = retA []"
| "get_missing_states loads (info # infos) =
     bindA (get_existing_file_nums (info_db_name info)) (\<lambda>nums rel.
       case get_file_with_transaction loads rel (info_db_name info) nums (last_processed_transaction info) of
         Inr _ \<Rightarrow> get_missing_states loads infos rel
       | Inl TransactionNotFound \<Rightarrow>
           bindA (get_missing_states loads infos) (\<lambda>missing. retA (info # missing)) rel
       | Inl e \<Rightarrow> (Inl e, rel))"

definition validate_mysql_binlog_available :: "string list res \<Rightarrow> string \<Rightarrow> unit res" where
  "validate_mysql_binlog_available mysql_binlog_files start_file =
     bindE mysql_binlog_files (\<lambda>available.
       if start_file \<in> set available then Inr () else Inl RuntimeError)"

definition is_bin :: "string \<Rightarrow> bool" where
  "is_bin name \<longleftrightarrow> endswith name ''.bin''"

text \<open>
  The loop that looks for a free directory name; one of the first names is free, because
  there are only that many entries.
\<close>

definition backup_names :: "int \<Rightarrow> nat \<Rightarrow> string list" where
  "backup_names ts n = (''recovery_backup_'' @ str_int ts)
     # map (\<lambda>i. ''recovery_backup_'' @ str_int ts @ ''_'' @ str_nat i) [1..<n + 1]"

definition free_backup_name :: "int \<Rightarrow> db_dir \<Rightarrow> string" where
  "free_backup_name ts d =
     (case List.find (\<lambda>name. name \<notin> set (listdir d)) (backup_names ts (length (listdir d))) of
        Some name \<Rightarrow> name | None \<Rightarrow> [])"

definition backup_dir :: "int \<Rightarrow> db_dir \<Rightarrow> string \<times> db_dir" where
  "backup_dir ts d =
     (let name = free_backup_name ts d
      in (name, d\<lparr>dir_files := filter (\<lambda>(f, _). \<not> is_bin f) (dir_files d),
                  dir_subdirs := AList.update name (filter (\<lambda>(f, _). is_bin f) (dir_files d)) (dir_subdirs d)\<rparr>))"

fun backup_bin_files :: "int \<Rightarrow> string list \<Rightarrow> data_dir \<Rightarrow> (string, string) dict \<times> data_dir" where
  "backup_bin_files ts [] rel = ([], rel)"
| "backup_bin_files ts (db # names) rel =
     (case map_of (dbs rel) db of
        None \<Rightarrow> backup_bin_files ts names rel
      | Some d \<Rightarrow>
          if filter (\<lambda>(f, _). is_bin f) (dir_files d) = [] then backup_bin_files ts names rel
          else let (name, d') = backup_dir ts d;
                   (backups, rel') = backup_bin_files ts names (rel\<lparr>dbs := AList.update db d' (dbs rel)\<rparr>)
               in (AList.update db name backups, rel'))"

definition restore_dir :: "string \<Rightarrow> db_dir \<Rightarrow> db_dir" where
  "restore_dir name d =
     (let kept = filter (\<lambda>(f, _). \<not> is_bin f) (dir_files d);
          moved = (case map_of (dir_subdirs d) name of None \<Rightarrow> [] | Some fs \<Rightarrow> fs)
      in d\<lparr>dir_files := foldl (\<lambda>fs (f, x). AList.update f x fs) kept moved,
           dir_subdirs := AList.delete name (dir_subdirs d)\<rparr>)"

fun restore_backups :: "(string, string) dict \<Rightarrow> data_dir \<Rightarrow> data_dir" where
  "restore_backups [] rel = rel"
| "restore_backups ((db, name) # backups) rel =
     restore_backups backups
       (case map_of (dbs rel) db of
          None \<Rightarrow> rel
        | Some d \<Rightarrow> rel\<lparr>dbs := AList.update db (restore_dir name d) (dbs rel)\<rparr>)"

text \<open>
  The non-blocking stream of the rebuild: events with the position the stream has, if any,
  and how it ends, in an error or at a position.
\<close>

record rebuild_stream =
  stream_items :: "(stream_event \<times> transaction option) list"
  stream_end :: "transaction option res"

fun rebuild_items :: "run_context \<Rightarrow> int \<Rightarrow> string set \<Rightarrow> (stream_event \<times> transaction option) list
    \<Rightarrow> transaction \<Rightarrow> (data_dir \<times> data_writer, transaction) act" where
  "rebuild_items ctx now affected [] final = retA final"
| "rebuild_items ctx now affected ((ev, None) # items) final = rebuild_items ctx now affected items final"
| "rebuild_items ctx now affected ((ev, Some tx) # items) final =
     bindA (liftA (\<lambda>_. convert_stream_event_to_log_event (ctx_settings ctx) ev tx)) (\<lambda>c.
       case c of
         None \<Rightarrow> rebuild_items ctx now affected items tx
       | Some log_event \<Rightarrow>
           if db_name log_event \<notin> affected then rebuild_items ctx now affected items tx
           else bindA (store_event (ctx_dumps ctx) now log_event) (\<lambda>_. rebuild_items ctx now affected items tx))"

definition rebuild_relay :: "run_context \<Rightarrow> int \<Rightarrow> string set \<Rightarrow> string \<Rightarrow> rebuild_stream
    \<Rightarrow> (data_dir \<times> data_writer, transaction) act" where
  "rebuild_relay ctx now affected start_file stream =
     bindA (rebuild_items ctx now affected (stream_items stream) (start_file, 4)) (\<lambda>final.
       liftA (\<lambda>_. bindE (stream_end stream) (\<lambda>pos. Inr (case pos of None \<Rightarrow> final | Some p \<Rightarrow> p))))"

fun validate_recovered_states :: "(byte list \<Rightarrow> log_event res) \<Rightarrow> DbReplicatorStateInfo list \<Rightarrow> (data_dir, unit) act" where
  "validate_recovered_states loads [] = retA ()"
| "validate_recovered_states loads (info # infos) =
     bindA (get_existing_file_nums (info_db_name info)) (\<lambda>nums.
     bindA (liftA (\<lambda>rel. get_file_with_transaction loads rel (info_db_name info) nums (last_processed_transaction info)))
       (\<lambda>_. validate_recovered_states loads infos))"

definition save_binlog_state :: "int \<Rightarrow> transaction \<Rightarrow> data_dir \<Rightarrow> data_dir" where
  "save_binlog_state pid final rel =
     State_save pid ((State_load rel)\<lparr>prev_last_seen_transaction := Some final, last_seen_transaction := Some final\<rparr>) rel"

text \<open>The part under \<^verbatim>\<open>try\<close>, on the data directory and the writer.\<close>

definition rebuild_and_check :: "run_context \<Rightarrow> int \<Rightarrow> DbReplicatorStateInfo list \<Rightarrow> string set \<Rightarrow> string \<Rightarrow> rebuild_stream
    \<Rightarrow> (data_dir \<times> data_writer, unit) act" where
  "rebuild_and_check ctx now infos affected start_file stream =
     bindA (rebuild_relay ctx now affected start_file stream) (\<lambda>final s.
       case close_all now s of
         (rel, dw) \<Rightarrow>
           (case validate_recovered_states (ctx_loads ctx) infos rel of
              (Inl e, rel') \<Rightarrow> (Inl e, (rel', dw))
            | (Inr _, rel') \<Rightarrow> (Inr (), (save_binlog_state (ctx_pid ctx) final rel', dw))))"

definition recover_if_required :: "run_context \<Rightarrow> int \<Rightarrow> string list option \<Rightarrow> string list res \<Rightarrow> rebuild_stream
    \<Rightarrow> (data_dir, bool) act" where
  "recover_if_required ctx now only mysql_binlog_files stream rel0 =
     (let infos = get_db_replicator_state_infos (ctx_loads_state ctx) rel0 only
      in bindA (get_missing_states (ctx_loads ctx) infos) (\<lambda>missing.
         if missing = [] then retA False
         else let to_rebuild = sort (remdups (map info_db_name infos))
           in bindA (liftA (\<lambda>_. bindE (min_transaction (map last_processed_transaction infos)) (\<lambda>start.
                bindE (validate_mysql_binlog_available mysql_binlog_files (fst start)) (\<lambda>_. Inr (fst start))))) (\<lambda>start_file rel.
                case backup_bin_files now to_rebuild rel of
                  (backups, rel1) \<Rightarrow>
                    (case rebuild_and_check ctx now infos (set to_rebuild) start_file stream
                            (new_data_writer (int_of (br_records_per_file (Config.binlog_replicator (ctx_settings ctx)))) rel1) of
                       (Inr _, (rel2, _)) \<Rightarrow> (Inr True, rel2)
                     | (Inl e, s) \<Rightarrow> (Inl e, restore_backups backups (fst (close_all now s)))))) rel0)"

section \<open>A free name is found\<close>

lemma backup_names_distinct: "distinct (backup_names ts n)"
  by (auto simp: backup_names_def distinct_map inj_on_def simp del: str_nat.simps)

lemma free_backup_name_free: "free_backup_name ts d \<notin> set (listdir d)"
proof -
  let ?ns = "backup_names ts (length (listdir d))"
  have "\<not> set ?ns \<subseteq> set (listdir d)"
  proof
    assume "set ?ns \<subseteq> set (listdir d)"
    then have "length ?ns \<le> card (set (listdir d))"
      by (metis backup_names_distinct card_mono distinct_card List.finite_set)
    also have "\<dots> \<le> length (listdir d)" by (rule card_length)
    finally show False by (simp add: backup_names_def del: upt_Suc)
  qed
  then obtain name where "name \<in> set ?ns" "name \<notin> set (listdir d)" by blast
  then show ?thesis
    by (auto simp: free_backup_name_def find_None_iff find_Some_iff split: option.splits)
qed

section \<open>A failed recovery changes nothing\<close>

text \<open>
  What the rebuild may do to a directory: files with the suffix of the relay, nothing else.
\<close>

definition bins_only :: "db_dir \<Rightarrow> db_dir \<Rightarrow> bool" where
  "bins_only d d' \<longleftrightarrow> dir_subdirs d' = dir_subdirs d
     \<and> (\<forall>name. \<not> is_bin name \<longrightarrow> map_of (dir_files d') name = map_of (dir_files d) name)"

definition keeps :: "data_dir \<Rightarrow> data_dir \<Rightarrow> bool" where
  "keeps rel rel' \<longleftrightarrow> (\<forall>db d. map_of (dbs rel) db = Some d
     \<longrightarrow> (\<exists>d'. map_of (dbs rel') db = Some d' \<and> bins_only d d'))"

lemma keeps_refl [simp]: "keeps rel rel"
  by (simp add: keeps_def bins_only_def)

lemma keeps_trans: "keeps a b \<Longrightarrow> keeps b c \<Longrightarrow> keeps a c"
  unfolding keeps_def bins_only_def by metis

lemma keeps_put_file [simp]: "keeps rel (put_file db n f rel)"
  using bin_name_bin [of n] by (auto simp: keeps_def bins_only_def put_file_def is_bin_def split: option.splits)

lemma keeps_new_dir: "map_of (dbs rel) db = None \<Longrightarrow> keeps rel (rel\<lparr>dbs := AList.update db d (dbs rel)\<rparr>)"
  by (auto simp: keeps_def bins_only_def)

lemma keeps_get_existing [simp]: "keeps rel (snd (get_existing_file_nums db rel))"
  by (simp add: get_existing_file_nums_def Let_def keeps_new_dir split: option.split)

lemma keeps_same_dbs: "dbs rel' = dbs rel \<Longrightarrow> keeps rel rel'"
  by (simp add: keeps_def bins_only_def)

lemma keeps_create: "keeps rel (snd (create_file_writer now db rel))"
proof -
  obtain out rel1 where g: "get_existing_file_nums db rel = (out, rel1)" by fastforce
  then have "keeps rel rel1" using keeps_get_existing [of rel db] by simp
  with g show ?thesis
    by (auto simp: create_file_writer_def get_next_file_num_def bindA_def retA_def modifyA_def
        intro: keeps_trans split: sum.split)
qed

lemma keeps_get_or_create: "keeps rel (fst (snd (get_or_create_file_writer now db (rel, dw))))"
proof (cases "map_of (db_file_writers dw) db")
  case None
  obtain out r where c: "create_file_writer now db rel = (out, r)" by fastforce
  with keeps_create [of rel now db] have "keeps rel r" by simp
  with None c show ?thesis
    by (simp add: get_or_create_file_writer_def split: sum.split)
next
  case (Some nw)
  obtain out r where c: "create_file_writer now db (close_file now db nw rel) = (out, r)" by fastforce
  with keeps_create [of "close_file now db nw rel" now db] have "keeps rel r"
    by (metis close_file_def keeps_put_file keeps_trans snd_conv)
  with Some c show ?thesis
    by (simp add: get_or_create_file_writer_def split: sum.split)
qed

lemma keeps_store: "keeps rel (fst (snd (store_event dumps now ev (rel, dw))))"
proof -
  obtain out rel1 dw1 where g: "get_or_create_file_writer now (db_name ev) (rel, dw) = (out, (rel1, dw1))"
    by (metis prod.collapse)
  then have "keeps rel rel1" using keeps_get_or_create [of rel now "db_name ev" dw] by simp
  with g show ?thesis
    by (auto simp: store_event_def bindA_def intro: keeps_trans split: sum.split)
qed

lemma keeps_close_all: "keeps (fst s) (fst (close_all now s))"
proof -
  have "keeps rel (foldl (\<lambda>r (db, nw). close_file now db nw r) rel ws)" for rel and ws :: "(string \<times> int \<times> file_writer) list"
  proof (induction ws arbitrary: rel)
    case (Cons w ws)
    obtain db nw where w: "w = (db, nw)" by (metis prod.collapse)
    have "keeps rel (close_file now db nw rel)" by (simp add: close_file_def)
    with Cons [of "close_file now db nw rel"] w show ?case by (auto intro: keeps_trans)
  qed simp
  then show ?thesis by (simp add: close_all_def split: prod.split)
qed

lemma keeps_rebuild_items: "keeps (fst s) (fst (snd (rebuild_items ctx now affected items final s)))"
proof (induction ctx now affected items final arbitrary: s rule: rebuild_items.induct)
  case (1 ctx now affected final)
  then show ?case by (simp add: retA_def)
next
  case (3 ctx now affected ev tx items final)
  obtain rel dw where s: "s = (rel, dw)" by fastforce
  show ?case
  proof (cases "convert_stream_event_to_log_event (ctx_settings ctx) ev tx")
    case (Inl e)
    then show ?thesis by (simp add: bindA_def liftA_def)
  next
    case (Inr c)
    show ?thesis
    proof (cases c)
      case None
      with 3(1) [of s] Inr show ?thesis by (simp add: bindA_def liftA_def)
    next
      case (Some le)
      obtain out s1 where st: "store_event (ctx_dumps ctx) now le s = (out, s1)" by (metis prod.collapse)
      then have k: "keeps (fst s) (fst s1)"
        using keeps_store [of rel "ctx_dumps ctx" now le dw] s by simp
      show ?thesis
      proof (cases "db_name le \<in> affected")
        case True
        with 3(3) [of le s1] Inr Some st k show ?thesis
          by (auto simp: bindA_def liftA_def intro: keeps_trans split: sum.split)
      next
        case False
        with 3(2) [of le s] Inr Some show ?thesis by (simp add: bindA_def liftA_def)
      qed
    qed
  qed
qed simp

lemma keeps_validate: "keeps rel (snd (validate_recovered_states loads infos rel))"
proof (induction infos arbitrary: rel)
  case Nil
  then show ?case by (simp add: retA_def)
next
  case (Cons info infos)
  obtain out rel1 where g: "get_existing_file_nums (info_db_name info) rel = (out, rel1)" by fastforce
  then have "keeps rel rel1" using keeps_get_existing [of rel "info_db_name info"] by simp
  with g Cons [of rel1] show ?case
    by (auto simp: bindA_def liftA_def intro: keeps_trans split: sum.split)
qed

lemma keeps_rebuild_and_check:
  "keeps (fst s) (fst (snd (rebuild_and_check ctx now infos affected start_file stream s)))"
proof -
  obtain out s1 where r: "rebuild_items ctx now affected (stream_items stream) (start_file, 4) s = (out, s1)" by (metis prod.collapse)
  then have k1: "keeps (fst s) (fst s1)"
    using keeps_rebuild_items [of s ctx now affected "stream_items stream" "(start_file, 4)"] by simp
  obtain rel2 dw2 where c: "close_all now s1 = (rel2, dw2)" by fastforce
  then have k2: "keeps (fst s) rel2" using keeps_close_all [of s1 now] k1 by (auto intro: keeps_trans)
  obtain out3 rel3 where v: "validate_recovered_states (ctx_loads ctx) infos rel2 = (out3, rel3)" by fastforce
  then have k3: "keeps (fst s) rel3" using keeps_validate [of rel2 "ctx_loads ctx" infos] k2 by (auto intro: keeps_trans)
  have "keeps (fst s) (save_binlog_state pid final rel3)" for pid final
    by (rule keeps_trans [OF k3 keeps_same_dbs]) (simp add: save_binlog_state_def State_save_def)
  with r c v k1 k2 k3 show ?thesis
    by (auto simp: rebuild_and_check_def rebuild_relay_def bindA_def liftA_def split: sum.split)
qed

lemma map_of_filter_key: "map_of (filter (\<lambda>(k, _). P k) xs) k = (if P k then map_of xs k else None)"
  by (induction xs) auto

lemma map_of_foldl_update:
  "distinct (map fst moved) \<Longrightarrow>
     map_of (foldl (\<lambda>fs (f, x). AList.update f x fs) kept moved) = map_of kept ++ map_of moved"
proof (induction moved arbitrary: kept)
  case (Cons m moved)
  obtain f x where m: "m = (f, x)" by fastforce
  have "map_of moved f = None"
    using Cons.prems m by (simp add: map_of_eq_None_iff)
  moreover have "map_of (foldl (\<lambda>fs (f, x). AList.update f x fs) (AList.update f x kept) moved)
      = (map_of kept)(f \<mapsto> x) ++ map_of moved"
    using Cons by simp
  ultimately show ?case
    using m by (auto simp: fun_eq_iff map_add_def split: option.splits)
qed simp

text \<open>Moving the files aside and back, with anything written in between.\<close>

lemma restore_backup_dir:
  assumes b: "backup_dir ts d = (name, d1)" and k: "bins_only d1 d2" and wf: "dict_wf (dir_files d)"
  shows "map_of (dir_files (restore_dir name d2)) = map_of (dir_files d)"
    and "map_of (dir_subdirs (restore_dir name d2)) = map_of (dir_subdirs d)"
proof -
  let ?bins = "filter (\<lambda>(f, _). is_bin f) (dir_files d)"
  have name: "name = free_backup_name ts d"
    and d1: "dir_files d1 = filter (\<lambda>(f, _). \<not> is_bin f) (dir_files d)" "dir_subdirs d1 = AList.update name ?bins (dir_subdirs d)"
    using b by (auto simp: backup_dir_def Let_def)
  have free: "map_of (dir_subdirs d) name = None"
    using free_backup_name_free [of ts d] name by (auto simp: listdir_def map_of_eq_None_iff)
  have sub: "dir_subdirs d2 = AList.update name ?bins (dir_subdirs d)"
    using k d1 by (simp add: bins_only_def)
  have "distinct (map fst ?bins)"
    using wf by (auto simp: dict_wf_def distinct_map intro: inj_on_subset)
  then have "map_of (dir_files (restore_dir name d2))
      = map_of (filter (\<lambda>(f, _). \<not> is_bin f) (dir_files d2)) ++ map_of ?bins"
    by (simp add: restore_dir_def Let_def sub map_of_foldl_update)
  also have "\<dots> = map_of (dir_files d)"
    using k d1(1) by (auto simp: fun_eq_iff map_add_def map_of_filter_key bins_only_def split: option.splits)
  finally show "map_of (dir_files (restore_dir name d2)) = map_of (dir_files d)" .
  show "map_of (dir_subdirs (restore_dir name d2)) = map_of (dir_subdirs d)"
    using sub free by (auto simp: restore_dir_def Let_def fun_eq_iff)
qed

lemma backup_bin_files_other:
  "db \<notin> set names \<Longrightarrow> backup_bin_files ts names rel = (backups, rel') \<Longrightarrow>
     map_of (dbs rel') db = map_of (dbs rel) db \<and> map_of backups db = None"
proof (induction ts names rel arbitrary: backups rel' rule: backup_bin_files.induct)
  case (2 ts db' names rel)
  then show ?case
    by (auto simp: Let_def split: option.splits if_splits prod.splits)
qed auto

lemma backup_bin_files_wf: "backup_bin_files ts names rel = (backups, rel') \<Longrightarrow> dict_wf backups"
  by (induction ts names rel arbitrary: backups rel' rule: backup_bin_files.induct)
    (auto simp: Let_def split: option.splits if_splits prod.splits)

lemma backup_bin_files_own:
  assumes "db \<in> set names" and "distinct names" and "map_of (dbs rel) db = Some d"
    and "\<exists>name f. map_of (dir_files d) name = Some f \<and> is_bin name"
    and "backup_bin_files ts names rel = (backups, rel')"
  shows "map_of backups db = Some (fst (backup_dir ts d)) \<and> map_of (dbs rel') db = Some (snd (backup_dir ts d))"
  using assms
proof (induction names arbitrary: rel backups rel')
  case (Cons x names)
  have bins: "filter (\<lambda>(f, _). is_bin f) (dir_files d) \<noteq> []"
    using Cons.prems(4) by (auto simp: filter_empty_conv dest: map_of_SomeD)
  show ?case
  proof (cases "x = db")
    case True
    let ?rel = "rel\<lparr>dbs := AList.update db (snd (backup_dir ts d)) (dbs rel)\<rparr>"
    obtain bs r where b: "backup_bin_files ts names ?rel = (bs, r)" by fastforce
    have "db \<notin> set names" using True Cons.prems(2) by simp
    from backup_bin_files_other [OF this b] Cons.prems True bins b show ?thesis
      by (auto simp: Let_def case_prod_beta)
  next
    case False
    have IH: "map_of bs db = Some (fst (backup_dir ts d)) \<and> map_of (dbs r) db = Some (snd (backup_dir ts d))"
      if "backup_bin_files ts names rel1 = (bs, r)" "map_of (dbs rel1) db = Some d" for bs r rel1
      using Cons.IH [of rel1 bs r] Cons.prems False that by auto
    show ?thesis
    proof (cases "\<exists>dx. map_of (dbs rel) x = Some dx \<and> filter (\<lambda>(f, _). is_bin f) (dir_files dx) \<noteq> []")
      case True
      then obtain dx where dx: "map_of (dbs rel) x = Some dx" "filter (\<lambda>(f, _). is_bin f) (dir_files dx) \<noteq> []" by blast
      let ?rel = "rel\<lparr>dbs := AList.update x (snd (backup_dir ts dx)) (dbs rel)\<rparr>"
      obtain bs r where b: "backup_bin_files ts names ?rel = (bs, r)" by fastforce
      have "map_of (dbs ?rel) db = Some d" using False Cons.prems(3) by simp
      from IH [OF b this] dx b Cons.prems(5) False show ?thesis
        by (auto simp: Let_def case_prod_beta)
    next
      case none: False
      then have "backup_bin_files ts names rel = (backups, rel')"
        using Cons.prems(5) by (auto split: option.splits if_splits)
      from IH [OF this Cons.prems(3)] show ?thesis .
    qed
  qed
qed simp

lemma restore_backups_dir:
  "dict_wf backups \<Longrightarrow> map_of (dbs (restore_backups backups rel)) db
     = (case map_of backups db of None \<Rightarrow> map_of (dbs rel) db
        | Some name \<Rightarrow> map_option (restore_dir name) (map_of (dbs rel) db))"
proof (induction backups rel rule: restore_backups.induct)
  case (2 db' name backups rel)
  then have "map_of backups db' = None" "dict_wf backups"
    by (auto simp: dict_wf_def map_of_eq_None_iff)
  with 2(1) show ?case
    by (auto split: option.splits)
qed simp

lemma get_missing_states_same:
  "map_of (dbs rel) db = Some d \<Longrightarrow> map_of (dbs (snd (get_missing_states loads infos rel))) db = Some d"
proof (induction infos arbitrary: rel)
  case Nil
  then show ?case by (simp add: retA_def)
next
  case (Cons info infos)
  obtain out rel1 where g: "get_existing_file_nums (info_db_name info) rel = (out, rel1)" by fastforce
  have d: "map_of (dbs rel1) db = Some d"
    using get_existing_file_nums_state(1) [of rel db d] get_existing_file_nums_state(2) [of db "info_db_name info" rel]
      Cons.prems g by (cases "db = info_db_name info") auto
  with Cons.IH [OF d] g show ?case
    by (auto simp: bindA_def retA_def split: sum.split py_error.split prod.splits)
qed

text \<open>C15. A recovery that fails leaves the relay as it was. When \<^verbatim>\<open>recover_if_required\<close> raises,
  whether before the rebuild, in the middle of it or in the final check, the directory of
  every database under recovery that had relay files has exactly its former files and
  subdirectories: what was moved aside is back, and what the rebuild wrote is gone.\<close>

theorem failed_recovery_restores:
  assumes "recover_if_required ctx now only mysql_files stream rel = (Inl e, rel')"
    and "map_of (dbs rel) db = Some d" and "dict_wf (dir_files d)"
    and "db \<in> info_db_name ` set (get_db_replicator_state_infos (ctx_loads_state ctx) rel only)"
    and "\<exists>name f. map_of (dir_files d) name = Some f \<and> is_bin name"
  shows "\<exists>d'. map_of (dbs rel') db = Some d' \<and> map_of (dir_files d') = map_of (dir_files d)
     \<and> map_of (dir_subdirs d') = map_of (dir_subdirs d)"
proof -
  let ?infos = "get_db_replicator_state_infos (ctx_loads_state ctx) rel only"
  let ?names = "sort (remdups (map info_db_name ?infos))"
  let ?dw = "new_data_writer (int_of (br_records_per_file (Config.binlog_replicator (ctx_settings ctx))))"
  obtain out rel0 where m: "get_missing_states (ctx_loads ctx) ?infos rel = (out, rel0)" by (metis prod.collapse)
  then have d0: "map_of (dbs rel0) db = Some d"
    using get_missing_states_same [OF assms(2), of "ctx_loads ctx" ?infos] by simp
  obtain backups rel1 where b: "backup_bin_files now ?names rel0 = (backups, rel1)" by fastforce
  have "db \<in> set ?names" "distinct ?names" using assms(4) by auto
  from backup_bin_files_own [OF this d0 assms(5) b]
  have own: "map_of backups db = Some (fst (backup_dir now d))" "map_of (dbs rel1) db = Some (snd (backup_dir now d))"
    by simp_all
  have restored: "\<exists>d'. map_of (dbs (restore_backups backups (fst (close_all now s)))) db = Some d'
      \<and> map_of (dir_files d') = map_of (dir_files d) \<and> map_of (dir_subdirs d') = map_of (dir_subdirs d)"
    if "rebuild_and_check ctx now ?infos (set ?names) start_file stream (?dw rel1) = (r, s)" for start_file r s
  proof -
    have "keeps rel1 (fst (?dw rel1))"
      by (rule keeps_same_dbs) (simp add: new_data_writer_def)
    then have "keeps rel1 (fst (close_all now s))"
      using keeps_rebuild_and_check [of "?dw rel1" ctx now ?infos "set ?names" start_file stream] that
        keeps_close_all [of s now] by (auto intro: keeps_trans)
    then obtain d2 where d2: "map_of (dbs (fst (close_all now s))) db = Some d2" "bins_only (snd (backup_dir now d)) d2"
      using own(2) unfolding keeps_def by blast
    have "backup_dir now d = (fst (backup_dir now d), snd (backup_dir now d))" by simp
    from restore_backup_dir [OF this d2(2) assms(3)] restore_backups_dir [OF backup_bin_files_wf [OF b], of _ db] own(1) d2(1)
    show ?thesis by simp
  qed
  show ?thesis
    using assms(1) m b d0 restored
    by (auto simp: recover_if_required_def Let_def bindA_def liftA_def retA_def split: sum.splits if_splits prod.splits)
qed

definition damaged_relay :: data_dir where
  "damaged_relay = \<lparr>dir_exists = True,
     dbs = [(''db'', \<lparr>dir_files = [(''1.bin'', \<lparr>content = [0, 0, 0, 1, 4], mtime = 0\<rparr>),
        (''state.pckl'', \<lparr>content = [9], mtime = 9\<rparr>)], dir_subdirs = []\<rparr>)],
     state_json = None\<rparr>"

theorem failed_recovery_restores_witness:
  "\<exists>e rel' d'. recover_if_required sample_ctx 5 None (Inr [''mysql-bin.000001''])
        \<lparr>stream_items = [], stream_end = Inl OperationalError\<rparr> damaged_relay = (Inl e, rel')
     \<and> map_of (dbs rel') ''db'' = Some d'
     \<and> map_of (dir_files d') ''1.bin'' = Some \<lparr>content = [0, 0, 0, 1, 4], mtime = 0\<rparr>"
proof -
  let ?stream = "\<lparr>stream_items = [], stream_end = Inl OperationalError\<rparr>"
  let ?files = "Inr [''mysql-bin.000001'']"
  let ?d = "\<lparr>dir_files = [(''1.bin'', \<lparr>content = [0, 0, 0, 1, 4], mtime = 0\<rparr>),
        (''state.pckl'', \<lparr>content = [9], mtime = 9\<rparr>)], dir_subdirs = []\<rparr>"
  have "fst (recover_if_required sample_ctx 5 None ?files ?stream damaged_relay) = Inl OperationalError"
    by code_simp
  then obtain rel' where r: "recover_if_required sample_ctx 5 None ?files ?stream damaged_relay = (Inl OperationalError, rel')"
    by (metis prod.collapse)
  have infos: "map info_db_name (get_db_replicator_state_infos (ctx_loads_state sample_ctx) damaged_relay None) = [''db'']"
    by code_simp
  have "''db'' \<in> info_db_name ` set (get_db_replicator_state_infos (ctx_loads_state sample_ctx) damaged_relay None)"
    using infos by (metis image_set list.set_intros(1))
  moreover have "map_of (dbs damaged_relay) ''db'' = Some ?d"
    by (simp add: damaged_relay_def)
  moreover have "dict_wf (dir_files ?d)"
    by (simp add: dict_wf_def)
  moreover have "\<exists>name f. map_of (dir_files ?d) name = Some f \<and> is_bin name"
    by (intro exI [of _ "''1.bin''"]) (auto simp: is_bin_def endswith_iff)
  ultimately have "\<exists>d'. map_of (dbs rel') ''db'' = Some d' \<and> map_of (dir_files d') = map_of (dir_files ?d)
      \<and> map_of (dir_subdirs d') = map_of (dir_subdirs ?d)"
    by (intro failed_recovery_restores [OF r])
  with r show ?thesis by (auto simp: fun_eq_iff)
qed

end
