(* ===== verification/TableStructure.thy ===== *)
theory TableStructure
  imports PyStr
begin

text \<open>
  \<^verbatim>\<open>table_structure.py\<close>: the column list of a replicated table with its primary key, kept
  once for MySQL and once for ClickHouse. The invariant \<open>ts_wf\<close> says that the positions in
  \<^verbatim>\<open>primary_key_ids\<close> point at the columns that \<^verbatim>\<open>primary_keys\<close> names; every method that
  changes the column list re-establishes it.
\<close>

section \<open>The data classes\<close>

record table_field =
  name :: string
  field_type :: string
  parameters :: string
  additional_data :: "string list option"

text \<open>
  The attribute \<^verbatim>\<open>fields\<close> is \<open>table_fields\<close> here. \<^verbatim>\<open>primary_key_ids\<close> is the integer 0 until the first \<^verbatim>\<open>preprocess()\<close>:
  \<^const>\<open>None\<close>.
\<close>

record table_structure =
  table_fields :: "table_field list"
  primary_keys :: "string list"
  primary_key_ids :: "nat list option"
  table_name :: string
  charset :: string
  charset_python :: "string option"
  if_not_exists :: bool

definition new_field :: "string \<Rightarrow> string \<Rightarrow> table_field" where
  "new_field n ty = \<lparr>name = n, field_type = ty, parameters = [], additional_data = None\<rparr>"

definition new_structure :: table_structure where
  "new_structure = \<lparr>table_fields = [], primary_keys = [], primary_key_ids = None, table_name = [],
     charset = [], charset_python = Some [], if_not_exists = False\<rparr>"

section \<open>The methods\<close>

definition field_names :: "table_structure \<Rightarrow> string list" where
  "field_names s = map name (table_fields s)"

definition preprocess :: "table_structure \<Rightarrow> table_structure res" where
  "preprocess s =
     bindE (mapE (index_of (field_names s)) (primary_keys s)) (\<lambda>ids.
       Inr (s\<lparr>primary_key_ids := Some ids\<rparr>))"

definition add_field_first :: "table_structure \<Rightarrow> table_field \<Rightarrow> table_structure res" where
  "add_field_first s f = preprocess (s\<lparr>table_fields := f # table_fields s\<rparr>)"

text \<open>The loop of \<^verbatim>\<open>add_field_after\<close> keeps the position after the last match.\<close>

fun pos_after_last :: "table_field list \<Rightarrow> string \<Rightarrow> nat \<Rightarrow> nat option \<Rightarrow> nat option" where
  "pos_after_last [] after idx found = found"
| "pos_after_last (f # fs) after idx found =
     pos_after_last fs after (Suc idx) (if name f = after then Some (idx + 1) else found)"

definition add_field_after :: "table_structure \<Rightarrow> table_field \<Rightarrow> string \<Rightarrow> table_structure res" where
  "add_field_after s f after =
     (case pos_after_last (table_fields s) after 0 None of
        None \<Rightarrow> Inl (PyException ''field after not found'')
      | Some i \<Rightarrow> preprocess (s\<lparr>table_fields := take i (table_fields s) @ f # drop i (table_fields s)\<rparr>))"

fun find_field :: "table_field list \<Rightarrow> string \<Rightarrow> nat option" where
  "find_field [] n = None"
| "find_field (f # fs) n = (if name f = n then Some 0 else map_option Suc (find_field fs n))"

definition remove_field :: "table_structure \<Rightarrow> string \<Rightarrow> table_structure res" where
  "remove_field s n =
     (case find_field (table_fields s) n of
        None \<Rightarrow> Inl (PyException ''field not found'')
      | Some i \<Rightarrow> preprocess (s\<lparr>table_fields := take i (table_fields s) @ drop (Suc i) (table_fields s)\<rparr>))"

definition update_field :: "table_structure \<Rightarrow> table_field \<Rightarrow> table_structure res" where
  "update_field s f =
     (case find_field (table_fields s) (name f) of
        None \<Rightarrow> Inl (PyException ''field not found'')
      | Some i \<Rightarrow> Inr (s\<lparr>table_fields := (table_fields s)[i := f]\<rparr>))"

definition has_field :: "table_structure \<Rightarrow> string \<Rightarrow> bool" where
  "has_field s n \<longleftrightarrow> find_field (table_fields s) n \<noteq> None"

definition get_field :: "table_structure \<Rightarrow> string \<Rightarrow> table_field option" where
  "get_field s n = map_option (\<lambda>i. table_fields s ! i) (find_field (table_fields s) n)"

section \<open>The invariant\<close>

definition ts_wf :: "table_structure \<Rightarrow> bool" where
  "ts_wf s = (case primary_key_ids s of
      None \<Rightarrow> False
    | Some ids \<Rightarrow> list_all (\<lambda>i. i < length (table_fields s)) ids
        \<and> map (\<lambda>i. name (table_fields s ! i)) ids = primary_keys s)"

lemma find_field_index_of: "find_field fs n = (case index_of (map name fs) n of Inl _ \<Rightarrow> None | Inr i \<Rightarrow> Some i)"
  by (induction fs) (auto simp: bindE_def split: sum.splits)

lemma find_field_Some: "find_field fs n = Some i \<Longrightarrow> i < length fs \<and> name (fs ! i) = n"
  by (induction fs arbitrary: i) (auto split: if_splits)

lemma find_field_None: "find_field fs n = None \<longleftrightarrow> n \<notin> name ` set fs"
  by (induction fs) auto

lemma has_field_iff: "has_field s n \<longleftrightarrow> n \<in> set (field_names s)"
  by (auto simp: has_field_def find_field_None field_names_def)

lemma get_field_Some: "get_field s n = Some f \<Longrightarrow> f \<in> set (table_fields s) \<and> name f = n"
  by (auto simp: get_field_def dest: find_field_Some)

lemma get_field_has_field: "has_field s n \<Longrightarrow> \<exists>f. get_field s n = Some f"
  by (auto simp: has_field_def get_field_def)

lemma preprocess_Inr_iff:
  "preprocess s = Inr t \<longleftrightarrow>
     (\<exists>ids. mapE (index_of (field_names s)) (primary_keys s) = Inr ids \<and> t = s\<lparr>primary_key_ids := Some ids\<rparr>)"
  by (auto simp: preprocess_def res_simps)

lemma preprocess_frame:
  "preprocess s = Inr t \<Longrightarrow> table_fields t = table_fields s \<and> primary_keys t = primary_keys s \<and> table_name t = table_name s
     \<and> charset t = charset s \<and> charset_python t = charset_python s \<and> if_not_exists t = if_not_exists s"
  by (auto simp: preprocess_Inr_iff)

lemma preprocess_wf: "preprocess s = Inr t \<Longrightarrow> ts_wf t"
proof -
  assume "preprocess s = Inr t"
  then obtain ids where m: "mapE (index_of (field_names s)) (primary_keys s) = Inr ids"
    and t: "t = s\<lparr>primary_key_ids := Some ids\<rparr>" by (auto simp: preprocess_Inr_iff)
  have len: "length ids = length (primary_keys s)" using m by (rule mapE_Inr_length)
  have nth: "ids ! j < length (table_fields s) \<and> name (table_fields s ! (ids ! j)) = primary_keys s ! j"
    if "j < length ids" for j
    using mapE_Inr_nth [OF m, of j] that len index_of_Inr [of "field_names s" "primary_keys s ! j" "ids ! j"]
    by (auto simp: field_names_def)
  then show ?thesis
    using len by (auto simp: ts_wf_def t list_all_length intro: nth_equalityI)
qed

lemma preprocess_ok_iff:
  "(\<exists>t. preprocess s = Inr t) \<longleftrightarrow> set (primary_keys s) \<subseteq> set (field_names s)"
proof -
  have "(\<exists>ids. mapE (index_of xs) ks = Inr ids) \<longleftrightarrow> set ks \<subseteq> set xs" for xs ks :: "string list"
    using index_of_ok_iff [of xs] by (induction ks) (auto simp: res_simps)
  then show ?thesis by (auto simp: preprocess_Inr_iff)
qed

lemma pos_after_last_spec:
  "pos_after_last fs after idx found = r \<Longrightarrow>
     (after \<in> name ` set fs \<longrightarrow> (\<exists>i < length fs. r = Some (idx + Suc i) \<and> name (fs ! i) = after
         \<and> after \<notin> name ` set (drop (Suc i) fs)))
     \<and> (after \<notin> name ` set fs \<longrightarrow> r = found)"
proof (induction fs arbitrary: idx found)
  case Nil
  then show ?case by simp
next
  case (Cons f fs)
  have IH: "(after \<in> name ` set fs \<longrightarrow> (\<exists>i < length fs. r = Some (Suc idx + Suc i) \<and> name (fs ! i) = after
         \<and> after \<notin> name ` set (drop (Suc i) fs)))
     \<and> (after \<notin> name ` set fs \<longrightarrow> r = (if name f = after then Some (idx + 1) else found))"
    using Cons.IH [of "Suc idx" "if name f = after then Some (idx + 1) else found"] Cons.prems by simp
  show ?case
  proof (cases "after \<in> name ` set fs")
    case True
    with IH obtain i where "i < length fs" "r = Some (Suc idx + Suc i)" "name (fs ! i) = after"
      "after \<notin> name ` set (drop (Suc i) fs)" by blast
    then show ?thesis using True by (intro conjI impI exI [of _ "Suc i"]) auto
  next
    case False
    then show ?thesis using IH by (auto intro!: exI [of _ 0])
  qed
qed

lemma add_field_after_Inr:
  assumes "add_field_after s f after = Inr t"
  shows "\<exists>i < length (table_fields s). name (table_fields s ! i) = after \<and> after \<notin> name ` set (drop (Suc i) (table_fields s))
    \<and> table_fields t = take (Suc i) (table_fields s) @ f # drop (Suc i) (table_fields s)"
proof -
  obtain r where r: "pos_after_last (table_fields s) after 0 None = r" by simp
  from assms r obtain i where "r = Some i" by (auto simp: add_field_after_def split: option.splits)
  with pos_after_last_spec [OF r] obtain j where "j < length (table_fields s)" "i = Suc j"
    "name (table_fields s ! j) = after" "after \<notin> name ` set (drop (Suc j) (table_fields s))"
    by (cases "after \<in> name ` set (table_fields s)") auto
  moreover from this assms r \<open>r = Some i\<close>
  have "table_fields t = take (Suc j) (table_fields s) @ f # drop (Suc j) (table_fields s)"
    by (auto simp: add_field_after_def dest: preprocess_frame)
  ultimately show ?thesis by blast
qed

lemma add_field_first_names:
  "add_field_first s f = Inr t \<Longrightarrow> field_names t = name f # field_names s \<and> primary_keys t = primary_keys s"
  by (auto simp: add_field_first_def field_names_def dest!: preprocess_frame)

lemma add_field_after_keys: "add_field_after s f a = Inr t \<Longrightarrow> primary_keys t = primary_keys s"
  by (auto simp: add_field_after_def split: option.splits dest!: preprocess_frame)

lemma remove_field_names:
  "remove_field s n = Inr t \<Longrightarrow> field_names t = remove1 n (field_names s) \<and> primary_keys t = primary_keys s"
proof -
  assume a: "remove_field s n = Inr t"
  have r: "find_field fs n = Some i \<Longrightarrow> map name (take i fs @ drop (Suc i) fs) = remove1 n (map name fs)" for fs i
    by (induction fs arbitrary: i) (auto split: if_splits)
  from a show ?thesis
    by (auto simp: remove_field_def field_names_def r [symmetric] split: option.splits dest!: preprocess_frame)
qed

lemma update_field_names:
  "update_field s f = Inr t \<Longrightarrow> field_names t = field_names s \<and> primary_keys t = primary_keys s
     \<and> primary_key_ids t = primary_key_ids s"
proof -
  assume a: "update_field s f = Inr t"
  have r: "find_field fs (name f) = Some i \<Longrightarrow> map name (fs[i := f]) = map name fs" for fs i
    by (induction fs arbitrary: i) (auto split: if_splits)
  from a show ?thesis by (auto simp: update_field_def field_names_def r split: option.splits)
qed

lemma update_field_wf: "ts_wf s \<Longrightarrow> update_field s f = Inr t \<Longrightarrow> ts_wf t"
proof -
  assume wf: "ts_wf s" and u: "update_field s f = Inr t"
  have n: "map name (table_fields t) = map name (table_fields s)" "primary_keys t = primary_keys s"
    "primary_key_ids t = primary_key_ids s"
    using update_field_names [OF u] by (simp_all add: field_names_def)
  then have "length (table_fields t) = length (table_fields s)" by (metis length_map)
  moreover have "name (table_fields t ! i) = name (table_fields s ! i)" if "i < length (table_fields s)" for i
    using n(1) that calculation by (metis nth_map)
  ultimately show ?thesis
    using wf n(2,3) by (auto simp: ts_wf_def list_all_iff split: option.splits cong: map_cong)
qed

section \<open>Properties\<close>

text \<open>C10. Every method of TableStructure that changes the columns leaves a structure whose
  primary_key_ids are in range and point at exactly the columns primary_keys names, in key
  order, and none of them changes primary_keys. For update_field the structure is assumed
  to have this property before.
\<close>
theorem structure_ops_keep_key_positions:
  assumes "ts_wf s"
    and "t \<in> {t. add_field_first s f = Inr t \<or> add_field_after s f a = Inr t
              \<or> remove_field s n = Inr t \<or> update_field s f = Inr t}"
  shows "ts_wf t \<and> primary_keys t = primary_keys s"
  using assms preprocess_wf preprocess_frame
  by (auto simp: add_field_first_def add_field_after_def remove_field_def
      dest: update_field_wf update_field_names split: option.splits)

theorem structure_ops_keep_key_positions_witness:
  "\<exists>t. add_field_first (new_structure\<lparr>table_fields := [new_field ''id'' ''int'', new_field ''v'' ''text''],
        primary_keys := [''id''], primary_key_ids := Some [0]\<rparr>) (new_field ''n'' ''int'') = Inr t
     \<and> primary_key_ids t = Some [1] \<and> ts_wf t"
proof -
  let ?s = "new_structure\<lparr>table_fields := [new_field ''id'' ''int'', new_field ''v'' ''text''],
        primary_keys := [''id''], primary_key_ids := Some [0]\<rparr>"
  let ?t = "?s\<lparr>table_fields := new_field ''n'' ''int'' # table_fields ?s, primary_key_ids := Some [1]\<rparr>"
  have s: "ts_wf ?s" by (simp add: ts_wf_def new_field_def)
  have t: "add_field_first ?s (new_field ''n'' ''int'') = Inr ?t"
    by (simp add: add_field_first_def preprocess_def field_names_def new_field_def)
  have "ts_wf ?t"
    using structure_ops_keep_key_positions [OF s, of ?t "new_field ''n'' ''int''"] t by simp
  with t show ?thesis by (intro exI [of _ ?t]) simp
qed

end
