(* ===== verification/ClickhouseApi.thy ===== *)
theory ClickhouseApi
  imports PyValue TableStructure
begin

text \<open>
  \<^verbatim>\<open>clickhouse_api.py\<close>: the statements sent to ClickHouse, the retries, the record versions
  and the statistics. The client library is not modelled: what each call of it does, an
  outcome and the time it took, is a script in the state, and every attempt is recorded.
\<close>

section \<open>Statistics\<close>

record SingleStats =
  duration :: int
  events :: nat
  num_of_records :: nat

record InsertEraseStats =
  inserts :: SingleStats
  erases :: SingleStats

record GeneralStats =
  general :: InsertEraseStats
  table_stats :: "(string, InsertEraseStats) dict"

definition no_stats :: SingleStats where
  "no_stats = \<lparr>duration = 0, events = 0, num_of_records = 0\<rparr>"

definition no_ie_stats :: InsertEraseStats where
  "no_ie_stats = \<lparr>inserts = no_stats, erases = no_stats\<rparr>"

definition new_stats :: GeneralStats where
  "new_stats = \<lparr>general = no_ie_stats, table_stats = []\<rparr>"

definition add_stats :: "int \<Rightarrow> nat \<Rightarrow> SingleStats \<Rightarrow> SingleStats" where
  "add_stats dur recs s = s\<lparr>duration := duration s + dur, events := events s + 1, num_of_records := num_of_records s + recs\<rparr>"

definition on_event :: "string \<Rightarrow> bool \<Rightarrow> int \<Rightarrow> nat \<Rightarrow> GeneralStats \<Rightarrow> GeneralStats" where
  "on_event tbl is_insert dur recs g =
     (let upd = (\<lambda>ie. if is_insert then ie\<lparr>inserts := add_stats dur recs (inserts ie)\<rparr>
                       else ie\<lparr>erases := add_stats dur recs (erases ie)\<rparr>);
          t = (case map_of (table_stats g) tbl of None \<Rightarrow> no_ie_stats | Some s \<Rightarrow> s)
      in g\<lparr>general := upd (general g), table_stats := AList.update tbl (upd t) (table_stats g)\<rparr>)"

section \<open>The client\<close>

datatype client_call =
    Command string
  | Insert string "row list"

type_synonym outcome = "py_error option"

record api =
  api_database :: string
  api_cluster :: string
  api_erase_batch_size :: int
  api_version_initial_value :: int
  tables_last_record_version :: "(string, int) dict"
  api_stats :: GeneralStats
  api_script :: "(int \<times> outcome) list"
  api_calls :: "(client_call \<times> outcome) list"

definition DISTRIBUTED_TABLE_SUFFIX :: string where
  "DISTRIBUTED_TABLE_SUFFIX = ''_distributed''"

definition MAX_RETRIES :: nat where
  "MAX_RETRIES = 5"

text \<open>One call: the next outcome of the script, success when it is used up.\<close>

definition client_do :: "client_call \<Rightarrow> api \<Rightarrow> int \<times> outcome \<times> api" where
  "client_do c a =
     (case api_script a of
        [] \<Rightarrow> (0, None, a\<lparr>api_calls := api_calls a @ [(c, None)]\<rparr>)
      | (dur, out) # rest \<Rightarrow> (dur, out, a\<lparr>api_script := rest, api_calls := api_calls a @ [(c, out)]\<rparr>))"

text \<open>
  The retry loop \<^verbatim>\<open>for attempt in range(MAX_RETRIES)\<close>: an OperationalError is retried until
  the last attempt, every other exception is raised at once. The result is the time of the
  successful call.
\<close>

fun attempts :: "nat \<Rightarrow> client_call \<Rightarrow> (api, int) act" where
  "attempts 0 c a = (Inr 0, a)"
| "attempts (Suc n) c a =
     (case client_do c a of
        (dur, None, a') \<Rightarrow> (Inr dur, a')
      | (dur, Some e, a') \<Rightarrow>
          if e = OperationalError \<and> n \<noteq> 0 then attempts n c a' else (Inl e, a'))"

section \<open>Statements\<close>

definition get_on_cluster_clause :: "api \<Rightarrow> string" where
  "get_on_cluster_clause a = (if api_cluster a \<noteq> [] then ''ON CLUSTER '' @ api_cluster a else [])"

text \<open>
  \<^verbatim>\<open>query.format(on_cluster=...)\<close>: doubled braces stand for themselves, any other field raises.
\<close>

fun format_on_cluster :: "string \<Rightarrow> string \<Rightarrow> string res" where
  "format_on_cluster v [] = Inr []"
| "format_on_cluster v (c # s) =
     (if c = CHR ''{'' then
        (case s of
           [] \<Rightarrow> Inl ValueError
         | d # t \<Rightarrow>
             if d = CHR ''{'' then bindE (format_on_cluster v t) (\<lambda>r. Inr (CHR ''{'' # r))
             else if startswith s ''on_cluster}'' then bindE (format_on_cluster v (drop 11 s)) (\<lambda>r. Inr (v @ r))
             else if CHR ''}'' \<notin> set s then Inl ValueError
             else Inl KeyError)
      else if c = CHR ''}'' then
        (case s of
           d # t \<Rightarrow> if d = CHR ''}'' then bindE (format_on_cluster v t) (\<lambda>r. Inr (CHR ''}'' # r)) else Inl ValueError
         | [] \<Rightarrow> Inl ValueError)
      else bindE (format_on_cluster v s) (\<lambda>r. Inr (c # r)))"

definition apply_on_cluster :: "string \<Rightarrow> string \<Rightarrow> string res" where
  "apply_on_cluster q on_cluster =
     bindE (if contains q ''{on_cluster}'' then format_on_cluster on_cluster q else Inr q) (\<lambda>q'. Inr (strip q'))"

definition starts_with_any :: "string list \<Rightarrow> string \<Rightarrow> bool" where
  "starts_with_any ps q \<longleftrightarrow> list_ex (startswith q) ps"

text \<open>The checks of cluster mode, in the order of the code.\<close>

definition check_cluster_query :: "string \<Rightarrow> unit res" where
  "check_cluster_query q =
     (if starts_with_any [''USE'', ''SET'', ''SHOW'', ''SYSTEM'', ''EXPLAIN'', ''CHECK'', ''DESCRIBE'', ''EXISTS'', ''MOVE''] q
      then Inr ()
      else if startswith q ''SELECT'' \<and> \<not> contains q ''system.'' \<and> \<not> contains q DISTRIBUTED_TABLE_SUFFIX
      then Inl RuntimeError
      else if startswith q ''INSERT'' \<and> \<not> contains q DISTRIBUTED_TABLE_SUFFIX
      then Inl RuntimeError
      else if starts_with_any [''CREATE'', ''ALTER'', ''DELETE'', ''GRANT'', ''REVOKE'', ''UPDATE'', ''ATTACH'', ''DETACH'',
                ''DROP'', ''UNDROP'', ''KILL'', ''OPTIMIZE'', ''RENAME'', ''EXCHANGE'', ''TRUNCATE''] q
      then (if contains q ''ON CLUSTER'' then Inr () else Inl NotImplementedError)
      else Inl RuntimeError)"

definition execute_command :: "string \<Rightarrow> (api, int) act" where
  "execute_command q =
     bindA (liftA (\<lambda>a. apply_on_cluster q (get_on_cluster_clause a))) (\<lambda>q'.
     bindA (liftA (\<lambda>a. if api_cluster a \<noteq> [] then check_cluster_query q' else Inr ())) (\<lambda>_.
       attempts MAX_RETRIES (Command q')))"

definition new_api :: "string \<Rightarrow> string \<Rightarrow> int \<Rightarrow> int \<Rightarrow> (int \<times> outcome) list \<Rightarrow> unit res \<times> api" where
  "new_api db cluster batch initial script =
     (case execute_command ''SET final = 1;''
        \<lparr>api_database = db, api_cluster = cluster, api_erase_batch_size = batch, api_version_initial_value = initial,
         tables_last_record_version = [], api_stats = new_stats, api_script = script, api_calls = []\<rparr> of
        (Inl e, a) \<Rightarrow> (Inl e, a) | (Inr _, a) \<Rightarrow> (Inr (), a))"

definition get_stats :: "api \<Rightarrow> GeneralStats \<times> api" where
  "get_stats a = (api_stats a, a\<lparr>api_stats := new_stats\<rparr>)"

definition ticked :: "string \<Rightarrow> string" where
  "ticked s = ''`'' @ s @ ''`''"

definition drop_database :: "string \<Rightarrow> (api, int) act" where
  "drop_database db a = execute_command (''DROP DATABASE IF EXISTS '' @ ticked db @ '' '' @ get_on_cluster_clause a) a"

definition create_database :: "string \<Rightarrow> bool \<Rightarrow> (api, int) act" where
  "create_database db only_new a = execute_command (''CREATE DATABASE ''
     @ (if only_new then ''IF NOT EXISTS '' else []) @ ticked db @ '' '' @ get_on_cluster_clause a) a"

definition recreate_database :: "(api, int) act" where
  "recreate_database a = bindA (drop_database (api_database a)) (\<lambda>_. create_database (api_database a) False) a"

definition drop_table :: "string \<Rightarrow> (api, int) act" where
  "drop_table tbl a = execute_command (''DROP TABLE IF EXISTS '' @ ticked (api_database a) @ ''.'' @ ticked tbl
     @ '' '' @ get_on_cluster_clause a) a"

section \<open>Versions\<close>

definition get_last_used_version :: "api \<Rightarrow> string \<Rightarrow> int" where
  "get_last_used_version a tbl =
     (case map_of (tables_last_record_version a) tbl of None \<Rightarrow> api_version_initial_value a | Some v \<Rightarrow> v)"

definition set_last_used_version :: "string \<Rightarrow> int \<Rightarrow> api \<Rightarrow> api" where
  "set_last_used_version tbl v a = a\<lparr>tables_last_record_version := AList.update tbl v (tables_last_record_version a)\<rparr>"

section \<open>Creating tables\<close>

definition get_distributed_table_schema :: "api \<Rightarrow> string \<Rightarrow> string \<Rightarrow> bool \<Rightarrow> string" where
  "get_distributed_table_schema a tbl db only_new =
     (let base = (if endswith tbl DISTRIBUTED_TABLE_SUFFIX then replace_sub DISTRIBUTED_TABLE_SUFFIX [] tbl else tbl)
      in nl # ''CREATE TABLE '' @ (if only_new then ''IF NOT EXISTS'' else []) @ '' '' @ ticked db @ ''.''
         @ ticked (base @ DISTRIBUTED_TABLE_SUFFIX) @ '' '' @ get_on_cluster_clause a
         @ nl # ''ENGINE = Distributed('' @ squote # api_cluster a @ squote # '', '' @ squote # db @ squote # '', ''
         @ squote # base @ squote # '', rand());'' @ [nl])"

definition default_partition_by :: "table_structure \<Rightarrow> string res" where
  "default_partition_by st =
     (case primary_keys st of
        [k] \<Rightarrow>
          (case primary_key_ids st of
             Some (i # _) \<Rightarrow> bindE (nthE (table_fields st) i) (\<lambda>f.
                if contains (lower (field_type f)) ''int''
                then Inr (''PARTITION BY intDiv('' @ k @ '', 4294967)'' @ [nl]) else Inr [])
           | Some [] \<Rightarrow> Inl IndexError
           | None \<Rightarrow> Inl TypeError)
      | _ \<Rightarrow> Inr [])"

definition order_by_key :: "string list \<Rightarrow> table_structure \<Rightarrow> string" where
  "order_by_key order_bys st =
     (case order_bys of
        k # _ \<Rightarrow> if CHR '','' \<in> set k then ''('' @ k @ '')'' else k
      | [] \<Rightarrow> let k = join '','' (primary_keys st)
              in if 1 < length (primary_keys st) then ''('' @ k @ '')'' else k)"

definition create_table_indexes :: "string list \<Rightarrow> table_structure \<Rightarrow> string list" where
  "create_table_indexes additional st =
     [''INDEX _version _version TYPE minmax GRANULARITY 1'']
     @ (case primary_keys st of [k] \<Rightarrow> [''INDEX idx_id '' @ k @ '' TYPE bloom_filter GRANULARITY 1''] | _ \<Rightarrow> [])
     @ additional"

definition table_engine :: "api \<Rightarrow> string" where
  "table_engine a =
     (if api_cluster a \<noteq> []
      then ''ENGINE = ReplicatedReplacingMergeTree('' @ squote # ''/clickhouse/tables/{database}/{table}/{shard}'' @ squote #
           '', '' @ squote # ''{replica}'' @ squote # '', _version)''
      else ''ENGINE = ReplacingMergeTree(_version)'')"

definition create_table_query :: "api \<Rightarrow> table_structure \<Rightarrow> string list \<Rightarrow> string \<Rightarrow> string list \<Rightarrow> string" where
  "create_table_query a st idx partition_by order_bys =
     nl # ''CREATE TABLE '' @ (if if_not_exists st then ''IF NOT EXISTS'' else []) @ '' '' @ ticked (api_database a)
     @ ''.'' @ ticked (table_name st) @ '' '' @ get_on_cluster_clause a @ nl # ''('' @ nl
     # join ('','' @ [nl]) (map (\<lambda>f. ''    '' @ ticked (name f) @ '' '' @ field_type f) (table_fields st)) @ '',''
     @ nl # ''    `_version` UInt64,'' @ nl # ''    '' @ join ('','' @ [nl]) (create_table_indexes idx st) @ nl # '')''
     @ nl # table_engine a @ nl # partition_by @ ''ORDER BY '' @ order_by_key order_bys st
     @ nl # ''SETTINGS index_granularity = 8192'' @ [nl]"

definition create_table :: "table_structure \<Rightarrow> string list \<Rightarrow> string list \<Rightarrow> string list \<Rightarrow> (api, unit) act" where
  "create_table st idx partition_bys order_bys a =
     (if primary_keys st = [] then (Inl (PyException ''missing primary key''), a)
      else case (case partition_bys of p # _ \<Rightarrow> Inr (''PARTITION BY '' @ p @ [nl]) | [] \<Rightarrow> default_partition_by st) of
        Inl e \<Rightarrow> (Inl e, a)
      | Inr partition_by \<Rightarrow>
          mapA (\<lambda>q. bindA (execute_command q) (\<lambda>_. retA ()))
            (create_table_query a st idx partition_by order_bys
             # (if api_cluster a \<noteq> [] then [get_distributed_table_schema a (table_name st) (api_database a) (if_not_exists st)] else [])) a)"

section \<open>Inserting\<close>

text \<open>
  What \<^verbatim>\<open>insert\<close> does to a value: dates become datetimes, and what has no timestamp becomes
  the epoch where a datetime is required. \<open>ts_ok\<close> says whether \<^verbatim>\<open>timestamp()\<close> of a datetime
  returns (it depends on the platform and the local time zone).
\<close>

definition epoch :: py_val where
  "epoch = VDateTime 1970 1 1 0 0 0 0"

fun date_to_datetime :: "py_val \<Rightarrow> py_val" where
  "date_to_datetime (VDate y m d) = VDateTime y m d 0 0 0 0"
| "date_to_datetime v = v"

fun is_datetime :: "py_val \<Rightarrow> bool" where
  "is_datetime (VDateTime _ _ _ _ _ _ _) = True"
| "is_datetime _ = False"

definition requires_datetime :: "table_field \<Rightarrow> bool" where
  "requires_datetime f \<longleftrightarrow> (contains (field_type f) ''DateTime'' \<or> contains (field_type f) ''Date32'')
     \<and> \<not> contains (field_type f) ''Nullable''"

definition insert_value :: "(py_val \<Rightarrow> bool) \<Rightarrow> table_field option \<Rightarrow> py_val \<Rightarrow> py_val" where
  "insert_value ts_ok field e =
     (let e1 = date_to_datetime e;
          e2 = (if is_datetime e1 \<and> \<not> ts_ok e1 then epoch else e1)
      in case field of
           None \<Rightarrow> e2
         | Some f \<Rightarrow> if requires_datetime f \<and> \<not> (is_datetime e2 \<and> ts_ok e2) then epoch else e2)"

fun insert_record :: "(py_val \<Rightarrow> bool) \<Rightarrow> table_field list option \<Rightarrow> row \<Rightarrow> row res" where
  "insert_record ts_ok fs [] = Inr []"
| "insert_record ts_ok None (e # es) = bindE (insert_record ts_ok None es) (\<lambda>r. Inr (insert_value ts_ok None e # r))"
| "insert_record ts_ok (Some []) (e # es) = Inl IndexError"
| "insert_record ts_ok (Some (f # fs)) (e # es) =
     bindE (insert_record ts_ok (Some fs) es) (\<lambda>r. Inr (insert_value ts_ok (Some f) e # r))"

fun versioned :: "(py_val \<Rightarrow> bool) \<Rightarrow> table_field list option \<Rightarrow> int \<Rightarrow> row list \<Rightarrow> (row list \<times> int) res" where
  "versioned ts_ok fs v [] = Inr ([], v)"
| "versioned ts_ok fs v (r # rs) =
     bindE (insert_record ts_ok fs r) (\<lambda>r'.
     bindE (versioned ts_ok fs (v + 1) rs) (\<lambda>(rs', v'). Inr ((r' @ [VInt v]) # rs', v')))"

definition full_table_name :: "api \<Rightarrow> string \<Rightarrow> string" where
  "full_table_name a tbl = (if CHR ''.'' \<in> set (ticked tbl) then ticked tbl else ticked (api_database a) @ ''.'' @ ticked tbl)"

definition ch_insert :: "(py_val \<Rightarrow> bool) \<Rightarrow> string \<Rightarrow> row list \<Rightarrow> table_structure option \<Rightarrow> (api, unit) act" where
  "ch_insert ts_ok tbl recs st a =
     (case versioned ts_ok (map_option table_fields st) (get_last_used_version a tbl + 1) recs of
        Inl e \<Rightarrow> (Inl e, a)
      | Inr (rows, current_version) \<Rightarrow>
          (let target = (if api_cluster a \<noteq> [] then tbl @ DISTRIBUTED_TABLE_SUFFIX else tbl)
           in case attempts MAX_RETRIES (Insert (full_table_name a target) rows) a of
                (Inl e, a') \<Rightarrow> (Inl e, a')
              | (Inr dur, a') \<Rightarrow>
                  (Inr (), set_last_used_version target current_version
                     (a'\<lparr>api_stats := on_event target True dur (length rows) (api_stats a')\<rparr>))))"

section \<open>Erasing\<close>

definition is_ascii :: "byte list \<Rightarrow> bool" where
  "is_ascii bs \<longleftrightarrow> list_all (\<lambda>b. unat b < 128) bs"

text \<open>\<^verbatim>\<open>bytes.decode('utf-8')\<close> on the strings of the model: ASCII, anything else is refused.\<close>

definition decode_ascii :: "byte list \<Rightarrow> string res" where
  "decode_ascii bs = (if is_ascii bs then Inr (map (\<lambda>b. char_of (unat b)) bs) else Inl UnicodeError)"

definition escape_quotes :: "string \<Rightarrow> string" where
  "escape_quotes s = replace_sub [squote] [bslash, squote] (replace_sub [bslash] [bslash, bslash] s)"

text \<open>\<open>to_text\<close> is \<^verbatim>\<open>str(value)\<close> for the values that are not strings.\<close>

definition format_delete_value :: "(py_val \<Rightarrow> string) \<Rightarrow> py_val \<Rightarrow> string res" where
  "format_delete_value to_text v =
     (case v of
        VNone \<Rightarrow> Inr ''NULL''
      | VUuid u \<Rightarrow> Inr (squote # escape_quotes (to_text v) @ [squote])
      | VBytes bs \<Rightarrow> bindE (decode_ascii bs) (\<lambda>s. Inr (squote # escape_quotes s @ [squote]))
      | VStr s \<Rightarrow> Inr (squote # escape_quotes s @ [squote])
      | _ \<Rightarrow> Inr (to_text v))"

definition format_delete_key :: "(py_val \<Rightarrow> string) \<Rightarrow> py_val \<Rightarrow> string res" where
  "format_delete_key to_text v =
     (case v of
        VTuple items \<Rightarrow> bindE (mapE (format_delete_value to_text) items) (\<lambda>ss. Inr (join '','' ss))
      | _ \<Rightarrow> format_delete_value to_text v)"

definition delete_query :: "api \<Rightarrow> string \<Rightarrow> string list \<Rightarrow> string list \<Rightarrow> string" where
  "delete_query a tbl names values =
     nl # ''DELETE FROM '' @ ticked (api_database a) @ ''.'' @ ticked tbl @ '' '' @ get_on_cluster_clause a
     @ '' WHERE ('' @ join '','' names @ '') IN ('' @ join '', '' (map (\<lambda>v. ''('' @ v @ '')'') values) @ '')'' @ [nl]"

function batches :: "nat \<Rightarrow> 'a list \<Rightarrow> 'a list list" where
  "batches n xs = (if xs = [] \<or> n = 0 then [] else take n xs # batches n (drop n xs))"
  by pat_completeness auto
termination
  by (relation "measure (\<lambda>(n, xs). length xs)") auto

declare batches.simps [simp del]

fun erase_batches :: "(py_val \<Rightarrow> string) \<Rightarrow> string \<Rightarrow> string list \<Rightarrow> py_val list list \<Rightarrow> int \<Rightarrow> (api, int) act" where
  "erase_batches to_text tbl names [] spent = retA spent"
| "erase_batches to_text tbl names (b # bs) spent =
     bindA (liftA (\<lambda>_. mapE (format_delete_key to_text) b)) (\<lambda>values a.
     bindA (execute_command (delete_query a tbl names values)) (\<lambda>dur.
       erase_batches to_text tbl names bs (spent + dur)) a)"

definition erase :: "(py_val \<Rightarrow> string) \<Rightarrow> string \<Rightarrow> string list \<Rightarrow> py_val list \<Rightarrow> (api, unit) act" where
  "erase to_text tbl names keys a =
     (if api_erase_batch_size a = 0 then (Inl ValueError, a)
      else bindA (erase_batches to_text tbl names (batches (nat (api_erase_batch_size a)) keys) 0) (\<lambda>spent.
        modifyA (\<lambda>a. a\<lparr>api_stats := on_event tbl False spent (length keys) (api_stats a)\<rparr>)) a)"

section \<open>Reading\<close>

text \<open>\<open>q\<close> is \<^verbatim>\<open>client.query\<close>: column names and rows.\<close>

type_synonym query_fun = "string \<Rightarrow> (string list \<times> row list) res"

definition first_column :: "query_fun \<Rightarrow> string \<Rightarrow> py_val list res" where
  "first_column q text = bindE (q text) (\<lambda>(_, rows). mapE (\<lambda>r. nthE r 0) rows)"

definition get_tables :: "query_fun \<Rightarrow> py_val list res" where
  "get_tables q = first_column q ''SHOW TABLES''"

definition get_databases :: "query_fun \<Rightarrow> py_val list res" where
  "get_databases q = first_column q ''SHOW DATABASES''"

definition select :: "query_fun \<Rightarrow> string \<Rightarrow> string \<Rightarrow> bool option \<Rightarrow> (string, py_val) dict list res" where
  "select q tbl wh final =
     (let text = ''SELECT * FROM '' @ tbl @ (if wh \<noteq> [] then '' WHERE '' @ wh else [])
          @ (case final of None \<Rightarrow> [] | Some b \<Rightarrow> '' SETTINGS final = '' @ (if b then ''1'' else ''0'') @ '';'')
      in bindE (q text) (\<lambda>(cols, rows). Inr (map (\<lambda>r. zip cols r) rows)))"

definition show_create_table :: "query_fun \<Rightarrow> string \<Rightarrow> string \<Rightarrow> py_val res" where
  "show_create_table q db tbl =
     bindE (q (''SHOW CREATE TABLE '' @ ticked db @ ''.'' @ ticked tbl)) (\<lambda>(_, rows).
     bindE (nthE rows 0) (\<lambda>r. nthE r 0))"

definition get_max_record_version :: "query_fun \<Rightarrow> api \<Rightarrow> string \<Rightarrow> py_val option" where
  "get_max_record_version q a tbl =
     (let target = (if api_cluster a \<noteq> [] then tbl @ DISTRIBUTED_TABLE_SUFFIX else tbl)
      in case q (''SELECT MAX(_version) FROM '' @ ticked (api_database a) @ ''.'' @ ticked target) of
           Inl _ \<Rightarrow> None
         | Inr (_, []) \<Rightarrow> None
         | Inr (_, [] # _) \<Rightarrow> None
         | Inr (_, (VNone # _) # _) \<Rightarrow> None
         | Inr (_, (v # _) # _) \<Rightarrow> Some v)"

text \<open>The two searches for the sorting key in the text of \<^verbatim>\<open>SHOW CREATE TABLE\<close>.\<close>

fun search_order_by_list :: "string \<Rightarrow> string option" where
  "search_order_by_list [] = None"
| "search_order_by_list (c # s) =
     (let here = (if startswith (c # s) ''ORDER BY'' then
            (case dropWhile is_space (drop 8 (c # s)) of
               d # r \<Rightarrow> (let body = takeWhile (\<lambda>x. x \<noteq> CHR '')'') r
                         in if d = CHR ''('' \<and> body \<noteq> [] \<and> CHR '')'' \<in> set r then Some body else None)
             | [] \<Rightarrow> None) else None)
      in case here of Some b \<Rightarrow> Some b | None \<Rightarrow> search_order_by_list s)"

fun search_order_by_word :: "string \<Rightarrow> string option" where
  "search_order_by_word [] = None"
| "search_order_by_word (c # s) =
     (let here = (if startswith (c # s) ''ORDER BY'' then
            (case drop 8 (c # s) of
               d # r \<Rightarrow> (let w = takeWhile (\<lambda>x. \<not> is_space x) (dropWhile is_space r)
                         in if is_space d \<and> w \<noteq> [] then Some w else None)
             | [] \<Rightarrow> None) else None)
      in case here of Some b \<Rightarrow> Some b | None \<Rightarrow> search_order_by_word s)"

definition parse_order_by :: "string \<Rightarrow> string list" where
  "parse_order_by stmt =
     (case search_order_by_list stmt of
        Some ks \<Rightarrow> map (\<lambda>k. strip_of [bquote] (strip k)) (split_char CHR '','' ks)
      | None \<Rightarrow> (case search_order_by_word stmt of Some w \<Rightarrow> [strip_of [bquote] w] | None \<Rightarrow> []))"

definition text_of :: "py_val \<Rightarrow> string res" where
  "text_of v = (case v of VStr s \<Rightarrow> Inr s | _ \<Rightarrow> Inl TypeError)"

definition get_table_structure :: "query_fun \<Rightarrow> api \<Rightarrow> string \<Rightarrow> table_structure res" where
  "get_table_structure q a tbl =
     bindE (q (''DESCRIBE TABLE '' @ ticked (api_database a) @ ''.'' @ ticked tbl)) (\<lambda>(_, rows).
     bindE (mapE (\<lambda>r. bindE (nthE r 0) (\<lambda>n. bindE (nthE r 1) (\<lambda>t. bindE (text_of n) (\<lambda>n'. bindE (text_of t) (\<lambda>t'. Inr (n', t')))))) rows) (\<lambda>cols.
     bindE (show_create_table q (api_database a) tbl) (\<lambda>v.
     bindE (text_of v) (\<lambda>stmt.
       preprocess (new_structure\<lparr>table_name := tbl,
         table_fields := map (\<lambda>(n, t). new_field n t) (filter (\<lambda>(n, _). n \<noteq> ''_version'') cols),
         primary_keys := parse_order_by stmt\<rparr>)))))"

section \<open>Retries\<close>

text \<open>
  What a retry loop leaves in the record of calls: the outcomes of its attempts, all
  OperationalErrors but the last one, and what the last one says of the result.
\<close>

lemma attempts_calls:
  assumes "attempts n c a = (r, a')" and "0 < n"
  shows "\<exists>errs out. api_calls a' = api_calls a @ map (Pair c) (errs @ [out])
     \<and> (\<forall>e \<in> set errs. e = Some OperationalError) \<and> Suc (length errs) \<le> n
     \<and> (case out of None \<Rightarrow> \<exists>dur. r = Inr dur
        | Some e \<Rightarrow> r = Inl e \<and> (e = OperationalError \<longrightarrow> Suc (length errs) = n))"
  using assms
proof (induction n c a rule: attempts.induct)
  case (2 n c a)
  obtain dur out a1 where d: "client_do c a = (dur, out, a1)" by (metis prod.collapse)
  then have calls: "api_calls a1 = api_calls a @ [(c, out)]"
    by (auto simp: client_do_def split: list.splits prod.splits)
  show ?case
  proof (cases "\<exists>e. out = Some e \<and> e = OperationalError \<and> n \<noteq> 0")
    case True
    then have "attempts n c a1 = (r, a')" "0 < n" using 2(2) d by auto
    with 2(1) [OF d [symmetric] refl] True obtain errs out' where
      "api_calls a' = api_calls a1 @ map (Pair c) (errs @ [out'])" "\<forall>e \<in> set errs. e = Some OperationalError"
      "Suc (length errs) \<le> n" "case out' of None \<Rightarrow> \<exists>dur. r = Inr dur
        | Some e \<Rightarrow> r = Inl e \<and> (e = OperationalError \<longrightarrow> Suc (length errs) = n)" by auto
    with calls True show ?thesis
      by (intro exI [of _ "Some OperationalError # errs"] exI [of _ out']) (auto split: option.splits)
  next
    case False
    then show ?thesis
      using 2(2) d calls by (intro exI [of _ "[]"] exI [of _ out]) (auto split: option.splits if_splits)
  qed
qed simp

lemma attempts_keeps:
  assumes "attempts n c a = (r, a')"
  shows "tables_last_record_version a' = tables_last_record_version a \<and> api_cluster a' = api_cluster a
     \<and> api_database a' = api_database a \<and> api_version_initial_value a' = api_version_initial_value a
     \<and> api_erase_batch_size a' = api_erase_batch_size a \<and> api_stats a' = api_stats a"
  using assms
proof (induction n c a rule: attempts.induct)
  case (2 n c a)
  then show ?case
    by (auto simp: client_do_def split: list.splits prod.splits option.splits if_splits)
qed auto

text \<open>The calls that took effect.\<close>

definition applied :: "api \<Rightarrow> client_call list" where
  "applied a = map fst (filter (\<lambda>(_, out). out = None) (api_calls a))"

lemma attempts_applied:
  assumes "attempts n c a = (r, a')" and "0 < n"
  shows "applied a' = applied a @ (case r of Inr _ \<Rightarrow> [c] | Inl _ \<Rightarrow> [])"
proof -
  obtain errs out where a': "api_calls a' = api_calls a @ map (Pair c) (errs @ [out])"
    and errs: "\<forall>e \<in> set errs. e = Some OperationalError"
    and out: "case out of None \<Rightarrow> \<exists>dur. r = Inr dur | Some e \<Rightarrow> r = Inl e \<and> (e = OperationalError \<longrightarrow> Suc (length errs) = n)"
    using attempts_calls [OF assms] by blast
  have "filter (\<lambda>(_, out). out = None) (map (Pair c) errs) = []"
    using errs by (auto simp: filter_empty_conv)
  with a' out show ?thesis
    by (cases out) (auto simp: applied_def)
qed

text \<open>C18. A command is tried at most five times, always with the same text, and only
  OperationalErrors are retried: it returns exactly when one attempt succeeded, and then that
  is the only one of its attempts that did; it raises an OperationalError only after the fifth
  attempt and any other exception right after the attempt that raised it. When a check of cluster
  mode or the text itself is refused, nothing is sent.\<close>

theorem execute_command_retries:
  assumes "execute_command q a = (r, a')"
  shows "(\<exists>e. r = Inl e \<and> api_calls a' = api_calls a)
     \<or> (\<exists>q' errs out. apply_on_cluster q (get_on_cluster_clause a) = Inr q'
          \<and> (api_cluster a \<noteq> [] \<longrightarrow> check_cluster_query q' = Inr ())
          \<and> api_calls a' = api_calls a @ map (Pair (Command q')) (errs @ [out])
          \<and> (\<forall>e \<in> set errs. e = Some OperationalError) \<and> length errs < 5
          \<and> (case out of None \<Rightarrow> \<exists>dur. r = Inr dur
             | Some e \<Rightarrow> r = Inl e \<and> (e = OperationalError \<longrightarrow> length errs = 4)))"
proof (cases "\<exists>q'. apply_on_cluster q (get_on_cluster_clause a) = Inr q'
    \<and> (api_cluster a \<noteq> [] \<longrightarrow> check_cluster_query q' = Inr ())")
  case True
  then obtain q' where q': "apply_on_cluster q (get_on_cluster_clause a) = Inr q'"
    "api_cluster a \<noteq> [] \<longrightarrow> check_cluster_query q' = Inr ()" by blast
  then have "attempts MAX_RETRIES (Command q') a = (r, a')"
    using assms by (auto simp: execute_command_def bindA_def liftA_def split: if_splits)
  then have att: "attempts 5 (Command q') a = (r, a')" by (simp add: MAX_RETRIES_def)
  obtain errs out where o: "api_calls a' = api_calls a @ map (Pair (Command q')) (errs @ [out])"
    "\<forall>e \<in> set errs. e = Some OperationalError" "Suc (length errs) \<le> 5"
    "case out of None \<Rightarrow> \<exists>dur. r = Inr dur
        | Some e \<Rightarrow> r = Inl e \<and> (e = OperationalError \<longrightarrow> Suc (length errs) = 5)"
    using attempts_calls [OF att] by auto
  have "length errs < 5" "case out of None \<Rightarrow> \<exists>dur. r = Inr dur
        | Some e \<Rightarrow> r = Inl e \<and> (e = OperationalError \<longrightarrow> length errs = 4)"
    using o(3,4) by (auto split: option.splits)
  with q' o(1,2) show ?thesis by blast
next
  case False
  then show ?thesis
    using assms by (auto simp: execute_command_def bindA_def liftA_def split: if_splits sum.splits)
qed

definition sample_api :: "string \<Rightarrow> (int \<times> outcome) list \<Rightarrow> api" where
  "sample_api cluster script = \<lparr>api_database = ''shop'', api_cluster = cluster, api_erase_batch_size = 2,
     api_version_initial_value = 0, tables_last_record_version = [], api_stats = new_stats,
     api_script = script, api_calls = []\<rparr>"

theorem execute_command_retries_witness:
  "\<exists>a'. execute_command ''SET final = 1;'' (sample_api [] [(1, Some OperationalError), (2, None)]) = (Inr 2, a')
     \<and> (\<exists>q' errs out. api_calls a' = map (Pair (Command q')) (errs @ [out]) \<and> length errs < 5)"
proof -
  let ?a = "sample_api [] [(1, Some OperationalError), (2, None)]"
  have "fst (execute_command ''SET final = 1;'' ?a) = Inr 2" by code_simp
  then obtain a' where r: "execute_command ''SET final = 1;'' ?a = (Inr 2, a')" by (metis prod.collapse)
  have "api_calls ?a = []" by (simp add: sample_api_def)
  with execute_command_retries [OF r] r show ?thesis by auto
qed

section \<open>Record versions\<close>

lemma versioned_Inr:
  "versioned ts_ok fs v recs = Inr (rows, v') \<Longrightarrow>
     v' = v + int (length recs) \<and> length rows = length recs
     \<and> map (\<lambda>r. int_of (last r)) rows = map (\<lambda>i. v + int i) [0..<length recs]"
proof (induction ts_ok fs v recs arbitrary: rows v' rule: versioned.induct)
  case (2 ts_ok fs v r rs)
  then obtain r' rs' where r: "insert_record ts_ok fs r = Inr r'" "versioned ts_ok fs (v + 1) rs = Inr (rs', v')"
    "rows = (r' @ [VInt v]) # rs'" by (auto simp: res_simps)
  have "map (\<lambda>i. v + int i) [0..<Suc (length rs)] = v # map (\<lambda>i. (v + 1) + int i) [0..<length rs]"
    by (simp add: map_upt_Suc del: upt_Suc)
  with 2(1) [OF r(1) r(2)] r(3) show ?case by (simp del: upt_Suc)
qed simp

text \<open>The versions ClickHouse has been given for a table, in the order of the inserts.\<close>

fun call_versions :: "string \<Rightarrow> client_call \<Rightarrow> int list" where
  "call_versions full (Insert t rows) = (if t = full then map (\<lambda>r. int_of (last r)) rows else [])"
| "call_versions full (Command _) = []"

definition sent_versions :: "api \<Rightarrow> string \<Rightarrow> int list" where
  "sent_versions a tbl = concat (map (call_versions (full_table_name a tbl)) (applied a))"

definition versions_ok :: "api \<Rightarrow> string \<Rightarrow> bool" where
  "versions_ok a tbl \<longleftrightarrow> sorted_wrt (<) (sent_versions a tbl)
     \<and> (\<forall>v \<in> set (sent_versions a tbl). v \<le> get_last_used_version a tbl)"

lemma full_table_name_inject:
  "CHR ''.'' \<notin> set s \<Longrightarrow> CHR ''.'' \<notin> set t \<Longrightarrow> full_table_name a s = full_table_name a t \<longleftrightarrow> s = t"
  by (auto simp: full_table_name_def ticked_def)

lemma sent_versions_same:
  "api_calls a' = api_calls a \<Longrightarrow> api_database a' = api_database a \<Longrightarrow> sent_versions a' tbl = sent_versions a tbl"
  by (simp add: sent_versions_def applied_def full_table_name_def)

lemma versions_ok_insert:
  assumes "api_cluster a = []" and dots: "CHR ''.'' \<notin> set tbl" "CHR ''.'' \<notin> set tbl'"
    and ok: "versions_ok a tbl" and ins: "ch_insert ts_ok tbl' recs st a = (r, a')"
  shows "versions_ok a' tbl"
proof (cases "versioned ts_ok (map_option table_fields st) (get_last_used_version a tbl' + 1) recs")
  case (Inl e)
  with ins ok show ?thesis by (simp add: ch_insert_def)
next
  case (Inr p)
  obtain rows v' where p: "p = (rows, v')" by fastforce
  let ?v = "get_last_used_version a tbl'" and ?call = "Insert (full_table_name a tbl') rows"
  obtain out a1 where at: "attempts 5 ?call a = (out, a1)" by fastforce
  note keeps = attempts_keeps [OF at] and applied = attempts_applied [OF at]
  note vs = versioned_Inr [OF Inr [unfolded p]]
  have name: "full_table_name a1 t = full_table_name a t" for t
    using keeps by (simp add: full_table_name_def)
  show ?thesis
  proof (cases out)
    case (Inl e)
    then have "a' = a1" using ins Inr p at assms(1) by (simp add: ch_insert_def MAX_RETRIES_def)
    moreover have "sent_versions a1 tbl = sent_versions a tbl"
      using applied Inl name by (simp add: sent_versions_def)
    ultimately show ?thesis
      using ok keeps by (simp add: versions_ok_def get_last_used_version_def split: option.splits)
  next
    case (Inr dur)
    then have a': "a' = set_last_used_version tbl' v' (a1\<lparr>api_stats := on_event tbl' True dur (length rows) (api_stats a1)\<rparr>)"
      using ins \<open>versioned _ _ _ _ = Inr p\<close> p at assms(1) by (simp add: ch_insert_def MAX_RETRIES_def)
    then have sent: "sent_versions a' tbl = sent_versions a tbl @ (if tbl' = tbl then map (\<lambda>r. int_of (last r)) rows else [])"
      using applied Inr name full_table_name_inject [OF dots(2,1), of a] sent_versions_same [of a' a1 tbl]
      by (simp add: set_last_used_version_def sent_versions_def)
    have last: "get_last_used_version a' tbl = (if tbl' = tbl then v' else get_last_used_version a tbl)"
      using a' keeps by (auto simp: get_last_used_version_def set_last_used_version_def split: option.split)
    show ?thesis
    proof (cases "tbl' = tbl")
      case True
      let ?new = "map (\<lambda>i. (?v + 1) + int i) [0..<length recs]"
      have "sorted_wrt (<) ?new" by (simp add: sorted_wrt_map)
      moreover have "\<forall>x \<in> set (sent_versions a tbl). \<forall>y \<in> set ?new. x < y"
        using ok True by (force simp: versions_ok_def)
      moreover have "\<forall>y \<in> set ?new. y \<le> v'" "?v \<le> v'" using vs by auto
      ultimately show ?thesis
        using ok sent last True vs by (auto simp: versions_ok_def sorted_wrt_append)
    next
      case False
      with ok sent last show ?thesis by (simp add: versions_ok_def)
    qed
  qed
qed

text \<open>C19. Outside of cluster mode, an insert gives its records fresh versions. The versions ClickHouse
  has accepted for a table are strictly increasing, record by record, over any sequence of
  inserts into any tables, with retries and failures in between, so that the newest record of
  a key is the one a ReplacingMergeTree keeps; the records of one insert are numbered in their
  order, starting behind the last version used.\<close>

theorem insert_versions_increase:
  assumes "api_cluster a = []" and "CHR ''.'' \<notin> set tbl" and "CHR ''.'' \<notin> set tbl'"
    and "versions_ok a tbl" and "ch_insert ts_ok tbl' recs st a = (r, a')"
  shows "versions_ok a' tbl \<and> (r = Inr () \<and> tbl' = tbl \<longrightarrow>
     sent_versions a' tbl = sent_versions a tbl @ map (\<lambda>i. get_last_used_version a tbl + 1 + int i) [0..<length recs])"
proof
  show "versions_ok a' tbl" by (rule versions_ok_insert [OF assms])
  show "r = Inr () \<and> tbl' = tbl \<longrightarrow>
     sent_versions a' tbl = sent_versions a tbl @ map (\<lambda>i. get_last_used_version a tbl + 1 + int i) [0..<length recs]"
  proof
    assume r: "r = Inr () \<and> tbl' = tbl"
    then obtain rows v' where v: "versioned ts_ok (map_option table_fields st) (get_last_used_version a tbl + 1) recs = Inr (rows, v')"
      using assms(5) by (auto simp: ch_insert_def split: sum.splits)
    obtain out a1 where at: "attempts 5 (Insert (full_table_name a tbl) rows) a = (out, a1)" by fastforce
    obtain dur where dur: "out = Inr dur"
      using assms(1,5) v at r by (auto simp: ch_insert_def MAX_RETRIES_def split: sum.splits)
    have "sent_versions a' tbl = sent_versions a1 tbl"
      using assms(1,5) v at r dur by (intro sent_versions_same) (auto simp: ch_insert_def MAX_RETRIES_def set_last_used_version_def)
    also have "\<dots> = sent_versions a tbl @ map (\<lambda>r. int_of (last r)) rows"
      using attempts_applied [OF at] attempts_keeps [OF at] dur by (simp add: sent_versions_def full_table_name_def)
    finally show "sent_versions a' tbl = sent_versions a tbl @ map (\<lambda>i. get_last_used_version a tbl + 1 + int i) [0..<length recs]"
      using versioned_Inr [OF v] by simp
  qed
qed

theorem insert_versions_increase_witness:
  "\<exists>a'. ch_insert (\<lambda>_. True) ''t'' [[VInt 7], [VInt 8]] None (sample_api [] [(1, Some OperationalError)]) = (Inr (), a')
     \<and> versions_ok a' ''t'' \<and> sent_versions a' ''t'' = [1, 2]"
proof -
  let ?a = "sample_api [] [(1, Some OperationalError)]"
  have "fst (ch_insert (\<lambda>_. True) ''t'' [[VInt 7], [VInt 8]] None ?a) = Inr ()" by code_simp
  then obtain a' where r: "ch_insert (\<lambda>_. True) ''t'' [[VInt 7], [VInt 8]] None ?a = (Inr (), a')" by (metis prod.collapse)
  have "versions_ok ?a ''t''" "sent_versions ?a ''t'' = []" "get_last_used_version ?a ''t'' = 0"
    by (simp_all add: versions_ok_def sent_versions_def applied_def sample_api_def get_last_used_version_def)
  with insert_versions_increase [OF _ _ _ _ r, of "''t''"] r show ?thesis
    by (simp add: sample_api_def upt_rec numeral_2_eq_2)
qed

text \<open>In cluster mode versions are reused. \<^verbatim>\<open>insert\<close> looks the last version up under the name of
  the table but stores it under the name of the distributed table, so two successful inserts
  into one table number their records from the same version, and which of two records with
  the same key survives in the ReplacingMergeTree is undetermined.\<close>

lemma cluster_inserts_reuse_versions:
  assumes "api_cluster a \<noteq> []" and "ch_insert ts_ok tbl recs st a = (Inr (), a1)"
    and "ch_insert ts_ok tbl recs' st a1 = (Inr (), a2)"
  shows "\<exists>target rows rows'. applied a2 = applied a @ [Insert target rows, Insert target rows']
     \<and> map (\<lambda>r. int_of (last r)) rows = map (\<lambda>i. get_last_used_version a tbl + 1 + int i) [0..<length recs]
     \<and> map (\<lambda>r. int_of (last r)) rows' = map (\<lambda>i. get_last_used_version a tbl + 1 + int i) [0..<length recs']"
proof -
  have step: "\<exists>rows. applied b' = applied b @ [Insert (full_table_name b (tbl @ DISTRIBUTED_TABLE_SUFFIX)) rows]
      \<and> map (\<lambda>r. int_of (last r)) rows = map (\<lambda>i. get_last_used_version b tbl + 1 + int i) [0..<length rs]
      \<and> get_last_used_version b' tbl = get_last_used_version b tbl \<and> api_cluster b' = api_cluster b
      \<and> api_database b' = api_database b"
    if "api_cluster b \<noteq> []" "ch_insert ts_ok tbl rs st b = (Inr (), b')" for b b' rs
  proof -
    let ?t = "tbl @ DISTRIBUTED_TABLE_SUFFIX"
    note ins = that
    obtain rows v' where v: "versioned ts_ok (map_option table_fields st) (get_last_used_version b tbl + 1) rs = Inr (rows, v')"
      using ins(2) by (auto simp: ch_insert_def split: sum.splits)
    obtain out b1 where at: "attempts 5 (Insert (full_table_name b ?t) rows) b = (out, b1)" by fastforce
    then obtain dur where dur: "out = Inr dur"
      using ins v by (auto simp: ch_insert_def MAX_RETRIES_def Let_def split: sum.splits)
    then have b': "b' = set_last_used_version ?t v' (b1\<lparr>api_stats := on_event ?t True dur (length rows) (api_stats b1)\<rparr>)"
      using ins v at by (simp add: ch_insert_def MAX_RETRIES_def Let_def)
    have "?t \<noteq> tbl" by (simp add: DISTRIBUTED_TABLE_SUFFIX_def)
    then show ?thesis
      using b' dur attempts_applied [OF at] attempts_keeps [OF at] versioned_Inr [OF v]
      by (auto simp: set_last_used_version_def applied_def get_last_used_version_def split: option.split)
  qed
  from step [OF assms(1,2)] step [OF _ assms(3)] assms(1) show ?thesis
    by (auto simp: full_table_name_def)
qed

lemma cluster_inserts_reuse_versions_example:
  "\<exists>a1 a2 target rows rows'. ch_insert (\<lambda>_. True) ''t'' [[VInt 7]] None (sample_api ''main'' []) = (Inr (), a1)
     \<and> ch_insert (\<lambda>_. True) ''t'' [[VInt 7]] None a1 = (Inr (), a2)
     \<and> applied a2 = [Insert target rows, Insert target rows']
     \<and> map (\<lambda>r. int_of (last r)) rows = [1] \<and> map (\<lambda>r. int_of (last r)) rows' = [1]"
proof -
  let ?a = "sample_api ''main'' []" and ?ins = "ch_insert (\<lambda>_. True) ''t'' [[VInt 7]] None"
  have "fst (?ins ?a) = Inr ()" "fst (?ins (snd (?ins ?a))) = Inr ()" by code_simp+
  then obtain a1 a2 where r: "?ins ?a = (Inr (), a1)" "?ins a1 = (Inr (), a2)" by (metis prod.collapse snd_conv)
  have "api_cluster ?a \<noteq> []" "applied ?a = []" "get_last_used_version ?a ''t'' = 0"
    by (simp_all add: sample_api_def applied_def get_last_used_version_def)
  with cluster_inserts_reuse_versions [OF _ r] r show ?thesis by fastforce
qed

section \<open>Literals of delete statements\<close>

text \<open>
  How a ClickHouse string literal is read, after its opening quote: a backslash takes the
  next character as it is, a quote ends the literal.
\<close>

fun read_literal :: "string \<Rightarrow> (string \<times> string) option" where
  "read_literal [] = None"
| "read_literal (c # s) =
     (if c = squote then Some ([], s)
      else if c = bslash then
        (case s of [] \<Rightarrow> None | d # t \<Rightarrow> map_option (\<lambda>(v, r). (d # v, r)) (read_literal t))
      else map_option (\<lambda>(v, r). (c # v, r)) (read_literal s))"

definition escape_char :: "char \<Rightarrow> string" where
  "escape_char c = (if c = squote \<or> c = bslash then [bslash, c] else [c])"

lemma replace_sub_char: "replace_sub [x] q s = concat (map (\<lambda>c. if c = x then q else [c]) s)"
  by (induction s) auto

lemma escape_quotes_concat: "escape_quotes s = concat (map escape_char s)"
  by (induction s) (auto simp: escape_quotes_def replace_sub_char escape_char_def)

lemma read_literal_escape: "read_literal (concat (map escape_char s) @ squote # rest) = Some (s, rest)"
  by (induction s) (auto simp: escape_char_def)

text \<open>C20. Text keys cannot break out of a delete statement: the literal that
  \<^verbatim>\<open>_format_delete_value\<close> writes for a string is read back as exactly that string, whatever
  quotes and backslashes it has, and the reading ends where the literal ends, so nothing of
  the value is taken as part of the statement and the key that is deleted is the key that was
  meant. Bytes of a text column are treated as their text.\<close>

theorem delete_literal_roundtrip:
  "\<exists>lit. format_delete_value to_text (VStr s) = Inr (squote # lit) \<and> read_literal (lit @ rest) = Some (s, rest)
     \<and> (\<forall>bs. decode_ascii bs = Inr s \<longrightarrow> format_delete_value to_text (VBytes bs) = Inr (squote # lit))"
  by (simp add: format_delete_value_def escape_quotes_concat read_literal_escape)

theorem delete_literal_roundtrip_witness:
  "\<exists>lit. format_delete_value (\<lambda>_. []) (VStr [CHR ''a'', squote, bslash]) = Inr (squote # lit)
     \<and> read_literal (lit @ '') OR 1'') = Some ([CHR ''a'', squote, bslash], '') OR 1'')
     \<and> format_delete_value (\<lambda>_. []) (VBytes [0x61, 0x27, 0x5C]) = Inr (squote # lit)"
proof -
  have "decode_ascii [0x61, 0x27, 0x5C] = Inr [CHR ''a'', squote, bslash]" by code_simp
  with delete_literal_roundtrip [of "\<lambda>_. []" "[CHR ''a'', squote, bslash]" "'') OR 1''"] show ?thesis by blast
qed

section \<open>Deleting in batches\<close>

lemma batches_concat: "0 < n \<Longrightarrow> concat (batches n xs) = xs"
  by (induction n xs rule: batches.induct) (subst batches.simps, auto)

lemma batches_length: "b \<in> set (batches n xs) \<Longrightarrow> b \<noteq> [] \<and> length b \<le> n"
proof (induction n xs rule: batches.induct)
  case (1 n xs)
  then show ?case by (subst (asm) batches.simps) (auto split: if_splits)
qed

lemma execute_command_applied:
  assumes "execute_command q a = (r, a')"
  shows "api_database a' = api_database a \<and> api_cluster a' = api_cluster a"
    and "r = Inr dur \<Longrightarrow> \<not> contains q ''{on_cluster}'' \<Longrightarrow> applied a' = applied a @ [Command (strip q)]"
  using assms attempts_keeps [of MAX_RETRIES _ a r a'] attempts_applied [of MAX_RETRIES _ a r a']
  by (fastforce simp: execute_command_def bindA_def liftA_def apply_on_cluster_def MAX_RETRIES_def split: if_splits sum.splits)+

lemma delete_query_same:
  "api_database a' = api_database a \<Longrightarrow> api_cluster a' = api_cluster a \<Longrightarrow> delete_query a' = delete_query a"
  by (simp add: fun_eq_iff delete_query_def get_on_cluster_clause_def)

text \<open>
  A statement without braces is sent as it is. (A key that contains the text
  \<^verbatim>\<open>{on_cluster}\<close> would be taken for the placeholder of \<^verbatim>\<open>apply_on_cluster\<close>.)
\<close>

definition brace_free :: "api \<Rightarrow> string \<Rightarrow> string list \<Rightarrow> bool" where
  "brace_free a tbl names \<longleftrightarrow> CHR ''{'' \<notin> set (delete_query a tbl names [])"

lemma delete_query_no_placeholder:
  assumes "brace_free a tbl names" and "\<forall>v \<in> set vs. CHR ''{'' \<notin> set v"
  shows "\<not> contains (delete_query a tbl names vs) ''{on_cluster}''"
proof
  assume "contains (delete_query a tbl names vs) ''{on_cluster}''"
  then have "CHR ''{'' \<in> set (delete_query a tbl names vs)"
    by (auto simp: contains_iff)
  then have "CHR ''{'' \<in> set (join '', '' (map (\<lambda>v. ''('' @ v @ '')'') vs))"
    using assms(1) by (auto simp: brace_free_def delete_query_def)
  with set_join [of "'', ''" "map (\<lambda>v. ''('' @ v @ '')'') vs"] assms(2) show False
    by (auto split: if_splits dest!: subsetD)
qed

lemma erase_batches_applied:
  assumes "erase_batches to_text tbl names bs t a = (Inr d, a')" and "brace_free a tbl names"
    and "mapE (format_delete_key to_text) (concat bs) = Inr vs" and "\<forall>v \<in> set vs. CHR ''{'' \<notin> set v"
  shows "\<exists>vss. mapE (mapE (format_delete_key to_text)) bs = Inr vss \<and> vs = concat vss
     \<and> applied a' = applied a @ map (\<lambda>vs. Command (strip (delete_query a tbl names vs))) vss"
  using assms
proof (induction bs arbitrary: t a vs)
  case Nil
  then show ?case by (simp add: retA_def)
next
  case (Cons b bs)
  then obtain us dur a1 where s: "mapE (format_delete_key to_text) b = Inr us"
    "execute_command (delete_query a tbl names us) a = (Inr dur, a1)"
    "erase_batches to_text tbl names bs (t + dur) a1 = (Inr d, a')"
    by (auto simp: bindA_def liftA_def split: sum.splits prod.splits)
  then obtain vs' where vs': "mapE (format_delete_key to_text) (concat bs) = Inr vs'" "vs = us @ vs'"
    using Cons.prems(3) by (auto simp: mapE_append res_simps)
  have same: "delete_query a1 = delete_query a"
    using execute_command_applied(1) [OF s(2)] by (intro delete_query_same) simp_all
  then have bf: "brace_free a1 tbl names" using Cons.prems(2) by (simp add: brace_free_def)
  have np: "\<not> contains (delete_query a tbl names us) ''{on_cluster}''"
    using delete_query_no_placeholder [OF Cons.prems(2)] Cons.prems(4) vs'(2) by simp
  obtain vss where "mapE (mapE (format_delete_key to_text)) bs = Inr vss" "vs' = concat vss"
    "applied a' = applied a1 @ map (\<lambda>vs. Command (strip (delete_query a1 tbl names vs))) vss"
    using Cons.IH [OF s(3) bf vs'(1)] Cons.prems(4) vs'(2) by auto
  with execute_command_applied(2) [OF s(2) refl np] s(1) same vs'(2) show ?case by auto
qed

text \<open>\<^verbatim>\<open>erase\<close> deletes exactly the keys it is given. When it returns, ClickHouse has accepted
  one delete statement per batch, in order: no batch is empty or larger than
  \<^verbatim>\<open>erase_batch_size\<close>, and together their key lists are the formatted keys, each once and in
  order, so the batching neither loses nor repeats a key.\<close>

theorem erase_covers_keys:
  assumes "erase to_text tbl names keys a = (Inr (), a')" and "0 < api_erase_batch_size a"
    and "mapE (format_delete_key to_text) keys = Inr vs"
    and "brace_free a tbl names" and "\<forall>v \<in> set vs. CHR ''{'' \<notin> set v"
  shows "\<exists>vss. concat vss = vs
     \<and> applied a' = applied a @ map (\<lambda>b. Command (strip (delete_query a tbl names b))) vss
     \<and> (\<forall>b \<in> set vss. b \<noteq> [] \<and> length b \<le> nat (api_erase_batch_size a))"
proof -
  let ?bs = "batches (nat (api_erase_batch_size a)) keys"
  obtain d a1 where e: "erase_batches to_text tbl names ?bs 0 a = (Inr d, a1)" "api_calls a' = api_calls a1"
    using assms(1,2) by (auto simp: erase_def bindA_def modifyA_def split: sum.splits prod.splits)
  have "concat ?bs = keys" using assms(2) by (intro batches_concat) simp
  with erase_batches_applied [OF e(1) assms(4) _ assms(5)] assms(3) obtain vss where
    vss: "mapE (mapE (format_delete_key to_text)) ?bs = Inr vss" "vs = concat vss"
      "applied a1 = applied a @ map (\<lambda>vs. Command (strip (delete_query a tbl names vs))) vss" by auto
  have "b \<noteq> [] \<and> length b \<le> nat (api_erase_batch_size a)" if "b \<in> set vss" for b
  proof -
    have "\<exists>i < length vss. vss ! i = b" using that by (auto simp: in_set_conv_nth)
    then obtain i where "i < length vss" "vss ! i = b" by blast
    moreover from this have "mapE (format_delete_key to_text) (?bs ! i) = Inr b" "?bs ! i \<in> set ?bs"
      using mapE_Inr_nth [OF vss(1), of i] mapE_Inr_length [OF vss(1)] by auto
    ultimately show ?thesis
      using batches_length [of "?bs ! i"] mapE_Inr_length by fastforce
  qed
  with vss e(2) show ?thesis by (auto simp: applied_def)
qed

theorem erase_covers_keys_witness:
  "\<exists>a' vss. erase (\<lambda>v. str_int (int_of v)) ''t'' [''id''] [VInt 1, VInt 2, VInt 3] (sample_api [] []) = (Inr (), a')
     \<and> concat vss = [''1'', ''2'', ''3'']
     \<and> applied a' = map (\<lambda>b. Command (strip (delete_query (sample_api [] []) ''t'' [''id''] b))) vss
     \<and> (\<forall>b \<in> set vss. b \<noteq> [] \<and> length b \<le> 2)"
proof -
  let ?a = "sample_api [] []" and ?txt = "\<lambda>v. str_int (int_of v)"
  have "fst (erase ?txt ''t'' [''id''] [VInt 1, VInt 2, VInt 3] ?a) = Inr ()" by code_simp
  then obtain a' where r: "erase ?txt ''t'' [''id''] [VInt 1, VInt 2, VInt 3] ?a = (Inr (), a')" by (metis prod.collapse)
  have "mapE (format_delete_key ?txt) [VInt 1, VInt 2, VInt 3] = Inr [''1'', ''2'', ''3'']" by code_simp
  moreover have "brace_free ?a ''t'' [''id'']" by code_simp
  moreover have "0 < api_erase_batch_size ?a" "applied ?a = []" "nat (api_erase_batch_size ?a) = 2"
    by (simp_all add: sample_api_def applied_def)
  ultimately show ?thesis
    using erase_covers_keys [OF r, of "[''1'', ''2'', ''3'']"] r by auto
qed

end
