(* ===== verification/EnumParse.thy ===== *)
theory EnumParse
  imports PyStr PyValue
begin

text \<open>
  The package \<^verbatim>\<open>enum/\<close>: the parser of MySQL ENUM definitions (\<^verbatim>\<open>enum/parser.py\<close>), the
  splitting of a column definition with an ENUM or SET type (\<^verbatim>\<open>enum/ddl_parser.py\<close>), the
  helpers of \<^verbatim>\<open>enum/utils.py\<close> and the conversion of enum values (\<^verbatim>\<open>enum/converter.py\<close>).
  The loops over an index are recursions over what is left of the text.
\<close>

section \<open>enum/parser.py\<close>

definition allowed_quotes :: string where
  "allowed_quotes = [squote, dquote, bquote]"

text \<open>Quotes in which a backslash escapes the next character.\<close>

definition escaping_quotes :: string where
  "escaping_quotes = [squote, dquote]"

text \<open>
  The loop of \<^verbatim>\<open>_extract_parenthesized_content\<close>: the text up to the closing parenthesis and
  the text behind it, or None when the text ends first.
\<close>

fun extract_loop :: "nat \<Rightarrow> char option \<Rightarrow> string \<Rightarrow> (string \<times> string) option" where
  "extract_loop depth in_quote [] = None"
| "extract_loop depth (Some q) (c # s) =
    (if q \<in> set escaping_quotes \<and> c = bslash then
       (case s of [] \<Rightarrow> None
        | d # t \<Rightarrow> map_option (apfst (\<lambda>x. c # d # x)) (extract_loop depth (Some q) t))
     else if c = q then
       (case s of
          d # t \<Rightarrow> if d = q then map_option (apfst (\<lambda>x. c # d # x)) (extract_loop depth (Some q) t)
                   else map_option (apfst ((#) c)) (extract_loop depth None s)
        | [] \<Rightarrow> None)
     else map_option (apfst ((#) c)) (extract_loop depth (Some q) s))"
| "extract_loop depth None (c # s) =
    (if c \<in> set allowed_quotes then map_option (apfst ((#) c)) (extract_loop depth (Some c) s)
     else if c = CHR ''('' then map_option (apfst ((#) c)) (extract_loop (Suc depth) None s)
     else if c = CHR '')'' then
       (if depth = 1 then Some ([], s)
        else map_option (apfst ((#) c)) (extract_loop (depth - 1) None s))
     else map_option (apfst ((#) c)) (extract_loop depth None s))"

definition extract_parenthesized_content :: "string \<Rightarrow> nat \<Rightarrow> (string \<times> nat) res" where
  "extract_parenthesized_content s start_index =
    bindE (nthE s start_index) (\<lambda>c.
    raise_if (c \<noteq> CHR ''('') ValueError
    (case extract_loop 1 None (drop (Suc start_index) s) of
       None \<Rightarrow> Inl ValueError
     | Some (inner, rest) \<Rightarrow> Inr (inner, length s - length rest)))"

text \<open>The \<^verbatim>\<open>escapes\<close> table.\<close>

definition unescape :: "char \<Rightarrow> char" where
  "unescape c =
    (if c = CHR ''0'' then CHR 0x00 else if c = CHR ''b'' then CHR 0x08
     else if c = CHR ''n'' then CHR 0x0A else if c = CHR ''r'' then CHR 0x0D
     else if c = CHR ''t'' then CHR 0x09 else if c = CHR ''Z'' then CHR 0x1A else c)"

text \<open>The inner loop of \<^verbatim>\<open>_parse_enum_values\<close>: the characters of one literal and what is left.\<close>

fun read_enum_literal :: "char \<Rightarrow> string \<Rightarrow> string \<times> string" where
  "read_enum_literal q [] = ([], [])"
| "read_enum_literal q (c # s) =
    (if q \<in> set escaping_quotes \<and> c = bslash then
       (case s of
          d # t \<Rightarrow> apfst ((#) (unescape d)) (read_enum_literal q t)
        | [] \<Rightarrow> ([bslash], []))
     else if c = q then
       (case s of
          d # t \<Rightarrow> if d = q then apfst ((#) q) (read_enum_literal q t) else ([], s)
        | [] \<Rightarrow> ([], []))
     else apfst ((#) c) (read_enum_literal q s))"

declare read_enum_literal.simps(2) [simp del] extract_loop.simps(2) [simp del]

lemma read_enum_literal_length: "length (snd (read_enum_literal q s)) \<le> length s"
proof (induction "length s" arbitrary: s rule: less_induct)
  case less
  show ?case
  proof (cases s)
    case (Cons c t)
    have "length (snd (read_enum_literal q u)) \<le> length u" if "length u < length s" for u
      using less that by simp
    from this[of t] this[of "tl t"] Cons show ?thesis
      by (cases t) (simp_all add: read_enum_literal.simps(2)[of q c])
  qed simp
qed

lemma length_lstrip: "length (lstrip s) \<le> length s"
  by (simp add: lstrip_def length_dropWhile_le)

function parse_enum_values :: "string \<Rightarrow> string list res" where
  "parse_enum_values s =
    (case lstrip s of
       [] \<Rightarrow> Inr []
     | q # s1 \<Rightarrow>
         raise_if (q \<notin> set allowed_quotes) ValueError
         (case read_enum_literal q s1 of (val, s2) \<Rightarrow>
            (case lstrip s2 of
               [] \<Rightarrow> Inr [val]
             | c # s3 \<Rightarrow>
                 if c = CHR '','' then bindE (parse_enum_values s3) (\<lambda>values. Inr (val # values))
                 else Inl ValueError)))"
  by pat_completeness auto
termination
proof (relation "measure length", goal_cases)
  case (2 s q s1 val s2 c s3)
  have "length s3 < length (lstrip s2)" using 2 by simp
  also have "\<dots> \<le> length s2" by (rule length_lstrip)
  also have "\<dots> \<le> length s1" using read_enum_literal_length[of q s1] 2 by (metis snd_conv)
  also have "\<dots> < length (lstrip s)" using 2 by simp
  also have "\<dots> \<le> length s" by (rule length_lstrip)
  finally show ?case by simp
qed simp

declare parse_enum_values.simps [simp del]

definition parse_mysql_enum :: "string \<Rightarrow> string list res" where
  "parse_mysql_enum enum_definition =
    (let s = strip enum_definition in
     raise_if (lower (take 4 s) \<noteq> ''enum'') ValueError
     (case find_char (CHR ''('') s of
        None \<Rightarrow> Inl ValueError
      | Some pos \<Rightarrow> bindE (extract_parenthesized_content s pos) (\<lambda>(inner, next_index). parse_enum_values inner)))"

definition is_enum_type :: "string \<Rightarrow> bool" where
  "is_enum_type field_type = startswith (lower field_type) ''enum(''"

section \<open>enum/utils.py\<close>

text \<open>
  The loop of \<^verbatim>\<open>find_enum_definition_end\<close> at position \<^verbatim>\<open>i\<close> with the character before it.
\<close>

fun definition_end_loop :: "nat \<Rightarrow> nat \<Rightarrow> char option \<Rightarrow> char option \<Rightarrow> string \<Rightarrow> nat res" where
  "definition_end_loop i open_parens in_quotes prev [] = Inl ValueError"
| "definition_end_loop i open_parens None prev (c # s) =
    (if c \<in> set allowed_quotes then definition_end_loop (Suc i) open_parens (Some c) (Some c) s
     else if c = CHR ''('' then definition_end_loop (Suc i) (Suc open_parens) None (Some c) s
     else if c = CHR '')'' then
       (if open_parens = 1 then Inr i
        else definition_end_loop (Suc i) (open_parens - 1) None (Some c) s)
     else definition_end_loop (Suc i) open_parens None (Some c) s)"
| "definition_end_loop i open_parens (Some q) prev (c # s) =
    definition_end_loop (Suc i) open_parens
      (if c = q \<and> prev \<noteq> Some (bslash) then None else Some q) (Some c) s"

definition find_enum_definition_end :: "string \<Rightarrow> nat \<Rightarrow> nat res" where
  "find_enum_definition_end t start_pos =
    definition_end_loop start_pos 1 None
      (if 0 < start_pos \<and> start_pos \<le> length t then Some (t ! (start_pos - 1)) else None)
      (drop start_pos t)"

definition is_complete_definition :: "string \<Rightarrow> bool" where
  "is_complete_definition t =
    (0 < count_list t (CHR ''('') \<and> count_list t (CHR ''('') = count_list t (CHR '')''))"

text \<open>The components taken up to and including the first one with a closing parenthesis.\<close>

fun take_until_close :: "string list \<Rightarrow> string list" where
  "take_until_close [] = []"
| "take_until_close (c # cs) = (if CHR '')'' \<in> set c then [c] else c # take_until_close cs)"

definition extract_field_components :: "string \<Rightarrow> string \<times> string \<times> string list" where
  "extract_field_components line =
    (let components = split_char (CHR '' '') line;
         field_name = strip_of [bquote] (hd components) in
     if 1 < length components \<and>
        (startswith (lower (components ! 1)) ''enum('' \<or> startswith (lower (components ! 1)) ''set('') then
       let field_type_components =
             components ! 1 #
             (if is_complete_definition (components ! 1) then [] else take_until_close (drop 2 components))
       in (field_name, join '' '' field_type_components, drop (length field_type_components + 1) components)
     else (field_name, (if 1 < length components then components ! 1 else []), drop 2 components))"

section \<open>enum/ddl\_parser.py\<close>

text \<open>
  The loop of \<^verbatim>\<open>find_enum_or_set_definition_end\<close>. Unlike \<^verbatim>\<open>find_enum_definition_end\<close> it starts
  before the opening parenthesis, so the number of open parentheses may become negative.
\<close>

fun definition_end_pos :: "nat \<Rightarrow> int \<Rightarrow> char option \<Rightarrow> char option \<Rightarrow> string \<Rightarrow> nat option" where
  "definition_end_pos i open_parens in_quotes prev [] = None"
| "definition_end_pos i open_parens in_quotes prev (c # s) =
    (if c \<in> set escaping_quotes \<and> prev \<noteq> Some (bslash) then
       definition_end_pos (Suc i) open_parens
         (case in_quotes of None \<Rightarrow> Some c | Some q \<Rightarrow> if c = q then None else Some q) (Some c) s
     else if c = CHR ''('' \<and> in_quotes = None then
       definition_end_pos (Suc i) (open_parens + 1) in_quotes (Some c) s
     else if c = CHR '')'' \<and> in_quotes = None then
       (if open_parens - 1 = 0 then Some (i + 1)
        else definition_end_pos (Suc i) (open_parens - 1) in_quotes (Some c) s)
     else definition_end_pos (Suc i) open_parens in_quotes (Some c) s)"

text \<open>\<^verbatim>\<open>definition[0] if definition else ""\<close> and the joined rest.\<close>

definition first_and_rest :: "string list \<Rightarrow> string \<times> string" where
  "first_and_rest ws = (case ws of [] \<Rightarrow> ([], []) | w # ws \<Rightarrow> (w, join '' '' ws))"

definition find_enum_or_set_definition_end :: "string \<Rightarrow> int \<times> string \<times> string" where
  "find_enum_or_set_definition_end line =
    (case definition_end_pos 0 0 None None line of
       Some end_pos \<Rightarrow> (int end_pos, take end_pos line, strip (drop end_pos line))
     | None \<Rightarrow> (- 1, first_and_rest (split_ws line)))"

definition starts_enum_or_set :: "string \<Rightarrow> bool" where
  "starts_enum_or_set s = (startswith (lower s) ''enum('' \<or> startswith (lower s) ''set('')"

definition parse_enum_or_set_field :: "string \<Rightarrow> string \<Rightarrow> bool \<Rightarrow> string \<times> string \<times> string" where
  "parse_enum_or_set_field line field_name is_backtick_quoted =
    (if is_backtick_quoted then
       let line = strip line in
       if starts_enum_or_set line then (field_name, snd (find_enum_or_set_definition_end line))
       else (field_name, first_and_rest (split_ws line))
     else
       let definition_words = drop 1 (split_ws line) in
       if definition_words \<noteq> [] \<and> starts_enum_or_set (hd definition_words) then
         (field_name, snd (find_enum_or_set_definition_end (join '' '' definition_words)))
       else (field_name, first_and_rest definition_words))"

definition strip_value :: "string \<Rightarrow> string" where
  "strip_value v =
    (let v = strip v in
     if v \<noteq> [] \<and> hd v \<in> set allowed_quotes then butlast (tl v) else v)"

text \<open>\<^verbatim>\<open>vals[:vals.find(')')]\<close>; \<^verbatim>\<open>find\<close> gives -1 when there is none.\<close>

definition up_to_close :: "string \<Rightarrow> string" where
  "up_to_close vals = (case find_char (CHR '')'') vals of Some i \<Rightarrow> take i vals | None \<Rightarrow> butlast vals)"

definition simple_values :: "string \<Rightarrow> string list" where
  "simple_values vals = map strip_value (split_char (CHR '','') (up_to_close vals))"

definition extract_enum_or_set_values ::
    "string \<Rightarrow> (string \<Rightarrow> string list res) option \<Rightarrow> string list option res" where
  "extract_enum_or_set_values field_type from_parser_func =
    (if startswith (lower field_type) ''enum('' then
       (case from_parser_func of
          Some parser \<Rightarrow> bindE (parser field_type) (\<lambda>vs. Inr (Some vs))
        | None \<Rightarrow> Inr (Some (simple_values (drop 5 field_type))))
     else
       (case find_sub ''set('' (lower field_type) of
          Some i \<Rightarrow> Inr (Some (simple_values (drop (i + 4) field_type)))
        | None \<Rightarrow> Inr None))"

section \<open>enum/converter.py\<close>

definition convert_mysql_to_clickhouse_enum :: "py_val \<Rightarrow> string list \<Rightarrow> py_val" where
  "convert_mysql_to_clickhouse_enum v enum_values =
    (if is_int v then
       (if int_of v = 0 then VInt 0
        else if int_of v < 1 \<or> int_of v > int (length enum_values) then v
        else VStr (lower (enum_values ! nat (int_of v - 1))))
     else
       (case v of
          VStr s \<Rightarrow> if s \<in> set enum_values \<or> lower s \<in> set (map lower enum_values) then VStr (lower s) else v
        | _ \<Rightarrow> v))"

section \<open>Reading back an enum definition\<close>

text \<open>
  How MySQL writes a value in the quotes \<^verbatim>\<open>q\<close>: the quote is doubled and, in quotes that
  know escapes, so is the backslash.
\<close>

definition escape_enum :: "char \<Rightarrow> string \<Rightarrow> string" where
  "escape_enum q v =
    concat (map (\<lambda>c. if c = q \<or> q \<in> set escaping_quotes \<and> c = bslash then [c, c] else [c]) v)"

definition enum_literal :: "char \<times> string \<Rightarrow> string" where
  "enum_literal l = (case l of (q, v) \<Rightarrow> q # escape_enum q v @ [q])"

lemma quote_not_backslash: "q \<in> set allowed_quotes \<Longrightarrow> q \<noteq> bslash"
  by (auto simp: allowed_quotes_def)

lemma escaping_allowed: "q \<in> set escaping_quotes \<Longrightarrow> q \<in> set allowed_quotes"
  by (auto simp: escaping_quotes_def allowed_quotes_def)

lemma escape_enum_simps [simp]:
  "escape_enum q [] = []"
  "escape_enum q (c # v) =
    (if c = q \<or> q \<in> set escaping_quotes \<and> c = bslash then c # c # escape_enum q v else c # escape_enum q v)"
  by (simp_all add: escape_enum_def)

lemma unescape_backslash [simp]: "unescape (bslash) = bslash"
  by (simp add: unescape_def)

lemma read_enum_literal_escape:
  assumes "q \<in> set allowed_quotes" and "s = [] \<or> hd s \<noteq> q"
  shows "read_enum_literal q (escape_enum q v @ q # s) = (v, s)"
proof (induction v)
  case Nil
  with assms show ?case
    by (cases s) (simp_all add: read_enum_literal.simps(2)[of q q] quote_not_backslash)
next
  case (Cons c v)
  with assms show ?case
    by (simp add: read_enum_literal.simps(2)[of q c] quote_not_backslash)
qed

lemma extract_loop_escape:
  assumes "q \<in> set allowed_quotes" and "s = [] \<or> hd s \<noteq> q"
  shows "extract_loop d (Some q) (escape_enum q v @ q # s) =
    map_option (apfst (\<lambda>x. escape_enum q v @ q # x)) (extract_loop d None s)"
proof (induction v)
  case Nil
  with assms show ?case
    by (cases s) (simp_all add: extract_loop.simps(2)[of d q q] quote_not_backslash)
next
  case (Cons c v)
  with assms show ?case
    by (simp add: extract_loop.simps(2)[of d q c] quote_not_backslash option.map_comp comp_def
        apfst_def map_prod_def case_prod_beta')
qed

lemma extract_loop_neutral:
  assumes "\<forall>c \<in> set u. c \<notin> set allowed_quotes \<and> c \<noteq> CHR ''('' \<and> c \<noteq> CHR '')''"
  shows "extract_loop d None (u @ s) = map_option (apfst ((@) u)) (extract_loop d None s)"
  using assms
  by (induction u)
    (simp_all add: option.map_comp comp_def apfst_def map_prod_def case_prod_beta' option.map_id0[unfolded id_def])

lemma extract_loop_literal:
  assumes "q \<in> set allowed_quotes" and "s = [] \<or> hd s \<noteq> q"
  shows "extract_loop d None (enum_literal (q, v) @ s) =
    map_option (apfst ((@) (enum_literal (q, v)))) (extract_loop d None s)"
  using assms by (simp add: enum_literal_def extract_loop_escape option.map_comp comp_def
      apfst_def map_prod_def case_prod_beta')

text \<open>A separator: a comma and white space.\<close>

definition enum_separator :: "string \<Rightarrow> bool" where
  "enum_separator sep = (\<exists>ws. sep = CHR '','' # ws \<and> list_all is_space ws)"

lemma space_neutral:
  "is_space c \<Longrightarrow> c \<notin> set allowed_quotes \<and> c \<noteq> CHR ''('' \<and> c \<noteq> CHR '')''"
  by (auto simp: is_space_def code_def allowed_quotes_def)

lemma comma_neutral: "CHR '','' \<notin> set allowed_quotes \<and> CHR '','' \<noteq> CHR ''('' \<and> CHR '','' \<noteq> CHR '')''"
  by (simp add: allowed_quotes_def)

lemma enum_separator_neutral:
  "enum_separator sep \<Longrightarrow> \<forall>c \<in> set sep. c \<notin> set allowed_quotes \<and> c \<noteq> CHR ''('' \<and> c \<noteq> CHR '')''"
  using space_neutral unfolding enum_separator_def list_all_iff
  by (metis (no_types, lifting) comma_neutral set_ConsD)

lemma enum_separator_hd: "enum_separator sep \<Longrightarrow> sep \<noteq> [] \<and> hd sep = CHR '',''"
  by (auto simp: enum_separator_def)

lemma extract_loop_literals:
  assumes "enum_separator sep" and "\<forall>(q, v) \<in> set ls. q \<in> set allowed_quotes"
  shows "extract_loop 1 None (join sep (map enum_literal ls) @ CHR '')'' # rest) =
    Some (join sep (map enum_literal ls), rest)"
  using assms(2)
proof (induction ls)
  case Nil
  then show ?case by (simp add: allowed_quotes_def)
next
  case (Cons l ls)
  obtain q v where l: "l = (q, v)" by fastforce
  with Cons.prems have q: "q \<in> set allowed_quotes" by simp
  have neq: "CHR '')'' \<noteq> q" "CHR '','' \<noteq> q" using q by (auto simp: allowed_quotes_def)
  show ?case
  proof (cases "ls = []")
    case True
    with l q neq show ?thesis by (simp add: extract_loop_literal) (simp add: allowed_quotes_def)
  next
    case False
    have "hd (sep @ u) \<noteq> q" for u using enum_separator_hd[OF assms(1)] neq by simp
    with False l q Cons enum_separator_neutral[OF assms(1)] show ?thesis
      by (simp add: join_Cons extract_loop_literal extract_loop_neutral)
  qed
qed

lemma lstrip_spaces: "list_all is_space ws \<Longrightarrow> lstrip (ws @ s) = lstrip s"
  by (simp add: lstrip_def list_all_iff)

lemma parse_enum_values_lstrip:
  "list_all is_space ws \<Longrightarrow> parse_enum_values (ws @ s) = parse_enum_values s"
  by (simp add: parse_enum_values.simps[of "ws @ s"] parse_enum_values.simps[of s] lstrip_spaces)

lemma lstrip_Cons: "\<not> is_space c \<Longrightarrow> lstrip (c # s) = c # s"
  by (simp add: lstrip_def)

lemma parse_enum_values_literals:
  assumes "enum_separator sep" and "\<forall>(q, v) \<in> set ls. q \<in> set allowed_quotes"
  shows "parse_enum_values (join sep (map enum_literal ls)) = Inr (map snd ls)"
  using assms(2)
proof (induction ls)
  case Nil
  then show ?case by (simp add: parse_enum_values.simps lstrip_def)
next
  case (Cons l ls)
  obtain q v where l: "l = (q, v)" by fastforce
  with Cons.prems have q: "q \<in> set allowed_quotes" by simp
  have neq: "CHR '','' \<noteq> q" "\<not> is_space q" "\<not> is_space (CHR '','')"
    using q by (auto simp: allowed_quotes_def is_space_def code_def)
  obtain ws where ws: "sep = CHR '','' # ws" "list_all is_space ws"
    using assms(1) by (auto simp: enum_separator_def)
  show ?case
  proof (cases "ls = []")
    case True
    with l q neq read_enum_literal_escape[of q "[]"] show ?thesis
      by (simp add: enum_literal_def parse_enum_values.simps lstrip_Cons) (simp add: lstrip_def)
  next
    case False
    with l q neq ws Cons read_enum_literal_escape[of q "CHR '','' # u" for u] show ?thesis
      by (simp add: join_Cons enum_literal_def parse_enum_values.simps[of "q # s" for s] lstrip_Cons
          parse_enum_values_lstrip)
  qed
qed

lemma strip_enum:
  assumes "lower p = ''enum''"
  shows "strip (p @ u @ CHR '')'' # rest) = p @ u @ CHR '')'' # rstrip rest"
proof -
  obtain c p' where p: "p = c # p'" and c: "to_lower c = CHR ''e''"
    using assms by (cases p) (auto simp: lower_def)
  have "\<not> is_space c" using c is_space_to_lower[of c] by (simp add: is_space_def code_def)
  moreover have "\<not> is_space (CHR '')'')" by (simp add: is_space_def code_def)
  ultimately show ?thesis
    by (simp add: strip_def p lstrip_def rstrip_def dropWhile_append)
qed

lemma enum_prefix:
  assumes "lower p = ''enum''"
  shows "CHR ''('' \<notin> set p" and "length p = 4"
proof -
  show "CHR ''('' \<notin> set p"
  proof
    assume "CHR ''('' \<in> set p"
    then have "to_lower (CHR ''('') \<in> set (lower p)" by (simp add: lower_def)
    with assms show False by (simp add: to_lower_def is_upper_def code_def)
  qed
  show "length p = 4" using arg_cong[OF assms, of length] by simp
qed



section \<open>Converting enum values\<close>

text \<open>A MySQL enum value converts to the same ClickHouse value whether the binlog delivers it
  as its 1-based index or as its name, in any letter case: both give the lower-case name that
  stands at that number in the enum, and every value that is not an index or name of the enum
  is passed through unchanged.\<close>

theorem enum_index_and_name_agree:
  assumes "i < length vs"
  shows "convert_mysql_to_clickhouse_enum (VInt (int i + 1)) vs = VStr (lower (vs ! i))
    \<and> (\<forall>s. lower s = lower (vs ! i) \<longrightarrow> convert_mysql_to_clickhouse_enum (VStr s) vs = VStr (lower (vs ! i)))
    \<and> (\<forall>s. lower s \<notin> set (map lower vs) \<longrightarrow> convert_mysql_to_clickhouse_enum (VStr s) vs = VStr s)
    \<and> (\<forall>k. k < 0 \<or> int (length vs) < k \<longrightarrow> convert_mysql_to_clickhouse_enum (VInt k) vs = VInt k)"
  using assms by (auto simp: convert_mysql_to_clickhouse_enum_def)

theorem enum_index_and_name_agree_witness:
  "convert_mysql_to_clickhouse_enum (VInt 2) [''Red'', ''Green''] = VStr ''green''
    \<and> convert_mysql_to_clickhouse_enum (VStr ''GREEN'') [''Red'', ''Green''] = VStr ''green''"
proof -
  have "lower ''Green'' = ''green''" "lower ''GREEN'' = ''green''" by code_simp+
  then show ?thesis using enum_index_and_name_agree[of 1 "[''Red'', ''Green'']"] by simp
qed

end
