(* ===== verification/SqlText.thy ===== *)
theory SqlText
  imports PyStr
begin

text \<open>
  The text processing under the SQL conversion of \<^verbatim>\<open>converter.py\<close>: names and their quotes,
  splitting a list at the top level, removing COMMENT clauses from a CREATE TABLE statement,
  and the tokens of an ALTER clause. Loops over an index are recursions over the rest of the
  text together with the character before it.
\<close>

section \<open>Names\<close>

definition strip_sql_name :: "string \<Rightarrow> string" where
  "strip_sql_name n =
    (let n = strip n;
         n = (if startswith n [bquote] then tl n else n)
     in if endswith n [bquote] then butlast n else n)"

section \<open>Splitting at the top level\<close>

text \<open>A quote toggles the quoting unless the character before it is a backslash.\<close>

definition toggles :: "char option \<Rightarrow> char \<Rightarrow> bool" where
  "toggles prev c = (c = squote \<and> prev \<noteq> Some bslash)"

definition next_depth :: "bool \<Rightarrow> char \<Rightarrow> int \<Rightarrow> int" where
  "next_depth in_quotes c depth =
    (if in_quotes then depth
     else if c = CHR ''('' then depth + 1
     else if c = CHR '')'' then depth - 1 else depth)"

definition add_segment :: "string \<Rightarrow> string list \<Rightarrow> string list" where
  "add_segment seg segs = (if strip seg = [] then segs else strip seg # segs)"

text \<open>The loop of \<^verbatim>\<open>split_high_level\<close>, with the current segment in order.\<close>

fun split_loop :: "char \<Rightarrow> string \<Rightarrow> int \<Rightarrow> bool \<Rightarrow> char option \<Rightarrow> string \<Rightarrow> string list" where
  "split_loop delimiter seg depth in_quotes prev [] = add_segment seg []"
| "split_loop delimiter seg depth in_quotes prev (c # s) =
    (if toggles prev c then split_loop delimiter (seg @ [c]) depth (\<not> in_quotes) (Some c) s
     else
       let depth' = next_depth in_quotes c depth in
       if c = delimiter \<and> depth' = 0 \<and> \<not> in_quotes then
         add_segment seg (split_loop delimiter [] depth' in_quotes (Some c) s)
       else split_loop delimiter (seg @ [c]) depth' in_quotes (Some c) s)"

definition split_high_level :: "string \<Rightarrow> char \<Rightarrow> string list" where
  "split_high_level s delimiter = (if s = [] then [] else split_loop delimiter [] 0 False None s)"

section \<open>COMMENT clauses\<close>

text \<open>
  The rest of a quoted literal with its closing quote, and what is left behind it; a doubled
  quote belongs to the literal.
\<close>

fun copy_literal :: "char \<Rightarrow> string \<Rightarrow> string \<times> string" where
  "copy_literal q [] = ([], [])"
| "copy_literal q [c] = ([c], [])"
| "copy_literal q (c # d # s) =
    (if c = q then (if d = q then apfst (\<lambda>x. c # d # x) (copy_literal q s) else ([c], d # s))
     else apfst ((#) c) (copy_literal q (d # s)))"

text \<open>The rest of a backquoted identifier.\<close>

fun copy_identifier :: "string \<Rightarrow> string \<times> string" where
  "copy_identifier [] = ([], [])"
| "copy_identifier (c # s) = (if c = bquote then ([c], s) else apfst ((#) c) (copy_identifier s))"

fun skip_literal :: "char \<Rightarrow> string \<Rightarrow> string" where
  "skip_literal q [] = []"
| "skip_literal q [c] = []"
| "skip_literal q (c # d # s) =
    (if c = q then (if d = q then skip_literal q s else d # s) else skip_literal q (d # s))"

text \<open>Behind the word COMMENT: the quote and what follows the quoted text, if one follows.\<close>

definition skip_equals :: "string \<Rightarrow> string" where
  "skip_equals s =
    (let s = lstrip s in
     if startswith s ''='' then lstrip (tl s) else s)"

definition comment_clause :: "string \<Rightarrow> (char \<times> string) option" where
  "comment_clause s =
    (case skip_equals s of
       q # t \<Rightarrow> if q = dquote \<or> q = squote then Some (q, skip_literal q t) else None
     | [] \<Rightarrow> None)"

definition at_comment :: "char option \<Rightarrow> string \<Rightarrow> bool" where
  "at_comment prev s =
    (upper (take 7 s) = ''COMMENT''
     \<and> (case prev of None \<Rightarrow> True | Some p \<Rightarrow> \<not> is_alnum p)
     \<and> (case drop 7 s of [] \<Rightarrow> True | c # _ \<Rightarrow> \<not> is_alnum c))"

lemma copy_literal_length: "length (snd (copy_literal q s)) \<le> length s"
  by (induction q s rule: copy_literal.induct) auto

lemma copy_identifier_length: "length (snd (copy_identifier s)) \<le> length s"
  by (induction s) auto

lemma skip_literal_length: "length (skip_literal q s) \<le> length s"
  by (induction q s rule: skip_literal.induct) auto

lemma length_lstrip_le: "length (lstrip s) \<le> length s"
  by (simp add: lstrip_def length_dropWhile_le)

lemma skip_equals_length: "length (skip_equals s) \<le> length s"
proof -
  have "length (lstrip (tl (lstrip s))) \<le> length s"
    using length_lstrip_le[of "tl (lstrip s)"] length_lstrip_le[of s] by simp
  then show ?thesis using length_lstrip_le[of s] by (simp add: skip_equals_def Let_def)
qed

lemma comment_clause_length: "comment_clause s = Some (q, r) \<Longrightarrow> length r \<le> length s"
  using skip_literal_length[of q "tl (skip_equals s)"] skip_equals_length[of s]
  by (auto simp: comment_clause_def split: list.splits if_splits)

function strip_comments_loop :: "char option \<Rightarrow> string \<Rightarrow> string" where
  "strip_comments_loop prev [] = []"
| "strip_comments_loop prev (c # s) =
    (if c = squote \<or> c = dquote then
       c # fst (copy_literal c s) @ strip_comments_loop (Some c) (snd (copy_literal c s))
     else if c = bquote then
       c # fst (copy_identifier s) @ strip_comments_loop (Some c) (snd (copy_identifier s))
     else if at_comment prev (c # s) then
       (case comment_clause (drop 6 s) of
          Some (q, r) \<Rightarrow> strip_comments_loop (Some q) r
        | None \<Rightarrow> c # strip_comments_loop (Some c) s)
     else c # strip_comments_loop (Some c) s)"
  by pat_completeness auto
termination
  by (relation "measure (length \<circ> snd)")
    (auto simp: copy_literal_length copy_identifier_length le_imp_less_Suc dest!: comment_clause_length)

declare strip_comments_loop.simps(2) [simp del]

definition strip_comments :: "string \<Rightarrow> string" where
  "strip_comments create_statement = strip_comments_loop None create_statement"

section \<open>Tokens of an ALTER clause\<close>

text \<open>\<^verbatim>\<open>(?:\([^)]*\))?\<close>: an optional parenthesised part.\<close>

definition match_parens :: "string \<Rightarrow> string" where
  "match_parens s =
    (if startswith s ''('' \<and> CHR '')'' \<in> set s
     then takeWhile (\<lambda>c. c \<noteq> CHR '')'') s @ '')'' else [])"

definition match_backquoted :: "string \<Rightarrow> string option" where
  "match_backquoted s =
    (if startswith s [bquote] then
       let n = takeWhile (\<lambda>c. c \<noteq> bquote) (tl s);
           r = drop (length n) (tl s) in
       if n \<noteq> [] \<and> r \<noteq> [] then Some ((bquote # n) @ bquote # match_parens (tl r)) else None
     else None)"

definition match_word :: "string \<Rightarrow> string option" where
  "match_word s =
    (let w = takeWhile is_word_char s in
     if w = [] then None else Some (w @ match_parens (drop (length w) s)))"

text \<open>
  \<^verbatim>\<open>(?:\\q|[^q])*q\<close> behind an opening quote \<^verbatim>\<open>q\<close>, with the preferences of the regular
  expression engine: a backslash and a quote are taken together when a match follows.
\<close>

fun match_quoted_rest :: "char \<Rightarrow> string \<Rightarrow> string option" where
  "match_quoted_rest q [] = None"
| "match_quoted_rest q [c] = (if c = q then Some [c] else None)"
| "match_quoted_rest q (c # d # s) =
    (if c = bslash \<and> d = q then
       (case match_quoted_rest q s of
          Some m \<Rightarrow> Some (c # d # m)
        | None \<Rightarrow> map_option ((#) c) (match_quoted_rest q (d # s)))
     else if c = q then Some [c]
     else map_option ((#) c) (match_quoted_rest q (d # s)))"

definition match_quoted :: "char \<Rightarrow> string \<Rightarrow> string option" where
  "match_quoted q s = (if startswith s [q] then map_option ((#) q) (match_quoted_rest q (tl s)) else None)"

text \<open>The first alternative of \<^verbatim>\<open>token_pattern\<close> that matches at a character that is no white space.\<close>

definition match_token :: "string \<Rightarrow> string" where
  "match_token s =
    (case match_backquoted s of Some t \<Rightarrow> t | None \<Rightarrow>
     (case match_word s of Some t \<Rightarrow> t | None \<Rightarrow>
      (case match_quoted squote s of Some t \<Rightarrow> t | None \<Rightarrow>
       (case match_quoted dquote s of Some t \<Rightarrow> t | None \<Rightarrow>
        takeWhile (\<lambda>c. \<not> is_space c) s))))"

text \<open>\<^verbatim>\<open>token_pattern.findall\<close>.\<close>

function find_tokens :: "string \<Rightarrow> string list" where
  "find_tokens s =
    (case lstrip s of
       [] \<Rightarrow> []
     | c # t \<Rightarrow> (let m = match_token (c # t) in m # find_tokens (drop (max 1 (length m)) (c # t))))"
  by pat_completeness auto
termination
proof (relation "measure length", goal_cases)
  case (2 s c t m)
  have "length (c # t) \<le> length s" using length_lstrip_le[of s] 2 by simp
  then show ?case by simp
qed simp

declare find_tokens.simps [simp del]

definition constraint_keywords :: "string list" where
  "constraint_keywords =
    [''DEFAULT'', ''NOT'', ''NULL'', ''AUTO_INCREMENT'', ''PRIMARY'', ''UNIQUE'',
     ''COMMENT'', ''COLLATE'', ''REFERENCES'', ''ON'', ''CHECK'', ''CONSTRAINT'',
     ''AFTER'', ''BEFORE'', ''GENERATED'', ''VIRTUAL'', ''STORED'', ''FIRST'',
     ''ALWAYS'', ''AS'', ''IDENTITY'', ''INVISIBLE'', ''PERSISTED'']"

text \<open>The merging of the tokens that belong to the type.\<close>

definition is_type_token :: "string \<Rightarrow> bool" where
  "is_type_token t = (upper t \<notin> set constraint_keywords)"

definition merge_type :: "string list \<Rightarrow> string list" where
  "merge_type tokens =
    (case tokens of
       [] \<Rightarrow> []
     | column_name # rest \<Rightarrow>
         let type_tokens = takeWhile is_type_token rest;
             param_tokens = dropWhile is_type_token rest;
             merged_type = join '' '' type_tokens in
         if merged_type \<noteq> [] then [column_name, merged_type] @ param_tokens
         else column_name # param_tokens)"

definition tokenize_alter_query :: "string \<Rightarrow> string list" where
  "tokenize_alter_query sql_line = merge_type (find_tokens sql_line)"

section \<open>Splitting undoes joining\<close>

text \<open>
  A text that can stand as one segment: its quotes and parentheses are closed and it has no
  delimiter outside of them.
\<close>

fun closed_from :: "char \<Rightarrow> int \<Rightarrow> bool \<Rightarrow> char option \<Rightarrow> string \<Rightarrow> bool" where
  "closed_from delimiter depth in_quotes prev [] = (depth = 0 \<and> \<not> in_quotes)"
| "closed_from delimiter depth in_quotes prev (c # s) =
    (if toggles prev c then closed_from delimiter depth (\<not> in_quotes) (Some c) s
     else
       let depth' = next_depth in_quotes c depth in
       \<not> (c = delimiter \<and> depth' = 0 \<and> \<not> in_quotes)
       \<and> closed_from delimiter depth' in_quotes (Some c) s)"

definition plain_delimiter :: "char \<Rightarrow> bool" where
  "plain_delimiter d = (d \<notin> {squote, bslash, CHR ''('', CHR '')''})"

lemma split_loop_closed:
  assumes "closed_from d depth in_quotes prev s"
  shows "split_loop d seg depth in_quotes prev s = add_segment (seg @ s) []"
  using assms by (induction s arbitrary: seg depth in_quotes prev) (auto simp: Let_def split: if_splits)

lemma split_loop_delimiter:
  assumes "closed_from d depth in_quotes prev s" and "plain_delimiter d"
  shows "split_loop d seg depth in_quotes prev (s @ d # t) =
    add_segment (seg @ s) (split_loop d [] 0 False (Some d) t)"
  using assms
  by (induction s arbitrary: seg depth in_quotes prev)
    (auto simp: Let_def toggles_def next_depth_def plain_delimiter_def split: if_splits)

lemma split_loop_prev:
  "prev \<noteq> Some bslash \<Longrightarrow> split_loop d seg depth in_quotes prev s = split_loop d seg depth in_quotes None s"
  by (cases s) (simp_all add: toggles_def)

lemma closed_from_prev:
  "prev \<noteq> Some bslash \<Longrightarrow> closed_from d depth in_quotes prev s = closed_from d depth in_quotes None s"
  by (cases s) (simp_all add: toggles_def)

lemma split_loop_join:
  assumes "plain_delimiter d" and "\<forall>s \<in> set ss. closed_from d 0 False None s" and "ss \<noteq> []"
  shows "split_loop d [] 0 False None (join [d] ss) = filter (\<lambda>s. s \<noteq> []) (map strip ss)"
  using assms(2,3)
proof (induction ss)
  case (Cons s ss)
  show ?case
  proof (cases "ss = []")
    case True
    with Cons.prems show ?thesis by (simp add: split_loop_closed add_segment_def)
  next
    case False
    have "split_loop d [] 0 False (Some d) (join [d] ss) = filter (\<lambda>s. s \<noteq> []) (map strip ss)"
      using Cons False assms(1) by (subst split_loop_prev) (auto simp: plain_delimiter_def)
    with Cons.prems False assms(1) show ?thesis
      by (simp add: join_Cons split_loop_delimiter add_segment_def)
  qed
qed simp

text \<open>split_high_level undoes joining: for texts whose quotes and parentheses are closed and
  that have the delimiter only inside of them, splitting their concatenation with delimiters
  gives back exactly these texts, stripped, in order, with blank ones left out.\<close>

theorem split_high_level_join:
  assumes "plain_delimiter d" and "\<forall>s \<in> set ss. closed_from d 0 False None s"
  shows "split_high_level (join [d] ss) d = filter (\<lambda>s. s \<noteq> []) (map strip ss)"
proof (cases "ss = [] \<or> join [d] ss = []")
  case True
  then have "ss = [] \<or> ss = [[]]" by (cases ss; cases "tl ss") (auto simp: join_Cons)
  then show ?thesis by (auto simp: split_high_level_def strip_def lstrip_def rstrip_def)
next
  case False
  with split_loop_join[OF assms] show ?thesis by (simp add: split_high_level_def)
qed

theorem split_high_level_join_witness:
  "split_high_level (join '','' [''a dec(5,2)'', ''b set('' @ [squote] @ '',('' @ [squote] @ '')'', ''  '', '' c int'']) (CHR '','') =
   [''a dec(5,2)'', ''b set('' @ [squote] @ '',('' @ [squote] @ '')'', ''c int'']"
proof -
  have "plain_delimiter (CHR '','')" by code_simp
  moreover have "\<forall>s \<in> set [''a dec(5,2)'', ''b set('' @ [squote] @ '',('' @ [squote] @ '')'', ''  '', '' c int''].
      closed_from (CHR '','') 0 False None s" by code_simp
  moreover have "filter (\<lambda>s. s \<noteq> []) (map strip [''a dec(5,2)'', ''b set('' @ [squote] @ '',('' @ [squote] @ '')'', ''  '', '' c int'']) =
      [''a dec(5,2)'', ''b set('' @ [squote] @ '',('' @ [squote] @ '')'', ''c int'']" by code_simp
  ultimately show ?thesis by (simp only: split_high_level_join)
qed

section \<open>Removing comments removes nothing else\<close>

text \<open>A statement as a sequence of pieces.\<close>

datatype sql_piece =
    Plain string
  | Literal char string
  | Ident string
  | CommentClause string string char string

definition double_quotes :: "char \<Rightarrow> string \<Rightarrow> string" where
  "double_quotes q t = concat (map (\<lambda>c. if c = q then [c, c] else [c]) t)"

fun print_piece :: "sql_piece \<Rightarrow> string" where
  "print_piece (Plain s) = s"
| "print_piece (Literal q t) = q # double_quotes q t @ [q]"
| "print_piece (Ident t) = bquote # t @ [bquote]"
| "print_piece (CommentClause kw mid q t) = kw @ mid @ q # double_quotes q t @ [q]"

definition print_pieces :: "sql_piece list \<Rightarrow> string" where
  "print_pieces ps = concat (map print_piece ps)"

fun is_comment :: "sql_piece \<Rightarrow> bool" where
  "is_comment (CommentClause _ _ _ _) = True"
| "is_comment _ = False"

text \<open>White space around at most one equals sign.\<close>

definition comment_gap :: "string \<Rightarrow> bool" where
  "comment_gap mid = (skip_equals mid = [])"

definition not_starting :: "char \<Rightarrow> string \<Rightarrow> bool" where
  "not_starting q s = (s = [] \<or> hd s \<noteq> q)"

fun starts_plain :: "sql_piece list \<Rightarrow> bool" where
  "starts_plain (Plain _ # _) = True"
| "starts_plain _ = False"

text \<open>
  The pieces print to a statement that reads back as them: a plain piece has no quote and not
  the word COMMENT, a literal is not followed by its own quote, and a clause is not glued to a
  word before it.
\<close>

fun pieces_ok :: "char option \<Rightarrow> sql_piece list \<Rightarrow> bool" where
  "pieces_ok prev [] = True"
| "pieces_ok prev (Plain s # ps) =
    (s \<noteq> [] \<and> (\<forall>c \<in> set s. c \<notin> {squote, dquote, bquote}) \<and> \<not> contains (upper s) ''COMMENT''
     \<and> \<not> starts_plain ps \<and> pieces_ok (Some (last s)) ps)"
| "pieces_ok prev (Literal q t # ps) =
    (q \<in> {squote, dquote} \<and> not_starting q (print_pieces ps) \<and> pieces_ok (Some q) ps)"
| "pieces_ok prev (Ident t # ps) = (bquote \<notin> set t \<and> pieces_ok (Some bquote) ps)"
| "pieces_ok prev (CommentClause kw mid q t # ps) =
    (upper kw = ''COMMENT'' \<and> comment_gap mid \<and> q \<in> {squote, dquote}
     \<and> (case prev of None \<Rightarrow> True | Some p \<Rightarrow> \<not> is_alnum p)
     \<and> not_starting q (print_pieces ps) \<and> pieces_ok (Some q) ps)"

lemma double_quotes_simps [simp]:
  "double_quotes q [] = []"
  "double_quotes q (c # t) = (if c = q then c # c # double_quotes q t else c # double_quotes q t)"
  by (simp_all add: double_quotes_def)

lemma copy_literal_other: "c \<noteq> q \<Longrightarrow> copy_literal q (c # s) = apfst ((#) c) (copy_literal q s)"
  by (cases s) simp_all

lemma skip_literal_other: "c \<noteq> q \<Longrightarrow> skip_literal q (c # s) = skip_literal q s"
  by (cases s) simp_all

lemma copy_literal_double:
  "not_starting q r \<Longrightarrow> copy_literal q (double_quotes q t @ q # r) = (double_quotes q t @ [q], r)"
  by (induction t; cases r) (auto simp: not_starting_def copy_literal_other)

lemma skip_literal_double: "not_starting q r \<Longrightarrow> skip_literal q (double_quotes q t @ q # r) = r"
  by (induction t; cases r) (auto simp: not_starting_def skip_literal_other)

lemma copy_identifier_append: "bquote \<notin> set t \<Longrightarrow> copy_identifier (t @ bquote # r) = (t @ [bquote], r)"
  by (induction t) auto

lemma quotes_no_space: "q \<in> {squote, dquote} \<Longrightarrow> \<not> is_space q \<and> q \<noteq> CHR ''='' \<and> \<not> is_alnum q"
  by (auto simp: is_space_def code_def is_alnum_def is_digit_def is_upper_def is_lower_def)

lemma lstrip_append: "lstrip (u @ v) = (if lstrip u = [] then lstrip v else lstrip u @ v)"
  by (simp add: lstrip_def dropWhile_append)

lemma skip_equals_gap:
  assumes "comment_gap mid" and "q \<in> {squote, dquote}"
  shows "skip_equals (mid @ q # r) = q # r"
proof (cases "lstrip mid")
  case Nil
  with assms(2) quotes_no_space[of q] show ?thesis
    by (auto simp: skip_equals_def lstrip_append) (simp_all add: lstrip_def)
next
  case (Cons c m)
  with assms(1) have "c = CHR ''=''" "lstrip m = []"
    by (auto simp: comment_gap_def skip_equals_def Let_def split: if_splits)
  with Cons assms(2) quotes_no_space[of q] show ?thesis
    by (auto simp: skip_equals_def lstrip_append) (simp_all add: lstrip_def)
qed

lemma gap_hd_not_alnum:
  assumes "comment_gap (c # mid)"
  shows "\<not> is_alnum c"
proof (cases "is_space c")
  case True
  then show ?thesis
    by (auto simp: is_space_def is_alnum_def is_digit_def is_upper_def is_lower_def)
next
  case False
  with assms have "c = CHR ''=''"
    by (auto simp: comment_gap_def skip_equals_def lstrip_def Let_def split: if_splits)
  then show ?thesis by (simp add: is_alnum_def is_digit_def is_upper_def is_lower_def code_def)
qed

lemma upper_append: "upper (u @ v) = upper u @ upper v"
  by (simp add: upper_def)

lemma length_upper [simp]: "length (upper s) = length s"
  by (simp add: upper_def)

lemma to_upper_letter: "is_upper (to_upper c) \<Longrightarrow> is_alnum c"
  by (auto simp: to_upper_def is_alnum_def split: if_splits)

lemma COMMENT_upper: "\<forall>c \<in> set ''COMMENT''. is_upper c"
  by (simp add: is_upper_def code_def)

lemma upper_COMMENT_alnum:
  assumes "upper s = ''COMMENT''" and "c \<in> set s"
  shows "is_alnum c"
proof -
  have "to_upper c \<in> set ''COMMENT''" using assms(2) unfolding assms(1)[symmetric] by (simp add: upper_def)
  then show ?thesis using COMMENT_upper to_upper_letter by blast
qed

lemma no_COMMENT_window:
  assumes "\<not> contains (upper u) ''COMMENT''" and "u \<noteq> []"
    and "r = [] \<or> \<not> is_alnum (hd r) \<or> \<not> is_alnum (last u)"
  shows "upper (take 7 (u @ r)) \<noteq> ''COMMENT''"
proof
  assume eq: "upper (take 7 (u @ r)) = ''COMMENT''"
  show False
  proof (cases "7 \<le> length u")
    case True
    then have "upper u = [] @ ''COMMENT'' @ upper (drop 7 u)"
      using eq upper_append[of "take 7 u" "drop 7 u"] by simp
    with assms(1) show False unfolding contains_iff by blast
  next
    case False
    have "length (take 7 (u @ r)) = 7" using arg_cong[OF eq, of length] by simp
    with False have r: "r \<noteq> []" by auto
    with False assms(2) have "hd r \<in> set (take 7 (u @ r))" "last u \<in> set (take 7 (u @ r))"
      by (cases r; auto simp: take_Cons' last_in_set)+
    with upper_COMMENT_alnum[OF eq] assms(3) r show False by blast
  qed
qed

lemma contains_Cons: "contains s p \<Longrightarrow> contains (c # s) p"
  by (metis append_Cons contains_iff)

lemma strip_comments_loop_plain:
  assumes "\<forall>c \<in> set u. c \<notin> {squote, dquote, bquote}" and "\<not> contains (upper u) ''COMMENT''" and "u \<noteq> []"
    and "r = [] \<or> \<not> is_alnum (hd r) \<or> \<not> is_alnum (last u)"
  shows "strip_comments_loop prev (u @ r) = u @ strip_comments_loop (Some (last u)) r"
  using assms
proof (induction u arbitrary: prev)
  case (Cons c u)
  have "\<not> at_comment prev (c # u @ r)"
    using no_COMMENT_window[OF Cons.prems(2,3,4)] by (simp add: at_comment_def)
  then have step: "strip_comments_loop prev ((c # u) @ r) = c # strip_comments_loop (Some c) (u @ r)"
    using Cons.prems(1) by (simp add: strip_comments_loop.simps(2))
  have "\<not> contains (upper u) ''COMMENT''"
    using Cons.prems(2) contains_Cons[of "upper u"] by (auto simp: upper_def)
  with step Cons show ?case by (cases "u = []") simp_all
qed simp

lemma strip_comments_loop_clause:
  assumes "upper kw = ''COMMENT''" and "comment_gap mid" and "q \<in> {squote, dquote}"
    and "case prev of None \<Rightarrow> True | Some p \<Rightarrow> \<not> is_alnum p" and "not_starting q r"
  shows "strip_comments_loop prev (kw @ mid @ q # double_quotes q t @ q # r) = strip_comments_loop (Some q) r"
proof -
  have len: "length kw = 7" using arg_cong[OF assms(1), of length] by simp
  then obtain c kw' where kw: "kw = c # kw'" "length kw' = 6" by (cases kw) auto
  have "is_alnum c" using upper_COMMENT_alnum[OF assms(1)] kw by simp
  then have "c \<notin> {squote, dquote, bquote}"
    by (auto simp: is_alnum_def is_digit_def is_upper_def is_lower_def code_def)
  moreover have "at_comment prev (kw @ mid @ q # double_quotes q t @ q # r)"
    using assms len gap_hd_not_alnum quotes_no_space[of q]
    by (cases mid) (auto simp: at_comment_def)
  moreover have "comment_clause (mid @ q # double_quotes q t @ q # r) = Some (q, r)"
    using assms by (auto simp: comment_clause_def skip_equals_gap skip_literal_double)
  ultimately show ?thesis using kw by (simp add: strip_comments_loop.simps(2))
qed

lemma print_pieces_simps [simp]:
  "print_pieces [] = []"
  "print_pieces (p # ps) = print_piece p @ print_pieces ps"
  by (simp_all add: print_pieces_def)

lemma plain_boundary:
  assumes "pieces_ok (Some p) ps" and "\<not> starts_plain ps"
  shows "print_pieces ps = [] \<or> \<not> is_alnum (hd (print_pieces ps)) \<or> \<not> is_alnum p"
proof (cases ps)
  case (Cons x xs)
  with assms show ?thesis using quotes_no_space
    by (cases x) (auto simp: is_alnum_def is_digit_def is_upper_def is_lower_def code_def)
qed simp

lemma strip_comments_loop_pieces:
  "pieces_ok prev ps \<Longrightarrow>
    strip_comments_loop prev (print_pieces ps) = print_pieces (filter (\<lambda>p. \<not> is_comment p) ps)"
proof (induction prev ps rule: pieces_ok.induct)
  case (2 prev s ps)
  then show ?case using plain_boundary[of "last s" ps] by (simp add: strip_comments_loop_plain)
next
  case (3 prev q t ps)
  then show ?case by (simp add: strip_comments_loop.simps(2) copy_literal_double)
next
  case (4 prev t ps)
  then show ?case by (simp add: strip_comments_loop.simps(2) copy_identifier_append)
next
  case (5 prev kw mid q t ps)
  then show ?case using strip_comments_loop_clause[of kw mid q prev "print_pieces ps" t] by simp
qed simp



end
