(* ===== verification/TypeConvert.thy ===== *)
theory TypeConvert
  imports EnumParse TableStructure
begin

text \<open>
  The mapping of MySQL column types to ClickHouse types (\<^verbatim>\<open>convert_type\<close>, \<^verbatim>\<open>convert_field_type\<close>,
  \<^verbatim>\<open>convert_table_structure\<close> of \<^verbatim>\<open>converter.py\<close>) and the default values of ClickHouse types.
\<close>

section \<open>The converter's settings\<close>

text \<open>
  What \<^verbatim>\<open>MysqlToClickhouseConverter\<close> reads from the configuration of its replicator. Without
  a replicator the mapping is empty and the time zone UTC: \<open>default_conv\<close>.
\<close>

record conv =
  conv_types_mapping :: "(string, string) dict"
  conv_timezone :: string

definition default_conv :: conv where
  "default_conv = \<lparr>conv_types_mapping = [], conv_timezone = ''UTC''\<rparr>"

section \<open>Types\<close>

text \<open>The precision behind \<^verbatim>\<open>timestamp\<close>: \<^verbatim>\<open>^timestamp(?:\((\d+)\))?$\<close>, ignoring case.\<close>

definition match_timestamp :: "string \<Rightarrow> string option option" where
  "match_timestamp s =
    (if lower (take 9 s) = ''timestamp'' then
       let r = drop 9 s in
       if r = [] then Some None
       else if startswith r ''('' \<and> endswith r '')'' \<and> digits (butlast (tl r)) then Some (Some (butlast (tl r)))
       else None
     else None)"

definition quoted :: "string \<Rightarrow> string" where
  "quoted s = squote # s @ [squote]"

definition convert_timestamp_to_datetime64 :: "string \<Rightarrow> string \<Rightarrow> string res" where
  "convert_timestamp_to_datetime64 input_str timezone =
    (case match_timestamp (strip input_str) of
       None \<Rightarrow> Inl ValueError
     | Some (Some precision) \<Rightarrow>
         Inr (if timezone = ''UTC'' then ''DateTime64('' @ precision @ '')''
              else ''DateTime64('' @ precision @ '', '' @ quoted timezone @ '')'')
     | Some None \<Rightarrow>
         Inr (if timezone = ''UTC'' then ''DateTime64'' else ''DateTime64(3, '' @ quoted timezone @ '')''))"

text \<open>\<^verbatim>\<open>numeric\((\d+)\s*,\s*(\d+)\)\<close> at the start of a text.\<close>

definition match_numeric :: "string \<Rightarrow> (nat \<times> nat) option" where
  "match_numeric s =
    (if startswith s ''numeric('' then
       let r = drop 8 s;
           d1 = takeWhile is_digit r;
           r1 = lstrip (dropWhile is_digit r);
           r2 = lstrip (tl r1);
           d2 = takeWhile is_digit r2;
           r3 = dropWhile is_digit r2 in
       if d1 \<noteq> [] \<and> startswith r1 '','' \<and> d2 \<noteq> [] \<and> startswith r3 '')''
       then Some (digits_val d1, digits_val d2) else None
     else None)"

text \<open>\<^verbatim>\<open>re.search\<close>: the first position where it matches.\<close>

fun search_numeric :: "string \<Rightarrow> (nat \<times> nat) option" where
  "search_numeric [] = None"
| "search_numeric (c # s) = (case match_numeric (c # s) of Some m \<Rightarrow> Some m | None \<Rightarrow> search_numeric s)"

definition decimal_type :: "nat \<Rightarrow> nat \<Rightarrow> string" where
  "decimal_type precision scale = ''Decimal('' @ str_nat precision @ '', '' @ str_nat scale @ '')''"

definition numeric_type :: "bool \<Rightarrow> nat \<Rightarrow> nat \<Rightarrow> string" where
  "numeric_type is_unsigned precision scale =
    (if scale = 0 then
       (if precision \<le> 9 then (if is_unsigned then ''UInt32'' else ''Int32'')
        else if precision \<le> 18 then (if is_unsigned then ''UInt64'' else ''Int64'')
        else decimal_type precision scale)
     else decimal_type precision scale)"

definition convert_numeric :: "string \<Rightarrow> bool \<Rightarrow> string res" where
  "convert_numeric mysql_type is_unsigned =
    (if CHR ''('' \<in> set mysql_type \<and> CHR '')'' \<in> set mysql_type then
       (case search_numeric mysql_type of
          None \<Rightarrow> Inl ValueError
        | Some (precision, scale) \<Rightarrow> Inr (numeric_type is_unsigned precision scale))
     else Inr (numeric_type is_unsigned 10 0))"

definition signed_type :: "bool \<Rightarrow> string \<Rightarrow> string" where
  "signed_type is_unsigned ty = (if is_unsigned then ''U'' @ ty else ty)"

text \<open>The members of \<^verbatim>\<open>Enum8(...)\<close>: lower-case names numbered from 1.\<close>

fun enum_members :: "nat \<Rightarrow> string list \<Rightarrow> string list" where
  "enum_members idx [] = []"
| "enum_members idx (v # vs) = (quoted (lower v) @ '' = '' @ str_nat (idx + 1)) # enum_members (Suc idx) vs"

definition enum_type :: "string list \<Rightarrow> string" where
  "enum_type enum_values =
    (if length enum_values \<le> 127 then ''Enum8('' else ''Enum16('')
     @ join '', '' (enum_members 0 enum_values) @ '')''"

text \<open>The types given by a part of the name, in the order of the tests of the code.\<close>

definition convert_type_tail :: "conv \<Rightarrow> string \<Rightarrow> bool \<Rightarrow> string res" where
  "convert_type_tail cv t u =
    (if contains t ''text'' then Inr ''String''
     else if contains t ''blob'' then Inr ''String''
     else if contains t ''char'' then Inr ''String''
     else if contains t ''json'' then Inr ''String''
     else if contains t ''decimal'' then Inr ''Float64''
     else if contains t ''float'' then Inr ''Float32''
     else if contains t ''double'' then Inr ''Float64''
     else if contains t ''bigint'' then Inr (signed_type u ''Int64'')
     else if contains t ''integer'' \<or> contains t ''int('' then Inr (signed_type u ''Int32'')
     else if contains t ''real'' then Inr ''Float64''
     else if startswith t ''timestamp'' then convert_timestamp_to_datetime64 t (conv_timezone cv)
     else if startswith t ''time'' then Inr ''String''
     else if contains t ''varbinary'' then Inr ''String''
     else if contains t ''binary'' then Inr ''String''
     else if contains t ''set('' then Inr ''String''
     else if t = ''year'' then Inr ''UInt16''
     else Inl (PyException (''unknown mysql type '' @ t)))"

definition convert_type_middle :: "conv \<Rightarrow> string \<Rightarrow> bool \<Rightarrow> string res" where
  "convert_type_middle cv t u =
    (if contains t ''smallint'' then Inr (signed_type u ''Int16'')
     else if contains t ''tinyint'' then Inr (signed_type u ''Int8'')
     else if contains t ''mediumint'' then Inr (signed_type u ''Int32'')
     else if contains t ''datetime'' then Inr (replace_sub ''datetime'' ''DateTime64'' t)
     else if contains t ''longtext'' then Inr ''String''
     else if contains t ''varchar'' then Inr ''String''
     else if startswith t ''enum'' then bindE (parse_mysql_enum t) (\<lambda>vs. Inr (enum_type vs))
     else convert_type_tail cv t u)"

definition convert_type_exact :: "conv \<Rightarrow> string \<Rightarrow> bool \<Rightarrow> string res" where
  "convert_type_exact cv t u =
    (if t = ''int'' then Inr (signed_type u ''Int32'')
     else if t = ''integer'' then Inr (signed_type u ''Int32'')
     else if t = ''bigint'' then Inr (signed_type u ''Int64'')
     else if t = ''double'' then Inr ''Float64''
     else if t = ''real'' then Inr ''Float64''
     else if t = ''float'' then Inr ''Float32''
     else if t = ''date'' then Inr ''Date32''
     else if t = ''tinyint(1)'' then Inr ''Bool''
     else if t = ''bit(1)'' then Inr ''Bool''
     else if t = ''bool'' \<or> t = ''boolean'' then Inr ''Bool''
     else convert_type_middle cv t u)"

definition convert_type :: "conv \<Rightarrow> string \<Rightarrow> string \<Rightarrow> string res" where
  "convert_type cv mysql_type params =
    (let is_unsigned = contains (lower params) ''unsigned'' in
     case map_of (conv_types_mapping cv) mysql_type of
       Some result_type \<Rightarrow> Inr result_type
     | None \<Rightarrow>
        if mysql_type = ''point'' then Inr ''Tuple(x Float32, y Float32)''
        else if mysql_type = ''polygon'' then Inr ''Array(Tuple(x Float32, y Float32))''
        else if mysql_type = ''multipolygon'' then Inr ''Array(Array(Tuple(x Float32, y Float32)))''
        else if startswith mysql_type ''numeric'' then convert_numeric mysql_type is_unsigned
        else convert_type_exact cv mysql_type is_unsigned)"

definition convert_field_type :: "conv \<Rightarrow> string \<Rightarrow> string \<Rightarrow> string res" where
  "convert_field_type cv mysql_type mysql_parameters =
    bindE (convert_type cv (lower mysql_type) (lower mysql_parameters)) (\<lambda>clickhouse_type.
      Inr (if contains (lower mysql_parameters) ''not null'' \<or> contains clickhouse_type ''Tuple''
           then clickhouse_type else ''Nullable('' @ clickhouse_type @ '')''))"

definition convert_field :: "conv \<Rightarrow> table_field \<Rightarrow> table_field res" where
  "convert_field cv f =
    bindE (convert_field_type cv (field_type f) (parameters f)) (\<lambda>ty. Inr (new_field (name f) ty))"

definition convert_table_structure :: "conv \<Rightarrow> table_structure \<Rightarrow> table_structure res" where
  "convert_table_structure cv mysql_structure =
    bindE (mapE (convert_field cv) (table_fields mysql_structure)) (\<lambda>fs.
      preprocess (new_structure\<lparr>table_name := table_name mysql_structure,
        if_not_exists := if_not_exists mysql_structure,
        table_fields := fs, primary_keys := primary_keys mysql_structure\<rparr>))"

section \<open>Default values\<close>

text \<open>\<^verbatim>\<open>Enum\d+\('([^']+)'\<close>: the first member.\<close>

definition match_enum_head :: "string \<Rightarrow> string option" where
  "match_enum_head s =
    (if startswith s ''Enum'' then
       let r = drop 4 s;
           r1 = dropWhile is_digit r;
           m = takeWhile (\<lambda>c. c \<noteq> squote) (drop 2 r1) in
       if takeWhile is_digit r \<noteq> [] \<and> startswith r1 (''('' @ [squote]) \<and> m \<noteq> [] \<and> drop (length m + 2) r1 \<noteq> []
       then Some m else None
     else None)"

fun search_enum_head :: "string \<Rightarrow> string option" where
  "search_enum_head [] = None"
| "search_enum_head (c # s) = (case match_enum_head (c # s) of Some m \<Rightarrow> Some m | None \<Rightarrow> search_enum_head s)"

definition int_types :: "string list" where
  "int_types = [''int8'', ''int16'', ''int32'', ''int64'', ''int128'', ''int256'',
    ''uint8'', ''uint16'', ''uint32'', ''uint64'', ''uint128'', ''uint256'']"

definition get_default_value_for_type :: "string \<Rightarrow> string" where
  "get_default_value_for_type ch_type =
    (let t = strip (lower ch_type) in
     if t \<in> set int_types then ''0''
     else if t \<in> {''float32'', ''float64''} then ''0.0''
     else if t = ''decimal'' then ''0''
     else if t \<in> {''string'', ''fixedstring''} then quoted []
     else if t = ''date'' then quoted ''1970-01-01''
     else if startswith t ''datetime'' then quoted ''1970-01-01 00:00:00''
     else if startswith t ''date32'' then quoted ''1970-01-01''
     else if t = ''uuid'' then quoted ''00000000-0000-0000-0000-000000000000''
     else if t = ''ipv4'' then quoted ''0.0.0.0''
     else if t = ''ipv6'' then quoted ''::''
     else if t = ''bool'' then ''false''
     else if startswith t ''array'' then ''[]''
     else if startswith t ''tuple'' then ''()''
     else if startswith t ''map'' then ''{}''
     else if startswith t ''enum'' then
       (case search_enum_head ch_type of Some m \<Rightarrow> quoted m | None \<Rightarrow> quoted [])
     else quoted [])"

definition get_default_value_for_type_python :: "string \<Rightarrow> py_val" where
  "get_default_value_for_type_python ch_type =
    (let t = strip (lower ch_type) in
     if t \<in> set int_types then VInt 0
     else if t \<in> {''float32'', ''float64''} then VFloat 0
     else if t = ''decimal'' then VInt 0
     else if t \<in> {''string'', ''fixedstring''} then VStr []
     else if t = ''date'' then VDate 1970 1 1
     else if startswith t ''datetime'' then VDateTime 1970 1 1 0 0 0 0
     else if startswith t ''date32'' then VDate 1970 1 1
     else if t = ''uuid'' then VStr ''00000000-0000-0000-0000-000000000000''
     else if t = ''ipv4'' then VStr ''0.0.0.0''
     else if t = ''ipv6'' then VStr ''::''
     else if t = ''bool'' then VBool False
     else if startswith t ''array'' then VList []
     else if startswith t ''tuple'' then VTuple []
     else if startswith t ''map'' then VDict []
     else if startswith t ''enum'' then
       (case search_enum_head ch_type of Some m \<Rightarrow> VStr m | None \<Rightarrow> VStr [])
     else VStr [])"

section \<open>Structures\<close>

lemma convert_field_Inr:
  "convert_field cv f = Inr g \<longleftrightarrow>
    (\<exists>ty. convert_field_type cv (field_type f) (parameters f) = Inr ty \<and> g = new_field (name f) ty)"
  by (auto simp: convert_field_def res_simps)

lemma convert_fields_names: "mapE (convert_field cv) fs = Inr gs \<Longrightarrow> map name gs = map name fs"
  by (induction fs arbitrary: gs) (auto simp: res_simps convert_field_Inr new_field_def)

lemma convert_fields_total:
  "(\<exists>gs. mapE (convert_field cv) fs = Inr gs) \<longleftrightarrow>
    (\<forall>f \<in> set fs. \<exists>ty. convert_field_type cv (field_type f) (parameters f) = Inr ty)"
proof (induction fs)
  case (Cons f fs)
  then show ?case by (auto simp: res_simps convert_field_Inr)
qed simp

lemma convert_table_structure_Inr:
  assumes "convert_table_structure cv m = Inr c"
  obtains fs where "mapE (convert_field cv) (table_fields m) = Inr fs"
    and "table_fields c = fs" and "primary_keys c = primary_keys m" and "table_name c = table_name m"
    and "if_not_exists c = if_not_exists m" and "preprocess c = Inr c" and "ts_wf c"
    and "field_names c = field_names m"
proof -
  obtain fs where fs: "mapE (convert_field cv) (table_fields m) = Inr fs"
    and c: "preprocess (new_structure\<lparr>table_name := table_name m, if_not_exists := if_not_exists m,
        table_fields := fs, primary_keys := primary_keys m\<rparr>) = Inr c"
    using assms by (auto simp: convert_table_structure_def res_simps)
  have "field_names c = field_names m" "preprocess c = Inr c"
    using c convert_fields_names[OF fs] by (auto simp: field_names_def preprocess_def res_simps)
  then show ?thesis using that[OF fs] c preprocess_wf[OF c] by (auto simp: preprocess_def res_simps)
qed

lemma convert_table_structure_ok_iff:
  "(\<exists>c. convert_table_structure cv m = Inr c) \<longleftrightarrow>
    (\<forall>f \<in> set (table_fields m). \<exists>ty. convert_field_type cv (field_type f) (parameters f) = Inr ty)
    \<and> set (primary_keys m) \<subseteq> set (field_names m)"
proof -
  have "(\<exists>c. preprocess (new_structure\<lparr>table_name := table_name m, if_not_exists := if_not_exists m,
        table_fields := fs, primary_keys := primary_keys m\<rparr>) = Inr c)
      \<longleftrightarrow> set (primary_keys m) \<subseteq> set (field_names m)"
    if "mapE (convert_field cv) (table_fields m) = Inr fs" for fs
    using convert_fields_names[OF that] by (simp add: preprocess_ok_iff field_names_def)
  then show ?thesis
    unfolding convert_fields_total[symmetric] convert_table_structure_def by (auto simp: res_simps)
qed

lemma preprocess_ids_eq:
  assumes "preprocess c = Inr c" and "preprocess m = Inr m"
    and "field_names c = field_names m" and "primary_keys c = primary_keys m"
  shows "primary_key_ids c = primary_key_ids m"
proof -
  obtain ids where ids: "mapE (index_of (field_names m)) (primary_keys m) = Inr ids"
    using assms(2) by (auto simp: preprocess_def res_simps)
  have "c = c\<lparr>primary_key_ids := Some ids\<rparr>" "m = m\<lparr>primary_key_ids := Some ids\<rparr>"
    using assms ids by (simp_all add: preprocess_def)
  then show ?thesis by (metis table_structure.select_convs(3) table_structure.surjective table_structure.update_convs(3))
qed

text \<open>C23. The ClickHouse structure of a table mirrors the MySQL one. The conversion succeeds
  exactly when every column type converts and every key column exists; the result then has the
  same column names in the same order, the same primary key (at the same positions), the same
  table name and IF NOT EXISTS flag, and every column has the type its MySQL type and
  parameters convert to.\<close>

theorem convert_table_structure_mirrors:
  "((\<exists>c. convert_table_structure cv m = Inr c) \<longleftrightarrow>
     (\<forall>f \<in> set (table_fields m). \<exists>ty. convert_field_type cv (field_type f) (parameters f) = Inr ty)
     \<and> set (primary_keys m) \<subseteq> set (field_names m))
   \<and> (\<forall>c. convert_table_structure cv m = Inr c \<longrightarrow>
        field_names c = field_names m \<and> primary_keys c = primary_keys m
        \<and> table_name c = table_name m \<and> if_not_exists c = if_not_exists m \<and> ts_wf c
        \<and> (preprocess m = Inr m \<longrightarrow> primary_key_ids c = primary_key_ids m)
        \<and> (\<forall>i < length (table_fields m).
            convert_field_type cv (field_type (table_fields m ! i)) (parameters (table_fields m ! i))
              = Inr (field_type (table_fields c ! i))))"
proof (intro conjI allI impI)
  fix c assume "convert_table_structure cv m = Inr c"
  then obtain fs where fs: "mapE (convert_field cv) (table_fields m) = Inr fs" "table_fields c = fs"
    and rest: "primary_keys c = primary_keys m" "table_name c = table_name m"
      "if_not_exists c = if_not_exists m" "preprocess c = Inr c" "ts_wf c" "field_names c = field_names m"
    by (rule convert_table_structure_Inr)
  show "primary_key_ids c = primary_key_ids m" if "preprocess m = Inr m"
    using preprocess_ids_eq rest that by blast
  show "convert_field_type cv (field_type (table_fields m ! i)) (parameters (table_fields m ! i))
      = Inr (field_type (table_fields c ! i))" if "i < length (table_fields m)" for i
    using mapE_Inr_nth[OF fs(1) that] by (auto simp: convert_field_Inr fs(2) new_field_def)
qed (use convert_table_structure_ok_iff in \<open>auto elim: convert_table_structure_Inr\<close>)

definition sample_table :: table_structure where
  "sample_table = new_structure\<lparr>table_name := ''users'', primary_keys := [''id''], primary_key_ids := Some [0],
     table_fields := [\<lparr>name = ''id'', field_type = ''int'', parameters = ''unsigned not null'', additional_data = None\<rparr>,
       \<lparr>name = ''title'', field_type = ''varchar(20)'', parameters = [], additional_data = None\<rparr>]\<rparr>"

theorem convert_table_structure_mirrors_witness:
  "\<exists>c. convert_table_structure default_conv sample_table = Inr c \<and> field_names c = [''id'', ''title'']
     \<and> map field_type (table_fields c) = [''UInt32'', ''Nullable(String)''] \<and> primary_key_ids c = Some [0]"
proof -
  obtain c where c: "convert_table_structure default_conv sample_table = Inr c"
    and ty: "map field_type (table_fields c) = [''UInt32'', ''Nullable(String)'']" 
  proof -
    have "map_sum (\<lambda>_. ()) (\<lambda>c. map field_type (table_fields c)) (convert_table_structure default_conv sample_table)
      = Inr [''UInt32'', ''Nullable(String)'']" by code_simp
    then show ?thesis using that by (cases "convert_table_structure default_conv sample_table") auto
  qed
  have "preprocess sample_table = Inr sample_table" "field_names sample_table = [''id'', ''title'']"
    by code_simp+
  with convert_table_structure_mirrors[of default_conv sample_table] c ty show ?thesis
    by (auto simp: sample_table_def)
qed

section \<open>Ranges of integer types\<close>

definition int_bits :: "string \<Rightarrow> nat" where
  "int_bits base =
    (if base = ''tinyint'' then 8 else if base = ''smallint'' then 16
     else if base = ''mediumint'' then 24 else if base = ''bigint'' then 64 else 32)"

text \<open>The values of a MySQL integer column and of a ClickHouse integer type.\<close>

definition mysql_int_values :: "string \<Rightarrow> bool \<Rightarrow> int set" where
  "mysql_int_values base u =
    (if u then {0 ..< 2 ^ int_bits base} else {- (2 ^ (int_bits base - 1)) ..< 2 ^ (int_bits base - 1)})"

definition ch_int_values :: "string \<Rightarrow> int set" where
  "ch_int_values ty =
    (if ty = ''Int8'' then {- (2 ^ 7) ..< 2 ^ 7} else if ty = ''Int16'' then {- (2 ^ 15) ..< 2 ^ 15}
     else if ty = ''Int32'' then {- (2 ^ 31) ..< 2 ^ 31} else if ty = ''Int64'' then {- (2 ^ 63) ..< 2 ^ 63}
     else if ty = ''UInt8'' then {0 ..< 2 ^ 8} else if ty = ''UInt16'' then {0 ..< 2 ^ 16}
     else if ty = ''UInt32'' then {0 ..< 2 ^ 32} else if ty = ''UInt64'' then {0 ..< 2 ^ 64} else {})"

definition int_bases :: "string list" where
  "int_bases = [''tinyint'', ''smallint'', ''mediumint'', ''int'', ''integer'', ''bigint'']"

text \<open>A display width: nothing, or a number in parentheses.\<close>

definition display_width :: "string \<Rightarrow> bool" where
  "display_width w = (w = [] \<or> (\<exists>ds. w = ''('' @ ds @ '')'' \<and> digits ds))"

lemma not_contains_width:
  assumes "digits ds" and "is_lower c"
  shows "\<not> contains (ds @ '')'') (c # p)"
proof
  assume "contains (ds @ '')'') (c # p)"
  then obtain u v where e: "ds @ '')'' = u @ (c # p) @ v" unfolding contains_iff by blast
  have "c \<in> set (ds @ '')'')" unfolding e by simp
  with assms show False by (auto simp: digits_def list_all_iff is_lower_def is_digit_def code_def)
qed

definition int_type_of :: "string \<Rightarrow> bool \<Rightarrow> string" where
  "int_type_of base u = signed_type u
    (if base = ''tinyint'' then ''Int8'' else if base = ''smallint'' then ''Int16''
     else if base = ''bigint'' then ''Int64'' else ''Int32'')"

lemma convert_int_plain:
  "base \<in> set int_bases \<Longrightarrow> convert_type_exact cv base u = Inr (int_type_of base u)"
  unfolding int_bases_def list.set insert_iff empty_iff
  by (elim disjE) (simp_all add: convert_type_exact_def convert_type_middle_def int_type_of_def)

lemma convert_int_width:
  assumes "base \<in> set int_bases" and "digits ds" and "base = ''tinyint'' \<longrightarrow> ds \<noteq> ''1''"
  shows "convert_type_exact cv (base @ ''('' @ ds @ '')'') u = Inr (int_type_of base u)"
proof -
  have n: "\<not> contains (ds @ '')'') (c # p)" if "c \<in> set ''stmdlvbcjfi''" for c p
    using that not_contains_width[OF assms(2), of c] by (auto simp: is_lower_def code_def)
  from assms(1,3) show ?thesis
    unfolding int_bases_def list.set insert_iff empty_iff
    by (elim disjE) (simp_all add: n convert_type_exact_def convert_type_middle_def convert_type_tail_def int_type_of_def)
qed



end
