(* ===== verification/Wkb.thy ===== *)
theory Wkb
  imports PyValue
begin

text \<open>
  MySQL's binary geometry values, as \<^verbatim>\<open>parse_mysql_point\<close>, \<^verbatim>\<open>parse_mysql_polygon\<close> and
  \<^verbatim>\<open>parse_mysql_multipolygon\<close> of \<^verbatim>\<open>converter.py\<close> read them. A coordinate is the bit pattern of
  its double. A byte order is \<^const>\<open>True\<close> for little endian.
\<close>

section \<open>Reading\<close>

definition bytes_at :: "byte list \<Rightarrow> nat \<Rightarrow> nat \<Rightarrow> byte list" where
  "bytes_at bs off n = take n (drop off bs)"

definition read_byte_order :: "byte list \<Rightarrow> nat \<Rightarrow> bool res" where
  "read_byte_order bs off =
    bindE (nthE bs off) (\<lambda>b. if b = 0 then Inr False else if b = 1 then Inr True else Inl ValueError)"

definition read_uint :: "bool \<Rightarrow> nat \<Rightarrow> byte list \<Rightarrow> nat \<Rightarrow> nat res" where
  "read_uint le k bs off = (if le then unpack_le k (bytes_at bs off k) else unpack_be k (bytes_at bs off k))"

definition read_double :: "bool \<Rightarrow> byte list \<Rightarrow> nat \<Rightarrow> 64 word res" where
  "read_double le bs off = bindE (read_uint le 8 bs off) (\<lambda>n. Inr (of_nat n))"

type_synonym point = "64 word \<times> 64 word"

definition read_point :: "bool \<Rightarrow> byte list \<Rightarrow> nat \<Rightarrow> point res" where
  "read_point le bs off =
    bindE (read_double le bs off) (\<lambda>x. bindE (read_double le bs (off + 8)) (\<lambda>y. Inr (x, y)))"

text \<open>Byte order and type word at an offset.\<close>

definition read_header :: "nat \<Rightarrow> byte list \<Rightarrow> nat \<Rightarrow> bool res" where
  "read_header wanted bs off =
    bindE (read_byte_order bs off) (\<lambda>le.
    bindE (read_uint le 4 bs (off + 1)) (\<lambda>wkb_type.
    raise_if (wkb_type \<noteq> wanted) ValueError (Inr le)))"

text \<open>The result for NULL is a pair of integer zeros: \<^const>\<open>None\<close>.\<close>

definition parse_mysql_point :: "byte list option \<Rightarrow> point option res" where
  "parse_mysql_point binary =
    (case binary of
       None \<Rightarrow> Inr None
     | Some bs \<Rightarrow>
         if length bs = 21 then
           bindE (read_header 1 bs 0) (\<lambda>le. bindE (read_point le bs 5) (\<lambda>p. Inr (Some p)))
         else if length bs = 25 then
           bindE (read_header 1 bs 4) (\<lambda>le. bindE (read_point le bs 9) (\<lambda>p. Inr (Some p)))
         else Inl ValueError)"

fun read_points :: "bool \<Rightarrow> byte list \<Rightarrow> nat \<Rightarrow> nat \<Rightarrow> point list res" where
  "read_points le bs off 0 = Inr []"
| "read_points le bs off (Suc n) =
    bindE (read_point le bs off) (\<lambda>p. bindE (read_points le bs (off + 16) n) (\<lambda>ps. Inr (p # ps)))"

text \<open>A ring: the number of its points and the points.\<close>

definition read_ring :: "bool \<Rightarrow> byte list \<Rightarrow> nat \<Rightarrow> point list res" where
  "read_ring le bs off = bindE (read_uint le 4 bs off) (\<lambda>n. read_points le bs (off + 4) n)"

definition srid_offset :: "byte list \<Rightarrow> nat" where
  "srid_offset bs = (if length bs > 25 then 4 else 0)"

definition parse_mysql_polygon :: "byte list option \<Rightarrow> point list res" where
  "parse_mysql_polygon binary =
    (case binary of
       None \<Rightarrow> Inr []
     | Some bs \<Rightarrow>
         let off = srid_offset bs in
         bindE (read_header 3 bs off) (\<lambda>le.
         bindE (read_uint le 4 bs (off + 5)) (\<lambda>num_rings.
         if num_rings = 0 then Inr [] else read_ring le bs (off + 9))))"

text \<open>The holes of a polygon are skipped: the offset behind them.\<close>

fun skip_rings :: "bool \<Rightarrow> byte list \<Rightarrow> nat \<Rightarrow> nat \<Rightarrow> nat res" where
  "skip_rings le bs off 0 = Inr off"
| "skip_rings le bs off (Suc k) =
    bindE (read_uint le 4 bs off) (\<lambda>ring_num_points. skip_rings le bs (off + 4 + ring_num_points * 16) k)"

text \<open>One polygon of a multipolygon: its first ring and the offset behind it.\<close>

definition read_polygon :: "byte list \<Rightarrow> nat \<Rightarrow> (point list \<times> nat) res" where
  "read_polygon bs off =
    bindE (read_header 3 bs off) (\<lambda>le.
    bindE (read_uint le 4 bs (off + 5)) (\<lambda>num_rings.
    if num_rings = 0 then Inr ([], off + 9)
    else
      bindE (read_uint le 4 bs (off + 9)) (\<lambda>num_points.
      bindE (read_points le bs (off + 13) num_points) (\<lambda>points.
      bindE (skip_rings le bs (off + 13 + num_points * 16) (num_rings - 1)) (\<lambda>off'.
        Inr (points, off'))))))"

fun read_polygons :: "byte list \<Rightarrow> nat \<Rightarrow> nat \<Rightarrow> point list list res" where
  "read_polygons bs off 0 = Inr []"
| "read_polygons bs off (Suc n) =
    bindE (read_polygon bs off) (\<lambda>(p, off'). bindE (read_polygons bs off' n) (\<lambda>ps. Inr (p # ps)))"

definition parse_mysql_multipolygon :: "byte list option \<Rightarrow> point list list res" where
  "parse_mysql_multipolygon binary =
    (case binary of
       None \<Rightarrow> Inr []
     | Some bs \<Rightarrow>
         let off = srid_offset bs in
         bindE (read_header 6 bs off) (\<lambda>le.
         bindE (read_uint le 4 bs (off + 5)) (\<lambda>num_polygons.
         read_polygons bs (off + 9) num_polygons)))"

section \<open>The format\<close>

text \<open>Well-known binary, as MySQL writes it: the specification the readers are checked against.\<close>

definition enc_uint :: "bool \<Rightarrow> nat \<Rightarrow> nat \<Rightarrow> byte list" where
  "enc_uint le k n = (if le then le_bytes k n else be_bytes k n)"

definition enc_point :: "bool \<Rightarrow> point \<Rightarrow> byte list" where
  "enc_point le p = enc_uint le 8 (unat (fst p)) @ enc_uint le 8 (unat (snd p))"

definition enc_header :: "bool \<Rightarrow> nat \<Rightarrow> byte list" where
  "enc_header le ty = (if le then 1 else 0) # enc_uint le 4 ty"

definition enc_ring :: "bool \<Rightarrow> point list \<Rightarrow> byte list" where
  "enc_ring le ps = enc_uint le 4 (length ps) @ concat (map (enc_point le) ps)"

definition enc_polygon :: "bool \<times> point list list \<Rightarrow> byte list" where
  "enc_polygon p = (case p of (le, rings) \<Rightarrow>
    enc_header le 3 @ enc_uint le 4 (length rings) @ concat (map (enc_ring le) rings))"

definition enc_multipolygon :: "bool \<Rightarrow> (bool \<times> point list list) list \<Rightarrow> byte list" where
  "enc_multipolygon le ps = enc_header le 6 @ enc_uint le 4 (length ps) @ concat (map enc_polygon ps)"

definition outer_ring :: "point list list \<Rightarrow> point list" where
  "outer_ring rings = (case rings of [] \<Rightarrow> [] | r # _ \<Rightarrow> r)"

definition counts_fit :: "point list list \<Rightarrow> bool" where
  "counts_fit rings = (length rings < 2 ^ 32 \<and> list_all (\<lambda>r. length r < 2 ^ 32) rings)"

lemma length_enc_uint [simp]: "length (enc_uint le k n) = k"
  by (simp add: enc_uint_def)

lemma length_enc_point [simp]: "length (enc_point le p) = 16"
  by (simp add: enc_point_def)

lemma length_enc_header [simp]: "length (enc_header le ty) = 5"
  by (simp add: enc_header_def)

lemma length_enc_points [simp]: "length (concat (map (enc_point le) ps)) = length ps * 16"
  by (induction ps) simp_all

lemma length_enc_ring [simp]: "length (enc_ring le ps) = 4 + length ps * 16"
  by (simp add: enc_ring_def)

lemma bytes_at_append: "length u = off \<Longrightarrow> length v = n \<Longrightarrow> bytes_at (u @ v @ w) off n = v"
  by (simp add: bytes_at_def)

lemma read_uint_enc:
  assumes "length u = off" and "n < 2 ^ (8 * k)"
  shows "read_uint le k (u @ enc_uint le k n @ w) off = Inr n"
proof -
  have "bytes_at (u @ enc_uint le k n @ w) off k = enc_uint le k n" using assms(1) by (simp add: bytes_at_append)
  then show ?thesis
    using assms(2) by (cases le) (simp_all add: read_uint_def unpack_le_def unpack_be_def enc_uint_def
        le_nat_le_bytes be_nat_be_bytes pow_256)
qed

lemma read_point_enc:
  assumes "length u = off"
  shows "read_point le (u @ enc_point le p @ w) off = Inr p"
proof -
  obtain x y where p: "p = (x, y)" by fastforce
  have lt: "unat (v :: 64 word) < 2 ^ (8 * 8)" for v using unsigned_less[of v] by simp
  have "read_uint le 8 (u @ enc_uint le 8 (unat x) @ enc_uint le 8 (unat y) @ w) off = Inr (unat x)"
    by (rule read_uint_enc[OF assms lt])
  moreover have "read_uint le 8 ((u @ enc_uint le 8 (unat x)) @ enc_uint le 8 (unat y) @ w) (off + 8) = Inr (unat y)"
    using assms by (intro read_uint_enc lt) simp
  ultimately show ?thesis by (simp add: read_point_def read_double_def enc_point_def p)
qed

lemma read_points_enc:
  assumes "length u = off"
  shows "read_points le (u @ concat (map (enc_point le) ps) @ w) off (length ps) = Inr ps"
  using assms
proof (induction ps arbitrary: u off)
  case (Cons p ps)
  from Cons.IH[of "u @ enc_point le p" "off + 16"] Cons.prems
  show ?case by (simp add: read_point_enc)
qed simp

lemma read_header_enc:
  assumes "length u = off" and "ty < 2 ^ 32"
  shows "read_header ty (u @ enc_header le ty @ w) off = Inr le"
proof -
  have "read_uint le 4 ((u @ [if le then 1 else 0]) @ enc_uint le 4 ty @ w) (off + 1) = Inr ty"
    using assms by (intro read_uint_enc) simp_all
  then show ?thesis
    using assms(1) by (cases le) (simp_all add: read_header_def read_byte_order_def nthE_def enc_header_def nth_append)
qed

lemma skip_rings_enc:
  assumes "length u = off" and "list_all (\<lambda>r. length r < 2 ^ 32) rs"
  shows "skip_rings le (u @ concat (map (enc_ring le) rs) @ w) off (length rs)
    = Inr (off + length (concat (map (enc_ring le) rs)))"
  using assms
proof (induction rs arbitrary: u off)
  case (Cons r rs)
  have "read_uint le 4 (u @ enc_uint le 4 (length r) @ concat (map (enc_point le) r) @ concat (map (enc_ring le) rs) @ w) off
      = Inr (length r)"
    using Cons.prems by (intro read_uint_enc) simp_all
  moreover from Cons.IH[of "u @ enc_ring le r" "off + 4 + length r * 16"] Cons.prems
  have "skip_rings le (u @ enc_ring le r @ concat (map (enc_ring le) rs) @ w) (off + 4 + length r * 16) (length rs)
      = Inr (off + length (concat (map (enc_ring le) (r # rs))))" by (simp add: add.assoc)
  ultimately show ?case by (simp add: enc_ring_def[of le r])
qed simp

lemma read_polygon_enc:
  assumes "length u = off" and "counts_fit rings"
  shows "read_polygon (u @ enc_polygon (le, rings) @ w) off
    = Inr (outer_ring rings, off + length (enc_polygon (le, rings)))"
proof -
  let ?bs = "u @ enc_polygon (le, rings) @ w"
  have head: "read_header 3 ?bs off = Inr le"
    using read_header_enc[OF assms(1), of 3 le] by (simp add: enc_polygon_def)
  have num: "read_uint le 4 ?bs (off + 5) = Inr (length rings)"
    using read_uint_enc[of "u @ enc_header le 3" "off + 5" "length rings" 4 le] assms
    by (simp add: enc_polygon_def counts_fit_def)
  show ?thesis
  proof (cases rings)
    case Nil
    with head num show ?thesis by (simp add: read_polygon_def outer_ring_def enc_polygon_def)
  next
    case (Cons r rs)
    let ?u = "u @ enc_header le 3 @ enc_uint le 4 (length rings)"
    have bs: "?bs = ?u @ enc_uint le 4 (length r) @ concat (map (enc_point le) r) @ concat (map (enc_ring le) rs) @ w"
      by (simp add: enc_polygon_def enc_ring_def[of le r] Cons)
    have fit: "length r < 2 ^ 32" "list_all (\<lambda>r. length r < 2 ^ 32) rs" using assms(2) Cons by (auto simp: counts_fit_def)
    have "read_uint le 4 ?bs (off + 9) = Inr (length r)"
      unfolding bs using fit assms(1) by (intro read_uint_enc) simp_all
    moreover have "read_points le ?bs (off + 13) (length r) = Inr r"
      unfolding bs using assms(1) read_points_enc[of "?u @ enc_uint le 4 (length r)" "off + 13"] by simp
    moreover have "skip_rings le ?bs (off + 13 + length r * 16) (length rs)
        = Inr (off + 13 + length r * 16 + length (concat (map (enc_ring le) rs)))"
      unfolding bs using assms(1) fit(2) skip_rings_enc[of "?u @ enc_ring le r" "off + 13 + length r * 16"]
      by (simp add: enc_ring_def[of le r])
    ultimately show ?thesis
      using head num by (simp add: read_polygon_def outer_ring_def Cons enc_polygon_def)
  qed
qed

lemma read_polygons_enc:
  assumes "length u = off" and "\<forall>(le, rings) \<in> set ps. counts_fit rings"
  shows "read_polygons (u @ concat (map enc_polygon ps)) off (length ps) = Inr (map (outer_ring \<circ> snd) ps)"
  using assms
proof (induction ps arbitrary: u off)
  case (Cons p ps)
  obtain le rings where p: "p = (le, rings)" by fastforce
  from Cons.IH[of "u @ enc_polygon p" "off + length (enc_polygon p)"] Cons.prems p
  show ?case by (auto simp: read_polygon_enc)
qed simp

text \<open>C26. The geometry readers read back what well-known binary says, in either byte order. A
  point is read with and without an SRID in front. A polygon with an SRID gives its outer ring.
  A multipolygon with an SRID gives the outer ring of each of its polygons in order, whatever
  the byte order and the holes of each of them: the holes are skipped exactly.\<close>

theorem geometry_roundtrip:
  assumes "length srid = 4" and "counts_fit rings" and "rings \<noteq> [] \<longrightarrow> hd rings \<noteq> []" and "rings \<noteq> []"
    and "\<forall>(le, rings) \<in> set polygons. counts_fit rings" and "length polygons < 2 ^ 32"
    and "12 < length (concat (map enc_polygon polygons))"
  shows "parse_mysql_point (Some (enc_header le 1 @ enc_point le p)) = Inr (Some p)
    \<and> parse_mysql_point (Some (srid @ enc_header le 1 @ enc_point le p)) = Inr (Some p)
    \<and> parse_mysql_polygon (Some (srid @ enc_polygon (le, rings))) = Inr (hd rings)
    \<and> parse_mysql_multipolygon (Some (srid @ enc_multipolygon le polygons)) = Inr (map (outer_ring \<circ> snd) polygons)"
proof (intro conjI)
  show "parse_mysql_point (Some (enc_header le 1 @ enc_point le p)) = Inr (Some p)"
    using read_header_enc[of "[]" 0 1 le "enc_point le p"] read_point_enc[of "enc_header le 1" 5 le p "[]"]
    by (simp add: parse_mysql_point_def)
  show "parse_mysql_point (Some (srid @ enc_header le 1 @ enc_point le p)) = Inr (Some p)"
    using assms(1) read_header_enc[of srid 4 1 le "enc_point le p"] read_point_enc[of "srid @ enc_header le 1" 9 le p "[]"]
    by (simp add: parse_mysql_point_def)
  obtain r rs where rings: "rings = r # rs" "r \<noteq> []" using assms(3,4) by (cases rings) auto
  have "srid_offset (srid @ enc_polygon (le, rings)) = 4"
    using assms(1) rings by (cases r) (simp_all add: srid_offset_def enc_polygon_def)
  moreover have "read_polygon (srid @ enc_polygon (le, rings)) 4 = Inr (r, 4 + length (enc_polygon (le, rings)))"
    using read_polygon_enc[OF assms(1,2), of le "[]"] rings by (simp add: outer_ring_def)
  ultimately show "parse_mysql_polygon (Some (srid @ enc_polygon (le, rings))) = Inr (hd rings)"
    using rings by (auto simp: parse_mysql_polygon_def read_polygon_def read_ring_def res_simps split: if_splits)
  let ?bs = "srid @ enc_multipolygon le polygons"
  have "srid_offset ?bs = 4" using assms(1,7) by (simp add: srid_offset_def enc_multipolygon_def)
  moreover have "read_header 6 ?bs 4 = Inr le"
    using read_header_enc[OF assms(1), of 6 le] by (simp add: enc_multipolygon_def)
  moreover have "read_uint le 4 ?bs 9 = Inr (length polygons)"
    using read_uint_enc[of "srid @ enc_header le 6" 9 "length polygons" 4 le] assms(1,6) by (simp add: enc_multipolygon_def)
  moreover have "read_polygons ?bs 13 (length polygons) = Inr (map (outer_ring \<circ> snd) polygons)"
    using read_polygons_enc[of "srid @ enc_header le 6 @ enc_uint le 4 (length polygons)" 13 polygons] assms(1,5)
    by (simp add: enc_multipolygon_def)
  ultimately show "parse_mysql_multipolygon (Some ?bs) = Inr (map (outer_ring \<circ> snd) polygons)"
    by (simp add: parse_mysql_multipolygon_def)
qed

theorem geometry_roundtrip_witness:
  "parse_mysql_point (Some (enc_header True 1 @ enc_point True (1, 2))) = Inr (Some (1, 2))
    \<and> parse_mysql_multipolygon (Some ([0, 0, 16, 230] @ enc_multipolygon False
        [(True, [[(1, 2), (3, 4)], [(5, 6)]]), (False, [])])) = Inr [[(1, 2), (3, 4)], []]"
  using geometry_roundtrip[of "[0, 0, 16, 230]" "[[(1, 2)]]" "[(True, [[(1, 2), (3, 4)], [(5, 6)]]), (False, [])]" True "(1, 2)"]
    geometry_roundtrip[of "[0, 0, 16, 230]" "[[(1, 2)]]" "[(True, [[(1, 2), (3, 4)], [(5, 6)]]), (False, [])]" False "(1, 2)"]
  by (simp add: counts_fit_def outer_ring_def enc_polygon_def)

end
