(* ===== verification/AlterPlan.thy ===== *)
theory AlterPlan
  imports SqlText TypeConvert Config ClickhouseApi
begin

text \<open>
  ALTER TABLE of \<^verbatim>\<open>converter.py\<close>: parsing a statement into classified operations, checking the
  whole plan on copies of the table structures, and carrying it out, one ClickHouse command and
  one structure update after the other.

  A structure method that raises leaves the stored structure as it was before that method. (In
  the code \<^verbatim>\<open>preprocess\<close> may raise behind the change of the columns; the exception then ends the
  process and the structures in memory with it.)
\<close>

section \<open>Operations\<close>

datatype AlterOperationCategory = COLUMN_CHANGE | SAFE_NOOP | REQUIRES_RESYNC | UNKNOWN_OPERATION

record AlterOperation =
  category :: AlterOperationCategory
  action :: string
  op_tokens :: "string list"
  op_clause :: string

text \<open>
  What the converter reads of its \<^verbatim>\<open>DbReplicator\<close>. \<^verbatim>\<open>rep_str\<close> is Python's \<^verbatim>\<open>str\<close> on a table name
  of the configuration that is not a text.
\<close>

record db_rep =
  rep_settings :: Settings
  rep_database :: string
  rep_target_database :: string
  rep_str :: "py_val \<Rightarrow> string"

text \<open>What it changes: the structures of the replicator's state, and the ClickHouse client.\<close>

record rep_state =
  tables_structure :: "(string, table_structure \<times> table_structure) dict"
  ch_api :: api

definition rep_target_table_name :: "db_rep \<Rightarrow> string \<Rightarrow> string" where
  "rep_target_table_name rep source_table =
    (case get_target_table_name (rep_settings rep) (rep_database rep) source_table of
       VStr s \<Rightarrow> s | v \<Rightarrow> rep_str rep v)"

section \<open>Parsing\<close>

definition basic_validate_query :: "string \<Rightarrow> string res" where
  "basic_validate_query q =
    (let q = strip q;
         q = (if endswith q '';'' then butlast q else q) in
     raise_if (CHR '';'' \<in> set q) (PyException ''multi-query statement not supported'') (Inr q))"

text \<open>\<^verbatim>\<open>token.split('.')\<close> must give two parts.\<close>

definition split_db_table :: "string \<Rightarrow> string \<Rightarrow> (string \<times> string) res" where
  "split_db_table token db =
    (if CHR ''.'' \<in> set token then
       (case split_char (CHR ''.'') token of [d, t] \<Rightarrow> Inr (d, t) | _ \<Rightarrow> Inl ValueError)
     else Inr (db, token))"

definition get_db_and_table_name :: "db_rep option \<Rightarrow> string \<Rightarrow> string \<Rightarrow> (string \<times> string \<times> bool) res" where
  "get_db_and_table_name r token db =
    bindE (split_db_table token db) (\<lambda>(d, t).
    let d = strip_sql_name d; t = strip_sql_name t in
    case r of
      None \<Rightarrow> Inr (d, t, True)
    | Some rep \<Rightarrow>
        let source = (if CHR ''.'' \<notin> set token \<and> rep_target_database rep = d then rep_database rep else d) in
        bindE (is_database_matches (rep_settings rep) source) (\<lambda>dm.
        bindE (if dm then is_table_matches (rep_settings rep) t else Inr False) (\<lambda>matches_config.
          Inr (if d = rep_database rep then rep_target_database rep else d, t, matches_config))))"

definition starts_with_keyword :: "string \<Rightarrow> string list \<Rightarrow> bool" where
  "starts_with_keyword token keywords =
    (lower token \<in> set keywords \<or> list_ex (\<lambda>k. startswith (lower token) (k @ ''('')) keywords)"

definition is_partition :: "string \<Rightarrow> bool" where
  "is_partition token = (lower token = ''partition'' \<or> startswith (lower token) ''partition('')"

definition classify_add :: "string \<Rightarrow> AlterOperationCategory \<times> string" where
  "classify_add token =
    (if is_partition token then (REQUIRES_RESYNC, ''add'')
     else if lower token = ''primary'' then (SAFE_NOOP, ''add'')
     else if starts_with_keyword token
       [''constraint'', ''index'', ''foreign'', ''unique'', ''key'', ''fulltext'', ''spatial'', ''check'']
     then (SAFE_NOOP, ''add'')
     else if startswith token ''('' then (REQUIRES_RESYNC, ''add'')
     else (COLUMN_CHANGE, ''add_column''))"

definition classify_drop :: "string \<Rightarrow> nat \<Rightarrow> AlterOperationCategory \<times> string" where
  "classify_drop token count =
    (if is_partition token then (REQUIRES_RESYNC, ''drop'')
     else if lower token = ''primary'' then (SAFE_NOOP, ''drop'')
     else if starts_with_keyword token [''constraint'', ''check'', ''index'', ''foreign'', ''unique'', ''key'']
     then (SAFE_NOOP, ''drop'')
     else if count = 1 then (COLUMN_CHANGE, ''drop_column'')
     else (UNKNOWN_OPERATION, ''drop''))"

definition safe_noop_operations :: "string list" where
  "safe_noop_operations =
    [''algorithm'', ''alter'', ''auto_increment'', ''avg_row_length'', ''character'',
     ''checksum'', ''collate'', ''comment'', ''compression'', ''connection'', ''convert'',
     ''data'', ''default'', ''disable'', ''discard'', ''enable'', ''encryption'', ''engine'',
     ''engine_attribute'', ''force'', ''import'', ''index'', ''insert_method'',
     ''key_block_size'', ''lock'', ''max_rows'', ''min_rows'', ''order'', ''pack_keys'',
     ''password'', ''row_format'', ''secondary_engine_attribute'', ''stats_auto_recalc'',
     ''stats_persistent'', ''stats_sample_pages'', ''tablespace'', ''union'', ''with'',
     ''without'']"

definition partition_operations :: "string list" where
  "partition_operations =
    [''analyze'', ''check'', ''coalesce'', ''exchange'', ''optimize'', ''rebuild'',
     ''remove'', ''reorganize'', ''repair'', ''truncate'']"

definition split_inline_value :: "string \<Rightarrow> string list \<Rightarrow> string \<times> string list" where
  "split_inline_value op_name tokens =
    (if CHR ''='' \<in> set op_name
     then (takeWhile (\<lambda>c. c \<noteq> CHR ''='') op_name, tl (dropWhile (\<lambda>c. c \<noteq> CHR ''='') op_name) # tokens)
     else (op_name, tokens))"

definition drop_column_word :: "string \<Rightarrow> string list \<Rightarrow> string list" where
  "drop_column_word op_name tokens =
    (if op_name \<in> {''add'', ''drop'', ''modify'', ''change''} \<and> tokens \<noteq> [] \<and> lower (hd tokens) = ''column''
     then tl tokens else tokens)"

definition classify_alter_operation :: "string \<Rightarrow> string list \<Rightarrow> string \<Rightarrow> AlterOperation" where
  "classify_alter_operation op_name tokens subquery =
    (let (op_name, tokens) = split_inline_value op_name tokens;
         tokens = drop_column_word op_name tokens;
         result = (\<lambda>(c, a) ts. \<lparr>category = c, action = a, op_tokens = ts, op_clause = subquery\<rparr>) in
     if op_name \<in> {''add'', ''drop'', ''modify'', ''change'', ''rename''} \<and> tokens = []
     then result (UNKNOWN_OPERATION, op_name) tokens
     else if op_name = ''add'' then result (classify_add (hd tokens)) tokens
     else if op_name = ''drop'' then result (classify_drop (hd tokens) (length tokens)) tokens
     else if op_name = ''modify'' then result (COLUMN_CHANGE, ''modify_column'') tokens
     else if op_name = ''change'' then result (COLUMN_CHANGE, ''change_column'') tokens
     else if op_name = ''rename'' then
       (if lower (hd tokens) \<in> {''index'', ''key''} then result (SAFE_NOOP, op_name) tokens
        else if lower (hd tokens) = ''column'' then result (COLUMN_CHANGE, ''rename_column'') (tl tokens)
        else result (REQUIRES_RESYNC, op_name) tokens)
     else if op_name \<in> set safe_noop_operations then result (SAFE_NOOP, op_name) tokens
     else if op_name \<in> set partition_operations then result (REQUIRES_RESYNC, op_name) tokens
     else result (UNKNOWN_OPERATION, op_name) tokens)"

definition parse_subquery :: "string \<Rightarrow> AlterOperation res" where
  "parse_subquery subquery =
    (case split_ws (strip subquery) of
       [] \<Rightarrow> Inl (PyException ''empty alter operation'')
     | w # ws \<Rightarrow> Inr (classify_alter_operation (lower w) ws (strip subquery)))"

definition parse_alter_query ::
    "db_rep option \<Rightarrow> string \<Rightarrow> string \<Rightarrow> (string \<times> string \<times> bool \<times> AlterOperation list) res" where
  "parse_alter_query r mysql_query db =
    bindE (basic_validate_query mysql_query) (\<lambda>q.
    let tokens = split_ws q in
    raise_if (length tokens < 4 \<or> lower (tokens ! 0) \<noteq> ''alter'') (PyException ''wrong query'')
    (raise_if (lower (tokens ! 1) \<noteq> ''table'') (PyException ''wrong query'')
    (bindE (get_db_and_table_name r (tokens ! 2) db) (\<lambda>(d, t, matches_config).
       if \<not> matches_config then Inr (d, t, matches_config, [])
       else bindE (mapE parse_subquery (split_high_level (join '' '' (drop 3 tokens)) (CHR '','')))
              (\<lambda>operations. Inr (d, t, matches_config, operations))))))"

section \<open>The clauses\<close>

record add_column =
  ac_name :: string
  ac_type :: string
  ac_after :: "string option"
  ac_first :: bool
  ac_type_ch :: string

definition wrong_tokens :: py_error where
  "wrong_tokens = PyException ''wrong tokens count''"

text \<open>The trailing \<^verbatim>\<open>AFTER c\<close> or \<^verbatim>\<open>FIRST\<close>, and the tokens before it.\<close>

definition split_position :: "string list \<Rightarrow> string option \<times> bool \<times> string list" where
  "split_position tokens =
    (if 2 \<le> length tokens \<and> lower (last (butlast tokens)) = ''after''
     then (Some (strip_sql_name (last tokens)), False, butlast (butlast tokens))
     else if lower (last tokens) = ''first'' then (None, True, butlast tokens)
     else (None, False, tokens))"

definition parse_add_column :: "conv \<Rightarrow> string list \<Rightarrow> add_column res" where
  "parse_add_column cv clause_tokens =
    (let tokens = tokenize_alter_query (join '' '' clause_tokens) in
     raise_if (length tokens < 2) wrong_tokens
     (case split_position tokens of (column_after, column_first, tokens) \<Rightarrow>
        raise_if (length tokens < 2) wrong_tokens
        (bindE (convert_field_type cv (tokens ! 1) (join '' '' (drop 2 tokens))) (\<lambda>ty.
          Inr \<lparr>ac_name = strip_sql_name (hd tokens), ac_type = tokens ! 1, ac_after = column_after,
               ac_first = column_first, ac_type_ch = ty\<rparr>))))"

definition parse_drop_column :: "string list \<Rightarrow> string res" where
  "parse_drop_column tokens = (case tokens of [t] \<Rightarrow> Inr (strip_sql_name t) | _ \<Rightarrow> Inl wrong_tokens)"

text \<open>Name, MySQL type, its parameters, ClickHouse type.\<close>

definition parse_modify_column :: "conv \<Rightarrow> string list \<Rightarrow> (string \<times> string \<times> string \<times> string) res" where
  "parse_modify_column cv clause_tokens =
    (let tokens = tokenize_alter_query (join '' '' clause_tokens) in
     raise_if (length tokens < 2) wrong_tokens
     (bindE (convert_field_type cv (tokens ! 1) (join '' '' (drop 2 tokens))) (\<lambda>ty.
        Inr (strip_sql_name (hd tokens), tokens ! 1, join '' '' (drop 2 tokens), ty))))"

text \<open>Old name, new name, MySQL type, ClickHouse type.\<close>

definition parse_change_column :: "conv \<Rightarrow> string list \<Rightarrow> (string \<times> string \<times> string \<times> string) res" where
  "parse_change_column cv tokens =
    raise_if (length tokens < 3) wrong_tokens
    (let column_tokens = tokenize_alter_query (join '' '' (drop 1 tokens)) in
     raise_if (length column_tokens < 2) wrong_tokens
     (bindE (convert_field_type cv (column_tokens ! 1) (join '' '' (drop 2 column_tokens))) (\<lambda>ty.
        Inr (strip_sql_name (tokens ! 0), strip_sql_name (tokens ! 1), column_tokens ! 1, ty))))"

definition parse_rename_column :: "string list \<Rightarrow> (string \<times> string) res" where
  "parse_rename_column tokens =
    (case tokens of
       [a, b, c] \<Rightarrow> raise_if (lower b \<noteq> ''to'') (PyException ''expected TO keyword in RENAME COLUMN syntax'')
         (Inr (strip_sql_name a, strip_sql_name c))
     | _ \<Rightarrow> Inl (PyException ''wrong tokens count for RENAME COLUMN''))"

definition rename_structure_field :: "table_structure \<Rightarrow> string \<Rightarrow> string \<Rightarrow> table_structure res" where
  "rename_structure_field s old_name new_name =
    (case find_field (table_fields s) old_name of
       None \<Rightarrow> Inl (PyException ''column not found in structure'')
     | Some i \<Rightarrow> preprocess (s\<lparr>table_fields := (table_fields s)[i := (table_fields s ! i)\<lparr>name := new_name\<rparr>],
         primary_keys := map (\<lambda>k. if k = old_name then new_name else k) (primary_keys s)\<rparr>))"

definition get_change_column_current_name ::
    "table_structure \<Rightarrow> table_structure \<Rightarrow> string \<Rightarrow> string \<Rightarrow> string res" where
  "get_change_column_current_name m c old_name new_name =
    (if has_field m old_name \<and> has_field c old_name
        \<and> (old_name = new_name \<or> \<not> has_field m new_name \<and> \<not> has_field c new_name)
     then Inr old_name
     else if old_name \<noteq> new_name \<and> has_field m new_name \<and> has_field c new_name
        \<and> \<not> has_field m old_name \<and> \<not> has_field c old_name
     then Inr new_name
     else Inl (PyException ''inconsistent table structures for column rename''))"

section \<open>Checking the plan\<close>

text \<open>A method applied to the MySQL and then to the ClickHouse structure.\<close>

definition both :: "(table_structure \<Rightarrow> table_structure res) \<Rightarrow> (table_structure \<Rightarrow> table_structure res)
    \<Rightarrow> table_structure \<times> table_structure \<Rightarrow> (table_structure \<times> table_structure) res" where
  "both f g p = bindE (f (fst p)) (\<lambda>m. bindE (g (snd p)) (\<lambda>c. Inr (m, c)))"

definition inconsistent :: py_error where
  "inconsistent = PyException ''inconsistent table structures for column''"

definition rename_both :: "string \<Rightarrow> string \<Rightarrow> table_structure \<times> table_structure
    \<Rightarrow> (table_structure \<times> table_structure) res" where
  "rename_both current_name new_name p =
    (if current_name \<noteq> new_name
     then both (\<lambda>m. rename_structure_field m current_name new_name) (\<lambda>c. rename_structure_field c current_name new_name) p
     else Inr p)"

definition validate_alter_operation ::
    "conv \<Rightarrow> AlterOperation \<Rightarrow> table_structure \<times> table_structure \<Rightarrow> (table_structure \<times> table_structure) res" where
  "validate_alter_operation cv operation p =
    (let tokens = op_tokens operation; m = fst p; c = snd p in
     if action operation = ''add_column'' then
       bindE (parse_add_column cv tokens) (\<lambda>a.
       raise_if (has_field m (ac_name a) \<noteq> has_field c (ac_name a)) inconsistent
       (if has_field m (ac_name a) then Inr p
        else if ac_first a then
          both (\<lambda>m. add_field_first m (new_field (ac_name a) (ac_type a)))
               (\<lambda>c. add_field_first c (new_field (ac_name a) (ac_type_ch a))) p
        else
          bindE (case ac_after a of Some n \<Rightarrow> Inr n
                 | None \<Rightarrow> bindE (lastE (table_fields m)) (\<lambda>f. Inr (name f))) (\<lambda>after.
          both (\<lambda>m. add_field_after m (new_field (ac_name a) (ac_type a)) after)
               (\<lambda>c. add_field_after c (new_field (ac_name a) (ac_type_ch a)) after) p)))
     else if action operation = ''drop_column'' then
       bindE (parse_drop_column tokens) (\<lambda>n.
       raise_if (has_field m n \<noteq> has_field c n) inconsistent
       (if \<not> has_field m n then Inr p
        else both (\<lambda>m. remove_field m n) (\<lambda>c. remove_field c n) p))
     else if action operation = ''modify_column'' then
       bindE (parse_modify_column cv tokens) (\<lambda>(n, ty, params, ty_ch).
       raise_if (\<not> has_field m n \<or> \<not> has_field c n) (PyException ''field not found'')
       (both (\<lambda>m. update_field m (new_field n ty)) (\<lambda>c. update_field c (new_field n ty_ch)) p))
     else if action operation = ''change_column'' then
       bindE (parse_change_column cv tokens) (\<lambda>(old_name, new_name, ty, ty_ch).
       bindE (get_change_column_current_name m c old_name new_name) (\<lambda>current_name.
       bindE (both (\<lambda>m. update_field m (new_field current_name ty))
                   (\<lambda>c. update_field c (new_field current_name ty_ch)) p)
         (rename_both current_name new_name)))
     else if action operation = ''rename_column'' then
       bindE (parse_rename_column tokens) (\<lambda>(old_name, new_name).
       bindE (get_change_column_current_name m c old_name new_name) (\<lambda>current_name.
         rename_both current_name new_name p))
     else Inr p)"

text \<open>Without structures (no replicator) only the clauses are parsed.\<close>

definition parse_alter_operation :: "conv \<Rightarrow> AlterOperation \<Rightarrow> unit res" where
  "parse_alter_operation cv operation =
    (let tokens = op_tokens operation in
     if action operation = ''add_column'' then bindE (parse_add_column cv tokens) (\<lambda>_. Inr ())
     else if action operation = ''drop_column'' then bindE (parse_drop_column tokens) (\<lambda>_. Inr ())
     else if action operation = ''modify_column'' then bindE (parse_modify_column cv tokens) (\<lambda>_. Inr ())
     else if action operation = ''change_column'' then bindE (parse_change_column cv tokens) (\<lambda>_. Inr ())
     else if action operation = ''rename_column'' then bindE (parse_rename_column tokens) (\<lambda>_. Inr ())
     else Inr ())"

definition is_noop :: "AlterOperation \<Rightarrow> bool" where
  "is_noop operation = (category operation = SAFE_NOOP)"

definition simulate_plan :: "conv \<Rightarrow> AlterOperation list \<Rightarrow> table_structure \<times> table_structure
    \<Rightarrow> (table_structure \<times> table_structure) res" where
  "simulate_plan cv operations p =
    foldE (\<lambda>operation p. if is_noop operation then Inr p else validate_alter_operation cv operation p) operations p"

definition validate_alter_plan ::
    "db_rep option \<Rightarrow> conv \<Rightarrow> (string, table_structure \<times> table_structure) dict
      \<Rightarrow> string \<Rightarrow> AlterOperation list \<Rightarrow> unit res" where
  "validate_alter_plan r cv structures table operations =
    (case r of
       None \<Rightarrow> foldE (\<lambda>operation _. if is_noop operation then Inr () else parse_alter_operation cv operation) operations ()
     | Some rep \<Rightarrow>
         (case map_of structures table of
            None \<Rightarrow> Inl (PyException ''table not found in replicator state'')
          | Some p \<Rightarrow> bindE (simulate_plan cv operations p) (\<lambda>_. Inr ())))"

section \<open>Carrying it out\<close>

definition run_command :: "string \<Rightarrow> (rep_state, unit) act" where
  "run_command q s = (case execute_command q (ch_api s) of (r, a) \<Rightarrow> (map_sum id (\<lambda>_. ()) r, s\<lparr>ch_api := a\<rparr>))"

definition get_structures :: "string \<Rightarrow> (rep_state, table_structure \<times> table_structure) act" where
  "get_structures table = liftA (\<lambda>s. dict_get (tables_structure s) table)"

definition put_structures :: "string \<Rightarrow> table_structure \<times> table_structure \<Rightarrow> (rep_state, unit) act" where
  "put_structures table p = modifyA (\<lambda>s. s\<lparr>tables_structure := AList.update table p (tables_structure s)\<rparr>)"

text \<open>A method call on the stored MySQL structure, then one on the stored ClickHouse structure.\<close>

definition update_both :: "string \<Rightarrow> (table_structure \<Rightarrow> table_structure res)
    \<Rightarrow> (table_structure \<Rightarrow> table_structure res) \<Rightarrow> (rep_state, unit) act" where
  "update_both table f g =
    bindA (get_structures table) (\<lambda>p.
    bindA (liftA (\<lambda>_. f (fst p))) (\<lambda>m.
    bindA (put_structures table (m, snd p)) (\<lambda>_.
    bindA (liftA (\<lambda>_. g (snd p))) (\<lambda>c.
    put_structures table (m, c)))))"

definition alter_head :: "db_rep \<Rightarrow> string \<Rightarrow> string \<Rightarrow> rep_state \<Rightarrow> string" where
  "alter_head rep db table s =
    ''ALTER TABLE `'' @ db @ ''`.`'' @ rep_target_table_name rep table @ ''` '' @ get_on_cluster_clause (ch_api s)"

text \<open>The command whose text depends on the cluster clause of the client.\<close>

definition alter_command :: "db_rep \<Rightarrow> string \<Rightarrow> string \<Rightarrow> string \<Rightarrow> (rep_state, unit) act" where
  "alter_command rep db table rest s = run_command (alter_head rep db table s @ rest) s"

definition convert_alter_table_add_column ::
    "db_rep \<Rightarrow> conv \<Rightarrow> string \<Rightarrow> string \<Rightarrow> string list \<Rightarrow> (rep_state, unit) act" where
  "convert_alter_table_add_column rep cv db table tokens =
    bindA (liftA (\<lambda>_. parse_add_column cv tokens)) (\<lambda>a.
    bindA (get_structures table) (\<lambda>(m, c).
    if has_field m (ac_name a) \<and> has_field c (ac_name a) then retA ()
    else
      bindA (liftA (\<lambda>_. if ac_after a = None \<and> \<not> ac_first a
               then bindE (lastE (table_fields m)) (\<lambda>f. Inr (Some (strip_sql_name (name f))))
               else Inr (ac_after a))) (\<lambda>column_after.
      bindA (alter_command rep db table
               ('' ADD COLUMN IF NOT EXISTS `'' @ ac_name a @ ''` '' @ ac_type_ch a
                @ (if ac_first a then '' FIRST''
                   else case column_after of Some n \<Rightarrow> '' AFTER '' @ n | None \<Rightarrow> []))) (\<lambda>_.
      if ac_first a then
        update_both table (\<lambda>m. add_field_first m (new_field (ac_name a) (ac_type a)))
                          (\<lambda>c. add_field_first c (new_field (ac_name a) (ac_type_ch a)))
      else case column_after of
          Some after \<Rightarrow>
            update_both table (\<lambda>m. add_field_after m (new_field (ac_name a) (ac_type a)) after)
                              (\<lambda>c. add_field_after c (new_field (ac_name a) (ac_type_ch a)) after)
        | None \<Rightarrow> raiseA (PyException ''field after not found'')))))"

definition convert_alter_table_drop_column ::
    "db_rep \<Rightarrow> string \<Rightarrow> string \<Rightarrow> string list \<Rightarrow> (rep_state, unit) act" where
  "convert_alter_table_drop_column rep db table tokens =
    bindA (liftA (\<lambda>_. parse_drop_column tokens)) (\<lambda>n.
    bindA (get_structures table) (\<lambda>(m, c).
    if \<not> has_field m n \<and> \<not> has_field c n then retA ()
    else
      bindA (alter_command rep db table ('' DROP COLUMN IF EXISTS `'' @ n @ ''`'')) (\<lambda>_.
      update_both table (\<lambda>m. remove_field m n) (\<lambda>c. remove_field c n))))"

definition inner_type :: "string \<Rightarrow> string" where
  "inner_type ty = (if startswith ty ''Nullable('' then butlast (drop 9 ty) else ty)"

definition default_clause :: "string \<Rightarrow> table_field option \<Rightarrow> string" where
  "default_clause params current_field =
    (if contains (lower params) ''not null'' then
       (case current_field of
          Some f \<Rightarrow> '' DEFAULT '' @ get_default_value_for_type (inner_type (field_type f))
        | None \<Rightarrow> [])
     else [])"

definition convert_alter_table_modify_column ::
    "db_rep \<Rightarrow> conv \<Rightarrow> string \<Rightarrow> string \<Rightarrow> string list \<Rightarrow> (rep_state, unit) act" where
  "convert_alter_table_modify_column rep cv db table tokens =
    bindA (liftA (\<lambda>_. parse_modify_column cv tokens)) (\<lambda>(n, ty, params, ty_ch).
    bindA (get_structures table) (\<lambda>(m, c).
    bindA (alter_command rep db table
             ('' MODIFY COLUMN IF EXISTS `'' @ n @ ''` '' @ ty_ch @ default_clause params (get_field c n))) (\<lambda>_.
    update_both table (\<lambda>m. update_field m (new_field n ty)) (\<lambda>c. update_field c (new_field n ty_ch)))))"

definition rename_command :: "db_rep \<Rightarrow> string \<Rightarrow> string \<Rightarrow> string \<Rightarrow> string \<Rightarrow> (rep_state, unit) act" where
  "rename_command rep db table current_name new_name =
    bindA (alter_command rep db table
             ('' RENAME COLUMN IF EXISTS `'' @ current_name @ ''` TO `'' @ new_name @ ''`'')) (\<lambda>_.
    update_both table (\<lambda>m. rename_structure_field m current_name new_name)
                      (\<lambda>c. rename_structure_field c current_name new_name))"

definition convert_alter_table_change_column ::
    "db_rep \<Rightarrow> conv \<Rightarrow> string \<Rightarrow> string \<Rightarrow> string list \<Rightarrow> (rep_state, unit) act" where
  "convert_alter_table_change_column rep cv db table tokens =
    bindA (liftA (\<lambda>_. parse_change_column cv tokens)) (\<lambda>(old_name, new_name, ty, ty_ch).
    bindA (get_structures table) (\<lambda>(m, c).
    bindA (liftA (\<lambda>_. get_change_column_current_name m c old_name new_name)) (\<lambda>current_name.
    bindA (liftA (\<lambda>_. case get_field c current_name of None \<Rightarrow> Inl AttributeError | Some f \<Rightarrow> Inr (field_type f))) (\<lambda>current_type.
    bindA (if current_type \<noteq> ty_ch then
             bindA (alter_command rep db table ('' MODIFY COLUMN IF EXISTS `'' @ current_name @ ''` '' @ ty_ch)) (\<lambda>_.
             update_both table (\<lambda>m. update_field m (new_field current_name ty))
                               (\<lambda>c. update_field c (new_field current_name ty_ch)))
           else retA ()) (\<lambda>_.
    if current_name \<noteq> new_name then rename_command rep db table current_name new_name else retA ())))))"

definition convert_alter_table_rename_column ::
    "db_rep \<Rightarrow> string \<Rightarrow> string \<Rightarrow> string list \<Rightarrow> (rep_state, unit) act" where
  "convert_alter_table_rename_column rep db table tokens =
    bindA (liftA (\<lambda>_. parse_rename_column tokens)) (\<lambda>(old_name, new_name).
    bindA (liftA (\<lambda>s. Inr (map_of (tables_structure s) table))) (\<lambda>found.
    case found of
      Some (m, c) \<Rightarrow>
        bindA (liftA (\<lambda>_. get_change_column_current_name m c old_name new_name)) (\<lambda>current_name.
        if current_name = new_name then retA () else rename_command rep db table current_name new_name)
    | None \<Rightarrow>
        bindA (alter_command rep db table
                 ('' RENAME COLUMN IF EXISTS `'' @ old_name @ ''` TO `'' @ new_name @ ''`'')) (\<lambda>_.
        raiseA (PyException ''UnboundLocalError''))))"

definition convert_alter_operation ::
    "db_rep option \<Rightarrow> conv \<Rightarrow> string \<Rightarrow> string \<Rightarrow> AlterOperation \<Rightarrow> (rep_state, unit) act" where
  "convert_alter_operation r cv db table operation =
    (if is_noop operation then retA ()
     else case r of
       None \<Rightarrow> liftA (\<lambda>_. parse_alter_operation cv operation)
     | Some rep \<Rightarrow>
        let tokens = op_tokens operation in
        if action operation = ''add_column'' then convert_alter_table_add_column rep cv db table tokens
        else if action operation = ''drop_column'' then convert_alter_table_drop_column rep db table tokens
        else if action operation = ''modify_column'' then convert_alter_table_modify_column rep cv db table tokens
        else if action operation = ''change_column'' then convert_alter_table_change_column rep cv db table tokens
        else if action operation = ''rename_column'' then convert_alter_table_rename_column rep db table tokens
        else retA ())"

definition is_unsupported :: "AlterOperation \<Rightarrow> bool" where
  "is_unsupported operation = (category operation \<in> {REQUIRES_RESYNC, UNKNOWN_OPERATION})"

definition convert_alter_query :: "db_rep option \<Rightarrow> conv \<Rightarrow> string \<Rightarrow> string \<Rightarrow> (rep_state, unit) act" where
  "convert_alter_query r cv mysql_query db =
    bindA (liftA (\<lambda>_. parse_alter_query r mysql_query db)) (\<lambda>(d, t, matches_config, operations).
    if \<not> matches_config then retA ()
    else if list_ex is_unsupported operations then raiseA UnsupportedAlterOperation
    else
      bindA (liftA (\<lambda>s. validate_alter_plan r cv (tables_structure s) t operations)) (\<lambda>_.
      mapA (convert_alter_operation r cv d t) operations))"

section \<open>The plan and its execution\<close>

text \<open>The column names and key of a structure, on which the outcome of its methods depends.\<close>

definition shape :: "table_structure \<Rightarrow> string list \<times> string list" where
  "shape s = (field_names s, primary_keys s)"

lemma shape_has_field: "shape s = shape t \<Longrightarrow> has_field s n = has_field t n"
  by (simp add: has_field_iff shape_def)

lemma preprocess_shape_self: "preprocess s = Inr t \<Longrightarrow> shape t = shape s"
  using preprocess_frame[of s t] by (simp add: shape_def field_names_def)

lemma preprocess_shape:
  assumes "shape s = shape t" and "preprocess s = Inr s'"
  shows "\<exists>t'. preprocess t = Inr t' \<and> shape t' = shape s'"
  using assms preprocess_shape_self preprocess_ok_iff[of s] preprocess_ok_iff[of t]
  by (metis prod.inject shape_def)

text \<open>A command was refused: the error is the one of the last command sent.\<close>

definition command_failed :: "unit res \<Rightarrow> rep_state \<Rightarrow> bool" where
  "command_failed r s = (\<exists>e q a. r = Inl e \<and> execute_command q a = (Inl e, ch_api s))"

text \<open>
  The stored structures are those of \<^verbatim>\<open>s0\<close>, but for the table: there the ClickHouse structure is
  the planned one and the MySQL structure has the planned shape.
\<close>

definition as_planned :: "rep_state \<Rightarrow> string \<Rightarrow> table_structure \<times> table_structure \<Rightarrow> rep_state \<Rightarrow> bool" where
  "as_planned s0 t p s =
    (\<exists>m. shape m = shape (fst p) \<and> map_of (tables_structure s) = (map_of (tables_structure s0))(t \<mapsto> (m, snd p)))"

definition reaches :: "rep_state \<Rightarrow> string \<Rightarrow> table_structure \<times> table_structure \<Rightarrow> (rep_state, unit) act \<Rightarrow> rep_state \<Rightarrow> bool" where
  "reaches s0 t p act s =
    (case act s of (r, s') \<Rightarrow> command_failed r s' \<or> r = Inr () \<and> as_planned s0 t p s')"

lemma reaches_retA: "as_planned s0 t p s \<Longrightarrow> reaches s0 t p (retA ()) s"
  by (simp add: reaches_def retA_def)

lemma bindA_get_structures:
  "bindA (get_structures t) k s =
    (case map_of (tables_structure s) t of None \<Rightarrow> (Inl KeyError, s) | Some p \<Rightarrow> k p s)"
  by (simp add: get_structures_def bindA_liftA dict_get_def split: option.split)

lemmas reaches_unfold = reaches_def bindA_liftA bindA_get_structures retA_def

lemma reaches_bind:
  assumes "reaches s0 t p act s" and "\<And>s'. as_planned s0 t p s' \<Longrightarrow> reaches s0 t p' act' s'"
  shows "reaches s0 t p' (bindA act (\<lambda>_. act')) s"
proof -
  obtain r s1 where r: "act s = (r, s1)" by fastforce
  with assms(1) consider "command_failed r s1" | "r = Inr ()" "as_planned s0 t p s1"
    by (auto simp: reaches_def)
  then show ?thesis
  proof cases
    case 1
    then show ?thesis by (auto simp: reaches_def bindA_def r command_failed_def)
  next
    case 2
    with assms(2)[of s1] show ?thesis by (simp add: reaches_def bindA_def r)
  qed
qed

lemma alter_command_cases:
  obtains s' where "alter_command rep db table rest s = (Inr (), s')" "tables_structure s' = tables_structure s"
  | e s' where "alter_command rep db table rest s = (Inl e, s')" "command_failed (Inl e) s'"
proof -
  obtain r a where e: "execute_command (alter_head rep db table s @ rest) (ch_api s) = (r, a)" by fastforce
  show thesis
  proof (cases r)
    case (Inl x)
    with e have "command_failed (Inl x) (s\<lparr>ch_api := a\<rparr>)" by (auto simp: command_failed_def)
    with e Inl show thesis using that(2) by (simp add: alter_command_def run_command_def)
  next
    case (Inr x)
    with e show thesis using that(1) by (simp add: alter_command_def run_command_def)
  qed
qed

lemma reaches_command:
  assumes "\<And>s'. tables_structure s' = tables_structure s \<Longrightarrow> reaches s0 t p act s'"
  shows "reaches s0 t p (bindA (alter_command rep db table rest) (\<lambda>_. act)) s"
  by (rule alter_command_cases[of rep db table rest s])
    (use assms in \<open>auto simp: reaches_def bindA_def command_failed_def\<close>)

text \<open>
  The contract of a structure method: what it makes of the shape depends on the shape alone.
  Every method of the plan has it, so a plan checked on a copy goes through on the stored
  structures.
\<close>

locale shape_method =
  fixes f :: "table_structure \<Rightarrow> table_structure res"
  assumes shape_cong: "shape s = shape t \<Longrightarrow> f s = Inr s' \<Longrightarrow> \<exists>t'. f t = Inr t' \<and> shape t' = shape s'"
begin

lemma update_both_reaches:
  assumes "as_planned s0 t p s" and "both f g p = Inr p'"
  shows "reaches s0 t p' (update_both t f g) s"
proof -
  obtain m c where p: "p = (m, c)" by fastforce
  from assms(2) obtain m' c' where p': "p' = (m', c')" "f m = Inr m'" "g c = Inr c'"
    by (auto simp: both_def p res_simps)
  obtain ma where ma: "shape ma = shape m" "map_of (tables_structure s) = (map_of (tables_structure s0))(t \<mapsto> (ma, c))"
    using assms(1) by (auto simp: as_planned_def p)
  obtain ma' where "f ma = Inr ma'" "shape ma' = shape m'" using shape_cong[OF ma(1)[symmetric] p'(2)] by blast
  with ma p' show ?thesis
    by (auto simp: reaches_def update_both_def get_structures_def put_structures_def act_simps dict_get_def as_planned_def)
qed

lemma command_update_reaches:
  assumes "as_planned s0 t p s" and "both f g p = Inr p'"
  shows "reaches s0 t p' (bindA (alter_command rep db t q) (\<lambda>_. update_both t f g)) s"
proof (rule reaches_command)
  fix s' :: rep_state assume "tables_structure s' = tables_structure s"
  with assms(1) have "as_planned s0 t p s'" by (simp add: as_planned_def)
  then show "reaches s0 t p' (update_both t f g) s'" using assms(2) by (rule update_both_reaches)
qed

end

lemma find_field_shape: "map name fs = map name gs \<Longrightarrow> find_field fs n = find_field gs n"
  by (simp add: find_field_index_of)

lemma pos_after_last_shape:
  "map name fs = map name gs \<Longrightarrow> pos_after_last fs a i r = pos_after_last gs a i r"
proof (induction fs arbitrary: gs i r)
  case (Cons f fs)
  then obtain g gs' where "gs = g # gs'" "name g = name f" "map name fs = map name gs'"
    by (cases gs) auto
  with Cons.IH show ?case by simp
qed simp

interpretation add_first: shape_method "\<lambda>s. add_field_first s f" for f
proof
  fix s t s' assume a: "shape s = shape t" "add_field_first s f = Inr s'"
  have "shape (s\<lparr>table_fields := f # table_fields s\<rparr>) = shape (t\<lparr>table_fields := f # table_fields t\<rparr>)"
    using a(1) by (simp add: shape_def field_names_def)
  from preprocess_shape[OF this] a(2) show "\<exists>t'. add_field_first t f = Inr t' \<and> shape t' = shape s'"
    by (simp add: add_field_first_def)
qed

interpretation add_after: shape_method "\<lambda>s. add_field_after s f a" for f a
proof
  fix s t s' assume h: "shape s = shape t" "add_field_after s f a = Inr s'"
  then have n: "map name (table_fields s) = map name (table_fields t)" by (simp add: shape_def field_names_def)
  from h(2) obtain i where i: "pos_after_last (table_fields s) a 0 None = Some i"
    "preprocess (s\<lparr>table_fields := take i (table_fields s) @ f # drop i (table_fields s)\<rparr>) = Inr s'"
    by (auto simp: add_field_after_def split: option.splits)
  have "shape (s\<lparr>table_fields := take i (table_fields s) @ f # drop i (table_fields s)\<rparr>)
      = shape (t\<lparr>table_fields := take i (table_fields t) @ f # drop i (table_fields t)\<rparr>)"
    using h(1) n by (simp add: shape_def field_names_def flip: take_map drop_map)
  from preprocess_shape[OF this i(2)] i(1) show "\<exists>t'. add_field_after t f a = Inr t' \<and> shape t' = shape s'"
    by (simp add: add_field_after_def pos_after_last_shape[OF n])
qed

interpretation remove: shape_method "\<lambda>s. remove_field s n" for n
proof
  fix s t s' assume h: "shape s = shape t" "remove_field s n = Inr s'"
  then have n: "map name (table_fields s) = map name (table_fields t)" by (simp add: shape_def field_names_def)
  from h(2) obtain i where i: "find_field (table_fields s) n = Some i"
    "preprocess (s\<lparr>table_fields := take i (table_fields s) @ drop (Suc i) (table_fields s)\<rparr>) = Inr s'"
    by (auto simp: remove_field_def split: option.splits)
  have "shape (s\<lparr>table_fields := take i (table_fields s) @ drop (Suc i) (table_fields s)\<rparr>)
      = shape (t\<lparr>table_fields := take i (table_fields t) @ drop (Suc i) (table_fields t)\<rparr>)"
    using h(1) n by (simp add: shape_def field_names_def flip: take_map drop_map)
  from preprocess_shape[OF this i(2)] i(1) show "\<exists>t'. remove_field t n = Inr t' \<and> shape t' = shape s'"
    by (simp add: remove_field_def find_field_shape[OF n])
qed

lemma update_field_shape: "update_field s f = Inr t \<Longrightarrow> shape t = shape s"
  using update_field_names by (simp add: shape_def)

interpretation update: shape_method "\<lambda>s. update_field s f" for f
proof
  fix s t s' assume h: "shape s = shape t" "update_field s f = Inr s'"
  then have "find_field (table_fields t) (name f) = find_field (table_fields s) (name f)"
    by (metis find_field_shape field_names_def prod.inject shape_def)
  with h(2) obtain t' where "update_field t f = Inr t'" by (auto simp: update_field_def split: option.splits)
  with h update_field_shape show "\<exists>t'. update_field t f = Inr t' \<and> shape t' = shape s'" by metis
qed

interpretation rename: shape_method "\<lambda>s. rename_structure_field s a b" for a b
proof
  fix s t s' assume h: "shape s = shape t" "rename_structure_field s a b = Inr s'"
  then have n: "map name (table_fields s) = map name (table_fields t)" by (simp add: shape_def field_names_def)
  let ?ren = "\<lambda>s i. s\<lparr>table_fields := (table_fields s)[i := (table_fields s ! i)\<lparr>name := b\<rparr>],
      primary_keys := map (\<lambda>k. if k = a then b else k) (primary_keys s)\<rparr>"
  from h(2) obtain i where i: "find_field (table_fields s) a = Some i" "preprocess (?ren s i) = Inr s'"
    by (auto simp: rename_structure_field_def split: option.splits)
  have "shape (?ren s i) = shape (?ren t i)"
    using h(1) n by (simp add: shape_def field_names_def map_update)
  from preprocess_shape[OF this i(2)] i(1) show "\<exists>t'. rename_structure_field t a b = Inr t' \<and> shape t' = shape s'"
    by (simp add: rename_structure_field_def find_field_shape[OF n])
qed

text \<open>
  The fields of a ClickHouse structure have a name and a type and nothing else, as
  \<^verbatim>\<open>convert_table_structure\<close> and the plan make them.
\<close>

definition plain_fields :: "table_structure \<Rightarrow> bool" where
  "plain_fields s = list_all (\<lambda>f. f = new_field (name f) (field_type f)) (table_fields s)"

lemma plain_fields_cong: "table_fields s = table_fields t \<Longrightarrow> plain_fields s = plain_fields t"
  by (simp add: plain_fields_def)

lemma new_field_simps [simp]: "name (new_field n ty) = n" "field_type (new_field n ty) = ty"
  by (simp_all add: new_field_def)

lemma preprocess_plain: "preprocess s = Inr t \<Longrightarrow> plain_fields t = plain_fields s"
  using preprocess_frame[of s t] by (intro plain_fields_cong) simp

lemma list_all_take_drop: "list_all P xs \<Longrightarrow> list_all P (take i xs) \<and> list_all P (drop i xs)"
  by (metis append_take_drop_id list_all_append)

lemma list_all_update: "list_all P xs \<Longrightarrow> P x \<Longrightarrow> list_all P (xs[i := x])"
  using set_update_subset_insert[of xs i x] by (auto simp: list_all_iff)

lemma add_field_first_plain: "plain_fields s \<Longrightarrow> add_field_first s (new_field n ty) = Inr t \<Longrightarrow> plain_fields t"
  by (auto simp: add_field_first_def dest!: preprocess_plain) (simp add: plain_fields_def)

lemma add_field_after_plain: "plain_fields s \<Longrightarrow> add_field_after s (new_field n ty) a = Inr t \<Longrightarrow> plain_fields t"
  by (auto simp: add_field_after_def dest!: preprocess_plain split: option.splits)
    (simp add: plain_fields_def list_all_take_drop)

lemma remove_field_plain: "plain_fields s \<Longrightarrow> remove_field s n = Inr t \<Longrightarrow> plain_fields t"
  by (auto simp: remove_field_def dest!: preprocess_plain split: option.splits)
    (simp add: plain_fields_def list_all_take_drop)

lemma update_field_plain: "plain_fields s \<Longrightarrow> update_field s (new_field n ty) = Inr t \<Longrightarrow> plain_fields t"
  by (auto simp: update_field_def plain_fields_def list_all_update split: option.splits)

lemma rename_structure_field_plain:
  assumes "plain_fields s" and "rename_structure_field s a b = Inr t"
  shows "plain_fields t"
proof -
  obtain i where i: "i < length (table_fields s)" and t: "preprocess (s\<lparr>table_fields :=
      (table_fields s)[i := (table_fields s ! i)\<lparr>name := b\<rparr>],
      primary_keys := map (\<lambda>k. if k = a then b else k) (primary_keys s)\<rparr>) = Inr t"
    using assms(2) by (auto simp: rename_structure_field_def dest: find_field_Some split: option.splits)
  have "table_fields s ! i = new_field (name (table_fields s ! i)) (field_type (table_fields s ! i))"
    using assms(1) i by (simp add: plain_fields_def list_all_length)
  then have "(table_fields s ! i)\<lparr>name := b\<rparr> = new_field b (field_type (table_fields s ! i))"
    by (metis new_field_def table_field.update_convs(1))
  then show ?thesis
    using preprocess_plain[OF t] assms(1) by (simp add: plain_fields_def list_all_update)
qed

lemmas method_plain = add_field_first_plain add_field_after_plain remove_field_plain update_field_plain
  rename_structure_field_plain

lemma both_Inr: "both f g p = Inr p' \<longleftrightarrow> f (fst p) = Inr (fst p') \<and> g (snd p) = Inr (snd p')"
  by (cases p') (auto simp: both_def res_simps)

lemma validate_plain:
  assumes "plain_fields (snd p)" and "validate_alter_operation cv operation p = Inr p'"
  shows "plain_fields (snd p')"
  using assms
  by (auto simp: validate_alter_operation_def rename_both_def both_Inr res_simps Let_def
      dest: method_plain split: if_splits)

text \<open>Setting a column of a plain structure to the type it has changes nothing.\<close>

lemma update_field_same:
  assumes "plain_fields s" and "get_field s n = Some f"
  shows "update_field s (new_field n (field_type f)) = Inr s"
proof -
  obtain i where i: "find_field (table_fields s) n = Some i" "f = table_fields s ! i"
    using assms(2) by (auto simp: get_field_def)
  have "i < length (table_fields s)" and n: "name (table_fields s ! i) = n" using find_field_Some[OF i(1)] by auto
  with assms(1) have "table_fields s ! i = new_field (name (table_fields s ! i)) (field_type (table_fields s ! i))"
    unfolding plain_fields_def list_all_length by blast
  then have "new_field n (field_type f) = table_fields s ! i" using n i(2) by simp
  with i(1) n show ?thesis by (simp add: update_field_def)
qed

definition clean_last :: "table_structure \<Rightarrow> bool" where
  "clean_last s = (table_fields s \<noteq> [] \<longrightarrow> strip_sql_name (name (last (table_fields s))) = name (last (table_fields s)))"

lemma shape_last:
  "shape m = shape m' \<Longrightarrow> lastE (field_names m) = lastE (field_names m')"
  by (simp add: shape_def)

lemma after_name:
  "(case x of Some n \<Rightarrow> Inr n | None \<Rightarrow> bindE (lastE (table_fields m)) (\<lambda>f. Inr (name f))) =
    (case x of Some n \<Rightarrow> Inr n | None \<Rightarrow> lastE (field_names m))"
  by (simp add: lastE_def last_map field_names_def split: option.split)

lemma as_planned_get:
  assumes "as_planned s0 t p s"
  obtains m where "shape m = shape (fst p)" "map_of (tables_structure s) t = Some (m, snd p)"
    "\<And>n. has_field m n = has_field (fst p) n"
proof -
  obtain m where m: "shape m = shape (fst p)" "map_of (tables_structure s) t = Some (m, snd p)"
    using assms by (auto simp: as_planned_def)
  show thesis by (rule that[OF m]) (rule shape_has_field[OF m(1)])
qed

lemma add_column_reaches:
  assumes "as_planned s0 t p s" and "clean_last (fst p)" and "action operation = ''add_column''"
    and "validate_alter_operation cv operation p = Inr p'"
  shows "reaches s0 t p' (convert_alter_table_add_column rep cv db t (op_tokens operation)) s"
proof -
  obtain a where a: "parse_add_column cv (op_tokens operation) = Inr a"
    and eq: "has_field (fst p) (ac_name a) = has_field (snd p) (ac_name a)"
    and rest: "if has_field (fst p) (ac_name a) then p' = p
      else if ac_first a then
        both (\<lambda>m. add_field_first m (new_field (ac_name a) (ac_type a)))
             (\<lambda>c. add_field_first c (new_field (ac_name a) (ac_type_ch a))) p = Inr p'
      else \<exists>after. (case ac_after a of Some n \<Rightarrow> Inr n | None \<Rightarrow> lastE (field_names (fst p))) = Inr after \<and>
        both (\<lambda>m. add_field_after m (new_field (ac_name a) (ac_type a)) after)
             (\<lambda>c. add_field_after c (new_field (ac_name a) (ac_type_ch a)) after) p = Inr p'"
    using assms(3,4)
    by (auto simp: validate_alter_operation_def res_simps Let_def after_name split: if_splits)
  obtain m where m: "shape m = shape (fst p)" "map_of (tables_structure s) t = Some (m, snd p)"
    "\<And>n. has_field m n = has_field (fst p) n" by (rule as_planned_get[OF assms(1)]) blast
  show ?thesis
  proof (cases "has_field (fst p) (ac_name a)")
    case True
    with eq rest a m assms(1) show ?thesis
      by (simp add: convert_alter_table_add_column_def reaches_unfold)
  next
    case new: False
    show ?thesis
    proof (cases "ac_first a")
      case True
      have "reaches s0 t p' (bindA (alter_command rep db t q)
          (\<lambda>_. update_both t (\<lambda>m. add_field_first m (new_field (ac_name a) (ac_type a)))
             (\<lambda>c. add_field_first c (new_field (ac_name a) (ac_type_ch a))))) s" for q
        using rest new True by (intro add_first.command_update_reaches[OF assms(1)]) simp
      with new True a m show ?thesis
        by (simp add: convert_alter_table_add_column_def reaches_unfold)
    next
      case False
      from rest new False obtain after
        where after: "(case ac_after a of Some n \<Rightarrow> Inr n | None \<Rightarrow> lastE (field_names (fst p))) = Inr after"
          "both (\<lambda>m. add_field_after m (new_field (ac_name a) (ac_type a)) after)
             (\<lambda>c. add_field_after c (new_field (ac_name a) (ac_type_ch a)) after) p = Inr p'" by auto
      have c: "(if ac_after a = None \<and> \<not> ac_first a
               then bindE (lastE (table_fields m)) (\<lambda>f. Inr (Some (strip_sql_name (name f))))
               else Inr (ac_after a)) = Inr (Some after)"
      proof (cases "ac_after a")
        case None
        with after(1) have l: "lastE (field_names (fst p)) = Inr after" by simp
        then have "strip_sql_name after = after"
          using assms(2) by (auto simp: clean_last_def lastE_def field_names_def last_map split: if_splits)
        moreover have "lastE (field_names m) = Inr after" using l m(1) shape_last by metis
        ultimately show ?thesis using None False
          by (auto simp: lastE_def field_names_def last_map split: if_splits)
      qed (use after(1) in simp)
      have "reaches s0 t p' (bindA (alter_command rep db t q)
          (\<lambda>_. update_both t (\<lambda>m. add_field_after m (new_field (ac_name a) (ac_type a)) after)
             (\<lambda>c. add_field_after c (new_field (ac_name a) (ac_type_ch a)) after))) s" for q
        by (rule add_after.command_update_reaches[OF assms(1) after(2)])
      with new False a m c show ?thesis
        by (simp add: convert_alter_table_add_column_def reaches_unfold)
    qed
  qed
qed

lemma drop_column_reaches:
  assumes "as_planned s0 t p s" and "action operation = ''drop_column''"
    and "validate_alter_operation cv operation p = Inr p'"
  shows "reaches s0 t p' (convert_alter_table_drop_column rep db t (op_tokens operation)) s"
proof -
  obtain n where n: "parse_drop_column (op_tokens operation) = Inr n"
    and eq: "has_field (fst p) n = has_field (snd p) n"
    and rest: "if \<not> has_field (fst p) n then p' = p
      else both (\<lambda>m. remove_field m n) (\<lambda>c. remove_field c n) p = Inr p'"
    using assms(2,3) by (auto simp: validate_alter_operation_def res_simps Let_def split: if_splits)
  obtain m where m: "map_of (tables_structure s) t = Some (m, snd p)"
    "\<And>n. has_field m n = has_field (fst p) n" by (rule as_planned_get[OF assms(1)]) blast
  show ?thesis
  proof (cases "has_field (fst p) n")
    case True
    have "reaches s0 t p' (bindA (alter_command rep db t q)
        (\<lambda>_. update_both t (\<lambda>m. remove_field m n) (\<lambda>c. remove_field c n))) s" for q
      using rest True by (intro remove.command_update_reaches[OF assms(1)]) simp
    with True eq n m show ?thesis
      by (simp add: convert_alter_table_drop_column_def reaches_unfold)
  next
    case False
    with rest eq n m assms(1) show ?thesis
      by (simp add: convert_alter_table_drop_column_def reaches_unfold)
  qed
qed

lemma modify_column_reaches:
  assumes "as_planned s0 t p s" and "action operation = ''modify_column''"
    and "validate_alter_operation cv operation p = Inr p'"
  shows "reaches s0 t p' (convert_alter_table_modify_column rep cv db t (op_tokens operation)) s"
proof -
  obtain n ty params ty_ch where n: "parse_modify_column cv (op_tokens operation) = Inr (n, ty, params, ty_ch)"
    and u: "both (\<lambda>m. update_field m (new_field n ty)) (\<lambda>c. update_field c (new_field n ty_ch)) p = Inr p'"
    using assms(2,3) by (auto simp: validate_alter_operation_def res_simps Let_def split: if_splits)
  obtain m where m: "map_of (tables_structure s) t = Some (m, snd p)"
    by (rule as_planned_get[OF assms(1)]) blast
  have "reaches s0 t p' (bindA (alter_command rep db t q)
      (\<lambda>_. update_both t (\<lambda>m. update_field m (new_field n ty)) (\<lambda>c. update_field c (new_field n ty_ch)))) s" for q
    by (rule update.command_update_reaches[OF assms(1) u])
  with n m show ?thesis
    by (simp add: convert_alter_table_modify_column_def reaches_unfold)
qed

lemma rename_reaches:
  assumes "as_planned s0 t p s" and "rename_both a b p = Inr p'"
  shows "reaches s0 t p' (if a \<noteq> b then rename_command rep db t a b else retA ()) s"
proof (cases "a = b")
  case True
  with assms show ?thesis by (simp add: rename_both_def reaches_retA)
next
  case False
  with assms(2) have "reaches s0 t p' (rename_command rep db t a b) s"
    unfolding rename_command_def by (intro rename.command_update_reaches[OF assms(1)]) (simp add: rename_both_def)
  with False show ?thesis by simp
qed

lemma current_name_field:
  assumes "get_change_column_current_name m c old_name new_name = Inr n"
  shows "has_field m n \<and> has_field c n"
  using assms by (auto simp: get_change_column_current_name_def split: if_splits)

lemma current_name_shape:
  "(\<And>n. has_field m n = has_field m' n) \<Longrightarrow>
    get_change_column_current_name m c old_name new_name = get_change_column_current_name m' c old_name new_name"
  by (simp add: get_change_column_current_name_def)

lemma change_column_reaches:
  assumes "as_planned s0 t p s" and "plain_fields (snd p)" and "action operation = ''change_column''"
    and "validate_alter_operation cv operation p = Inr p'"
  shows "reaches s0 t p' (convert_alter_table_change_column rep cv db t (op_tokens operation)) s"
proof -
  obtain a b ty ty_ch n p1 where parse: "parse_change_column cv (op_tokens operation) = Inr (a, b, ty, ty_ch)"
    and n: "get_change_column_current_name (fst p) (snd p) a b = Inr n"
    and u: "both (\<lambda>m. update_field m (new_field n ty)) (\<lambda>c. update_field c (new_field n ty_ch)) p = Inr p1"
    and r: "rename_both n b p1 = Inr p'"
    using assms(3,4) by (auto simp: validate_alter_operation_def res_simps Let_def)
  obtain m where m: "map_of (tables_structure s) t = Some (m, snd p)"
    "\<And>n. has_field m n = has_field (fst p) n" by (rule as_planned_get[OF assms(1)]) blast
  obtain f where f: "get_field (snd p) n = Some f"
    using current_name_field[OF n] get_field_has_field by blast
  have "reaches s0 t p1 (if field_type f \<noteq> ty_ch then bindA (alter_command rep db t q)
      (\<lambda>_. update_both t (\<lambda>m. update_field m (new_field n ty)) (\<lambda>c. update_field c (new_field n ty_ch)))
      else retA ()) s" for q
  proof (cases "field_type f = ty_ch")
    case True
    with u update_field_same[OF assms(2) f] update_field_shape[of "fst p"]
    have "snd p1 = snd p" "shape (fst p1) = shape (fst p)" by (auto simp: both_Inr)
    with assms(1) have "as_planned s0 t p1 s" by (simp add: as_planned_def)
    with True show ?thesis by (simp add: reaches_retA)
  qed (simp add: update.command_update_reaches[OF assms(1) u])
  then have "reaches s0 t p' (bindA (if field_type f \<noteq> ty_ch then bindA (alter_command rep db t q)
      (\<lambda>_. update_both t (\<lambda>m. update_field m (new_field n ty)) (\<lambda>c. update_field c (new_field n ty_ch)))
      else retA ()) (\<lambda>_. if n \<noteq> b then rename_command rep db t n b else retA ())) s" for q
    by (rule reaches_bind) (rule rename_reaches[OF _ r])
  moreover have "convert_alter_table_change_column rep cv db t (op_tokens operation) s =
      bindA (if field_type f \<noteq> ty_ch then bindA (alter_command rep db t ('' MODIFY COLUMN IF EXISTS `'' @ n @ ''` '' @ ty_ch))
      (\<lambda>_. update_both t (\<lambda>m. update_field m (new_field n ty)) (\<lambda>c. update_field c (new_field n ty_ch)))
      else retA ()) (\<lambda>_. if n \<noteq> b then rename_command rep db t n b else retA ()) s"
    using parse m f n current_name_shape[of m "fst p" "snd p" a b]
    by (simp add: convert_alter_table_change_column_def bindA_liftA bindA_get_structures)
  ultimately show ?thesis by (simp add: reaches_def)
qed

lemma rename_column_reaches:
  assumes "as_planned s0 t p s" and "action operation = ''rename_column''"
    and "validate_alter_operation cv operation p = Inr p'"
  shows "reaches s0 t p' (convert_alter_table_rename_column rep db t (op_tokens operation)) s"
proof -
  obtain a b n where parse: "parse_rename_column (op_tokens operation) = Inr (a, b)"
    and n: "get_change_column_current_name (fst p) (snd p) a b = Inr n" and r: "rename_both n b p = Inr p'"
    using assms(2,3) by (auto simp: validate_alter_operation_def res_simps Let_def)
  obtain m where m: "map_of (tables_structure s) t = Some (m, snd p)"
    "\<And>n. has_field m n = has_field (fst p) n" by (rule as_planned_get[OF assms(1)]) blast
  have "convert_alter_table_rename_column rep db t (op_tokens operation) s =
      (if n \<noteq> b then rename_command rep db t n b else retA ()) s"
    using parse m n current_name_shape[of m "fst p" "snd p" a b]
    by (simp add: convert_alter_table_rename_column_def bindA_liftA)
  with rename_reaches[OF assms(1) r, of rep db] show ?thesis by (simp add: reaches_def)
qed

lemma operation_reaches:
  assumes "as_planned s0 t p s" and "plain_fields (snd p)" and "clean_last (fst p)"
    and "(if is_noop operation then Inr p else validate_alter_operation cv operation p) = Inr p'"
  shows "reaches s0 t p' (convert_alter_operation (Some rep) cv db t operation) s"
proof (cases "is_noop operation")
  case True
  with assms show ?thesis by (simp add: convert_alter_operation_def reaches_retA)
next
  case False
  with assms(4) have v: "validate_alter_operation cv operation p = Inr p'" by simp
  show ?thesis
    using False add_column_reaches[OF assms(1,3) _ v] drop_column_reaches[OF assms(1) _ v]
      modify_column_reaches[OF assms(1) _ v] change_column_reaches[OF assms(1,2) _ v]
      rename_column_reaches[OF assms(1) _ v] v assms(1)
    by (auto simp: convert_alter_operation_def Let_def validate_alter_operation_def[of cv operation p] reaches_retA)
qed

text \<open>
  At every operation the last column of the planned MySQL structure has a name without quotes
  around it (\<^verbatim>\<open>ADD COLUMN\<close> strips the name again when it carries the plan out).
\<close>

fun clean_plan :: "conv \<Rightarrow> AlterOperation list \<Rightarrow> table_structure \<times> table_structure \<Rightarrow> bool" where
  "clean_plan cv [] p = True"
| "clean_plan cv (operation # operations) p =
    (clean_last (fst p) \<and>
     (case (if is_noop operation then Inr p else validate_alter_operation cv operation p) of
        Inl _ \<Rightarrow> True | Inr p' \<Rightarrow> clean_plan cv operations p'))"

lemma plan_reaches:
  assumes "as_planned s0 t p s" and "plain_fields (snd p)" and "clean_plan cv operations p"
    and "simulate_plan cv operations p = Inr p'"
  shows "reaches s0 t p' (mapA (convert_alter_operation (Some rep) cv db t) operations) s"
  using assms
proof (induction operations arbitrary: p s)
  case Nil
  then show ?case by (simp add: simulate_plan_def reaches_retA)
next
  case (Cons operation operations)
  obtain p1 where p1: "(if is_noop operation then Inr p else validate_alter_operation cv operation p) = Inr p1"
    and sim: "simulate_plan cv operations p1 = Inr p'"
    using Cons.prems(4) by (auto simp: simulate_plan_def res_simps simp del: if_split split: if_split)
  have plain: "plain_fields (snd p1)"
    using p1 Cons.prems(2) validate_plain by (cases "is_noop operation") auto
  have "reaches s0 t p1 (convert_alter_operation (Some rep) cv db t operation) s"
    using operation_reaches[OF Cons.prems(1,2) _ p1] Cons.prems(3) by simp
  moreover have "reaches s0 t p' (mapA (convert_alter_operation (Some rep) cv db t) operations) s'"
    if "as_planned s0 t p1 s'" for s'
    using Cons.IH[OF that plain _ sim] Cons.prems(3) p1 by simp
  ultimately show ?case by (simp add: reaches_bind)
qed


definition sample_replicator :: db_rep where
  "sample_replicator = \<lparr>rep_settings = plain_settings, rep_database = ''shop_eu'', rep_target_database = ''shop_ch'',
     rep_str = (\<lambda>_. [])\<rparr>"

definition sample_ch_table :: table_structure where
  "sample_ch_table = new_structure\<lparr>table_name := ''users'', primary_keys := [''id''], primary_key_ids := Some [0],
     table_fields := [new_field ''id'' ''UInt32'', new_field ''title'' ''Nullable(String)'']\<rparr>"

definition sample_rep_state :: rep_state where
  "sample_rep_state = \<lparr>tables_structure = [(''users'', sample_table, sample_ch_table)], ch_api = sample_api [] []\<rparr>"

definition sample_alter :: string where
  "sample_alter = ''ALTER TABLE users ADD age int FIRST, DROP title''"

definition sample_operations :: "AlterOperation list" where
  "sample_operations =
    [\<lparr>category = COLUMN_CHANGE, action = ''add_column'', op_tokens = [''age'', ''int'', ''FIRST''], op_clause = ''ADD age int FIRST''\<rparr>,
     \<lparr>category = COLUMN_CHANGE, action = ''drop_column'', op_tokens = [''title''], op_clause = ''DROP title''\<rparr>]"

lemma sample_alter_parses:
  "parse_alter_query (Some sample_replicator) sample_alter ''shop_eu'' = Inr (''shop_ch'', ''users'', True, sample_operations)"
proof -
  have "basic_validate_query sample_alter = Inr sample_alter" by code_simp
  moreover have "split_ws sample_alter = [''ALTER'', ''TABLE'', ''users'', ''ADD'', ''age'', ''int'', ''FIRST,'', ''DROP'', ''title'']"
    by code_simp
  moreover have "lower ''ALTER'' = ''alter''" "lower ''TABLE'' = ''table''" by code_simp+
  moreover have "get_db_and_table_name (Some sample_replicator) ''users'' ''shop_eu'' = Inr (''shop_ch'', ''users'', True)"
    by code_simp
  moreover have "split_high_level ''ADD age int FIRST, DROP title'' (CHR '','') = [''ADD age int FIRST'', ''DROP title'']"
    by code_simp
  moreover have "mapE parse_subquery [''ADD age int FIRST'', ''DROP title''] = Inr sample_operations" by code_simp
  ultimately show ?thesis by (simp add: parse_alter_query_def raise_if_def)
qed


section \<open>Unsigned columns\<close>

text \<open>Adding an unsigned column by ALTER TABLE loses the sign attribute, because the words of
  the type are merged into one and the attribute is looked for in the parameters only: BIGINT
  UNSIGNED becomes a signed Int64, although the same column in a CREATE TABLE becomes UInt64, and
  INT UNSIGNED is refused as an unknown type.\<close>

lemma alter_loses_unsigned:
  "map_sum id ac_type_ch (parse_add_column default_conv [''n'', ''bigint'', ''unsigned'']) = Inr ''Nullable(Int64)''
    \<and> convert_field_type default_conv ''bigint'' ''unsigned'' = Inr ''Nullable(UInt64)''
    \<and> \<not> mysql_int_values ''bigint'' True \<subseteq> ch_int_values ''Int64''
    \<and> map_sum (\<lambda>_. ()) id (parse_add_column default_conv [''n'', ''int'', ''unsigned'']) = Inl ()"
proof -
  have tokens: "tokenize_alter_query ''n bigint unsigned'' = [''n'', ''bigint unsigned'']"
    "tokenize_alter_query ''n int unsigned'' = [''n'', ''int unsigned'']" by code_simp+
  have position: "split_position [''n'', ''bigint unsigned''] = (None, False, [''n'', ''bigint unsigned''])"
    "split_position [''n'', ''int unsigned''] = (None, False, [''n'', ''int unsigned''])" by code_simp+
  have types: "convert_field_type default_conv ''bigint unsigned'' [] = Inr ''Nullable(Int64)''"
    "convert_field_type default_conv ''bigint'' ''unsigned'' = Inr ''Nullable(UInt64)''"
    "map_sum (\<lambda>_. ()) id (convert_field_type default_conv ''int unsigned'' []) = Inl ()" by code_simp+
  then obtain e where "convert_field_type default_conv ''int unsigned'' [] = Inl e"
    by (cases "convert_field_type default_conv ''int unsigned'' []") auto
  moreover have "2 ^ 63 \<in> mysql_int_values ''bigint'' True" "(2 ^ 63 :: int) \<notin> ch_int_values ''Int64''"
    by (simp_all add: mysql_int_values_def ch_int_values_def int_bits_def)
  then have "\<not> mysql_int_values ''bigint'' True \<subseteq> ch_int_values ''Int64''" by blast
  ultimately show ?thesis using tokens position types by (simp add: parse_add_column_def)
qed

end
