(* ===== verification/RecordConvert.thy ===== *)
theory RecordConvert
  imports TypeConvert Wkb
begin

text \<open>
  The conversion of rows: \<^verbatim>\<open>convert_bytes\<close>, \<^verbatim>\<open>convert_record\<close> and \<^verbatim>\<open>convert_records\<close> of
  \<^verbatim>\<open>converter.py\<close>. A geometry value is NULL or bytes.
\<close>

section \<open>Python's part\<close>

text \<open>
  What Python does for values whose inside the model does not have: the text of such a value
  (\<^verbatim>\<open>str\<close>), \<^verbatim>\<open>json.dumps\<close>, \<^verbatim>\<open>bytes.decode\<close> by the name of the codec, the comparison of a
  number that is not an integer with an integer (negative, zero, positive, or TypeError), and
  the addition of an integer to such a number.
\<close>

record pylib =
  pl_str :: "py_val \<Rightarrow> string"
  pl_dumps :: "py_val \<Rightarrow> string res"
  pl_decode :: "string \<Rightarrow> byte list \<Rightarrow> string res"
  pl_cmp :: "py_val \<Rightarrow> int \<Rightarrow> int res"
  pl_add :: "int \<Rightarrow> py_val \<Rightarrow> py_val"

definition str_of :: "pylib \<Rightarrow> py_val \<Rightarrow> string" where
  "str_of lib v =
    (case v of VNone \<Rightarrow> ''None'' | VStr s \<Rightarrow> s | VInt i \<Rightarrow> str_int i
     | VBool b \<Rightarrow> if b then ''True'' else ''False'' | _ \<Rightarrow> pl_str lib v)"

definition num_less :: "pylib \<Rightarrow> py_val \<Rightarrow> int \<Rightarrow> bool res" where
  "num_less lib v n = (if is_int v then Inr (int_of v < n) else bindE (pl_cmp lib v n) (\<lambda>c. Inr (c < 0)))"

definition num_greater :: "pylib \<Rightarrow> py_val \<Rightarrow> int \<Rightarrow> bool res" where
  "num_greater lib v n = (if is_int v then Inr (int_of v > n) else bindE (pl_cmp lib v n) (\<lambda>c. Inr (c > 0)))"

definition add_int :: "pylib \<Rightarrow> int \<Rightarrow> py_val \<Rightarrow> py_val" where
  "add_int lib m v = (if is_int v then VInt (m + int_of v) else pl_add lib m v)"

fun py_len :: "py_val \<Rightarrow> nat res" where
  "py_len (VStr s) = Inr (length s)"
| "py_len (VBytes bs) = Inr (length bs)"
| "py_len (VTuple vs) = Inr (length vs)"
| "py_len (VList vs) = Inr (length vs)"
| "py_len (VSet vs) = Inr (length vs)"
| "py_len (VDict kvs) = Inr (length kvs)"
| "py_len _ = Inl TypeError"

definition hex_val :: "char \<Rightarrow> nat option" where
  "hex_val c =
    (if is_digit c then Some (code c - 48)
     else if 97 \<le> code (to_lower c) \<and> code (to_lower c) \<le> 102 then Some (code (to_lower c) - 87) else None)"

definition hex_digits :: "string \<Rightarrow> bool" where
  "hex_digits s = (s \<noteq> [] \<and> list_all (\<lambda>c. hex_val c \<noteq> None) s)"

definition hex_nat :: "string \<Rightarrow> nat" where
  "hex_nat s = foldl (\<lambda>n c. 16 * n + (case hex_val c of Some d \<Rightarrow> d | None \<Rightarrow> 0)) 0 s"

text \<open>\<^verbatim>\<open>int(s, 16)\<close>: white space around, a sign, a prefix and single underscores are allowed.\<close>

definition py_int16 :: "string \<Rightarrow> int res" where
  "py_int16 s =
    (let s = strip s;
         neg = startswith s ''-'';
         s = (if startswith s ''-'' \<or> startswith s ''+'' then tl s else s);
         s = (if startswith (lower s) ''0x'' then
                (if startswith (drop 2 s) ''_'' then drop 3 s else drop 2 s) else s);
         parts = split_char (CHR ''_'') s in
     if list_all hex_digits parts
     then Inr (if neg then - int (hex_nat (concat parts)) else int (hex_nat (concat parts)))
     else Inl ValueError)"

text \<open>\<^verbatim>\<open>uuid.UUID(s).bytes\<close>.\<close>

definition uuid_bytes :: "string \<Rightarrow> byte list res" where
  "uuid_bytes s =
    (let h = replace_sub ''-'' [] (strip_of ''{}'' (replace_sub ''uuid:'' [] (replace_sub ''urn:'' [] s))) in
     raise_if (length h \<noteq> 32) ValueError
     (bindE (py_int16 h) (\<lambda>n.
      raise_if (n < 0 \<or> 2 ^ 128 \<le> n) ValueError (Inr (be_bytes 16 (nat n))))))"

section \<open>Bytes inside a JSON value\<close>

definition convert_key :: "pylib \<Rightarrow> py_val \<Rightarrow> py_val res" where
  "convert_key lib k =
    (case k of VBytes bs \<Rightarrow> bindE (pl_decode lib ''utf-8'' bs) (\<lambda>s. Inr (VStr s)) | _ \<Rightarrow> Inr k)"

fun convert_bytes :: "pylib \<Rightarrow> py_val \<Rightarrow> py_val res"
and convert_list :: "pylib \<Rightarrow> py_val list \<Rightarrow> py_val list res"
and convert_items :: "pylib \<Rightarrow> (py_val \<times> py_val) list \<Rightarrow> (py_val \<times> py_val) list \<Rightarrow> (py_val \<times> py_val) list res" where
  "convert_bytes lib (VDict kvs) = bindE (convert_items lib kvs []) (\<lambda>d. Inr (VDict d))"
| "convert_bytes lib (VTuple vs) = bindE (convert_list lib vs) (\<lambda>ws. Inr (VTuple ws))"
| "convert_bytes lib (VList vs) = bindE (convert_list lib vs) (\<lambda>ws. Inr (VList ws))"
| "convert_bytes lib (VBytes bs) = bindE (pl_decode lib ''utf-8'' bs) (\<lambda>s. Inr (VStr s))"
| "convert_bytes lib v = Inr v"
| "convert_list lib [] = Inr []"
| "convert_list lib (v # vs) =
    bindE (convert_bytes lib v) (\<lambda>w. bindE (convert_list lib vs) (\<lambda>ws. Inr (w # ws)))"
| "convert_items lib [] d = Inr d"
| "convert_items lib ((k, v) # kvs) d =
    bindE (convert_key lib k) (\<lambda>k'. bindE (convert_bytes lib v) (\<lambda>v'.
      convert_items lib kvs (AList.update k' v' d)))"

section \<open>One value\<close>

definition convert_time :: "pylib \<Rightarrow> string \<Rightarrow> string \<Rightarrow> py_val \<Rightarrow> py_val" where
  "convert_time lib mt ct v = (if startswith mt ''time'' \<and> contains ct ''String'' then VStr (str_of lib v) else v)"

definition convert_json :: "pylib \<Rightarrow> string \<Rightarrow> string \<Rightarrow> py_val \<Rightarrow> py_val res" where
  "convert_json lib mt ct v =
    (if mt = ''json'' \<and> contains ct ''String'' \<and> \<not> is_str v
     then bindE (convert_bytes lib v) (\<lambda>w. bindE (pl_dumps lib w) (\<lambda>t. Inr (VStr t)))
     else Inr v)"

definition geometry_bytes :: "py_val \<Rightarrow> byte list option res" where
  "geometry_bytes v = (case v of VNone \<Rightarrow> Inr None | VBytes bs \<Rightarrow> Inr (Some bs) | _ \<Rightarrow> Inl TypeError)"

definition point_val :: "point \<Rightarrow> py_val" where
  "point_val p = VTuple [VFloat (fst p), VFloat (snd p)]"

definition convert_geometry :: "string \<Rightarrow> py_val \<Rightarrow> py_val res" where
  "convert_geometry mt v =
    (if startswith mt ''point'' then
       bindE (geometry_bytes v) (\<lambda>b. bindE (parse_mysql_point b) (\<lambda>p.
         Inr (case p of Some p \<Rightarrow> point_val p | None \<Rightarrow> VTuple [VInt 0, VInt 0])))
     else if startswith mt ''polygon'' then
       bindE (geometry_bytes v) (\<lambda>b. bindE (parse_mysql_polygon b) (\<lambda>ps. Inr (VList (map point_val ps))))
     else if startswith mt ''multipolygon'' then
       bindE (geometry_bytes v) (\<lambda>b. bindE (parse_mysql_multipolygon b) (\<lambda>pss.
         Inr (VList (map (\<lambda>ps. VList (map point_val ps)) pss))))
     else Inr v)"

text \<open>Without a list of values a lookup in it raises TypeError.\<close>

definition convert_enum :: "string \<Rightarrow> table_field \<Rightarrow> py_val \<Rightarrow> py_val res" where
  "convert_enum mt f v =
    (if startswith mt ''enum('' then
       (case additional_data f of
          Some vs \<Rightarrow> Inr (convert_mysql_to_clickhouse_enum v vs)
        | None \<Rightarrow> if is_str v \<or> is_int v \<and> int_of v \<ge> 1 then Inl TypeError
                  else Inr (convert_mysql_to_clickhouse_enum v []))
     else Inr v)"

definition convert_year :: "pylib \<Rightarrow> string \<Rightarrow> py_val \<Rightarrow> py_val res" where
  "convert_year lib mt v =
    (if mt = ''year'' \<and> v \<noteq> VNone then
       bindE (case v of VStr s \<Rightarrow> bindE (py_int s) (\<lambda>i. Inr (VInt i)) | _ \<Rightarrow> Inr v) (\<lambda>y.
       bindE (num_less lib y 1901) (\<lambda>early.
       if early then Inr (VInt 1901)
       else bindE (num_greater lib y 2155) (\<lambda>late. Inr (if late then VInt 2155 else y))))
     else Inr v)"

definition convert_uuid :: "pylib \<Rightarrow> string \<Rightarrow> py_val \<Rightarrow> py_val res" where
  "convert_uuid lib ct v =
    (if contains ct ''UUID'' then
       bindE (py_len v) (\<lambda>n.
       if n = 36 then
         bindE (case v of VBytes bs \<Rightarrow> pl_decode lib ''utf-8'' bs | VStr s \<Rightarrow> Inr s | _ \<Rightarrow> Inl AttributeError) (\<lambda>s.
         bindE (uuid_bytes s) (\<lambda>bs. Inr (VBytes bs)))
       else Inr v)
     else Inr v)"

text \<open>A negative number in a column of an unsigned type has the modulus added.\<close>

definition wrap_negative :: "pylib \<Rightarrow> bool \<Rightarrow> int \<Rightarrow> py_val \<Rightarrow> py_val res" where
  "wrap_negative lib applies modulus v =
    (if applies then bindE (num_less lib v 0) (\<lambda>neg. Inr (if neg then add_int lib modulus v else v)) else Inr v)"

definition convert_unsigned :: "pylib \<Rightarrow> string \<Rightarrow> string \<Rightarrow> py_val \<Rightarrow> py_val res" where
  "convert_unsigned lib mt ct v =
    bindE (wrap_negative lib (contains ct ''UInt16'') 65536 v) (\<lambda>v.
    bindE (wrap_negative lib (contains ct ''UInt8'') 256 v) (\<lambda>v.
    bindE (wrap_negative lib (contains (lower mt) ''mediumint'') 16777216 v) (\<lambda>v.
    bindE (wrap_negative lib (contains ct ''UInt32'') 4294967296 v) (\<lambda>v.
    wrap_negative lib (contains ct ''UInt64'') 18446744073709551616 v))))"

definition text_charset :: "table_structure \<Rightarrow> string" where
  "text_charset s = (case charset_python s of Some (c # cs) \<Rightarrow> c # cs | _ \<Rightarrow> ''utf-8'')"

definition convert_text :: "pylib \<Rightarrow> string \<Rightarrow> string \<Rightarrow> string \<Rightarrow> py_val \<Rightarrow> py_val res" where
  "convert_text lib cs mt ct v =
    (if contains ct ''String'' \<and> (contains mt ''text'' \<or> contains mt ''char'') then
       (case v of VBytes bs \<Rightarrow> bindE (pl_decode lib cs bs) (\<lambda>s. Inr (VStr s)) | _ \<Rightarrow> Inr v)
     else Inr v)"

text \<open>The members selected by a bit mask.\<close>

fun mask_members :: "int \<Rightarrow> nat \<Rightarrow> string list \<Rightarrow> string list" where
  "mask_members bits idx [] = []"
| "mask_members bits idx (v # vs) =
    (if bit bits idx then v # mask_members bits (Suc idx) vs else mask_members bits (Suc idx) vs)"

definition set_members :: "table_field \<Rightarrow> py_val \<Rightarrow> py_val res" where
  "set_members f v =
    (if is_int v then
       (case additional_data f of
          Some vs \<Rightarrow> Inr (VList (map VStr (mask_members (int_of v) 0 vs))) | None \<Rightarrow> Inl TypeError)
     else case v of
         VSet xs \<Rightarrow>
           (case additional_data f of
              Some vs \<Rightarrow> Inr (VList (map VStr (filter (\<lambda>s. VStr s \<in> set xs) vs))) | None \<Rightarrow> Inl TypeError)
       | _ \<Rightarrow> Inr v)"

definition join_texts :: "py_val \<Rightarrow> py_val res" where
  "join_texts v =
    bindE (py_iter v) (\<lambda>xs.
    bindE (mapE (\<lambda>x. case x of VStr s \<Rightarrow> Inr s | _ \<Rightarrow> Inl TypeError) xs) (\<lambda>ss. Inr (VStr (join '','' ss))))"

definition convert_set :: "string \<Rightarrow> table_field \<Rightarrow> py_val \<Rightarrow> py_val res" where
  "convert_set mt f v = (if contains mt ''set('' then bindE (set_members f v) join_texts else Inr v)"

definition convert_present :: "pylib \<Rightarrow> table_structure \<Rightarrow> table_field \<Rightarrow> string \<Rightarrow> string \<Rightarrow> py_val \<Rightarrow> py_val res" where
  "convert_present lib s f mt ct v =
    (if v \<noteq> VNone then
       bindE (convert_uuid lib ct v) (\<lambda>v.
       bindE (convert_unsigned lib mt ct v) (\<lambda>v.
       bindE (convert_text lib (text_charset s) mt ct v) (\<lambda>v.
       convert_set mt f v)))
     else if \<not> contains ct ''Nullable'' then Inr (get_default_value_for_type_python ct)
     else Inr v)"

definition convert_value :: "pylib \<Rightarrow> table_structure \<Rightarrow> table_field \<Rightarrow> string \<Rightarrow> string \<Rightarrow> py_val \<Rightarrow> py_val res" where
  "convert_value lib s f mt ct v =
    bindE (convert_json lib mt ct (convert_time lib mt ct v)) (\<lambda>v.
    bindE (convert_geometry mt v) (\<lambda>v.
    bindE (convert_enum mt f v) (\<lambda>v.
    bindE (convert_year lib mt v) (\<lambda>v.
    convert_present lib s f mt ct v))))"

section \<open>Rows\<close>

fun convert_from :: "pylib \<Rightarrow> table_structure \<Rightarrow> string list \<Rightarrow> string list \<Rightarrow> bool \<Rightarrow> nat \<Rightarrow> row \<Rightarrow> row res" where
  "convert_from lib s mts cts only_primary idx [] = Inr []"
| "convert_from lib s mts cts only_primary idx (v # vs) =
    bindE (if only_primary then (case primary_key_ids s of None \<Rightarrow> Inl TypeError | Some ids \<Rightarrow> Inr (idx \<notin> set ids))
           else Inr False) (\<lambda>skip.
    bindE (if skip then Inr v
           else bindE (nthE mts idx) (\<lambda>mt. bindE (nthE cts idx) (\<lambda>ct.
                  convert_value lib s (table_fields s ! idx) mt ct v))) (\<lambda>w.
    bindE (convert_from lib s mts cts only_primary (Suc idx) vs) (\<lambda>ws. Inr (w # ws))))"

definition convert_record :: "pylib \<Rightarrow> row \<Rightarrow> string list \<Rightarrow> string list \<Rightarrow> table_structure \<Rightarrow> bool \<Rightarrow> row res" where
  "convert_record lib mysql_record mts cts s only_primary = convert_from lib s mts cts only_primary 0 mysql_record"

definition convert_records :: "pylib \<Rightarrow> row list \<Rightarrow> table_structure \<Rightarrow> table_structure \<Rightarrow> bool \<Rightarrow> row list res" where
  "convert_records lib mysql_records mysql_structure clickhouse_structure only_primary =
    mapE (\<lambda>r. convert_record lib r (map field_type (table_fields mysql_structure))
           (map field_type (table_fields clickhouse_structure)) mysql_structure only_primary) mysql_records"

section \<open>Unsigned integers\<close>

text \<open>Integer columns with the ClickHouse type and the number of bytes of their values.\<close>

definition unsigned_columns :: "(string \<times> string \<times> nat) list" where
  "unsigned_columns = [(''tinyint'', ''UInt8'', 1), (''smallint'', ''UInt16'', 2), (''mediumint'', ''UInt32'', 3),
     (''int'', ''UInt32'', 4), (''bigint'', ''UInt64'', 8)]"

definition nullable_or_not :: "string \<Rightarrow> string list" where
  "nullable_or_not ty = [ty, ''Nullable('' @ ty @ '')'']"

lemma lower_int_types:
  "lower ''tinyint'' = ''tinyint''" "lower ''smallint'' = ''smallint''" "lower ''mediumint'' = ''mediumint''"
  "lower ''int'' = ''int''" "lower ''bigint'' = ''bigint''"
  by code_simp+

lemma convert_value_int:
  assumes "(mt, ty, k) \<in> set unsigned_columns" and "ct \<in> set (nullable_or_not ty)"
  shows "convert_value lib s f mt ct (VInt i) = convert_unsigned lib mt ct (VInt i)"
proof -
  have "convert_json lib mt ct (convert_time lib mt ct (VInt i)) = Inr (VInt i)"
    "convert_geometry mt (VInt i) = Inr (VInt i)" "convert_enum mt f (VInt i) = Inr (VInt i)"
    "convert_year lib mt (VInt i) = Inr (VInt i)" "convert_uuid lib ct (VInt i) = Inr (VInt i)"
    "convert_text lib (text_charset s) mt ct v = Inr v" "convert_set mt f v = Inr v" for v
    using assms
    by (auto simp: unsigned_columns_def nullable_or_not_def convert_json_def convert_time_def convert_geometry_def
        convert_enum_def convert_year_def convert_uuid_def convert_text_def convert_set_def)
  then show ?thesis
    by (simp add: convert_value_def convert_present_def) (simp add: bindE_def split: sum.split)
qed

lemma wrap_negative_int:
  "wrap_negative lib b m (VInt i) = Inr (VInt (if b \<and> i < 0 then m + i else i))"
  by (simp add: wrap_negative_def num_less_def add_int_def)

lemma convert_unsigned_int:
  assumes "(mt, ty, k) \<in> set unsigned_columns" and "ct \<in> set (nullable_or_not ty)" and "- (2 ^ (8 * k)) \<le> i"
  shows "convert_unsigned lib mt ct (VInt i) = Inr (VInt (if i < 0 then 2 ^ (8 * k) + i else i))"
  using assms(1,2)
  unfolding unsigned_columns_def nullable_or_not_def list.set insert_iff empty_iff prod.inject simp_thms
  by (elim disjE conjE; use assms(3) in \<open>simp add: convert_unsigned_def wrap_negative_int lower_int_types\<close>)

text \<open>C27. Unsigned integer columns get their MySQL value back. For each unsigned integer type,
  nullable or not, the signed reading of the stored bytes converts to the unsigned number those
  bytes stand for, and a value that is already unsigned stays as it is.\<close>

theorem unsigned_values_restored:
  assumes "(mt, ty, k) \<in> set unsigned_columns" and "ct \<in> set (nullable_or_not ty)" and "n < 2 ^ (8 * k)"
  shows "convert_value lib s f mt ct (VInt (to_signed k n)) = Inr (VInt (int n))
    \<and> convert_value lib s f mt ct (VInt (int n)) = Inr (VInt (int n))"
proof -
  have "int n < 2 ^ (8 * k)" using assms(3) by (metis of_nat_less_iff of_nat_numeral of_nat_power)
  then have "- (2 ^ (8 * k)) \<le> to_signed k n"
    "(if to_signed k n < 0 then 2 ^ (8 * k) + to_signed k n else to_signed k n) = int n"
    using zero_le_power[of "2 :: int" "8 * k"] by (auto simp: to_signed_def simp del: zero_le_power)
  moreover have "- (2 ^ (8 * k)) \<le> int n" by (rule order_trans[of _ 0]) simp_all
  ultimately show ?thesis
    using convert_unsigned_int[OF assms(1,2), of "to_signed k n" lib] convert_unsigned_int[OF assms(1,2), of "int n" lib]
    by (simp add: convert_value_int[OF assms(1,2)])
qed

definition sample_lib :: pylib where
  "sample_lib = \<lparr>pl_str = (\<lambda>_. ''?''), pl_dumps = (\<lambda>_. Inr ''null''), pl_decode = (\<lambda>_ bs. Inr (map (char_of \<circ> unat) bs)),
     pl_cmp = (\<lambda>_ _. Inl TypeError), pl_add = (\<lambda>m _. VInt m)\<rparr>"

theorem unsigned_values_restored_witness:
  "convert_value sample_lib new_structure (new_field ''n'' ''mediumint'') ''mediumint'' ''Nullable(UInt32)'' (VInt (- 1))
    = Inr (VInt 16777215)"
  using unsigned_values_restored[of "''mediumint''" "''UInt32''" 3 "''Nullable(UInt32)''" 16777215 sample_lib new_structure
      "new_field ''n'' ''mediumint''"]
  by (simp add: unsigned_columns_def nullable_or_not_def to_signed_def)

text \<open>Two conversions give wrong values. The sign correction of mediumint also applies to
  signed columns, so a signed -1 is stored as 16777215; and a NULL of type TIME is turned into
  the text None although its column is nullable.\<close>

lemma conversions_that_corrupt:
  "convert_value lib s f ''mediumint'' ''Int32'' (VInt (- 1)) = Inr (VInt 16777215)
    \<and> convert_value lib s f ''time'' ''Nullable(String)'' VNone = Inr (VStr ''None'')"
proof -
  have "lower ''time'' = ''time''" by code_simp
  then show ?thesis
    by (simp add: convert_value_def convert_json_def convert_time_def convert_geometry_def convert_enum_def
        convert_year_def convert_uuid_def convert_text_def convert_set_def convert_present_def str_of_def
        convert_unsigned_def wrap_negative_def num_less_def add_int_def lower_int_types)
qed

section \<open>SET values\<close>

lemma mask_members_filter:
  "mask_members bits k vs = map fst (filter (\<lambda>(v, i). bit bits i) (zip vs [k..<k + length vs]))"
  by (induction vs arbitrary: k) (auto simp: upt_conv_Cons simp del: upt_Suc)

lemma mask_members_subset: "set (mask_members bits k vs) \<subseteq> set vs"
  by (induction vs arbitrary: k) auto

lemma filter_mask_members:
  assumes "distinct vs"
  shows "filter (\<lambda>v. v \<in> set (mask_members bits k vs)) vs = mask_members bits k vs"
  using assms
proof (induction vs arbitrary: k)
  case (Cons v vs)
  have "filter (\<lambda>x. x \<in> set (mask_members bits k (v # vs))) vs
      = filter (\<lambda>x. x \<in> set (mask_members bits (Suc k) vs)) vs"
    using Cons.prems by (intro filter_cong) auto
  moreover have "v \<notin> set (mask_members bits (Suc k) vs)"
    using Cons.prems mask_members_subset[of bits "Suc k" vs] by auto
  ultimately show ?case using Cons by auto
qed simp

lemma join_texts_list: "join_texts (VList (map VStr ss)) = Inr (VStr (join '','' ss))"
proof -
  have "mapE (\<lambda>x. case x of VStr s \<Rightarrow> Inr s | _ \<Rightarrow> Inl TypeError) (map VStr ss) = Inr ss"
    by (induction ss) simp_all
  then show ?thesis by (simp add: join_texts_def)
qed

text \<open>A SET value converts to the same text whether it arrives as its bit mask (from the
  binlog) or as the set of its member names (from a query): the names of the set bits in the
  order of the column definition, separated by commas.\<close>

theorem set_mask_and_names_agree:
  assumes "contains mt ''set(''" and "additional_data f = Some vs" and "distinct vs"
    and "set xs = VStr ` set (mask_members bits 0 vs)"
  shows "convert_set mt f (VInt bits) = Inr (VStr (join '','' (mask_members bits 0 vs)))
    \<and> convert_set mt f (VSet xs) = convert_set mt f (VInt bits)
    \<and> mask_members bits 0 vs = map fst (filter (\<lambda>(v, i). bit bits i) (zip vs [0..<length vs]))"
proof -
  have "filter (\<lambda>v. VStr v \<in> set xs) vs = mask_members bits 0 vs"
    using filter_mask_members[OF assms(3), of bits 0] assms(4) by (simp add: image_iff)
  then have "convert_set mt f (VSet xs) = Inr (VStr (join '','' (mask_members bits 0 vs)))"
    using assms(1,2) by (simp add: convert_set_def set_members_def join_texts_list)
  moreover have "convert_set mt f (VInt bits) = Inr (VStr (join '','' (mask_members bits 0 vs)))"
    using assms(1,2) by (simp add: convert_set_def set_members_def join_texts_list)
  ultimately show ?thesis using mask_members_filter[of bits 0 vs] by (simp only: add_0 simp_thms)
qed

theorem set_mask_and_names_agree_witness:
  "convert_set ''set(a,b,c)'' ((new_field ''s'' ''set'')\<lparr>additional_data := Some [''a'', ''b'', ''c'']\<rparr>)
      (VSet [VStr ''c'', VStr ''a'']) =
   convert_set ''set(a,b,c)'' ((new_field ''s'' ''set'')\<lparr>additional_data := Some [''a'', ''b'', ''c'']\<rparr>) (VInt 5)"
proof -
  have "set [VStr ''c'', VStr ''a''] = VStr ` set (mask_members 5 0 [''a'', ''b'', ''c''])"
    by (auto simp: bit_simps)
  then show ?thesis
    using set_mask_and_names_agree[of "''set(a,b,c)''" "(new_field ''s'' ''set'')\<lparr>additional_data := Some [''a'', ''b'', ''c'']\<rparr>"
        "[''a'', ''b'', ''c'']" "[VStr ''c'', VStr ''a'']" 5]
    by simp
qed

section \<open>NULL\<close>

lemma default_not_None: "get_default_value_for_type_python ct \<noteq> VNone"
  by (simp add: get_default_value_for_type_python_def Let_def split: option.split)

lemma wrap_negative_not_None:
  assumes "\<And>m v. pl_add lib m v \<noteq> VNone" and "wrap_negative lib b m v = Inr w" and "v \<noteq> VNone"
  shows "w \<noteq> VNone"
  using assms by (auto simp: wrap_negative_def add_int_def res_simps split: if_splits)

lemma convert_unsigned_not_None:
  assumes "\<And>m v. pl_add lib m v \<noteq> VNone" and "convert_unsigned lib mt ct v = Inr w" and "v \<noteq> VNone"
  shows "w \<noteq> VNone"
  using assms(2,3) wrap_negative_not_None[OF assms(1)] unfolding convert_unsigned_def bindE_Inr_iff by metis

lemma convert_set_not_None: "convert_set mt f v = Inr w \<Longrightarrow> v \<noteq> VNone \<Longrightarrow> w \<noteq> VNone"
  by (auto simp: convert_set_def join_texts_def res_simps split: if_splits)

text \<open>A column that is not nullable in ClickHouse never gets a NULL: whatever the MySQL value
  and type, when the conversion returns for a column whose ClickHouse type has no Nullable, the
  result is a value (a NULL that reaches the end becomes the default of the type).\<close>

theorem non_nullable_never_null:
  assumes "\<forall>m v. pl_add lib m v \<noteq> VNone" and "\<not> contains ct ''Nullable''"
    and "convert_value lib s f mt ct v = Inr w"
  shows "w \<noteq> VNone"
proof -
  obtain u where u: "convert_present lib s f mt ct u = Inr w"
    using assms(3) unfolding convert_value_def bindE_Inr_iff by blast
  show ?thesis
  proof (cases "u = VNone")
    case True
    with u assms(2) default_not_None show ?thesis by (auto simp: convert_present_def)
  next
    case False
    with u obtain u1 u2 u3 where steps: "convert_uuid lib ct u = Inr u1" "convert_unsigned lib mt ct u1 = Inr u2"
      "convert_text lib (text_charset s) mt ct u2 = Inr u3" "convert_set mt f u3 = Inr w"
      by (auto simp: convert_present_def res_simps)
    have "u1 \<noteq> VNone" using steps(1) False by (auto simp: convert_uuid_def res_simps split: if_splits)
    then have "u2 \<noteq> VNone" using convert_unsigned_not_None[of lib mt ct u1 u2] assms(1) steps(2) by blast
    then have "u3 \<noteq> VNone" using steps(3) by (auto simp: convert_text_def res_simps split: if_splits py_val.splits)
    then show ?thesis using convert_set_not_None[OF steps(4)] by simp
  qed
qed

theorem non_nullable_never_null_witness:
  "\<exists>w. convert_value sample_lib new_structure (new_field ''d'' ''date'') ''date'' ''Date32'' VNone = Inr w \<and> w \<noteq> VNone"
proof -
  have "convert_value sample_lib new_structure (new_field ''d'' ''date'') ''date'' ''Date32'' VNone = Inr (VDate 1970 1 1)"
    by code_simp
  then show ?thesis
    using non_nullable_never_null[of sample_lib "''Date32''" new_structure "new_field ''d'' ''date''" "''date''" VNone "VDate 1970 1 1"]
    by (simp add: sample_lib_def)
qed

end
