(* ===== verification/DbState.thy ===== *)
theory DbState
  imports AlterPlan Transactions
begin

text \<open>
  The persistent state of a database replicator: the class \<^verbatim>\<open>State\<close> of \<^verbatim>\<open>db_replicator.py\<close> and
  the enumeration \<^verbatim>\<open>Status\<close> of \<^verbatim>\<open>common.py\<close>. The table structures of the state are in
  \<^typ>\<open>rep_state\<close>. A state file is the dictionary that was pickled into it; its process id and
  time of saving are not kept.
\<close>

datatype Status = NONE | CREATING_INITIAL_STRUCTURES | PERFORMING_INITIAL_REPLICATION | RUNNING_REALTIME_REPLICATION

record db_state =
  last_processed_transaction :: "transaction option"
  last_processed_transaction_non_uploaded :: "transaction option"
  db_status :: Status
  initial_replication_table :: "string option"
  initial_replication_max_primary_key :: "py_val list option"
  state_tables :: "string list"

record saved_state =
  saved_transaction :: "transaction option"
  saved_status :: Status
  saved_versions :: "(string, int) dict"
  saved_table :: "string option"
  saved_max_primary_key :: "py_val list option"
  saved_structures :: "(string, table_structure \<times> table_structure) dict"
  saved_tables :: "string list"

definition new_db_state :: db_state where
  "new_db_state = \<lparr>last_processed_transaction = None, last_processed_transaction_non_uploaded = None,
     db_status = NONE, initial_replication_table = None, initial_replication_max_primary_key = None,
     state_tables = []\<rparr>"

text \<open>\<^verbatim>\<open>load\<close>: the state, the record versions and the table structures; the defaults without a file.\<close>

definition db_state_load :: "saved_state option
    \<Rightarrow> db_state \<times> (string, int) dict \<times> (string, table_structure \<times> table_structure) dict" where
  "db_state_load f =
    (case f of
       None \<Rightarrow> (new_db_state, [], [])
     | Some d \<Rightarrow>
         (\<lparr>last_processed_transaction = saved_transaction d,
           last_processed_transaction_non_uploaded = saved_transaction d,
           db_status = saved_status d, initial_replication_table = saved_table d,
           initial_replication_max_primary_key = saved_max_primary_key d, state_tables = saved_tables d\<rparr>,
          saved_versions d, saved_structures d))"

definition db_state_save :: "db_state \<Rightarrow> (string, int) dict
    \<Rightarrow> (string, table_structure \<times> table_structure) dict \<Rightarrow> saved_state" where
  "db_state_save s versions structures =
    \<lparr>saved_transaction = last_processed_transaction s, saved_status = db_status s, saved_versions = versions,
     saved_table = initial_replication_table s, saved_max_primary_key = initial_replication_max_primary_key s,
     saved_structures = structures, saved_tables = state_tables s\<rparr>"

lemma db_state_load_save:
  "db_state_load (Some (db_state_save s versions structures)) =
    (s\<lparr>last_processed_transaction_non_uploaded := last_processed_transaction s\<rparr>, versions, structures)"
  by (simp add: db_state_load_def db_state_save_def)

end
