(* ===== verification/Realtime.thy ===== *)
theory Realtime
  imports DbState RecordConvert
begin

text \<open>
  Realtime replication: \<^verbatim>\<open>db_replicator_realtime.py\<close>. Row events are collected per table, rows
  to insert by their record id and ids to delete, and uploaded in one go; statements upload first
  and then act on ClickHouse and on the table structures.

  Python compares and hashes record ids by value; ids of one table have the types of its key
  columns, for which this is equality of \<^typ>\<open>py_val\<close>. A set of ids is the list of its elements.
  \<^verbatim>\<open>time.time()\<close> takes the next reading of a clock; \<open>rt_log\<close> is a history variable that the code
  does not have: the stores of all uploads so far.
\<close>

section \<open>State\<close>

record Statistics =
  last_transaction :: "transaction option"
  events_count :: nat
  insert_events_count :: nat
  insert_records_count :: nat
  erase_events_count :: nat
  erase_records_count :: nat
  no_events_count :: nat

definition new_statistics :: Statistics where
  "new_statistics = \<lparr>last_transaction = None, events_count = 0, insert_events_count = 0, insert_records_count = 0,
     erase_events_count = 0, erase_records_count = 0, no_events_count = 0\<rparr>"

text \<open>What an upload stores: rows under their ids, or the removal of ids.\<close>

datatype store_op =
    StoreRows string "(py_val \<times> row) list"
  | StoreErase string "py_val list"

record realtime =
  rt_rep :: rep_state
  rt_state :: db_state
  records_to_insert :: "(string, (py_val, row) dict) dict"
  records_to_delete :: "(string, py_val list) dict"
  last_save_state_time :: int
  last_dump_stats_time :: int
  last_records_upload_time :: int
  rt_start_time :: int
  rt_stats :: Statistics
  rt_clock :: "int list"
  rt_saved :: "saved_state option"
  rt_log :: "store_op list"

text \<open>
  What the replicator is set up with: its configuration and names, the converter's settings, the
  functions of Python and of \<^verbatim>\<open>sqlparse\<close> that it uses, and the parser of CREATE TABLE.
\<close>

record rt_context =
  rx_rep :: db_rep
  rx_initial_only :: bool
  rx_conv :: conv
  rx_lib :: pylib
  rx_timestamp_ok :: "py_val \<Rightarrow> bool"
  rx_strip_comments :: "string \<Rightarrow> string"
  rx_parse_create :: "string \<Rightarrow> rep_state \<Rightarrow> (table_structure \<times> table_structure) res"

definition SAVE_STATE_INTERVAL :: int where "SAVE_STATE_INTERVAL = 10"
definition STATS_DUMP_INTERVAL :: int where "STATS_DUMP_INTERVAL = 60"
definition DATA_DUMP_INTERVAL :: int where "DATA_DUMP_INTERVAL = 1"
definition DATA_DUMP_BATCH_SIZE :: int where "DATA_DUMP_BATCH_SIZE = 100000"

definition new_realtime :: "rep_state \<Rightarrow> db_state \<Rightarrow> saved_state option \<Rightarrow> int \<Rightarrow> int list \<Rightarrow> realtime" where
  "new_realtime rep st saved start clock =
    \<lparr>rt_rep = rep, rt_state = st, records_to_insert = [], records_to_delete = [], last_save_state_time = 0,
     last_dump_stats_time = 0, last_records_upload_time = 0, rt_start_time = start, rt_stats = new_statistics,
     rt_clock = clock, rt_saved = saved, rt_log = []\<rparr>"

definition read_clock :: "(realtime, int) act" where
  "read_clock s = (case rt_clock s of [] \<Rightarrow> (Inr 0, s) | t # ts \<Rightarrow> (Inr t, s\<lparr>rt_clock := ts\<rparr>))"

definition on_rep :: "(rep_state, 'a) act \<Rightarrow> (realtime, 'a) act" where
  "on_rep f s = (case f (rt_rep s) of (r, rep) \<Rightarrow> (r, s\<lparr>rt_rep := rep\<rparr>))"

definition on_api :: "(api, 'a) act \<Rightarrow> (rep_state, 'a) act" where
  "on_api f s = (case f (ch_api s) of (r, a) \<Rightarrow> (r, s\<lparr>ch_api := a\<rparr>))"

definition on_stats :: "(Statistics \<Rightarrow> Statistics) \<Rightarrow> (realtime, unit) act" where
  "on_stats f = modifyA (\<lambda>s. s\<lparr>rt_stats := f (rt_stats s)\<rparr>)"

section \<open>Buffers\<close>

text \<open>\<^verbatim>\<open>defaultdict\<close>: a missing table has an empty buffer, which the access creates.\<close>

definition insert_buffer :: "realtime \<Rightarrow> string \<Rightarrow> (py_val, row) dict" where
  "insert_buffer s t = (case map_of (records_to_insert s) t of None \<Rightarrow> [] | Some d \<Rightarrow> d)"

definition delete_buffer :: "realtime \<Rightarrow> string \<Rightarrow> py_val list" where
  "delete_buffer s t = (case map_of (records_to_delete s) t of None \<Rightarrow> [] | Some d \<Rightarrow> d)"

definition put_buffers :: "string \<Rightarrow> (py_val, row) dict \<Rightarrow> py_val list \<Rightarrow> realtime \<Rightarrow> realtime" where
  "put_buffers t ins del s =
    s\<lparr>records_to_insert := AList.update t ins (records_to_insert s),
      records_to_delete := AList.update t del (records_to_delete s)\<rparr>"

definition hashable :: "py_val \<Rightarrow> bool" where
  "hashable v = (case v of VList _ \<Rightarrow> False | VSet _ \<Rightarrow> False | VDict _ \<Rightarrow> False | _ \<Rightarrow> True)"

definition key_value :: "table_structure \<Rightarrow> row \<Rightarrow> nat \<Rightarrow> py_val res" where
  "key_value ch rec idx =
    bindE (nthE rec idx) (\<lambda>v.
    bindE (nthE (table_fields ch) idx) (\<lambda>f.
    case v of
      VBytes bs \<Rightarrow>
        if contains (field_type f) ''UUID''
        then raise_if (length bs \<noteq> 16) ValueError (Inr (VUuid bs)) else Inr v
    | _ \<Rightarrow> Inr v))"

definition get_record_id :: "table_structure \<Rightarrow> row \<Rightarrow> py_val res" where
  "get_record_id ch rec =
    (case primary_key_ids ch of
       None \<Rightarrow> Inl TypeError
     | Some ids \<Rightarrow>
         bindE (mapE (key_value ch rec) ids) (\<lambda>vs. Inr (case vs of [v] \<Rightarrow> v | _ \<Rightarrow> VTuple vs)))"

definition check_hashable :: "py_val \<Rightarrow> py_val res" where
  "check_hashable v = (if hashable v \<and> (case v of VTuple vs \<Rightarrow> list_all hashable vs | _ \<Rightarrow> True) then Inr v else Inl TypeError)"

definition buffer_insert :: "table_structure \<Rightarrow> string \<Rightarrow> row \<Rightarrow> (realtime, unit) act" where
  "buffer_insert ch t rec =
    bindA (liftA (\<lambda>_. bindE (get_record_id ch rec) check_hashable)) (\<lambda>record_id.
    modifyA (\<lambda>s. put_buffers t (AList.update record_id rec (insert_buffer s t))
                   (removeAll record_id (delete_buffer s t)) s))"

definition buffer_erase :: "string \<Rightarrow> py_val \<Rightarrow> (realtime, unit) act" where
  "buffer_erase t key =
    bindA (liftA (\<lambda>_. check_hashable key)) (\<lambda>record_id.
    modifyA (\<lambda>s. put_buffers t (AList.delete record_id (insert_buffer s t))
                   (List.insert record_id (delete_buffer s t)) s))"

section \<open>Uploading\<close>

definition save_state_if_required :: "bool \<Rightarrow> (realtime, unit) act" where
  "save_state_if_required force =
    bindA read_clock (\<lambda>curr_time s.
      if curr_time - last_save_state_time s < SAVE_STATE_INTERVAL \<and> \<not> force then (Inr (), s)
      else (Inr (), s\<lparr>last_save_state_time := curr_time,
              rt_saved := Some (db_state_save (rt_state s) (tables_last_record_version (ch_api (rt_rep s)))
                (tables_structure (rt_rep s)))\<rparr>))"

text \<open>The stores of an upload, in order: non-empty insert buffers, then non-empty delete buffers.\<close>

definition pending :: "realtime \<Rightarrow> store_op list" where
  "pending s =
    map (\<lambda>(t, d). StoreRows t d) (filter (\<lambda>(t, d). d \<noteq> []) (records_to_insert s))
    @ map (\<lambda>(t, ks). StoreErase t ks) (filter (\<lambda>(t, ks). ks \<noteq> []) (records_to_delete s))"

definition target_name :: "rt_context \<Rightarrow> string \<Rightarrow> string" where
  "target_name cx t = rep_target_table_name (rx_rep cx) t"

fun upload_store :: "rt_context \<Rightarrow> store_op \<Rightarrow> (rep_state, unit) act" where
  "upload_store cx (StoreRows t d) =
    bindA (get_structures t) (\<lambda>(m, c).
      on_api (ch_insert (rx_timestamp_ok cx) (target_name cx t) (map snd d) (Some c)))"
| "upload_store cx (StoreErase t ks) =
    bindA (get_structures t) (\<lambda>(m, c).
      on_api (erase (rep_str (rx_rep cx)) (target_name cx t) (primary_keys m) ks))"

definition perform_store :: "rt_context \<Rightarrow> store_op \<Rightarrow> (realtime, unit) act" where
  "perform_store cx op =
    bindA (on_rep (upload_store cx op)) (\<lambda>_. modifyA (\<lambda>s. s\<lparr>rt_log := rt_log s @ [op]\<rparr>))"

definition finish_upload :: "realtime \<Rightarrow> realtime" where
  "finish_upload s =
    s\<lparr>records_to_insert := [], records_to_delete := [],
      rt_state := (rt_state s)\<lparr>last_processed_transaction := last_processed_transaction_non_uploaded (rt_state s)\<rparr>\<rparr>"

definition upload_records :: "rt_context \<Rightarrow> (realtime, unit) act" where
  "upload_records cx =
    bindA read_clock (\<lambda>now.
    bindA (modifyA (\<lambda>s. s\<lparr>last_records_upload_time := now\<rparr>)) (\<lambda>_.
    bindA (\<lambda>s. mapA (perform_store cx) (pending s) s) (\<lambda>_.
    bindA (modifyA finish_upload) (\<lambda>_.
    save_state_if_required False))))"

definition upload_records_if_required :: "rt_context \<Rightarrow> string option \<Rightarrow> (realtime, unit) act" where
  "upload_records_if_required cx table =
    bindA (modifyA (\<lambda>s. case table of None \<Rightarrow> s
             | Some t \<Rightarrow> put_buffers t (insert_buffer s t) (delete_buffer s t) s)) (\<lambda>_.
    bindA read_clock (\<lambda>curr_time s.
      if (case table of None \<Rightarrow> False
          | Some t \<Rightarrow> DATA_DUMP_BATCH_SIZE \<le> int (length (insert_buffer s t)) \<or> DATA_DUMP_BATCH_SIZE \<le> int (length (delete_buffer s t)))
         \<or> DATA_DUMP_INTERVAL \<le> curr_time - last_records_upload_time s
      then upload_records cx s else (Inr (), s)))"

section \<open>Row events\<close>

definition event_rows :: "log_event \<Rightarrow> row list" where
  "event_rows ev = (case records_of ev of Rows rs \<Rightarrow> rs | Query _ \<Rightarrow> [])"

definition handle_insert_event :: "rt_context \<Rightarrow> log_event \<Rightarrow> (realtime, unit) act" where
  "handle_insert_event cx ev =
    bindA (on_stats (\<lambda>st. st\<lparr>insert_events_count := insert_events_count st + 1,
             insert_records_count := insert_records_count st + records_len (records_of ev)\<rparr>)) (\<lambda>_.
    bindA (on_rep (get_structures (event_table ev))) (\<lambda>(m, c).
    bindA (liftA (\<lambda>_. convert_records (rx_lib cx) (event_rows ev) m c False)) (\<lambda>recs.
    bindA (modifyA (\<lambda>s. put_buffers (event_table ev) (insert_buffer s (event_table ev)) (delete_buffer s (event_table ev)) s)) (\<lambda>_.
    mapA (buffer_insert c (event_table ev)) recs))))"

definition handle_erase_event :: "rt_context \<Rightarrow> log_event \<Rightarrow> (realtime, unit) act" where
  "handle_erase_event cx ev =
    (if truthy (ignore_deletes (rep_settings (rx_rep cx))) then retA ()
     else
       bindA (on_stats (\<lambda>st. st\<lparr>erase_events_count := erase_events_count st + 1,
                erase_records_count := erase_records_count st + records_len (records_of ev)\<rparr>)) (\<lambda>_.
       bindA (on_rep (get_structures (event_table ev))) (\<lambda>(m, c).
       bindA (liftA (\<lambda>_. bindE (convert_records (rx_lib cx) (event_rows ev) m c True) (mapE (get_record_id c)))) (\<lambda>keys.
       bindA (modifyA (\<lambda>s. put_buffers (event_table ev) (insert_buffer s (event_table ev)) (delete_buffer s (event_table ev)) s)) (\<lambda>_.
       mapA (buffer_erase (event_table ev)) keys)))))"

section \<open>Statements\<close>

definition handle_create_table_query :: "rt_context \<Rightarrow> string \<Rightarrow> (rep_state, unit) act" where
  "handle_create_table_query cx q =
    bindA (liftA (rx_parse_create cx q)) (\<lambda>(m, c).
    bindA (liftA (\<lambda>_. is_table_matches (rep_settings (rx_rep cx)) (table_name m))) (\<lambda>matches_config.
    if \<not> matches_config then retA ()
    else
      let c = c\<lparr>table_name := target_name cx (table_name m), if_not_exists := True\<rparr> in
      bindA (put_structures (table_name m) (m, c)) (\<lambda>_.
      bindA (liftA (\<lambda>_. bindE (get_indexes (rep_settings (rx_rep cx)) (rep_database (rx_rep cx)) (table_name m)) (mapE text_of))) (\<lambda>idx.
      bindA (liftA (\<lambda>_. get_partition_bys (rep_settings (rx_rep cx)) (rep_database (rx_rep cx)) (table_name m))) (\<lambda>parts.
      on_api (create_table c idx (map (\<lambda>v. case v of VStr p \<Rightarrow> p | _ \<Rightarrow> rep_str (rx_rep cx) v) parts) []))))))"

text \<open>A command behind the quoted name of a table, with the cluster clause at the end.\<close>

definition table_command :: "string \<Rightarrow> string \<Rightarrow> string \<Rightarrow> (rep_state, unit) act" where
  "table_command head db tbl s =
    run_command (head @ ''`'' @ db @ ''`.`'' @ tbl @ ''` '' @ get_on_cluster_clause (ch_api s)) s"

definition pop_structure :: "string \<Rightarrow> (rep_state, unit) act" where
  "pop_structure t = modifyA (\<lambda>s. s\<lparr>tables_structure := AList.delete t (tables_structure s)\<rparr>)"

definition handle_drop_table_query :: "rt_context \<Rightarrow> string \<Rightarrow> string \<Rightarrow> (rep_state, unit) act" where
  "handle_drop_table_query cx q db =
    (let tokens = split_ws q;
         if_exists = (4 < length tokens \<and> lower (tokens ! 2) = ''if'' \<and> lower (tokens ! 3) = ''exists'');
         rest = (if if_exists then take 2 tokens @ drop 4 tokens else tokens) in
     bindA (liftA (\<lambda>_. nthE tokens 0)) (\<lambda>t0.
     bindA (liftA (\<lambda>_. if lower t0 \<noteq> ''drop'' then Inl (PyException ''wrong drop table query'')
              else bindE (nthE tokens 1) (\<lambda>t1. raise_if (lower t1 \<noteq> ''table'') (PyException ''wrong drop table query'') (Inr ())))) (\<lambda>_.
     if length rest \<noteq> 3 then raiseA (PyException ''wrong token count'')
     else
       bindA (liftA (\<lambda>_. get_db_and_table_name (Some (rx_rep cx)) (rest ! 2) db)) (\<lambda>(d, t, matches_config).
       if \<not> matches_config then retA ()
       else
         bindA (pop_structure t) (\<lambda>_.
         table_command (''DROP TABLE '' @ (if if_exists then ''IF EXISTS'' else []) @ '' '') d (target_name cx t))))))"

text \<open>One clause of RENAME TABLE: the text for ClickHouse, or None when the table is not replicated.\<close>

definition rename_clause :: "rt_context \<Rightarrow> string \<Rightarrow> string \<Rightarrow> (rep_state, string option) act" where
  "rename_clause cx db clause_text =
    (case split_ws clause_text of
       [src, to, dest] \<Rightarrow>
         if lower to \<noteq> ''to'' then raiseA (PyException ''to keyword expected'')
         else
           bindA (liftA (\<lambda>_. get_db_and_table_name (Some (rx_rep cx)) src db)) (\<lambda>(sd, st, matches_config).
           bindA (liftA (\<lambda>_. get_db_and_table_name (Some (rx_rep cx)) dest db)) (\<lambda>(dd, dt, _).
           if \<not> matches_config then retA None
           else if sd \<noteq> rep_target_database (rx_rep cx) \<or> dd \<noteq> rep_target_database (rx_rep cx)
           then raiseA (PyException ''cross databases table renames not implemented'')
           else
             bindA (modifyA (\<lambda>s. case map_of (tables_structure s) st of
                       None \<Rightarrow> s
                     | Some p \<Rightarrow> s\<lparr>tables_structure := AList.update dt p (AList.delete st (tables_structure s))\<rparr>)) (\<lambda>_.
             retA (Some (''`'' @ sd @ ''`.`'' @ target_name cx st @ ''` TO `'' @ dd @ ''`.`'' @ target_name cx dt @ ''`'')))))
     | _ \<Rightarrow> raiseA (PyException ''wrong token count''))"

fun rename_clauses :: "rt_context \<Rightarrow> string \<Rightarrow> string list \<Rightarrow> string list \<Rightarrow> (rep_state, string list option) act" where
  "rename_clauses cx db [] done_clauses = retA (Some done_clauses)"
| "rename_clauses cx db (c # cs) done_clauses =
    bindA (rename_clause cx db c) (\<lambda>r.
      case r of None \<Rightarrow> retA None | Some text \<Rightarrow> rename_clauses cx db cs (done_clauses @ [text]))"

definition handle_rename_table_query :: "rt_context \<Rightarrow> string \<Rightarrow> string \<Rightarrow> (rep_state, unit) act" where
  "handle_rename_table_query cx q db =
    (let tokens = split_ws q in
     bindA (liftA (\<lambda>_. nthE tokens 0)) (\<lambda>t0.
     bindA (liftA (\<lambda>_. if lower t0 \<noteq> ''rename'' then Inl (PyException ''wrong rename table query'')
              else bindE (nthE tokens 1) (\<lambda>t1. raise_if (lower t1 \<noteq> ''table'') (PyException ''wrong rename table query'') (Inr ())))) (\<lambda>_.
     bindA (rename_clauses cx db (split_char (CHR '','') (join '' '' (drop 2 tokens))) []) (\<lambda>r.
     case r of
       None \<Rightarrow> retA ()
     | Some clauses \<Rightarrow> (\<lambda>s. run_command (''RENAME TABLE '' @ join '', '' clauses @ '' '' @ get_on_cluster_clause (ch_api s)) s)))))"

definition handle_truncate_query :: "rt_context \<Rightarrow> string \<Rightarrow> string \<Rightarrow> (realtime, unit) act" where
  "handle_truncate_query cx q db =
    (let tokens = split_ws (strip q) in
     if length tokens < 2 \<or> lower (tokens ! 0) \<noteq> ''truncate'' then raiseA (PyException ''Invalid TRUNCATE query format'')
     else if lower (tokens ! 1) = ''table'' \<and> length tokens < 3 then raiseA (PyException ''Invalid TRUNCATE query format'')
     else
       bindA (liftA (\<lambda>_. get_db_and_table_name (Some (rx_rep cx))
                (if lower (tokens ! 1) = ''table'' then tokens ! 2 else tokens ! 1) db)) (\<lambda>(d, t, matches_config).
       if \<not> matches_config then retA ()
       else (\<lambda>s.
         if map_of (tables_structure (rt_rep s)) t = None then (Inr (), s)
         else
           bindA (modifyA (\<lambda>s. s\<lparr>
               records_to_insert := (if map_of (records_to_insert s) t = None then records_to_insert s
                                     else AList.update t [] (records_to_insert s)),
               records_to_delete := (if map_of (records_to_delete s) t = None then records_to_delete s
                                     else AList.update t [] (records_to_delete s))\<rparr>)) (\<lambda>_.
           on_rep (table_command ''TRUNCATE TABLE '' d (target_name cx t))) s)))"

definition event_query :: "log_event \<Rightarrow> string" where
  "event_query ev = (case records_of ev of Query q \<Rightarrow> q | Rows _ \<Rightarrow> [])"

text \<open>The conditions are tested one after the other; at most one of them holds for a query.\<close>

definition handle_query_event :: "rt_context \<Rightarrow> log_event \<Rightarrow> (realtime, unit) act" where
  "handle_query_event cx ev =
    (let q = rx_strip_comments cx (event_query ev);
         when = (\<lambda>p act. if startswith (lower q) p then act else retA ()) in
     bindA (when ''alter'' (bindA (upload_records cx) (\<lambda>_.
              on_rep (convert_alter_query (Some (rx_rep cx)) (rx_conv cx) q (db_name ev))))) (\<lambda>_.
     bindA (when ''create table'' (on_rep (handle_create_table_query cx q))) (\<lambda>_.
     bindA (when ''drop table'' (bindA (upload_records cx) (\<lambda>_. on_rep (handle_drop_table_query cx q (db_name ev))))) (\<lambda>_.
     bindA (when ''rename table'' (bindA (upload_records cx) (\<lambda>_. on_rep (handle_rename_table_query cx q (db_name ev))))) (\<lambda>_.
     when ''truncate'' (bindA (upload_records cx) (\<lambda>_. handle_truncate_query cx q (db_name ev))))))))"

section \<open>The loop\<close>

definition log_stats_if_required :: "(realtime, unit) act" where
  "log_stats_if_required =
    bindA read_clock (\<lambda>curr_time s.
      if curr_time - last_dump_stats_time s < STATS_DUMP_INTERVAL then (Inr (), s)
      else (Inr (), s\<lparr>last_dump_stats_time := curr_time,
              rt_rep := (rt_rep s)\<lparr>ch_api := snd (get_stats (ch_api (rt_rep s)))\<rparr>, rt_stats := new_statistics\<rparr>))"

definition dispatch :: "rt_context \<Rightarrow> log_event \<Rightarrow> (realtime, unit) act" where
  "dispatch cx ev =
    (case event_type_of ev of
       ADD_EVENT \<Rightarrow> handle_insert_event cx ev
     | REMOVE_EVENT \<Rightarrow> handle_erase_event cx ev
     | QUERY \<Rightarrow> handle_query_event cx ev
     | UNKNOWN \<Rightarrow> raiseA KeyError)"

definition note_processed :: "log_event \<Rightarrow> realtime \<Rightarrow> realtime" where
  "note_processed ev s =
    s\<lparr>rt_stats := (rt_stats s)\<lparr>events_count := events_count (rt_stats s) + 1, last_transaction := Some (transaction_id ev)\<rparr>,
      rt_state := (rt_state s)\<lparr>last_processed_transaction_non_uploaded := Some (transaction_id ev)\<rparr>\<rparr>"

definition already_processed :: "realtime \<Rightarrow> log_event \<Rightarrow> bool" where
  "already_processed s ev =
    (case last_processed_transaction_non_uploaded (rt_state s) of
       None \<Rightarrow> False | Some t \<Rightarrow> transaction_id ev \<le> t)"

definition handle_event :: "rt_context \<Rightarrow> log_event \<Rightarrow> (realtime, unit) act" where
  "handle_event cx ev s =
    (if already_processed s ev then (Inr (), s)
     else
       bindA (liftA (\<lambda>_. if event_table ev = [] then Inr True
                else is_table_matches (rep_settings (rx_rep cx)) (event_table ev))) (\<lambda>wanted.
       bindA (if wanted then dispatch cx ev else retA ()) (\<lambda>_.
       bindA (modifyA (note_processed ev)) (\<lambda>_.
       bindA (upload_records_if_required cx (Some (event_table ev))) (\<lambda>_.
       bindA (save_state_if_required False) (\<lambda>_.
       log_stats_if_required))))) s)"

definition handle_idle :: "rt_context \<Rightarrow> (realtime, unit) act" where
  "handle_idle cx =
    bindA (upload_records_if_required cx None) (\<lambda>_.
    bindA (on_stats (\<lambda>st. st\<lparr>no_events_count := no_events_count st + 1\<rparr>)) (\<lambda>_.
    log_stats_if_required))"

definition handle_poll :: "rt_context \<Rightarrow> log_event option \<Rightarrow> (realtime, unit) act" where
  "handle_poll cx p =
    (case p of
       None \<Rightarrow> handle_idle cx
     | Some ev \<Rightarrow>
         if db_name ev \<noteq> rep_database (rx_rep cx) then raiseA AssertionError
         else handle_event cx (ev\<lparr>db_name := rep_target_database (rx_rep cx)\<rparr>))"

text \<open>
  \<^verbatim>\<open>auto_restart_interval\<close>: whether the interval is set and has passed. Only an integer is a
  valid interval.
\<close>

definition restart_due :: "rt_context \<Rightarrow> (realtime, bool) act" where
  "restart_due cx s =
    (let interval = auto_restart_interval (rep_settings (rx_rep cx)) in
     if truthy interval then
       bindA read_clock (\<lambda>curr_time s. (Inr (int_of interval \<le> curr_time - rt_start_time s), s)) s
     else (Inr False, s))"

text \<open>The polls of the relay until the process is told to stop.\<close>

fun realtime_loop :: "rt_context \<Rightarrow> log_event option list \<Rightarrow> (realtime, unit) act" where
  "realtime_loop cx [] = retA ()"
| "realtime_loop cx (p # ps) =
    bindA (restart_due cx) (\<lambda>due. if due then retA () else bindA (handle_poll cx p) (\<lambda>_. realtime_loop cx ps))"

definition start_realtime :: "realtime \<Rightarrow> realtime" where
  "start_realtime s =
    (let st = (rt_state s)\<lparr>db_status := RUNNING_REALTIME_REPLICATION\<rparr> in
     s\<lparr>rt_state := st, rt_saved := Some (db_state_save st (tables_last_record_version (ch_api (rt_rep s)))
         (tables_structure (rt_rep s)))\<rparr>)"

definition run_realtime_replication :: "rt_context \<Rightarrow> log_event option list \<Rightarrow> (realtime, unit) act" where
  "run_realtime_replication cx polls =
    (if rx_initial_only cx then modifyA (\<lambda>s. s\<lparr>rt_saved := None\<rparr>)
     else
       bindA (modifyA start_realtime) (\<lambda>_.
       bindA (realtime_loop cx polls) (\<lambda>_.
       bindA (upload_records cx) (\<lambda>_.
       save_state_if_required True))))"

end
