(* ===== verification/Delivery.thy ===== *)
theory Delivery
  imports Realtime "HOL-Library.Sublist"
begin

text \<open>
  What realtime replication guarantees for row events: whenever the buffers are uploaded, and
  however often the process dies and starts again from its saved state, the tables in
  ClickHouse end up as if every event had been applied once and in order. A table is a map from
  record ids to rows: the newest insert of an id wins and an erase removes it. In ClickHouse the
  row with the greatest version wins; the versions of one process grow from upload to upload, so
  that this is the newest. The last section shows where the code does not live up to this model:
  versions that fall back after a crash, a position that is forgotten, a RENAME done by half.
\<close>

section \<open>Row operations\<close>

datatype row_op = Put string py_val row | Del string py_val

type_synonym target = "string \<times> py_val \<Rightarrow> row option"

fun op_key :: "row_op \<Rightarrow> string \<times> py_val" where
  "op_key (Put t k r) = (t, k)"
| "op_key (Del t k) = (t, k)"

fun op_val :: "row_op \<Rightarrow> row option" where
  "op_val (Put t k r) = Some r"
| "op_val (Del t k) = None"

definition apply_op :: "row_op \<Rightarrow> target \<Rightarrow> target" where
  "apply_op op g = g(op_key op := op_val op)"

fun store_ops :: "store_op \<Rightarrow> row_op list" where
  "store_ops (StoreRows t d) = map (\<lambda>(k, r). Put t k r) d"
| "store_ops (StoreErase t ks) = map (Del t) ks"

abbreviation stored_ops :: "store_op list \<Rightarrow> row_op list" where
  "stored_ops ops \<equiv> concat (map store_ops ops)"

text \<open>The tables after a list of uploads.\<close>

definition stored :: "store_op list \<Rightarrow> target \<Rightarrow> target" where
  "stored ops = fold apply_op (stored_ops ops)"

text \<open>The last write of each id in a list of operations.\<close>

definition writes :: "row_op list \<Rightarrow> (string \<times> py_val) \<rightharpoonup> row option" where
  "writes ops = map_of (rev (map (\<lambda>op. (op_key op, op_val op)) ops))"

definition overwrite :: "((string \<times> py_val) \<rightharpoonup> row option) \<Rightarrow> target \<Rightarrow> target" where
  "overwrite w g x = (case w x of None \<Rightarrow> g x | Some v \<Rightarrow> v)"

lemma writes_Nil [simp]: "writes [] = Map.empty"
  by (simp add: writes_def)

lemma writes_append [simp]: "writes (xs @ ys) = writes xs ++ writes ys"
  by (simp add: writes_def)

lemma writes_Cons: "writes (x # xs) = [op_key x \<mapsto> op_val x] ++ writes xs"
  by (simp add: writes_def)

lemma dom_writes: "dom (writes ops) = op_key ` set ops"
  by (auto simp: writes_def dom_map_of_conv_image_fst image_image)

lemma overwrite_empty [simp]: "overwrite Map.empty g = g"
  by (simp add: overwrite_def fun_eq_iff)

lemma overwrite_add: "overwrite (v ++ w) g = overwrite w (overwrite v g)"
  by (auto simp: overwrite_def fun_eq_iff map_add_def split: option.splits)

lemma fold_apply_op: "fold apply_op ops g = overwrite (writes ops) g"
proof (induction ops arbitrary: g)
  case Nil
  then show ?case by simp
next
  case (Cons op ops)
  have "apply_op op g = overwrite [op_key op \<mapsto> op_val op] g"
    by (auto simp: apply_op_def overwrite_def fun_eq_iff)
  then show ?case using Cons.IH by (simp add: writes_Cons overwrite_add)
qed

lemma stored_overwrite: "stored ops g = overwrite (writes (stored_ops ops)) g"
  by (simp add: stored_def fold_apply_op)

section \<open>The buffers\<close>

text \<open>No id is both to be inserted and to be deleted.\<close>

definition buffers_ok :: "realtime \<Rightarrow> bool" where
  "buffers_ok s \<longleftrightarrow> dict_wf (records_to_insert s) \<and> dict_wf (records_to_delete s)
    \<and> (\<forall>t. dict_wf (insert_buffer s t) \<and> distinct (delete_buffer s t)
          \<and> fst ` set (insert_buffer s t) \<inter> set (delete_buffer s t) = {})"

definition buffered :: "realtime \<Rightarrow> (string \<times> py_val) \<rightharpoonup> row option" where
  "buffered s = (\<lambda>(t, k).
    case map_of (insert_buffer s t) k of
      Some r \<Rightarrow> Some (Some r)
    | None \<Rightarrow> if k \<in> set (delete_buffer s t) then Some None else None)"

lemma writes_rows:
  "dict_wf d \<Longrightarrow> writes (store_ops (StoreRows t d)) (t', k) = (if t' = t then map_option Some (map_of d k) else None)"
proof (induction d)
  case Nil
  then show ?case by simp
next
  case (Cons p d)
  obtain a r where p: "p = (a, r)" by (rule prod.exhaust)
  with Cons.prems have wf: "dict_wf d" and "a \<notin> fst ` set d" by (auto simp: dict_wf_def)
  then have "map_of d a = None" by (simp add: map_of_None_keys)
  then show ?case using Cons.IH [OF wf] p by (auto simp: writes_Cons map_add_def split: option.splits)
qed

lemma writes_erase: "writes (store_ops (StoreErase t ks)) (t', k) = (if t' = t then (if k \<in> set ks then Some None else None) else None)"
  by (induction ks) (auto simp: writes_Cons map_add_def split: option.splits if_splits)

lemma writes_tables:
  assumes "\<And>t d t' k. ok d \<Longrightarrow> writes (store_ops (f t d)) (t', k) = (if t' = t then val d k else None)"
    and "\<And>k. val [] k = None"
    and "dict_wf L" and "\<forall>(t, d) \<in> set L. ok d"
  shows "writes (stored_ops (map (\<lambda>(t, d). f t d) (filter (\<lambda>(t, d). d \<noteq> []) L))) (t, k) =
    (case map_of L t of None \<Rightarrow> None | Some d \<Rightarrow> val d k)"
  using assms(3,4)
proof (induction L)
  case Nil
  then show ?case by simp
next
  case (Cons p L)
  obtain a d where p: "p = (a, d)" by (rule prod.exhaust)
  with Cons.prems have wf: "dict_wf L" and "a \<notin> fst ` set L" and ok: "ok d" "\<forall>(t, d) \<in> set L. ok d"
    by (auto simp: dict_wf_def)
  then have none: "map_of L a = None" by (simp add: map_of_None_keys)
  show ?case using Cons.IH [OF wf ok(2)] p none assms(1) [OF ok(1)] assms(2)
    by (cases "d = []") (auto simp: map_add_def split: option.splits)
qed

lemma writes_pending:
  assumes "buffers_ok s"
  shows "writes (stored_ops (pending s)) = buffered s"
proof
  fix x :: "string \<times> py_val"
  obtain t k where x: "x = (t, k)" by (rule prod.exhaust)
  have wf: "dict_wf (records_to_insert s)" "dict_wf (records_to_delete s)"
    and tables: "\<And>t. dict_wf (insert_buffer s t)" using assms by (auto simp: buffers_ok_def)
  have "\<forall>(t, d) \<in> set (records_to_insert s). dict_wf d"
    using tables wf(1) by (auto simp: insert_buffer_def dict_wf_map_of_iff split: option.splits) (metis option.simps(5))
  then have ins: "writes (stored_ops (map (\<lambda>(t, d). StoreRows t d) (filter (\<lambda>(t, d). d \<noteq> []) (records_to_insert s)))) (t, k)
      = map_option Some (map_of (insert_buffer s t) k)"
    by (subst writes_tables [where ok = dict_wf and val = "\<lambda>d k. map_option Some (map_of d k)", OF writes_rows _ wf(1)])
      (auto simp: insert_buffer_def split: option.splits)
  have del: "writes (stored_ops (map (\<lambda>(t, ks). StoreErase t ks) (filter (\<lambda>(t, ks). ks \<noteq> []) (records_to_delete s)))) (t, k)
      = (if k \<in> set (delete_buffer s t) then Some None else None)"
    by (subst writes_tables [where ok = "\<lambda>_. True" and val = "\<lambda>ks k. if k \<in> set ks then Some None else None", OF writes_erase _ wf(2)])
      (auto simp: delete_buffer_def split: option.splits)
  have disjoint: "k \<in> set (delete_buffer s t) \<Longrightarrow> map_of (insert_buffer s t) k = None"
    using assms by (auto simp: buffers_ok_def map_of_None_keys)
  show "writes (stored_ops (pending s)) x = buffered s x"
    using disjoint by (auto simp: x pending_def ins del map_add_def buffered_def simp del: map_map split: option.splits)
qed

lemma insert_buffer_put [simp]: "insert_buffer (put_buffers t i d s) t' = (if t' = t then i else insert_buffer s t')"
  by (simp add: insert_buffer_def put_buffers_def)

lemma delete_buffer_put [simp]: "delete_buffer (put_buffers t i d s) t' = (if t' = t then d else delete_buffer s t')"
  by (simp add: delete_buffer_def put_buffers_def)

lemma buffers_ok_put:
  assumes "buffers_ok s" "dict_wf i" "distinct d" "fst ` set i \<inter> set d = {}"
  shows "buffers_ok (put_buffers t i d s)"
  using assms by (simp add: buffers_ok_def) (simp add: put_buffers_def)

text \<open>Apart from the buffers, the statistics and the times nothing differs.\<close>

definition only_buffers :: "realtime \<Rightarrow> realtime \<Rightarrow> bool" where
  "only_buffers s s' \<longleftrightarrow>
    rt_rep s' = rt_rep s \<and> rt_state s' = rt_state s \<and> rt_saved s' = rt_saved s \<and> rt_log s' = rt_log s"

lemma only_buffers_refl [simp]: "only_buffers s s"
  by (simp add: only_buffers_def)

lemma only_buffers_trans: "only_buffers s t \<Longrightarrow> only_buffers t u \<Longrightarrow> only_buffers s u"
  by (simp add: only_buffers_def)

lemma only_buffers_put [simp]: "only_buffers s (put_buffers t i d s)"
  by (simp add: only_buffers_def put_buffers_def)

text \<open>
  A method that puts one operation into the buffers, or raises and leaves them alone; and the
  loop over such a method.
\<close>

locale buffer_step =
  fixes step :: "'a \<Rightarrow> (realtime, unit) act" and op :: "'a \<Rightarrow> row_op res"
  assumes step_raises: "op x = Inl e \<Longrightarrow> step x s = (Inl e, s)"
    and step_returns: "op x = Inr w \<Longrightarrow> buffers_ok s \<Longrightarrow>
      \<exists>s'. step x s = (Inr (), s') \<and> buffers_ok s' \<and> only_buffers s s'
        \<and> buffered s' = buffered s ++ [op_key w \<mapsto> op_val w]"
begin

lemma loop_returns:
  "mapE op xs = Inr ws \<Longrightarrow> buffers_ok s \<Longrightarrow>
    \<exists>s'. mapA step xs s = (Inr (), s') \<and> buffers_ok s' \<and> only_buffers s s' \<and> buffered s' = buffered s ++ writes ws"
proof (induction xs arbitrary: ws s)
  case Nil
  then show ?case by (auto simp: retA_def)
next
  case (Cons x xs)
  then obtain w ws' where w: "op x = Inr w" "mapE op xs = Inr ws'" "ws = w # ws'" by (auto simp: res_simps)
  obtain t where t: "step x s = (Inr (), t)" "buffers_ok t" "only_buffers s t" "buffered t = buffered s ++ [op_key w \<mapsto> op_val w]"
    using step_returns [OF w(1) Cons.prems(2)] by blast
  obtain u where "mapA step xs t = (Inr (), u)" "buffers_ok u" "only_buffers t u" "buffered u = buffered t ++ writes ws'"
    using Cons.IH [OF w(2) t(2)] by blast
  with t show ?case by (auto simp: bindA_Inr_iff w(3) writes_Cons intro: only_buffers_trans)
qed

lemma loop_raises:
  "mapE op xs = Inl e \<Longrightarrow> buffers_ok s \<Longrightarrow> \<exists>s'. mapA step xs s = (Inl e, s') \<and> only_buffers s s'"
proof (induction xs arbitrary: s)
  case Nil
  then show ?case by simp
next
  case (Cons x xs)
  show ?case
  proof (cases "op x")
    case (Inl e')
    with Cons.prems step_raises [OF Inl, of s] show ?thesis by (auto simp: bindA_def)
  next
    case (Inr w)
    with Cons.prems have "mapE op xs = Inl e" by (auto simp: res_simps)
    moreover obtain t where t: "step x s = (Inr (), t)" "buffers_ok t" "only_buffers s t"
      using step_returns [OF Inr Cons.prems(2)] by blast
    ultimately obtain u where "mapA step xs t = (Inl e, u)" "only_buffers t u" using Cons.IH by blast
    with t show ?thesis by (auto simp: bindA_def intro: only_buffers_trans)
  qed
qed

end

definition insert_op :: "table_structure \<Rightarrow> string \<Rightarrow> row \<Rightarrow> row_op res" where
  "insert_op ch t rec = bindE (get_record_id ch rec) (\<lambda>v. bindE (check_hashable v) (\<lambda>k. Inr (Put t k rec)))"

definition erase_op :: "string \<Rightarrow> py_val \<Rightarrow> row_op res" where
  "erase_op t key = bindE (check_hashable key) (\<lambda>k. Inr (Del t k))"

lemma keys_delete: "fst ` set (AList.delete k d) = fst ` set d - {k}"
  by (auto simp: AList.delete_eq)

lemma buffered_put_insert:
  "buffered (put_buffers t (AList.update k r (insert_buffer s t)) (removeAll k (delete_buffer s t)) s)
    = buffered s ++ [(t, k) \<mapsto> Some r]"
  by (auto simp: buffered_def fun_eq_iff map_add_def split: option.splits)

lemma buffered_put_erase:
  "buffered (put_buffers t (AList.delete k (insert_buffer s t)) (List.insert k (delete_buffer s t)) s)
    = buffered s ++ [(t, k) \<mapsto> None]"
  by (auto simp: buffered_def fun_eq_iff map_add_def split: option.splits)

interpretation ins: buffer_step "buffer_insert ch t" "insert_op ch t" for ch t
proof
  fix x s e
  assume "insert_op ch t x = Inl e"
  then show "buffer_insert ch t x s = (Inl e, s)"
    by (auto simp: insert_op_def buffer_insert_def bindA_liftA bindE_Inl_iff)
next
  fix x w s
  assume a: "insert_op ch t x = Inr w" "buffers_ok s"
  then obtain v k where k: "get_record_id ch x = Inr v" "check_hashable v = Inr k" "w = Put t k x"
    by (auto simp: insert_op_def res_simps)
  have "buffers_ok (put_buffers t (AList.update k x (insert_buffer s t)) (removeAll k (delete_buffer s t)) s)"
    using a(2) by (intro buffers_ok_put) (auto simp: buffers_ok_def dom_update distinct_removeAll)
  with k show "\<exists>s'. buffer_insert ch t x s = (Inr (), s') \<and> buffers_ok s' \<and> only_buffers s s'
      \<and> buffered s' = buffered s ++ [op_key w \<mapsto> op_val w]"
    by (simp add: buffer_insert_def bindA_liftA modifyA_def buffered_put_insert)
qed

interpretation del: buffer_step "buffer_erase t" "erase_op t" for t
proof
  fix x s e
  assume "erase_op t x = Inl e"
  then show "buffer_erase t x s = (Inl e, s)"
    by (auto simp: erase_op_def buffer_erase_def bindA_liftA bindE_Inl_iff)
next
  fix x w s
  assume a: "erase_op t x = Inr w" "buffers_ok s"
  then obtain k where k: "check_hashable x = Inr k" "w = Del t k"
    by (auto simp: erase_op_def res_simps)
  have "buffers_ok (put_buffers t (AList.delete k (insert_buffer s t)) (List.insert k (delete_buffer s t)) s)"
    using a(2) by (intro buffers_ok_put) (auto simp: buffers_ok_def keys_delete)
  with k show "\<exists>s'. buffer_erase t x s = (Inr (), s') \<and> buffers_ok s' \<and> only_buffers s s'
      \<and> buffered s' = buffered s ++ [op_key w \<mapsto> op_val w]"
    by (simp add: buffer_erase_def bindA_liftA modifyA_def buffered_put_erase)
qed

section \<open>Row events\<close>

definition is_row_event :: "log_event \<Rightarrow> bool" where
  "is_row_event ev = (event_type_of ev = ADD_EVENT \<or> event_type_of ev = REMOVE_EVENT)"

text \<open>What a row event asks for, independently of any buffering.\<close>

definition row_ops :: "rt_context \<Rightarrow> (string, table_structure \<times> table_structure) dict \<Rightarrow> log_event \<Rightarrow> row_op list res" where
  "row_ops cx S ev =
    (if event_type_of ev = REMOVE_EVENT \<and> truthy (ignore_deletes (rep_settings (rx_rep cx))) then Inr []
     else
       bindE (dict_get S (event_table ev)) (\<lambda>(m, c).
       if event_type_of ev = REMOVE_EVENT then
         bindE (bindE (convert_records (rx_lib cx) (event_rows ev) m c True) (mapE (get_record_id c))) (mapE (erase_op (event_table ev)))
       else
         bindE (convert_records (rx_lib cx) (event_rows ev) m c False) (mapE (insert_op c (event_table ev)))))"

definition event_ops :: "rt_context \<Rightarrow> (string, table_structure \<times> table_structure) dict \<Rightarrow> log_event \<Rightarrow> row_op list res" where
  "event_ops cx S ev =
    bindE (if event_table ev = [] then Inr True else is_table_matches (rep_settings (rx_rep cx)) (event_table ev)) (\<lambda>wanted.
      if wanted then row_ops cx S ev else Inr [])"

lemma buffers_cong:
  assumes "records_to_insert t = records_to_insert s" "records_to_delete t = records_to_delete s"
  shows "buffers_ok t = buffers_ok s" "buffered t = buffered s" "pending t = pending s"
proof -
  have "insert_buffer t = insert_buffer s" "delete_buffer t = delete_buffer s"
    using assms by (simp_all add: insert_buffer_def delete_buffer_def fun_eq_iff)
  with assms show "buffers_ok t = buffers_ok s" "buffered t = buffered s" "pending t = pending s"
    by (simp_all add: buffers_ok_def buffered_def pending_def cong: option.case_cong)
qed

lemma buffers_touch [simp]:
  "buffers_ok s \<Longrightarrow> buffers_ok (put_buffers t (insert_buffer s t) (delete_buffer s t) s)"
  "buffered (put_buffers t (insert_buffer s t) (delete_buffer s t) s) = buffered s"
proof -
  show "buffers_ok s \<Longrightarrow> buffers_ok (put_buffers t (insert_buffer s t) (delete_buffer s t) s)"
    by (rule buffers_ok_put) (auto simp: buffers_ok_def)
qed (auto simp: buffered_def fun_eq_iff split: option.splits)

lemma stats_only [simp]:
  "only_buffers s (s\<lparr>rt_stats := f\<rparr>)"
  "buffers_ok (s\<lparr>rt_stats := f\<rparr>) = buffers_ok s"
  "buffered (s\<lparr>rt_stats := f\<rparr>) = buffered s"
  by (simp add: only_buffers_def) (rule buffers_cong; simp)+

lemma on_rep_get_structures:
  "bindA (on_rep (get_structures t)) k s =
    (case dict_get (tables_structure (rt_rep s)) t of Inl e \<Rightarrow> (Inl e, s) | Inr p \<Rightarrow> k p s)"
  by (simp add: bindA_def on_rep_def get_structures_def liftA_def split: sum.split)

lemma bindA_on_stats: "bindA (on_stats f) k s = k () (s\<lparr>rt_stats := f (rt_stats s)\<rparr>)"
  by (simp add: bindA_def on_stats_def modifyA_def)

lemma bindA_modifyA: "bindA (modifyA f) k s = k () (f s)"
  by (simp add: bindA_def modifyA_def)

text \<open>The outcome of a method that is to put some operations into the buffers.\<close>

definition buffers_outcome :: "row_op list res \<Rightarrow> realtime \<Rightarrow> unit res \<times> realtime \<Rightarrow> bool" where
  "buffers_outcome ops s out =
    (only_buffers s (snd out) \<and>
     (case ops of
        Inl e \<Rightarrow> fst out = Inl e
      | Inr ws \<Rightarrow> fst out = Inr () \<and> buffers_ok (snd out) \<and> buffered (snd out) = buffered s ++ writes ws))"

lemma buffers_outcome_loop:
  assumes "buffer_step step op" "buffers_ok s"
  shows "buffers_outcome (mapE op xs) s (mapA step xs s)"
  using buffer_step.loop_returns [OF assms(1) _ assms(2)] buffer_step.loop_raises [OF assms(1) _ assms(2)]
  by (cases "mapE op xs") (fastforce simp: buffers_outcome_def)+

lemma buffers_outcome_mono:
  assumes "buffers_outcome ops t out" "only_buffers s t" "buffered t = buffered s"
  shows "buffers_outcome ops s out"
  using assms by (auto simp: buffers_outcome_def intro: only_buffers_trans split: sum.splits)

lemma handle_insert_outcome:
  assumes ok: "buffers_ok s" and add: "event_type_of ev = ADD_EVENT"
  shows "buffers_outcome (row_ops cx (tables_structure (rt_rep s)) ev) s (handle_insert_event cx ev s)"
proof -
  let ?t = "event_table ev"
  let ?touch = "\<lambda>s. put_buffers ?t (insert_buffer s ?t) (delete_buffer s ?t) s"
  define s1 where "s1 = s\<lparr>rt_stats := (rt_stats s)\<lparr>insert_events_count := insert_events_count (rt_stats s) + 1,
      insert_records_count := insert_records_count (rt_stats s) + records_len (records_of ev)\<rparr>\<rparr>"
  have s1: "only_buffers s s1" "buffers_ok s1" "buffered s1 = buffered s" "rt_rep s1 = rt_rep s"
    using ok by (simp_all add: s1_def)
  have run: "handle_insert_event cx ev s =
      (case dict_get (tables_structure (rt_rep s)) ?t of
         Inl e \<Rightarrow> (Inl e, s1)
       | Inr (m, c) \<Rightarrow> (case convert_records (rx_lib cx) (event_rows ev) m c False of
           Inl e \<Rightarrow> (Inl e, s1) | Inr recs \<Rightarrow> mapA (buffer_insert c ?t) recs (?touch s1)))"
    by (simp add: handle_insert_event_def bindA_on_stats on_rep_get_structures bindA_liftA bindA_modifyA s1_def
        split: sum.split prod.split)
  have loop: "buffers_outcome (mapE (insert_op c ?t) recs) s (mapA (buffer_insert c ?t) recs (?touch s1))" for c recs
    using s1 by (intro buffers_outcome_mono [OF buffers_outcome_loop [OF ins.buffer_step_axioms]])
      (auto intro: only_buffers_trans)
  show ?thesis
    using s1 loop by (auto simp: run row_ops_def add buffers_outcome_def [of "Inl _"] split: sum.split)
qed

lemma handle_erase_outcome:
  assumes ok: "buffers_ok s" and rem: "event_type_of ev = REMOVE_EVENT"
  shows "buffers_outcome (row_ops cx (tables_structure (rt_rep s)) ev) s (handle_erase_event cx ev s)"
proof (cases "truthy (ignore_deletes (rep_settings (rx_rep cx)))")
  case True
  then show ?thesis using ok rem by (simp add: handle_erase_event_def row_ops_def buffers_outcome_def retA_def)
next
  case False
  let ?t = "event_table ev"
  let ?touch = "\<lambda>s. put_buffers ?t (insert_buffer s ?t) (delete_buffer s ?t) s"
  define s1 where "s1 = s\<lparr>rt_stats := (rt_stats s)\<lparr>erase_events_count := erase_events_count (rt_stats s) + 1,
      erase_records_count := erase_records_count (rt_stats s) + records_len (records_of ev)\<rparr>\<rparr>"
  have s1: "only_buffers s s1" "buffers_ok s1" "buffered s1 = buffered s" "rt_rep s1 = rt_rep s"
    using ok by (simp_all add: s1_def)
  have run: "handle_erase_event cx ev s =
      (case dict_get (tables_structure (rt_rep s)) ?t of
         Inl e \<Rightarrow> (Inl e, s1)
       | Inr (m, c) \<Rightarrow> (case bindE (convert_records (rx_lib cx) (event_rows ev) m c True) (mapE (get_record_id c)) of
           Inl e \<Rightarrow> (Inl e, s1) | Inr ks \<Rightarrow> mapA (buffer_erase ?t) ks (?touch s1)))"
    by (simp add: handle_erase_event_def False bindA_on_stats on_rep_get_structures bindA_liftA bindA_modifyA s1_def
        split: sum.split prod.split)
  have loop: "buffers_outcome (mapE (erase_op ?t) ks) s (mapA (buffer_erase ?t) ks (?touch s1))" for ks
    using s1 by (intro buffers_outcome_mono [OF buffers_outcome_loop [OF del.buffer_step_axioms]])
      (auto intro: only_buffers_trans)
  show ?thesis
    using s1 loop by (auto simp: run row_ops_def rem False buffers_outcome_def [of "Inl _"] split: sum.split)
qed

lemma dispatch_outcome:
  assumes "buffers_ok s" "is_row_event ev"
  shows "buffers_outcome (row_ops cx (tables_structure (rt_rep s)) ev) s (dispatch cx ev s)"
  using assms handle_insert_outcome handle_erase_outcome by (auto simp: is_row_event_def dispatch_def)

section \<open>The invariant of a running process\<close>

text \<open>A handled event: its transaction id and the operations it asks for.\<close>

type_synonym change = "transaction \<times> row_op list"

definition position :: "transaction option \<Rightarrow> change list \<Rightarrow> transaction option" where
  "position p0 ds = (if ds = [] then p0 else Some (fst (last ds)))"

definition change_writes :: "change list \<Rightarrow> (string \<times> py_val) \<rightharpoonup> row option" where
  "change_writes ds = writes (concat (map snd ds))"

definition saved_at :: "(string, table_structure \<times> table_structure) dict \<Rightarrow> transaction option \<Rightarrow> realtime \<Rightarrow> bool" where
  "saved_at S p s = (\<exists>d. rt_saved s = Some d \<and> saved_transaction d = p \<and> saved_structures d = S)"

text \<open>
  Between two polls, when the events \<open>ds\<close> have been handled since the process started at position
  \<open>p0\<close>: the uploads hold exactly the first \<open>m\<close> of them and the buffers the others; the position in
  memory is that of the \<open>m\<close>-th event and the saved one at most that.
\<close>

definition running :: "(string, table_structure \<times> table_structure) dict \<Rightarrow> transaction option
    \<Rightarrow> change list \<Rightarrow> realtime \<Rightarrow> bool" where
  "running S p0 ds s \<longleftrightarrow>
    buffers_ok s \<and> tables_structure (rt_rep s) = S
    \<and> last_processed_transaction_non_uploaded (rt_state s) = position p0 ds
    \<and> (\<exists>m n. n \<le> m \<and> m \<le> length ds
         \<and> last_processed_transaction (rt_state s) = position p0 (take m ds)
         \<and> saved_at S (position p0 (take n ds)) s
         \<and> writes (stored_ops (rt_log s)) = change_writes (take m ds)
         \<and> buffered s = change_writes (drop m ds))"

text \<open>
  When the process has ended, in whatever way: apart from ids that the events after the saved
  position write, the uploads hold what the events up to it ask for.
\<close>

definition stopped :: "(string, table_structure \<times> table_structure) dict \<Rightarrow> transaction option
    \<Rightarrow> change list \<Rightarrow> realtime \<Rightarrow> bool" where
  "stopped S p0 ds s \<longleftrightarrow>
    (\<exists>n \<le> length ds. saved_at S (position p0 (take n ds)) s
       \<and> (\<forall>x. x \<notin> dom (change_writes (drop n ds)) \<longrightarrow>
              writes (stored_ops (rt_log s)) x = change_writes (take n ds) x))"

lemma change_writes_append [simp]: "change_writes (ds @ es) = change_writes ds ++ change_writes es"
  by (simp add: change_writes_def)

lemma change_writes_Nil [simp]: "change_writes [] = Map.empty"
  by (simp add: change_writes_def)

lemma change_writes_take_drop: "change_writes (take n ds) ++ change_writes (drop n ds) = change_writes ds"
  by (metis append_take_drop_id change_writes_append)

definition core :: "realtime \<Rightarrow> (string, (py_val, row) dict) dict \<times> (string, py_val list) dict
    \<times> (string, table_structure \<times> table_structure) dict \<times> db_state \<times> saved_state option \<times> store_op list" where
  "core s = (records_to_insert s, records_to_delete s, tables_structure (rt_rep s), rt_state s, rt_saved s, rt_log s)"

lemma core_stats [simp]: "core (s\<lparr>rt_stats := f\<rparr>) = core s"
  by (simp add: core_def)

lemma running_cong: "core t = core s \<Longrightarrow> running S p0 ds t = running S p0 ds s"
  using buffers_cong [of t s] by (simp add: core_def running_def saved_at_def)

text \<open>If more of the handled events were uploaded than saved, or part of the rest, the process has just stopped.\<close>

lemma stoppedI:
  assumes "n \<le> m" "m \<le> length ds" "saved_at S (position p0 (take n ds)) s"
    and "writes (stored_ops (rt_log s)) = change_writes (take m ds) ++ w"
    and "dom w \<subseteq> dom (change_writes (drop m ds))"
  shows "stopped S p0 ds s"
proof -
  have tk: "change_writes (take m ds) = change_writes (take n ds) ++ change_writes (take (m - n) (drop n ds))"
    using assms(1) by (metis change_writes_append le_add_diff_inverse take_add)
  have dr: "change_writes (drop n ds) = change_writes (take (m - n) (drop n ds)) ++ change_writes (drop m ds)"
    using assms(1) change_writes_take_drop [of "m - n" "drop n ds"] by simp
  have "writes (stored_ops (rt_log s)) x = change_writes (take n ds) x"
    if "x \<notin> dom (change_writes (drop n ds))" for x
  proof -
    from that dr have "change_writes (take (m - n) (drop n ds)) x = None" "change_writes (drop m ds) x = None"
      by (auto simp: map_add_None)
    moreover from this(2) assms(5) have "w x = None" by auto
    ultimately show ?thesis using assms(4) tk by (simp add: map_add_def)
  qed
  with assms(1-3) show ?thesis unfolding stopped_def by (meson le_trans)
qed

lemma running_stopped: "running S p0 ds s \<Longrightarrow> stopped S p0 ds s"
  unfolding running_def by (elim conjE exE) (rule stoppedI [where w = Map.empty], auto)

section \<open>Uploads\<close>

lemma upload_store_structures: "tables_structure (snd (upload_store cx op s)) = tables_structure s"
  by (cases op) (auto simp: bindA_def get_structures_def liftA_def on_api_def split: sum.split prod.split)

lemma perform_store_core:
  assumes "perform_store cx op s = (r, s')"
  shows "core (s'\<lparr>rt_log := rt_log s\<rparr>) = core s" and "rt_log s' = rt_log s @ (if r = Inr () then [op] else [])"
  using assms upload_store_structures [of cx op "rt_rep s"]
  by (auto simp: perform_store_def bindA_def on_rep_def modifyA_def core_def split: prod.splits sum.splits)

lemma perform_stores:
  "mapA (perform_store cx) ops s = (r, s') \<Longrightarrow>
    \<exists>done. prefix done ops \<and> rt_log s' = rt_log s @ done \<and> (r = Inr () \<longrightarrow> done = ops)
      \<and> core (s'\<lparr>rt_log := rt_log s\<rparr>) = core s"
proof (induction ops arbitrary: s)
  case Nil
  then show ?case by (auto simp: retA_def)
next
  case (Cons op ops)
  obtain r1 t where t: "perform_store cx op s = (r1, t)" by fastforce
  note c = perform_store_core [OF t]
  show ?case
  proof (cases r1)
    case (Inl e)
    with Cons.prems t c show ?thesis by (auto simp: bindA_def)
  next
    case (Inr u)
    with Cons.prems t have "mapA (perform_store cx) ops t = (r, s')" by (simp add: bindA_def)
    with Cons.IH obtain d where "prefix d ops" "rt_log s' = rt_log t @ d" "r = Inr () \<longrightarrow> d = ops"
      "core (s'\<lparr>rt_log := rt_log t\<rparr>) = core t" by blast
    with c Inr show ?thesis by (intro exI [of _ "op # d"]) (simp add: core_def)
  qed
qed

lemma runningI:
  assumes "buffers_ok s" "tables_structure (rt_rep s) = S"
    and "last_processed_transaction_non_uploaded (rt_state s) = position p0 ds"
    and "n \<le> m" "m \<le> length ds" "last_processed_transaction (rt_state s) = position p0 (take m ds)"
    and "saved_at S (position p0 (take n ds)) s" "writes (stored_ops (rt_log s)) = change_writes (take m ds)"
    and "buffered s = change_writes (drop m ds)"
  shows "running S p0 ds s"
  using assms unfolding running_def by blast

lemma read_clock_core: "\<exists>t s'. read_clock s = (Inr t, s') \<and> core s' = core s"
  by (auto simp: read_clock_def core_def split: list.splits)

lemma save_state_running:
  assumes "running S p0 ds s"
  shows "\<exists>s'. save_state_if_required force s = (Inr (), s') \<and> running S p0 ds s'
    \<and> rt_log s' = rt_log s \<and> rt_state s' = rt_state s
    \<and> (force \<longrightarrow> saved_at S (last_processed_transaction (rt_state s)) s')"
proof -
  obtain t u where u: "read_clock s = (Inr t, u)" "core u = core s" using read_clock_core by blast
  then have run: "running S p0 ds u" using assms running_cong by blast
  let ?d = "Some (db_state_save (rt_state u) (tables_last_record_version (ch_api (rt_rep u))) (tables_structure (rt_rep u)))"
  let ?v = "u\<lparr>last_save_state_time := t, rt_saved := ?d\<rparr>"
  have saved: "saved_at S (last_processed_transaction (rt_state u)) ?v"
    using run by (simp add: saved_at_def db_state_save_def running_def)
  obtain m where m: "m \<le> length ds" "last_processed_transaction (rt_state u) = position p0 (take m ds)"
    "writes (stored_ops (rt_log u)) = change_writes (take m ds)" "buffered u = change_writes (drop m ds)"
    using run unfolding running_def by blast
  have "running S p0 ds ?v"
    using run m saved buffers_cong [of ?v u] by (intro runningI [of _ _ _ _ m m]) (simp_all add: running_def)
  with u run saved show ?thesis
    by (auto simp: save_state_if_required_def bindA_def core_def)
qed

lemma finish_upload_running:
  assumes "running S p0 ds s" and "core (t\<lparr>rt_log := rt_log s\<rparr>) = core s" and "rt_log t = rt_log s @ pending s"
  shows "running S p0 ds (finish_upload t)"
proof -
  obtain m n where m: "n \<le> m" "m \<le> length ds" "saved_at S (position p0 (take n ds)) s"
    "writes (stored_ops (rt_log s)) = change_writes (take m ds)" "buffered s = change_writes (drop m ds)"
    using assms(1) unfolding running_def by blast
  have ok: "buffers_ok s" using assms(1) by (simp add: running_def)
  have w: "writes (stored_ops (rt_log t)) = change_writes ds"
    using m writes_pending [OF ok] change_writes_take_drop by (simp add: assms(3))
  have empty: "buffers_ok (finish_upload t)" "buffered (finish_upload t) = Map.empty"
    by (auto simp: finish_upload_def buffers_ok_def buffered_def insert_buffer_def delete_buffer_def fun_eq_iff)
  show ?thesis
    using assms(1,2) empty w m(1-3)
    by (intro runningI [of _ _ _ _ n "length ds"])
      (auto simp: finish_upload_def core_def running_def saved_at_def)
qed

lemma upload_running:
  assumes run: "running S p0 ds s" and up: "upload_records cx s = (r, s')"
  shows "case r of Inl e \<Rightarrow> stopped S p0 ds s'
    | Inr _ \<Rightarrow> running S p0 ds s' \<and> writes (stored_ops (rt_log s')) = change_writes ds
        \<and> last_processed_transaction (rt_state s') = position p0 ds"
proof -
  obtain now u where u: "read_clock s = (Inr now, u)" "core u = core s" using read_clock_core by blast
  define v where "v = u\<lparr>last_records_upload_time := now\<rparr>"
  have cv: "core v = core s" using u(2) by (simp add: v_def core_def)
  then have run: "running S p0 ds v" using run running_cong by blast
  obtain r1 w where w: "mapA (perform_store cx) (pending v) v = (r1, w)" by fastforce
  from perform_stores [OF w] obtain d where d: "prefix d (pending v)" "rt_log w = rt_log v @ d"
    "r1 = Inr () \<longrightarrow> d = pending v" "core (w\<lparr>rt_log := rt_log v\<rparr>) = core v" by blast
  have up: "(r, s') = (case r1 of Inl e \<Rightarrow> (Inl e, w) | Inr _ \<Rightarrow> save_state_if_required False (finish_upload w))"
    using up u w by (simp add: upload_records_def bindA_def bindA_modifyA modifyA_def v_def split: sum.splits)
  show ?thesis
  proof (cases r1)
    case (Inl e)
    obtain m n where m: "n \<le> m" "m \<le> length ds" "saved_at S (position p0 (take n ds)) v"
      "writes (stored_ops (rt_log v)) = change_writes (take m ds)" "buffered v = change_writes (drop m ds)"
      using run unfolding running_def by blast
    have "dom (writes (stored_ops d)) \<subseteq> dom (writes (stored_ops (pending v)))"
      using set_mono_prefix [OF d(1)] by (auto simp: dom_writes)
    also have "\<dots> = dom (change_writes (drop m ds))"
      using run m(5) writes_pending by (simp add: running_def)
    finally have "stopped S p0 ds w"
      using m d(2,4) by (intro stoppedI [of n m]) (auto simp: core_def saved_at_def)
    with up Inl show ?thesis by simp
  next
    case (Inr x)
    with d have fin: "running S p0 ds (finish_upload w)" by (intro finish_upload_running [OF run]) auto
    have wr: "writes (stored_ops (rt_log w)) = change_writes ds"
    proof -
      have "buffers_ok v" "writes (stored_ops (rt_log v)) ++ buffered v = change_writes ds"
        using run change_writes_take_drop by (auto simp: running_def)
      with d Inr writes_pending show ?thesis by auto
    qed
    have pos: "last_processed_transaction (rt_state (finish_upload w)) = position p0 ds"
      using fin d(4) by (simp add: finish_upload_def running_def)
    show ?thesis
      using up Inr wr pos save_state_running [OF fin, of False] by (auto simp: finish_upload_def)
  qed
qed

section \<open>Polls\<close>

lemma running_buffers:
  assumes "running S p0 ds s" "only_buffers s t" "buffers_ok t" "buffered t = buffered s"
  shows "running S p0 ds t"
  using assms by (simp add: running_def only_buffers_def saved_at_def)

lemma stopped_only_buffers: "stopped S p0 ds s \<Longrightarrow> only_buffers s t \<Longrightarrow> stopped S p0 ds t"
  by (simp add: stopped_def only_buffers_def saved_at_def)

definition ends_well :: "(string, table_structure \<times> table_structure) dict \<Rightarrow> transaction option
    \<Rightarrow> change list \<Rightarrow> unit res \<times> realtime \<Rightarrow> bool" where
  "ends_well S p0 ds out = (case fst out of Inl e \<Rightarrow> stopped S p0 ds (snd out) | Inr _ \<Rightarrow> running S p0 ds (snd out))"

lemma ends_well_simps [simp]:
  "ends_well S p0 ds (Inl e, t) = stopped S p0 ds t"
  "ends_well S p0 ds (Inr u, t) = running S p0 ds t"
  by (simp_all add: ends_well_def)

lemma ends_well_bind:
  assumes "ends_well S p0 ds (f s)" and "\<And>t. running S p0 ds t \<Longrightarrow> ends_well S p0 ds (g () t)"
  shows "ends_well S p0 ds (bindA f g s)"
proof -
  obtain r t where "f s = (r, t)" by fastforce
  with assms show ?thesis by (cases r) (simp_all add: bindA_def)
qed

lemma ends_well_upload: "running S p0 ds s \<Longrightarrow> ends_well S p0 ds (upload_records cx s)"
  using upload_running [of S p0 ds s cx "fst (upload_records cx s)" "snd (upload_records cx s)"]
  by (auto simp: ends_well_def split: sum.splits)

lemma ends_well_save: "running S p0 ds s \<Longrightarrow> ends_well S p0 ds (save_state_if_required force s)"
  using save_state_running [of S p0 ds s force] by auto

lemma log_stats_core: "\<exists>u. log_stats_if_required s = (Inr (), u) \<and> core u = core s"
proof -
  obtain t u where u: "read_clock s = (Inr t, u)" "core u = core s" using read_clock_core by blast
  then show ?thesis by (simp add: log_stats_if_required_def bindA_def core_def)
qed

lemma ends_well_log_stats:
  assumes "running S p0 ds s"
  shows "ends_well S p0 ds (log_stats_if_required s)"
proof -
  obtain u where u: "log_stats_if_required s = (Inr (), u)" "core u = core s" using log_stats_core by blast
  show ?thesis using assms u(1) running_cong [OF u(2)] by simp
qed

lemma ends_well_upload_if_required:
  assumes run: "running S p0 ds s"
  shows "ends_well S p0 ds (upload_records_if_required cx table s)"
proof -
  let ?touch = "\<lambda>s. case table of None \<Rightarrow> s | Some t \<Rightarrow> put_buffers t (insert_buffer s t) (delete_buffer s t) s"
  have ok: "buffers_ok s" using run by (simp add: running_def)
  have run: "running S p0 ds (?touch s)"
    using run ok by (cases table) (simp, simp add: running_buffers [OF run])
  obtain t u where u: "read_clock (?touch s) = (Inr t, u)" "core u = core (?touch s)" using read_clock_core by blast
  with run have "running S p0 ds u" using running_cong by blast
  with u(1) show ?thesis
    using ends_well_upload unfolding upload_records_if_required_def bindA_modifyA by (simp add: bindA_def)
qed

text \<open>An event that is not later than the last handled one is skipped.\<close>

definition stale :: "transaction option \<Rightarrow> log_event \<Rightarrow> bool" where
  "stale p ev = (case p of None \<Rightarrow> False | Some t \<Rightarrow> transaction_id ev \<le> t)"

lemma already_processed_stale:
  "already_processed s ev = stale (last_processed_transaction_non_uploaded (rt_state s)) ev"
  by (simp add: already_processed_def stale_def)

definition change_of :: "rt_context \<Rightarrow> (string, table_structure \<times> table_structure) dict \<Rightarrow> log_event \<Rightarrow> change" where
  "change_of cx S ev = (transaction_id ev, case event_ops cx S ev of Inl _ \<Rightarrow> [] | Inr ws \<Rightarrow> ws)"

definition convertible :: "rt_context \<Rightarrow> (string, table_structure \<times> table_structure) dict \<Rightarrow> log_event \<Rightarrow> bool" where
  "convertible cx S ev = (case event_ops cx S ev of Inl _ \<Rightarrow> False | Inr _ \<Rightarrow> True)"

lemma note_processed_running:
  assumes run: "running S p0 ds s" and t: "only_buffers s t" "buffers_ok t" "buffered t = buffered s ++ writes (snd c)"
    and c: "fst c = transaction_id ev"
  shows "running S p0 (ds @ [c]) (note_processed ev t)"
proof -
  obtain m n where m: "n \<le> m" "m \<le> length ds" "last_processed_transaction (rt_state s) = position p0 (take m ds)"
    "saved_at S (position p0 (take n ds)) s" "writes (stored_ops (rt_log s)) = change_writes (take m ds)"
    "buffered s = change_writes (drop m ds)"
    using run unfolding running_def by blast
  have [simp]: "buffers_ok (note_processed ev t) = buffers_ok t" "buffered (note_processed ev t) = buffered t"
    by (rule buffers_cong; simp add: note_processed_def)+
  have [simp]: "rt_rep (note_processed ev t) = rt_rep t" "rt_saved (note_processed ev t) = rt_saved t"
      "rt_log (note_processed ev t) = rt_log t"
      "last_processed_transaction (rt_state (note_processed ev t)) = last_processed_transaction (rt_state t)"
      "last_processed_transaction_non_uploaded (rt_state (note_processed ev t)) = Some (transaction_id ev)"
    by (simp_all add: note_processed_def)
  have "change_writes [c] = writes (snd c)" "position p0 (ds @ [c]) = Some (fst c)" "tables_structure (rt_rep s) = S"
    using run by (simp_all add: change_writes_def position_def running_def)
  with m t c show ?thesis
    by (intro runningI [of _ _ _ _ n m]) (simp_all add: only_buffers_def saved_at_def)
qed

lemma handle_event_running:
  assumes run: "running S p0 ds s" and row: "is_row_event ev" and fresh: "\<not> stale (position p0 ds) ev"
  shows "ends_well S p0 (ds @ [change_of cx S ev]) (handle_event cx ev s)
      \<and> convertible cx S ev
    \<or> ends_well S p0 ds (handle_event cx ev s) \<and> (\<exists>e. fst (handle_event cx ev s) = Inl e)"
proof -
  let ?wanted = "if event_table ev = [] then Inr True else is_table_matches (rep_settings (rx_rep cx)) (event_table ev)"
  let ?tail = "bindA (modifyA (note_processed ev)) (\<lambda>_.
       bindA (upload_records_if_required cx (Some (event_table ev))) (\<lambda>_.
       bindA (save_state_if_required False) (\<lambda>_. log_stats_if_required)))"
  have ok: "buffers_ok s" and S: "tables_structure (rt_rep s) = S" using run by (simp_all add: running_def)
  have "\<not> already_processed s ev" using run fresh by (simp add: running_def already_processed_stale)
  then have run_eq: "handle_event cx ev s =
      (case ?wanted of Inl e \<Rightarrow> (Inl e, s)
       | Inr wanted \<Rightarrow> bindA (if wanted then dispatch cx ev else retA ()) (\<lambda>_. ?tail) s)"
    unfolding handle_event_def by (simp add: bindA_liftA)
  have outcome: "buffers_outcome (if w then row_ops cx S ev else Inr []) s ((if w then dispatch cx ev else retA ()) s)" for w
    using dispatch_outcome [OF ok row, of cx] ok S by (simp add: buffers_outcome_def retA_def)
  have tail: "ends_well S p0 (ds @ [change_of cx S ev]) (?tail t)"
    if "only_buffers s t" "buffers_ok t" "buffered t = buffered s ++ writes (snd (change_of cx S ev))" for t
    using note_processed_running [OF run that] unfolding bindA_modifyA
    by (intro ends_well_bind ends_well_upload_if_required ends_well_save ends_well_log_stats) (simp_all add: change_of_def)
  show ?thesis
  proof (cases ?wanted)
    case (Inl e)
    with run_eq running_stopped [OF run] show ?thesis by simp
  next
    case (Inr w)
    then have ops: "event_ops cx S ev = (if w then row_ops cx S ev else Inr [])" by (simp add: event_ops_def)
    obtain r t where t: "(if w then dispatch cx ev else retA ()) s = (r, t)" by fastforce
    then have eq: "handle_event cx ev s = (case r of Inl e \<Rightarrow> (Inl e, t) | Inr _ \<Rightarrow> ?tail t)"
      using run_eq Inr by (simp add: bindA_def split: sum.split)
    have out: "buffers_outcome (event_ops cx S ev) s (r, t)" using outcome [of w] by (simp only: t ops)
    show ?thesis
    proof (cases "event_ops cx S ev")
      case (Inl e)
      with out have "only_buffers s t" "r = Inl e" by (simp_all add: buffers_outcome_def)
      with eq running_stopped [OF run] stopped_only_buffers show ?thesis by auto
    next
      case (Inr ws)
      with out have "only_buffers s t" "buffers_ok t" "buffered t = buffered s ++ writes ws" "r = Inr ()"
        by (simp_all add: buffers_outcome_def)
      with eq tail [of t] Inr show ?thesis by (simp add: change_of_def convertible_def)
    qed
  qed
qed

section \<open>The loop\<close>

fun polled :: "log_event option list \<Rightarrow> log_event list" where
  "polled [] = []"
| "polled (None # ps) = polled ps"
| "polled (Some ev # ps) = ev # polled ps"

text \<open>The events that a process at a position handles.\<close>

fun accepted :: "transaction option \<Rightarrow> log_event list \<Rightarrow> log_event list" where
  "accepted p [] = []"
| "accepted p (ev # evs) = (if stale p ev then accepted p evs else ev # accepted (Some (transaction_id ev)) evs)"

lemma db_name_irrelevant [simp]:
  "stale p (ev\<lparr>db_name := d\<rparr>) = stale p ev"
  "is_row_event (ev\<lparr>db_name := d\<rparr>) = is_row_event ev"
  "event_ops cx S (ev\<lparr>db_name := d\<rparr>) = event_ops cx S ev"
  "change_of cx S (ev\<lparr>db_name := d\<rparr>) = change_of cx S ev"
proof -
  have sel: "transaction_id (ev\<lparr>db_name := d\<rparr>) = transaction_id ev" "event_table (ev\<lparr>db_name := d\<rparr>) = event_table ev"
    "event_type_of (ev\<lparr>db_name := d\<rparr>) = event_type_of ev" "event_rows (ev\<lparr>db_name := d\<rparr>) = event_rows ev"
    by (simp_all add: event_rows_def)
  show "stale p (ev\<lparr>db_name := d\<rparr>) = stale p ev" "is_row_event (ev\<lparr>db_name := d\<rparr>) = is_row_event ev"
    "event_ops cx S (ev\<lparr>db_name := d\<rparr>) = event_ops cx S ev" "change_of cx S (ev\<lparr>db_name := d\<rparr>) = change_of cx S ev"
    unfolding stale_def is_row_event_def change_of_def event_ops_def row_ops_def sel by (rule refl)+
qed

lemma handle_idle_running: "running S p0 ds s \<Longrightarrow> ends_well S p0 ds (handle_idle cx s)"
  unfolding handle_idle_def
proof (intro ends_well_bind ends_well_upload_if_required ends_well_log_stats)
  fix t assume run: "running S p0 ds t"
  then have "running S p0 ds (t\<lparr>rt_stats := f\<rparr>)" for f
    by (intro running_buffers [OF run]) (simp_all add: running_def)
  then show "ends_well S p0 ds (on_stats (\<lambda>st. st\<lparr>no_events_count := no_events_count st + 1\<rparr>) t)"
    by (simp add: on_stats_def modifyA_def)
qed

text \<open>A poll gives the events to handle next: none, or the one read unless it is stale.\<close>

lemma handle_poll_running:
  assumes run: "running S p0 ds s" and row: "\<forall>ev \<in> set (polled [p]). is_row_event ev"
  shows "\<exists>es. prefix es (accepted (position p0 ds) (polled [p]))
      \<and> ends_well S p0 (ds @ map (change_of cx S) es) (handle_poll cx p s)
      \<and> (\<forall>ev \<in> set es. convertible cx S ev)
      \<and> (fst (handle_poll cx p s) = Inr () \<longrightarrow> es = accepted (position p0 ds) (polled [p]))"
proof (cases p)
  case None
  then show ?thesis using handle_idle_running [OF run] by (auto simp: handle_poll_def)
next
  case (Some ev)
  show ?thesis
  proof (cases "db_name ev \<noteq> rep_database (rx_rep cx)")
    case True
    then show ?thesis using running_stopped [OF run] Some
      by (intro exI [of _ "[]"]) (simp add: handle_poll_def raiseA_def)
  next
    case False
    let ?ev = "ev\<lparr>db_name := rep_target_database (rx_rep cx)\<rparr>"
    have eq: "handle_poll cx p s = handle_event cx ?ev s" using Some False by (simp add: handle_poll_def)
    show ?thesis
    proof (cases "stale (position p0 ds) ev")
      case True
      then have "already_processed s ?ev"
        using run by (simp add: already_processed_stale running_def)
      then have "handle_event cx ?ev s = (Inr (), s)" by (simp add: handle_event_def)
      with True run eq Some show ?thesis by simp
    next
      case False
      with Some row handle_event_running [OF run, of ?ev cx]
      consider "ends_well S p0 (ds @ [change_of cx S ev]) (handle_event cx ?ev s)" "convertible cx S ev"
        | e where "ends_well S p0 ds (handle_event cx ?ev s)" "fst (handle_event cx ?ev s) = Inl e" by (auto simp: convertible_def)
      then show ?thesis
      proof cases
        case 1
        with eq Some False show ?thesis by (intro exI [of _ "[ev]"]) simp
      next
        case 2
        with eq Some False show ?thesis by (intro exI [of _ "[]"]) simp
      qed
    qed
  qed
qed

lemma restart_due_core: "\<exists>b t. restart_due cx s = (Inr b, t) \<and> core t = core s
    \<and> (\<not> truthy (auto_restart_interval (rep_settings (rx_rep cx))) \<longrightarrow> \<not> b)"
  using read_clock_core [of s] by (auto simp: restart_due_def bindA_def Let_def)

lemma accepted_append: "accepted (position p0 ds) (es @ fs) =
    accepted (position p0 ds) es @ accepted (position p0 (ds @ map (change_of cx S) (accepted (position p0 ds) es))) fs"
proof (induction es arbitrary: ds)
  case Nil
  then show ?case by simp
next
  case (Cons ev es)
  have "position p0 (ds @ [change_of cx S ev]) = Some (transaction_id ev)" by (simp add: position_def change_of_def)
  with Cons.IH [of ds] Cons.IH [of "ds @ [change_of cx S ev]"] show ?case by simp
qed

lemma polled_Cons: "polled (p # ps) = polled [p] @ polled ps"
  by (cases p) simp_all

lemma realtime_loop_running:
  assumes "running S p0 ds s" and "\<forall>ev \<in> set (polled ps). is_row_event ev"
  shows "\<exists>es. prefix es (accepted (position p0 ds) (polled ps))
      \<and> ends_well S p0 (ds @ map (change_of cx S) es) (realtime_loop cx ps s)
      \<and> (\<forall>ev \<in> set es. convertible cx S ev)
      \<and> (fst (realtime_loop cx ps s) = Inr () \<longrightarrow> \<not> truthy (auto_restart_interval (rep_settings (rx_rep cx))) \<longrightarrow>
           es = accepted (position p0 ds) (polled ps))"
  using assms
proof (induction ps arbitrary: ds s)
  case Nil
  then show ?case by (auto simp: retA_def)
next
  case (Cons p ps)
  let ?acc = "accepted (position p0 ds) (polled [p])"
  obtain b t where b: "restart_due cx s = (Inr b, t)" "core t = core s"
    "\<not> truthy (auto_restart_interval (rep_settings (rx_rep cx))) \<longrightarrow> \<not> b" using restart_due_core by blast
  then have run: "running S p0 ds t" using Cons.prems(1) running_cong by blast
  have row: "\<forall>ev \<in> set (polled [p]). is_row_event ev" "\<forall>ev \<in> set (polled ps). is_row_event ev"
    using Cons.prems(2) polled_Cons [of p ps] by auto
  note acc = accepted_append [of p0 ds "polled [p]" "polled ps" cx S, folded polled_Cons]
  show ?case
  proof (cases b)
    case True
    with b run show ?thesis by (intro exI [of _ "[]"]) (simp add: bindA_def retA_def)
  next
    case False
    obtain es where es: "prefix es ?acc" "ends_well S p0 (ds @ map (change_of cx S) es) (handle_poll cx p t)"
      "\<forall>ev \<in> set es. convertible cx S ev" "fst (handle_poll cx p t) = Inr () \<longrightarrow> es = ?acc"
      using handle_poll_running [OF run row(1)] by blast
    obtain r u where u: "handle_poll cx p t = (r, u)" by fastforce
    have eq: "realtime_loop cx (p # ps) s = (case r of Inl e \<Rightarrow> (Inl e, u) | Inr _ \<Rightarrow> realtime_loop cx ps u)"
      using b(1) False u by (simp add: bindA_def split: sum.split)
    show ?thesis
    proof (cases r)
      case (Inl e)
      with es eq u acc show ?thesis by (intro exI [of _ es]) (auto simp: prefix_def)
    next
      case (Inr x)
      with es u have ok: "es = ?acc"
        and run: "running S p0 (ds @ map (change_of cx S) es) u" by auto
      from Cons.IH [OF run row(2)] obtain fs where fs: "prefix fs (accepted (position p0 (ds @ map (change_of cx S) es)) (polled ps))"
        "ends_well S p0 ((ds @ map (change_of cx S) es) @ map (change_of cx S) fs) (realtime_loop cx ps u)"
        "\<forall>ev \<in> set fs. convertible cx S ev"
        "fst (realtime_loop cx ps u) = Inr () \<longrightarrow> \<not> truthy (auto_restart_interval (rep_settings (rx_rep cx))) \<longrightarrow>
           fs = accepted (position p0 (ds @ map (change_of cx S) es)) (polled ps)" by blast
      with acc ok have "prefix (es @ fs) (accepted (position p0 ds) (polled (p # ps)))" by simp
      moreover have "ends_well S p0 (ds @ map (change_of cx S) (es @ fs)) (realtime_loop cx (p # ps) s)"
        using fs(2) eq Inr by simp
      moreover have "\<forall>ev \<in> set (es @ fs). convertible cx S ev" using es(3) fs(3) by auto
      moreover have "fst (realtime_loop cx (p # ps) s) = Inr () \<longrightarrow> \<not> truthy (auto_restart_interval (rep_settings (rx_rep cx))) \<longrightarrow>
           es @ fs = accepted (position p0 ds) (polled (p # ps))"
        using fs(4) ok eq Inr acc by auto
      ultimately show ?thesis by blast
    qed
  qed
qed

section \<open>Processes and restarts\<close>

text \<open>A new process that loads a saved state.\<close>

definition start_from :: "saved_state \<Rightarrow> api \<Rightarrow> int \<Rightarrow> int list \<Rightarrow> realtime" where
  "start_from d a start clock =
    (case db_state_load (Some d) of (st, versions, structures) \<Rightarrow>
       new_realtime \<lparr>tables_structure = structures, ch_api = a\<lparr>tables_last_record_version := versions\<rparr>\<rparr> st (Some d) start clock)"

lemma start_realtime_running:
  "running (saved_structures d) (saved_transaction d) [] (start_realtime (start_from d a start clock))"
proof -
  let ?s = "start_realtime (start_from d a start clock)"
  have "records_to_insert ?s = []" "records_to_delete ?s = []"
    by (simp_all add: start_from_def start_realtime_def new_realtime_def db_state_load_def Let_def)
  then have "buffers_ok ?s" "buffered ?s = Map.empty"
    by (auto simp: buffers_ok_def buffered_def insert_buffer_def delete_buffer_def fun_eq_iff)
  then show ?thesis
    by (intro runningI [of _ _ _ _ 0 0])
      (simp_all add: start_from_def start_realtime_def new_realtime_def db_state_load_def db_state_save_def
        Let_def position_def saved_at_def)
qed

text \<open>
  How a process ends that handles row events: with an exception anywhere, or by returning. The
  events \<open>es\<close> are those that reached the buffers.
\<close>

lemma run_ends:
  assumes full: "\<not> rx_initial_only cx" and row: "\<forall>ev \<in> set (polled ps). is_row_event ev"
    and out: "run_realtime_replication cx ps (start_from d a start clock) = (r, s)"
  shows "\<exists>es. prefix es (accepted (saved_transaction d) (polled ps))
    \<and> stopped (saved_structures d) (saved_transaction d) (map (change_of cx (saved_structures d)) es) s
    \<and> (\<forall>ev \<in> set es. convertible cx (saved_structures d) ev)
    \<and> (r = Inr () \<longrightarrow> writes (stored_ops (rt_log s)) = change_writes (map (change_of cx (saved_structures d)) es)
         \<and> saved_at (saved_structures d) (position (saved_transaction d) (map (change_of cx (saved_structures d)) es)) s
         \<and> (\<not> truthy (auto_restart_interval (rep_settings (rx_rep cx))) \<longrightarrow> es = accepted (saved_transaction d) (polled ps)))"
proof -
  let ?S = "saved_structures d" and ?p = "saved_transaction d" and ?s0 = "start_realtime (start_from d a start clock)"
  obtain r1 t where t: "realtime_loop cx ps ?s0 = (r1, t)" by fastforce
  have pos: "position ?p [] = ?p" by (simp add: position_def)
  obtain es where es: "prefix es (accepted ?p (polled ps))" "ends_well ?S ?p (map (change_of cx ?S) es) (r1, t)"
    "\<forall>ev \<in> set es. convertible cx ?S ev"
    "r1 = Inr () \<longrightarrow> \<not> truthy (auto_restart_interval (rep_settings (rx_rep cx))) \<longrightarrow> es = accepted ?p (polled ps)"
    using realtime_loop_running [OF start_realtime_running [of d a start clock] row, of cx] unfolding t pos by auto
  have eq: "(r, s) = (case r1 of Inl e \<Rightarrow> (Inl e, t) | Inr _ \<Rightarrow> bindA (upload_records cx) (\<lambda>_. save_state_if_required True) t)"
    using out full t by (simp add: run_realtime_replication_def bindA_modifyA bindA_def [of "realtime_loop cx ps"] split: sum.splits)
  show ?thesis
  proof (cases r1)
    case (Inl e)
    with es eq show ?thesis by (intro exI [of _ es]) simp
  next
    case (Inr x)
    let ?ds = "map (change_of cx ?S) es"
    from Inr es have run: "running ?S ?p ?ds t" by simp
    obtain r2 u where u: "upload_records cx t = (r2, u)" by fastforce
    note up = upload_running [OF run u]
    show ?thesis
    proof (cases r2)
      case (Inl e)
      with up eq Inr u es Inr show ?thesis by (intro exI [of _ es]) (simp add: bindA_def)
    next
      case (Inr y)
      with up have up: "running ?S ?p ?ds u" "writes (stored_ops (rt_log u)) = change_writes ?ds"
        "last_processed_transaction (rt_state u) = position ?p ?ds" by simp_all
      from save_state_running [OF up(1), of True] obtain v where "save_state_if_required True u = (Inr (), v)"
        "running ?S ?p ?ds v" "rt_log v = rt_log u" "saved_at ?S (last_processed_transaction (rt_state u)) v" by auto
      with up eq \<open>r1 = Inr x\<close> Inr u es running_stopped show ?thesis by (intro exI [of _ es]) (simp add: bindA_def)
    qed
  qed
qed

subsection \<open>Reading on from the saved position\<close>

definition in_order :: "log_event list \<Rightarrow> bool" where
  "in_order evs = sorted_wrt (<) (map transaction_id evs)"

lemma accepted_filter: "in_order evs \<Longrightarrow> accepted p evs = filter (\<lambda>ev. \<not> stale p ev) evs"
proof (induction evs arbitrary: p)
  case Nil
  then show ?case by simp
next
  case (Cons ev evs)
  then have order: "in_order evs" "\<forall>e \<in> set evs. transaction_id ev < transaction_id e" by (auto simp: in_order_def)
  have "filter (\<lambda>e. \<not> stale (Some (transaction_id ev)) e) evs = filter (\<lambda>e. \<not> stale p e) evs" if "\<not> stale p ev"
    using order(2) that by (intro filter_cong) (auto simp: stale_def split: option.splits)
  with Cons.IH [OF order(1)] show ?case by simp
qed

lemma filter_after:
  assumes "sorted_wrt (<) (map f xs)" "n < length xs"
  shows "filter (\<lambda>x. (f (xs ! n) :: 'b :: linorder) < f x) xs = drop (Suc n) xs"
  using assms
proof (induction xs arbitrary: n)
  case Nil
  then show ?case by simp
next
  case (Cons x xs)
  then have xs: "\<forall>y \<in> set xs. f x < f y" by auto
  show ?case
  proof (cases n)
    case 0
    with xs show ?thesis by simp
  next
    case (Suc k)
    with Cons.prems xs have "\<not> f (xs ! k) < f x" using nth_mem by fastforce
    with Suc Cons show ?thesis by simp
  qed
qed

lemma accepted_after:
  assumes order: "in_order evs" and n: "n \<le> length (accepted p evs)"
  shows "accepted (position p (map (change_of cx S) (take n (accepted p evs)))) evs = drop n (accepted p evs)"
proof (cases n)
  case 0
  then show ?thesis by (simp add: position_def)
next
  case (Suc k)
  let ?acc = "accepted p evs"
  have k: "k < length ?acc" using n Suc by simp
  then have last: "last (take n ?acc) = ?acc ! k" using Suc by (simp add: take_Suc_conv_app_nth)
  have pos: "position p (map (change_of cx S) (take n ?acc)) = Some (transaction_id (?acc ! k))"
    using k Suc last by (auto simp: position_def last_map change_of_def)
  have mem: "?acc ! k \<in> set evs" "\<not> stale p (?acc ! k)"
    using nth_mem [OF k] by (auto simp: accepted_filter [OF order])
  have "accepted (Some (transaction_id (?acc ! k))) evs = filter (\<lambda>ev. transaction_id (?acc ! k) < transaction_id ev) ?acc"
    using mem(2) unfolding accepted_filter [OF order] filter_filter
    by (intro filter_cong) (auto simp: stale_def split: option.splits)
  also have "\<dots> = drop n ?acc"
    unfolding Suc using order k
    by (intro filter_after) (auto simp: accepted_filter [OF order] in_order_def sorted_wrt_map sorted_wrt_filter)
  finally show ?thesis by (simp add: pos)
qed

subsection \<open>Any number of restarts\<close>

text \<open>
  The tables and the state file after any number of processes that ended in any way, one after
  the other. Past its position each reads the events \<open>evs\<close> in order, as far as it gets.
\<close>

inductive restarts :: "rt_context \<Rightarrow> log_event list \<Rightarrow> target \<times> saved_state \<Rightarrow> target \<times> saved_state \<Rightarrow> bool"
  for cx evs x where
  restarts_none: "restarts cx evs x x"
| restarts_run: "restarts cx evs x (g, d)
    \<Longrightarrow> prefix (accepted (saved_transaction d) (polled polls)) (accepted (saved_transaction d) evs)
    \<Longrightarrow> \<forall>ev \<in> set (polled polls). is_row_event ev
    \<Longrightarrow> run_realtime_replication cx polls (start_from d a start clock) = (r, s)
    \<Longrightarrow> rt_saved s = Some d'
    \<Longrightarrow> restarts cx evs x (stored (rt_log s) g, d')"

text \<open>
  What holds between processes: the state file stands behind the first \<open>n\<close> of the changes, and the
  tables hold these, apart from ids that later changes write.
\<close>

definition coherent :: "(string, table_structure \<times> table_structure) dict \<Rightarrow> transaction option \<Rightarrow> change list
    \<Rightarrow> target \<Rightarrow> nat \<Rightarrow> target \<times> saved_state \<Rightarrow> bool" where
  "coherent S p0 F g0 n = (\<lambda>(g, d).
    n \<le> length F \<and> saved_structures d = S \<and> saved_transaction d = position p0 (take n F)
    \<and> (\<forall>x. x \<notin> dom (change_writes (drop n F)) \<longrightarrow> g x = overwrite (change_writes (take n F)) g0 x))"

lemma position_position: "position (position p0 ds) es = position p0 (ds @ es)"
  by (simp add: position_def)

lemma dom_change_writes_prefix: "prefix ds es \<Longrightarrow> dom (change_writes ds) \<subseteq> dom (change_writes es)"
  by (elim prefixE) (simp add: Un_upper2)

lemma coherentD:
  "coherent S p0 F g0 n (g, d) \<Longrightarrow> change_writes (drop n F) x = None \<Longrightarrow> g x = overwrite (change_writes (take n F)) g0 x"
  by (cases x) (auto simp: coherent_def)

lemma coherent_stop:
  assumes co: "coherent S p0 F g0 n (g, d)" and es: "prefix es (drop n F)"
    and stop: "stopped S (saved_transaction d) es s" and saved: "rt_saved s = Some d'"
  shows "\<exists>n' \<le> n + length es. coherent S p0 F g0 n' (stored (rt_log s) g, d')"
proof -
  obtain k where k: "k \<le> length es" "saved_at S (position (saved_transaction d) (take k es)) s"
    "\<And>x. x \<notin> dom (change_writes (drop k es)) \<Longrightarrow> writes (stored_ops (rt_log s)) x = change_writes (take k es) x"
    using stop unfolding stopped_def by blast
  from co have n: "n \<le> length F" "saved_transaction d = position p0 (take n F)" by (simp_all add: coherent_def)
  have tk: "take k es = take k (drop n F)" using es k(1) by (auto simp: prefix_def)
  then have takes: "take (n + k) F = take n F @ take k es" by (simp add: take_add)
  have "prefix (drop k es) (drop (n + k) F)"
    using es k(1) by (auto simp: prefix_def) (metis add.commute append_assoc drop_append drop_drop diff_is_0_eq drop0)
  note dm = dom_change_writes_prefix [OF this]
  have "k \<le> length (drop n F)" using es k(1) prefix_length_le by fastforce
  then have len: "n + k \<le> length F" using n(1) by simp
  have val: "stored (rt_log s) g x = overwrite (change_writes (take (n + k) F)) g0 x"
    if x: "x \<notin> dom (change_writes (drop (n + k) F))" for x
  proof -
    have w: "writes (stored_ops (rt_log s)) x = change_writes (take k es) x" using k(3) x dm by blast
    have "change_writes (drop n F) = change_writes (take k es) ++ change_writes (drop (n + k) F)"
      using change_writes_take_drop [of k "drop n F"] tk by (simp add: add.commute)
    then have "change_writes (take k es) x = None \<Longrightarrow> change_writes (drop n F) x = None" using x by (auto simp: domIff)
    with coherentD [OF co] have "change_writes (take k es) x = None \<Longrightarrow> g x = overwrite (change_writes (take n F)) g0 x" by blast
    with w show ?thesis
      by (cases "change_writes (take k es) x") (simp_all add: stored_overwrite overwrite_def takes map_add_def)
  qed
  have "saved_structures d' = S" "saved_transaction d' = position p0 (take (n + k) F)"
    using k(2) saved n(2) by (simp_all add: saved_at_def takes position_position)
  with len val k(1) show ?thesis by (intro exI [of _ "n + k"]) (simp add: coherent_def)
qed

lemma restarts_coherent:
  assumes "restarts cx evs x y" and "\<not> rx_initial_only cx" and "in_order evs"
    and "x = (g0, d0)" and S: "S = saved_structures d0" and p0: "p0 = saved_transaction d0"
  shows "\<exists>n. coherent S p0 (map (change_of cx S) (accepted p0 evs)) g0 n y
    \<and> (\<forall>ev \<in> set (take n (accepted p0 evs)). convertible cx S ev)"
  using assms(1-4)
proof (induction rule: restarts.induct)
  case restarts_none
  then show ?case by (intro exI [of _ 0]) (simp add: coherent_def S p0 position_def)
next
  case (restarts_run g d polls a start clock r s d')
  let ?F = "map (change_of cx S) (accepted p0 evs)"
  obtain n where co: "coherent S p0 ?F g0 n (g, d)" and conv: "\<forall>ev \<in> set (take n (accepted p0 evs)). convertible cx S ev"
    using restarts_run by blast
  then have n: "n \<le> length (accepted p0 evs)" "saved_structures d = S"
    "saved_transaction d = position p0 (map (change_of cx S) (take n (accepted p0 evs)))"
    by (simp_all add: coherent_def take_map)
  have rest: "accepted (saved_transaction d) evs = drop n (accepted p0 evs)"
    using accepted_after [OF restarts_run.prems(2) n(1)] n(3) by simp
  obtain es where es: "prefix es (accepted (saved_transaction d) (polled polls))"
    "stopped S (saved_transaction d) (map (change_of cx S) es) s" "\<forall>ev \<in> set es. convertible cx S ev"
    using run_ends [OF restarts_run.prems(1) restarts_run.hyps(3,4)] n(2) by auto
  have pre: "prefix es (drop n (accepted p0 evs))"
    using es(1) restarts_run.hyps(2) rest prefix_order.trans by metis
  then have "prefix (map (change_of cx S) es) (drop n ?F)"
    by (metis drop_map map_mono_prefix)
  from coherent_stop [OF co this es(2) restarts_run.hyps(5)]
  obtain n' where n': "n' \<le> n + length es" "coherent S p0 ?F g0 n' (stored (rt_log s) g, d')" by auto
  have "take (n + length es) (accepted p0 evs) = take n (accepted p0 evs) @ es"
    using pre by (auto simp: take_add prefix_def)
  then have "set (take n' (accepted p0 evs)) \<subseteq> set (take n (accepted p0 evs)) \<union> set es"
    using set_take_subset_set_take [OF n'(1), of "accepted p0 evs"] by simp
  with n'(2) conv es(3) show ?case by blast
qed

lemma coherent_finish:
  assumes co: "coherent S p0 F g0 n (g, d)" and w: "writes (stored_ops (rt_log s)) = change_writes (drop n F)"
  shows "stored (rt_log s) g = overwrite (change_writes F) g0"
proof
  fix x
  show "stored (rt_log s) g x = overwrite (change_writes F) g0 x"
  proof (cases "change_writes (drop n F) x")
    case None
    with co have "g x = overwrite (change_writes (take n F)) g0 x" by (rule coherentD)
    with None w show ?thesis
      by (simp add: stored_overwrite overwrite_def change_writes_take_drop [of n F, symmetric] map_add_def)
  next
    case (Some v)
    with w show ?thesis
      by (simp add: stored_overwrite overwrite_def change_writes_take_drop [of n F, symmetric] map_add_def)
  qed
qed

lemma fold_changes:
  "fold (\<lambda>ev. fold apply_op (snd (change_of cx S ev))) evs g = overwrite (change_writes (map (change_of cx S) evs)) g"
proof (induction evs arbitrary: g)
  case Nil
  then show ?case by simp
next
  case (Cons ev evs)
  then show ?case by (simp add: change_writes_def fold_apply_op overwrite_add)
qed


definition sample_cx :: "py_val \<Rightarrow> rt_context" where
  "sample_cx tbls = \<lparr>rx_rep = sample_replicator\<lparr>rep_settings := plain_settings\<lparr>auto_restart_interval := VInt 0, tables := tbls\<rparr>\<rparr>,
     rx_initial_only = False, rx_conv = default_conv, rx_lib = sample_lib, rx_timestamp_ok = (\<lambda>_. True),
     rx_strip_comments = (\<lambda>q. q), rx_parse_create = (\<lambda>_ _. Inl ValueError)\<rparr>"

definition sample_row_event :: "int \<Rightarrow> event_type \<Rightarrow> row list \<Rightarrow> log_event" where
  "sample_row_event n ty rows = \<lparr>transaction_id = (''mysql-bin.000001'', n), db_name = ''shop_eu'', event_table = ''users'',
     records_of = Rows rows, event_type_of = ty\<rparr>"

definition sample_rows :: "log_event list" where
  "sample_rows = [sample_row_event 100 ADD_EVENT [[VInt 1, VStr ''ann''], [VInt 2, VStr ''bob'']],
     sample_row_event 200 REMOVE_EVENT [[VInt 1, VStr ''ann'']]]"

definition sample_saved :: saved_state where
  "sample_saved = \<lparr>saved_transaction = None, saved_status = RUNNING_REALTIME_REPLICATION, saved_versions = [], saved_table = None,
     saved_max_primary_key = None, saved_structures = [(''users'', sample_table, sample_ch_table)], saved_tables = [''users'']\<rparr>"


section \<open>Where the guarantees end\<close>

text \<open>C29. A process that has just finished the initial replication forgets its position. The
  initial replication sets the last processed position, but not the one of the buffered events,
  and the first poll without an event uploads and copies the latter over the former: the state
  file then holds no position at all, and a restart reads the relay files from the first one.
\<close>

theorem idle_poll_forgets_position:
  assumes "last_processed_transaction_non_uploaded st = None" and "10 \<le> t1" "10 \<le> t3"
  shows "\<exists>s' d. handle_poll cx None (new_realtime rep st saved start (t1 # t2 # t3 # ts)) = (Inr (), s')
    \<and> last_processed_transaction (rt_state s') = None \<and> rt_saved s' = Some d \<and> saved_transaction d = None"
proof -
  let ?s = "new_realtime rep st saved start (t1 # t2 # t3 # ts)"
  let ?u = "finish_upload (?s\<lparr>rt_clock := ts, last_records_upload_time := t2\<rparr>)"
  let ?v = "?u\<lparr>last_save_state_time := t3,
      rt_saved := Some (db_state_save (rt_state ?u) (tables_last_record_version (ch_api rep)) (tables_structure rep))\<rparr>"
  have "upload_records_if_required cx None ?s = (Inr (), ?v)"
    using assms
    by (simp add: upload_records_if_required_def upload_records_def save_state_if_required_def read_clock_def new_realtime_def
        bindA_def modifyA_def retA_def pending_def finish_upload_def DATA_DUMP_INTERVAL_def SAVE_STATE_INTERVAL_def)
  moreover have "last_processed_transaction (rt_state ?v) = None" "\<exists>d. rt_saved ?v = Some d \<and> saved_transaction d = None"
    using assms(1) by (simp_all add: finish_upload_def new_realtime_def db_state_save_def)
  ultimately obtain v d where v: "upload_records_if_required cx None ?s = (Inr (), v)"
    "last_processed_transaction (rt_state v) = None" "rt_saved v = Some d" "saved_transaction d = None" by blast
  obtain w where "log_stats_if_required (v\<lparr>rt_stats := (rt_stats v)\<lparr>no_events_count := no_events_count (rt_stats v) + 1\<rparr>\<rparr>) = (Inr (), w)"
    "core w = core v" using log_stats_core core_stats by metis
  with v show ?thesis
    by (simp add: handle_poll_def handle_idle_def bindA_def [of "upload_records_if_required cx None"] bindA_on_stats core_def)
qed

theorem idle_poll_forgets_position_witness:
  "\<exists>s' d. handle_poll (sample_cx (VStr ''*'')) None (new_realtime sample_rep_state
        (new_db_state\<lparr>last_processed_transaction := Some (''mysql-bin.000007'', 4)\<rparr>) None 20 [20, 20, 20]) = (Inr (), s')
    \<and> last_processed_transaction (rt_state s') = None \<and> rt_saved s' = Some d \<and> saved_transaction d = None"
  by (rule idle_poll_forgets_position) (simp_all add: new_db_state_def)

text \<open>RENAME TABLE with several clauses stops at the first table that is not replicated. The
  structures of the tables before it are renamed, but no command is sent to ClickHouse: rows for
  the new name then go to a table that does not exist there.
\<close>

lemma rename_stops_halfway:
  "case handle_rename_table_query (sample_cx (VList [VStr ''users''])) ''RENAME TABLE users TO people, temp TO old'' ''shop_ch'' sample_rep_state of
     (r, s) \<Rightarrow> r = Inr () \<and> map fst (tables_structure s) = [''people''] \<and> api_calls (ch_api s) = []"
  by code_simp

definition sample_update :: "int \<Rightarrow> string \<Rightarrow> log_event" where
  "sample_update n v = sample_row_event n ADD_EVENT [[VInt 1, VStr v]]"

definition inserted_rows :: "realtime \<Rightarrow> row list" where
  "inserted_rows s = concat (map (\<lambda>(c, r). case c of Insert _ rows \<Rightarrow> if r = None then rows else [] | _ \<Rightarrow> []) (api_calls (ch_api (rt_rep s))))"


end
