(* ===== verification/Gtid.thy ===== *)
theory Gtid
  imports Bytes
begin

text \<open>
  Global transaction identifiers: \<^verbatim>\<open>pymysqlreplication/gtid.py\<close>. A \<^verbatim>\<open>Gtid\<close> is a server id with
  right-open intervals of transaction numbers, a \<^verbatim>\<open>GtidSet\<close> a list of them. The lemmas relate
  the interval arithmetic to sets of transactions and the two encodings, text and binary, to
  each other.
\<close>

section \<open>Intervals\<close>

type_synonym interval = "int \<times> int"

definition overlap :: "interval \<Rightarrow> interval \<Rightarrow> bool" where
  "overlap i1 i2 \<longleftrightarrow> fst i1 < snd i2 \<and> snd i1 > fst i2"

definition interval_contains :: "interval \<Rightarrow> interval \<Rightarrow> bool" where
  "interval_contains i1 i2 \<longleftrightarrow> fst i2 \<ge> fst i1 \<and> snd i2 \<le> snd i1"

datatype Gtid = Gtid (gtid_sid: string) (gtid_intervals: "interval list")

text \<open>The merge loop: the interval grows by the ones it touches, the others are kept.\<close>

fun merge_loop :: "interval list \<Rightarrow> interval \<Rightarrow> interval list \<Rightarrow> interval \<times> interval list" where
  "merge_loop [] itvl new = (itvl, new)"
| "merge_loop (existing # rest) itvl new =
    (if fst itvl = snd existing then merge_loop rest (fst existing, snd itvl) new
     else if snd itvl = fst existing then merge_loop rest (fst itvl, snd existing) new
     else merge_loop rest itvl (new @ [existing]))"

definition add_interval :: "interval list \<Rightarrow> interval \<Rightarrow> interval list res" where
  "add_interval ivs itvl =
    (if fst itvl > snd itvl then Inl (PyException ''Malformed interval'')
     else if list_ex (\<lambda>x. overlap x itvl) ivs then Inl (PyException ''Overlapping interval'')
     else case merge_loop (sort ivs) itvl [] of (merged, new) \<Rightarrow> Inr (sort (new @ [merged])))"

definition carve :: "interval \<Rightarrow> interval \<Rightarrow> interval list" where
  "carve itvl existing =
    (if overlap existing itvl then
       (if fst existing < fst itvl then [(fst existing, fst itvl)] else [])
       @ (if snd existing > snd itvl then [(snd itvl, snd existing)] else [])
     else [existing])"

definition sub_interval :: "interval list \<Rightarrow> interval \<Rightarrow> interval list res" where
  "sub_interval ivs itvl =
    (if fst itvl > snd itvl then Inl (PyException ''Malformed interval'')
     else if \<not> list_ex (\<lambda>x. overlap x itvl) ivs then Inr ivs
     else Inr (concat (map (carve itvl) (sort ivs))))"

definition gtid_contains :: "Gtid \<Rightarrow> Gtid \<Rightarrow> bool" where
  "gtid_contains self other =
    (if gtid_sid other \<noteq> gtid_sid self then False
     else list_all (\<lambda>them. list_ex (\<lambda>me. interval_contains me them) (gtid_intervals self)) (gtid_intervals other))"

text \<open>The loops over \<^verbatim>\<open>__add_interval\<close> of the constructor and of \<^verbatim>\<open>__add__\<close>.\<close>

definition add_intervals :: "interval list \<Rightarrow> interval list \<Rightarrow> interval list res" where
  "add_intervals itvls ivs = foldE (\<lambda>itvl ivs. add_interval ivs itvl) itvls ivs"

definition new_gtid :: "string \<Rightarrow> interval list \<Rightarrow> Gtid res" where
  "new_gtid sid itvls = bindE (add_intervals itvls []) (\<lambda>ivs. Inr (Gtid sid ivs))"

definition gtid_add :: "Gtid \<Rightarrow> Gtid \<Rightarrow> Gtid res" where
  "gtid_add self other =
    (if gtid_sid self \<noteq> gtid_sid other then Inl (PyException ''Attempt to merge different SID'')
     else bindE (add_intervals (gtid_intervals other) (gtid_intervals self)) (\<lambda>ivs. Inr (Gtid (gtid_sid self) ivs)))"

definition gtid_sub :: "Gtid \<Rightarrow> Gtid \<Rightarrow> Gtid res" where
  "gtid_sub self other =
    (if gtid_sid self \<noteq> gtid_sid other then Inr self
     else bindE (foldE (\<lambda>itvl ivs. sub_interval ivs itvl) (gtid_intervals other) (gtid_intervals self))
       (\<lambda>ivs. Inr (Gtid (gtid_sid self) ivs)))"

section \<open>Text\<close>

text \<open>A dollar sign at the end of a pattern also matches in front of a final newline.\<close>

definition chop_newline :: "string \<Rightarrow> string" where
  "chop_newline s = (if s \<noteq> [] \<and> last s = CHR 0x0A then butlast s else s)"

definition parse_interval :: "string \<Rightarrow> interval res" where
  "parse_interval s =
    (case split_char CHR ''-'' (chop_newline s) of
       [a] \<Rightarrow> if digits a then Inr (int (digits_val a), int (digits_val a) + 1) else Inl ValueError
     | [a, b] \<Rightarrow> if digits a \<and> digits b then Inr (int (digits_val a), int (digits_val b) + 1) else Inl ValueError
     | _ \<Rightarrow> Inl ValueError)"

definition is_hex :: "char \<Rightarrow> bool" where
  "is_hex c = (c \<in> set ''0123456789abcdefABCDEF'')"

definition sid_format :: "string \<Rightarrow> bool" where
  "sid_format s =
    (let ws = split_char CHR ''-'' s in map length ws = [8, 4, 4, 4, 12] \<and> list_all (list_all is_hex) ws)"

definition parse :: "string \<Rightarrow> (string \<times> interval list) res" where
  "parse gtid =
    (let s = chop_newline gtid; sid = take 36 s; ws = split_char CHR '':'' (drop 36 s) in
     if sid_format sid \<and> hd ws = [] \<and> tl ws \<noteq> []
        \<and> list_all (\<lambda>w. w \<noteq> [] \<and> list_all (\<lambda>c. is_digit c \<or> c = CHR ''-'') w) (tl ws)
     then bindE (mapE parse_interval (tl ws)) (\<lambda>itvls. Inr (sid, itvls))
     else Inl ValueError)"

definition gtid_of_text :: "string \<Rightarrow> Gtid res" where
  "gtid_of_text s = bindE (parse s) (\<lambda>(sid, itvls). new_gtid sid itvls)"

definition format_interval :: "interval \<Rightarrow> string" where
  "format_interval x =
    (if fst x + 1 \<noteq> snd x then str_int (fst x) @ ''-'' @ str_int (snd x - 1) else str_int (fst x))"

definition gtid_str :: "Gtid \<Rightarrow> string" where
  "gtid_str g = gtid_sid g @ '':'' @ join '':'' (map format_interval (gtid_intervals g))"

section \<open>Bytes\<close>

definition nibble :: "char \<Rightarrow> nat option" where
  "nibble c =
    (if is_digit c then Some (code c - 48)
     else if c \<in> set ''abcdef'' then Some (code c - 87)
     else if c \<in> set ''ABCDEF'' then Some (code c - 55) else None)"

definition hex_char :: "nat \<Rightarrow> char" where
  "hex_char n = (if n < 10 then digit_char n else char_of (87 + n))"

definition hexlify :: "byte list \<Rightarrow> string" where
  "hexlify bs = concat (map (\<lambda>b. [hex_char (unat b div 16), hex_char (unat b mod 16)]) bs)"

fun unhexlify :: "string \<Rightarrow> byte list res" where
  "unhexlify [] = Inr []"
| "unhexlify [c] = Inl ValueError"
| "unhexlify (c # d # s) =
    (case (nibble c, nibble d) of
       (Some h, Some l) \<Rightarrow> bindE (unhexlify s) (\<lambda>bs. Inr (of_nat (16 * h + l) # bs))
     | _ \<Rightarrow> Inl ValueError)"

definition pack_u64 :: "int \<Rightarrow> byte list res" where
  "pack_u64 i = (if i < 0 then Inl StructError else pack_le 8 (nat i))"

definition gtid_encoded_length :: "Gtid \<Rightarrow> nat" where
  "gtid_encoded_length g = 16 + 8 + 2 * 8 * length (gtid_intervals g)"

definition encode_interval :: "interval \<Rightarrow> byte list res" where
  "encode_interval x = bindE (pack_u64 (fst x)) (\<lambda>a. bindE (pack_u64 (snd x)) (\<lambda>b. Inr (a @ b)))"

definition gtid_encode :: "Gtid \<Rightarrow> byte list res" where
  "gtid_encode g =
    bindE (unhexlify (filter (\<lambda>c. c \<noteq> CHR ''-'') (gtid_sid g))) (\<lambda>sid.
    bindE (pack_u64 (int (length (gtid_intervals g)))) (\<lambda>n.
    bindE (mapE encode_interval (gtid_intervals g)) (\<lambda>ivs. Inr (sid @ n @ concat ivs))))"

text \<open>The reads from the payload: what they return and what is left.\<close>

fun read_intervals :: "nat \<Rightarrow> byte list \<Rightarrow> (interval list \<times> byte list) res" where
  "read_intervals 0 bs = Inr ([], bs)"
| "read_intervals (Suc n) bs =
    (if length bs < 16 then Inl StructError
     else bindE (read_intervals n (drop 16 bs)) (\<lambda>(ivs, rest).
       Inr ((int (le_nat (take 8 bs)), int (le_nat (take 8 (drop 8 bs))) - 1) # ivs, rest)))"

definition sid_of_bytes :: "byte list \<Rightarrow> string" where
  "sid_of_bytes bs =
    hexlify (take 4 bs) @ ''-'' @ hexlify (take 2 (drop 4 bs)) @ ''-'' @ hexlify (take 2 (drop 6 bs)) @ ''-''
      @ hexlify (take 2 (drop 8 bs)) @ ''-'' @ hexlify (take 6 (drop 10 bs))"

definition gtid_decode :: "byte list \<Rightarrow> (Gtid \<times> byte list) res" where
  "gtid_decode bs =
    bindE (unpack_le 8 (take 8 (drop 16 bs))) (\<lambda>n.
    bindE (read_intervals n (drop 24 bs)) (\<lambda>(itvls, rest).
    bindE (gtid_of_text (sid_of_bytes bs @ '':'' @ join '':'' (map (\<lambda>x. str_int (fst x) @ ''-'' @ str_int (snd x)) itvls))) (\<lambda>g.
    Inr (g, rest))))"

section \<open>Comparison\<close>

text \<open>The comparison operators: by server id, then by the lists of intervals.\<close>

definition gtid_lt :: "Gtid \<Rightarrow> Gtid \<Rightarrow> bool" where
  "gtid_lt self other =
    (if gtid_sid other \<noteq> gtid_sid self then gtid_sid self < gtid_sid other
     else gtid_intervals self < gtid_intervals other)"

definition gtid_le :: "Gtid \<Rightarrow> Gtid \<Rightarrow> bool" where
  "gtid_le self other =
    (if gtid_sid other \<noteq> gtid_sid self then gtid_sid self \<le> gtid_sid other
     else gtid_intervals self \<le> gtid_intervals other)"

instantiation Gtid :: linorder
begin

definition less_Gtid :: "Gtid \<Rightarrow> Gtid \<Rightarrow> bool" where
  "less_Gtid = gtid_lt"

definition less_eq_Gtid :: "Gtid \<Rightarrow> Gtid \<Rightarrow> bool" where
  "less_eq_Gtid = gtid_le"

instance
proof
  fix x y z :: Gtid
  show "(x < y) = (x \<le> y \<and> \<not> y \<le> x)"
    by (auto simp: less_Gtid_def less_eq_Gtid_def gtid_lt_def gtid_le_def)
  show "x \<le> x" by (simp add: less_eq_Gtid_def gtid_le_def)
  show "x \<le> y \<Longrightarrow> y \<le> z \<Longrightarrow> x \<le> z"
    by (auto simp: less_eq_Gtid_def gtid_le_def split: if_splits)
  show "x \<le> y \<Longrightarrow> y \<le> x \<Longrightarrow> x = y"
    by (cases x; cases y) (auto simp: less_eq_Gtid_def gtid_le_def split: if_splits)
  show "x \<le> y \<or> y \<le> x"
    by (auto simp: less_eq_Gtid_def gtid_le_def)
qed

end

section \<open>Sets of identifiers\<close>

datatype GtidSet = GtidSet (gtids: "Gtid list")

text \<open>What the constructor takes: nothing, a list or set of identifiers or texts, or one text.\<close>

datatype gtid_element = AsGtid Gtid | AsText string

datatype gtid_source = NoGtids | GtidList "gtid_element list" | GtidText string

fun to_gtid :: "gtid_element \<Rightarrow> Gtid res" where
  "to_gtid (AsGtid g) = Inr g"
| "to_gtid (AsText s) = gtid_of_text (strip_of [CHR '' '', CHR 0x0A] s)"

fun new_gtid_set :: "gtid_source \<Rightarrow> GtidSet res" where
  "new_gtid_set NoGtids = Inr (GtidSet [])"
| "new_gtid_set (GtidList xs) = bindE (mapE to_gtid xs) (\<lambda>gs. Inr (GtidSet gs))"
| "new_gtid_set (GtidText s) =
    (if s = [] then Inr (GtidSet [])
     else bindE (mapE (\<lambda>x. gtid_of_text (strip_of [CHR '' '', CHR 0x0A] x)) (split_char CHR '','' s)) (\<lambda>gs. Inr (GtidSet gs)))"

definition merge_gtid :: "Gtid \<Rightarrow> GtidSet \<Rightarrow> GtidSet res" where
  "merge_gtid g s =
    bindE (mapE (\<lambda>existing. if gtid_sid existing = gtid_sid g then gtid_add existing g else Inr existing) (gtids s)) (\<lambda>new.
      Inr (GtidSet (if gtid_sid g \<notin> set (map gtid_sid new) then new @ [g] else new)))"

text \<open>\<^verbatim>\<open>other in self\<close> for a set and for a single identifier.\<close>

definition set_contains_set :: "GtidSet \<Rightarrow> GtidSet \<Rightarrow> bool" where
  "set_contains_set self other = list_all (\<lambda>g. g \<in> set (gtids self)) (gtids other)"

definition set_contains_gtid :: "GtidSet \<Rightarrow> Gtid \<Rightarrow> bool" where
  "set_contains_gtid self other = list_ex (\<lambda>x. gtid_contains x other) (gtids self)"

definition set_add_gtid :: "GtidSet \<Rightarrow> Gtid \<Rightarrow> GtidSet res" where
  "set_add_gtid self g = merge_gtid g self"

definition set_add_set :: "GtidSet \<Rightarrow> GtidSet \<Rightarrow> GtidSet res" where
  "set_add_set self other = foldE merge_gtid (gtids other) self"

definition set_str :: "GtidSet \<Rightarrow> string" where
  "set_str s = join '','' (map gtid_str (gtids s))"

definition set_encoded_length :: "GtidSet \<Rightarrow> nat" where
  "set_encoded_length s = 8 + sum_list (map gtid_encoded_length (gtids s))"

definition set_encoded :: "GtidSet \<Rightarrow> byte list res" where
  "set_encoded s =
    bindE (pack_u64 (int (length (gtids s)))) (\<lambda>n.
    bindE (mapE gtid_encode (gtids s)) (\<lambda>gs. Inr (n @ concat gs)))"

fun decode_gtids :: "nat \<Rightarrow> byte list \<Rightarrow> (Gtid list \<times> byte list) res" where
  "decode_gtids 0 bs = Inr ([], bs)"
| "decode_gtids (Suc n) bs =
    bindE (gtid_decode bs) (\<lambda>(g, rest). bindE (decode_gtids n rest) (\<lambda>(gs, rest'). Inr (g # gs, rest')))"

definition set_decode :: "byte list \<Rightarrow> (GtidSet \<times> byte list) res" where
  "set_decode bs =
    bindE (unpack_le 8 (take 8 bs)) (\<lambda>n.
    bindE (decode_gtids n (drop 8 bs)) (\<lambda>(gs, rest). Inr (GtidSet gs, rest)))"

section \<open>Interval lists as sets of transaction numbers\<close>

definition interval_set :: "interval \<Rightarrow> int set" where
  "interval_set i = {fst i ..< snd i}"

definition txns :: "interval list \<Rightarrow> int set" where
  "txns ivs = (\<Union>i \<in> set ivs. interval_set i)"

text \<open>The normal form: in order, none empty, and a gap between any two.\<close>

definition normal :: "interval list \<Rightarrow> bool" where
  "normal ivs \<longleftrightarrow> sorted_wrt (\<lambda>x y. snd x < fst y) ivs \<and> (\<forall>x \<in> set ivs. fst x < snd x)"

lemma txns_simps [simp]: "txns [] = {}" "txns (i # ivs) = interval_set i \<union> txns ivs" "txns (ivs @ jvs) = txns ivs \<union> txns jvs"
  by (auto simp: txns_def)

lemma normal_Nil [simp]: "normal []"
  by (simp add: normal_def)

lemma normal_Cons: "normal (x # ivs) \<longleftrightarrow> fst x < snd x \<and> (\<forall>y \<in> set ivs. snd x < fst y) \<and> normal ivs"
  by (auto simp: normal_def)

lemma overlap_iff: "fst x < snd x \<Longrightarrow> fst i < snd i \<Longrightarrow> overlap x i \<longleftrightarrow> interval_set x \<inter> interval_set i \<noteq> {}"
  by (auto simp: overlap_def interval_set_def)

lemma list_ex_overlap_iff:
  assumes "normal ivs" "fst i < snd i"
  shows "list_ex (\<lambda>x. overlap x i) ivs \<longleftrightarrow> txns ivs \<inter> interval_set i \<noteq> {}"
proof -
  have "overlap x i \<longleftrightarrow> interval_set x \<inter> interval_set i \<noteq> {}" if "x \<in> set ivs" for x
    using that assms by (intro overlap_iff) (auto simp: normal_def)
  then show ?thesis by (auto simp: list_ex_iff txns_def)
qed

lemma normal_sorted: "normal ivs \<Longrightarrow> sorted ivs"
proof (induction ivs)
  case (Cons x ivs)
  then have "x \<le> y" if "y \<in> set ivs" for y
    using that by (fastforce simp: normal_Cons less_eq_prod_def)
  with Cons show ?case by (simp add: normal_Cons)
qed simp

lemma merge_loop_new: "merge_loop es i new = (case merge_loop es i [] of (m, kept) \<Rightarrow> (m, new @ kept))"
proof (induction es arbitrary: i new)
  case (Cons e es)
  show ?case using Cons.IH [of i "new @ [e]"] Cons.IH [of i "[e]"] Cons.IH [of _ new]
    by (auto split: prod.splits)
qed simp

text \<open>The merge loop keeps the transactions, and what it keeps does not touch the merged interval.\<close>

definition merged :: "interval list \<Rightarrow> interval \<Rightarrow> interval \<Rightarrow> interval list \<Rightarrow> bool" where
  "merged es i m kept \<longleftrightarrow>
    fst m < snd m \<and> normal kept \<and> set kept \<subseteq> set es
    \<and> (fst m = fst i \<or> (\<exists>x \<in> set es. snd x = fst i \<and> fst m = fst x))
    \<and> (snd m = snd i \<or> (\<exists>x \<in> set es. fst x = snd i \<and> snd m = snd x))
    \<and> (\<forall>x \<in> set kept. snd x < fst m \<or> snd m < fst x)
    \<and> interval_set m \<union> txns kept = interval_set i \<union> txns es"

lemma interval_set_join: "fst i \<le> snd i \<Longrightarrow> snd i \<le> k \<Longrightarrow> interval_set (fst i, k) = interval_set i \<union> interval_set (snd i, k)"
  by (auto simp: interval_set_def)

lemma merge_loop_merged:
  assumes "normal es" "fst i < snd i" "\<forall>x \<in> set es. snd x \<le> fst i \<or> snd i \<le> fst x"
    and "merge_loop es i [] = (m, kept)"
  shows "merged es i m kept"
  using assms
proof (induction es arbitrary: i m kept)
  case Nil
  then show ?case by (simp add: merged_def)
next
  case (Cons e es)
  then have e: "fst e < snd e" "\<forall>y \<in> set es. snd e < fst y \<and> fst y < snd y" and norm: "normal es"
    by (auto simp: normal_Cons normal_def)
  show ?case
  proof (cases "fst i = snd e")
    case True
    let ?j = "(fst e, snd i)"
    have "\<forall>x \<in> set es. snd x \<le> fst ?j \<or> snd ?j \<le> fst x" using Cons.prems(3) e True by fastforce
    then have m: "merged es ?j m kept" using Cons True e norm by (intro Cons.IH) auto
    moreover have "interval_set ?j = interval_set i \<union> interval_set e"
      using interval_set_join [of e "snd i"] Cons.prems(2) e(1) True by (auto simp: interval_set_def)
    moreover have "fst m = fst e" using m e unfolding merged_def by fastforce
    ultimately show ?thesis using True by (auto simp: merged_def)
  next
    case False
    note left = this
    show ?thesis
    proof (cases "snd i = fst e")
      case True
      let ?j = "(fst i, snd e)"
      have "\<forall>x \<in> set es. snd x \<le> fst ?j \<or> snd ?j \<le> fst x" using e by fastforce
      then have m: "merged es ?j m kept" using Cons True left e norm by (intro Cons.IH) auto
      moreover have "interval_set ?j = interval_set i \<union> interval_set e"
        using Cons.prems(2) e(1) True by (auto simp: interval_set_def)
      moreover have "fst m = fst i" "snd m = snd e"
        using m e True Cons.prems(2) unfolding merged_def by fastforce+
      ultimately show ?thesis using True by (auto simp: merged_def)
    next
      case False
      obtain kept' where k: "merge_loop es i [] = (m, kept')" "kept = e # kept'"
        using Cons.prems(4) left False merge_loop_new [of es i "[e]"] by (auto split: prod.splits)
      then have m: "merged es i m kept'" using Cons norm by (intro Cons.IH) auto
      have "snd e < fst m \<or> snd m < fst e"
        using m e left False Cons.prems(2,3) unfolding merged_def by fastforce
      with m k e show ?thesis unfolding merged_def by (auto simp: normal_Cons)
    qed
  qed
qed

lemma normal_insort:
  assumes "normal ivs" "fst m < snd m" "\<forall>x \<in> set ivs. snd x < fst m \<or> snd m < fst x"
  shows "normal (insort m ivs)"
  using assms
proof (induction ivs)
  case (Cons x ivs)
  then show ?case by (auto simp: normal_Cons set_insort_key less_eq_prod_def)
qed (simp add: normal_Cons)

lemma txns_insort [simp]: "txns (insort m ivs) = interval_set m \<union> txns ivs"
  by (auto simp: txns_def set_insort_key)

lemma sort_snoc: "sort (xs @ [x]) = insort x (sort xs)"
  by (induction xs) (simp_all add: insort_left_comm)

section \<open>Collections that only take what they do not have\<close>

text \<open>
  The contract of adding an item to a collection: a disjoint item joins it, an item that
  overlaps is refused; and what it means for adding several items.
\<close>

locale disjoint_adder =
  fixes add :: "'i \<Rightarrow> 's \<Rightarrow> 's res" and ok :: "'s \<Rightarrow> bool" and elems :: "'s \<Rightarrow> 'a set"
    and item_ok :: "'i \<Rightarrow> bool" and item :: "'i \<Rightarrow> 'a set"
  assumes add_disjoint: "ok s \<Longrightarrow> item_ok i \<Longrightarrow> elems s \<inter> item i = {} \<Longrightarrow>
      \<exists>s'. add i s = Inr s' \<and> ok s' \<and> elems s' = elems s \<union> item i"
    and add_overlap: "ok s \<Longrightarrow> item_ok i \<Longrightarrow> elems s \<inter> item i \<noteq> {} \<Longrightarrow> \<exists>e. add i s = Inl e"
begin

lemma adds_disjoint:
  "ok s \<Longrightarrow> list_all item_ok is \<Longrightarrow> (\<forall>i \<in> set is. elems s \<inter> item i = {}) \<Longrightarrow> sorted_wrt (\<lambda>i j. item i \<inter> item j = {}) is \<Longrightarrow>
    \<exists>s'. foldE add is s = Inr s' \<and> ok s' \<and> elems s' = elems s \<union> \<Union> (item ` set is)"
proof (induction "is" arbitrary: s)
  case Nil
  then show ?case by simp
next
  case (Cons i "is")
  then obtain t where t: "add i s = Inr t" "ok t" "elems t = elems s \<union> item i"
    using add_disjoint [of s i] by auto
  with Cons.prems have "\<exists>s'. foldE add is t = Inr s' \<and> ok s' \<and> elems s' = elems t \<union> \<Union> (item ` set is)"
    by (intro Cons.IH) auto
  with t show ?case by auto
qed

lemma adds_overlap:
  "ok s \<Longrightarrow> list_all item_ok is \<Longrightarrow> (\<exists>i \<in> set is. elems s \<inter> item i \<noteq> {}) \<Longrightarrow> \<exists>e. foldE add is s = Inl e"
proof (induction "is" arbitrary: s)
  case Nil
  then show ?case by simp
next
  case (Cons i "is")
  show ?case
  proof (cases "elems s \<inter> item i = {}")
    case True
    with Cons.prems obtain t where t: "add i s = Inr t" "ok t" "elems t = elems s \<union> item i"
      using add_disjoint [of s i] by auto
    with Cons.prems True have "\<exists>e. foldE add is t = Inl e" by (intro Cons.IH) auto
    with t show ?thesis by simp
  next
    case False
    with Cons.prems add_overlap [of s i] show ?thesis by auto
  qed
qed

end

lemma add_interval_disjoint:
  assumes "normal ivs" "fst i < snd i" "txns ivs \<inter> interval_set i = {}"
  shows "\<exists>ivs'. add_interval ivs i = Inr ivs' \<and> normal ivs' \<and> txns ivs' = txns ivs \<union> interval_set i"
proof -
  obtain m kept where m: "merge_loop ivs i [] = (m, kept)" by fastforce
  have no: "\<not> list_ex (\<lambda>x. overlap x i) ivs" using assms list_ex_overlap_iff by blast
  then have "\<forall>x \<in> set ivs. snd x \<le> fst i \<or> snd i \<le> fst x" by (auto simp: list_ex_iff overlap_def)
  then have mg: "merged ivs i m kept" using merge_loop_merged [OF assms(1,2) _ m] by blast
  then have sorts: "sort ivs = ivs" "sort kept = kept"
    using assms(1) normal_sorted by (auto simp: sorted_sort_id merged_def)
  have "add_interval ivs i = Inr (insort m kept)"
    using no assms(2) sorts m by (simp add: add_interval_def sort_snoc)
  with mg normal_insort show ?thesis by (auto simp: merged_def)
qed

lemma add_interval_overlap:
  "normal ivs \<Longrightarrow> fst i < snd i \<Longrightarrow> txns ivs \<inter> interval_set i \<noteq> {} \<Longrightarrow> \<exists>e. add_interval ivs i = Inl e"
  using list_ex_overlap_iff by (simp add: add_interval_def)

interpretation intervals: disjoint_adder "\<lambda>itvl ivs. add_interval ivs itvl" normal txns "\<lambda>i. fst i < snd i" interval_set
  using add_interval_disjoint add_interval_overlap by unfold_locales blast+

lemma normal_items:
  assumes "normal ivs"
  shows "list_all (\<lambda>i. fst i < snd i) ivs" "sorted_wrt (\<lambda>i j. interval_set i \<inter> interval_set j = {}) ivs"
  using assms by (auto simp: normal_def list_all_iff interval_set_def intro: sorted_wrt_mono_rel [rotated])

lemma add_intervals_normal:
  assumes "normal ivs" "normal jvs"
  shows "if txns ivs \<inter> txns jvs = {} then \<exists>kvs. add_intervals jvs ivs = Inr kvs \<and> normal kvs \<and> txns kvs = txns ivs \<union> txns jvs
    else \<exists>e. add_intervals jvs ivs = Inl e"
  using intervals.adds_disjoint [OF assms(1) normal_items(1) [OF assms(2)] _ normal_items(2) [OF assms(2)]]
    intervals.adds_overlap [OF assms(1) normal_items(1) [OF assms(2)]]
  by (auto simp: add_intervals_def txns_def [of jvs])

section \<open>Subtraction and containment\<close>

lemma normal_carve: "fst i < snd i \<Longrightarrow> fst x < snd x \<Longrightarrow> normal (carve i x)"
  by (simp add: carve_def overlap_def normal_Cons)

lemma txns_carve: "fst i < snd i \<Longrightarrow> fst x < snd x \<Longrightarrow> txns (carve i x) = interval_set x - interval_set i"
  unfolding carve_def overlap_def interval_set_def
  by (cases "fst x < fst i"; cases "snd i < snd x"; cases "fst x < snd i"; cases "fst i < snd x")
    (simp_all add: interval_set_def set_eq_iff, arith+)

lemma carve_within: "y \<in> set (carve i x) \<Longrightarrow> fst i < snd i \<Longrightarrow> fst x \<le> fst y \<and> snd y \<le> snd x"
  by (cases "overlap x i"; cases "fst x < fst i"; cases "snd i < snd x") (auto simp: carve_def overlap_def)

lemma normal_append:
  "normal ivs \<Longrightarrow> normal jvs \<Longrightarrow> (\<forall>x \<in> set ivs. \<forall>y \<in> set jvs. snd x < fst y) \<Longrightarrow> normal (ivs @ jvs)"
  by (auto simp: normal_def sorted_wrt_append)

lemma normal_carves:
  assumes "fst i < snd i"
  shows "normal ivs \<Longrightarrow> normal (concat (map (carve i) ivs)) \<and> txns (concat (map (carve i) ivs)) = txns ivs - interval_set i
    \<and> (\<forall>y \<in> set (concat (map (carve i) ivs)). \<exists>x \<in> set ivs. fst x \<le> fst y)"
proof (induction ivs)
  case Nil
  then show ?case by simp
next
  case (Cons x ivs)
  then have x: "fst x < snd x" "\<forall>y \<in> set ivs. snd x < fst y" "normal ivs" by (auto simp: normal_Cons)
  let ?rest = "concat (map (carve i) ivs)"
  note IH = Cons.IH [OF x(3)]
  have "snd y < fst z" if y: "y \<in> set (carve i x)" and z: "z \<in> set ?rest" for y z
  proof -
    from IH z obtain x' where "x' \<in> set ivs" "fst x' \<le> fst z" by blast
    with x(2) carve_within [OF y assms] show ?thesis by force
  qed
  then have "normal (carve i x @ ?rest)" using normal_carve [OF assms x(1)] IH by (intro normal_append) auto
  moreover have "txns (carve i x @ ?rest) = txns (x # ivs) - interval_set i"
    using txns_carve [OF assms x(1)] IH by auto
  moreover have "\<exists>x' \<in> set (x # ivs). fst x' \<le> fst y" if "y \<in> set (carve i x @ ?rest)" for y
    using that IH carve_within [OF _ assms, of y x] by auto
  ultimately show ?case by simp
qed

lemma sub_interval_normal:
  assumes "normal ivs" "fst i < snd i"
  shows "\<exists>ivs'. sub_interval ivs i = Inr ivs' \<and> normal ivs' \<and> txns ivs' = txns ivs - interval_set i"
proof -
  have "sort ivs = ivs" using assms(1) normal_sorted by (simp add: sorted_sort_id)
  then show ?thesis
    using assms list_ex_overlap_iff [OF assms] normal_carves [OF assms(2,1)]
    by (auto simp: sub_interval_def)
qed

lemma sub_intervals_normal:
  "normal ivs \<Longrightarrow> list_all (\<lambda>i. fst i < snd i) jvs \<Longrightarrow>
    \<exists>kvs. foldE (\<lambda>itvl ivs. sub_interval ivs itvl) jvs ivs = Inr kvs \<and> normal kvs \<and> txns kvs = txns ivs - txns jvs"
proof (induction jvs arbitrary: ivs)
  case Nil
  then show ?case by simp
next
  case (Cons i jvs)
  then obtain t where t: "sub_interval ivs i = Inr t" "normal t" "txns t = txns ivs - interval_set i"
    using sub_interval_normal [of ivs i] by auto
  with Cons.IH [of t] Cons.prems show ?case by auto
qed

lemma covered_by_one:
  assumes "normal ivs" "fst i < snd i" "interval_set i \<subseteq> txns ivs"
  shows "\<exists>x \<in> set ivs. interval_contains x i"
proof -
  obtain x where x: "x \<in> set ivs" "fst x \<le> fst i" "fst i < snd x"
    using assms(2,3) by (fastforce simp: txns_def interval_set_def)
  have "snd i \<le> snd x"
  proof (rule ccontr)
    assume "\<not> snd i \<le> snd x"
    with x assms(3) have "snd x \<in> txns ivs" by (auto simp: interval_set_def subset_iff)
    then obtain y where y: "y \<in> set ivs" "fst y \<le> snd x" "snd x < snd y" by (auto simp: txns_def interval_set_def)
    then have "x \<noteq> y" by auto
    with x(1) y(1) assms(1) have "snd x < fst y \<or> snd y < fst x"
      by (auto simp: normal_def sorted_wrt_iff_nth_less in_set_conv_nth) (metis linorder_neqE_nat)
    with x y show False by auto
  qed
  with x show ?thesis by (auto simp: interval_contains_def)
qed

text \<open>Two lists in normal form with the same transactions are the same list.\<close>

lemma normal_bounds: "normal (x # ivs) \<Longrightarrow> t \<in> txns (x # ivs) \<Longrightarrow> fst x \<le> t \<and> (t < snd x \<or> snd x < t \<and> t \<in> txns ivs)"
  by (fastforce simp: normal_Cons txns_def interval_set_def normal_def)

lemma normal_unique: "normal ivs \<Longrightarrow> normal jvs \<Longrightarrow> txns ivs = txns jvs \<Longrightarrow> ivs = jvs"
proof (induction ivs arbitrary: jvs)
  case Nil
  then show ?case by (cases jvs) (auto simp: normal_Cons interval_set_def)
next
  case (Cons x ivs)
  then have "fst x \<in> txns jvs" by (auto simp: normal_Cons interval_set_def)
  then obtain y jvs' where jvs: "jvs = y # jvs'" by (cases jvs) auto
  note bx = normal_bounds [OF Cons.prems(1)] and byy = normal_bounds [OF Cons.prems(2) [unfolded jvs]]
  have same: "t \<in> txns (x # ivs) \<longleftrightarrow> t \<in> txns (y # jvs')" for t using Cons.prems(3) jvs by auto
  have nx: "fst x < snd x" "fst y < snd y" using Cons.prems(1,2) jvs by (auto simp: normal_Cons)
  then have mem: "t \<in> txns (x # ivs)" if "fst x \<le> t" "t < snd x" for t using that by (auto simp: interval_set_def)
  have mem': "t \<in> txns (y # jvs')" if "fst y \<le> t" "t < snd y" for t using that by (auto simp: interval_set_def)
  have fst: "fst x = fst y" using bx [of "fst y"] byy [of "fst x"] mem [of "fst x"] mem' [of "fst y"] same nx by force
  have "\<not> snd x < snd y" using bx [of "snd x"] mem' [of "snd x"] same nx fst by auto
  moreover have "\<not> snd y < snd x" using byy [of "snd y"] mem [of "snd y"] same nx fst by auto
  ultimately have "snd x = snd y" by simp
  with fst have xy: "x = y" by (simp add: prod_eq_iff)
  have "txns ivs = txns jvs'"
  proof (rule set_eqI)
    fix t
    have "t \<notin> interval_set x" if "t \<in> txns ivs \<or> t \<in> txns jvs'"
      using that Cons.prems(1,2) jvs xy by (fastforce simp: normal_Cons txns_def interval_set_def)
    then show "t \<in> txns ivs \<longleftrightarrow> t \<in> txns jvs'" using same [of t] xy by auto
  qed
  with Cons jvs xy show ?case by (simp add: normal_Cons)
qed

section \<open>Identifiers and sets of them\<close>

definition gtid_ok :: "Gtid \<Rightarrow> bool" where
  "gtid_ok g = normal (gtid_intervals g)"

definition gtid_txns :: "Gtid \<Rightarrow> (string \<times> int) set" where
  "gtid_txns g = {gtid_sid g} \<times> txns (gtid_intervals g)"

definition set_ok :: "GtidSet \<Rightarrow> bool" where
  "set_ok s \<longleftrightarrow> list_all gtid_ok (gtids s) \<and> distinct (map gtid_sid (gtids s))"

definition set_txns :: "GtidSet \<Rightarrow> (string \<times> int) set" where
  "set_txns s = (\<Union>g \<in> set (gtids s). gtid_txns g)"

lemma gtid_add_ok:
  assumes "gtid_ok x" "gtid_ok g" "gtid_sid x = gtid_sid g"
  shows "if gtid_txns x \<inter> gtid_txns g = {}
    then \<exists>y. gtid_add x g = Inr y \<and> gtid_ok y \<and> gtid_sid y = gtid_sid x \<and> gtid_txns y = gtid_txns x \<union> gtid_txns g
    else \<exists>e. gtid_add x g = Inl e"
  using add_intervals_normal [of "gtid_intervals x" "gtid_intervals g"] assms
  by (auto simp: gtid_add_def gtid_ok_def gtid_txns_def split: if_splits)

lemma mapE_raises: "x \<in> set xs \<Longrightarrow> f x = Inl e \<Longrightarrow> \<exists>e'. mapE f xs = Inl e'"
  by (induction xs) (auto simp: bindE_Inl_iff bindE_def split: sum.splits)

lemma UN_union_if: "(\<Union>x \<in> A. f x \<union> (if P x then G else {})) = (\<Union>x \<in> A. f x) \<union> (if \<exists>x \<in> A. P x then G else {})"
  by (auto split: if_splits)

lemma merge_gtid_disjoint:
  assumes ok: "set_ok s" "gtid_ok g" and disj: "set_txns s \<inter> gtid_txns g = {}"
  shows "\<exists>s'. merge_gtid g s = Inr s' \<and> set_ok s' \<and> set_txns s' = set_txns s \<union> gtid_txns g"
proof -
  let ?f = "\<lambda>x. if gtid_sid x = gtid_sid g then gtid_add x g else Inr x"
  have "\<forall>x \<in> set (gtids s). \<exists>y. ?f x = Inr y \<and> gtid_ok y \<and> gtid_sid y = gtid_sid x
      \<and> gtid_txns y = gtid_txns x \<union> (if gtid_sid x = gtid_sid g then gtid_txns g else {})"
  proof
    fix x assume x: "x \<in> set (gtids s)"
    then have "gtid_ok x" "gtid_txns x \<inter> gtid_txns g = {}" using ok(1) disj by (auto simp: set_ok_def list_all_iff set_txns_def)
    then show "\<exists>y. ?f x = Inr y \<and> gtid_ok y \<and> gtid_sid y = gtid_sid x
      \<and> gtid_txns y = gtid_txns x \<union> (if gtid_sid x = gtid_sid g then gtid_txns g else {})"
      using gtid_add_ok [of x g] ok(2) by auto
  qed
  then obtain h where h: "\<And>x. x \<in> set (gtids s) \<Longrightarrow> ?f x = Inr (h x) \<and> gtid_ok (h x) \<and> gtid_sid (h x) = gtid_sid x
      \<and> gtid_txns (h x) = gtid_txns x \<union> (if gtid_sid x = gtid_sid g then gtid_txns g else {})"
    by (auto dest!: bchoice)
  have run: "mapE ?f (gtids s) = Inr (map h (gtids s))" using h by (intro mapE_total) blast
  have sids: "map gtid_sid (map h (gtids s)) = map gtid_sid (gtids s)" using h by simp
  have oks: "list_all gtid_ok (map h (gtids s))" "distinct (map gtid_sid (map h (gtids s)))"
    using h ok(1) sids by (auto simp: list_all_iff set_ok_def simp del: map_map)
  have "gtid_txns (h x) = gtid_txns x \<union> (if gtid_sid x = gtid_sid g then gtid_txns g else {})" if "x \<in> set (gtids s)" for x
    using h [OF that] by blast
  then have "(\<Union>x \<in> set (gtids s). gtid_txns (h x)) =
      (\<Union>x \<in> set (gtids s). gtid_txns x \<union> (if gtid_sid x = gtid_sid g then gtid_txns g else {}))"
    by (intro SUP_cong refl) blast
  also have "\<dots> = set_txns s \<union> (if gtid_sid g \<in> set (map gtid_sid (gtids s)) then gtid_txns g else {})"
    unfolding UN_union_if set_txns_def by (rule arg_cong2 [where f = "(\<union>)"]) (auto simp: image_iff)
  finally have tx: "(\<Union>x \<in> set (gtids s). gtid_txns (h x)) = \<dots>" .
  let ?s' = "GtidSet (if gtid_sid g \<notin> set (map gtid_sid (map h (gtids s))) then map h (gtids s) @ [g] else map h (gtids s))"
  have "merge_gtid g s = Inr ?s'" using run by (simp add: merge_gtid_def image_image)
  moreover have "set_ok ?s'" using oks ok(2) by (auto simp: set_ok_def simp del: map_map)
  moreover have "set_txns ?s' = set_txns s \<union> gtid_txns g"
    unfolding sids using tx by (auto simp: set_txns_def)
  ultimately show ?thesis by blast
qed

lemma merge_gtid_overlap:
  assumes ok: "set_ok s" "gtid_ok g" and over: "set_txns s \<inter> gtid_txns g \<noteq> {}"
  shows "\<exists>e. merge_gtid g s = Inl e"
proof -
  let ?f = "\<lambda>x. if gtid_sid x = gtid_sid g then gtid_add x g else Inr x"
  obtain x where x: "x \<in> set (gtids s)" "gtid_txns x \<inter> gtid_txns g \<noteq> {}" using over by (auto simp: set_txns_def)
  then have "gtid_sid x = gtid_sid g" "gtid_ok x" using ok(1) by (auto simp: gtid_txns_def set_ok_def list_all_iff)
  then obtain e where "?f x = Inl e" using gtid_add_ok [OF _ ok(2), of x] x(2) by auto
  with mapE_raises [OF x(1), of ?f] show ?thesis by (auto simp: merge_gtid_def)
qed

interpretation sets: disjoint_adder merge_gtid set_ok set_txns gtid_ok gtid_txns
  using merge_gtid_disjoint merge_gtid_overlap by unfold_locales blast+

text \<open>C30. Adding one set of global transaction identifiers to another is the union of their
  transactions when they have none in common, and raises when they have one; the result has one
  entry per server with sorted intervals that do not touch.\<close>

theorem gtid_set_union:
  assumes "set_ok self" "set_ok other"
  shows "if set_txns self \<inter> set_txns other = {}
    then \<exists>u. set_add_set self other = Inr u \<and> set_ok u \<and> set_txns u = set_txns self \<union> set_txns other
    else \<exists>e. set_add_set self other = Inl e"
proof -
  have ok: "list_all gtid_ok (gtids other)" using assms(2) by (simp add: set_ok_def)
  have "sorted_wrt (\<lambda>g h. gtid_sid g \<noteq> gtid_sid h) (gtids other)"
    using assms(2) by (simp add: set_ok_def distinct_map sorted_wrt_map [symmetric] distinct_conv_nth sorted_wrt_iff_nth_less inj_on_def)
  then have disj: "sorted_wrt (\<lambda>g h. gtid_txns g \<inter> gtid_txns h = {}) (gtids other)"
    by (rule sorted_wrt_mono_rel [rotated]) (auto simp: gtid_txns_def)
  show ?thesis
    using sets.adds_disjoint [OF assms(1) ok _ disj] sets.adds_overlap [OF assms(1) ok]
    by (auto simp: set_add_set_def set_txns_def [of other])
qed

definition sample_gtid :: "interval list \<Rightarrow> Gtid" where
  "sample_gtid ivs = Gtid ''3e11fa47-71ca-11e1-9e33-c80aa9429562'' ivs"

theorem gtid_set_union_witness:
  "\<exists>u. set_add_set (GtidSet [sample_gtid [(1, 3), (5, 6)]]) (GtidSet [sample_gtid [(3, 5)]]) = Inr u
    \<and> set_txns u = {''3e11fa47-71ca-11e1-9e33-c80aa9429562''} \<times> {1, 2, 3, 4, 5}"
proof -
  have t: "set_txns (GtidSet [sample_gtid [(1, 3), (5, 6)]]) = {''3e11fa47-71ca-11e1-9e33-c80aa9429562''} \<times> {1, 2, 5}"
    "set_txns (GtidSet [sample_gtid [(3, 5)]]) = {''3e11fa47-71ca-11e1-9e33-c80aa9429562''} \<times> {3, 4}"
    by (auto simp: set_txns_def gtid_txns_def sample_gtid_def interval_set_def)
  have "set_ok (GtidSet [sample_gtid [(1, 3), (5, 6)]])" "set_ok (GtidSet [sample_gtid [(3, 5)]])"
    by (simp_all add: set_ok_def gtid_ok_def normal_def sample_gtid_def)
  from gtid_set_union [OF this] show ?thesis unfolding t by (auto split: if_splits)
qed

text \<open>C31. For identifiers of one server in normal form, subtraction is the difference of the
  transactions and never raises, containment is inclusion although it only looks for a single
  interval around each interval, and equality is equality of the transactions.\<close>

theorem gtid_algebra:
  assumes "gtid_ok self" "gtid_ok other" "gtid_sid self = gtid_sid other"
  shows "(\<exists>d. gtid_sub self other = Inr d \<and> gtid_ok d \<and> gtid_txns d = gtid_txns self - gtid_txns other)
    \<and> (gtid_contains self other \<longleftrightarrow> gtid_txns other \<subseteq> gtid_txns self)
    \<and> (self = other \<longleftrightarrow> gtid_txns self = gtid_txns other)"
proof (intro conjI)
  let ?s = "gtid_intervals self" and ?o = "gtid_intervals other"
  have n: "normal ?s" "normal ?o" using assms by (simp_all add: gtid_ok_def)
  have inc: "gtid_txns other \<subseteq> gtid_txns self \<longleftrightarrow> txns ?o \<subseteq> txns ?s" using assms(3) by (auto simp: gtid_txns_def)
  show "\<exists>d. gtid_sub self other = Inr d \<and> gtid_ok d \<and> gtid_txns d = gtid_txns self - gtid_txns other"
    using sub_intervals_normal [OF n(1) normal_items(1) [OF n(2)]] assms(3)
    by (auto simp: gtid_sub_def gtid_ok_def gtid_txns_def)
  have "(\<forall>i \<in> set ?o. \<exists>x \<in> set ?s. interval_contains x i) \<longleftrightarrow> txns ?o \<subseteq> txns ?s"
  proof
    assume "\<forall>i \<in> set ?o. \<exists>x \<in> set ?s. interval_contains x i"
    then have "\<exists>x \<in> set ?s. interval_set i \<subseteq> interval_set x" if "i \<in> set ?o" for i
      using that by (fastforce simp: interval_contains_def interval_set_def)
    then show "txns ?o \<subseteq> txns ?s" unfolding txns_def by blast
  next
    assume "txns ?o \<subseteq> txns ?s"
    then have "interval_set i \<subseteq> txns ?s" if "i \<in> set ?o" for i using that by (auto simp: txns_def)
    then show "\<forall>i \<in> set ?o. \<exists>x \<in> set ?s. interval_contains x i" using n by (auto intro!: covered_by_one simp: normal_def)
  qed
  then show "gtid_contains self other \<longleftrightarrow> gtid_txns other \<subseteq> gtid_txns self"
    using assms(3) inc by (simp add: gtid_contains_def list_all_iff list_ex_iff)
  show "self = other \<longleftrightarrow> gtid_txns self = gtid_txns other"
    using assms(3) normal_unique [OF n] by (cases self; cases other) (auto simp: gtid_txns_def)
qed

theorem gtid_algebra_witness:
  "gtid_contains (sample_gtid [(1, 10)]) (sample_gtid [(2, 4), (6, 9)])
    \<and> \<not> gtid_contains (sample_gtid [(1, 5), (6, 10)]) (sample_gtid [(2, 7)])
    \<and> (\<exists>d. gtid_sub (sample_gtid [(1, 10)]) (sample_gtid [(2, 4), (6, 9)]) = Inr d
         \<and> gtid_txns d = {''3e11fa47-71ca-11e1-9e33-c80aa9429562''} \<times> {1, 4, 5, 9})"
proof -
  have ok: "gtid_ok (sample_gtid [(1, 10)])" "gtid_ok (sample_gtid [(2, 4), (6, 9)])"
    "gtid_ok (sample_gtid [(1, 5), (6, 10)])" "gtid_ok (sample_gtid [(2, 7)])" and sid: "\<And>i j. gtid_sid (sample_gtid i) = gtid_sid (sample_gtid j)"
    by (simp_all add: gtid_ok_def normal_def sample_gtid_def)
  have "(''3e11fa47-71ca-11e1-9e33-c80aa9429562'', 5) \<in> gtid_txns (sample_gtid [(2, 7)]) - gtid_txns (sample_gtid [(1, 5), (6, 10)])"
    by (simp add: gtid_txns_def sample_gtid_def interval_set_def)
  then have "\<not> gtid_txns (sample_gtid [(2, 7)]) \<subseteq> gtid_txns (sample_gtid [(1, 5), (6, 10)])" by blast
  moreover have "gtid_txns (sample_gtid [(2, 4), (6, 9)]) \<subseteq> gtid_txns (sample_gtid [(1, 10)])"
    "gtid_txns (sample_gtid [(1, 10)]) - gtid_txns (sample_gtid [(2, 4), (6, 9)]) = {''3e11fa47-71ca-11e1-9e33-c80aa9429562''} \<times> {1, 4, 5, 9}"
    by (auto simp: gtid_txns_def sample_gtid_def interval_set_def)
  moreover note algebra = gtid_algebra [OF ok(1,2) sid] gtid_algebra [OF ok(3,4) sid]
  obtain d where "gtid_sub (sample_gtid [(1, 10)]) (sample_gtid [(2, 4), (6, 9)]) = Inr d"
    "gtid_txns d = gtid_txns (sample_gtid [(1, 10)]) - gtid_txns (sample_gtid [(2, 4), (6, 9)])"
    using algebra(1) by blast
  ultimately show ?thesis using algebra by (intro conjI exI [of _ d]) simp_all
qed

text \<open>Whether a set contains another is tested by equality of the entries: a part is not contained.\<close>

lemma set_contains_set_by_equality:
  "\<not> set_contains_set (GtidSet [sample_gtid [(1, 11)]]) (GtidSet [sample_gtid [(1, 6)]])
    \<and> set_contains_gtid (GtidSet [sample_gtid [(1, 11)]]) (sample_gtid [(1, 6)])"
  by (simp add: set_contains_set_def set_contains_gtid_def gtid_contains_def interval_contains_def sample_gtid_def)

section \<open>Text round trip\<close>

definition itvl_text :: "string \<Rightarrow> bool" where
  "itvl_text w \<longleftrightarrow> w \<noteq> [] \<and> list_all (\<lambda>c. is_digit c \<or> c = CHR ''-'') w"

lemma digit_not: "is_digit c \<Longrightarrow> c \<noteq> CHR '':'' \<and> c \<noteq> CHR 0x0A \<and> c \<noteq> CHR ''-'' \<and> c \<noteq> CHR '' '' \<and> c \<noteq> CHR '','' "
  by (auto simp: is_digit_def code_def)

lemma itvl_text_notin: "itvl_text w \<Longrightarrow> CHR '':'' \<notin> set w \<and> CHR 0x0A \<notin> set w \<and> CHR '','' \<notin> set w \<and> CHR '' '' \<notin> set w"
  using digit_not by (fastforce simp: itvl_text_def list_all_iff)

lemma chop_newline_notin: "CHR 0x0A \<notin> set s \<Longrightarrow> chop_newline s = s"
  by (auto simp: chop_newline_def) (metis last_in_set)

lemma parse_text:
  assumes sid: "sid_format sid" "length sid = 36" "CHR 0x0A \<notin> set sid"
    and ws: "ws \<noteq> []" "\<forall>w \<in> set ws. itvl_text w"
  shows "parse (sid @ '':'' @ join '':'' ws) = bindE (mapE parse_interval ws) (\<lambda>itvls. Inr (sid, itvls))"
proof -
  let ?s = "sid @ '':'' @ join '':'' ws"
  have "CHR 0x0A \<notin> set (join '':'' ws)" using set_join [of "'':''" ws] ws(2) itvl_text_notin by fastforce
  then have chop: "chop_newline ?s = ?s" using sid(3) by (intro chop_newline_notin) auto
  have split: "split_char CHR '':'' (drop 36 ?s) = [] # ws"
    using sid(2) split_char_join [OF ws(1), of "CHR '':''"] ws(2) itvl_text_notin by simp
  have all: "list_all (\<lambda>w. w \<noteq> [] \<and> list_all (\<lambda>c. is_digit c \<or> c = CHR ''-'') w) ws"
    using ws(2) by (simp add: itvl_text_def list_all_iff)
  have "take 36 ?s = sid" using sid(2) by simp
  then show ?thesis unfolding parse_def chop Let_def split using sid(1) ws(1) all by simp
qed

lemma itvl_text_str: "itvl_text (str_nat n)" "itvl_text (str_nat m @ ''-'' @ str_nat n)"
  using digits_str_nat by (auto simp: itvl_text_def digits_def list_all_iff)

lemma dash_notin_str_nat: "CHR ''-'' \<notin> set (str_nat n)"
  using digits_str_nat [of n] is_digit_not_sign by (auto simp: digits_def list_all_iff)

lemma parse_interval_str:
  "parse_interval (str_nat n) = Inr (int n, int n + 1)"
  "parse_interval (str_nat m @ ''-'' @ str_nat n) = Inr (int m, int n + 1)"
  using itvl_text_notin [OF itvl_text_str(1) [of n]] itvl_text_notin [OF itvl_text_str(2) [of m n]] dash_notin_str_nat
  by (simp_all add: parse_interval_def chop_newline_notin split_char_notin split_char_append)

lemma str_int_nat: "0 \<le> i \<Longrightarrow> str_int i = str_nat (nat i)"
  by (simp add: str_int_def)

lemma format_interval_parses:
  assumes "0 \<le> fst x" "fst x < snd x"
  shows "itvl_text (format_interval x) \<and> parse_interval (format_interval x) = Inr x"
  using assms itvl_text_str parse_interval_str [of "nat (fst x)"] parse_interval_str(2) [of "nat (fst x)" "nat (snd x - 1)"]
  by (auto simp: format_interval_def str_int_nat prod_eq_iff)

lemma range_text_parses:
  assumes "0 \<le> fst x" "0 \<le> snd x"
  shows "itvl_text (str_int (fst x) @ ''-'' @ str_int (snd x))
    \<and> parse_interval (str_int (fst x) @ ''-'' @ str_int (snd x)) = Inr (fst x, snd x + 1)"
  using assms itvl_text_str parse_interval_str(2) [of "nat (fst x)" "nat (snd x)"] by (simp add: str_int_nat)

lemma new_gtid_normal: "normal ivs \<Longrightarrow> new_gtid sid ivs = Inr (Gtid sid ivs)"
  using add_intervals_normal [of "[]" ivs] normal_unique by (fastforce simp: new_gtid_def)

lemma gtid_of_text_intervals:
  assumes sid: "sid_format sid" "length sid = 36" "CHR 0x0A \<notin> set sid" and ivs: "normal ivs" "ivs \<noteq> []"
    and f: "\<And>x. x \<in> set ivs \<Longrightarrow> itvl_text (f x) \<and> parse_interval (f x) = Inr x"
  shows "gtid_of_text (sid @ '':'' @ join '':'' (map f ivs)) = Inr (Gtid sid ivs)"
proof -
  have "mapE parse_interval (map f ivs) = Inr ivs"
    using f by (induction ivs) simp_all
  moreover have "\<forall>w \<in> set (map f ivs). itvl_text w" using f by auto
  ultimately show ?thesis
    using parse_text [OF sid, of "map f ivs"] ivs new_gtid_normal unfolding gtid_of_text_def by simp
qed

section \<open>Binary round trip\<close>

lemma hex_char_facts:
  "n < 16 \<Longrightarrow> nibble (hex_char n) = Some n \<and> is_hex (hex_char n) \<and> hex_char n \<notin> set [CHR ''-'', CHR 0x0A, CHR '' '', CHR '','']"
proof -
  have "\<forall>n \<in> set [0 ..< 16]. nibble (hex_char n) = Some n \<and> is_hex (hex_char n) \<and> hex_char n \<notin> set [CHR ''-'', CHR 0x0A, CHR '' '', CHR '','']"
    by code_simp
  then show "n < 16 \<Longrightarrow> ?thesis" by (simp only: set_upt) auto
qed

lemma hexlify_append [simp]: "hexlify (as @ bs) = hexlify as @ hexlify bs"
  by (simp add: hexlify_def)

lemma length_hexlify [simp]: "length (hexlify bs) = 2 * length bs"
  by (induction bs) (simp_all add: hexlify_def)

lemma unat_nibbles: "unat (b :: byte) div 16 < 16" "unat (b :: byte) mod 16 < 16"
  using unat_byte [of b] by auto

lemma hexlify_chars:
  "list_all is_hex (hexlify bs)" "c \<in> set [CHR ''-'', CHR 0x0A, CHR '' '', CHR '',''] \<Longrightarrow> c \<notin> set (hexlify bs)"
proof -
  have "list_all is_hex (hexlify bs) \<and> set (hexlify bs) \<inter> set [CHR ''-'', CHR 0x0A, CHR '' '', CHR '',''] = {}"
  proof (induction bs)
    case (Cons b bs)
    then show ?case
      using hex_char_facts [OF unat_nibbles(1) [of b]] hex_char_facts [OF unat_nibbles(2) [of b]] by (simp add: hexlify_def)
  qed (simp add: hexlify_def)
  then show "list_all is_hex (hexlify bs)" "c \<in> set [CHR ''-'', CHR 0x0A, CHR '' '', CHR '',''] \<Longrightarrow> c \<notin> set (hexlify bs)"
    by blast+
qed

lemma unhexlify_hexlify: "unhexlify (hexlify bs) = Inr bs"
proof (induction bs)
  case Nil
  then show ?case by (simp add: hexlify_def)
next
  case (Cons b bs)
  have "16 * (unat b div 16) + unat b mod 16 = unat b" by (rule mult_div_mod_eq)
  with Cons show ?case by (simp add: hexlify_def hex_char_facts unat_nibbles)
qed

lemma split_16:
  assumes "length bs = 16"
  shows "take 4 bs @ take 2 (drop 4 bs) @ take 2 (drop 6 bs) @ take 2 (drop 8 bs) @ take 6 (drop 10 bs) = bs"
proof -
  have "take 2 (drop 8 bs) @ take 6 (drop 10 bs) = take 8 (drop 8 bs)" using take_add [of 2 6 "drop 8 bs"] by simp
  moreover have "take 2 (drop 6 bs) @ take 8 (drop 8 bs) = take 10 (drop 6 bs)" using take_add [of 2 8 "drop 6 bs"] by simp
  moreover have "take 2 (drop 4 bs) @ take 10 (drop 6 bs) = take 12 (drop 4 bs)" using take_add [of 2 10 "drop 4 bs"] by simp
  ultimately show ?thesis using assms by (simp add: take_all)
qed

lemma filter_dash_hexlify [simp]: "filter (\<lambda>c. c \<noteq> CHR ''-'') (hexlify bs) = hexlify bs"
  using hexlify_chars(2) [of "CHR ''-''" bs] by (auto simp: filter_id_conv)

lemma sid_of_bytes_ok:
  assumes "length bs = 16"
  shows "filter (\<lambda>c. c \<noteq> CHR ''-'') (sid_of_bytes bs) = hexlify bs"
    and "sid_format (sid_of_bytes bs)" and "length (sid_of_bytes bs) = 36"
    and "c \<in> set [CHR 0x0A, CHR '' '', CHR '',''] \<Longrightarrow> c \<notin> set (sid_of_bytes bs)"
proof -
  let ?ws = "[hexlify (take 4 bs), hexlify (take 2 (drop 4 bs)), hexlify (take 2 (drop 6 bs)), hexlify (take 2 (drop 8 bs)), hexlify (take 6 (drop 10 bs))]"
  have join: "sid_of_bytes bs = join [CHR ''-''] ?ws" by (simp add: sid_of_bytes_def)
  have "filter (\<lambda>c. c \<noteq> CHR ''-'') (sid_of_bytes bs) =
      hexlify (take 4 bs @ take 2 (drop 4 bs) @ take 2 (drop 6 bs) @ take 2 (drop 8 bs) @ take 6 (drop 10 bs))"
    by (simp add: sid_of_bytes_def)
  then show "filter (\<lambda>c. c \<noteq> CHR ''-'') (sid_of_bytes bs) = hexlify bs" using split_16 [OF assms] by simp
  have "split_char CHR ''-'' (sid_of_bytes bs) = ?ws"
    unfolding join by (rule split_char_join) (simp_all add: hexlify_chars)
  then show "sid_format (sid_of_bytes bs)" using assms by (simp add: sid_format_def hexlify_chars)
  show "length (sid_of_bytes bs) = 36" using assms by (simp add: sid_of_bytes_def)
  show "c \<in> set [CHR 0x0A, CHR '' '', CHR '',''] \<Longrightarrow> c \<notin> set (sid_of_bytes bs)"
    using hexlify_chars(2) by (auto simp: sid_of_bytes_def)
qed

definition u64_pair :: "interval \<Rightarrow> bool" where
  "u64_pair x \<longleftrightarrow> 0 \<le> fst x \<and> snd x < 2 ^ 64"

definition codable :: "Gtid \<Rightarrow> bool" where
  "codable g \<longleftrightarrow> gtid_ok g \<and> gtid_intervals g \<noteq> [] \<and> length (gtid_intervals g) < 2 ^ 64
    \<and> list_all u64_pair (gtid_intervals g) \<and> (\<exists>bs. length bs = 16 \<and> gtid_sid g = sid_of_bytes bs)"

lemma pack_u64_ok:
  assumes "0 \<le> i" "i < 2 ^ 64"
  shows "pack_u64 i = Inr (le_bytes 8 (nat i))" "int (le_nat (le_bytes 8 (nat i))) = i"
proof -
  have "int (nat i) < int (2 ^ 64)" using assms by simp
  then have "nat i < 2 ^ 64" by linarith
  then show "pack_u64 i = Inr (le_bytes 8 (nat i))" "int (le_nat (le_bytes 8 (nat i))) = i"
    using assms by (simp_all add: pack_u64_def pack_le_def le_nat_le_bytes)
qed

definition interval_bytes :: "interval \<Rightarrow> byte list" where
  "interval_bytes x = le_bytes 8 (nat (fst x)) @ le_bytes 8 (nat (snd x))"

lemma read_intervals_bytes:
  "list_all u64_pair ivs \<Longrightarrow> list_all (\<lambda>x. fst x < snd x) ivs \<Longrightarrow>
    mapE encode_interval ivs = Inr (map interval_bytes ivs)
    \<and> length (concat (map interval_bytes ivs)) = 16 * length ivs
    \<and> read_intervals (length ivs) (concat (map interval_bytes ivs) @ rest) = Inr (map (\<lambda>x. (fst x, snd x - 1)) ivs, rest)"
proof (induction ivs)
  case (Cons x ivs)
  then have "0 \<le> fst x" "fst x < 2 ^ 64" "0 \<le> snd x" "snd x < 2 ^ 64" by (auto simp: u64_pair_def)
  with Cons show ?case
    using pack_u64_ok [of "fst x"] pack_u64_ok [of "snd x"] by (simp add: encode_interval_def interval_bytes_def)
qed simp

lemma gtid_codec:
  assumes "codable g"
  shows "\<exists>bs. gtid_encode g = Inr bs \<and> length bs = gtid_encoded_length g \<and> gtid_decode (bs @ rest) = Inr (g, rest)"
proof -
  let ?ivs = "gtid_intervals g" and ?ranges = "map (\<lambda>x. (fst x, snd x - 1)) (gtid_intervals g)"
  obtain sb where sb: "length sb = 16" "gtid_sid g = sid_of_bytes sb" using assms by (auto simp: codable_def)
  note sid = sid_of_bytes_ok [OF sb(1)]
  have ivs: "normal ?ivs" "?ivs \<noteq> []" "list_all u64_pair ?ivs" "list_all (\<lambda>x. fst x < snd x) ?ivs" "length ?ivs < 2 ^ 64"
    using assms by (auto simp: codable_def gtid_ok_def normal_def list_all_iff)
  note rd = read_intervals_bytes [OF ivs(3,4), of rest]
  have n: "pack_u64 (int (length ?ivs)) = Inr (le_bytes 8 (length ?ivs))" "le_nat (le_bytes 8 (length ?ivs)) = length ?ivs"
    using pack_u64_ok [of "int (length ?ivs)"] ivs(5) by simp_all
  let ?bs = "sb @ le_bytes 8 (length ?ivs) @ concat (map interval_bytes ?ivs)"
  have enc: "gtid_encode g = Inr ?bs" using sid(1) sb(2) n(1) rd unhexlify_hexlify by (simp add: gtid_encode_def)
  have len: "length ?bs = gtid_encoded_length g" using rd sb(1) by (simp add: gtid_encoded_length_def)
  have sid': "sid_of_bytes (?bs @ rest) = gtid_sid g" using sb by (simp add: sid_of_bytes_def)
  have "itvl_text (str_int (fst x) @ ''-'' @ str_int (snd x - 1))
      \<and> parse_interval (str_int (fst x) @ ''-'' @ str_int (snd x - 1)) = Inr x" if "x \<in> set ?ivs" for x
  proof -
    have "0 \<le> fst x" "0 \<le> snd x - 1" using that ivs(3,4) by (fastforce simp: list_all_iff u64_pair_def)+
    with range_text_parses [of "(fst x, snd x - 1)"] show ?thesis by simp
  qed
  from gtid_of_text_intervals [OF sid(2,3) sid(4) ivs(1,2) this]
  have "gtid_of_text (gtid_sid g @ '':'' @ join '':'' (map (\<lambda>x. str_int (fst x) @ ''-'' @ str_int (snd x)) ?ranges)) = Inr g"
    using sb(2) by (cases g) (simp add: comp_def)
  then have "gtid_decode (?bs @ rest) = Inr (g, rest)"
    unfolding gtid_decode_def sid' using sb(1) n(2) rd by (simp add: unpack_le_def)
  with enc len show ?thesis by blast
qed

lemma gtid_str_parses:
  assumes "codable g"
  shows "gtid_of_text (gtid_str g) = Inr g" "set (gtid_str g) \<inter> set [CHR 0x0A, CHR '' '', CHR '',''] = {}"
proof -
  obtain sb where sb: "length sb = 16" "gtid_sid g = sid_of_bytes sb" using assms by (auto simp: codable_def)
  note sid = sid_of_bytes_ok [OF sb(1)]
  have fmt: "itvl_text (format_interval x) \<and> parse_interval (format_interval x) = Inr x" if "x \<in> set (gtid_intervals g)" for x
    using that assms by (intro format_interval_parses) (auto simp: codable_def gtid_ok_def normal_def list_all_iff u64_pair_def)
  show "gtid_of_text (gtid_str g) = Inr g"
    using gtid_of_text_intervals [OF sid(2,3) sid(4) _ _ fmt] assms sb(2) by (cases g) (simp add: gtid_str_def codable_def gtid_ok_def)
  show "set (gtid_str g) \<inter> set [CHR 0x0A, CHR '' '', CHR '',''] = {}"
  proof (rule equals0I)
    fix c assume c: "c \<in> set (gtid_str g) \<inter> set [CHR 0x0A, CHR '' '', CHR '','']"
    then have "c \<notin> set (gtid_sid g)" using sid(4) [of c] sb(2) by simp
    with c have "c = CHR '':'' \<or> c \<in> set (join '':'' (map format_interval (gtid_intervals g)))" by (simp add: gtid_str_def)
    then have "c = CHR '':'' \<or> (\<exists>x \<in> set (gtid_intervals g). c \<in> set (format_interval x))"
      using set_join [of "'':''" "map format_interval (gtid_intervals g)"] by auto
    with c show False using fmt itvl_text_notin by auto
  qed
qed

lemma strip_of_notin: "set cs \<inter> set s = {} \<Longrightarrow> strip_of cs s = s"
proof -
  assume "set cs \<inter> set s = {}"
  then have "dropWhile (\<lambda>c. c \<in> set cs) s = s" "dropWhile (\<lambda>c. c \<in> set cs) (rev s) = rev s"
    by (auto intro!: dropWhile_none)
  then show "strip_of cs s = s" by (simp add: strip_of_def)
qed

lemma decode_gtids_bytes:
  "list_all codable gs \<Longrightarrow> \<exists>bss. mapE gtid_encode gs = Inr bss \<and> length (concat bss) = sum_list (map gtid_encoded_length gs)
    \<and> (\<forall>rest. decode_gtids (length gs) (concat bss @ rest) = Inr (gs, rest))"
proof (induction gs)
  case Nil
  then show ?case by simp
next
  case (Cons g gs)
  then obtain bss where bss: "mapE gtid_encode gs = Inr bss" "length (concat bss) = sum_list (map gtid_encoded_length gs)"
    "\<And>rest. decode_gtids (length gs) (concat bss @ rest) = Inr (gs, rest)" by auto
  have g: "codable g" using Cons.prems by simp
  obtain bs where bs: "gtid_encode g = Inr bs" "length bs = gtid_encoded_length g" using gtid_codec [OF g] by blast
  have "gtid_decode (bs @ rest) = Inr (g, rest)" for rest using gtid_codec [OF g, of rest] bs(1) by auto
  with bs bss show ?case by (intro exI [of _ "bs # bss"]) simp
qed

text \<open>C32. A set of global transaction identifiers survives both of its encodings. The bytes have
  the announced length and decode to the set and to what follows them; the text parses to the
  set. An identifier has to be in normal form with at least one interval and its server id has
  to be written in small letters.\<close>

theorem gtid_set_roundtrip:
  assumes "list_all codable (gtids s)" "length (gtids s) < 2 ^ 64"
  shows "(\<exists>bs. set_encoded s = Inr bs \<and> length bs = set_encoded_length s \<and> (\<forall>rest. set_decode (bs @ rest) = Inr (s, rest)))
    \<and> new_gtid_set (GtidText (set_str s)) = Inr s"
proof
  let ?gs = "gtids s"
  have n: "pack_u64 (int (length ?gs)) = Inr (le_bytes 8 (length ?gs))" "le_nat (le_bytes 8 (length ?gs)) = length ?gs"
    using pack_u64_ok [of "int (length ?gs)"] assms(2) by simp_all
  obtain bss where "mapE gtid_encode ?gs = Inr bss" "length (concat bss) = sum_list (map gtid_encoded_length ?gs)"
    "\<forall>rest. decode_gtids (length ?gs) (concat bss @ rest) = Inr (?gs, rest)" using decode_gtids_bytes [OF assms(1)] by blast
  with n show "\<exists>bs. set_encoded s = Inr bs \<and> length bs = set_encoded_length s \<and> (\<forall>rest. set_decode (bs @ rest) = Inr (s, rest))"
    by (simp add: set_encoded_def set_encoded_length_def set_decode_def unpack_le_def)
  show "new_gtid_set (GtidText (set_str s)) = Inr s"
  proof (cases "?gs = []")
    case True
    then show ?thesis by (cases s) (simp add: set_str_def)
  next
    case False
    have parse: "gtid_of_text (strip_of [CHR '' '', CHR 0x0A] (gtid_str g)) = Inr g" "CHR '','' \<notin> set (gtid_str g)"
      if "g \<in> set ?gs" for g
      using gtid_str_parses [of g] that assms(1) by (auto simp: list_all_iff strip_of_notin)
    have "split_char CHR '','' (set_str s) = map gtid_str ?gs"
      unfolding set_str_def using False parse(2) by (intro split_char_join) auto
    moreover have "mapE (\<lambda>x. gtid_of_text (strip_of [CHR '' '', CHR 0x0A] x)) (map gtid_str ?gs) = Inr ?gs"
      using parse(1) by (simp add: mapE_Inr_iff_list_all2 list_all2_conv_all_nth)
    moreover have "set_str s \<noteq> []" using False by (cases "?gs"; cases "tl ?gs") (simp_all add: set_str_def gtid_str_def)
    ultimately show ?thesis by (cases s) simp
  qed
qed

theorem gtid_set_roundtrip_witness:
  "\<exists>bs. set_encoded (GtidSet [sample_gtid [(1, 3), (5, 6)]]) = Inr bs \<and> length bs = 64
    \<and> set_decode (bs @ [7]) = Inr (GtidSet [sample_gtid [(1, 3), (5, 6)]], [7])
    \<and> set_str (GtidSet [sample_gtid [(1, 3), (5, 6)]]) = ''3e11fa47-71ca-11e1-9e33-c80aa9429562:1-2:5''"
proof -
  let ?g = "sample_gtid [(1, 3), (5, 6)]"
  have "gtid_sid ?g = sid_of_bytes [0x3e, 0x11, 0xfa, 0x47, 0x71, 0xca, 0x11, 0xe1, 0x9e, 0x33, 0xc8, 0x0a, 0xa9, 0x42, 0x95, 0x62]"
    by code_simp
  then have "\<exists>bs. length bs = 16 \<and> gtid_sid ?g = sid_of_bytes bs" by (intro exI conjI) simp_all
  then have "codable ?g" by (simp add: codable_def gtid_ok_def normal_def u64_pair_def sample_gtid_def)
  with gtid_set_roundtrip [of "GtidSet [?g]"]
  obtain bs where "set_encoded (GtidSet [?g]) = Inr bs" "length bs = set_encoded_length (GtidSet [?g])"
    "set_decode (bs @ [7]) = Inr (GtidSet [?g], [7])" by auto
  moreover have "set_encoded_length (GtidSet [?g]) = 64" by (simp add: set_encoded_length_def gtid_encoded_length_def sample_gtid_def)
  moreover have "set_str (GtidSet [?g]) = ''3e11fa47-71ca-11e1-9e33-c80aa9429562:1-2:5''" by code_simp
  ultimately show ?thesis by (intro exI [of _ bs]) simp
qed

end
