(* ===== verification/CreateTable.thy ===== *)
theory CreateTable
  imports TypeConvert SqlText
begin

text \<open>
  CREATE TABLE: \<^verbatim>\<open>parse_mysql_table_structure\<close>, \<^verbatim>\<open>_handle_create_table_like\<close> and
  \<^verbatim>\<open>parse_create_table_query\<close> of \<^verbatim>\<open>converter.py\<close>. The tokens of \<^verbatim>\<open>sqlparse\<close> and the column list that
  \<^verbatim>\<open>pyparsing\<close> finds in a PRIMARY KEY clause are parameters, and so is the text of SHOW CREATE
  TABLE, which the server gives.
\<close>

section \<open>Libraries\<close>

datatype sql_ttype = DDL | Keyword | OtherType

text \<open>A name with what \<^verbatim>\<open>get_real_name\<close> gives, a parenthesis with the texts of its tokens, or any other.\<close>

datatype sql_class = Identifier "string option" | Parenthesis "string list" | OtherToken

record sql_token =
  tok_normalized :: string
  tok_value :: string
  tok_ttype :: sql_ttype
  tok_class :: sql_class
  tok_space :: bool

text \<open>The tokens of the first statement, the columns of a PRIMARY KEY clause, and SHOW CREATE TABLE.\<close>

record sql_lib =
  sq_parse :: "string \<Rightarrow> sql_token list res"
  sq_primary_key :: "string \<Rightarrow> string list res"
  sq_show_create :: "string \<Rightarrow> string res"

section \<open>Lines\<close>

definition CHARSET_MYSQL_TO_PYTHON :: "(string, string option) dict" where
  "CHARSET_MYSQL_TO_PYTHON = [
    (''armscii8'', None), (''ascii'', Some ''ascii''), (''big5'', Some ''big5''),
    (''binary'', Some ''latin1''), (''cp1250'', Some ''cp1250''), (''cp1251'', Some ''cp1251''),
    (''cp1256'', Some ''cp1256''), (''cp1257'', Some ''cp1257''), (''cp850'', Some ''cp850''),
    (''cp852'', Some ''cp852''), (''cp866'', Some ''cp866''), (''cp932'', Some ''cp932''),
    (''dec8'', Some ''latin1''), (''eucjpms'', Some ''euc_jp''), (''euckr'', Some ''euc_kr''),
    (''gb18030'', Some ''gb18030''), (''gb2312'', Some ''gb2312''), (''gbk'', Some ''gbk''),
    (''geostd8'', None), (''greek'', Some ''iso8859_7''), (''hebrew'', Some ''iso8859_8''),
    (''hp8'', None), (''keybcs2'', None), (''koi8r'', Some ''koi8_r''), (''koi8u'', Some ''koi8_u''),
    (''latin1'', Some ''cp1252''), (''latin2'', Some ''iso8859_2''), (''latin5'', Some ''iso8859_9''),
    (''latin7'', Some ''iso8859_13''), (''macce'', Some ''mac_latin2''),
    (''macroman'', Some ''mac_roman''), (''sjis'', Some ''shift_jis''), (''swe7'', None),
    (''tis620'', Some ''tis_620''), (''ucs2'', Some ''utf_16''), (''ujis'', Some ''euc_jp''),
    (''utf16'', Some ''utf_16''), (''utf16le'', Some ''utf_16_le''), (''utf32'', Some ''utf_32''),
    (''utf8mb3'', Some ''utf_8''), (''utf8mb4'', Some ''utf_8''), (''utf8'', Some ''utf_8'')]"

text \<open>\<^verbatim>\<open>re.search(r'\bprimary\s+key\b', line, re.IGNORECASE)\<close>: the text from the match on.\<close>

definition match_primary_key :: "string \<Rightarrow> bool" where
  "match_primary_key s =
    (startswith (lower s) ''primary'' \<and>
     (let r = drop 7 s; t = dropWhile is_space r in
      t \<noteq> r \<and> startswith (lower t) ''key'' \<and> (case drop 3 t of [] \<Rightarrow> True | c # _ \<Rightarrow> \<not> is_word_char c)))"

fun search_primary_key :: "bool \<Rightarrow> string \<Rightarrow> string option" where
  "search_primary_key after_word [] = None"
| "search_primary_key after_word (c # s) =
    (if \<not> after_word \<and> match_primary_key (c # s) then Some (c # s) else search_primary_key (is_word_char c) s)"

text \<open>Lines that define no column: keys and indexes.\<close>

definition is_index_line :: "string \<Rightarrow> bool" where
  "is_index_line line_lower =
    (list_ex (startswith line_lower) [''unique key'', ''unique index'', ''key'', ''index'', ''fulltext'', ''spatial'']
     \<or> startswith line_lower ''unique'' \<and> length line_lower > 6 \<and> startswith (lstrip (drop 6 line_lower)) ''('')"

definition parse_column :: "string \<Rightarrow> table_structure \<Rightarrow> table_structure res" where
  "parse_column line s =
    (let (field_name, ty, params) =
       (case line of
          [] \<Rightarrow> parse_enum_or_set_field [] (strip_sql_name []) False
        | c # rest \<Rightarrow>
            if c = bquote then
              (case find_char bquote rest of
                 Some i \<Rightarrow> parse_enum_or_set_field (strip (drop (i + 1) rest)) (take i rest) True
               | None \<Rightarrow> parse_enum_or_set_field (strip line) (butlast rest) True)
            else parse_enum_or_set_field line (strip_sql_name (hd (split_char (CHR '' '') line))) False) in
     bindE (extract_enum_or_set_values ty (Some parse_mysql_enum)) (\<lambda>values.
     Inr (s\<lparr>table_fields := table_fields s @ [\<lparr>name = field_name, field_type = ty, parameters = params, additional_data = values\<rparr>]\<rparr>)))"

definition parse_line :: "sql_lib \<Rightarrow> string \<Rightarrow> table_structure \<Rightarrow> table_structure res" where
  "parse_line lib full s =
    (let line = strip full in
     case (if startswith (lower line) ''constraint'' then search_primary_key False line else Some line) of
       None \<Rightarrow> Inr s
     | Some line \<Rightarrow>
         if is_index_line (lower line) then Inr s
         else if startswith (lower line) ''primary key'' then
           bindE (sq_primary_key lib line) (\<lambda>names. Inr (s\<lparr>primary_keys := map strip_sql_name names\<rparr>))
         else parse_column line s)"

text \<open>A line with an odd number of back quotes is continued by the next one.\<close>

fun parse_lines :: "sql_lib \<Rightarrow> string \<Rightarrow> string list \<Rightarrow> table_structure \<Rightarrow> table_structure res" where
  "parse_lines lib prev_line [] s = Inr s"
| "parse_lines lib prev_line (line # rest) s =
    (let line = prev_line @ line in
     if odd (count_list line bquote) then parse_lines lib line rest s
     else bindE (parse_line lib line s) (parse_lines lib [] rest))"

section \<open>Statements\<close>

fun find_charset :: "string \<Rightarrow> string \<Rightarrow> string list \<Rightarrow> string \<Rightarrow> string" where
  "find_charset prev_prev prev [] found = found"
| "find_charset prev_prev prev (t # ts) found =
    find_charset prev t ts (if prev = ''='' \<and> lower prev_prev = ''charset'' then t else found)"

definition default_keys :: "table_structure \<Rightarrow> table_structure" where
  "default_keys s =
    (let s = (if primary_keys s = []
              then s\<lparr>primary_keys := map name (filter (\<lambda>f. contains (lower (parameters f)) ''primary key'') (table_fields s))\<rparr> else s) in
     if primary_keys s = [] \<and> has_field s ''id'' then s\<lparr>primary_keys := [''id'']\<rparr> else s)"

abbreviation wrong_create :: "'a res" where
  "wrong_create \<equiv> Inl (PyException ''wrong create statement'')"

text \<open>The statement without IF NOT EXISTS, and whether it was there.\<close>

definition drop_if_not_exists :: "sql_token list \<Rightarrow> sql_token list \<times> bool" where
  "drop_if_not_exists tokens =
    (if length tokens > 5 \<and> map (upper \<circ> tok_normalized) (take 5 tokens) = [''CREATE'', ''TABLE'', ''IF'', ''NOT'', ''EXISTS'']
     then (take 2 tokens @ drop 5 tokens, True) else (tokens, False))"

text \<open>The rest of the parser, behind the name of the table.\<close>

definition parse_body :: "sql_lib \<Rightarrow> sql_token list \<Rightarrow> table_structure \<Rightarrow> table_structure res" where
  "parse_body lib tokens s =
    bindE (nthE tokens 3) (\<lambda>body.
    case tok_class body of
      Parenthesis texts \<Rightarrow>
        let cs = find_charset [] [] (map tok_value (drop 4 tokens)) [];
            lines = split_high_level (strip (concat (butlast (drop 1 texts)))) (CHR '','') in
        bindE (if cs = [] then Inr (Some ''utf-8'') else dict_get CHARSET_MYSQL_TO_PYTHON cs) (\<lambda>py.
        bindE (parse_lines lib [] lines (s\<lparr>charset := cs, charset_python := py\<rparr>)) (\<lambda>s.
        let s = default_keys s in
        if primary_keys s = [] then Inl (PyException ''No primary key for table'') else preprocess s))
    | _ \<Rightarrow> wrong_create)"

definition real_name :: "sql_token \<Rightarrow> string res" where
  "real_name tok =
    (case tok_class tok of
       Identifier (Some n) \<Rightarrow> Inr (strip_sql_name n)
     | Identifier None \<Rightarrow> Inl AttributeError
     | _ \<Rightarrow> wrong_create)"

text \<open>The statement as the parser passes it to \<^verbatim>\<open>sqlparse\<close>.\<close>

definition clean_statement :: "string \<Rightarrow> string" where
  "clean_statement st = strip (map (\<lambda>c. if c = CHR 0x0A then CHR '' '' else c) (strip_comments st))"

text \<open>The parts of a statement: its tokens without IF NOT EXISTS, with the name of the table.\<close>

definition parse_head :: "sql_lib \<Rightarrow> string \<Rightarrow> (sql_token list \<times> table_structure) res" where
  "parse_head lib create_statement =
    bindE (sq_parse lib (clean_statement create_statement)) (\<lambda>all_tokens.
    case drop_if_not_exists (filter (\<lambda>t. \<not> tok_space t) all_tokens) of (tokens, exists) \<Rightarrow>
    bindE (nthE tokens 0) (\<lambda>t0.
    if tok_ttype t0 \<noteq> DDL \<or> lower (tok_normalized t0) \<noteq> ''create'' then wrong_create
    else bindE (nthE tokens 1) (\<lambda>t1.
    if tok_ttype t1 \<noteq> Keyword then wrong_create
    else bindE (nthE tokens 2) (\<lambda>t2.
    bindE (real_name t2) (\<lambda>n.
    Inr (tokens, new_structure\<lparr>table_name := n, if_not_exists := exists\<rparr>))))))"

text \<open>The source of CREATE TABLE ... LIKE, when the statement is one.\<close>

definition like_source :: "sql_token list \<Rightarrow> string option res" where
  "like_source tokens =
    (if length tokens > 4 \<and> upper (tok_normalized (tokens ! 3)) = ''LIKE''
     then bindE (real_name (tokens ! 4)) (\<lambda>n. Inr (Some n)) else Inr None)"

text \<open>
  \<^verbatim>\<open>_handle_create_table_like\<close>: from the structures of the replicator (None without a replicator), or from
  the statement that creates the source. \<open>parse\<close> is the parser for that statement; every exception
  of it becomes one of its own.
\<close>

definition handle_like :: "(string \<Rightarrow> table_structure res) \<Rightarrow> sql_lib \<Rightarrow> conv
    \<Rightarrow> (string, table_structure \<times> table_structure) dict option \<Rightarrow> string \<Rightarrow> string
    \<Rightarrow> bool \<Rightarrow> (table_structure \<times> table_structure option) res" where
  "handle_like parse lib cv structures source_name target is_query_api =
    (case structures of
       None \<Rightarrow> Inl (PyException ''Could not determine structure'')
     | Some d \<Rightarrow>
         (case map_of d source_name of
            Some (m, c) \<Rightarrow>
              Inr (m\<lparr>table_name := target\<rparr>, if is_query_api then Some (c\<lparr>table_name := target\<rparr>) else None)
          | None \<Rightarrow>
              (case bindE (sq_show_create lib source_name) (\<lambda>st.
                    bindE (parse st) (\<lambda>m. let m = m\<lparr>table_name := target\<rparr> in
                    if is_query_api then bindE (convert_table_structure cv m) (\<lambda>c. Inr (m, Some c)) else Inr (m, None))) of
                 Inl _ \<Rightarrow> Inl (PyException ''Could not get source table structure for LIKE statement'')
               | Inr p \<Rightarrow> Inr p)))"

text \<open>
  The parser. A LIKE whose source is created by a LIKE leads to a nested call; the first argument
  is how deep calls can nest before Python raises \<^verbatim>\<open>RecursionError\<close>.
\<close>

fun parse_mysql_table_structure :: "nat \<Rightarrow> sql_lib \<Rightarrow> conv
    \<Rightarrow> (string, table_structure \<times> table_structure) dict option \<Rightarrow> string \<Rightarrow> table_structure res" where
  "parse_mysql_table_structure 0 lib cv structures create_statement = Inl RuntimeError"
| "parse_mysql_table_structure (Suc depth) lib cv structures create_statement =
    bindE (parse_head lib create_statement) (\<lambda>(tokens, s).
    bindE (like_source tokens) (\<lambda>like.
    case like of
      Some source_name \<Rightarrow>
        bindE (handle_like (parse_mysql_table_structure depth lib cv structures) lib cv structures source_name (table_name s) False)
          (\<lambda>(m, _). Inr m)
    | None \<Rightarrow> parse_body lib tokens s))"

section \<open>Queries\<close>

definition skip_word :: "string \<Rightarrow> string \<Rightarrow> string option" where
  "skip_word w s = (if startswith (lower s) w then Some (drop (length w) s) else None)"

definition skip_spaces :: "string \<Rightarrow> string option" where
  "skip_spaces s = (let t = dropWhile is_space s in if t = s then None else Some t)"

definition skip_quote :: "string \<Rightarrow> string" where
  "skip_quote s = (case s of [] \<Rightarrow> [] | c # t \<Rightarrow> if c = bquote \<or> c = CHR 0x22 then t else s)"

definition name_char :: "char \<Rightarrow> bool" where
  "name_char c = (c \<noteq> bquote \<and> c \<noteq> CHR 0x22 \<and> \<not> is_space c)"

text \<open>The part of the pattern of CREATE TABLE ... LIKE behind TABLE: both names.\<close>

definition match_like_names :: "string \<Rightarrow> (string \<times> string) option" where
  "match_like_names s =
    (let s1 = skip_quote s; n = takeWhile name_char s1; s2 = skip_quote (dropWhile name_char s1) in
     if n = [] then None
     else Option.bind (skip_spaces s2) (\<lambda>s3. Option.bind (skip_word ''like'' s3) (\<lambda>s4. Option.bind (skip_spaces s4) (\<lambda>s5.
       let m = takeWhile name_char (skip_quote s5) in if m = [] then None else Some (n, m)))))"

definition match_create_like :: "string \<Rightarrow> (string \<times> string) option" where
  "match_create_like s =
    Option.bind (skip_word ''create'' s) (\<lambda>s. Option.bind (skip_spaces s) (\<lambda>s. Option.bind (skip_word ''table'' s) (\<lambda>s.
    Option.bind (skip_spaces s) (\<lambda>s.
    case Option.bind (skip_word ''if'' s) (\<lambda>s. Option.bind (skip_spaces s) (\<lambda>s. Option.bind (skip_word ''not'' s) (\<lambda>s.
         Option.bind (skip_spaces s) (\<lambda>s. Option.bind (skip_word ''exists'' s) (\<lambda>s. Option.bind (skip_spaces s) match_like_names))))) of
      Some p \<Rightarrow> Some p
    | None \<Rightarrow> match_like_names s))))"

fun search_create_like :: "string \<Rightarrow> (string \<times> string) option" where
  "search_create_like [] = None"
| "search_create_like (c # s) = (case match_create_like (c # s) of Some p \<Rightarrow> Some p | None \<Rightarrow> search_create_like s)"

definition parse_create_table_query :: "nat \<Rightarrow> sql_lib \<Rightarrow> conv
    \<Rightarrow> (string, table_structure \<times> table_structure) dict option \<Rightarrow> string \<Rightarrow> (table_structure \<times> table_structure) res" where
  "parse_create_table_query depth lib cv structures q =
    (case (if contains (upper q) ''LIKE'' then search_create_like q else None) of
       Some (new_name, source_name) \<Rightarrow>
         bindE (handle_like (parse_mysql_table_structure depth lib cv structures) lib cv structures source_name new_name True)
           (\<lambda>(m, c). case c of Some c \<Rightarrow> Inr (m, c) | None \<Rightarrow> Inl TypeError)
     | None \<Rightarrow>
         bindE (parse_mysql_table_structure depth lib cv structures q) (\<lambda>m.
         bindE (convert_table_structure cv m) (\<lambda>c. Inr (m, c))))"

section \<open>What a parsed structure satisfies\<close>

definition key_ok :: "table_structure \<Rightarrow> bool" where
  "key_ok s \<longleftrightarrow> ts_wf s \<and> primary_keys s \<noteq> [] \<and> set (primary_keys s) \<subseteq> set (field_names s)"

lemma ts_wf_keys: "ts_wf s \<Longrightarrow> set (primary_keys s) \<subseteq> set (field_names s)"
proof -
  assume "ts_wf s"
  then obtain ids where ids: "list_all (\<lambda>i. i < length (table_fields s)) ids"
    "map (\<lambda>i. name (table_fields s ! i)) ids = primary_keys s" by (auto simp: ts_wf_def split: option.splits)
  then have "set (primary_keys s) = (\<lambda>i. name (table_fields s ! i)) ` set ids" by (metis set_map)
  with ids(1) show ?thesis by (auto simp: list_all_iff field_names_def)
qed

lemma key_ok_rename: "key_ok (s\<lparr>table_name := n\<rparr>) = key_ok s"
  by (cases "primary_key_ids s") (simp_all add: key_ok_def ts_wf_def field_names_def)

lemma preprocess_key_ok: "preprocess s = Inr t \<Longrightarrow> primary_keys s \<noteq> [] \<Longrightarrow> key_ok t"
  using preprocess_wf [of s t] preprocess_frame [of s t] ts_wf_keys [of t] by (simp add: key_ok_def)

lemma parse_body_key_ok: "parse_body lib tokens s = Inr m \<Longrightarrow> key_ok m"
  by (auto simp: parse_body_def Let_def res_simps split: sql_class.splits if_splits intro: preprocess_key_ok)

lemma handle_like_key_ok:
  assumes "handle_like parse lib cv structures src target q = Inr (m, c)"
    and "\<And>d t p. structures = Some d \<Longrightarrow> map_of d t = Some p \<Longrightarrow> key_ok (fst p)"
    and "\<And>st m. parse st = Inr m \<Longrightarrow> key_ok m"
  shows "key_ok m"
  using assms(1) assms(2) [of _ src]
  by (auto simp: handle_like_def Let_def res_simps key_ok_rename split: option.splits sum.splits prod.splits if_splits
      dest!: assms(3))

text \<open>C34. Every table structure that the parser of CREATE TABLE returns has a primary key, its
  key columns are columns of the table and their positions are right, also for CREATE TABLE
  ... LIKE when the structures that the replicator already has are so. Statements without a key
  are refused.\<close>

theorem parsed_structure_has_key:
  assumes "parse_mysql_table_structure depth lib cv structures st = Inr m"
    and "\<forall>d t p. structures = Some d \<longrightarrow> map_of d t = Some p \<longrightarrow> key_ok (fst p)"
  shows "ts_wf m \<and> primary_keys m \<noteq> [] \<and> set (primary_keys m) \<subseteq> set (field_names m)"
proof -
  have "key_ok m"
    using assms(1)
  proof (induction depth arbitrary: st m)
    case (Suc depth)
    then obtain tokens s like where h: "parse_head lib st = Inr (tokens, s)" "like_source tokens = Inr like"
      by (auto simp: res_simps)
    show ?case
    proof (cases like)
      case None
      with Suc.prems h show ?thesis by (auto intro: parse_body_key_ok)
    next
      case (Some src)
      with Suc.prems h obtain c where
        "handle_like (parse_mysql_table_structure depth lib cv structures) lib cv structures src (table_name s) False = Inr (m, c)"
        by (auto simp: res_simps)
      from this show ?thesis
      proof (rule handle_like_key_ok)
        show "key_ok (fst p)" if "structures = Some d" "map_of d t = Some p" for d t p
          using assms(2) that by blast
      qed (rule Suc.IH)
    qed
  qed simp
  then show ?thesis by (simp add: key_ok_def)
qed

section \<open>Statements as the server prints them\<close>

text \<open>
  A column is a name in back quotes, a type and further words; a key line and lines of indexes
  are given by their text.
\<close>

datatype table_line = ColumnLine string string "string list" | KeyLine string "string list" | IndexLine string

fun show_line :: "table_line \<Rightarrow> string" where
  "show_line (ColumnLine n ty ps) = bquote # n @ bquote # CHR '' '' # join '' '' (ty # ps)"
| "show_line (KeyLine tx names) = tx"
| "show_line (IndexLine tx) = tx"

fun line_ok :: "sql_lib \<Rightarrow> table_line \<Rightarrow> bool" where
  "line_ok lib (ColumnLine n ty ps) =
    (bquote \<notin> set n \<and> list_all word (ty # ps) \<and> bquote \<notin> set (join '' '' (ty # ps))
     \<and> \<not> starts_enum_or_set (join '' '' (ty # ps)) \<and> \<not> startswith (lower ty) ''enum('' \<and> find_sub ''set('' (lower ty) = None)"
| "line_ok lib (KeyLine tx names) =
    (startswith (lower tx) ''primary key'' \<and> strip tx = tx \<and> even (count_list tx bquote)
     \<and> sq_primary_key lib tx = Inr names \<and> list_all (\<lambda>n. strip_sql_name n = n) names)"
| "line_ok lib (IndexLine tx) =
    (is_index_line (lower tx) \<and> strip tx = tx \<and> even (count_list tx bquote))"

fun line_effect :: "table_line \<Rightarrow> table_structure \<Rightarrow> table_structure" where
  "line_effect (ColumnLine n ty ps) s =
    s\<lparr>table_fields := table_fields s @ [\<lparr>name = n, field_type = ty, parameters = join '' '' ps, additional_data = None\<rparr>]\<rparr>"
| "line_effect (KeyLine tx names) s = s\<lparr>primary_keys := names\<rparr>"
| "line_effect (IndexLine tx) s = s"

lemma strip_id:
  assumes "s \<noteq> []" "\<not> is_space (hd s)" "\<not> is_space (last s)"
  shows "strip s = s"
proof -
  have "dropWhile is_space s = s" using assms(1,2) by (cases s) auto
  moreover have "dropWhile is_space (rev s) = rev s" using assms(1,3) by (cases s rule: rev_cases) auto
  ultimately show ?thesis by (simp add: strip_def lstrip_def rstrip_def)
qed

lemma word_ends: "word w \<Longrightarrow> w \<noteq> [] \<and> \<not> is_space (hd w) \<and> \<not> is_space (last w)"
  by (auto simp: word_def)

lemma join_words_ends:
  assumes "ws \<noteq> []" "\<forall>w \<in> set ws. word w"
  shows "join '' '' ws \<noteq> [] \<and> \<not> is_space (hd (join '' '' ws)) \<and> \<not> is_space (last (join '' '' ws))"
  using assms
proof (induction ws)
  case (Cons w ws)
  then show ?case using word_ends [of w] by (cases "ws = []") (auto simp: join_Cons)
qed simp

lemma bquote_facts: "to_lower bquote = bquote" "\<not> is_space bquote"
  by code_simp+

lemma parse_column_show:
  assumes "line_ok lib (ColumnLine n ty ps)"
  shows "parse_column (show_line (ColumnLine n ty ps)) s = Inr (line_effect (ColumnLine n ty ps) s)"
proof -
  have words: "\<forall>w \<in> set (ty # ps). word w" using assms by (auto simp: list_all_iff)
  note ends = join_words_ends [of "ty # ps", OF _ words]
  have "strip (CHR '' '' # join '' '' (ty # ps)) = strip (join '' '' (ty # ps))"
    by (simp add: strip_def lstrip_def is_space_def code_def)
  then have strip: "strip (CHR '' '' # join '' '' (ty # ps)) = join '' '' (ty # ps)" "strip (join '' '' (ty # ps)) = join '' '' (ty # ps)"
    using ends strip_id by auto
  have find: "find_char bquote (n @ bquote # CHR '' '' # join '' '' (ty # ps)) = Some (length n)"
    using assms by (simp add: find_char_append)
  have field: "parse_enum_or_set_field (join '' '' (ty # ps)) n True = (n, ty, join '' '' ps)"
    using assms strip(2) split_ws_join [of "ty # ps"] words
    by (simp add: parse_enum_or_set_field_def first_and_rest_def del: join.simps)
  have "extract_enum_or_set_values ty (Some parse_mysql_enum) = Inr None"
    using assms by (simp add: extract_enum_or_set_values_def)
  with find field strip(1) show ?thesis by (simp add: parse_column_def del: join.simps)
qed

lemma parse_line_show:
  assumes "line_ok lib l"
  shows "parse_line lib (show_line l) s = Inr (line_effect l s)"
proof (cases l)
  case (ColumnLine n ty ps)
  let ?line = "show_line l"
  have ok: "line_ok lib (ColumnLine n ty ps)" using assms ColumnLine by simp
  have words: "\<forall>w \<in> set (ty # ps). word w" using assms ColumnLine by (auto simp: list_all_iff)
  have strip: "strip ?line = ?line"
    using join_words_ends [of "ty # ps", OF _ words] ColumnLine bquote_facts by (intro strip_id) (auto simp del: join.simps)
  have low: "lower ?line = bquote # lower (tl ?line)" using ColumnLine bquote_facts by (simp add: lower_def)
  then have "\<not> startswith (lower ?line) ''constraint''" "\<not> is_index_line (lower ?line)" "\<not> startswith (lower ?line) ''primary key''"
    by (simp_all add: is_index_line_def)
  with strip parse_column_show [OF ok, of s] ColumnLine show ?thesis
    by (simp add: parse_line_def del: show_line.simps)
next
  case (KeyLine tx names)
  then have "startswith (lower tx) ''primary key''" using assms by simp
  then obtain r where r: "lower tx = ''primary key'' @ r" by (auto simp: startswith_iff)
  then have "\<not> startswith (lower tx) ''constraint''" "\<not> is_index_line (lower tx)"
    by (simp_all add: is_index_line_def)
  with assms KeyLine show ?thesis by (simp add: parse_line_def list_all_iff map_idI)
next
  case (IndexLine tx)
  then have i: "is_index_line (lower tx)" using assms by simp
  have "\<not> startswith (lower tx) ''constraint''"
  proof
    assume "startswith (lower tx) ''constraint''"
    then obtain r where "lower tx = ''constraint'' @ r" by (auto simp: startswith_iff)
    with i show False by (simp add: is_index_line_def)
  qed
  with assms IndexLine i show ?thesis by (simp add: parse_line_def)
qed

lemma show_line_facts:
  assumes "line_ok lib l"
  shows "even (count_list (show_line l) bquote) \<and> strip (show_line l) = show_line l \<and> show_line l \<noteq> []"
proof (cases l)
  case (ColumnLine n ty ps)
  have words: "\<forall>w \<in> set (ty # ps). word w" using assms ColumnLine by (auto simp: list_all_iff)
  have "strip (show_line l) = show_line l"
    using join_words_ends [of "ty # ps", OF _ words] ColumnLine bquote_facts by (intro strip_id) (auto simp del: join.simps)
  moreover have "count_list (show_line l) bquote = 2"
    using assms ColumnLine by (simp add: count_notin del: join.simps)
  ultimately show ?thesis using ColumnLine by simp
next
  case (KeyLine tx names)
  then show ?thesis using assms by (auto simp: lower_def startswith_iff)
next
  case (IndexLine tx)
  then have "tx \<noteq> []" using assms by (auto simp: is_index_line_def lower_def startswith_iff)
  with IndexLine assms show ?thesis by simp
qed

lemma parse_lines_show:
  assumes "\<forall>l \<in> set ls. line_ok lib l"
  shows "parse_lines lib [] (map show_line ls) s = Inr (fold line_effect ls s)"
  using assms
proof (induction ls arbitrary: s)
  case (Cons l ls)
  then show ?case using show_line_facts [of lib l] parse_line_show [of lib l s] by simp
qed simp

lemma fold_line_effect_frame:
  "table_name (fold line_effect ls s) = table_name s \<and> if_not_exists (fold line_effect ls s) = if_not_exists s
   \<and> charset (fold line_effect ls s) = charset s \<and> charset_python (fold line_effect ls s) = charset_python s"
proof (induction ls arbitrary: s)
  case (Cons l ls)
  show ?case using Cons [of "line_effect l s"] by (cases l) simp_all
qed simp

definition column_field :: "string \<times> string \<times> string list \<Rightarrow> table_field" where
  "column_field c = (case c of (n, ty, ps) \<Rightarrow> \<lparr>name = n, field_type = ty, parameters = join '' '' ps, additional_data = None\<rparr>)"

lemma name_column_field [simp]: "name (column_field c) = fst c"
  by (simp add: column_field_def split: prod.split)

text \<open>The lines of a table: its columns, its key, its other indexes.\<close>

definition table_lines :: "(string \<times> string \<times> string list) list \<Rightarrow> string \<Rightarrow> string list \<Rightarrow> string list \<Rightarrow> table_line list" where
  "table_lines cols key_text key_names idx =
    map (\<lambda>(n, ty, ps). ColumnLine n ty ps) cols @ KeyLine key_text key_names # map IndexLine idx"

lemma fold_columns:
  "fold line_effect (map (\<lambda>(n, ty, ps). ColumnLine n ty ps) cols) s = s\<lparr>table_fields := table_fields s @ map column_field cols\<rparr>"
  by (induction cols arbitrary: s) (auto simp: column_field_def)

lemma fold_indexes: "fold line_effect (map IndexLine idx) s = s"
  by (induction idx) simp_all

lemma fold_table_lines:
  "fold line_effect (table_lines cols kt ks idx) s = s\<lparr>table_fields := table_fields s @ map column_field cols, primary_keys := ks\<rparr>"
  by (simp add: table_lines_def fold_columns fold_indexes)

lemma split_lines:
  assumes "\<forall>l \<in> set ls. line_ok lib l" "map strip segs = map show_line ls" "ls \<noteq> []"
    and "\<forall>s \<in> set segs. closed_from (CHR '','') 0 False None s"
  shows "split_high_level (join '','' segs) (CHR '','') = map show_line ls"
proof -
  have "plain_delimiter (CHR '','')" by code_simp
  moreover have "segs \<noteq> []" using assms(2,3) by auto
  ultimately have "split_loop (CHR '','') [] 0 False None (join '','' segs) = filter (\<lambda>s. s \<noteq> []) (map strip segs)"
    using split_loop_join assms(4) by blast
  moreover have "\<forall>s \<in> set (map show_line ls). s \<noteq> []" using assms(1) show_line_facts by auto
  ultimately have loop: "split_loop (CHR '','') [] 0 False None (join '','' segs) = map show_line ls"
    by (simp only: assms(2) filter_True)
  moreover have "join '','' segs \<noteq> []"
    using loop assms(3) by (auto simp: add_segment_def strip_def lstrip_def rstrip_def)
  ultimately show ?thesis by (simp add: split_high_level_def)
qed


text \<open>A table of two columns with a second index, and its tokens.\<close>

definition sample_tok :: "string \<Rightarrow> sql_ttype \<Rightarrow> sql_class \<Rightarrow> sql_token" where
  "sample_tok v ty cl = \<lparr>tok_normalized = v, tok_value = v, tok_ttype = ty, tok_class = cl, tok_space = False\<rparr>"

definition sample_segs :: "string list" where
  "sample_segs = [bquote # ''id'' @ bquote # '' int NOT NULL'', ''   '' @ bquote # ''a'' @ bquote # '' decimal(5,2)'',
     ''   PRIMARY KEY (id)'', ''   KEY a_idx (a)'']"

definition sample_tokens :: "sql_token list" where
  "sample_tokens = [sample_tok ''CREATE'' DDL OtherToken, sample_tok ''TABLE'' Keyword OtherToken,
     sample_tok ''t'' OtherType (Identifier (Some ''t'')),
     sample_tok ''(...)'' OtherType (Parenthesis [''('', join '','' sample_segs, '')'']),
     sample_tok ''CHARSET'' Keyword OtherToken, sample_tok ''='' OtherType OtherToken, sample_tok ''utf8mb4'' Keyword OtherToken]"

definition sample_sql_lib :: sql_lib where
  "sample_sql_lib = \<lparr>sq_parse = \<lambda>_. Inr sample_tokens, sq_primary_key = \<lambda>_. Inr [''id''], sq_show_create = \<lambda>_. Inl KeyError\<rparr>"

definition sample_cols :: "(string \<times> string \<times> string list) list" where
  "sample_cols = [(''id'', ''int'', [''NOT'', ''NULL'']), (''a'', ''decimal(5,2)'', [])]"


theorem parsed_structure_has_key_witness:
  "\<exists>m. parse_mysql_table_structure 1 sample_sql_lib default_conv None ''CREATE TABLE t'' = Inr m
    \<and> ts_wf m \<and> primary_keys m = [''id''] \<and> set (primary_keys m) \<subseteq> set (field_names m)"
proof -
  have "map_sum (\<lambda>_. ()) primary_keys (parse_mysql_table_structure 1 sample_sql_lib default_conv None ''CREATE TABLE t'') = Inr [''id'']"
    by code_simp
  then obtain m where m: "parse_mysql_table_structure 1 sample_sql_lib default_conv None ''CREATE TABLE t'' = Inr m" "primary_keys m = [''id'']"
    by (cases "parse_mysql_table_structure 1 sample_sql_lib default_conv None ''CREATE TABLE t''") auto
  with parsed_structure_has_key [OF m(1)] show ?thesis by auto
qed

section \<open>Limits\<close>

text \<open>
  An unquoted column whose name begins like an index is taken for one and left out, and an
  unquoted name with its database, in CREATE TABLE ... LIKE, is taken for the name of the table.
\<close>

lemma unquoted_key_column_lost: "parse_line lib ''key_name int'' s = Inr s"
proof -
  have "strip ''key_name int'' = ''key_name int''" "lower ''key_name int'' = ''key_name int''"
    "is_index_line ''key_name int''" "\<not> startswith ''key_name int'' ''constraint''" by code_simp+
  then show ?thesis by (simp only: parse_line_def Let_def if_False option.case if_True)
qed

lemma create_like_keeps_database: "search_create_like ''CREATE TABLE db.t LIKE db.s'' = Some (''db.t'', ''db.s'')"
  by code_simp

end
