(* ===== verification/MysqlApi.thy ===== *)
theory MysqlApi
  imports RecordConvert ClickhouseApi Config
begin

text \<open>
  The MySQL client: \<^verbatim>\<open>mysql_api.py\<close>. The server is a list of answers, one for each call that is
  made: a connection is opened or a statement is executed and its rows are fetched. A server whose
  answers are used up is gone. \<open>my_calls\<close> is a history variable: the calls so far. The time zone that
  \<^verbatim>\<open>get_records\<close> attaches to naive timestamps is not represented, as in \<^typ>\<open>py_val\<close>.
\<close>

section \<open>Calls\<close>

datatype mysql_call =
    Connect py_val "string option"
  | Execute string
  | CloseConnection

type_synonym answer = "mysql_call \<Rightarrow> row list res"

record mysql_api =
  my_database :: "string option"
  my_charset :: py_val
  my_timezone :: string
  last_connect_time :: int
  my_clock :: "int list"
  my_answers :: "answer list"
  my_calls :: "mysql_call list"

definition RECONNECT_INTERVAL :: int where "RECONNECT_INTERVAL = 3 * 60"

definition my_do :: "mysql_call \<Rightarrow> (mysql_api, row list) act" where
  "my_do c a =
    (let a = a\<lparr>my_calls := my_calls a @ [c]\<rparr> in
     case my_answers a of
       [] \<Rightarrow> (Inl OperationalError, a)
     | f # fs \<Rightarrow> (f c, a\<lparr>my_answers := fs\<rparr>))"

definition my_time :: "(mysql_api, int) act" where
  "my_time a = (case my_clock a of [] \<Rightarrow> (Inr 0, a) | t # ts \<Rightarrow> (Inr t, a\<lparr>my_clock := ts\<rparr>))"

definition fetch :: "string \<Rightarrow> (mysql_api, row list) act" where
  "fetch q = my_do (Execute q)"

definition run_statement :: "string \<Rightarrow> (mysql_api, unit) act" where
  "run_statement q = bindA (fetch q) (\<lambda>_. retA ())"

section \<open>Connections\<close>

text \<open>A server without the preferred collation is asked again for a connection with an older one.\<close>

definition unknown_collation :: "py_error \<Rightarrow> bool" where
  "unknown_collation e = (case e of PyException msg \<Rightarrow> contains msg ''Unknown collation'' | _ \<Rightarrow> False)"

definition connect :: "(mysql_api, unit) act" where
  "connect a =
    (case my_do (Connect (my_charset a) (if my_charset a = VStr ''utf8mb4'' then Some ''utf8mb4_unicode_ci'' else None)) a of
       (Inr _, a) \<Rightarrow> (Inr (), a)
     | (Inl e, a) \<Rightarrow>
         if unknown_collation e
         then bindA (my_do (Connect (VStr ''utf8mb4'') (Some ''utf8mb4_general_ci''))) (\<lambda>_. retA ()) a
         else (Inl e, a))"

definition use_database :: "(mysql_api, unit) act" where
  "use_database a = (case my_database a of None \<Rightarrow> (Inr (), a) | Some db \<Rightarrow> run_statement (''USE '' @ ticked db) a)"

definition reconnect_if_required :: "bool \<Rightarrow> (mysql_api, unit) act" where
  "reconnect_if_required force =
    bindA my_time (\<lambda>curr_time a.
      if curr_time - last_connect_time a < RECONNECT_INTERVAL \<and> \<not> force then (Inr (), a)
      else
        bindA connect (\<lambda>_.
        bindA (if my_timezone a \<noteq> [] \<and> my_timezone a \<noteq> ''UTC''
               then run_statement (''SET time_zone = '' @ [squote] @ my_timezone a @ [squote]) else retA ()) (\<lambda>_.
        bindA use_database (\<lambda>_.
        modifyA (\<lambda>a. a\<lparr>last_connect_time := curr_time\<rparr>)))) a)"

definition new_mysql_api :: "string option \<Rightarrow> MysqlSettings \<Rightarrow> string \<Rightarrow> int list \<Rightarrow> answer list \<Rightarrow> unit res \<times> mysql_api" where
  "new_mysql_api db st tz clock answers =
    reconnect_if_required False
      \<lparr>my_database = db, my_charset = mysql_charset st, my_timezone = tz, last_connect_time = 0,
       my_clock = clock, my_answers = answers, my_calls = []\<rparr>"

definition mysql_close :: "(mysql_api, unit) act" where
  "mysql_close = bindA (my_do CloseConnection) (\<lambda>_. modifyA (\<lambda>a. a\<lparr>last_connect_time := 0\<rparr>))"

definition set_database :: "string \<Rightarrow> (mysql_api, unit) act" where
  "set_database db =
    bindA (reconnect_if_required False) (\<lambda>_.
    bindA (modifyA (\<lambda>a. a\<lparr>my_database := Some db\<rparr>)) (\<lambda>_. use_database))"

definition mysql_drop_database :: "string \<Rightarrow> (mysql_api, unit) act" where
  "mysql_drop_database db = run_statement (''DROP DATABASE IF EXISTS '' @ ticked db)"

definition mysql_drop_table :: "string \<Rightarrow> (mysql_api, unit) act" where
  "mysql_drop_table t = run_statement (''DROP TABLE IF EXISTS '' @ ticked t)"

definition mysql_create_database :: "string \<Rightarrow> (mysql_api, unit) act" where
  "mysql_create_database db = run_statement (''CREATE DATABASE '' @ ticked db)"

section \<open>Queries\<close>

definition text_column :: "nat \<Rightarrow> row \<Rightarrow> string res" where
  "text_column i r = bindE (nthE r i) text_of"

definition mysql_get_databases :: "(mysql_api, string list) act" where
  "mysql_get_databases =
    bindA (reconnect_if_required True) (\<lambda>_.
    bindA (fetch ''SHOW DATABASES'') (\<lambda>res. liftA (\<lambda>_. mapE (text_column 0) res)))"

text \<open>The rows of SHOW FULL TABLES that are base tables.\<close>

definition is_base_table :: "row \<Rightarrow> bool res" where
  "is_base_table r = bindE (nthE r 1) (\<lambda>v. Inr (v = VStr ''BASE TABLE''))"

fun base_tables :: "row list \<Rightarrow> string list res" where
  "base_tables [] = Inr []"
| "base_tables (r # rs) =
    bindE (is_base_table r) (\<lambda>base.
    if base then bindE (text_column 0 r) (\<lambda>t. bindE (base_tables rs) (\<lambda>ts. Inr (t # ts))) else base_tables rs)"

definition mysql_get_tables :: "(mysql_api, string list) act" where
  "mysql_get_tables =
    bindA (reconnect_if_required False) (\<lambda>_. bindA (fetch ''SHOW FULL TABLES'') (\<lambda>res. liftA (\<lambda>_. base_tables res)))"

definition get_binlog_files :: "(mysql_api, string list) act" where
  "get_binlog_files =
    bindA (reconnect_if_required False) (\<lambda>_.
    bindA (fetch ''SHOW BINARY LOGS'') (\<lambda>res. liftA (\<lambda>_. mapE (text_column 0) res)))"

definition get_table_create_statement :: "string \<Rightarrow> (mysql_api, string) act" where
  "get_table_create_statement t =
    bindA (reconnect_if_required False) (\<lambda>_.
    bindA (fetch (''SHOW CREATE TABLE '' @ ticked t)) (\<lambda>res.
    liftA (\<lambda>_. bindE (nthE res 0) (\<lambda>r. bindE (text_column 1 r) (\<lambda>st. Inr (strip st))))))"

section \<open>Pages of a table\<close>

text \<open>Rows of one worker: by the hash of their key, when there is more than one.\<close>

definition hash_condition :: "string list \<Rightarrow> int option \<Rightarrow> int option \<Rightarrow> string option" where
  "hash_condition order_by worker_id total_workers =
    (case (worker_id, total_workers) of
       (Some w, Some n) \<Rightarrow>
         if n > 1 then
           Some (''CRC32(CONCAT_WS('' @ [squote] @ ''|'' @ [squote] @ '', ''
             @ join '', '' (map (\<lambda>k. ''COALESCE('' @ ticked k @ '', '' @ [squote, squote] @ '')'') order_by)
             @ '')) % '' @ str_int n @ '' = '' @ str_int w)
         else None
     | _ \<Rightarrow> None)"

definition records_query :: "pylib \<Rightarrow> string \<Rightarrow> string list \<Rightarrow> int \<Rightarrow> py_val list option \<Rightarrow> int option \<Rightarrow> int option \<Rightarrow> string" where
  "records_query lib t order_by limit start worker_id total_workers =
    (let order = join '','' (map ticked order_by);
         cond = (case start of None \<Rightarrow> [] | Some vs \<Rightarrow> ''WHERE ('' @ order @ '') > ('' @ join '','' (map (str_of lib) vs) @ '') '');
         cond = (case hash_condition order_by worker_id total_workers of
                     None \<Rightarrow> cond
                   | Some c \<Rightarrow> if cond \<noteq> [] then cond @ ''AND '' @ c @ '' '' else ''WHERE '' @ c @ '' '') in
     ''SELECT * FROM '' @ ticked t @ '' '' @ cond @ ''ORDER BY '' @ order @ '' LIMIT '' @ str_int limit)"

definition get_records :: "pylib \<Rightarrow> string \<Rightarrow> string list \<Rightarrow> int \<Rightarrow> py_val list option \<Rightarrow> int option \<Rightarrow> int option
    \<Rightarrow> (mysql_api, row list) act" where
  "get_records lib t order_by limit start worker_id total_workers =
    bindA (reconnect_if_required False) (\<lambda>_. fetch (records_query lib t order_by limit start worker_id total_workers))"

end
