(* ===== verification/InitialReplication.thy ===== *)
theory InitialReplication
  imports Realtime CreateTable MysqlApi
begin

text \<open>
  The initial copy of a database: \<^verbatim>\<open>db_replicator_initial.py\<close>, with \<^verbatim>\<open>touch_all_files\<close> of \<^verbatim>\<open>utils.py\<close>.
  Tables are created and copied in pages ordered by their key; the last key is saved with the
  state, so that a restart goes on behind it; at the end the structures are checked again and the
  temporary database takes the name of the target.

  Queries to ClickHouse are answered by a function; the exit codes of worker processes by a list, one
  round of polls after the other: when it ends, the process was interrupted. The state's dictionary
  of record versions is the one of the ClickHouse client, the same object, unless the state was
  created anew (\<open>in_own_versions\<close>).
\<close>

section \<open>State\<close>

record init_context =
  ix_rt :: rt_context
  ix_sql :: sql_lib
  ix_depth :: nat
  ix_query :: query_fun
  ix_tmp_database :: string
  ix_single_table :: string
  ix_worker_id :: "int option"
  ix_total_workers :: "int option"
  ix_is_parallel_worker :: bool
  ix_multi :: bool
  ix_skip :: bool
  ix_test_fail_records :: "int option"
  ix_executable :: string
  ix_settings_file :: string

text \<open>A directory: names, whether they are files, and times of modification. None: there is none.\<close>

type_synonym directory = "(string \<times> bool \<times> int) list option"

record initial =
  in_rep :: rep_state
  in_state :: db_state
  in_own_versions :: "(string, int) dict option"
  in_saved :: "saved_state option"
  in_mysql :: mysql_api
  last_touch_time :: int
  in_last_save_time :: int
  in_clock :: "int list"
  in_relay :: directory
  in_launched :: "string list list"
  in_workers :: "int list"
  in_polls :: "(int \<Rightarrow> int option) list"

definition INITIAL_SAVE_STATE_INTERVAL :: int where "INITIAL_SAVE_STATE_INTERVAL = 10"
definition BINLOG_TOUCH_INTERVAL :: int where "BINLOG_TOUCH_INTERVAL = 120"

definition ix_rep :: "init_context \<Rightarrow> db_rep" where "ix_rep cx = rx_rep (ix_rt cx)"
definition ix_config :: "init_context \<Rightarrow> Settings" where "ix_config cx = rep_settings (ix_rep cx)"

definition in_time :: "(initial, int) act" where
  "in_time s = (case in_clock s of [] \<Rightarrow> (Inr 0, s) | t # ts \<Rightarrow> (Inr t, s\<lparr>in_clock := ts\<rparr>))"

definition in_on_rep :: "(rep_state, 'a) act \<Rightarrow> (initial, 'a) act" where
  "in_on_rep f s = (case f (in_rep s) of (r, rep) \<Rightarrow> (r, s\<lparr>in_rep := rep\<rparr>))"

definition in_on_api :: "(api, 'a) act \<Rightarrow> (initial, 'a) act" where
  "in_on_api f = in_on_rep (on_api f)"

definition in_on_mysql :: "(mysql_api, 'a) act \<Rightarrow> (initial, 'a) act" where
  "in_on_mysql f s = (case f (in_mysql s) of (r, a) \<Rightarrow> (r, s\<lparr>in_mysql := a\<rparr>))"

definition set_api_database :: "string \<Rightarrow> (initial, unit) act" where
  "set_api_database db = in_on_api (modifyA (\<lambda>a. a\<lparr>api_database := db\<rparr>))"

definition on_state :: "(db_state \<Rightarrow> db_state) \<Rightarrow> (initial, unit) act" where
  "on_state f = modifyA (\<lambda>s. s\<lparr>in_state := f (in_state s)\<rparr>)"

definition state_versions :: "initial \<Rightarrow> (string, int) dict" where
  "state_versions s = (case in_own_versions s of None \<Rightarrow> tables_last_record_version (ch_api (in_rep s)) | Some d \<Rightarrow> d)"

definition state_save :: "(initial, unit) act" where
  "state_save = modifyA (\<lambda>s. s\<lparr>in_saved := Some (db_state_save (in_state s) (state_versions s) (tables_structure (in_rep s)))\<rparr>)"

section \<open>Structures\<close>

definition parse_statement :: "init_context \<Rightarrow> string \<Rightarrow> initial \<Rightarrow> table_structure res" where
  "parse_statement cx st s =
    parse_mysql_table_structure (ix_depth cx) (ix_sql cx) (rx_conv (ix_rt cx)) (Some (tables_structure (in_rep s))) st"

definition fetch_structure :: "init_context \<Rightarrow> string \<Rightarrow> (initial, table_structure) act" where
  "fetch_structure cx t = bindA (in_on_mysql (get_table_create_statement t)) (\<lambda>st. liftA (parse_statement cx st))"

text \<open>The key columns that a warning is logged for.\<close>

definition validate_mysql_structure :: "table_structure \<Rightarrow> string list res" where
  "validate_mysql_structure m =
    (case primary_key_ids m of
       None \<Rightarrow> Inl TypeError
     | Some ids \<Rightarrow> bindE (mapE (nthE (table_fields m)) ids) (\<lambda>fs.
         Inr (map name (filter (\<lambda>f. \<not> contains (lower (parameters f)) ''not null'') fs))))"

definition other_table :: "init_context \<Rightarrow> string \<Rightarrow> bool" where
  "other_table cx t = (ix_single_table cx \<noteq> [] \<and> ix_single_table cx \<noteq> t)"

definition clause_text :: "init_context \<Rightarrow> py_val \<Rightarrow> string" where
  "clause_text cx v = (case v of VStr p \<Rightarrow> p | _ \<Rightarrow> rep_str (ix_rep cx) v)"

definition create_initial_structure_table :: "init_context \<Rightarrow> string \<Rightarrow> (initial, unit) act" where
  "create_initial_structure_table cx t =
    bindA (liftA (\<lambda>_. is_table_matches (ix_config cx) t)) (\<lambda>wanted.
    if \<not> wanted \<or> other_table cx t then retA ()
    else
      bindA (fetch_structure cx t) (\<lambda>m.
      bindA (liftA (\<lambda>_. validate_mysql_structure m)) (\<lambda>_.
      bindA (liftA (\<lambda>_. convert_table_structure (rx_conv (ix_rt cx)) m)) (\<lambda>c.
      let target = target_name (ix_rt cx) t; c = c\<lparr>table_name := target, if_not_exists := True\<rparr> in
      bindA (in_on_rep (put_structures t (m, c))) (\<lambda>_.
      bindA (liftA (\<lambda>_. bindE (get_indexes (ix_config cx) (rep_database (ix_rep cx)) t) (mapE text_of))) (\<lambda>idx.
      bindA (liftA (\<lambda>_. get_partition_bys (ix_config cx) (rep_database (ix_rep cx)) t)) (\<lambda>parts.
      bindA (liftA (\<lambda>_. get_order_bys (ix_config cx) (rep_database (ix_rep cx)) t)) (\<lambda>orders.
      if ix_is_parallel_worker cx then retA ()
      else
        bindA (if ix_multi cx then bindA (in_on_api (drop_table target)) (\<lambda>_. retA ()) else retA ()) (\<lambda>_.
        in_on_api (create_table c idx (map (clause_text cx) parts) (map (clause_text cx) orders)))))))))))"

definition create_initial_structure :: "init_context \<Rightarrow> (initial, unit) act" where
  "create_initial_structure cx =
    bindA (on_state (\<lambda>st. st\<lparr>db_status := CREATING_INITIAL_STRUCTURES\<rparr>)) (\<lambda>_.
    bindA (\<lambda>s. mapA (create_initial_structure_table cx) (state_tables (in_state s)) s) (\<lambda>_.
    state_save))"

definition parse_table_structure :: "init_context \<Rightarrow> string \<Rightarrow> (initial, unit) act" where
  "parse_table_structure cx t =
    bindA (liftA (\<lambda>_. is_table_matches (ix_config cx) t)) (\<lambda>wanted.
    if \<not> wanted \<or> other_table cx t then retA ()
    else
      bindA (fetch_structure cx t) (\<lambda>m.
      let target = target_name (ix_rt cx) t in
      bindA (liftA (\<lambda>s.
          if ix_skip cx then bindE (get_table_structure (ix_query cx) (ch_api (in_rep s)) target) preprocess
          else bindE (convert_table_structure (rx_conv (ix_rt cx)) m) (\<lambda>c. Inr (c\<lparr>table_name := target\<rparr>)))) (\<lambda>c.
      in_on_rep (put_structures t (m, c)))))"

definition parse_tables_structure :: "init_context \<Rightarrow> (initial, unit) act" where
  "parse_tables_structure cx s = mapA (parse_table_structure cx) (state_tables (in_state s)) s"

section \<open>Comparing structures\<close>

definition normal_parameters :: "table_field \<Rightarrow> string" where
  "normal_parameters f = join '' '' (split_ws (lower (parameters f)))"

text \<open>The loops of \<^verbatim>\<open>_compare_table_structures\<close>, which leave at the first difference.\<close>

fun compare_keys :: "string list \<Rightarrow> string list \<Rightarrow> bool" where
  "compare_keys [] _ = True"
| "compare_keys (k # ks) (k' # ks') = (if k \<noteq> k' then False else compare_keys ks ks')"
| "compare_keys (k # ks) [] = False"

fun compare_fields :: "table_field list \<Rightarrow> table_field list \<Rightarrow> bool" where
  "compare_fields [] _ = True"
| "compare_fields (f # fs) (g # gs) =
    (if name f \<noteq> name g then False
     else if field_type f \<noteq> field_type g then False
     else if normal_parameters f \<noteq> normal_parameters g then False
     else compare_fields fs gs)"
| "compare_fields (f # fs) [] = False"

definition compare_table_structures :: "table_structure \<Rightarrow> table_structure \<Rightarrow> bool" where
  "compare_table_structures s1 s2 =
    (if table_name s1 \<noteq> table_name s2 then False
     else if charset s1 \<noteq> charset s2 then False
     else if length (primary_keys s1) \<noteq> length (primary_keys s2) then False
     else if \<not> compare_keys (primary_keys s1) (primary_keys s2) then False
     else if length (table_fields s1) \<noteq> length (table_fields s2) then False
     else compare_fields (table_fields s1) (table_fields s2))"

fun changed_tables :: "init_context \<Rightarrow> string list \<Rightarrow> (initial, string list) act" where
  "changed_tables cx [] = retA []"
| "changed_tables cx (t # ts) =
    bindA (liftA (\<lambda>_. is_table_matches (ix_config cx) t)) (\<lambda>wanted.
    if \<not> wanted \<or> other_table cx t then changed_tables cx ts
    else
      bindA (fetch_structure cx t) (\<lambda>current.
      bindA (liftA (\<lambda>s. Inr (map_of (tables_structure (in_rep s)) t))) (\<lambda>original.
      bindA (changed_tables cx ts) (\<lambda>changed.
      retA (case original of
              None \<Rightarrow> changed
            | Some (m, _) \<Rightarrow> if compare_table_structures m current then changed else t # changed)))))"

definition verify_table_structures_after_replication :: "init_context \<Rightarrow> (initial, unit) act" where
  "verify_table_structures_after_replication cx =
    bindA (\<lambda>s. changed_tables cx (state_tables (in_state s)) s) (\<lambda>changed.
    if changed \<noteq> [] then raiseA (PyException (''Table structure changes detected in: '' @ join '', '' changed)) else retA ())"

section \<open>Periodic work\<close>

definition touch_all_files :: "int \<Rightarrow> directory \<Rightarrow> directory res" where
  "touch_all_files now d =
    (case d of
       None \<Rightarrow> Inl FileNotFoundError
     | Some fs \<Rightarrow> Inr (Some (map (\<lambda>(n, is_file, t). (n, is_file, if is_file then now else t)) fs)))"

definition prevent_binlog_removal :: "(initial, unit) act" where
  "prevent_binlog_removal =
    bindA in_time (\<lambda>now s.
      if now - last_touch_time s < BINLOG_TOUCH_INTERVAL then (Inr (), s)
      else if in_relay s = None then (Inr (), s)
      else
        bindA in_time (\<lambda>now. bindA (modifyA (\<lambda>s. s\<lparr>last_touch_time := now\<rparr>)) (\<lambda>_.
        bindA in_time (\<lambda>now s.
          case touch_all_files now (in_relay s) of Inl e \<Rightarrow> (Inl e, s) | Inr d \<Rightarrow> (Inr (), s\<lparr>in_relay := d\<rparr>)))) s)"

definition initial_save_state_if_required :: "bool \<Rightarrow> (initial, unit) act" where
  "initial_save_state_if_required force =
    bindA in_time (\<lambda>curr_time s.
      if curr_time - in_last_save_time s < INITIAL_SAVE_STATE_INTERVAL \<and> \<not> force then (Inr (), s)
      else bindA (modifyA (\<lambda>s. s\<lparr>in_last_save_time := curr_time, in_own_versions := None\<rparr>)) (\<lambda>_. state_save) s)"

section \<open>Copying a table\<close>

text \<open>The last key as it is put into the query: values of other than integer types in quotes.\<close>

definition start_value :: "pylib \<Rightarrow> string \<Rightarrow> py_val \<Rightarrow> py_val" where
  "start_value lib key_type v =
    (if contains (lower key_type) ''int'' then v else VStr (squote # str_of lib v @ [squote]))"

definition query_start_values :: "pylib \<Rightarrow> string list \<Rightarrow> py_val list option \<Rightarrow> py_val list option" where
  "query_start_values lib key_types max_primary_key = map_option (\<lambda>vs. map2 (start_value lib) key_types vs) max_primary_key"

definition get_last_record_primary_key :: "row list \<Rightarrow> nat list \<Rightarrow> py_val list res" where
  "get_last_record_primary_key recs ids = bindE (lastE recs) (\<lambda>r. mapE (nthE r) ids)"

definition batch_size :: "init_context \<Rightarrow> int" where
  "batch_size cx = int_of (initial_replication_batch_size (ix_config cx))"

text \<open>What a table is copied with: its structures and the positions and types of its key.\<close>

record copy_plan =
  cp_table :: string
  cp_mysql :: table_structure
  cp_clickhouse :: table_structure
  cp_key_ids :: "nat list"
  cp_key_types :: "string list"

definition copy_plan_of :: "string \<Rightarrow> table_structure \<times> table_structure \<Rightarrow> copy_plan res" where
  "copy_plan_of t p =
    (case p of (m, c) \<Rightarrow>
       case primary_key_ids c of
         None \<Rightarrow> Inl TypeError
       | Some ids \<Rightarrow> bindE (mapE (nthE (map field_type (table_fields c))) ids) (\<lambda>types.
           Inr \<lparr>cp_table = t, cp_mysql = m, cp_clickhouse = c, cp_key_ids = ids, cp_key_types = types\<rparr>))"

definition page_query :: "init_context \<Rightarrow> copy_plan \<Rightarrow> py_val list option \<Rightarrow> string" where
  "page_query cx cp max_primary_key =
    records_query (rx_lib (ix_rt cx)) (cp_table cp) (primary_keys (cp_clickhouse cp)) (batch_size cx)
      (query_start_values (rx_lib (ix_rt cx)) (cp_key_types cp) max_primary_key) (ix_worker_id cx) (ix_total_workers cx)"

text \<open>One page, converted.\<close>

definition read_page :: "init_context \<Rightarrow> copy_plan \<Rightarrow> py_val list option \<Rightarrow> (initial, row list) act" where
  "read_page cx cp max_primary_key =
    bindA (in_on_mysql (get_records (rx_lib (ix_rt cx)) (cp_table cp) (primary_keys (cp_clickhouse cp)) (batch_size cx)
      (query_start_values (rx_lib (ix_rt cx)) (cp_key_types cp) max_primary_key) (ix_worker_id cx) (ix_total_workers cx))) (\<lambda>recs.
    liftA (\<lambda>_. convert_records (rx_lib (ix_rt cx)) recs (cp_mysql cp) (cp_clickhouse cp) False))"

text \<open>Storing a page, remembering its last key.\<close>

definition store_page :: "init_context \<Rightarrow> copy_plan \<Rightarrow> row list \<Rightarrow> (initial, py_val list) act" where
  "store_page cx cp recs =
    bindA (in_on_api (ch_insert (rx_timestamp_ok (ix_rt cx)) (target_name (ix_rt cx) (cp_table cp)) recs (Some (cp_clickhouse cp)))) (\<lambda>_.
    bindA (liftA (\<lambda>_. get_last_record_primary_key recs (cp_key_ids cp))) (\<lambda>key.
    bindA (on_state (\<lambda>st. st\<lparr>initial_replication_max_primary_key := Some key\<rparr>)) (\<lambda>_.
    bindA (initial_save_state_if_required False) (\<lambda>_.
    bindA prevent_binlog_removal (\<lambda>_. retA key)))))"

definition enough_records :: "init_context \<Rightarrow> nat \<Rightarrow> bool" where
  "enough_records cx n = (case ix_test_fail_records cx of None \<Rightarrow> False | Some k \<Rightarrow> k \<le> int n)"

text \<open>
  The loop over the pages; the result says whether it left through \<^verbatim>\<open>break\<close>. Each round takes an
  answer of the server, so that the number of answers left bounds the rounds, and a round
  without an answer raises.
\<close>

fun copy_loop :: "nat \<Rightarrow> init_context \<Rightarrow> copy_plan \<Rightarrow> py_val list option \<Rightarrow> nat \<Rightarrow> (initial, bool) act" where
  "copy_loop 0 cx cp max_primary_key count = raiseA OperationalError"
| "copy_loop (Suc rounds) cx cp max_primary_key count =
    bindA (read_page cx cp max_primary_key) (\<lambda>recs.
    if recs = [] then retA True
    else
      bindA (store_page cx cp recs) (\<lambda>key.
      let count = count + length recs in
      if enough_records cx count then retA False
      else bindA in_time (\<lambda>_. copy_loop rounds cx cp (Some key) count)))"

definition start_copy :: "string \<Rightarrow> (initial, py_val list option) act" where
  "start_copy t s =
    (if initial_replication_table (in_state s) = Some t then (Inr (initial_replication_max_primary_key (in_state s)), s)
     else
       bindA (on_state (\<lambda>st. st\<lparr>initial_replication_table := Some t, initial_replication_max_primary_key := None\<rparr>)) (\<lambda>_.
       bindA state_save (\<lambda>_. retA None)) s)"

definition copy_table :: "init_context \<Rightarrow> string \<Rightarrow> (initial, unit) act" where
  "copy_table cx t =
    bindA (start_copy t) (\<lambda>max_primary_key.
    bindA (in_on_rep (get_structures t)) (\<lambda>p.
    bindA (liftA (\<lambda>_. copy_plan_of t p)) (\<lambda>cp.
    bindA in_time (\<lambda>_.
    bindA (\<lambda>s. copy_loop (Suc (length (my_answers (in_mysql s)))) cx cp max_primary_key 0 s) (\<lambda>finished.
    if finished then initial_save_state_if_required True else retA ())))))"

section \<open>Parallel workers\<close>

definition worker_command :: "init_context \<Rightarrow> string \<Rightarrow> int \<Rightarrow> string list" where
  "worker_command cx t worker_id =
    [ix_executable cx, ''-m'', ''mysql_ch_replicator.main'', ''db_replicator'',
     ''--config'', ix_settings_file cx, ''--db'', rep_database (ix_rep cx),
     ''--worker_id'', str_int worker_id,
     ''--total_workers'', str_int (int_of (initial_replication_threads (ix_config cx))),
     ''--table'', t, ''--target_db'', ix_tmp_database cx, ''--initial_only=True'']"

definition launch_worker :: "init_context \<Rightarrow> string \<Rightarrow> int \<Rightarrow> (initial, unit) act" where
  "launch_worker cx t w =
    modifyA (\<lambda>s. s\<lparr>in_launched := in_launched s @ [worker_command cx t w], in_workers := in_workers s @ [w]\<rparr>)"

definition poll_worker :: "(int \<Rightarrow> int option) \<Rightarrow> int \<Rightarrow> (initial, unit) act" where
  "poll_worker poll w =
    (case poll w of
       None \<Rightarrow> retA ()
     | Some exit_code \<Rightarrow>
         if exit_code \<noteq> 0 then raiseA (PyException (''Worker process failed with exit code '' @ str_int exit_code))
         else modifyA (\<lambda>s. s\<lparr>in_workers := remove1 w (in_workers s)\<rparr>))"

fun wait_workers :: "(int \<Rightarrow> int option) list \<Rightarrow> (initial, unit) act" where
  "wait_workers polls s =
    (if in_workers s = [] then (Inr (), s\<lparr>in_polls := polls\<rparr>)
     else
       case polls of
         [] \<Rightarrow> (Inl (PyException ''KeyboardInterrupt''), s\<lparr>in_polls := [], in_workers := []\<rparr>)
       | poll # rest \<Rightarrow> bindA (mapA (poll_worker poll) (in_workers s)) (\<lambda>_. wait_workers rest) s)"

declare wait_workers.simps [simp del]

definition update_state_version :: "string \<Rightarrow> int \<Rightarrow> initial \<Rightarrow> initial" where
  "update_state_version t v s =
    (case in_own_versions s of
       Some d \<Rightarrow> s\<lparr>in_own_versions := Some (AList.update t v d)\<rparr>
     | None \<Rightarrow> s\<lparr>in_rep := (in_rep s)\<lparr>ch_api := set_last_used_version t v (ch_api (in_rep s))\<rparr>\<rparr>)"

definition consolidate_worker_record_versions :: "init_context \<Rightarrow> string \<Rightarrow> (initial, unit) act" where
  "consolidate_worker_record_versions cx t s =
    (case get_max_record_version (ix_query cx) (ch_api (in_rep s)) (target_name (ix_rt cx) t) of
       None \<Rightarrow> (Inr (), s)
     | Some v \<Rightarrow>
         let current = (case map_of (state_versions s) t of None \<Rightarrow> 0 | Some n \<Rightarrow> n) in
         if 0 < int_of v \<and> current < int_of v
         then bindA (modifyA (update_state_version t (int_of v))) (\<lambda>_. state_save) s
         else (Inr (), s))"

definition perform_initial_replication_table_parallel :: "init_context \<Rightarrow> string \<Rightarrow> (initial, unit) act" where
  "perform_initial_replication_table_parallel cx t =
    bindA (mapA (launch_worker cx t) [0..int_of (initial_replication_threads (ix_config cx)) - 1]) (\<lambda>_.
    bindA (\<lambda>s. wait_workers (in_polls s) s) (\<lambda>_.
    consolidate_worker_record_versions cx t))"

section \<open>Copying a database\<close>

definition perform_initial_replication_table :: "init_context \<Rightarrow> string \<Rightarrow> (initial, unit) act" where
  "perform_initial_replication_table cx t =
    bindA (liftA (\<lambda>_. is_table_matches (ix_config cx) t)) (\<lambda>wanted.
    if \<not> wanted then retA ()
    else if \<not> ix_is_parallel_worker cx \<and> 1 < int_of (initial_replication_threads (ix_config cx)) then
      bindA (on_state (\<lambda>st. st\<lparr>initial_replication_table := Some t, initial_replication_max_primary_key := None\<rparr>)) (\<lambda>_.
      bindA state_save (\<lambda>_. perform_initial_replication_table_parallel cx t))
    else copy_table cx t)"

fun copy_tables :: "init_context \<Rightarrow> string option \<Rightarrow> string list \<Rightarrow> (initial, unit) act" where
  "copy_tables cx start_table [] = retA ()"
| "copy_tables cx start_table (t # ts) =
    (if (case start_table of None \<Rightarrow> False | Some st \<Rightarrow> st \<noteq> [] \<and> t \<noteq> st) then copy_tables cx start_table ts
     else if other_table cx t then copy_tables cx start_table ts
     else bindA (perform_initial_replication_table cx t) (\<lambda>_. copy_tables cx None ts))"

definition rename_database :: "string \<Rightarrow> string \<Rightarrow> (initial, unit) act" where
  "rename_database a b = in_on_rep (run_command (''RENAME DATABASE '' @ ticked a @ '' TO '' @ ticked b))"

definition swap_databases :: "init_context \<Rightarrow> (initial, unit) act" where
  "swap_databases cx =
    (let target = rep_target_database (ix_rep cx) in
     bindA (liftA (\<lambda>_. get_databases (ix_query cx))) (\<lambda>dbs.
     if VStr target \<in> set dbs then
       bindA (rename_database target (target @ ''_old'')) (\<lambda>_.
       bindA (rename_database (ix_tmp_database cx) target) (\<lambda>_.
       bindA (in_on_api (drop_database (target @ ''_old''))) (\<lambda>_. retA ())))
     else rename_database (ix_tmp_database cx) target))"

definition execute_post_initial_replication_commands :: "init_context \<Rightarrow> (initial, unit) act" where
  "execute_post_initial_replication_commands cx =
    bindA (liftA (\<lambda>_. get_post_initial_replication_commands (ix_config cx) (rep_database (ix_rep cx)))) (\<lambda>cmds.
    if cmds = [] then retA ()
    else
      bindA (in_on_rep (run_command (''USE '' @ ticked (rep_target_database (ix_rep cx))))) (\<lambda>_.
      mapA (\<lambda>c. bindA (liftA (\<lambda>_. text_of c)) (\<lambda>q. in_on_rep (run_command q))) cmds))"

definition should_skip_db_swap :: "init_context \<Rightarrow> bool" where
  "should_skip_db_swap cx = (truthy (ignore_deletes (ix_config cx)) \<or> ix_multi cx \<or> cluster_mode (ix_config cx))"

definition finish_initial_replication :: "init_context \<Rightarrow> (initial, unit) act" where
  "finish_initial_replication cx =
    bindA (verify_table_structures_after_replication cx) (\<lambda>_.
    bindA (if should_skip_db_swap cx then retA () else swap_databases cx) (\<lambda>_.
    bindA (set_api_database (rep_target_database (ix_rep cx))) (\<lambda>_.
    execute_post_initial_replication_commands cx)))"

definition perform_initial_replication :: "init_context \<Rightarrow> (initial, unit) act" where
  "perform_initial_replication cx =
    bindA (set_api_database (ix_tmp_database cx)) (\<lambda>_.
    bindA (on_state (\<lambda>st. st\<lparr>db_status := PERFORMING_INITIAL_REPLICATION\<rparr>)) (\<lambda>_.
    bindA state_save (\<lambda>_.
    bindA (\<lambda>s. copy_tables cx (initial_replication_table (in_state s)) (state_tables (in_state s)) s) (\<lambda>_.
    if ix_is_parallel_worker cx then retA () else finish_initial_replication cx))))"

end
