(* ===== verification/InitialCopy.thy ===== *)
theory InitialCopy
  imports InitialReplication
begin

text \<open>
  What the initial copy of a table achieves, while the table changes: rows that stay in it
  during the whole copy are stored, also when the copy is interrupted and started again from the
  saved key, and with a server that answers the copy ends.

  The order of MySQL on the keys of the table is given by a weight \<open>w\<close> of its rows. Each answer of
  the server shows the table as it is at that moment, a snapshot of rows sorted by their weight:
  a query for a page gives the first rows behind the given key.
\<close>

section \<open>Pages and snapshots\<close>

definition convert_row :: "init_context \<Rightarrow> copy_plan \<Rightarrow> row \<Rightarrow> row res" where
  "convert_row cx cp r =
    convert_record (rx_lib (ix_rt cx)) r (map field_type (table_fields (cp_mysql cp)))
      (map field_type (table_fields (cp_clickhouse cp))) (cp_mysql cp) False"

definition insert_row :: "init_context \<Rightarrow> copy_plan \<Rightarrow> row \<Rightarrow> row res" where
  "insert_row cx cp = insert_record (rx_timestamp_ok (ix_rt cx)) (Some (table_fields (cp_clickhouse cp)))"

text \<open>What ClickHouse gets for a row of MySQL, and the key that is remembered for it.\<close>

definition stored_row :: "init_context \<Rightarrow> copy_plan \<Rightarrow> row \<Rightarrow> row res" where
  "stored_row cx cp r = bindE (convert_row cx cp r) (insert_row cx cp)"

definition copied_key :: "init_context \<Rightarrow> copy_plan \<Rightarrow> row \<Rightarrow> py_val list res" where
  "copied_key cx cp r = bindE (convert_row cx cp r) (\<lambda>c. mapE (nthE c) (cp_key_ids cp))"

definition row_above :: "(row \<Rightarrow> 'o::linorder) \<Rightarrow> row option \<Rightarrow> row \<Rightarrow> bool" where
  "row_above w start r = (case start of None \<Rightarrow> True | Some r0 \<Rightarrow> w r0 < w r)"

definition page_of :: "init_context \<Rightarrow> (row \<Rightarrow> 'o::linorder) \<Rightarrow> row option \<Rightarrow> row list \<Rightarrow> row list" where
  "page_of cx w start snap = take (nat (batch_size cx)) (filter (row_above w start) snap)"

text \<open>The key that goes with a row to start behind.\<close>

definition start_key :: "init_context \<Rightarrow> copy_plan \<Rightarrow> row option \<Rightarrow> py_val list option \<Rightarrow> bool" where
  "start_key cx cp start key =
    (case start of None \<Rightarrow> key = None | Some r \<Rightarrow> (\<exists>k. key = Some k \<and> copied_key cx cp r = Inr k))"

text \<open>
  An answer that displays the snapshot, or raises: of the statement with the key of a row it gives
  the page behind that row.
\<close>

definition displays :: "init_context \<Rightarrow> copy_plan \<Rightarrow> (row \<Rightarrow> 'o::linorder) \<Rightarrow> row set \<Rightarrow> row list \<Rightarrow> answer \<Rightarrow> bool" where
  "displays cx cp w R snap f \<longleftrightarrow>
    sorted_wrt (\<lambda>a b. w a < w b) snap \<and> set snap \<subseteq> R
    \<and> (\<forall>start key rs. set_option start \<subseteq> R \<longrightarrow> start_key cx cp start key
         \<longrightarrow> f (Execute (page_query cx cp key)) = Inr rs \<longrightarrow> rs = page_of cx w start snap)"

lemma page_covers:
  assumes "sorted_wrt (\<lambda>a b. w a < w b) snap" "page_of cx w start snap \<noteq> []"
    and "r \<in> set snap" "row_above w start r" "\<not> w (last (page_of cx w start snap)) < w r"
  shows "r \<in> set (page_of cx w start snap)"
proof (rule ccontr)
  let ?rows = "filter (row_above w start) snap" and ?n = "nat (batch_size cx)"
  assume "r \<notin> set (page_of cx w start snap)"
  moreover have "r \<in> set (take ?n ?rows @ drop ?n ?rows)" using assms(3,4) by simp
  ultimately have "r \<in> set (drop ?n ?rows)" by (simp only: set_append page_of_def) blast
  moreover have "sorted_wrt (\<lambda>a b. w a < w b) (take ?n ?rows @ drop ?n ?rows)"
    using assms(1) by (simp add: sorted_wrt_filter)
  moreover have "last (take ?n ?rows) \<in> set (take ?n ?rows)" using assms(2) by (intro last_in_set) (simp add: page_of_def)
  ultimately have "w (last (take ?n ?rows)) < w r" by (auto simp only: sorted_wrt_append)
  with assms(5) show False by (simp add: page_of_def)
qed

lemma page_above: "r \<in> set (page_of cx w start snap) \<Longrightarrow> r \<in> set snap \<and> row_above w start r"
  by (auto simp: page_of_def dest: in_set_takeD)

lemma page_sorted: "sorted_wrt (\<lambda>a b. w a < w b) snap \<Longrightarrow> sorted_wrt (\<lambda>a b. w a < w b) (page_of cx w start snap)"
  by (simp add: page_of_def sorted_wrt_filter sorted_wrt_take)

lemma page_empty: "page_of cx w start snap = [] \<Longrightarrow> 0 < batch_size cx \<Longrightarrow> r \<in> set snap \<Longrightarrow> \<not> row_above w start r"
  by (auto simp: page_of_def filter_empty_conv)

section \<open>Rows in ClickHouse\<close>

text \<open>The rows of all inserts into a table that took effect, without their versions.\<close>

fun call_rows :: "string \<Rightarrow> client_call \<Rightarrow> row list" where
  "call_rows full (Insert t rows) = (if t = full then map butlast rows else [])"
| "call_rows full (Command _) = []"

definition insert_target :: "api \<Rightarrow> string \<Rightarrow> string" where
  "insert_target a tbl = full_table_name a (if api_cluster a \<noteq> [] then tbl @ DISTRIBUTED_TABLE_SUFFIX else tbl)"

definition rows_in :: "api \<Rightarrow> string \<Rightarrow> row list" where
  "rows_in a tbl = concat (map (call_rows (insert_target a tbl)) (applied a))"

lemma versioned_rows:
  "versioned ts_ok fs v recs = Inr (rows, v') \<Longrightarrow> mapE (insert_record ts_ok fs) recs = Inr (map butlast rows)"
  by (induction ts_ok fs v recs arbitrary: rows rule: versioned.induct) (auto simp: res_simps)

lemma versioned_total:
  "mapE (insert_record ts_ok fs) recs = Inr rs \<Longrightarrow> \<exists>rows v'. versioned ts_ok fs v recs = Inr (rows, v')"
proof (induction ts_ok fs v recs arbitrary: rs rule: versioned.induct)
  case (2 ts_ok fs v r recs)
  then obtain r' rs' where "insert_record ts_ok fs r = Inr r'" "mapE (insert_record ts_ok fs) recs = Inr rs'"
    by (auto simp: res_simps)
  with 2(1) show ?case by fastforce
qed simp

lemma rows_in_append:
  "applied a' = applied a @ cs \<Longrightarrow> api_database a' = api_database a \<Longrightarrow> api_cluster a' = api_cluster a
   \<Longrightarrow> rows_in a' tbl = rows_in a tbl @ concat (map (call_rows (insert_target a tbl)) cs)"
  by (simp add: rows_in_def insert_target_def full_table_name_def)

lemma ch_insert_rows:
  assumes "ch_insert ts_ok tbl recs (Some c) a = (r, a')"
  shows "(\<exists>e. r = Inl e \<and> rows_in a' tbl = rows_in a tbl)
    \<or> (\<exists>rows. r = Inr () \<and> mapE (insert_record ts_ok (Some (table_fields c))) recs = Inr rows \<and> rows_in a' tbl = rows_in a tbl @ rows)"
proof (cases "versioned ts_ok (Some (table_fields c)) (get_last_used_version a tbl + 1) recs")
  case (Inl e)
  with assms show ?thesis by (auto simp: ch_insert_def)
next
  case (Inr p)
  obtain rows v' where p: "p = (rows, v')" by fastforce
  let ?call = "Insert (insert_target a tbl) rows"
  obtain out a1 where at: "attempts MAX_RETRIES ?call a = (out, a1)" by fastforce
  have "0 < MAX_RETRIES" by (simp add: MAX_RETRIES_def)
  note applied = attempts_applied [OF at this] and keeps = attempts_keeps [OF at]
  have at': "attempts MAX_RETRIES (Insert (full_table_name a (if api_cluster a \<noteq> [] then tbl @ DISTRIBUTED_TABLE_SUFFIX else tbl)) rows) a = (out, a1)"
    using at by (simp only: insert_target_def)
  show ?thesis
  proof (cases out)
    case (Inl e)
    then have "r = Inl e" "a' = a1" using assms Inr p at' by (simp_all add: ch_insert_def)
    with applied keeps Inl show ?thesis using rows_in_append [of a1 a "[]" tbl] by auto
  next
    case (Inr dur)
    then have r: "r = Inr ()" and a': "applied a' = applied a1" "api_database a' = api_database a1" "api_cluster a' = api_cluster a1"
      using assms \<open>versioned _ _ _ _ = Inr p\<close> p at' by (auto simp: ch_insert_def Let_def set_last_used_version_def applied_def)
    have "rows_in a' tbl = rows_in a tbl @ map butlast rows"
      using applied keeps Inr a' by (subst rows_in_append [of a' a "[?call]"]) auto
    with r versioned_rows [OF \<open>versioned _ _ _ _ = Inr p\<close> [unfolded p]] show ?thesis by blast
  qed
qed

section \<open>Calls to MySQL\<close>

text \<open>
  How a call uses up answers of the server: at most \<open>n\<close> of them, and it does not raise when there
  are as many and none of them does.
\<close>

definition answering :: "answer list \<Rightarrow> bool" where
  "answering fs \<longleftrightarrow> (\<forall>f \<in> set fs. \<forall>c. \<exists>rs. f c = Inr rs)"

definition uses :: "nat \<Rightarrow> (mysql_api, 'a) act \<Rightarrow> bool" where
  "uses n m \<longleftrightarrow> (\<forall>a. \<exists>k \<le> n. my_answers (snd (m a)) = drop k (my_answers a)
      \<and> (n \<le> length (my_answers a) \<longrightarrow> answering (my_answers a) \<longrightarrow> (\<exists>x. fst (m a) = Inr x)))"

lemma answering_drop: "answering fs \<Longrightarrow> answering (drop k fs)"
  by (auto simp: answering_def dest: in_set_dropD)

lemma uses_bindA:
  assumes "uses n m" "\<And>x. uses k (f x)"
  shows "uses (n + k) (bindA m f)"
  unfolding uses_def
proof
  fix a :: mysql_api
  let ?fs = "my_answers a"
  obtain i where i: "i \<le> n" "my_answers (snd (m a)) = drop i ?fs"
    "n \<le> length ?fs \<longrightarrow> answering ?fs \<longrightarrow> (\<exists>x. fst (m a) = Inr x)"
    using assms(1) unfolding uses_def by blast
  show "\<exists>j \<le> n + k. my_answers (snd (bindA m f a)) = drop j ?fs
      \<and> (n + k \<le> length ?fs \<longrightarrow> answering ?fs \<longrightarrow> (\<exists>x. fst (bindA m f a) = Inr x))"
  proof (cases "fst (m a)")
    case (Inl e)
    then have "bindA m f a = (Inl e, snd (m a))" by (cases "m a") (simp add: bindA_def)
    with i Inl show ?thesis by (intro exI [of _ i]) auto
  next
    case (Inr x)
    then have b: "bindA m f a = f x (snd (m a))" by (cases "m a") (simp add: bindA_def)
    obtain j where j: "j \<le> k" "my_answers (snd (f x (snd (m a)))) = drop j (drop i ?fs)"
      "k \<le> length (drop i ?fs) \<longrightarrow> answering (drop i ?fs) \<longrightarrow> (\<exists>y. fst (f x (snd (m a))) = Inr y)"
      using assms(2) [of x] i(2) unfolding uses_def by metis
    show ?thesis
    proof (intro exI [of _ "i + j"] conjI impI)
      assume "n + k \<le> length ?fs" "answering ?fs"
      with j(3) i(1) answering_drop [of ?fs i] show "\<exists>y. fst (bindA m f a) = Inr y" using b by auto
    qed (use i j b in \<open>auto simp: add.commute\<close>)
  qed
qed

lemma uses_mono: "uses n m \<Longrightarrow> n \<le> k \<Longrightarrow> uses k m"
  unfolding uses_def by (metis le_trans)

lemma uses_quiet: "(\<And>a. my_answers (snd (m a)) = my_answers a \<and> (\<exists>x. fst (m a) = Inr x)) \<Longrightarrow> uses n m"
  unfolding uses_def by (metis drop0 le0)

lemma uses_my_do: "uses 1 (my_do c)"
  unfolding uses_def
proof
  fix a :: mysql_api
  show "\<exists>k \<le> 1. my_answers (snd (my_do c a)) = drop k (my_answers a)
      \<and> (1 \<le> length (my_answers a) \<longrightarrow> answering (my_answers a) \<longrightarrow> (\<exists>x. fst (my_do c a) = Inr x))"
    by (cases "my_answers a") (auto simp: my_do_def answering_def Let_def intro: exI [of _ 0] exI [of _ 1])
qed

lemma uses_retA: "uses n (retA x)" "uses n (modifyA (\<lambda>a. a\<lparr>last_connect_time := t\<rparr>))" "uses n my_time"
  by (rule uses_quiet, auto simp: retA_def modifyA_def my_time_def split: list.split)+

lemma uses_run_statement: "uses 1 (run_statement q)"
  using uses_bindA [OF uses_my_do uses_retA(1) [of 0], of "Execute q" "\<lambda>_. ()"]
  by (simp add: run_statement_def fetch_def)

lemma uses_connect: "uses 2 connect"
  unfolding uses_def
proof
  fix a :: mysql_api
  let ?c = "Connect (my_charset a) (if my_charset a = VStr ''utf8mb4'' then Some ''utf8mb4_unicode_ci'' else None)"
  let ?again = "bindA (my_do (Connect (VStr ''utf8mb4'') (Some ''utf8mb4_general_ci''))) (\<lambda>_. retA ())"
  obtain i where i: "i \<le> 1" "my_answers (snd (my_do ?c a)) = drop i (my_answers a)"
    "1 \<le> length (my_answers a) \<longrightarrow> answering (my_answers a) \<longrightarrow> (\<exists>x. fst (my_do ?c a) = Inr x)"
    using uses_my_do unfolding uses_def by blast
  have "uses (1 + 0) ?again" by (rule uses_bindA [OF uses_my_do uses_retA(1)])
  then obtain j where j: "j \<le> 1" "my_answers (snd (?again (snd (my_do ?c a)))) = drop j (drop i (my_answers a))"
    using i(2) unfolding uses_def by (metis One_nat_def add.right_neutral)
  show "\<exists>k \<le> 2. my_answers (snd (connect a)) = drop k (my_answers a)
      \<and> (2 \<le> length (my_answers a) \<longrightarrow> answering (my_answers a) \<longrightarrow> (\<exists>x. fst (connect a) = Inr x))"
  proof (cases "my_do ?c a")
    case (Pair r a1)
    show ?thesis
    proof (cases r)
      case (Inr x)
      with Pair i show ?thesis by (intro exI [of _ i]) (simp add: connect_def)
    next
      case (Inl e)
      with Pair i(3) have no: "\<not> (2 \<le> length (my_answers a) \<and> answering (my_answers a))" by auto
      show ?thesis
      proof (cases "unknown_collation e")
        case True
        with Pair Inl have "connect a = ?again a1" by (simp add: connect_def)
        with Pair i(1) j no show ?thesis by (intro exI [of _ "i + j"]) (auto simp: add.commute)
      next
        case False
        with Pair Inl have "connect a = (Inl e, a1)" by (simp add: connect_def)
        with Pair i(1,2) no show ?thesis by (intro exI [of _ i]) auto
      qed
    qed
  qed
qed

lemma uses_state: "(\<And>a. uses n (f a)) \<Longrightarrow> uses n (\<lambda>a. f a a)"
  unfolding uses_def by blast

lemma uses_use_database: "uses 1 use_database"
proof -
  have "uses 1 (case my_database a of None \<Rightarrow> retA () | Some db \<Rightarrow> run_statement (''USE '' @ ticked db))" for a :: mysql_api
    by (cases "my_database a") (simp_all add: uses_retA uses_run_statement [unfolded One_nat_def])
  then have "uses 1 (\<lambda>a. (case my_database a of None \<Rightarrow> retA () | Some db \<Rightarrow> run_statement (''USE '' @ ticked db)) a)"
    by (rule uses_state)
  moreover have "use_database = (\<lambda>a. (case my_database a of None \<Rightarrow> retA () | Some db \<Rightarrow> run_statement (''USE '' @ ticked db)) a)"
    by (rule ext) (simp add: use_database_def retA_def split: option.split)
  ultimately show ?thesis by simp
qed

lemma uses_reconnect: "uses 4 (reconnect_if_required force)"
proof -
  let ?tz = "\<lambda>a::mysql_api. if my_timezone a \<noteq> [] \<and> my_timezone a \<noteq> ''UTC''
    then run_statement (''SET time_zone = '' @ [squote] @ my_timezone a @ [squote]) else retA ()"
  let ?go = "\<lambda>t a. bindA connect (\<lambda>_. bindA (?tz a) (\<lambda>_. bindA use_database (\<lambda>_. modifyA (\<lambda>a. a\<lparr>last_connect_time := t\<rparr>))))"
  have "uses 1 (?tz a)" for a by (simp add: uses_retA uses_run_statement [unfolded One_nat_def])
  then have "uses (2 + (1 + (1 + 0))) (?go t a)" for t a
    by (intro uses_bindA uses_connect uses_use_database uses_retA)
  then have "uses 4 (if t - last_connect_time a < RECONNECT_INTERVAL \<and> \<not> force then retA () else ?go t a)" for t and a :: mysql_api
    by (simp add: uses_retA)
  then have step: "uses 4 (\<lambda>a. (if t - last_connect_time a < RECONNECT_INTERVAL \<and> \<not> force then retA () else ?go t a) a)" for t
    by (rule uses_state)
  have "uses (0 + 4) (bindA my_time (\<lambda>t a. (if t - last_connect_time a < RECONNECT_INTERVAL \<and> \<not> force then retA () else ?go t a) a))"
    by (intro uses_bindA uses_retA step)
  moreover have "reconnect_if_required force =
      bindA my_time (\<lambda>t a. (if t - last_connect_time a < RECONNECT_INTERVAL \<and> \<not> force then retA () else ?go t a) a)"
    unfolding reconnect_if_required_def by (intro arg_cong [of _ _ "bindA my_time"] ext) (simp add: retA_def)
  ultimately show ?thesis by simp
qed

text \<open>A page is the answer of one call behind a connection that may have been renewed.\<close>

lemma get_records_answers:
  assumes "get_records lib t order_by limit start wid n a = (r, a')"
  shows "\<exists>k \<le> 5. my_answers a' = drop k (my_answers a)
    \<and> (5 \<le> length (my_answers a) \<longrightarrow> answering (my_answers a) \<longrightarrow> (\<exists>rs. r = Inr rs))
    \<and> (\<forall>rs. r = Inr rs \<longrightarrow> 0 < k \<and> (\<exists>f \<in> set (my_answers a). f (Execute (records_query lib t order_by limit start wid n)) = Inr rs))"
proof -
  let ?q = "Execute (records_query lib t order_by limit start wid n)"
  obtain i where i: "i \<le> 4" "my_answers (snd (reconnect_if_required False a)) = drop i (my_answers a)"
    "4 \<le> length (my_answers a) \<longrightarrow> answering (my_answers a) \<longrightarrow> (\<exists>x. fst (reconnect_if_required False a) = Inr x)"
    using uses_reconnect [of False] unfolding uses_def by blast
  show ?thesis
  proof (cases "reconnect_if_required False a")
    case (Pair x a1)
    show ?thesis
    proof (cases x)
      case (Inl e)
      with Pair assms have "r = Inl e" "a' = a1" by (simp_all add: get_records_def bindA_def)
      with Pair i Inl show ?thesis by (intro exI [of _ i]) auto
    next
      case (Inr u)
      with Pair assms have d: "my_do ?q a1 = (r, a')" by (simp add: get_records_def fetch_def bindA_def)
      show ?thesis
      proof (cases "drop i (my_answers a)")
        case Nil
        with d Pair i show ?thesis by (intro exI [of _ i]) (auto simp: my_do_def)
      next
        case (Cons f fs)
        then have "f \<in> set (my_answers a)" "fs = drop (Suc i) (my_answers a)"
          by (metis in_set_dropD list.set_intros(1), metis drop_Suc list.sel(3) tl_drop)
        with d Pair i Cons show ?thesis
          by (intro exI [of _ "Suc i"]) (auto simp: my_do_def answering_def)
      qed
    qed
  qed
qed

section \<open>One round\<close>

lemma convert_records_rows:
  "convert_records (rx_lib (ix_rt cx)) rs (cp_mysql cp) (cp_clickhouse cp) False = mapE (convert_row cx cp) rs"
  by (simp add: convert_records_def convert_row_def [abs_def])

lemma read_page_cases:
  assumes "read_page cx cp key s = (r, s')"
  obtains a k where "s' = s\<lparr>in_mysql := a\<rparr>" "k \<le> 5" "my_answers a = drop k (my_answers (in_mysql s))"
    "\<And>recs. r = Inr recs \<Longrightarrow> 0 < k \<and> (\<exists>f \<in> set (my_answers (in_mysql s)). \<exists>rows.
        f (Execute (page_query cx cp key)) = Inr rows \<and> mapE (convert_row cx cp) rows = Inr recs)"
    "5 \<le> length (my_answers (in_mysql s)) \<Longrightarrow> answering (my_answers (in_mysql s)) \<Longrightarrow>
       \<exists>f \<in> set (my_answers (in_mysql s)). \<exists>rows. f (Execute (page_query cx cp key)) = Inr rows \<and> r = mapE (convert_row cx cp) rows"
proof -
  let ?get = "get_records (rx_lib (ix_rt cx)) (cp_table cp) (primary_keys (cp_clickhouse cp)) (batch_size cx)
      (query_start_values (rx_lib (ix_rt cx)) (cp_key_types cp) key) (ix_worker_id cx) (ix_total_workers cx)"
  obtain r1 a where g: "?get (in_mysql s) = (r1, a)" by fastforce
  from get_records_answers [OF g] obtain k where k: "k \<le> 5" "my_answers a = drop k (my_answers (in_mysql s))"
    "5 \<le> length (my_answers (in_mysql s)) \<longrightarrow> answering (my_answers (in_mysql s)) \<longrightarrow> (\<exists>rs. r1 = Inr rs)"
    "\<forall>rs. r1 = Inr rs \<longrightarrow> 0 < k \<and> (\<exists>f \<in> set (my_answers (in_mysql s)). f (Execute (page_query cx cp key)) = Inr rs)"
    unfolding page_query_def by blast
  have r: "r = bindE r1 (mapE (convert_row cx cp))" and s': "s' = s\<lparr>in_mysql := a\<rparr>"
    using assms g by (auto simp: read_page_def in_on_mysql_def bindA_def liftA_def convert_records_rows split: sum.splits)
  show ?thesis
  proof (rule that [OF s' k(1,2)])
    show "0 < k \<and> (\<exists>f \<in> set (my_answers (in_mysql s)). \<exists>rows.
        f (Execute (page_query cx cp key)) = Inr rows \<and> mapE (convert_row cx cp) rows = Inr recs)" if "r = Inr recs" for recs
      using that r k(4) by (simp add: res_simps) blast
    show "\<exists>f \<in> set (my_answers (in_mysql s)). \<exists>rows. f (Execute (page_query cx cp key)) = Inr rows \<and> r = mapE (convert_row cx cp) rows"
      if "5 \<le> length (my_answers (in_mysql s))" "answering (my_answers (in_mysql s))"
    proof -
      from that k(3) obtain rs where "r1 = Inr rs" by blast
      moreover from this k(4) obtain f where "f \<in> set (my_answers (in_mysql s))" "f (Execute (page_query cx cp key)) = Inr rs" by blast
      ultimately show ?thesis using r by (intro bexI [of _ f] exI [of _ rs]) simp_all
    qed
  qed
qed

definition same_data :: "initial \<Rightarrow> initial \<Rightarrow> bool" where
  "same_data s s' \<longleftrightarrow> in_rep s' = in_rep s \<and> in_state s' = in_state s \<and> in_mysql s' = in_mysql s"

lemma in_time_frame: "\<exists>t c. in_time s = (Inr t, s\<lparr>in_clock := c\<rparr>)"
proof (cases "in_clock s")
  case Nil
  then have "in_time s = (Inr 0, s\<lparr>in_clock := []\<rparr>)" by (simp add: in_time_def)
  then show ?thesis by blast
qed (auto simp: in_time_def)

lemma prevent_binlog_removal_frame:
  "\<exists>s'. prevent_binlog_removal s = (Inr (), s') \<and> same_data s s' \<and> in_saved s' = in_saved s"
proof -
  obtain t c where 1: "in_time s = (Inr t, s\<lparr>in_clock := c\<rparr>)" using in_time_frame by blast
  obtain t2 c2 where 2: "in_time (s\<lparr>in_clock := c\<rparr>) = (Inr t2, s\<lparr>in_clock := c2\<rparr>)"
    using in_time_frame [of "s\<lparr>in_clock := c\<rparr>"] by auto
  obtain t3 c3 where 3: "in_time (s\<lparr>in_clock := c2, last_touch_time := t2\<rparr>) = (Inr t3, s\<lparr>last_touch_time := t2, in_clock := c3\<rparr>)"
    using in_time_frame [of "s\<lparr>in_clock := c2, last_touch_time := t2\<rparr>"] by auto
  show ?thesis
    using 1 2 3 by (cases "in_relay s") (auto simp: prevent_binlog_removal_def bindA_def modifyA_def touch_all_files_def same_data_def)
qed

lemma initial_save_frame:
  "\<exists>s'. initial_save_state_if_required force s = (Inr (), s') \<and> same_data s s'
    \<and> (in_saved s' = in_saved s \<and> \<not> force \<or> (\<exists>v d. in_saved s' = Some (db_state_save (in_state s) v d)))"
proof -
  obtain t c where "in_time s = (Inr t, s\<lparr>in_clock := c\<rparr>)" using in_time_frame by blast
  then show ?thesis
    by (auto simp: initial_save_state_if_required_def bindA_def modifyA_def state_save_def same_data_def)
qed

definition rows_at :: "init_context \<Rightarrow> copy_plan \<Rightarrow> initial \<Rightarrow> row list" where
  "rows_at cx cp s = rows_in (ch_api (in_rep s)) (target_name (ix_rt cx) (cp_table cp))"

lemma rows_at_same: "same_data s s' \<Longrightarrow> rows_at cx cp s' = rows_at cx cp s"
  by (simp add: rows_at_def same_data_def)

lemma store_page_cases:
  assumes "store_page cx cp recs s = (r, s')"
  shows "in_mysql s' = in_mysql s \<and>
    ((\<exists>e vs. r = Inl e \<and> in_state s' = in_state s \<and> in_saved s' = in_saved s \<and> rows_at cx cp s' = rows_at cx cp s @ vs)
     \<or> (\<exists>vs key. r = Inr key \<and> mapE (insert_row cx cp) recs = Inr vs \<and> get_last_record_primary_key recs (cp_key_ids cp) = Inr key
          \<and> rows_at cx cp s' = rows_at cx cp s @ vs \<and> in_state s' = (in_state s)\<lparr>initial_replication_max_primary_key := Some key\<rparr>
          \<and> (in_saved s' = in_saved s \<or> (\<exists>v d. in_saved s' = Some (db_state_save (in_state s') v d)))))"
proof -
  let ?ins = "ch_insert (rx_timestamp_ok (ix_rt cx)) (target_name (ix_rt cx) (cp_table cp)) recs (Some (cp_clickhouse cp))"
  obtain r1 a where i: "?ins (ch_api (in_rep s)) = (r1, a)" by fastforce
  let ?s1 = "s\<lparr>in_rep := (in_rep s)\<lparr>ch_api := a\<rparr>\<rparr>"
  have ia: "in_on_api ?ins s = (r1, ?s1)" using i by (simp add: in_on_api_def in_on_rep_def on_api_def)
  from ch_insert_rows [OF i] consider
      (fail) e where "r1 = Inl e" "rows_at cx cp ?s1 = rows_at cx cp s"
    | (ok) vs where "r1 = Inr ()" "mapE (insert_row cx cp) recs = Inr vs" "rows_at cx cp ?s1 = rows_at cx cp s @ vs"
    by (auto simp: rows_at_def insert_row_def)
  then show ?thesis
  proof cases
    case fail
    with assms ia show ?thesis by (auto simp: store_page_def bindA_def)
  next
    case ok
    show ?thesis
    proof (cases "get_last_record_primary_key recs (cp_key_ids cp)")
      case (Inl e)
      with assms ia ok(1) have "r = Inl e" "s' = ?s1" by (simp_all add: store_page_def bindA_def liftA_def)
      with ok(3) show ?thesis by (intro conjI disjI1 exI [of _ e] exI [of _ vs]) simp_all
    next
      case (Inr key)
      let ?s2 = "?s1\<lparr>in_state := (in_state s)\<lparr>initial_replication_max_primary_key := Some key\<rparr>\<rparr>"
      obtain s3 where s3: "initial_save_state_if_required False ?s2 = (Inr (), s3)" "same_data ?s2 s3"
        "in_saved s3 = in_saved s \<or> (\<exists>v d. in_saved s3 = Some (db_state_save (in_state ?s2) v d))"
        using initial_save_frame [of False ?s2] by auto
      obtain s4 where s4: "prevent_binlog_removal s3 = (Inr (), s4)" "same_data s3 s4" "in_saved s4 = in_saved s3"
        using prevent_binlog_removal_frame by blast
      have r: "r = Inr key" "s' = s4"
        using assms ia ok Inr s3(1) s4(1) by (simp_all add: store_page_def bindA_def liftA_def on_state_def modifyA_def retA_def)
      have "rows_at cx cp s4 = rows_at cx cp ?s1"
        using s3(2) s4(2) by (simp add: rows_at_def same_data_def)
      with ok Inr r s3 s4 show ?thesis by (auto simp: same_data_def)
    qed
  qed
qed

section \<open>What is safe to resume from\<close>

text \<open>Rows that stay in the table, up to a row, are in ClickHouse.\<close>

definition kept :: "init_context \<Rightarrow> copy_plan \<Rightarrow> (row \<Rightarrow> 'o::linorder) \<Rightarrow> row set \<Rightarrow> row option \<Rightarrow> initial \<Rightarrow> bool" where
  "kept cx cp w stay start s \<longleftrightarrow>
    (\<forall>r \<in> stay. \<not> row_above w start r \<longrightarrow> (\<exists>v. stored_row cx cp r = Inr v \<and> v \<in> set (rows_at cx cp s)))"

definition resumes_at :: "init_context \<Rightarrow> copy_plan \<Rightarrow> (row \<Rightarrow> 'o::linorder) \<Rightarrow> row set \<Rightarrow> row set \<Rightarrow> py_val list option \<Rightarrow> initial \<Rightarrow> bool" where
  "resumes_at cx cp w R stay key s \<longleftrightarrow>
    (\<exists>start. set_option start \<subseteq> R \<and> start_key cx cp start key \<and> kept cx cp w stay start s)"

text \<open>The key of the state, in memory and in its file, when it is for this table.\<close>

definition copy_inv :: "init_context \<Rightarrow> copy_plan \<Rightarrow> (row \<Rightarrow> 'o::linorder) \<Rightarrow> row set \<Rightarrow> row set \<Rightarrow> initial \<Rightarrow> bool" where
  "copy_inv cx cp w R stay s \<longleftrightarrow>
    (initial_replication_table (in_state s) = Some (cp_table cp)
       \<longrightarrow> resumes_at cx cp w R stay (initial_replication_max_primary_key (in_state s)) s)
    \<and> (\<forall>d. in_saved s = Some d \<longrightarrow> saved_table d = Some (cp_table cp) \<longrightarrow> resumes_at cx cp w R stay (saved_max_primary_key d) s)"

lemma kept_mono: "kept cx cp w stay start s \<Longrightarrow> set (rows_at cx cp s) \<subseteq> set (rows_at cx cp s') \<Longrightarrow> kept cx cp w stay start s'"
  unfolding kept_def by blast

lemma resumes_mono:
  "resumes_at cx cp w R stay key s \<Longrightarrow> set (rows_at cx cp s) \<subseteq> set (rows_at cx cp s') \<Longrightarrow> resumes_at cx cp w R stay key s'"
  unfolding resumes_at_def using kept_mono by blast

lemma resumes_None: "resumes_at cx cp w R stay None s"
  by (auto simp: resumes_at_def start_key_def kept_def row_above_def intro!: exI [of _ None])

lemma copy_inv_same: "copy_inv cx cp w R stay s \<Longrightarrow> same_data s s' \<Longrightarrow> in_saved s' = in_saved s \<Longrightarrow> copy_inv cx cp w R stay s'"
  unfolding copy_inv_def same_data_def by (auto intro: resumes_mono [of cx cp w R stay _ s s'] simp: rows_at_def)

lemma mapE_last: "mapE f xs = Inr ys \<Longrightarrow> xs \<noteq> [] \<Longrightarrow> ys \<noteq> [] \<and> f (last xs) = Inr (last ys)"
  by (induction xs arbitrary: ys) (auto simp: res_simps)

lemma mapE_mem: "mapE f xs = Inr ys \<Longrightarrow> x \<in> set xs \<Longrightarrow> \<exists>y \<in> set ys. f x = Inr y"
  by (induction xs arbitrary: ys) (auto simp: res_simps)

text \<open>Behind a stored page everything up to its last row is there.\<close>

lemma page_kept:
  assumes "displays cx cp w R snap f" "stay \<subseteq> set snap" and rows: "rows = page_of cx w start snap" "rows \<noteq> []"
    and conv: "mapE (convert_row cx cp) rows = Inr recs" "mapE (insert_row cx cp) recs = Inr vs"
    and key: "get_last_record_primary_key recs (cp_key_ids cp) = Inr key"
    and "kept cx cp w stay start s" "rows_at cx cp s' = rows_at cx cp s @ vs"
  shows "last rows \<in> R \<and> start_key cx cp (Some (last rows)) (Some key) \<and> kept cx cp w stay (Some (last rows)) s'"
proof -
  have snap: "sorted_wrt (\<lambda>a b. w a < w b) snap" "set snap \<subseteq> R" using assms(1) by (simp_all add: displays_def)
  have "last rows \<in> set rows" using rows(2) by simp
  then have "last rows \<in> R" using page_above snap(2) rows(1) by blast
  moreover have "start_key cx cp (Some (last rows)) (Some key)"
    using mapE_last [OF conv(1) rows(2)] key
    by (auto simp: start_key_def copied_key_def get_last_record_primary_key_def lastE_def)
  moreover have "kept cx cp w stay (Some (last rows)) s'"
    unfolding kept_def
  proof (intro ballI impI)
    fix r assume r: "r \<in> stay" "\<not> row_above w (Some (last rows)) r"
    show "\<exists>v. stored_row cx cp r = Inr v \<and> v \<in> set (rows_at cx cp s')"
    proof (cases "row_above w start r")
      case True
      then have "r \<in> set rows"
        using page_covers [OF snap(1), of cx start r] r rows assms(2) by (auto simp: row_above_def)
      then obtain c where c: "c \<in> set recs" "convert_row cx cp r = Inr c" using mapE_mem [OF conv(1)] by blast
      then obtain v where "v \<in> set vs" "insert_row cx cp c = Inr v" using mapE_mem [OF conv(2)] by blast
      with c assms(9) show ?thesis by (auto simp: stored_row_def)
    next
      case False
      with assms(8,9) r(1) show ?thesis by (auto simp: kept_def)
    qed
  qed
  ultimately show ?thesis by blast
qed

definition all_stored :: "init_context \<Rightarrow> copy_plan \<Rightarrow> row set \<Rightarrow> initial \<Rightarrow> bool" where
  "all_stored cx cp stay s \<longleftrightarrow> (\<forall>r \<in> stay. \<exists>v. stored_row cx cp r = Inr v \<and> v \<in> set (rows_at cx cp s))"

definition server_shows :: "init_context \<Rightarrow> copy_plan \<Rightarrow> (row \<Rightarrow> 'o::linorder) \<Rightarrow> row set \<Rightarrow> row set \<Rightarrow> initial \<Rightarrow> bool" where
  "server_shows cx cp w R stay s \<longleftrightarrow>
    (\<forall>f \<in> set (my_answers (in_mysql s)). \<exists>snap. displays cx cp w R snap f \<and> stay \<subseteq> set snap)"

lemma copy_inv_stored:
  assumes "copy_inv cx cp w R stay s" "store_page cx cp recs s = (r, s')"
    and "initial_replication_table (in_state s) = Some (cp_table cp)"
    and "\<And>key. r = Inr key \<Longrightarrow> resumes_at cx cp w R stay (Some key) s'"
  shows "copy_inv cx cp w R stay s' \<and> initial_replication_table (in_state s') = Some (cp_table cp)"
proof -
  from store_page_cases [OF assms(2)] consider
      (fail) e vs where "r = Inl e" "in_state s' = in_state s" "in_saved s' = in_saved s" "rows_at cx cp s' = rows_at cx cp s @ vs"
    | (ok) vs key where "r = Inr key" "rows_at cx cp s' = rows_at cx cp s @ vs"
        "in_state s' = (in_state s)\<lparr>initial_replication_max_primary_key := Some key\<rparr>"
        "in_saved s' = in_saved s \<or> (\<exists>v d. in_saved s' = Some (db_state_save (in_state s') v d))"
    by blast
  then show ?thesis
  proof cases
    case fail
    then show ?thesis using assms(1,3) by (auto simp: copy_inv_def intro: resumes_mono [of cx cp w R stay _ s s'])
  next
    case ok
    have old: "resumes_at cx cp w R stay k s \<Longrightarrow> resumes_at cx cp w R stay k s'" for k
      using ok(2) by (auto intro: resumes_mono)
    have new: "resumes_at cx cp w R stay (Some key) s'" using assms(4) ok(1) by simp
    have "resumes_at cx cp w R stay (saved_max_primary_key d) s'" if "in_saved s' = Some d" "saved_table d = Some (cp_table cp)" for d
      using ok(4)
    proof
      assume "in_saved s' = in_saved s"
      with that assms(1) old show ?thesis by (simp add: copy_inv_def)
    next
      assume "\<exists>v t. in_saved s' = Some (db_state_save (in_state s') v t)"
      with that ok(3) new show ?thesis by (auto simp: db_state_save_def)
    qed
    with new ok(3) assms(3) show ?thesis by (simp add: copy_inv_def)
  qed
qed

section \<open>The loop\<close>

text \<open>A page that was read, and what its rows are.\<close>

lemma read_page_shows:
  assumes "read_page cx cp key s = (Inr recs, s1)" "server_shows cx cp w R stay s"
    and "set_option start \<subseteq> R" "start_key cx cp start key"
  obtains f snap where "displays cx cp w R snap f" "stay \<subseteq> set snap"
    "mapE (convert_row cx cp) (page_of cx w start snap) = Inr recs"
proof -
  obtain f rows where f: "f \<in> set (my_answers (in_mysql s))" "f (Execute (page_query cx cp key)) = Inr rows"
      "mapE (convert_row cx cp) rows = Inr recs"
    using read_page_cases [OF assms(1)] by blast
  with assms(2) obtain snap where "displays cx cp w R snap f" "stay \<subseteq> set snap" unfolding server_shows_def by blast
  moreover from this f(2) assms(3,4) have "rows = page_of cx w start snap" unfolding displays_def by blast
  ultimately show ?thesis using that f(3) by blast
qed

lemma read_page_server: "read_page cx cp key s = (r, s1) \<Longrightarrow> server_shows cx cp w R stay s \<Longrightarrow> server_shows cx cp w R stay s1"
  by (erule read_page_cases) (auto simp: server_shows_def dest: in_set_dropD)

lemma read_page_inv:
  "read_page cx cp key s = (r, s1) \<Longrightarrow> copy_inv cx cp w R stay s \<Longrightarrow>
   copy_inv cx cp w R stay s1 \<and> in_state s1 = in_state s \<and> rows_at cx cp s1 = rows_at cx cp s"
  by (erule read_page_cases) (auto simp: copy_inv_def rows_at_def intro: resumes_mono)

text \<open>The state between two rounds: everything up to the row to start behind is stored.\<close>

definition round_inv :: "init_context \<Rightarrow> copy_plan \<Rightarrow> (row \<Rightarrow> 'o::linorder) \<Rightarrow> row set \<Rightarrow> row set \<Rightarrow> py_val list option \<Rightarrow> initial \<Rightarrow> bool" where
  "round_inv cx cp w R stay key s \<longleftrightarrow>
    server_shows cx cp w R stay s \<and> copy_inv cx cp w R stay s
    \<and> initial_replication_table (in_state s) = Some (cp_table cp) \<and> resumes_at cx cp w R stay key s"

lemma last_page_safe:
  assumes "read_page cx cp key s = (Inr [], s1)" "round_inv cx cp w R stay key s" "0 < batch_size cx"
  shows "all_stored cx cp stay s1"
proof -
  obtain start where start: "set_option start \<subseteq> R" "start_key cx cp start key" "kept cx cp w stay start s"
    using assms(2) by (auto simp: round_inv_def resumes_at_def)
  have srv: "server_shows cx cp w R stay s" using assms(2) by (simp add: round_inv_def)
  obtain f snap where d: "stay \<subseteq> set snap" "mapE (convert_row cx cp) (page_of cx w start snap) = Inr []"
    using read_page_shows [OF assms(1) srv start(1,2)] by blast
  then have "page_of cx w start snap = []" using mapE_Inr_length by fastforce
  then have "\<forall>x \<in> stay. \<not> row_above w start x" using page_empty assms(3) d(1) by blast
  moreover have "rows_at cx cp s1 = rows_at cx cp s" using read_page_inv [OF assms(1)] assms(2) by (auto simp: round_inv_def)
  ultimately show ?thesis using start(3) by (simp add: kept_def all_stored_def)
qed

lemma page_safe:
  assumes p: "read_page cx cp key s = (Inr recs, s1)" and "recs \<noteq> []" and st: "store_page cx cp recs s1 = (r, s2)"
    and inv: "round_inv cx cp w R stay key s"
  shows "copy_inv cx cp w R stay s2 \<and> (\<forall>key'. r = Inr key' \<longrightarrow> round_inv cx cp w R stay (Some key') s2)"
proof -
  obtain start where start: "set_option start \<subseteq> R" "start_key cx cp start key" "kept cx cp w stay start s"
    using inv by (auto simp: round_inv_def resumes_at_def)
  have srv: "server_shows cx cp w R stay s" and inv0: "copy_inv cx cp w R stay s" using inv by (simp_all add: round_inv_def)
  note inv1 = read_page_inv [OF p inv0]
  obtain f snap where d: "displays cx cp w R snap f" "stay \<subseteq> set snap"
    "mapE (convert_row cx cp) (page_of cx w start snap) = Inr recs"
    using read_page_shows [OF p srv start(1,2)] by blast
  have kept1: "kept cx cp w stay start s1" using start(3) inv1 by (simp add: kept_def)
  have page: "page_of cx w start snap \<noteq> []" using assms(2) d(3) by auto
  have res: "resumes_at cx cp w R stay (Some key') s2" if r: "r = Inr key'" for key'
  proof -
    obtain vs where "mapE (insert_row cx cp) recs = Inr vs" "get_last_record_primary_key recs (cp_key_ids cp) = Inr key'"
      "rows_at cx cp s2 = rows_at cx cp s1 @ vs" using store_page_cases [OF st] r by auto
    then show ?thesis
      unfolding resumes_at_def using page_kept [OF d(1,2) refl page d(3) _ _ kept1]
      by (intro exI [of _ "Some (last (page_of cx w start snap))"]) simp
  qed
  have "initial_replication_table (in_state s1) = Some (cp_table cp)" using inv inv1 by (simp add: round_inv_def)
  then have "copy_inv cx cp w R stay s2 \<and> initial_replication_table (in_state s2) = Some (cp_table cp)"
    using inv1 res by (intro copy_inv_stored [OF _ st]) auto
  moreover have "server_shows cx cp w R stay s2"
    using read_page_server [OF p srv] store_page_cases [OF st] by (simp add: server_shows_def)
  ultimately show ?thesis using res by (simp add: round_inv_def)
qed

lemma round_inv_clock: "round_inv cx cp w R stay key s \<Longrightarrow> round_inv cx cp w R stay key (s\<lparr>in_clock := c\<rparr>)"
  using copy_inv_same [of cx cp w R stay s "s\<lparr>in_clock := c\<rparr>"] resumes_mono [of cx cp w R stay key s "s\<lparr>in_clock := c\<rparr>"]
  by (simp add: round_inv_def server_shows_def same_data_def rows_at_def)

lemma copy_loop_safe:
  assumes "copy_loop n cx cp key count s = (r, s')" "round_inv cx cp w R stay key s" "0 < batch_size cx"
  shows "copy_inv cx cp w R stay s' \<and> (r = Inr True \<longrightarrow> all_stored cx cp stay s')
    \<and> (ix_test_fail_records cx = None \<longrightarrow> r \<noteq> Inr False)"
  using assms
proof (induction n arbitrary: key count s)
  case 0
  then show ?case by (auto simp: raiseA_def round_inv_def)
next
  case (Suc n)
  obtain r1 s1 where p: "read_page cx cp key s = (r1, s1)" by fastforce
  have inv1: "copy_inv cx cp w R stay s1" using read_page_inv [OF p] Suc.prems(2) unfolding round_inv_def by blast
  consider (fail) e where "r1 = Inl e" | (empty) "r1 = Inr []" | (page) recs where "r1 = Inr recs" "recs \<noteq> []" by (cases r1) auto
  then show ?case
  proof cases
    case fail
    with Suc.prems(1) p inv1 show ?thesis by (auto simp: bindA_def)
  next
    case empty
    then have "r = Inr True" "s' = s1" using Suc.prems(1) p by (auto simp: bindA_def retA_def)
    with last_page_safe [of cx cp key s s1] Suc.prems(2,3) p empty inv1 show ?thesis by blast
  next
    case page
    obtain r2 s2 where st: "store_page cx cp recs s1 = (r2, s2)" by fastforce
    have inv2: "copy_inv cx cp w R stay s2 \<and> (\<forall>key'. r2 = Inr key' \<longrightarrow> round_inv cx cp w R stay (Some key') s2)"
      using page_safe p page st Suc.prems(2) by blast
    obtain t c where tm: "in_time s2 = (Inr t, s2\<lparr>in_clock := c\<rparr>)" using in_time_frame by blast
    show ?thesis
    proof (cases r2)
      case (Inl e)
      with Suc.prems(1) p page st inv2 show ?thesis by (auto simp: bindA_def)
    next
      case (Inr key')
      show ?thesis
      proof (cases "enough_records cx (count + length recs)")
        case True
        with Suc.prems(1) p page st Inr have "r = Inr False" "s' = s2" by (auto simp: bindA_def retA_def Let_def)
        with inv2 True show ?thesis by (auto simp: enough_records_def split: option.splits)
      next
        case False
        with Suc.prems(1) p page st Inr tm
        have "copy_loop n cx cp (Some key') (count + length recs) (s2\<lparr>in_clock := c\<rparr>) = (r, s')"
          by (auto simp: bindA_def Let_def)
        moreover have "round_inv cx cp w R stay (Some key') (s2\<lparr>in_clock := c\<rparr>)" using inv2 Inr by (intro round_inv_clock) simp
        ultimately show ?thesis using Suc.prems(3) by (rule Suc.IH)
      qed
    qed
  qed
qed

lemma start_copy_cases:
  assumes "copy_inv cx cp w R stay s" "server_shows cx cp w R stay s"
  shows "\<exists>key s1. start_copy (cp_table cp) s = (Inr key, s1) \<and> round_inv cx cp w R stay key s1
    \<and> in_rep s1 = in_rep s \<and> in_mysql s1 = in_mysql s
    \<and> key = (if initial_replication_table (in_state s) = Some (cp_table cp) then initial_replication_max_primary_key (in_state s) else None)"
proof (cases "initial_replication_table (in_state s) = Some (cp_table cp)")
  case True
  with assms show ?thesis by (auto simp: start_copy_def round_inv_def copy_inv_def)
next
  case False
  then show ?thesis
    using assms(2) resumes_None
    by (auto simp: start_copy_def on_state_def state_save_def bindA_def modifyA_def retA_def round_inv_def copy_inv_def server_shows_def db_state_save_def)
qed

lemma all_stored_mono: "all_stored cx cp stay s \<Longrightarrow> rows_at cx cp s' = rows_at cx cp s \<Longrightarrow> all_stored cx cp stay s'"
  by (simp add: all_stored_def)

lemma forced_save_inv:
  assumes "copy_inv cx cp w R stay s" "initial_save_state_if_required True s = (r, s')"
  shows "copy_inv cx cp w R stay s' \<and> rows_at cx cp s' = rows_at cx cp s \<and> r = Inr ()"
proof -
  obtain v d where s': "same_data s s'" "in_saved s' = Some (db_state_save (in_state s) v d)" "r = Inr ()"
    using initial_save_frame [of True s] assms(2) by auto
  have rows: "rows_at cx cp s' = rows_at cx cp s" using s'(1) by (rule rows_at_same)
  have "resumes_at cx cp w R stay k s \<Longrightarrow> resumes_at cx cp w R stay k s'" for k
    using rows by (auto intro: resumes_mono)
  with s' rows assms(1) show ?thesis by (auto simp: copy_inv_def same_data_def db_state_save_def)
qed

text \<open>The copy of a table is its loop, from the key it starts with.\<close>

lemma copy_table_loop:
  assumes "map_of (tables_structure (in_rep s)) t = Some p" "copy_plan_of t p = Inr cp"
    and inv: "copy_inv cx cp w R stay s" "server_shows cx cp w R stay s"
  obtains key s2 where "round_inv cx cp w R stay key s2" "in_rep s2 = in_rep s" "in_mysql s2 = in_mysql s"
    "key = (if initial_replication_table (in_state s) = Some t then initial_replication_max_primary_key (in_state s) else None)"
    "copy_table cx t s = (case copy_loop (Suc (length (my_answers (in_mysql s)))) cx cp key 0 s2 of
       (Inl e, s3) \<Rightarrow> (Inl e, s3) | (Inr fin, s3) \<Rightarrow> if fin then initial_save_state_if_required True s3 else (Inr (), s3))"
proof -
  have t: "cp_table cp = t" using assms(2) by (auto simp: copy_plan_of_def res_simps split: prod.splits option.splits)
  obtain key s1 where s1: "start_copy t s = (Inr key, s1)" "round_inv cx cp w R stay key s1" "in_rep s1 = in_rep s"
    "in_mysql s1 = in_mysql s"
    "key = (if initial_replication_table (in_state s) = Some t then initial_replication_max_primary_key (in_state s) else None)"
    using start_copy_cases [OF inv] t by blast
  obtain tm c where c: "in_time s1 = (Inr tm, s1\<lparr>in_clock := c\<rparr>)" using in_time_frame by blast
  show ?thesis
  proof (rule that [OF round_inv_clock [OF s1(2)] _ _ s1(5)])
    show "copy_table cx t s = (case copy_loop (Suc (length (my_answers (in_mysql s)))) cx cp key 0 (s1\<lparr>in_clock := c\<rparr>) of
       (Inl e, s3) \<Rightarrow> (Inl e, s3) | (Inr fin, s3) \<Rightarrow> if fin then initial_save_state_if_required True s3 else (Inr (), s3))"
      using assms(1,2) s1(1,3,4) c
      by (simp add: copy_table_def bindA_def liftA_def in_on_rep_def get_structures_def dict_get_def retA_def
          del: copy_loop.simps cong: if_cong split: sum.split prod.split)
  qed (use s1 in simp_all)
qed

text \<open>
  Whatever the servers answer, and whether the copy returns or raises, the key it leaves in the
  state and in the state file is safe to go on from; if it returns, all rows that stayed are in ClickHouse.
\<close>

lemma copy_table_safe:
  fixes w :: "row \<Rightarrow> 'o::linorder"
  assumes "copy_table cx t s = (r, s')"
    and "map_of (tables_structure (in_rep s)) t = Some p" "copy_plan_of t p = Inr cp"
    and "server_shows cx cp w R stay s" "0 < batch_size cx" "ix_test_fail_records cx = None"
    and "copy_inv cx cp w R stay s"
  shows "copy_inv cx cp w R stay s' \<and> (r = Inr () \<longrightarrow> all_stored cx cp stay s')"
proof -
  obtain key s2 where s2: "round_inv cx cp w R stay key s2"
    "copy_table cx t s = (case copy_loop (Suc (length (my_answers (in_mysql s)))) cx cp key 0 s2 of
       (Inl e, s3) \<Rightarrow> (Inl e, s3) | (Inr fin, s3) \<Rightarrow> if fin then initial_save_state_if_required True s3 else (Inr (), s3))"
    by (rule copy_table_loop [OF assms(2,3,7,4)])
  obtain r3 s3 where loop: "copy_loop (Suc (length (my_answers (in_mysql s)))) cx cp key 0 s2 = (r3, s3)" by fastforce
  note safe = copy_loop_safe [OF loop s2(1) assms(5)]
  show ?thesis
  proof (cases r3)
    case (Inl e)
    with assms(1) s2(2) loop have "r = Inl e" "s' = s3" by (simp_all del: copy_loop.simps)
    with safe show ?thesis by simp
  next
    case (Inr fin)
    with safe assms(6) have fin: "fin = True" by auto
    with assms(1) s2(2) loop Inr have "initial_save_state_if_required True s3 = (r, s')" by (simp del: copy_loop.simps)
    from forced_save_inv [OF conjunct1 [OF safe] this] safe Inr fin show ?thesis
      by (auto intro: all_stored_mono)
  qed
qed


section \<open>The copy ends\<close>

lemma ch_insert_ok:
  assumes "api_script a = []" "mapE (insert_record ts_ok (Some (table_fields c))) recs = Inr vs"
  shows "\<exists>a'. ch_insert ts_ok tbl recs (Some c) a = (Inr (), a') \<and> api_script a' = []"
proof -
  obtain rows v' where "versioned ts_ok (Some (table_fields c)) (get_last_used_version a tbl + 1) recs = Inr (rows, v')"
    using versioned_total [OF assms(2)] by blast
  moreover have "\<exists>dur a1. attempts MAX_RETRIES call a = (Inr dur, a1) \<and> api_script a1 = []" for call
    using assms(1) by (simp add: MAX_RETRIES_def numeral_eq_Suc client_do_def)
  then obtain dur a1 where "attempts MAX_RETRIES (Insert (full_table_name a (if api_cluster a \<noteq> [] then tbl @ DISTRIBUTED_TABLE_SUFFIX else tbl)) rows) a = (Inr dur, a1)"
    "api_script a1 = []" by blast
  ultimately show ?thesis by (simp add: ch_insert_def Let_def set_last_used_version_def)
qed

lemma store_page_ok:
  assumes "api_script (ch_api (in_rep s)) = []" "mapE (insert_row cx cp) recs = Inr vs"
    and "get_last_record_primary_key recs (cp_key_ids cp) = Inr key"
  obtains s' where "store_page cx cp recs s = (Inr key, s')" "api_script (ch_api (in_rep s')) = []" "in_mysql s' = in_mysql s"
    "rows_at cx cp s' = rows_at cx cp s @ vs"
proof -
  let ?ins = "ch_insert (rx_timestamp_ok (ix_rt cx)) (target_name (ix_rt cx) (cp_table cp)) recs (Some (cp_clickhouse cp))"
  obtain a where a: "?ins (ch_api (in_rep s)) = (Inr (), a)" "api_script a = []"
    using ch_insert_ok [OF assms(1)] assms(2) unfolding insert_row_def by blast
  let ?s2 = "s\<lparr>in_rep := (in_rep s)\<lparr>ch_api := a\<rparr>, in_state := (in_state s)\<lparr>initial_replication_max_primary_key := Some key\<rparr>\<rparr>"
  have ia: "in_on_api ?ins s = (Inr (), s\<lparr>in_rep := (in_rep s)\<lparr>ch_api := a\<rparr>\<rparr>)"
    using a by (simp add: in_on_api_def in_on_rep_def on_api_def)
  obtain s3 where s3: "initial_save_state_if_required False ?s2 = (Inr (), s3)" "same_data ?s2 s3"
    using initial_save_frame [of False ?s2] by auto
  obtain s4 where s4: "prevent_binlog_removal s3 = (Inr (), s4)" "same_data s3 s4"
    using prevent_binlog_removal_frame by blast
  have st: "store_page cx cp recs s = (Inr key, s4)"
    using ia assms(3) s3(1) s4(1) by (simp add: store_page_def bindA_def liftA_def on_state_def modifyA_def retA_def)
  moreover have "rows_at cx cp s4 = rows_at cx cp s @ vs"
    using store_page_cases [OF st] assms(2) by auto
  ultimately show ?thesis using that s3(2) s4(2) a(2) by (simp add: same_data_def)
qed

text \<open>Every row of the table can be converted and stored.\<close>

definition convertible :: "init_context \<Rightarrow> copy_plan \<Rightarrow> row set \<Rightarrow> bool" where
  "convertible cx cp R \<longleftrightarrow> (\<forall>r \<in> R. (\<exists>v. stored_row cx cp r = Inr v) \<and> (\<exists>k. copied_key cx cp r = Inr k))"

lemma convertible_rows:
  assumes "convertible cx cp R" "set rows \<subseteq> R"
  obtains recs vs where "mapE (convert_row cx cp) rows = Inr recs" "mapE (insert_row cx cp) recs = Inr vs"
    "mapE (stored_row cx cp) rows = Inr vs"
proof -
  have "\<exists>recs vs. mapE (convert_row cx cp) rows = Inr recs \<and> mapE (insert_row cx cp) recs = Inr vs \<and> mapE (stored_row cx cp) rows = Inr vs"
    using assms(2)
  proof (induction rows)
    case (Cons r rows)
    then obtain recs vs where "mapE (convert_row cx cp) rows = Inr recs" "mapE (insert_row cx cp) recs = Inr vs"
      "mapE (stored_row cx cp) rows = Inr vs" by auto
    moreover obtain c v where "convert_row cx cp r = Inr c" "insert_row cx cp c = Inr v" "stored_row cx cp r = Inr v"
      using assms(1) Cons.prems by (fastforce simp: convertible_def stored_row_def res_simps)
    ultimately show ?case by (intro exI [of _ "c # recs"] exI [of _ "v # vs"]) simp
  qed simp
  then show ?thesis using that by blast
qed

lemma rows_above_less:
  assumes "finite R" "x \<in> R" "row_above w start x"
  shows "card {r \<in> R. row_above w (Some x) r} < card {r \<in> R. row_above w start r}"
proof (rule psubset_card_mono)
  have "w x < w r \<Longrightarrow> row_above w start r" for r using assms(3) by (cases start) (auto simp: row_above_def)
  moreover have "x \<notin> {r \<in> R. row_above w (Some x) r}" by (simp add: row_above_def)
  ultimately show "{r \<in> R. row_above w (Some x) r} \<subset> {r \<in> R. row_above w start r}"
    using assms(2,3) by (auto simp: row_above_def)
qed (use assms(1) in simp)

text \<open>One round that goes well: the next page is stored.\<close>

lemma round_ok:
  assumes inv: "round_inv cx cp w R stay key s" and start: "set_option start \<subseteq> R" "start_key cx cp start key"
    and srv: "answering (my_answers (in_mysql s))" "5 \<le> length (my_answers (in_mysql s))"
    and api: "api_script (ch_api (in_rep s)) = []" and conv: "convertible cx cp R"
  obtains snap s1 recs where "sorted_wrt (\<lambda>a b. w a < w b) snap" "set snap \<subseteq> R" "stay \<subseteq> set snap"
    "read_page cx cp key s = (Inr recs, s1)" "mapE (convert_row cx cp) (page_of cx w start snap) = Inr recs"
    "in_rep s1 = in_rep s" "rows_at cx cp s1 = rows_at cx cp s"
    "\<exists>k \<le> 5. my_answers (in_mysql s1) = drop k (my_answers (in_mysql s))"
proof -
  obtain r1 s1 where p: "read_page cx cp key s = (r1, s1)" by fastforce
  obtain a k where a: "s1 = s\<lparr>in_mysql := a\<rparr>" "k \<le> 5" "my_answers a = drop k (my_answers (in_mysql s))"
    and page: "\<exists>f \<in> set (my_answers (in_mysql s)). \<exists>rows. f (Execute (page_query cx cp key)) = Inr rows \<and> r1 = mapE (convert_row cx cp) rows"
    by (rule read_page_cases [OF p]) (use srv in blast)
  obtain f rows where f: "f \<in> set (my_answers (in_mysql s))" "f (Execute (page_query cx cp key)) = Inr rows" "r1 = mapE (convert_row cx cp) rows"
    using page by blast
  then obtain snap where snap: "displays cx cp w R snap f" "stay \<subseteq> set snap"
    using inv by (auto simp: round_inv_def server_shows_def)
  with f(2) start have rows: "rows = page_of cx w start snap" unfolding displays_def by blast
  have "set snap \<subseteq> R" "sorted_wrt (\<lambda>a b. w a < w b) snap" using snap(1) by (simp_all add: displays_def)
  moreover have "set rows \<subseteq> R" using calculation(1) page_above rows by blast
  then obtain recs where "mapE (convert_row cx cp) rows = Inr recs" using convertible_rows [OF conv] by blast
  ultimately show ?thesis using that snap(2) p f(3) rows a by (auto simp: rows_at_def)
qed

lemma pages_join:
  assumes "sorted_wrt (\<lambda>a b. w a < w b) snap" "set snap \<subseteq> R" "stay \<subseteq> set snap" and page: "page = page_of cx w start snap" "page \<noteq> []"
    and rows: "sorted_wrt (\<lambda>a b. w a < w b) rows" "set rows \<subseteq> {r \<in> R. row_above w (Some (last page)) r}"
      "{r \<in> stay. row_above w (Some (last page)) r} \<subseteq> set rows"
  shows "sorted_wrt (\<lambda>a b. w a < w b) (page @ rows) \<and> set (page @ rows) \<subseteq> {r \<in> R. row_above w start r}
    \<and> {r \<in> stay. row_above w start r} \<subseteq> set (page @ rows)"
proof (intro conjI)
  have sorted: "sorted_wrt (\<lambda>a b. w a < w b) page" using page_sorted [OF assms(1)] page by simp
  have last: "w x \<le> w (last page)" if "x \<in> set page" for x
  proof -
    have "page = butlast page @ [last page]" using page(2) by simp
    then have "sorted_wrt (\<lambda>a b. w a < w b) (butlast page @ [last page])" "x \<in> set (butlast page @ [last page])"
      using sorted that by simp_all
    then show ?thesis by (auto simp: sorted_wrt_append)
  qed
  have "w x < w y" if "x \<in> set page" "y \<in> set rows" for x y
    using last [OF that(1)] rows(2) that(2) by (auto simp: row_above_def)
  with sorted rows(1) show "sorted_wrt (\<lambda>a b. w a < w b) (page @ rows)" by (simp add: sorted_wrt_append)
  have "row_above w start (last page)" "set page \<subseteq> {r \<in> R. row_above w start r}" using page_above page assms(2) last_in_set by blast+
  moreover have "row_above w start r" if "row_above w (Some (last page)) r" for r
    using calculation(1) that by (cases start) (auto simp: row_above_def)
  ultimately show "set (page @ rows) \<subseteq> {r \<in> R. row_above w start r}" using rows(2) by auto
  show "{r \<in> stay. row_above w start r} \<subseteq> set (page @ rows)"
  proof
    fix r assume r: "r \<in> {r \<in> stay. row_above w start r}"
    show "r \<in> set (page @ rows)"
    proof (cases "row_above w (Some (last page)) r")
      case True
      with r rows(3) show ?thesis by auto
    next
      case False
      with page_covers [OF assms(1), of cx start r] page assms(3) r show ?thesis by (auto simp: row_above_def)
    qed
  qed
qed

text \<open>A round of the loop, when nothing fails: it ends behind the last row, or stores a page and goes on behind it.\<close>

lemma copy_loop_round:
  assumes conv: "convertible cx cp R" and cx: "0 < batch_size cx" "ix_test_fail_records cx = None"
    and inv: "round_inv cx cp w R stay key s" and start: "set_option start \<subseteq> R" "start_key cx cp start key"
    and srv: "answering (my_answers (in_mysql s))" "5 \<le> length (my_answers (in_mysql s))"
    and api: "api_script (ch_api (in_rep s)) = []"
  obtains (finished) s' where "copy_loop (Suc n) cx cp key count s = (Inr True, s')" "rows_at cx cp s' = rows_at cx cp s"
      "{r \<in> stay. row_above w start r} = {}"
    | (next_page) snap page vs key' count' s3 k where "sorted_wrt (\<lambda>a b. w a < w b) snap" "set snap \<subseteq> R" "stay \<subseteq> set snap"
      "page = page_of cx w start snap" "page \<noteq> []" "mapE (stored_row cx cp) page = Inr vs" "start_key cx cp (Some (last page)) (Some key')"
      "copy_loop (Suc n) cx cp key count s = copy_loop n cx cp (Some key') count' s3" "round_inv cx cp w R stay (Some key') s3"
      "rows_at cx cp s3 = rows_at cx cp s @ vs" "api_script (ch_api (in_rep s3)) = []"
      "k \<le> 5" "my_answers (in_mysql s3) = drop k (my_answers (in_mysql s))"
proof -
  obtain snap s1 recs where snap: "sorted_wrt (\<lambda>a b. w a < w b) snap" "set snap \<subseteq> R" "stay \<subseteq> set snap"
    and p: "read_page cx cp key s = (Inr recs, s1)" "mapE (convert_row cx cp) (page_of cx w start snap) = Inr recs"
    and s1: "in_rep s1 = in_rep s" "rows_at cx cp s1 = rows_at cx cp s" "\<exists>k \<le> 5. my_answers (in_mysql s1) = drop k (my_answers (in_mysql s))"
    by (rule round_ok [OF inv start srv api conv])
  let ?page = "page_of cx w start snap"
  show ?thesis
  proof (cases "recs = []")
    case True
    then have "?page = []" using p(2) mapE_Inr_length by fastforce
    then have "{r \<in> stay. row_above w start r} = {}" using page_empty cx(1) snap(3) by blast
    with True p(1) s1(2) show ?thesis by (intro finished [of s1]) (simp_all add: bindA_def retA_def)
  next
    case False
    then have ne: "?page \<noteq> []" using p(2) by auto
    have page_R: "set ?page \<subseteq> R" using page_above snap(2) by blast
    obtain recs' vs where "mapE (convert_row cx cp) ?page = Inr recs'" "mapE (insert_row cx cp) recs' = Inr vs"
      and stored: "mapE (stored_row cx cp) ?page = Inr vs"
      by (rule convertible_rows [OF conv page_R])
    with p(2) have ins: "mapE (insert_row cx cp) recs = Inr vs" by simp
    obtain key' where "copied_key cx cp (last ?page) = Inr key'"
      using conv page_R last_in_set [OF ne] unfolding convertible_def by blast
    then have key': "get_last_record_primary_key recs (cp_key_ids cp) = Inr key'" "start_key cx cp (Some (last ?page)) (Some key')"
      using mapE_last [OF p(2) ne] by (auto simp: copied_key_def get_last_record_primary_key_def lastE_def start_key_def)
    obtain s2 where st: "store_page cx cp recs s1 = (Inr key', s2)" "api_script (ch_api (in_rep s2)) = []" "in_mysql s2 = in_mysql s1"
      "rows_at cx cp s2 = rows_at cx cp s1 @ vs"
      using store_page_ok [OF _ ins key'(1)] api s1(1) by metis
    obtain t c where tm: "in_time s2 = (Inr t, s2\<lparr>in_clock := c\<rparr>)" using in_time_frame by blast
    have inv3: "round_inv cx cp w R stay (Some key') (s2\<lparr>in_clock := c\<rparr>)"
      using page_safe [OF p(1) False st(1) inv] by (intro round_inv_clock) blast
    have loop: "copy_loop (Suc n) cx cp key count s = copy_loop n cx cp (Some key') (count + length recs) (s2\<lparr>in_clock := c\<rparr>)"
      using p(1) False st(1) tm cx(2) by (simp add: bindA_def Let_def enough_records_def)
    obtain k where k: "k \<le> 5" "my_answers (in_mysql s1) = drop k (my_answers (in_mysql s))" using s1(3) by blast
    show ?thesis
      by (rule next_page [OF snap refl ne stored key'(2) loop inv3 _ _ k(1)]) (use st s1 k in \<open>simp_all add: rows_at_def\<close>)
  qed
qed

lemma copy_loop_finishes:
  fixes w :: "row \<Rightarrow> 'o::linorder"
  assumes "finite R" and conv: "convertible cx cp R" "0 < batch_size cx" "ix_test_fail_records cx = None"
    and "round_inv cx cp w R stay key s" "set_option start \<subseteq> R" "start_key cx cp start key"
    and "answering (my_answers (in_mysql s))" "5 * (card {r \<in> R. row_above w start r} + 1) \<le> length (my_answers (in_mysql s))"
    and "api_script (ch_api (in_rep s)) = []" "card {r \<in> R. row_above w start r} < n"
  shows "\<exists>rows vs s'. copy_loop n cx cp key count s = (Inr True, s') \<and> sorted_wrt (\<lambda>a b. w a < w b) rows
    \<and> set rows \<subseteq> {r \<in> R. row_above w start r} \<and> {r \<in> stay. row_above w start r} \<subseteq> set rows
    \<and> mapE (stored_row cx cp) rows = Inr vs \<and> rows_at cx cp s' = rows_at cx cp s @ vs"
  using assms(5-)
proof (induction n arbitrary: key count s start)
  case (Suc n)
  have five: "5 \<le> length (my_answers (in_mysql s))" using Suc.prems(5) by simp
  show ?case
  proof (rule copy_loop_round [OF conv Suc.prems(1,2,3,4) five Suc.prems(6)])
    fix s' assume "copy_loop (Suc n) cx cp key count s = (Inr True, s')" "rows_at cx cp s' = rows_at cx cp s"
      "{r \<in> stay. row_above w start r} = {}"
    then show ?thesis by (intro exI [of _ "[]"] exI [of _ s']) simp
  next
    fix snap page vs key' count' s3 k
    assume snap: "sorted_wrt (\<lambda>a b. w a < w b) snap" "set snap \<subseteq> R" "stay \<subseteq> set snap" "page = page_of cx w start snap" "page \<noteq> []"
      and stored: "mapE (stored_row cx cp) page = Inr vs" and key': "start_key cx cp (Some (last page)) (Some key')"
      and loop: "copy_loop (Suc n) cx cp key count s = copy_loop n cx cp (Some key') count' s3"
      and inv3: "round_inv cx cp w R stay (Some key') s3"
      and s3: "rows_at cx cp s3 = rows_at cx cp s @ vs" "api_script (ch_api (in_rep s3)) = []" "k \<le> 5"
        "my_answers (in_mysql s3) = drop k (my_answers (in_mysql s))"
    have last: "last page \<in> R" "row_above w start (last page)" using page_above snap last_in_set by blast+
    then have less: "card {r \<in> R. row_above w (Some (last page)) r} < card {r \<in> R. row_above w start r}"
      using rows_above_less [OF assms(1)] by blast
    have "answering (my_answers (in_mysql s3))" using Suc.prems(4) s3(4) answering_drop by metis
    moreover have "5 * (card {r \<in> R. row_above w (Some (last page)) r} + 1) \<le> length (my_answers (in_mysql s3))"
      using Suc.prems(5) less s3(3,4) by simp
    moreover have "card {r \<in> R. row_above w (Some (last page)) r} < n" using Suc.prems(7) less by simp
    ultimately obtain rows vs' s' where ih: "copy_loop n cx cp (Some key') count' s3 = (Inr True, s')"
      "sorted_wrt (\<lambda>a b. w a < w b) rows" "set rows \<subseteq> {r \<in> R. row_above w (Some (last page)) r}"
      "{r \<in> stay. row_above w (Some (last page)) r} \<subseteq> set rows" "mapE (stored_row cx cp) rows = Inr vs'"
      "rows_at cx cp s' = rows_at cx cp s3 @ vs'"
      using Suc.IH [OF inv3 _ key' _ _ s3(2), of count'] last(1) by auto
    have "mapE (stored_row cx cp) (page @ rows) = Inr (vs @ vs')" using stored ih(5) by (simp add: mapE_append)
    with pages_join [OF snap ih(2,3,4)] loop ih(1,6) s3(1) show ?thesis
      by (intro exI [of _ "page @ rows"] exI [of _ "vs @ vs'"] exI [of _ s']) simp
  qed
qed simp


section \<open>Examples\<close>

text \<open>A table with two rows, read in pages of one.\<close>

definition sample_init :: init_context where
  "sample_init = \<lparr>ix_rt = \<lparr>rx_rep = sample_replicator\<lparr>rep_settings := plain_settings\<lparr>initial_replication_batch_size := VInt 1\<rparr>\<rparr>,
       rx_initial_only = False, rx_conv = default_conv, rx_lib = sample_lib, rx_timestamp_ok = (\<lambda>_. True),
       rx_strip_comments = (\<lambda>q. q), rx_parse_create = (\<lambda>_ _. Inl ValueError)\<rparr>,
     ix_sql = sample_sql_lib, ix_depth = 1, ix_query = (\<lambda>_. Inl OperationalError), ix_tmp_database = ''shop_tmp'', ix_single_table = [],
     ix_worker_id = None, ix_total_workers = None, ix_is_parallel_worker = False, ix_multi = False, ix_skip = False,
     ix_test_fail_records = None, ix_executable = ''python'', ix_settings_file = ''config.yaml''\<rparr>"

definition sample_plan :: copy_plan where
  "sample_plan = \<lparr>cp_table = ''users'', cp_mysql = sample_table, cp_clickhouse = sample_ch_table, cp_key_ids = [0], cp_key_types = [''UInt32'']\<rparr>"

definition sample_snap :: "row list" where
  "sample_snap = [[VInt 1, VStr ''ann''], [VInt 2, VStr ''bob'']]"

definition sample_weight :: "row \<Rightarrow> int" where
  "sample_weight r = int_of (hd r)"

definition sample_answer :: answer where
  "sample_answer c = Inr (
    if c = Execute (page_query sample_init sample_plan None) then take 1 sample_snap
    else if c = Execute (page_query sample_init sample_plan (Some [VInt 1])) then drop 1 sample_snap
    else [])"

definition sample_initial :: "nat \<Rightarrow> initial" where
  "sample_initial n = \<lparr>in_rep = sample_rep_state, in_state = new_db_state\<lparr>state_tables := [''users'']\<rparr>, in_own_versions = None, in_saved = None,
     in_mysql = \<lparr>my_database = Some ''shop_eu'', my_charset = VStr ''utf8mb4'', my_timezone = ''UTC'', last_connect_time = 0,
       my_clock = [], my_answers = replicate n sample_answer, my_calls = []\<rparr>,
     last_touch_time = 0, in_last_save_time = 0, in_clock = [], in_relay = None, in_launched = [], in_workers = [], in_polls = []\<rparr>"

lemma sample_start_keys:
  assumes "set_option start \<subseteq> set sample_snap" "start_key sample_init sample_plan start key"
  shows "(start, key) \<in> {(None, None), (Some (sample_snap ! 0), Some [VInt 1]), (Some (sample_snap ! 1), Some [VInt 2])}"
proof -
  have "copied_key sample_init sample_plan (sample_snap ! 0) = Inr [VInt 1]" "copied_key sample_init sample_plan (sample_snap ! 1) = Inr [VInt 2]"
    by code_simp+
  with assms show ?thesis by (cases start) (auto simp: start_key_def sample_snap_def)
qed

lemma sample_displays: "displays sample_init sample_plan sample_weight (set sample_snap) sample_snap sample_answer"
proof -
  have "sample_answer (Execute (page_query sample_init sample_plan None)) = Inr (page_of sample_init sample_weight None sample_snap)"
    "sample_answer (Execute (page_query sample_init sample_plan (Some [VInt 1]))) = Inr (page_of sample_init sample_weight (Some (sample_snap ! 0)) sample_snap)"
    "sample_answer (Execute (page_query sample_init sample_plan (Some [VInt 2]))) = Inr (page_of sample_init sample_weight (Some (sample_snap ! 1)) sample_snap)"
    by code_simp+
  then have page: "rs = page_of sample_init sample_weight start sample_snap"
    if "set_option start \<subseteq> set sample_snap" "start_key sample_init sample_plan start key"
      "sample_answer (Execute (page_query sample_init sample_plan key)) = Inr rs" for start key rs
    using sample_start_keys [OF that(1,2)] that(3) by (elim insertE emptyE) (metis prod.inject sum.inject(2))+
  have "sorted_wrt (\<lambda>a b. sample_weight a < sample_weight b) sample_snap" by code_simp
  with page show ?thesis unfolding displays_def by blast
qed

lemma sample_setup:
  "map_of (tables_structure (in_rep (sample_initial n))) ''users'' = Some (sample_table, sample_ch_table)"
  "copy_plan_of ''users'' (sample_table, sample_ch_table) = Inr sample_plan"
  "server_shows sample_init sample_plan sample_weight (set sample_snap) (set sample_snap) (sample_initial n)"
  "0 < batch_size sample_init" "ix_test_fail_records sample_init = None"
  "copy_inv sample_init sample_plan sample_weight (set sample_snap) (set sample_snap) (sample_initial n)"
proof -
  show "map_of (tables_structure (in_rep (sample_initial n))) ''users'' = Some (sample_table, sample_ch_table)"
    by (simp add: sample_initial_def sample_rep_state_def)
  show "copy_plan_of ''users'' (sample_table, sample_ch_table) = Inr sample_plan" "0 < batch_size sample_init"
    by code_simp+
  show "server_shows sample_init sample_plan sample_weight (set sample_snap) (set sample_snap) (sample_initial n)"
    using sample_displays by (auto simp: server_shows_def sample_initial_def)
qed (simp_all add: sample_init_def copy_inv_def sample_initial_def new_db_state_def)


end
