(* ===== verification/InitialDatabase.thy ===== *)
theory InitialDatabase
  imports InitialCopy
begin

text \<open>
  What the initial copy of a database achieves: over all tables, also when it is interrupted and
  started again from the saved table and key, and that nothing of the target database is
  touched before all tables were copied and their structures checked.
\<close>

section \<open>What copying a table changes\<close>

text \<open>The calls to ClickHouse in between are inserts into tables of the database it is set to.\<close>

definition only_inserts :: "api \<Rightarrow> api \<Rightarrow> bool" where
  "only_inserts a a' \<longleftrightarrow> api_database a' = api_database a \<and> api_cluster a' = api_cluster a
    \<and> (\<exists>cs. api_calls a' = api_calls a @ cs \<and> (\<forall>c \<in> set cs. \<exists>tbl rows out. c = (Insert (insert_target a tbl) rows, out)))"

definition grows :: "initial \<Rightarrow> initial \<Rightarrow> bool" where
  "grows s s' \<longleftrightarrow> (\<forall>tbl. set (rows_in (ch_api (in_rep s)) tbl) \<subseteq> set (rows_in (ch_api (in_rep s')) tbl))"

definition copies :: "initial \<Rightarrow> initial \<Rightarrow> bool" where
  "copies s s' \<longleftrightarrow> only_inserts (ch_api (in_rep s)) (ch_api (in_rep s')) \<and> tables_structure (in_rep s') = tables_structure (in_rep s)
    \<and> set (my_answers (in_mysql s')) \<subseteq> set (my_answers (in_mysql s)) \<and> state_tables (in_state s') = state_tables (in_state s)
    \<and> initial_replication_table (in_state s') = initial_replication_table (in_state s)
    \<and> (in_saved s' = in_saved s \<or> (\<exists>d. in_saved s' = Some d \<and> saved_table d = initial_replication_table (in_state s)))"

lemma only_inserts_refl [simp]: "only_inserts a a"
  by (simp add: only_inserts_def)

lemma only_inserts_trans: "only_inserts a b \<Longrightarrow> only_inserts b c \<Longrightarrow> only_inserts a c"
proof -
  assume ab: "only_inserts a b" and bc: "only_inserts b c"
  then have "insert_target b tbl = insert_target a tbl" for tbl
    by (simp add: only_inserts_def insert_target_def full_table_name_def)
  with ab bc show ?thesis by (auto simp: only_inserts_def)
qed

lemma only_inserts_grows: "only_inserts (ch_api (in_rep s)) (ch_api (in_rep s')) \<Longrightarrow> grows s s'"
  unfolding only_inserts_def grows_def
  by (auto simp: rows_in_append [of "ch_api (in_rep s')" "ch_api (in_rep s)" "map fst (filter (\<lambda>(_, out). out = None) _)"] applied_def)

lemma copies_grows: "copies s s' \<Longrightarrow> grows s s'"
  by (simp add: copies_def only_inserts_grows)

lemma copies_refl [simp]: "copies s s"
  by (simp add: copies_def)

lemma copies_trans: "copies s s' \<Longrightarrow> copies s' s'' \<Longrightarrow> copies s s''"
  unfolding copies_def using only_inserts_trans by fastforce

lemma grows_stored: "all_stored cx cp stay s \<Longrightarrow> grows s s' \<Longrightarrow> all_stored cx cp stay s'"
  unfolding all_stored_def grows_def rows_at_def by blast

lemma grows_resumes: "resumes_at cx cp w R stay key s \<Longrightarrow> grows s s' \<Longrightarrow> resumes_at cx cp w R stay key s'"
  by (erule resumes_mono) (simp add: grows_def rows_at_def)

lemma same_copies:
  "same_data s s' \<Longrightarrow> in_saved s' = in_saved s \<or> (\<exists>v d. in_saved s' = Some (db_state_save (in_state s) v d)) \<Longrightarrow> copies s s'"
  by (auto simp: same_data_def copies_def db_state_save_def)

lemma read_page_copies: "read_page cx cp key s = (r, s') \<Longrightarrow> copies s s'"
  by (erule read_page_cases) (auto simp: copies_def dest: in_set_dropD)

lemma ch_insert_only_inserts:
  assumes "ch_insert ts_ok tbl recs st a = (r, a')"
  shows "only_inserts a a'"
proof (cases "versioned ts_ok (map_option table_fields st) (get_last_used_version a tbl + 1) recs")
  case (Inl e)
  with assms show ?thesis by (simp add: ch_insert_def)
next
  case (Inr p)
  obtain rows v' where p: "p = (rows, v')" by fastforce
  obtain out a1 where at: "attempts MAX_RETRIES (Insert (insert_target a tbl) rows) a = (out, a1)" by fastforce
  have "0 < MAX_RETRIES" by (simp add: MAX_RETRIES_def)
  then obtain outs where "api_calls a1 = api_calls a @ map (Pair (Insert (insert_target a tbl) rows)) outs"
    using attempts_calls [OF at] by blast
  moreover have "api_calls a' = api_calls a1" "api_database a' = api_database a1" "api_cluster a' = api_cluster a1"
    using assms Inr p at by (auto simp: ch_insert_def Let_def set_last_used_version_def insert_target_def split: sum.splits)
  ultimately show ?thesis using attempts_keeps [OF at] by (auto simp: only_inserts_def)
qed

lemma store_page_copies:
  assumes "store_page cx cp recs s = (r, s')"
  shows "copies s s'"
proof -
  let ?ins = "ch_insert (rx_timestamp_ok (ix_rt cx)) (target_name (ix_rt cx) (cp_table cp)) recs (Some (cp_clickhouse cp))"
  obtain r1 a where i: "?ins (ch_api (in_rep s)) = (r1, a)" by fastforce
  let ?s1 = "s\<lparr>in_rep := (in_rep s)\<lparr>ch_api := a\<rparr>\<rparr>"
  have ia: "in_on_api ?ins s = (r1, ?s1)" using i by (simp add: in_on_api_def in_on_rep_def on_api_def)
  have s1: "copies s ?s1" using ch_insert_only_inserts [OF i] by (simp add: copies_def)
  show ?thesis
  proof (cases "bindE r1 (\<lambda>_. get_last_record_primary_key recs (cp_key_ids cp))")
    case (Inl e)
    with assms ia have "s' = ?s1" by (auto simp: store_page_def bindA_def liftA_def bindE_def split: sum.splits)
    with s1 show ?thesis by simp
  next
    case (Inr key)
    let ?s2 = "?s1\<lparr>in_state := (in_state s)\<lparr>initial_replication_max_primary_key := Some key\<rparr>\<rparr>"
    have s2: "copies ?s1 ?s2" by (simp add: copies_def)
    obtain s3 where s3: "initial_save_state_if_required False ?s2 = (Inr (), s3)" "copies ?s2 s3"
      using initial_save_frame [of False ?s2] same_copies by blast
    obtain s4 where s4: "prevent_binlog_removal s3 = (Inr (), s4)" "copies s3 s4"
      using prevent_binlog_removal_frame same_copies by blast
    have "s' = s4" using assms ia Inr s3(1) s4(1)
      by (auto simp: store_page_def bindA_def liftA_def on_state_def modifyA_def retA_def bindE_def split: sum.splits)
    with s1 s2 s3(2) s4(2) copies_trans show ?thesis by blast
  qed
qed

lemma copy_loop_copies: "copy_loop n cx cp key count s = (r, s') \<Longrightarrow> copies s s'"
proof (induction n arbitrary: key count s)
  case 0
  then show ?case by (simp add: raiseA_def)
next
  case (Suc n)
  obtain r1 s1 where p: "read_page cx cp key s = (r1, s1)" by fastforce
  note c1 = read_page_copies [OF p]
  consider "s' = s1" | recs where "r1 = Inr recs" "recs \<noteq> []" using Suc.prems p by (cases r1) (auto simp: bindA_def retA_def split: if_splits)
  then show ?case
  proof cases
    case 1
    with c1 show ?thesis by simp
  next
    case 2
    obtain r2 s2 where st: "store_page cx cp recs s1 = (r2, s2)" by fastforce
    obtain tm c where tm: "in_time s2 = (Inr tm, s2\<lparr>in_clock := c\<rparr>)" using in_time_frame by blast
    have c2: "copies s s2" using c1 store_page_copies [OF st] copies_trans by blast
    have "s' = s2 \<or> (\<exists>key' count'. copy_loop n cx cp key' count' (s2\<lparr>in_clock := c\<rparr>) = (r, s'))"
      using Suc.prems p 2 st tm by (cases r2) (auto simp: bindA_def retA_def Let_def split: if_splits)
    then show ?thesis
    proof
      assume "\<exists>key' count'. copy_loop n cx cp key' count' (s2\<lparr>in_clock := c\<rparr>) = (r, s')"
      then have "copies (s2\<lparr>in_clock := c\<rparr>) s'" using Suc.IH by blast
      moreover have "copies s2 (s2\<lparr>in_clock := c\<rparr>)" by (simp add: copies_def)
      ultimately show ?thesis using c2 copies_trans by blast
    qed (use c2 in simp)
  qed
qed

lemma start_copy_cases_frame:
  assumes "start_copy t s = (r, s1)"
  shows "(\<exists>key. r = Inr key) \<and> in_rep s1 = in_rep s \<and> in_mysql s1 = in_mysql s \<and> state_tables (in_state s1) = state_tables (in_state s)
    \<and> initial_replication_table (in_state s1) = Some t \<and> (in_saved s1 = in_saved s \<or> (\<exists>d. in_saved s1 = Some d \<and> saved_table d = Some t))"
  using assms by (auto simp: start_copy_def on_state_def state_save_def bindA_def modifyA_def retA_def db_state_save_def split: if_splits)

definition table_copied :: "string \<Rightarrow> initial \<Rightarrow> initial \<Rightarrow> bool" where
  "table_copied t s s' \<longleftrightarrow> only_inserts (ch_api (in_rep s)) (ch_api (in_rep s')) \<and> tables_structure (in_rep s') = tables_structure (in_rep s)
    \<and> set (my_answers (in_mysql s')) \<subseteq> set (my_answers (in_mysql s)) \<and> state_tables (in_state s') = state_tables (in_state s)
    \<and> initial_replication_table (in_state s') = Some t
    \<and> (in_saved s' = in_saved s \<or> (\<exists>d. in_saved s' = Some d \<and> saved_table d = Some t))"

lemma copy_table_frame:
  assumes "copy_table cx t s = (r, s')"
  shows "table_copied t s s'"
proof -
  obtain r1 s1 where 1: "start_copy t s = (r1, s1)" by fastforce
  note f1 = start_copy_cases_frame [OF 1]
  have c1: "table_copied t s s1" using f1 by (auto simp: table_copied_def)
  have step: "table_copied t s s2" if "copies s1 s2" for s2
    using that c1 only_inserts_trans unfolding table_copied_def copies_def by fastforce
  obtain tm c where tm: "in_time s1 = (Inr tm, s1\<lparr>in_clock := c\<rparr>)" using in_time_frame by blast
  have rest: "s' = s1 \<or> (\<exists>n cp key r2 s2. copy_loop n cx cp key 0 (s1\<lparr>in_clock := c\<rparr>) = (r2, s2)
      \<and> (s' = s2 \<or> initial_save_state_if_required True s2 = (r, s')))"
    using assms 1 tm f1
    by (auto simp: copy_table_def bindA_def liftA_def in_on_rep_def get_structures_def retA_def
        simp del: copy_loop.simps split: sum.splits prod.splits if_splits) blast+
  then show ?thesis
  proof (elim disjE exE conjE)
    fix n cp key r2 s2
    assume "copy_loop n cx cp key 0 (s1\<lparr>in_clock := c\<rparr>) = (r2, s2)"
    then have "copies (s1\<lparr>in_clock := c\<rparr>) s2" by (rule copy_loop_copies)
    moreover have "copies s1 (s1\<lparr>in_clock := c\<rparr>)" by (simp add: copies_def)
    ultimately have c2: "copies s1 s2" using copies_trans by blast
    show ?thesis if "s' = s2" using step c2 that by simp
    show ?thesis if "initial_save_state_if_required True s2 = (r, s')"
    proof -
      have "copies s2 s'" using initial_save_frame [of True s2] same_copies that by fastforce
      then show ?thesis using step c2 copies_trans by blast
    qed
  qed (use c1 in simp)
qed

section \<open>All tables\<close>

text \<open>
  For each table there is a plan, an order of its keys, the rows that ever are in it and those that stay.
  A saved table and key mean: the tables before it are complete, and this one up to the key.
\<close>

record 'o source =
  src_plan :: copy_plan
  src_weight :: "row \<Rightarrow> 'o"
  src_rows :: "row set"
  src_stay :: "row set"

definition complete :: "init_context \<Rightarrow> (string \<Rightarrow> 'o::linorder source) \<Rightarrow> string \<Rightarrow> initial \<Rightarrow> bool" where
  "complete cx src t s = all_stored cx (src_plan (src t)) (src_stay (src t)) s"

definition progress :: "init_context \<Rightarrow> (string \<Rightarrow> 'o::linorder source) \<Rightarrow> string list \<Rightarrow> string option \<Rightarrow> py_val list option \<Rightarrow> initial \<Rightarrow> bool" where
  "progress cx src ts tab key s =
    (case tab of
       None \<Rightarrow> True
     | Some t \<Rightarrow> t \<in> set ts \<and> (\<forall>u \<in> set (takeWhile (\<lambda>u. u \<noteq> t) ts). complete cx src u s)
         \<and> resumes_at cx (src_plan (src t)) (src_weight (src t)) (src_rows (src t)) (src_stay (src t)) key s)"

definition copy_state_ok :: "init_context \<Rightarrow> (string \<Rightarrow> 'o::linorder source) \<Rightarrow> string list \<Rightarrow> initial \<Rightarrow> bool" where
  "copy_state_ok cx src ts s \<longleftrightarrow>
    progress cx src ts (initial_replication_table (in_state s)) (initial_replication_max_primary_key (in_state s)) s
    \<and> (\<forall>d. in_saved s = Some d \<longrightarrow> progress cx src ts (saved_table d) (saved_max_primary_key d) s)"

text \<open>The plans are those of the stored structures, and the server shows the tables.\<close>

definition sources_ok :: "init_context \<Rightarrow> (string \<Rightarrow> 'o::linorder source) \<Rightarrow> string list \<Rightarrow> initial \<Rightarrow> bool" where
  "sources_ok cx src ts s \<longleftrightarrow>
    (\<forall>t \<in> set ts. is_table_matches (ix_config cx) t = Inr True
       \<and> (\<exists>p. map_of (tables_structure (in_rep s)) t = Some p \<and> copy_plan_of t p = Inr (src_plan (src t)))
       \<and> server_shows cx (src_plan (src t)) (src_weight (src t)) (src_rows (src t)) (src_stay (src t)) s)"

lemma progress_grows: "progress cx src ts tab key s \<Longrightarrow> grows s s' \<Longrightarrow> progress cx src ts tab key s'"
  by (auto simp: progress_def complete_def split: option.splits intro: grows_stored grows_resumes)

lemma sources_ok_copied: "sources_ok cx src ts s \<Longrightarrow> table_copied t s s' \<Longrightarrow> sources_ok cx src ts s'"
  unfolding sources_ok_def table_copied_def server_shows_def by (metis subsetD)

lemma plan_table: "copy_plan_of t p = Inr cp \<Longrightarrow> cp_table cp = t"
  by (auto simp: copy_plan_of_def res_simps split: prod.splits option.splits)

lemma copy_state_inv:
  assumes "copy_state_ok cx src ts s" "cp_table (src_plan (src t)) = t"
  shows "copy_inv cx (src_plan (src t)) (src_weight (src t)) (src_rows (src t)) (src_stay (src t)) s"
  using assms by (auto simp: copy_state_ok_def copy_inv_def progress_def)

text \<open>One table of the list.\<close>

lemma next_table:
  assumes "copy_table cx t s = (r, s')" "sources_ok cx src ts s" "copy_state_ok cx src ts s" "0 < batch_size cx" "ix_test_fail_records cx = None"
    and ts: "ts = pre @ t # post" "t \<notin> set pre" "\<forall>u \<in> set pre. complete cx src u s"
  shows "copy_state_ok cx src ts s' \<and> sources_ok cx src ts s' \<and> (r = Inr () \<longrightarrow> (\<forall>u \<in> set (pre @ [t]). complete cx src u s'))
    \<and> initial_replication_table (in_state s') = Some t"
proof -
  obtain p where p: "map_of (tables_structure (in_rep s)) t = Some p" "copy_plan_of t p = Inr (src_plan (src t))"
    and srv: "server_shows cx (src_plan (src t)) (src_weight (src t)) (src_rows (src t)) (src_stay (src t)) s"
    using assms(2) ts(1) by (auto simp: sources_ok_def)
  note plan = plan_table [OF p(2)]
  have frame: "table_copied t s s'" by (rule copy_table_frame [OF assms(1)])
  then have grows: "grows s s'" by (auto simp: table_copied_def intro: only_inserts_grows)
  have inv: "copy_inv cx (src_plan (src t)) (src_weight (src t)) (src_rows (src t)) (src_stay (src t)) s'
      \<and> (r = Inr () \<longrightarrow> complete cx src t s')"
    using copy_table_safe [OF assms(1) p srv assms(4,5) copy_state_inv [OF assms(3) plan]] by (simp add: complete_def)
  have pre: "\<forall>u \<in> set pre. complete cx src u s'" using ts(3) grows by (auto simp: complete_def intro: grows_stored)
  have before: "takeWhile (\<lambda>u. u \<noteq> t) ts = pre" using ts(1,2) by (subst ts(1), subst takeWhile_append2) auto
  have now: "progress cx src ts (Some t) key s'"
    if "resumes_at cx (src_plan (src t)) (src_weight (src t)) (src_rows (src t)) (src_stay (src t)) key s'" for key
    using that pre before ts(1) by (simp add: progress_def)
  have "progress cx src ts (saved_table d) (saved_max_primary_key d) s'" if "in_saved s' = Some d" for d
    using frame that inv plan now assms(3) progress_grows [OF _ grows]
    unfolding table_copied_def copy_inv_def copy_state_ok_def by (metis option.inject)
  moreover have "progress cx src ts (initial_replication_table (in_state s')) (initial_replication_max_primary_key (in_state s')) s'"
    using frame inv plan now by (simp add: table_copied_def copy_inv_def)
  ultimately show ?thesis
    using frame inv pre sources_ok_copied [OF assms(2) frame] by (simp add: copy_state_ok_def table_copied_def)
qed

text \<open>Tables are copied one after the other, each by one process.\<close>

definition one_by_one :: "init_context \<Rightarrow> bool" where
  "one_by_one cx \<longleftrightarrow> ix_single_table cx = [] \<and> (ix_is_parallel_worker cx \<or> int_of (initial_replication_threads (ix_config cx)) \<le> 1)"

lemma perform_table: "one_by_one cx \<Longrightarrow> is_table_matches (ix_config cx) t = Inr True \<Longrightarrow> perform_initial_replication_table cx t = copy_table cx t"
  by (rule ext) (auto simp: perform_initial_replication_table_def one_by_one_def bindA_def liftA_def)

lemma copy_tables_rest:
  assumes "one_by_one cx" "0 < batch_size cx" "ix_test_fail_records cx = None" "distinct ts"
  shows "copy_tables cx None rest s = (r, s') \<Longrightarrow> ts = pre @ rest \<Longrightarrow> sources_ok cx src ts s \<Longrightarrow> copy_state_ok cx src ts s
    \<Longrightarrow> \<forall>u \<in> set pre. complete cx src u s \<Longrightarrow> copy_state_ok cx src ts s' \<and> (r = Inr () \<longrightarrow> (\<forall>u \<in> set ts. complete cx src u s'))"
proof (induction rest arbitrary: pre s)
  case Nil
  then show ?case by (auto simp: retA_def)
next
  case (Cons t rest)
  obtain r1 s1 where c: "copy_table cx t s = (r1, s1)" by fastforce
  have "is_table_matches (ix_config cx) t = Inr True" using Cons.prems(2,3) by (simp add: sources_ok_def)
  then have run: "(case (r1, s1) of (Inl e, u) \<Rightarrow> (Inl e, u) | (Inr x, u) \<Rightarrow> copy_tables cx None rest u) = (r, s')"
    using Cons.prems(1) c perform_table [OF assms(1)] assms(1) by (simp add: bindA_def other_table_def one_by_one_def)
  have "t \<notin> set pre" using Cons.prems(2) assms(4) by auto
  note step = next_table [OF c Cons.prems(3,4) assms(2,3) Cons.prems(2) this Cons.prems(5)]
  show ?case
  proof (cases r1)
    case (Inl e)
    with run step show ?thesis by auto
  next
    case (Inr u)
    with run have "copy_tables cx None rest s1 = (r, s')" by simp
    then show ?thesis using Cons.IH [of s1 "pre @ [t]"] Cons.prems(2) step Inr by auto
  qed
qed

lemma skip_tables:
  "t \<notin> set pre \<Longrightarrow> t \<noteq> [] \<Longrightarrow> copy_tables cx (Some t) (pre @ rest) = copy_tables cx (Some t) rest"
  by (induction pre) auto


definition sample_source :: "string \<Rightarrow> int source" where
  "sample_source t = \<lparr>src_plan = sample_plan, src_weight = sample_weight, src_rows = set sample_snap, src_stay = set sample_snap\<rparr>"

lemma copy_state_ok_mysql: "copy_state_ok cx src ts s \<Longrightarrow> copy_state_ok cx src ts (s\<lparr>in_mysql := a\<rparr>)"
  using progress_grows [of cx src ts _ _ s "s\<lparr>in_mysql := a\<rparr>"] by (auto simp: copy_state_ok_def grows_def)

lemma sample_sources:
  assumes "map_of (tables_structure (in_rep s)) ''users'' = Some (sample_table, sample_ch_table)" "in_mysql s = in_mysql (sample_initial n)"
  shows "sources_ok sample_init sample_source [''users''] s"
proof -
  have "is_table_matches (ix_config sample_init) ''users'' = Inr True" by code_simp
  moreover have "server_shows sample_init sample_plan sample_weight (set sample_snap) (set sample_snap) s"
    using sample_setup(3) [of n] assms(2) by (simp add: server_shows_def)
  ultimately show ?thesis using assms(1) sample_setup(2) by (simp add: sources_ok_def sample_source_def)
qed


end
