(* ===== verification/InitialSwap.thy ===== *)
theory InitialSwap
  imports InitialDatabase
begin

text \<open>
  The end of the initial replication: the databases are swapped only when every table was copied
  and its structure is still the one it was copied with.
\<close>

section \<open>Equal structures\<close>

definition same_structure :: "table_structure \<Rightarrow> table_structure \<Rightarrow> bool" where
  "same_structure m n \<longleftrightarrow> table_name m = table_name n \<and> charset m = charset n \<and> primary_keys m = primary_keys n
    \<and> map (\<lambda>f. (name f, field_type f, normal_parameters f)) (table_fields m)
      = map (\<lambda>f. (name f, field_type f, normal_parameters f)) (table_fields n)"

lemma compare_keys_iff: "length ks = length ks' \<Longrightarrow> compare_keys ks ks' \<longleftrightarrow> ks = ks'"
  by (induction ks ks' rule: compare_keys.induct) auto

lemma compare_fields_iff:
  "length fs = length gs \<Longrightarrow> compare_fields fs gs \<longleftrightarrow>
    map (\<lambda>f. (name f, field_type f, normal_parameters f)) fs = map (\<lambda>f. (name f, field_type f, normal_parameters f)) gs"
  by (induction fs gs rule: compare_fields.induct) auto

lemma compare_table_structures_iff: "compare_table_structures m n \<longleftrightarrow> same_structure m n"
proof (cases "length (primary_keys m) = length (primary_keys n) \<and> length (table_fields m) = length (table_fields n)")
  case True
  then show ?thesis by (simp add: compare_table_structures_def same_structure_def compare_keys_iff compare_fields_iff)
next
  case False
  then have "\<not> same_structure m n" by (auto simp: same_structure_def dest: map_eq_imp_length_eq)
  with False show ?thesis by (auto simp: compare_table_structures_def)
qed

section \<open>Copying sends inserts only\<close>

definition only_copied :: "initial \<Rightarrow> initial \<Rightarrow> bool" where
  "only_copied s s' \<longleftrightarrow> only_inserts (ch_api (in_rep s)) (ch_api (in_rep s')) \<and> tables_structure (in_rep s') = tables_structure (in_rep s)
    \<and> state_tables (in_state s') = state_tables (in_state s)"

lemma only_copied_refl [simp]: "only_copied s s"
  by (simp add: only_copied_def)

lemma only_copied_trans: "only_copied s s' \<Longrightarrow> only_copied s' s'' \<Longrightarrow> only_copied s s''"
  unfolding only_copied_def using only_inserts_trans by metis

lemma only_copied_bind:
  assumes "bindA m f s = (r, s')" "\<And>x u. m s = (x, u) \<Longrightarrow> only_copied s u"
    and "\<And>x u. m s = (Inr x, u) \<Longrightarrow> f x u = (r, s') \<Longrightarrow> only_copied u s'"
  shows "only_copied s s'"
proof -
  obtain x u where m: "m s = (x, u)" by fastforce
  note u = assms(2) [OF m]
  show ?thesis
  proof (cases x)
    case (Inl e)
    with assms(1) m u show ?thesis by (simp add: bindA_def)
  next
    case (Inr y)
    with assms(1) m have "f y u = (r, s')" by (simp add: bindA_def)
    then show ?thesis using only_copied_trans [OF u] assms(3) m Inr by blast
  qed
qed

lemma same_rep_copied: "in_rep s' = in_rep s \<Longrightarrow> state_tables (in_state s') = state_tables (in_state s) \<Longrightarrow> only_copied s s'"
  by (simp add: only_copied_def)

lemma wait_workers_copied: "wait_workers polls s = (r, s') \<Longrightarrow> in_rep s' = in_rep s \<and> in_state s' = in_state s"
proof (induction polls arbitrary: s)
  case Nil
  then show ?case by (auto simp: wait_workers.simps [of "[]"] split: if_splits)
next
  case (Cons poll polls)
  have poll: "in_rep (snd (mapA (poll_worker poll) ws s)) = in_rep s \<and> in_state (snd (mapA (poll_worker poll) ws s)) = in_state s" for ws
    by (rule mapA_invariant) (auto simp: poll_worker_def retA_def raiseA_def modifyA_def split: option.split)
  obtain r1 s1 where m: "mapA (poll_worker poll) (in_workers s) s = (r1, s1)" by fastforce
  show ?case
  proof (cases "in_workers s = []")
    case True
    with Cons.prems show ?thesis by (auto simp: wait_workers.simps [of "poll # polls"])
  next
    case False
    then have "wait_workers (poll # polls) s = bindA (mapA (poll_worker poll) (in_workers s)) (\<lambda>_. wait_workers polls) s"
      by (subst wait_workers.simps) simp
    with Cons.prems m have "s' = s1 \<or> wait_workers polls s1 = (r, s')" by (cases r1) (simp_all add: bindA_def)
    then show ?thesis using Cons.IH poll [of "in_workers s"] m by auto
  qed
qed

lemma consolidate_copied: "consolidate_worker_record_versions cx t s = (r, s') \<Longrightarrow> only_copied s s'"
  by (auto simp: consolidate_worker_record_versions_def bindA_def modifyA_def state_save_def update_state_version_def
      set_last_used_version_def only_copied_def only_inserts_def Let_def split: option.splits if_splits)

lemma parallel_copied:
  assumes "perform_initial_replication_table_parallel cx t s = (r, s')"
  shows "only_copied s s'"
  using assms unfolding perform_initial_replication_table_parallel_def
proof (rule only_copied_bind)
  fix x u assume "mapA (launch_worker cx t) [0..int_of (initial_replication_threads (ix_config cx)) - 1] s = (x, u)"
  moreover have "in_rep (snd (mapA (launch_worker cx t) ws s)) = in_rep s \<and> in_state (snd (mapA (launch_worker cx t) ws s)) = in_state s" for ws
    by (rule mapA_invariant) (auto simp: launch_worker_def modifyA_def)
  ultimately show "only_copied s u" by (metis same_rep_copied snd_conv)
next
  fix x u assume "bindA (\<lambda>s. wait_workers (in_polls s) s) (\<lambda>_. consolidate_worker_record_versions cx t) u = (r, s')"
  then show "only_copied u s'"
    by (rule only_copied_bind) (use wait_workers_copied same_rep_copied consolidate_copied in \<open>metis+\<close>)
qed

lemma on_state_save_copied:
  "(\<And>st. state_tables (f st) = state_tables st) \<Longrightarrow> bindA (on_state f) (\<lambda>_. bindA state_save k) s = (r, s') \<Longrightarrow>
   \<exists>s1. only_copied s s1 \<and> k () s1 = (r, s')"
  using same_rep_copied [of "snd (bindA (on_state f) (\<lambda>_. state_save) s)" s]
  by (intro exI [of _ "snd (bindA (on_state f) (\<lambda>_. state_save) s)"]) (simp add: on_state_def state_save_def bindA_def modifyA_def)

lemma table_step_copied:
  assumes "perform_initial_replication_table cx t s = (r, s')"
  shows "only_copied s s'"
proof -
  consider "s' = s" | "copy_table cx t s = (r, s')"
    | "bindA (on_state (\<lambda>st. st\<lparr>initial_replication_table := Some t, initial_replication_max_primary_key := None\<rparr>)) (\<lambda>_.
        bindA state_save (\<lambda>_. perform_initial_replication_table_parallel cx t)) s = (r, s')"
    using assms by (auto simp: perform_initial_replication_table_def bindA_liftA retA_def split: sum.splits if_splits)
  then show ?thesis
  proof cases
    case 2
    from copy_table_frame [OF this] show ?thesis by (simp add: table_copied_def only_copied_def)
  next
    case 3
    from on_state_save_copied [OF _ this] show ?thesis using parallel_copied only_copied_trans by fastforce
  qed simp
qed

lemma copy_tables_copied: "copy_tables cx start ts s = (r, s') \<Longrightarrow> only_copied s s'"
proof (induction ts arbitrary: start s)
  case (Cons t ts)
  consider start' where "copy_tables cx start' ts s = (r, s')"
    | "bindA (perform_initial_replication_table cx t) (\<lambda>_. copy_tables cx None ts) s = (r, s')"
    using Cons.prems by (auto split: if_splits option.splits)
  then show ?case
  proof cases
    case 2
    then show ?thesis by (rule only_copied_bind) (auto intro: table_step_copied Cons.IH)
  qed (rule Cons.IH)
qed (simp add: retA_def)

section \<open>The check\<close>

lemma fetch_structure_frame: "fetch_structure cx t s = (r, s') \<Longrightarrow> in_rep s' = in_rep s \<and> in_state s' = in_state s"
  by (auto simp: fetch_structure_def in_on_mysql_def bindA_def liftA_def split: prod.splits sum.splits)

text \<open>A table whose structure was read again and found to be the one it was copied with.\<close>

definition unchanged :: "init_context \<Rightarrow> rep_state \<Rightarrow> string \<Rightarrow> bool" where
  "unchanged cx rep t \<longleftrightarrow> (\<exists>s current s'. in_rep s = rep \<and> fetch_structure cx t s = (Inr current, s')
    \<and> (\<forall>m c. map_of (tables_structure rep) t = Some (m, c) \<longrightarrow> same_structure m current))"

definition wanted :: "init_context \<Rightarrow> string \<Rightarrow> bool" where
  "wanted cx t \<longleftrightarrow> is_table_matches (ix_config cx) t = Inr True \<and> \<not> other_table cx t"

lemma changed_tables_none:
  assumes "changed_tables cx ts s = (r, s')"
  shows "in_rep s' = in_rep s \<and> in_state s' = in_state s \<and> (r = Inr [] \<longrightarrow> (\<forall>t \<in> set ts. wanted cx t \<longrightarrow> unchanged cx (in_rep s) t))"
  using assms
proof (induction ts arbitrary: s r s')
  case Nil
  then show ?case by (simp add: retA_def)
next
  case (Cons t ts)
  consider (error) e where "is_table_matches (ix_config cx) t = Inl e"
    | (skip) "changed_tables cx ts s = (r, s')" "\<not> wanted cx t"
    | (check) "is_table_matches (ix_config cx) t = Inr True" "\<not> other_table cx t"
    using Cons.prems by (cases "is_table_matches (ix_config cx) t") (auto simp: bindA_liftA wanted_def split: if_splits)
  then show ?case
  proof cases
    case error
    with Cons.prems show ?thesis by (auto simp: bindA_liftA)
  next
    case skip
    with Cons.IH show ?thesis by auto
  next
    case check
    obtain r1 s1 where f: "fetch_structure cx t s = (r1, s1)" by fastforce
    note frame = fetch_structure_frame [OF f]
    show ?thesis
    proof (cases r1)
      case (Inl e)
      with Cons.prems check f have "r = Inl e" "s' = s1" by (simp_all add: bindA_liftA) (simp_all add: bindA_def)
      with frame show ?thesis by simp
    next
      case (Inr current)
      obtain r2 s2 where c: "changed_tables cx ts s1 = (r2, s2)" by fastforce
      let ?orig = "map_of (tables_structure (in_rep s)) t"
      have res: "s' = s2" "\<And>changed. r2 = Inr changed \<Longrightarrow> r = Inr (case ?orig of None \<Rightarrow> changed
          | Some (m, _) \<Rightarrow> if compare_table_structures m current then changed else t # changed)" "\<And>e. r2 = Inl e \<Longrightarrow> r = Inl e"
        using Cons.prems check f Inr c frame
        by (cases r2; simp add: bindA_liftA; simp add: bindA_def liftA_def retA_def)+
      have "unchanged cx (in_rep s) t" if none: "r = Inr []"
      proof -
        obtain changed where "r2 = Inr changed" using none res(3) by (cases r2) auto
        with res(2) none have "\<forall>m c. ?orig = Some (m, c) \<longrightarrow> same_structure m current"
          by (auto simp: compare_table_structures_iff split: if_splits)
        with f Inr show ?thesis unfolding unchanged_def by blast
      qed
      moreover have "r2 = Inr []" if "r = Inr []"
        using that res(2,3) by (cases r2) (auto split: option.splits prod.splits if_splits)
      ultimately show ?thesis using Cons.IH [OF c] frame res(1) by auto
    qed
  qed
qed

lemma verify_frame:
  assumes "verify_table_structures_after_replication cx s = (r, s')"
  shows "in_rep s' = in_rep s \<and> (r = Inr () \<longrightarrow> (\<forall>t \<in> set (state_tables (in_state s)). wanted cx t \<longrightarrow> unchanged cx (in_rep s) t))"
proof -
  obtain r1 s1 where c: "changed_tables cx (state_tables (in_state s)) s = (r1, s1)" by fastforce
  then have "s' = s1" "r = Inr () \<Longrightarrow> r1 = Inr []"
    using assms by (auto simp: verify_table_structures_after_replication_def bindA_def raiseA_def retA_def split: sum.splits if_splits)
  with changed_tables_none [OF c] show ?thesis by auto
qed

text \<open>The state that the copy of the tables starts from.\<close>

definition copy_start :: "init_context \<Rightarrow> initial \<Rightarrow> initial" where
  "copy_start cx s = snd (bindA (set_api_database (ix_tmp_database cx)) (\<lambda>_.
     bindA (on_state (\<lambda>st. st\<lparr>db_status := PERFORMING_INITIAL_REPLICATION\<rparr>)) (\<lambda>_. state_save)) s)"



end
