(* ===== verification/DbReplicator.thy ===== *)
theory DbReplicator
  imports InitialSwap DataReader
begin

text \<open>
  The process of a database: the class \<^verbatim>\<open>DbReplicator\<close> of \<^verbatim>\<open>db_replicator.py\<close>, with \<^verbatim>\<open>get_system_setting\<close> of
  \<^verbatim>\<open>clickhouse_api.py\<close>. It decides from the state file whether to copy the database, to go on
  with a copy, or to go on with the relay files. \<^verbatim>\<open>sha256\<close> is a parameter; the relay files are
  the directory as it is when their last position is read.
\<close>

section \<open>Setting up\<close>

record db_args =
  arg_database :: string
  arg_target_database :: string
  arg_initial_only :: bool
  arg_worker_id :: "int option"
  arg_total_workers :: "int option"
  arg_table :: string
  arg_test_fail_records :: "int option"
  arg_skip :: bool

definition resolve_target_database :: "Settings \<Rightarrow> (py_val \<Rightarrow> string) \<Rightarrow> db_args \<Rightarrow> string" where
  "resolve_target_database cfg str args =
    (let from_config = (case target_databases cfg of VDict kvs \<Rightarrow> kwfield kvs (arg_database args) VNone | _ \<Rightarrow> VNone) in
     if arg_target_database args \<noteq> [] then arg_target_database args
     else if truthy from_config then (case from_config of VStr t \<Rightarrow> t | v \<Rightarrow> str v)
     else arg_database args)"

definition is_parallel_worker :: "db_args \<Rightarrow> bool" where
  "is_parallel_worker args \<longleftrightarrow> arg_worker_id args \<noteq> None \<and> arg_total_workers args \<noteq> None"

text \<open>The name of the state file in the directory of the database.\<close>

definition state_file_name :: "(string \<Rightarrow> string) \<Rightarrow> db_args \<Rightarrow> string" where
  "state_file_name sha256 args =
    (case (arg_worker_id args, arg_total_workers args) of
       (Some w, Some n) \<Rightarrow>
         ''state_worker_'' @ str_int w @ ''_of_'' @ str_int n @ ''_''
           @ (if arg_table args \<noteq> [] then take 16 (sha256 (arg_table args)) else ''all_tables'') @ ''.pckl''
     | _ \<Rightarrow> ''state.pckl'')"

definition skips_initial :: "Settings \<Rightarrow> db_args \<Rightarrow> bool" where
  "skips_initial cfg args \<longleftrightarrow> arg_skip args \<or> truthy (skip_initial_replication cfg)"

definition target_database_tmp :: "Settings \<Rightarrow> string \<Rightarrow> db_args \<Rightarrow> string" where
  "target_database_tmp cfg target args =
    (if is_parallel_worker args \<or> truthy (ignore_deletes cfg) \<or> cluster_mode cfg
        \<or> is_multiple_mysql_dbs_to_single_ch_db cfg (arg_database args) target \<or> skips_initial cfg args
     then target else target @ ''_tmp'')"

text \<open>What \<open>lib\<close> gives are the functions of Python and of libraries, and the answers of ClickHouse.\<close>

definition new_db_replicator :: "Settings \<Rightarrow> db_args \<Rightarrow> init_context \<Rightarrow> init_context" where
  "new_db_replicator cfg args lib =
    (let target = resolve_target_database cfg (rep_str (ix_rep lib)) args in
     lib\<lparr>ix_rt := (ix_rt lib)\<lparr>rx_rep := \<lparr>rep_settings = cfg, rep_database = arg_database args, rep_target_database = target,
             rep_str = rep_str (ix_rep lib)\<rparr>, rx_initial_only := arg_initial_only args\<rparr>,
         ix_tmp_database := target_database_tmp cfg target args,
         ix_single_table := arg_table args, ix_worker_id := arg_worker_id args, ix_total_workers := arg_total_workers args,
         ix_is_parallel_worker := is_parallel_worker args,
         ix_multi := is_multiple_mysql_dbs_to_single_ch_db cfg (arg_database args) target,
         ix_skip := skips_initial cfg args, ix_test_fail_records := arg_test_fail_records args\<rparr>)"

text \<open>The process starts with the state of its file; the ClickHouse client shares its record versions.\<close>

definition start_process :: "init_context \<Rightarrow> saved_state option \<Rightarrow> api \<Rightarrow> mysql_api \<Rightarrow> int list \<Rightarrow> directory \<Rightarrow> (int \<Rightarrow> int option) list \<Rightarrow> initial" where
  "start_process cx file api my clock relay polls =
    (case db_state_load file of
       (st, versions, structures) \<Rightarrow>
         \<lparr>in_rep = \<lparr>tables_structure = structures,
            ch_api = api\<lparr>api_database := rep_target_database (ix_rep cx), tables_last_record_version := versions\<rparr>\<rparr>,
          in_state = st, in_own_versions = None, in_saved = file, in_mysql = my, last_touch_time = 0, in_last_save_time = 0,
          in_clock = clock, in_relay = relay, in_launched = [], in_workers = [], in_polls = polls\<rparr>)"

section \<open>Running\<close>

definition get_system_setting :: "query_fun \<Rightarrow> string \<Rightarrow> py_val option res" where
  "get_system_setting q n =
    bindE (select q ''system.settings'' (''name = '' @ [squote] @ n @ [squote]) None) (\<lambda>results.
    Inr (case results of [] \<Rightarrow> None | d # _ \<Rightarrow> map_of d ''value''))"

definition validate_database_settings :: "init_context \<Rightarrow> (initial, unit) act" where
  "validate_database_settings cx =
    (if rx_initial_only (ix_rt cx) then retA ()
     else bindA (liftA (\<lambda>_. get_system_setting (ix_query cx) ''final'')) (\<lambda>_. retA ()))"

record run_context =
  rc_init :: init_context
  rc_loads :: "byte list \<Rightarrow> log_event res"
  rc_relay :: data_dir
  rc_polls :: "log_event option list"
  rc_start_time :: int

definition rc_target :: "run_context \<Rightarrow> string" where
  "rc_target rc = rep_target_database (ix_rep (rc_init rc))"

text \<open>\<^verbatim>\<open>State.remove\<close> and a new state, which has record versions of its own.\<close>

definition reset_state :: "initial \<Rightarrow> initial" where
  "reset_state s =
    s\<lparr>in_saved := None, in_state := new_db_state, in_own_versions := Some [],
      in_rep := (in_rep s)\<lparr>tables_structure := []\<rparr>\<rparr>"

definition ensure_target_exists :: "run_context \<Rightarrow> (initial, unit) act" where
  "ensure_target_exists rc s =
    (if db_status (in_state s) = NONE then (Inr (), s)
     else
       bindA (liftA (\<lambda>_. get_databases (ix_query (rc_init rc)))) (\<lambda>dbs.
       if VStr (rc_target rc) \<in> set dbs then retA ()
       else
         bindA (liftA (\<lambda>_. get_databases (ix_query (rc_init rc)))) (\<lambda>dbs.
         if VStr (rc_target rc @ ''_tmp'') \<in> set dbs then retA () else modifyA reset_state)) s)"

text \<open>Realtime replication, from here on with the state of \<^typ>\<open>realtime\<close>.\<close>

definition go_realtime :: "run_context \<Rightarrow> (initial, unit) act" where
  "go_realtime rc s =
    (case run_realtime_replication (ix_rt (rc_init rc)) (rc_polls rc)
        (new_realtime (in_rep s) (in_state s) (in_saved s) (rc_start_time rc) (in_clock s)) of
       (r, rt) \<Rightarrow> (r, s\<lparr>in_rep := rt_rep rt, in_state := rt_state rt, in_saved := rt_saved rt, in_clock := rt_clock rt\<rparr>))"

fun matching_tables :: "Settings \<Rightarrow> string list \<Rightarrow> string list res" where
  "matching_tables cfg [] = Inr []"
| "matching_tables cfg (t # ts) =
    bindE (is_table_matches cfg t) (\<lambda>b. bindE (matching_tables cfg ts) (\<lambda>us. Inr (if b then t # us else us)))"

definition find_tables :: "run_context \<Rightarrow> (initial, unit) act" where
  "find_tables rc =
    bindA (in_on_mysql mysql_get_tables) (\<lambda>ts.
    bindA (on_state (\<lambda>st. st\<lparr>state_tables := ts\<rparr>)) (\<lambda>_.
    bindA (liftA (\<lambda>_. matching_tables (ix_config (rc_init rc)) ts)) (\<lambda>ts.
    on_state (\<lambda>st. st\<lparr>state_tables := ts\<rparr>))))"

definition relay_end :: "run_context \<Rightarrow> transaction option res" where
  "relay_end rc = fst (get_last_transaction_id (rc_loads rc) (rep_database (ix_rep (rc_init rc))) (rc_relay rc))"

definition note_relay_end :: "run_context \<Rightarrow> (initial, unit) act" where
  "note_relay_end rc =
    bindA (liftA (\<lambda>_. relay_end rc)) (\<lambda>t. on_state (\<lambda>st. st\<lparr>last_processed_transaction := t\<rparr>))"

definition prepare_database :: "run_context \<Rightarrow> (initial, unit) act" where
  "prepare_database rc =
    (let cx = rc_init rc; target = rc_target rc in
     if truthy (ignore_deletes (ix_config cx)) \<or> ix_multi cx then
       bindA (set_api_database target) (\<lambda>_.
       bindA (liftA (\<lambda>_. get_databases (ix_query cx))) (\<lambda>dbs.
       if VStr target \<in> set dbs then retA ()
       else bindA (in_on_api (create_database target True)) (\<lambda>_. retA ())))
     else
       bindA (set_api_database (ix_tmp_database cx)) (\<lambda>_.
       if ix_is_parallel_worker cx then retA () else bindA (in_on_api recreate_database) (\<lambda>_. retA ())))"

definition run_without_copy :: "run_context \<Rightarrow> (initial, unit) act" where
  "run_without_copy rc =
    bindA (set_api_database (rc_target rc)) (\<lambda>_.
    bindA (find_tables rc) (\<lambda>_.
    bindA (note_relay_end rc) (\<lambda>_.
    bindA (parse_tables_structure (rc_init rc)) (\<lambda>_.
    bindA state_save (\<lambda>_. go_realtime rc)))))"

definition run_from_scratch :: "run_context \<Rightarrow> (initial, unit) act" where
  "run_from_scratch rc =
    bindA (prepare_database rc) (\<lambda>_.
    bindA (find_tables rc) (\<lambda>_.
    bindA (note_relay_end rc) (\<lambda>_.
    bindA state_save (\<lambda>_.
    bindA (create_initial_structure (rc_init rc)) (\<lambda>_.
    bindA (perform_initial_replication (rc_init rc)) (\<lambda>_. go_realtime rc))))))"

definition run_db_replicator :: "run_context \<Rightarrow> (initial, unit) act" where
  "run_db_replicator rc =
    bindA (validate_database_settings (rc_init rc)) (\<lambda>_.
    bindA (ensure_target_exists rc) (\<lambda>_ s.
      if db_status (in_state s) = RUNNING_REALTIME_REPLICATION then go_realtime rc s
      else if db_status (in_state s) = PERFORMING_INITIAL_REPLICATION then
        bindA (perform_initial_replication (rc_init rc)) (\<lambda>_. go_realtime rc) s
      else if ix_skip (rc_init rc) then run_without_copy rc s
      else run_from_scratch rc s))"

section \<open>Where realtime replication starts\<close>

text \<open>Methods that leave the position of the state alone.\<close>

definition keeps :: "(initial, 'a) act \<Rightarrow> bool" where
  "keeps m \<longleftrightarrow> (\<forall>s. last_processed_transaction (in_state (snd (m s))) = last_processed_transaction (in_state s))"

named_theorems keeping \<open>methods that keep the position\<close>

lemma keeps_bindA [keeping]: "keeps m \<Longrightarrow> (\<And>x. keeps (f x)) \<Longrightarrow> keeps (bindA m f)"
  unfolding keeps_def bindA_def by (auto split: prod.split sum.split) (metis snd_conv)+

lemma keeps_state: "(\<And>s. keeps (f s)) \<Longrightarrow> keeps (\<lambda>s. f s s)"
  by (simp add: keeps_def)

lemma keeps_basic [keeping]:
  "keeps (retA x)" "keeps (raiseA e)" "keeps (liftA g)" "keeps (in_on_rep h)" "keeps (in_on_api k)" "keeps (in_on_mysql l)"
  "keeps state_save" "keeps in_time" "keeps (set_api_database db)"
  by (simp_all add: keeps_def retA_def raiseA_def liftA_def in_on_rep_def in_on_api_def in_on_mysql_def state_save_def modifyA_def
      in_time_def set_api_database_def split: prod.split list.split)

lemma keeps_on_state [keeping]:
  "(\<And>st. last_processed_transaction (f st) = last_processed_transaction st) \<Longrightarrow> keeps (on_state f)"
  by (simp add: keeps_def on_state_def modifyA_def)

lemma keeps_modifyA [keeping]: "(\<And>s. in_state (f s) = in_state s) \<Longrightarrow> keeps (modifyA f)"
  by (simp add: keeps_def modifyA_def)

lemma keeps_mapA [keeping]: "(\<And>x. keeps (f x)) \<Longrightarrow> keeps (mapA f xs)"
  by (induction xs) (auto intro: keeping)

lemma keeps_if [keeping]: "keeps m \<Longrightarrow> keeps n \<Longrightarrow> keeps (if b then m else n)"
  by simp

lemma keepsI: "(\<And>s r s'. m s = (r, s') \<Longrightarrow> in_state s' = in_state s) \<Longrightarrow> keeps m"
  unfolding keeps_def by (metis prod.collapse)

lemma keeps_periodic [keeping]: "keeps (initial_save_state_if_required force)" "keeps prevent_binlog_removal"
proof -
  show "keeps (initial_save_state_if_required force)"
    by (rule keepsI) (metis initial_save_frame prod.inject same_data_def)
  show "keeps prevent_binlog_removal"
    by (rule keepsI) (metis prevent_binlog_removal_frame prod.inject same_data_def)
qed

lemma keeps_pages [keeping]: "keeps (read_page cx cp key)" "keeps (store_page cx cp recs)"
  unfolding read_page_def store_page_def by (intro keeping; simp)+

lemma keeps_copy_loop [keeping]: "keeps (copy_loop n cx cp key count)"
  by (induction n arbitrary: key count) (auto simp: Let_def intro!: keeping)

lemma keeps_start_copy [keeping]: "keeps (start_copy t)"
  by (simp add: keeps_def start_copy_def on_state_def state_save_def bindA_def modifyA_def retA_def)

lemma keeps_copy_table [keeping]: "keeps (copy_table cx t)"
  unfolding copy_table_def
  by (intro keeps_bindA keeps_state [of "\<lambda>s. copy_loop (Suc (length (my_answers (in_mysql s)))) cx _ _ 0"]) (auto intro: keeping simp del: copy_loop.simps)

lemma keeps_parallel [keeping]: "keeps (perform_initial_replication_table_parallel cx t)"
proof -
  have "keeps (\<lambda>s. wait_workers (in_polls s) s)"
    by (rule keepsI) (use wait_workers_copied in blast)
  moreover have "keeps (consolidate_worker_record_versions cx t)"
    by (auto simp: keeps_def consolidate_worker_record_versions_def bindA_def modifyA_def state_save_def update_state_version_def Let_def
        split: option.split)
  ultimately show ?thesis
    unfolding perform_initial_replication_table_parallel_def launch_worker_def by (intro keeping) simp_all
qed

lemma keeps_table [keeping]: "keeps (perform_initial_replication_table cx t)"
  unfolding perform_initial_replication_table_def by (intro keeping) simp_all

lemma keeps_copy_tables [keeping]: "keeps (copy_tables cx start ts)"
  by (induction ts arbitrary: start) (auto intro: keeping split: option.split)

lemma keeps_fetch [keeping]: "keeps (fetch_structure cx t)"
  unfolding fetch_structure_def by (intro keeping)

lemma keeps_changed_tables [keeping]: "keeps (changed_tables cx ts)"
  by (rule keepsI) (use changed_tables_none in blast)

lemma keeps_finish [keeping]: "keeps (finish_initial_replication cx)"
proof -
  have "keeps (verify_table_structures_after_replication cx)"
    unfolding verify_table_structures_after_replication_def
    by (intro keeps_bindA keeps_state [of "\<lambda>s. changed_tables cx (state_tables (in_state s))"]) (auto intro: keeping)
  then show ?thesis
    unfolding finish_initial_replication_def swap_databases_def rename_database_def execute_post_initial_replication_commands_def Let_def
    by (intro keeping)
qed

lemma keeps_perform [keeping]: "keeps (perform_initial_replication cx)"
  unfolding perform_initial_replication_def
  by (intro keeps_bindA keeps_state [of "\<lambda>s. copy_tables cx (initial_replication_table (in_state s)) (state_tables (in_state s))"])
    (auto intro: keeping)

lemma keeps_structures [keeping]: "keeps (create_initial_structure cx)" "keeps (parse_tables_structure cx)"
proof -
  have t: "keeps (create_initial_structure_table cx t)" "keeps (parse_table_structure cx t)" for t
    unfolding create_initial_structure_table_def parse_table_structure_def Let_def by (intro keeping)+
  show "keeps (create_initial_structure cx)"
    unfolding create_initial_structure_def
    by (intro keeps_bindA keeps_state [of "\<lambda>s. mapA (create_initial_structure_table cx) (state_tables (in_state s))"])
      (auto intro: keeping t)
  have "keeps (\<lambda>s. mapA (parse_table_structure cx) (state_tables (in_state s)) s)"
    by (rule keeps_state) (intro keeping t)
  moreover have "parse_tables_structure cx = (\<lambda>s. mapA (parse_table_structure cx) (state_tables (in_state s)) s)"
    by (rule ext) (simp add: parse_tables_structure_def)
  ultimately show "keeps (parse_tables_structure cx)" by simp
qed

lemma keepsD: "keeps m \<Longrightarrow> m s = (r, s') \<Longrightarrow> last_processed_transaction (in_state s') = last_processed_transaction (in_state s)"
  unfolding keeps_def by (metis snd_conv)

text \<open>Whether the state of the file is gone on with, and whether tables are copied before the relay is read.\<close>

definition target_exists :: "run_context \<Rightarrow> bool" where
  "target_exists rc = (case get_databases (ix_query (rc_init rc)) of
     Inl _ \<Rightarrow> False | Inr found \<Rightarrow> VStr (rc_target rc) \<in> set found \<or> VStr (rc_target rc @ ''_tmp'') \<in> set found)"

definition resumed :: "run_context \<Rightarrow> initial \<Rightarrow> bool" where
  "resumed rc s \<longleftrightarrow> db_status (in_state s) \<in> {RUNNING_REALTIME_REPLICATION, PERFORMING_INITIAL_REPLICATION} \<and> target_exists rc"

definition copies_first :: "run_context \<Rightarrow> initial \<Rightarrow> bool" where
  "copies_first rc s \<longleftrightarrow> (if resumed rc s then db_status (in_state s) = PERFORMING_INITIAL_REPLICATION else \<not> ix_skip (rc_init rc))"

lemma bindA_reach:
  assumes "bindA m f s = (r, s')"
  obtains (raised) e where "r = Inl e" | (reached) x u where "m s = (Inr x, u)" "f x u = (r, s')"
  using assms by (cases "m s"; cases "fst (m s)") (auto simp: bindA_def)

lemma ensure_target_cases:
  assumes "ensure_target_exists rc s = (Inr u, s1)"
  shows "s1 = (if db_status (in_state s) = NONE \<or> target_exists rc then s else reset_state s)"
  using assms by (auto simp: ensure_target_exists_def target_exists_def bindA_liftA retA_def modifyA_def split: sum.splits if_splits)

lemma note_relay_end_cases:
  "note_relay_end rc s = (Inr u, s1) \<Longrightarrow> relay_end rc = Inr (last_processed_transaction (in_state s1))"
  by (auto simp: note_relay_end_def on_state_def bindA_liftA modifyA_def split: sum.splits)

text \<open>How the relay is reached: from which position, and with which copy before.\<close>

definition hands_over :: "run_context \<Rightarrow> bool \<Rightarrow> transaction option \<Rightarrow> initial \<Rightarrow> bool" where
  "hands_over rc copied t s1 \<longleftrightarrow> last_processed_transaction (in_state s1) = t
    \<and> (copied \<longrightarrow> (\<exists>s0. perform_initial_replication (rc_init rc) s0 = (Inr (), s1) \<and> last_processed_transaction (in_state s0) = t))"

lemma perform_hands_over:
  assumes "bindA (perform_initial_replication (rc_init rc)) (\<lambda>_. go_realtime rc) s = (r, s')"
  shows "(\<exists>e. r = Inl e) \<or> (\<exists>s1. go_realtime rc s1 = (r, s') \<and> hands_over rc True (last_processed_transaction (in_state s)) s1)"
  using assms
proof (cases rule: bindA_reach)
  case (reached x u)
  then show ?thesis using keepsD [OF keeps_perform reached(1)] by (auto simp: hands_over_def)
qed simp

lemma run_from_scratch_cases:
  assumes "run_from_scratch rc s = (r, s')"
  shows "(\<exists>e. r = Inl e) \<or> (\<exists>t s1. relay_end rc = Inr t \<and> go_realtime rc s1 = (r, s') \<and> hands_over rc True t s1)"
proof -
  from assms show ?thesis
    unfolding run_from_scratch_def
  proof (elim bindA_reach)
    fix u1 s1 u2 s2 u3 s3 u4 s4 u5 s5 u6 s6
    assume 3: "note_relay_end rc s2 = (Inr u3, s3)" and 4: "state_save s3 = (Inr u4, s4)"
      and 5: "create_initial_structure (rc_init rc) s4 = (Inr u5, s5)"
      and 6: "perform_initial_replication (rc_init rc) s5 = (Inr u6, s6)" and 7: "go_realtime rc s6 = (r, s')"
    have "last_processed_transaction (in_state s5) = last_processed_transaction (in_state s3)"
      using keepsD [OF keeps_basic(7) 4] keepsD [OF keeps_structures(1) 5] by simp
    moreover have "last_processed_transaction (in_state s6) = last_processed_transaction (in_state s5)"
      using keepsD [OF keeps_perform 6] .
    ultimately have "hands_over rc True (last_processed_transaction (in_state s3)) s6"
      using 6 by (auto simp: hands_over_def)
    with note_relay_end_cases [OF 3] 7 show ?thesis by blast
  qed auto
qed

lemma run_without_copy_cases:
  assumes "run_without_copy rc s = (r, s')"
  shows "(\<exists>e. r = Inl e) \<or> (\<exists>t s1. relay_end rc = Inr t \<and> go_realtime rc s1 = (r, s') \<and> hands_over rc False t s1)"
proof -
  from assms show ?thesis
    unfolding run_without_copy_def
  proof (elim bindA_reach)
    fix u1 s1 u2 s2 u3 s3 u4 s4 u5 s5
    assume 3: "note_relay_end rc s2 = (Inr u3, s3)" and 4: "parse_tables_structure (rc_init rc) s3 = (Inr u4, s4)"
      and 5: "state_save s4 = (Inr u5, s5)" and 6: "go_realtime rc s5 = (r, s')"
    have "last_processed_transaction (in_state s5) = last_processed_transaction (in_state s3)"
      using keepsD [OF keeps_structures(2) 4] keepsD [OF keeps_basic(7) 5] by simp
    with note_relay_end_cases [OF 3] 6 show ?thesis by (auto simp: hands_over_def)
  qed auto
qed


text \<open>A process that goes on with a copy of a database without tables.\<close>

definition sample_run :: run_context where
  "sample_run = \<lparr>rc_init = sample_init\<lparr>ix_query := (\<lambda>q. Inr ([''name''], if q = ''SHOW DATABASES'' then [[VStr ''shop_ch'']] else []))\<rparr>,
     rc_loads = (\<lambda>_. Inl ValueError), rc_relay = \<lparr>dir_exists = True, dbs = [], state_json = None\<rparr>, rc_polls = [None], rc_start_time = 0\<rparr>"

definition sample_process :: initial where
  "sample_process = start_process (rc_init sample_run)
     (Some \<lparr>saved_transaction = Some (''mysql-bin.000007'', 4), saved_status = PERFORMING_INITIAL_REPLICATION, saved_versions = [],
        saved_table = None, saved_max_primary_key = None, saved_structures = [], saved_tables = []\<rparr>)
     (sample_api [] []) (in_mysql (sample_initial 0)) [] None []"


end
