(* ===== verification/Packet.thy ===== *)
theory Packet
  imports PyValue
begin

text \<open>
  \<^verbatim>\<open>pymysqlreplication/packet.py\<close>: \<^verbatim>\<open>BinLogPacketWrapper\<close>, the reader all binlog events are decoded
  with. The wrapped packet is an object of \<^verbatim>\<open>pymysql\<close> and therefore an argument: its \<^verbatim>\<open>read\<close>,
  \<^verbatim>\<open>advance\<close> and \<^verbatim>\<open>rewind\<close>, the number of bytes behind its position, and the attribute
  \<^verbatim>\<open>unpack_int64\<close> that the wrapper takes from it. What they are documented to do is the contract
  \<^verbatim>\<open>byte_source\<close>; under it every reader of the wrapper takes exactly the bytes of one encoded value
  off the front of what is left (\<^verbatim>\<open>reads\<close>), whether they come from the wrapper's own buffer or from
  the packet.
\<close>

section \<open>State\<close>

record 'p packet_ops =
  pk_read :: "int \<Rightarrow> ('p, byte list) act"
  pk_advance :: "int \<Rightarrow> ('p, unit) act"
  pk_rewind :: "int \<Rightarrow> ('p, unit) act"
  pk_left :: "'p \<Rightarrow> int"
  pk_unpack_int64 :: "byte list \<Rightarrow> nat res"

record 'p wrapper =
  pw_packet :: 'p
  pw_read_bytes :: int
  pw_buffer :: "byte list"
  pw_timestamp :: nat
  pw_event_type :: nat
  pw_server_id :: nat
  pw_event_size :: nat
  pw_log_pos :: nat
  pw_flags :: nat

text \<open>The slices \<^verbatim>\<open>xs[:n]\<close> and \<^verbatim>\<open>xs[n:]\<close>, with a negative \<open>n\<close> counting from the end.\<close>

definition slice_to :: "'a list \<Rightarrow> int \<Rightarrow> 'a list" where
  "slice_to xs n = (if 0 \<le> n then take (nat n) xs else take (length xs - nat (- n)) xs)"

definition slice_from :: "'a list \<Rightarrow> int \<Rightarrow> 'a list" where
  "slice_from xs n = (if 0 \<le> n then drop (nat n) xs else drop (length xs - nat (- n)) xs)"

definition on_packet :: "('p, 'a) act \<Rightarrow> ('p wrapper, 'a) act" where
  "on_packet m = (\<lambda>w. case m (pw_packet w) of (r, p) \<Rightarrow> (r, w\<lparr>pw_packet := p\<rparr>))"

text \<open>A pure computation on a value that was read; an operation on \<^verbatim>\<open>None\<close> raises TypeError.\<close>

definition pureA :: "'a res \<Rightarrow> ('s, 'a) act" where
  "pureA r = liftA (\<lambda>_. r)"

definition notNone :: "'a option \<Rightarrow> 'a res" where
  "notNone x = (case x of None \<Rightarrow> Inl TypeError | Some y \<Rightarrow> Inr y)"

section \<open>Bytes\<close>

definition packet_read :: "'p packet_ops \<Rightarrow> int \<Rightarrow> ('p wrapper, byte list) act" where
  "packet_read P sz = (\<lambda>w.
    let w1 = w\<lparr>pw_read_bytes := pw_read_bytes w + sz\<rparr> in
    if 0 < length (pw_buffer w1) then
      let data = slice_to (pw_buffer w1) sz;
          w2 = w1\<lparr>pw_buffer := slice_from (pw_buffer w1) sz\<rparr>
      in if int (length data) = sz then (Inr data, w2)
         else bindA (on_packet (pk_read P (sz - int (length data)))) (\<lambda>bs. retA (data @ bs)) w2
    else on_packet (pk_read P sz) w1)"

definition packet_unread :: "byte list \<Rightarrow> ('p wrapper, unit) act" where
  "packet_unread data =
    modifyA (\<lambda>w. w\<lparr>pw_read_bytes := pw_read_bytes w - int (length data), pw_buffer := pw_buffer w @ data\<rparr>)"

definition packet_advance :: "'p packet_ops \<Rightarrow> int \<Rightarrow> ('p wrapper, unit) act" where
  "packet_advance P sz = (\<lambda>w.
    let w1 = w\<lparr>pw_read_bytes := pw_read_bytes w + sz\<rparr>;
        buffer_len = int (length (pw_buffer w1))
    in if 0 < buffer_len then
         let w2 = w1\<lparr>pw_buffer := slice_from (pw_buffer w1) sz\<rparr>
         in if buffer_len < sz then on_packet (pk_advance P (sz - buffer_len)) w2 else (Inr (), w2)
       else on_packet (pk_advance P sz) w1)"

definition bytes_to_read :: "'p packet_ops \<Rightarrow> 'p wrapper \<Rightarrow> int" where
  "bytes_to_read P w = pk_left P (pw_packet w)"

text \<open>All bytes but the four of the checksum, read past the wrapper.\<close>

definition read_available :: "'p packet_ops \<Rightarrow> ('p wrapper, byte list) act" where
  "read_available P = (\<lambda>w. on_packet (pk_read P (bytes_to_read P w - 4)) w)"

section \<open>Integers\<close>

definition read_uint8 :: "'p packet_ops \<Rightarrow> ('p wrapper, nat) act" where
  "read_uint8 P = bindA (packet_read P 1) (\<lambda>bs. pureA (unpack_le 1 bs))"

definition read_int16 :: "'p packet_ops \<Rightarrow> ('p wrapper, int) act" where
  "read_int16 P = bindA (packet_read P 2) (\<lambda>bs. pureA (unpack_le_signed 2 bs))"

definition read_uint16 :: "'p packet_ops \<Rightarrow> ('p wrapper, nat) act" where
  "read_uint16 P = bindA (packet_read P 2) (\<lambda>bs. pureA (unpack_le 2 bs))"

text \<open>\<^verbatim>\<open>struct.unpack("BBB", data)\<close>.\<close>

definition unpack_BBB :: "byte list \<Rightarrow> (nat \<times> nat \<times> nat) res" where
  "unpack_BBB bs = (case bs of [a, b, c] \<Rightarrow> Inr (unat a, unat b, unat c) | _ \<Rightarrow> Inl StructError)"

definition read_uint24 :: "'p packet_ops \<Rightarrow> ('p wrapper, nat) act" where
  "read_uint24 P = bindA (packet_read P 3) (\<lambda>bs. pureA (bindE (unpack_BBB bs) (\<lambda>(a, b, c).
     Inr (a + push_bit 8 b + push_bit 16 c))))"

definition sign24 :: "nat \<Rightarrow> int" where
  "sign24 n = (if 0x800000 \<le> n then int n - 0x1000000 else int n)"

definition read_int24 :: "'p packet_ops \<Rightarrow> ('p wrapper, int) act" where
  "read_int24 P = bindA (packet_read P 3) (\<lambda>bs. pureA (bindE (unpack_BBB bs) (\<lambda>(a, b, c).
     Inr (sign24 (a OR push_bit 8 b OR push_bit 16 c)))))"

definition read_int24_be :: "'p packet_ops \<Rightarrow> ('p wrapper, int) act" where
  "read_int24_be P = bindA (packet_read P 3) (\<lambda>bs. pureA (bindE (unpack_BBB bs) (\<lambda>(a, b, c).
     Inr (sign24 (push_bit 16 a OR push_bit 8 b OR c)))))"

definition read_uint32 :: "'p packet_ops \<Rightarrow> ('p wrapper, nat) act" where
  "read_uint32 P = bindA (packet_read P 4) (\<lambda>bs. pureA (unpack_le 4 bs))"

definition read_int32 :: "'p packet_ops \<Rightarrow> ('p wrapper, int) act" where
  "read_int32 P = bindA (packet_read P 4) (\<lambda>bs. pureA (unpack_le_signed 4 bs))"

text \<open>The formats of several fields: each field unpacks its part of the data.\<close>

definition read_uint40 :: "'p packet_ops \<Rightarrow> ('p wrapper, nat) act" where
  "read_uint40 P = bindA (packet_read P 5) (\<lambda>bs. pureA
     (bindE (unpack_le 1 (take 1 bs)) (\<lambda>a. bindE (unpack_le 4 (drop 1 bs)) (\<lambda>b. Inr (a + push_bit 8 b)))))"

definition read_int40_be :: "'p packet_ops \<Rightarrow> ('p wrapper, nat) act" where
  "read_int40_be P = bindA (packet_read P 5) (\<lambda>bs. pureA
     (bindE (unpack_be 4 (take 4 bs)) (\<lambda>a. bindE (unpack_be 1 (drop 4 bs)) (\<lambda>b. Inr (b + push_bit 8 a)))))"

definition read_uint48 :: "'p packet_ops \<Rightarrow> ('p wrapper, nat) act" where
  "read_uint48 P = bindA (packet_read P 6) (\<lambda>bs. pureA
     (bindE (unpack_le 2 (take 2 bs)) (\<lambda>a. bindE (unpack_le 2 (take 2 (drop 2 bs))) (\<lambda>b.
      bindE (unpack_le 2 (drop 4 bs)) (\<lambda>c. Inr (a + push_bit 16 b + push_bit 32 c))))))"

definition read_uint56 :: "'p packet_ops \<Rightarrow> ('p wrapper, nat) act" where
  "read_uint56 P = bindA (packet_read P 7) (\<lambda>bs. pureA
     (bindE (unpack_le 1 (take 1 bs)) (\<lambda>a. bindE (unpack_le 2 (take 2 (drop 1 bs))) (\<lambda>b.
      bindE (unpack_le 4 (drop 3 bs)) (\<lambda>c. Inr (a + push_bit 8 b + push_bit 24 c))))))"

definition read_uint64 :: "'p packet_ops \<Rightarrow> ('p wrapper, nat) act" where
  "read_uint64 P = bindA (packet_read P 8) (\<lambda>bs. pureA (unpack_le 8 bs))"

definition read_int64 :: "'p packet_ops \<Rightarrow> ('p wrapper, int) act" where
  "read_int64 P = bindA (packet_read P 8) (\<lambda>bs. pureA (unpack_le_signed 8 bs))"

text \<open>
  The readers by size fall off their last branch for other sizes and give \<^verbatim>\<open>None\<close>. For eight bytes
  the big-endian reader unpacks the four-byte format \<^verbatim>\<open>>l\<close>, which raises.
\<close>

definition read_int_be_by_size :: "'p packet_ops \<Rightarrow> nat \<Rightarrow> ('p wrapper, int option) act" where
  "read_int_be_by_size P sz =
    (if sz = 1 then bindA (packet_read P 1) (\<lambda>bs. pureA (bindE (unpack_be_signed 1 bs) (\<lambda>i. Inr (Some i))))
     else if sz = 2 then bindA (packet_read P 2) (\<lambda>bs. pureA (bindE (unpack_be_signed 2 bs) (\<lambda>i. Inr (Some i))))
     else if sz = 3 then bindA (read_int24_be P) (\<lambda>i. retA (Some i))
     else if sz = 4 then bindA (packet_read P 4) (\<lambda>bs. pureA (bindE (unpack_be_signed 4 bs) (\<lambda>i. Inr (Some i))))
     else if sz = 5 then bindA (read_int40_be P) (\<lambda>n. retA (Some (int n)))
     else if sz = 8 then bindA (packet_read P 8) (\<lambda>bs. pureA (bindE (unpack_be_signed 4 bs) (\<lambda>i. Inr (Some i))))
     else retA None)"

definition read_uint_by_size :: "'p packet_ops \<Rightarrow> nat \<Rightarrow> ('p wrapper, nat option) act" where
  "read_uint_by_size P sz =
    (if sz = 1 then bindA (read_uint8 P) (\<lambda>n. retA (Some n))
     else if sz = 2 then bindA (read_uint16 P) (\<lambda>n. retA (Some n))
     else if sz = 3 then bindA (read_uint24 P) (\<lambda>n. retA (Some n))
     else if sz = 4 then bindA (read_uint32 P) (\<lambda>n. retA (Some n))
     else if sz = 5 then bindA (read_uint40 P) (\<lambda>n. retA (Some n))
     else if sz = 6 then bindA (read_uint48 P) (\<lambda>n. retA (Some n))
     else if sz = 7 then bindA (read_uint56 P) (\<lambda>n. retA (Some n))
     else if sz = 8 then bindA (read_uint64 P) (\<lambda>n. retA (Some n))
     else retA None)"

text \<open>The first branch of these two raises TypeError on bytes, so the second is the one taken.\<close>

definition unpack_uint16 :: "byte list \<Rightarrow> nat res" where
  "unpack_uint16 n = unpack_le 2 (take 2 n)"

definition unpack_int24 :: "byte list \<Rightarrow> nat res" where
  "unpack_int24 n =
    bindE (nthE n 0) (\<lambda>a. bindE (nthE n 1) (\<lambda>b. bindE (nthE n 2) (\<lambda>c.
    Inr (unat a + push_bit 8 (unat b) + push_bit 16 (unat c)))))"

definition unpack_int32 :: "byte list \<Rightarrow> nat res" where
  "unpack_int32 n =
    bindE (nthE n 0) (\<lambda>a. bindE (nthE n 1) (\<lambda>b. bindE (nthE n 2) (\<lambda>c. bindE (nthE n 3) (\<lambda>d.
    Inr (unat a + push_bit 8 (unat b) + push_bit 16 (unat c) + push_bit 24 (unat d))))))"

text \<open>\<^verbatim>\<open>None\<close> for the byte 251, and for 255, for which no branch returns.\<close>

definition read_length_coded_binary :: "'p packet_ops \<Rightarrow> ('p wrapper, nat option) act" where
  "read_length_coded_binary P =
    bindA (packet_read P 1) (\<lambda>bs. bindA (pureA (unpack_be 1 bs)) (\<lambda>c.
      if c = 251 then retA None
      else if c < 251 then retA (Some c)
      else if c = 252 then bindA (packet_read P 2) (\<lambda>n. pureA (bindE (unpack_uint16 n) (\<lambda>v. Inr (Some v))))
      else if c = 253 then bindA (packet_read P 3) (\<lambda>n. pureA (bindE (unpack_int24 n) (\<lambda>v. Inr (Some v))))
      else if c = 254 then bindA (packet_read P 8) (\<lambda>n. pureA (bindE (pk_unpack_int64 P n) (\<lambda>v. Inr (Some v))))
      else retA None))"

section \<open>Strings\<close>

text \<open>\<open>decode\<close> is \<^verbatim>\<open>bytes.decode()\<close>.\<close>

definition read_length_coded_string ::
    "(byte list \<Rightarrow> string res) \<Rightarrow> 'p packet_ops \<Rightarrow> ('p wrapper, string option) act" where
  "read_length_coded_string decode P =
    bindA (read_length_coded_binary P) (\<lambda>len. case len of
      None \<Rightarrow> retA None
    | Some n \<Rightarrow> bindA (packet_read P (int n)) (\<lambda>bs. pureA (bindE (decode bs) (\<lambda>s. Inr (Some s)))))"

definition read_length_coded_pascal_string :: "'p packet_ops \<Rightarrow> nat \<Rightarrow> ('p wrapper, byte list) act" where
  "read_length_coded_pascal_string P sz =
    bindA (read_uint_by_size P sz) (\<lambda>len. bindA (pureA (notNone len)) (\<lambda>n. packet_read P (int n)))"

text \<open>
  The loops that read until a byte says stop. The first argument bounds the number of rounds; a
  run that needs more has the outcome \<^const>\<open>LoopBound\<close>, which is no exception of the code. As every
  round reads a byte, the number of bytes left is always enough.
\<close>

fun variable_length :: "nat \<Rightarrow> 'p packet_ops \<Rightarrow> nat \<Rightarrow> nat \<Rightarrow> ('p wrapper, nat) act" where
  "variable_length 0 P len bits_read = raiseA LoopBound"
| "variable_length (Suc rounds) P len bits_read =
    bindA (packet_read P 1) (\<lambda>bs. bindA (pureA (unpack_be 1 bs)) (\<lambda>b.
      let len' = len OR push_bit bits_read (b AND 0x7F)
      in if b AND 0x80 \<noteq> 0 then variable_length rounds P len' (bits_read + 7) else retA len'))"

definition read_variable_length_string :: "nat \<Rightarrow> 'p packet_ops \<Rightarrow> ('p wrapper, byte list) act" where
  "read_variable_length_string rounds P =
    bindA (variable_length rounds P 0 0) (\<lambda>len. packet_read P (int len))"

fun read_until_zero :: "nat \<Rightarrow> 'p packet_ops \<Rightarrow> byte list \<Rightarrow> ('p wrapper, byte list) act" where
  "read_until_zero 0 P str = raiseA LoopBound"
| "read_until_zero (Suc rounds) P str =
    bindA (packet_read P 1) (\<lambda>c. if c = [0] then retA str else read_until_zero rounds P (str @ c))"

definition read_string :: "nat \<Rightarrow> 'p packet_ops \<Rightarrow> ('p wrapper, byte list) act" where
  "read_string rounds P = read_until_zero rounds P []"

text \<open>\<open>to_json\<close> is \<^verbatim>\<open>cpp_mysql_to_json(data).decode('utf-8')\<close>, the C++ parser.\<close>

definition read_binary_json ::
    "(byte list \<Rightarrow> string res) \<Rightarrow> 'p packet_ops \<Rightarrow> nat \<Rightarrow> ('p wrapper, string option) act" where
  "read_binary_json to_json P sz =
    bindA (read_uint_by_size P sz) (\<lambda>len.
      if len = Some 0 then retA None
      else bindA (pureA (notNone len)) (\<lambda>n. bindA (packet_read P (int n)) (\<lambda>data.
           pureA (bindE (to_json data) (\<lambda>s. Inr (Some s))))))"

section \<open>Construction\<close>

text \<open>
  The constructor up to the choice of the event class: the twenty bytes of the header are read
  from the packet itself, so \<^verbatim>\<open>read_bytes\<close> stays zero.
\<close>

definition parse_header :: "'p \<Rightarrow> byte list \<Rightarrow> 'p wrapper res" where
  "parse_header p bs =
    (if length bs \<noteq> 20 then Inl StructError
     else Inr \<lparr>pw_packet = p, pw_read_bytes = 0, pw_buffer = [],
       pw_timestamp = le_nat (take 4 (drop 1 bs)), pw_event_type = unat (bs ! 5),
       pw_server_id = le_nat (take 4 (drop 6 bs)), pw_event_size = le_nat (take 4 (drop 10 bs)),
       pw_log_pos = le_nat (take 4 (drop 14 bs)), pw_flags = le_nat (drop 18 bs)\<rparr>)"

definition new_wrapper :: "'p packet_ops \<Rightarrow> 'p \<Rightarrow> 'p wrapper res" where
  "new_wrapper P p = (case pk_read P 20 p of (r, p') \<Rightarrow> bindE r (parse_header p'))"

text \<open>The size of the body, and whether the checksum is verified.\<close>

definition event_size_without_header :: "bool \<Rightarrow> bool \<Rightarrow> 'p wrapper \<Rightarrow> int \<times> bool" where
  "event_size_without_header use_checksum verify_checksum w =
    (if use_checksum then (int (pw_event_size w) - 23, verify_checksum) else (int (pw_event_size w) - 19, False))"

end
