(* ===== verification/PacketReads.thy ===== *)
theory PacketReads
  imports Packet
begin

text \<open>
  What the readers of \<^verbatim>\<open>BinLogPacketWrapper\<close> do, given a packet that behaves as documented. The
  statement \<open>reads rest m bs v\<close> says of a reader \<open>m\<close>: whenever the bytes left start with \<open>bs\<close>, it
  returns \<open>v\<close>, takes exactly \<open>bs\<close> and counts them. Such statements compose along \<^const>\<open>bindA\<close>, so
  the decoding of a whole event follows from that of its fields.
\<close>

section \<open>The contract of a packet\<close>

locale byte_source =
  fixes P :: "'p packet_ops" and rest :: "'p \<Rightarrow> byte list"
  assumes source_read: "n \<le> length (rest p) \<Longrightarrow>
      \<exists>p'. pk_read P (int n) p = (Inr (take n (rest p)), p') \<and> rest p' = drop n (rest p)"
    and source_advance: "n \<le> length (rest p) \<Longrightarrow>
      \<exists>p'. pk_advance P (int n) p = (Inr (), p') \<and> rest p' = drop n (rest p)"

locale counted_source = byte_source +
  assumes source_left: "pk_left P p = int (length (rest p))"

definition pending :: "('p \<Rightarrow> byte list) \<Rightarrow> 'p wrapper \<Rightarrow> byte list" where
  "pending rest w = pw_buffer w @ rest (pw_packet w)"

text \<open>The wrapper after \<open>n\<close> bytes have been taken from it, the packet being \<open>p\<close> then.\<close>

definition taken :: "nat \<Rightarrow> 'p \<Rightarrow> 'p wrapper \<Rightarrow> 'p wrapper" where
  "taken n p w = w\<lparr>pw_packet := p, pw_read_bytes := pw_read_bytes w + int n, pw_buffer := drop n (pw_buffer w)\<rparr>"

definition reads :: "('p \<Rightarrow> byte list) \<Rightarrow> ('p wrapper, 'a) act \<Rightarrow> byte list \<Rightarrow> 'a \<Rightarrow> bool" where
  "reads rest m bs v \<longleftrightarrow> (\<forall>w behind. pending rest w = bs @ behind \<longrightarrow>
     (\<exists>p. m w = (Inr v, taken (length bs) p w)
        \<and> rest p = drop (length bs - length (pw_buffer w)) (rest (pw_packet w))))"

section \<open>Composition\<close>

lemma taken_fields [simp]:
  "pw_packet (taken n p w) = p" "pw_read_bytes (taken n p w) = pw_read_bytes w + int n"
  "pw_buffer (taken n p w) = drop n (pw_buffer w)" "pw_event_type (taken n p w) = pw_event_type w"
  by (simp_all add: taken_def)

lemma taken_taken: "taken m q (taken n p w) = taken (n + m) q w"
  by (simp add: taken_def add.commute)

lemma readsD:
  assumes "reads rest m bs v" "pending rest w = bs @ behind"
  obtains p where "m w = (Inr v, taken (length bs) p w)" "pending rest (taken (length bs) p w) = behind"
    "rest p = drop (length bs - length (pw_buffer w)) (rest (pw_packet w))"
proof -
  from assms obtain p where p: "m w = (Inr v, taken (length bs) p w)"
    "rest p = drop (length bs - length (pw_buffer w)) (rest (pw_packet w))"
    by (auto simp: reads_def)
  have "pending rest (taken (length bs) p w) = drop (length bs) (pending rest w)"
    using p(2) by (simp add: pending_def)
  then have "pending rest (taken (length bs) p w) = behind" using assms(2) by simp
  with p show ?thesis using that by blast
qed

lemma reads_ret: "reads rest (retA v) [] v"
proof -
  have "w = taken 0 (pw_packet w) w" for w :: "'a wrapper" by (simp add: taken_def)
  then show ?thesis unfolding reads_def retA_def by (metis append_Nil diff_0_eq_0 drop0 list.size(3))
qed

lemma reads_pure: "r = Inr v \<Longrightarrow> reads rest (pureA r) [] v"
  using reads_ret [of rest v] by (simp add: pureA_def liftA_def retA_def)

lemma reads_bind:
  assumes m: "reads rest m bs v" and f: "reads rest (f v) cs u" and ds: "ds = bs @ cs"
  shows "reads rest (bindA m f) ds u"
  unfolding reads_def
proof (intro allI impI)
  fix w behind
  assume "pending rest w = ds @ behind"
  with ds have w: "pending rest w = bs @ cs @ behind" by simp
  from readsD [OF m w] obtain p where p: "m w = (Inr v, taken (length bs) p w)"
    "pending rest (taken (length bs) p w) = cs @ behind"
    "rest p = drop (length bs - length (pw_buffer w)) (rest (pw_packet w))" by blast
  from readsD [OF f p(2)] obtain q where q: "f v (taken (length bs) p w) = (Inr u, taken (length ds) q w)"
    "rest q = drop (length cs - (length (pw_buffer w) - length bs)) (rest p)"
    by (metis ds length_append length_drop taken_fields(1,3) taken_taken)
  have "length cs - (length (pw_buffer w) - length bs) + (length bs - length (pw_buffer w))
      = length ds - length (pw_buffer w)" using ds by simp
  then have "rest q = drop (length ds - length (pw_buffer w)) (rest (pw_packet w))"
    using q(2) p(3) by simp
  moreover have "bindA m f w = (Inr u, taken (length ds) q w)" using p(1) q(1) by (simp add: bindA_def)
  ultimately show "\<exists>p. bindA m f w = (Inr u, taken (length ds) p w)
    \<and> rest p = drop (length ds - length (pw_buffer w)) (rest (pw_packet w))" by blast
qed

lemma reads_then:
  assumes "reads rest m bs v" "r v = Inr u"
  shows "reads rest (bindA m (\<lambda>x. pureA (r x))) bs u"
  using assms by (auto intro: reads_bind reads_pure)

lemma reads_map: "reads rest m bs v \<Longrightarrow> reads rest (bindA m (\<lambda>x. retA (g x))) bs (g v)"
  by (auto intro: reads_bind reads_ret)

section \<open>Bytes\<close>

context byte_source
begin

lemma on_packet_read:
  assumes "n \<le> length (rest (pw_packet w))"
  obtains p where "on_packet (pk_read P (int n)) w = (Inr (take n (rest (pw_packet w))), w\<lparr>pw_packet := p\<rparr>)"
    "rest p = drop n (rest (pw_packet w))"
  using source_read [OF assms] by (auto simp: on_packet_def)

lemma on_packet_advance:
  assumes "n \<le> length (rest (pw_packet w))"
  obtains p where "on_packet (pk_advance P (int n)) w = (Inr (), w\<lparr>pw_packet := p\<rparr>)"
    "rest p = drop n (rest (pw_packet w))"
  using source_advance [OF assms] by (auto simp: on_packet_def)

lemma read_taken:
  assumes w: "n \<le> length (pending rest w)"
  shows "\<exists>p. packet_read P (int n) w = (Inr (take n (pending rest w)), taken n p w)
    \<and> rest p = drop (n - length (pw_buffer w)) (rest (pw_packet w))"
proof (cases "n \<le> length (pw_buffer w) \<and> pw_buffer w \<noteq> []")
  case True
  then have "packet_read P (int n) w = (Inr (take n (pending rest w)), taken n (pw_packet w) w)"
    by (simp add: packet_read_def slice_to_def slice_from_def pending_def taken_def Let_def)
  then show ?thesis using True by (intro exI [of _ "pw_packet w"]) simp
next
  case False
  let ?k = "n - length (pw_buffer w)"
  let ?w = "w\<lparr>pw_read_bytes := pw_read_bytes w + int n, pw_buffer := []\<rparr>"
  have le: "length (pw_buffer w) \<le> n" using False by auto
  have "?k \<le> length (rest (pw_packet ?w))" using w by (simp add: pending_def)
  from on_packet_read [OF this] obtain p where p:
    "on_packet (pk_read P (int ?k)) ?w = (Inr (take ?k (rest (pw_packet w))), ?w\<lparr>pw_packet := p\<rparr>)"
    "rest p = drop ?k (rest (pw_packet w))" by auto
  have i: "int ?k = int n - int (length (pw_buffer w))" using le by simp
  have "packet_read P (int n) w = (Inr (take n (pending rest w)), taken n p w)"
  proof (cases "pw_buffer w = []")
    case True
    then have "w\<lparr>pw_read_bytes := pw_read_bytes w + int n\<rparr> = ?w" by simp
    with p(1) True show ?thesis by (simp add: packet_read_def pending_def taken_def Let_def)
  next
    case b: False
    with False le have "length (pw_buffer w) < n" by auto
    with b le p(1) show ?thesis
      by (simp add: packet_read_def pending_def taken_def Let_def slice_to_def slice_from_def bindA_def retA_def i)
  qed
  then show ?thesis using p(2) by blast
qed

lemma reads_read: "n = int (length bs) \<Longrightarrow> reads rest (packet_read P n) bs bs"
  unfolding reads_def
proof (intro allI impI)
  fix w behind
  assume n: "n = int (length bs)" and w: "pending rest w = bs @ behind"
  then have "length bs \<le> length (pending rest w)" by simp
  from read_taken [OF this] show "\<exists>p. packet_read P n w = (Inr bs, taken (length bs) p w)
    \<and> rest p = drop (length bs - length (pw_buffer w)) (rest (pw_packet w))" by (simp add: n w)
qed

lemma advance_taken:
  assumes w: "n \<le> length (pending rest w)"
  shows "\<exists>p. packet_advance P (int n) w = (Inr (), taken n p w)
    \<and> rest p = drop (n - length (pw_buffer w)) (rest (pw_packet w))"
proof (cases "n \<le> length (pw_buffer w) \<and> pw_buffer w \<noteq> []")
  case True
  then have "packet_advance P (int n) w = (Inr (), taken n (pw_packet w) w)"
    by (simp add: packet_advance_def slice_from_def taken_def Let_def)
  then show ?thesis using True by (intro exI [of _ "pw_packet w"]) simp
next
  case False
  let ?k = "n - length (pw_buffer w)"
  let ?w = "w\<lparr>pw_read_bytes := pw_read_bytes w + int n, pw_buffer := []\<rparr>"
  have le: "length (pw_buffer w) \<le> n" using False by auto
  have "?k \<le> length (rest (pw_packet ?w))" using w by (simp add: pending_def)
  from on_packet_advance [OF this] obtain p where p:
    "on_packet (pk_advance P (int ?k)) ?w = (Inr (), ?w\<lparr>pw_packet := p\<rparr>)"
    "rest p = drop ?k (rest (pw_packet w))" by auto
  have i: "int ?k = int n - int (length (pw_buffer w))" using le by simp
  have "packet_advance P (int n) w = (Inr (), taken n p w)"
  proof (cases "pw_buffer w = []")
    case True
    then have "w\<lparr>pw_read_bytes := pw_read_bytes w + int n\<rparr> = ?w" by simp
    with p(1) True show ?thesis by (simp add: packet_advance_def taken_def Let_def)
  next
    case b: False
    with False le have "length (pw_buffer w) < n" by auto
    with b le p(1) show ?thesis
      by (simp add: packet_advance_def taken_def Let_def slice_from_def i)
  qed
  then show ?thesis using p(2) by blast
qed

lemma reads_advance: "n = int (length bs) \<Longrightarrow> reads rest (packet_advance P n) bs ()"
  unfolding reads_def
proof (intro allI impI)
  fix w behind
  assume n: "n = int (length bs)" and w: "pending rest w = bs @ behind"
  then have "length bs \<le> length (pending rest w)" by simp
  from advance_taken [OF this] show "\<exists>p. packet_advance P n w = (Inr (), taken (length bs) p w)
    \<and> rest p = drop (length bs - length (pw_buffer w)) (rest (pw_packet w))" by (simp add: n)
qed

end

text \<open>
  The wrapper keeps the contract of the packet it wraps, with the bytes of its buffer in front:
  reading through it is reading the packet.
\<close>

definition wrapper_ops :: "'p packet_ops \<Rightarrow> 'p wrapper packet_ops" where
  "wrapper_ops P = \<lparr>pk_read = packet_read P, pk_advance = packet_advance P,
     pk_rewind = (\<lambda>n. on_packet (pk_rewind P n)), pk_left = bytes_to_read P, pk_unpack_int64 = pk_unpack_int64 P\<rparr>"

lemma wrapper_is_source:
  assumes "byte_source P rest"
  shows "byte_source (wrapper_ops P) (pending rest)"
proof
  fix n w
  assume n: "n \<le> length (pending rest w)"
  show "\<exists>w'. pk_read (wrapper_ops P) (int n) w = (Inr (take n (pending rest w)), w') \<and> pending rest w' = drop n (pending rest w)"
    using byte_source.read_taken [OF assms n] by (auto simp: wrapper_ops_def pending_def)
  show "\<exists>w'. pk_advance (wrapper_ops P) (int n) w = (Inr (), w') \<and> pending rest w' = drop n (pending rest w)"
    using byte_source.advance_taken [OF assms n] by (auto simp: wrapper_ops_def pending_def)
qed

text \<open>
  A packet that is just its bytes, which raises when they run out; and a wrapper around it.
\<close>

definition bytes_packet :: "byte list packet_ops" where
  "bytes_packet =
    \<lparr>pk_read = (\<lambda>n p. if 0 \<le> n \<and> n \<le> int (length p) then (Inr (take (nat n) p), drop (nat n) p) else (Inl AssertionError, p)),
     pk_advance = (\<lambda>n p. if 0 \<le> n \<and> n \<le> int (length p) then (Inr (), drop (nat n) p) else (Inl AssertionError, p)),
     pk_rewind = (\<lambda>n p. (Inl AssertionError, p)), pk_left = (\<lambda>p. int (length p)), pk_unpack_int64 = (\<lambda>_. Inl AttributeError)\<rparr>"

interpretation bytes: counted_source bytes_packet "\<lambda>p. p"
  by unfold_locales (auto simp: bytes_packet_def)

interpretation wrapped: byte_source "wrapper_ops bytes_packet" "pending (\<lambda>p. p)"
  by (rule wrapper_is_source) unfold_locales

section \<open>Integers\<close>

lemma le_nat_3: "unat a + push_bit 8 (unat b) + push_bit 16 (unat c) = le_nat [a, b, c]"
  by (simp add: push_bit_eq_mult)

lemma or_le_nat_3: "unat a OR push_bit 8 (unat b) OR push_bit 16 (unat c) = le_nat [a, b, c]"
proof -
  have e: "push_bit 8 (unat b) OR push_bit 16 (unat c) = push_bit 8 (unat b OR push_bit 8 (unat c))"
    by (simp add: push_bit_or)
  have "unat b OR push_bit 8 (unat c) = unat b + unat c * 2 ^ 8"
    using unat_byte [of b] by (intro or_push_bit_add) simp
  moreover have "unat a OR push_bit 8 (unat b + unat c * 2 ^ 8) = unat a + (unat b + unat c * 2 ^ 8) * 2 ^ 8"
    using unat_byte [of a] by (intro or_push_bit_add) simp
  ultimately show ?thesis by (simp add: e)
qed

lemma or_be_nat_3: "push_bit 16 (unat a) OR push_bit 8 (unat b) OR unat c = be_nat [a, b, c]"
  using or_le_nat_3 [of c b a] by (simp add: be_nat_def or.commute or.left_commute)

lemma sign24_signed: "sign24 n = to_signed 3 n"
  by (simp add: sign24_def to_signed_def)

lemma length_3: "length bs = 3 \<Longrightarrow> \<exists>a b c. bs = [a, b, c]"
  by (auto simp: length_Suc_conv numeral_3_eq_3)

lemma le_nat_append: "le_nat (xs @ ys) = le_nat xs + 256 ^ length xs * le_nat ys"
  by (induction xs) (auto simp: algebra_simps)

lemma le_nat_split: "n \<le> length bs \<Longrightarrow> le_nat bs = le_nat (take n bs) + 2 ^ (8 * n) * le_nat (drop n bs)"
  using le_nat_append [of "take n bs" "drop n bs"] by (simp add: pow_256 min_absorb2)

lemma be_nat_split: "n \<le> length bs \<Longrightarrow> be_nat bs = be_nat (drop n bs) + 2 ^ (8 * (length bs - n)) * be_nat (take n bs)"
  using le_nat_append [of "rev (drop n bs)" "rev (take n bs)"] by (simp add: be_nat_def pow_256 flip: rev_append)

context byte_source
begin

lemma reads_unpacked:
  assumes "length bs = k" "r bs = Inr v"
  shows "reads rest (bindA (packet_read P (int k)) (\<lambda>bs. pureA (r bs))) bs v"
  using assms by (intro reads_then [of _ _ _ bs]) (auto intro: reads_read)

lemma reads_uints:
  "length bs = 1 \<Longrightarrow> reads rest (read_uint8 P) bs (le_nat bs)"
  "length bs = 2 \<Longrightarrow> reads rest (read_uint16 P) bs (le_nat bs)"
  "length bs = 4 \<Longrightarrow> reads rest (read_uint32 P) bs (le_nat bs)"
  "length bs = 8 \<Longrightarrow> reads rest (read_uint64 P) bs (le_nat bs)"
  using reads_unpacked [of bs 1 "unpack_le 1"] reads_unpacked [of bs 2 "unpack_le 2"]
    reads_unpacked [of bs 4 "unpack_le 4"] reads_unpacked [of bs 8 "unpack_le 8"]
  by (simp_all add: read_uint8_def read_uint16_def read_uint32_def read_uint64_def unpack_le_def)

lemma reads_ints:
  "length bs = 2 \<Longrightarrow> reads rest (read_int16 P) bs (to_signed 2 (le_nat bs))"
  "length bs = 4 \<Longrightarrow> reads rest (read_int32 P) bs (to_signed 4 (le_nat bs))"
  "length bs = 8 \<Longrightarrow> reads rest (read_int64 P) bs (to_signed 8 (le_nat bs))"
  using reads_unpacked [of bs 2 "unpack_le_signed 2"] reads_unpacked [of bs 4 "unpack_le_signed 4"]
    reads_unpacked [of bs 8 "unpack_le_signed 8"]
  by (simp_all add: read_int16_def read_int32_def read_int64_def unpack_le_signed_def unpack_le_def)

lemma reads_int24s:
  assumes "length bs = 3"
  shows "reads rest (read_uint24 P) bs (le_nat bs)"
    and "reads rest (read_int24 P) bs (to_signed 3 (le_nat bs))"
    and "reads rest (read_int24_be P) bs (to_signed 3 (be_nat bs))"
proof -
  obtain a b c where bs: "bs = [a, b, c]" using length_3 [OF assms] by blast
  note u = reads_unpacked [OF assms, simplified]
  show "reads rest (read_uint24 P) bs (le_nat bs)"
    unfolding read_uint24_def by (rule u) (simp only: bs unpack_BBB_def list.case bindE_simps prod.case le_nat_3)
  show "reads rest (read_int24 P) bs (to_signed 3 (le_nat bs))"
    unfolding read_int24_def
    by (rule u) (simp only: bs unpack_BBB_def list.case bindE_simps prod.case or_le_nat_3 sign24_signed)
  show "reads rest (read_int24_be P) bs (to_signed 3 (be_nat bs))"
    unfolding read_int24_be_def
    by (rule u) (simp only: bs unpack_BBB_def list.case bindE_simps prod.case or_be_nat_3 sign24_signed)
qed

lemma reads_odd_uints:
  "length bs = 5 \<Longrightarrow> reads rest (read_uint40 P) bs (le_nat bs)"
  "length bs = 5 \<Longrightarrow> reads rest (read_int40_be P) bs (be_nat bs)"
  "length bs = 6 \<Longrightarrow> reads rest (read_uint48 P) bs (le_nat bs)"
  "length bs = 7 \<Longrightarrow> reads rest (read_uint56 P) bs (le_nat bs)"
proof -
  show "reads rest (read_uint40 P) bs (le_nat bs)" if "length bs = 5"
    unfolding read_uint40_def using that le_nat_split [of 1 bs]
    by (intro reads_unpacked [of _ 5, simplified]) (simp_all add: unpack_le_def push_bit_eq_mult)
  show "reads rest (read_int40_be P) bs (be_nat bs)" if "length bs = 5"
    unfolding read_int40_be_def using that be_nat_split [of 4 bs]
    by (intro reads_unpacked [of _ 5, simplified]) (simp_all add: unpack_be_def push_bit_eq_mult)
  show "reads rest (read_uint48 P) bs (le_nat bs)" if "length bs = 6"
    unfolding read_uint48_def using that le_nat_split [of 2 bs] le_nat_split [of 2 "drop 2 bs"]
    by (intro reads_unpacked [of _ 6, simplified]) (simp_all add: unpack_le_def push_bit_eq_mult)
  show "reads rest (read_uint56 P) bs (le_nat bs)" if "length bs = 7"
    unfolding read_uint56_def using that le_nat_split [of 1 bs] le_nat_split [of 2 "drop 1 bs"]
    by (intro reads_unpacked [of _ 7, simplified]) (simp_all add: unpack_le_def push_bit_eq_mult)
qed

lemma reads_uint_by_size:
  assumes "length bs = k" "k \<in> {1..8}"
  shows "reads rest (read_uint_by_size P k) bs (Some (le_nat bs))"
proof -
  have "k = 1 \<or> k = 2 \<or> k = 3 \<or> k = 4 \<or> k = 5 \<or> k = 6 \<or> k = 7 \<or> k = 8" using assms(2) by auto
  then show ?thesis
    using assms(1) by (elim disjE) (simp_all add: read_uint_by_size_def reads_map reads_uints [simplified] reads_int24s reads_odd_uints)
qed

lemma reads_int_be_by_size:
  assumes "length bs = k" "k \<in> {1..4}"
  shows "reads rest (read_int_be_by_size P k) bs (Some (to_signed k (be_nat bs)))"
proof -
  have u: "reads rest (bindA (packet_read P (int k)) (\<lambda>bs. pureA (bindE (unpack_be_signed k bs) (\<lambda>i. Inr (Some i))))) bs
      (Some (to_signed k (be_nat bs)))"
    using assms(1) by (intro reads_unpacked) (simp_all add: unpack_be_signed_def unpack_be_def)
  have "k = 1 \<or> k = 2 \<or> k = 3 \<or> k = 4" using assms(2) by auto
  then show ?thesis
    using assms(1) u by (elim disjE) (simp_all add: read_int_be_by_size_def reads_map reads_int24s)
qed

lemma reads_int_be_5: "length bs = 5 \<Longrightarrow> reads rest (read_int_be_by_size P 5) bs (Some (int (be_nat bs)))"
  using reads_map [OF reads_odd_uints(2), of bs "\<lambda>n. Some (int n)"] by (simp add: read_int_be_by_size_def)

end

section \<open>Lengths and strings\<close>

text \<open>The length coded integers below 2 ^ 24, as the protocol writes them.\<close>

definition encode_length_coded :: "nat \<Rightarrow> byte list" where
  "encode_length_coded n =
    (if n < 251 then [of_nat n] else if n < 2 ^ 16 then 252 # le_bytes 2 n else 253 # le_bytes 3 n)"

context byte_source
begin

lemma reads_byte:
  assumes "reads rest (f (unat b)) cs u"
  shows "reads rest (bindA (packet_read P 1) (\<lambda>bs. bindA (pureA (unpack_be 1 bs)) f)) (b # cs) u"
proof (rule reads_bind [OF reads_read [of _ "[b]"]])
  show "reads rest (bindA (pureA (unpack_be 1 [b])) f) cs u"
    by (rule reads_bind [OF reads_pure]) (use assms in \<open>simp_all add: unpack_be_def be_nat_def\<close>)
qed simp_all

lemma reads_length_coded:
  assumes "n < 2 ^ 24"
  shows "reads rest (read_length_coded_binary P) (encode_length_coded n) (Some n)"
proof -
  consider "n < 251" | "251 \<le> n" "n < 2 ^ 16" | "2 ^ 16 \<le> n" by linarith
  then show ?thesis
  proof cases
    case 1
    then have e: "encode_length_coded n = [of_nat n]" by (simp add: encode_length_coded_def)
    show ?thesis unfolding read_length_coded_binary_def e
      by (rule reads_byte) (use 1 in \<open>simp add: unat_of_nat_byte reads_ret\<close>)
  next
    case 2
    have "reads rest (bindA (packet_read P 2) (\<lambda>n. pureA (bindE (unpack_uint16 n) (\<lambda>v. Inr (Some v))))) (le_bytes 2 n) (Some n)"
      using 2 by (intro reads_unpacked [of _ 2, simplified])
        (simp_all add: unpack_uint16_def unpack_le_def le_nat_le_bytes)
    moreover have e: "encode_length_coded n = 252 # le_bytes 2 n" using 2 by (simp add: encode_length_coded_def)
    ultimately show ?thesis unfolding read_length_coded_binary_def e by (intro reads_byte) simp
  next
    case 3
    obtain x y z where b: "le_bytes 3 n = [x, y, z]" using length_3 [of "le_bytes 3 n"] by auto
    have "le_nat [x, y, z] = n" using le_nat_le_bytes [of 3 n] assms by (simp add: b)
    then have "unpack_int24 (le_bytes 3 n) = Inr n"
      using le_nat_3 [of x y z] by (simp add: unpack_int24_def nthE_def b del: le_nat.simps)
    then have "reads rest (bindA (packet_read P 3) (\<lambda>n. pureA (bindE (unpack_int24 n) (\<lambda>v. Inr (Some v))))) (le_bytes 3 n) (Some n)"
      by (intro reads_unpacked [of _ 3, simplified]) simp_all
    moreover have e: "encode_length_coded n = 253 # le_bytes 3 n" using 3 by (simp add: encode_length_coded_def)
    ultimately show ?thesis unfolding read_length_coded_binary_def e by (intro reads_byte) simp
  qed
qed

lemma reads_pascal_string:
  assumes "k \<in> {1..8}" "length bs < 2 ^ (8 * k)"
  shows "reads rest (read_length_coded_pascal_string P k) (le_bytes k (length bs) @ bs) bs"
  unfolding read_length_coded_pascal_string_def
proof (rule reads_bind [OF reads_uint_by_size])
  have "le_nat (le_bytes k (length bs)) = length bs" using assms by (simp add: le_nat_le_bytes pow_256)
  then show "reads rest (bindA (pureA (notNone (Some (le_nat (le_bytes k (length bs)))))) (\<lambda>n. packet_read P (int n))) bs bs"
    by (auto intro!: reads_bind [where bs = "[]" and v = "length bs"] reads_pure reads_read simp: notNone_def)
qed (use assms in simp_all)

lemma reads_variable_length:
  assumes "length (encode_variable_length n) \<le> rounds" "len < 2 ^ bits"
  shows "reads rest (variable_length rounds P len bits) (encode_variable_length n) (len + n * 2 ^ bits)"
  using assms
proof (induction rounds arbitrary: n len bits)
  case 0
  then show ?case by (simp add: encode_variable_length.simps [of n] split: if_splits)
next
  case (Suc rounds)
  show ?case
  proof (cases "n < 128")
    case True
    then have e: "encode_variable_length n = [of_nat n]" by (simp add: encode_variable_length.simps)
    from True Suc.prems(2) show ?thesis unfolding e variable_length.simps
      by (intro reads_byte) (simp add: and_80 and_7F or_push_bit_add unat_of_nat_byte reads_ret Let_def)
  next
    case False
    define b where "b = (of_nat (128 + n mod 128) :: byte)"
    have ub: "unat b = 128 + n mod 128" unfolding b_def by (rule unat_of_nat_byte) simp
    have e: "encode_variable_length n = b # encode_variable_length (n div 128)"
      using False by (simp add: encode_variable_length.simps [of n] b_def)
    let ?len = "len + n mod 128 * 2 ^ bits"
    have "n mod 128 * 2 ^ bits \<le> 127 * 2 ^ bits" by (intro mult_right_mono) (simp_all add: Suc_le_eq [symmetric])
    then have "?len < 128 * 2 ^ bits" using Suc.prems(2) by linarith
    then have len: "?len < 2 ^ (bits + 7)" by (simp add: power_add)
    have sum: "?len + n div 128 * 2 ^ (bits + 7) = len + n * 2 ^ bits"
    proof -
      have "n * 2 ^ bits = (n mod 128 + n div 128 * 128) * 2 ^ bits" by simp
      then show ?thesis by (simp only: power_add add_mult_distrib) simp
    qed
    have IH: "reads rest (variable_length rounds P ?len (bits + 7)) (encode_variable_length (n div 128)) (len + n * 2 ^ bits)"
      using Suc.IH [OF _ len, of "n div 128"] Suc.prems(1) by (simp only: e sum list.size)
    have "unat b mod 128 = n mod 128" "\<not> unat b < 128" using ub by simp_all
    with IH Suc.prems(2) show ?thesis unfolding e variable_length.simps
      by (intro reads_byte) (simp add: and_80 [OF unat_byte] and_7F or_push_bit_add Let_def)
  qed
qed

lemma reads_variable_length_string:
  assumes "length (encode_variable_length (length bs)) \<le> rounds"
  shows "reads rest (read_variable_length_string rounds P) (encode_variable_length (length bs) @ bs) bs"
  unfolding read_variable_length_string_def
  using reads_variable_length [OF assms, of 0 0] by (auto intro!: reads_bind reads_read)

lemma reads_string:
  assumes "0 \<notin> set bs" "length bs < rounds"
  shows "reads rest (read_string rounds P) (bs @ [0]) bs"
proof -
  have "reads rest (read_until_zero rounds P pre) (bs @ [0]) (pre @ bs)" for pre
    using assms
  proof (induction rounds arbitrary: bs pre)
    case (Suc rounds)
    show ?case
    proof (cases bs)
      case Nil
      then show ?thesis by (auto intro!: reads_bind [OF reads_read] reads_ret)
    next
      case (Cons b cs)
      with Suc have "reads rest (read_until_zero rounds P (pre @ [b])) (cs @ [0]) (pre @ b # cs)"
        using Suc.IH [of cs "pre @ [b]"] by simp
      with Cons Suc.prems show ?thesis by (auto intro!: reads_bind [OF reads_read [of _ "[b]"]])
    qed
  qed simp
  from this [of "[]"] show ?thesis by (simp add: read_string_def)
qed

end

end
