(* ===== verification/Columns.thy ===== *)
theory Columns
  imports PacketReads
begin

text \<open>
  \<^verbatim>\<open>pymysqlreplication/column.py\<close>, \<^verbatim>\<open>table.py\<close> and \<^verbatim>\<open>bitmap.py\<close>: the columns of a table as a table map
  event describes them, and the bit maps of row events.
\<close>

section \<open>Field types\<close>

text \<open>The codes of \<^verbatim>\<open>constants/FIELD_TYPE.py\<close>.\<close>

abbreviation (input) FT_TINY :: nat where "FT_TINY \<equiv> 1"
abbreviation (input) FT_SHORT :: nat where "FT_SHORT \<equiv> 2"
abbreviation (input) FT_LONG :: nat where "FT_LONG \<equiv> 3"
abbreviation (input) FT_FLOAT :: nat where "FT_FLOAT \<equiv> 4"
abbreviation (input) FT_DOUBLE :: nat where "FT_DOUBLE \<equiv> 5"
abbreviation (input) FT_TIMESTAMP :: nat where "FT_TIMESTAMP \<equiv> 7"
abbreviation (input) FT_LONGLONG :: nat where "FT_LONGLONG \<equiv> 8"
abbreviation (input) FT_INT24 :: nat where "FT_INT24 \<equiv> 9"
abbreviation (input) FT_DATE :: nat where "FT_DATE \<equiv> 10"
abbreviation (input) FT_TIME :: nat where "FT_TIME \<equiv> 11"
abbreviation (input) FT_DATETIME :: nat where "FT_DATETIME \<equiv> 12"
abbreviation (input) FT_YEAR :: nat where "FT_YEAR \<equiv> 13"
abbreviation (input) FT_VARCHAR :: nat where "FT_VARCHAR \<equiv> 15"
abbreviation (input) FT_BIT :: nat where "FT_BIT \<equiv> 16"
abbreviation (input) FT_TIMESTAMP2 :: nat where "FT_TIMESTAMP2 \<equiv> 17"
abbreviation (input) FT_DATETIME2 :: nat where "FT_DATETIME2 \<equiv> 18"
abbreviation (input) FT_TIME2 :: nat where "FT_TIME2 \<equiv> 19"
abbreviation (input) FT_JSON :: nat where "FT_JSON \<equiv> 245"
abbreviation (input) FT_NEWDECIMAL :: nat where "FT_NEWDECIMAL \<equiv> 246"
abbreviation (input) FT_ENUM :: nat where "FT_ENUM \<equiv> 247"
abbreviation (input) FT_SET :: nat where "FT_SET \<equiv> 248"
abbreviation (input) FT_BLOB :: nat where "FT_BLOB \<equiv> 252"
abbreviation (input) FT_VAR_STRING :: nat where "FT_VAR_STRING \<equiv> 253"
abbreviation (input) FT_STRING :: nat where "FT_STRING \<equiv> 254"
abbreviation (input) FT_GEOMETRY :: nat where "FT_GEOMETRY \<equiv> 255"

section \<open>Columns\<close>

text \<open>
  The attributes behind \<open>col_visibility\<close> exist only for some types: \<^const>\<open>None\<close> is an attribute that
  was never set, and reading it raises AttributeError.
\<close>

record column =
  col_type :: nat
  col_name :: "string option"
  col_unsigned :: bool
  col_is_primary :: bool
  col_charset_id :: "nat option"
  col_character_set_name :: "string option"
  col_collation_name :: "string option"
  col_enum_values :: "string list option"
  col_set_values :: "string list option"
  col_visibility :: bool
  col_max_length :: "nat option"
  col_size :: "nat option"
  col_fsp :: "nat option"
  col_length_size :: "nat option"
  col_precision :: "nat option"
  col_decimals :: "nat option"
  col_bits :: "nat option"
  col_bytes :: "nat option"

definition attr :: "'a option \<Rightarrow> 'a res" where
  "attr x = (case x of None \<Rightarrow> Inl AttributeError | Some y \<Rightarrow> Inr y)"

definition blank_column :: "nat \<Rightarrow> column" where
  "blank_column t = \<lparr>col_type = t, col_name = None, col_unsigned = False, col_is_primary = False,
     col_charset_id = None, col_character_set_name = None, col_collation_name = None,
     col_enum_values = None, col_set_values = None, col_visibility = False, col_max_length = None,
     col_size = None, col_fsp = None, col_length_size = None, col_precision = None, col_decimals = None,
     col_bits = None, col_bytes = None\<rparr>"

definition read_string_metadata :: "'p packet_ops \<Rightarrow> column \<Rightarrow> ('p wrapper, column) act" where
  "read_string_metadata P c =
    bindA (read_uint8 P) (\<lambda>a. bindA (read_uint8 P) (\<lambda>b.
      let metadata = push_bit 8 a + b;
          real_type = drop_bit 8 metadata
      in if real_type = FT_SET \<or> real_type = FT_ENUM
         then retA (c\<lparr>col_type := real_type, col_size := Some (metadata AND 0x00FF)\<rparr>)
         else retA (c\<lparr>col_max_length := Some (((drop_bit 4 metadata AND 0x300) XOR 0x300) + (metadata AND 0x00FF))\<rparr>)))"

definition new_column :: "'p packet_ops \<Rightarrow> nat \<Rightarrow> ('p wrapper, column) act" where
  "new_column P column_type =
    (let c = blank_column column_type in
     if column_type = FT_VARCHAR then bindA (read_uint16 P) (\<lambda>n. retA (c\<lparr>col_max_length := Some n\<rparr>))
     else if column_type = FT_DOUBLE \<or> column_type = FT_FLOAT
     then bindA (read_uint8 P) (\<lambda>n. retA (c\<lparr>col_size := Some n\<rparr>))
     else if column_type = FT_TIMESTAMP2 \<or> column_type = FT_DATETIME2 \<or> column_type = FT_TIME2
     then bindA (read_uint8 P) (\<lambda>n. retA (c\<lparr>col_fsp := Some n\<rparr>))
     else if column_type = FT_VAR_STRING \<or> column_type = FT_STRING then read_string_metadata P c
     else if column_type = FT_BLOB \<or> column_type = FT_GEOMETRY \<or> column_type = FT_JSON
     then bindA (read_uint8 P) (\<lambda>n. retA (c\<lparr>col_length_size := Some n\<rparr>))
     else if column_type = FT_NEWDECIMAL
     then bindA (read_uint8 P) (\<lambda>p. bindA (read_uint8 P) (\<lambda>d.
            retA (c\<lparr>col_precision := Some p, col_decimals := Some d\<rparr>)))
     else if column_type = FT_BIT
     then bindA (read_uint8 P) (\<lambda>b. bindA (read_uint8 P) (\<lambda>B.
            let bits = B * 8 + b
            in retA (c\<lparr>col_bits := Some bits, col_bytes := Some ((bits + 7) div 8)\<rparr>)))
     else retA c)"

section \<open>Tables\<close>

record table_map_entry =
  tm_table_id :: nat
  tm_schema :: string
  tm_table :: string
  tm_columns :: "column list"
  tm_primary_key :: py_val
  tm_column_name_flag :: bool

definition name_val :: "string option \<Rightarrow> py_val" where
  "name_val n = (case n of None \<Rightarrow> VNone | Some s \<Rightarrow> VStr s)"

definition new_table :: "nat \<Rightarrow> string \<Rightarrow> string \<Rightarrow> column list \<Rightarrow> bool \<Rightarrow> table_map_entry" where
  "new_table table_id schema table columns column_name_flag =
    (let pk = [name_val (col_name c). c \<leftarrow> columns, col_is_primary c]
     in \<lparr>tm_table_id = table_id, tm_schema = schema, tm_table = table, tm_columns = columns,
         tm_primary_key = (case pk of [] \<Rightarrow> VStr [] | [k] \<Rightarrow> k | _ \<Rightarrow> VTuple pk),
         tm_column_name_flag = column_name_flag\<rparr>)"

section \<open>Bit maps\<close>

definition bitCountInByte :: "nat list" where
  "bitCountInByte = [
    0, 1, 1, 2, 1, 2, 2, 3, 1, 2, 2, 3, 2, 3, 3, 4,
    1, 2, 2, 3, 2, 3, 3, 4, 2, 3, 3, 4, 3, 4, 4, 5,
    1, 2, 2, 3, 2, 3, 3, 4, 2, 3, 3, 4, 3, 4, 4, 5,
    2, 3, 3, 4, 3, 4, 4, 5, 3, 4, 4, 5, 4, 5, 5, 6,
    1, 2, 2, 3, 2, 3, 3, 4, 2, 3, 3, 4, 3, 4, 4, 5,
    2, 3, 3, 4, 3, 4, 4, 5, 3, 4, 4, 5, 4, 5, 5, 6,
    2, 3, 3, 4, 3, 4, 4, 5, 3, 4, 4, 5, 4, 5, 5, 6,
    3, 4, 4, 5, 4, 5, 5, 6, 4, 5, 5, 6, 5, 6, 6, 7,
    1, 2, 2, 3, 2, 3, 3, 4, 2, 3, 3, 4, 3, 4, 4, 5,
    2, 3, 3, 4, 3, 4, 4, 5, 3, 4, 4, 5, 4, 5, 5, 6,
    2, 3, 3, 4, 3, 4, 4, 5, 3, 4, 4, 5, 4, 5, 5, 6,
    3, 4, 4, 5, 4, 5, 5, 6, 4, 5, 5, 6, 5, 6, 6, 7,
    2, 3, 3, 4, 3, 4, 4, 5, 3, 4, 4, 5, 4, 5, 5, 6,
    3, 4, 4, 5, 4, 5, 5, 6, 4, 5, 5, 6, 5, 6, 6, 7,
    3, 4, 4, 5, 4, 5, 5, 6, 4, 5, 5, 6, 5, 6, 6, 7,
    4, 5, 5, 6, 5, 6, 6, 7, 5, 6, 6, 7, 6, 7, 7, 8]"

definition BitCount :: "byte list \<Rightarrow> nat" where
  "BitCount bitmap = foldl (\<lambda>n b. n + bitCountInByte ! unat b) 0 bitmap"

definition BitGet :: "byte list \<Rightarrow> nat \<Rightarrow> nat res" where
  "BitGet bitmap position =
    bindE (nthE bitmap (position div 8)) (\<lambda>b. Inr (unat b AND push_bit (position AND 7) 1))"

subsection \<open>Bit maps as lists of flags\<close>

text \<open>The bits of a byte and of a bit map, lowest first.\<close>

definition byte_bits :: "byte \<Rightarrow> bool list" where
  "byte_bits b = map (bit b) [0..<8]"

definition bitmap_bits :: "byte list \<Rightarrow> bool list" where
  "bitmap_bits bs = concat (map byte_bits bs)"

text \<open>The bit map of a list of flags, as the server writes it.\<close>

definition pack_byte :: "bool list \<Rightarrow> byte" where
  "pack_byte fs = horner_sum of_bool 2 fs"

fun pack_bits :: "bool list \<Rightarrow> byte list" where
  "pack_bits fs = (if fs = [] then [] else pack_byte (take 8 fs) # pack_bits (drop 8 fs))"

declare pack_bits.simps [simp del]

lemma length_byte_bits [simp]: "length (byte_bits b) = 8"
  by (simp add: byte_bits_def)

lemma length_bitmap_bits [simp]: "length (bitmap_bits bs) = 8 * length bs"
  by (induction bs) (auto simp: bitmap_bits_def)

lemma bitmap_bits_Cons: "bitmap_bits (b # bs) = byte_bits b @ bitmap_bits bs"
  by (simp add: bitmap_bits_def)

text \<open>The table doubles: the second half has the counts of the first, plus one for the new bit.\<close>

primrec count_table :: "nat \<Rightarrow> nat list" where
  "count_table 0 = [0]"
| "count_table (Suc k) = count_table k @ map Suc (count_table k)"

lemma length_count_table [simp]: "length (count_table k) = 2 ^ k"
  by (induction k) auto

lemma bit_less_exp: "n < 2 ^ k \<Longrightarrow> k \<le> i \<Longrightarrow> \<not> bit n i" for n :: nat
  by (metis bit_take_bit_iff not_less take_bit_nat_eq_self)

lemma bit_exp_add:
  assumes "m < 2 ^ k" "i \<le> k"
  shows "bit (2 ^ k + m :: nat) i \<longleftrightarrow> i = k \<or> bit m i"
proof -
  have "(2 :: nat) ^ k = 2 ^ i * 2 ^ (k - i)" using assms(2) by (simp flip: power_add)
  then have d: "(2 ^ k + m) div 2 ^ i = 2 ^ (k - i) + m div 2 ^ i" by simp
  show ?thesis
  proof (cases "i = k")
    case True
    then have "m div 2 ^ i = 0" using assms(1) by simp
    then show ?thesis using True d by (simp add: bit_iff_odd)
  next
    case False
    then have "even ((2 :: nat) ^ (k - i))" using assms(2) by simp
    then show ?thesis using False d by (simp add: bit_iff_odd)
  qed
qed

lemma count_table_bits: "n < 2 ^ k \<Longrightarrow> count_table k ! n = count_list (map (bit n) [0..<k]) True"
proof (induction k arbitrary: n)
  case (Suc k)
  show ?case
  proof (cases "n < 2 ^ k")
    case True
    then have "\<not> bit n k" by (rule bit_less_exp) simp
    with True Suc show ?thesis by (simp add: nth_append)
  next
    case False
    define m where "m = n - 2 ^ k"
    with False Suc.prems have m: "m < 2 ^ k" "n = 2 ^ k + m" by simp_all
    have low: "map (bit n) [0..<k] = map (bit m) [0..<k]" unfolding m(2) using bit_exp_add [OF m(1)] by auto
    have "bit n k" unfolding m(2) using bit_exp_add [OF m(1), of k] by simp
    then have "count_list (map (bit n) [0..<Suc k]) True = Suc (count_list (map (bit m) [0..<k]) True)"
      by (simp flip: low)
    moreover have "count_table (Suc k) ! n = Suc (count_table k ! m)" using m by (simp add: nth_append)
    ultimately show ?thesis using Suc.IH [OF m(1)] by simp
  qed
qed simp

lemma bitCountInByte_table: "bitCountInByte = count_table 8"
  by (simp add: bitCountInByte_def eval_nat_numeral)

lemma bitCountInByte_bits: "bitCountInByte ! unat b = count_list (byte_bits b) True"
proof -
  have "bitCountInByte ! unat b = count_list (map (bit (unat b)) [0..<8]) True"
    using count_table_bits [of "unat b" 8] unat_byte [of b] by (simp add: bitCountInByte_table)
  also have "map (bit (unat b)) [0..<8] = byte_bits b" by (simp add: byte_bits_def bit_unsigned_iff)
  finally show ?thesis .
qed

lemma BitCount_bits: "BitCount bs = count_list (bitmap_bits bs) True"
proof -
  have "foldl (\<lambda>n b. n + bitCountInByte ! unat b) k bs = k + count_list (bitmap_bits bs) True" for k
    by (induction bs arbitrary: k) (simp_all add: bitmap_bits_def bitCountInByte_bits)
  then show ?thesis by (simp add: BitCount_def)
qed

lemma and_7_mod: "i AND 7 = i mod 8" for i :: nat
proof -
  have "i AND mask 3 = i mod 2 ^ 3" by (simp only: take_bit_eq_mask [symmetric] take_bit_eq_mod)
  then show ?thesis by (simp add: mask_eq_exp_minus_1)
qed

lemma byte_bits_nth: "k < 8 \<Longrightarrow> byte_bits b ! k = bit b k"
  by (simp add: byte_bits_def)

lemma bitmap_bits_nth: "i < 8 * length bs \<Longrightarrow> bitmap_bits bs ! i = bit (bs ! (i div 8)) (i mod 8)"
proof (induction bs arbitrary: i)
  case (Cons b bs)
  show ?case
  proof (cases "i < 8")
    case True
    then show ?thesis by (simp add: bitmap_bits_Cons nth_append byte_bits_nth)
  next
    case False
    then have "(i - 8) div 8 = i div 8 - 1" "(i - 8) mod 8 = i mod 8" "0 < i div 8"
      by (auto simp: le_div_geq le_mod_geq)
    with False Cons show ?thesis by (simp add: bitmap_bits_Cons nth_append nth_Cons')
  qed
qed simp

lemma BitGet_bits:
  assumes "i < 8 * length bs"
  shows "\<exists>n. BitGet bs i = Inr n \<and> (n \<noteq> 0 \<longleftrightarrow> bitmap_bits bs ! i)"
proof -
  have i: "i div 8 < length bs" using assms by (simp add: less_mult_imp_div_less mult.commute)
  have "unat (bs ! (i div 8)) AND push_bit (i mod 8) 1 \<noteq> 0 \<longleftrightarrow> bit (unat (bs ! (i div 8))) (i mod 8)"
    using and_exp_eq_0_iff_not_bit [of "unat (bs ! (i div 8))" "i mod 8"] by (simp add: push_bit_eq_mult)
  also have "\<dots> \<longleftrightarrow> bit (bs ! (i div 8)) (i mod 8)" by (simp add: bit_unsigned_iff)
  finally show ?thesis using i assms by (simp add: BitGet_def nthE_def and_7_mod bitmap_bits_nth)
qed

lemma byte_bits_pack:
  assumes "length fs \<le> 8"
  shows "byte_bits (pack_byte fs) = fs @ replicate (8 - length fs) False"
proof (rule nth_equalityI)
  fix i assume "i < length (byte_bits (pack_byte fs))"
  then have i: "i < 8" by simp
  then have "byte_bits (pack_byte fs) ! i \<longleftrightarrow> i < length fs \<and> fs ! i"
    by (simp add: byte_bits_nth pack_byte_def bit_horner_sum_bit_word_iff)
  then show "byte_bits (pack_byte fs) ! i = (fs @ replicate (8 - length fs) False) ! i"
    using i assms by (simp add: nth_append)
qed (use assms in simp)

lemma length_pack_bits: "length (pack_bits fs) = (length fs + 7) div 8"
proof (induction fs rule: pack_bits.induct)
  case (1 fs)
  show ?case
  proof (cases "fs = []")
    case False
    then have "length (pack_bits fs) = Suc ((length fs - 8 + 7) div 8)"
      using 1 by (simp add: pack_bits.simps [of fs])
    also have "\<dots> = (length fs + 7) div 8"
    proof (cases "length fs < 8")
      case True
      with False have "(length fs + 7) div 8 = 1" by (cases fs) auto
      with True show ?thesis by simp
    qed (simp add: le_div_geq)
    finally show ?thesis .
  qed (simp add: pack_bits.simps)
qed

lemma bitmap_bits_pack: "\<exists>k. bitmap_bits (pack_bits fs) = fs @ replicate k False"
proof (induction fs rule: pack_bits.induct)
  case (1 fs)
  show ?case
  proof (cases "length fs \<le> 8")
    case True
    show ?thesis
    proof (cases "fs = []")
      case False
      then have "pack_bits fs = [pack_byte fs]"
        using True by (simp add: pack_bits.simps [of fs] pack_bits.simps [of "[]"])
      then show ?thesis using byte_bits_pack [OF True] by (auto simp: bitmap_bits_def)
    qed (simp add: pack_bits.simps bitmap_bits_def)
  next
    case False
    then have ne: "fs \<noteq> []" by auto
    then obtain k where "bitmap_bits (pack_bits (drop 8 fs)) = drop 8 fs @ replicate k False" using 1 by blast
    moreover have "byte_bits (pack_byte (take 8 fs)) = take 8 fs" using byte_bits_pack [of "take 8 fs"] False by simp
    ultimately have "bitmap_bits (pack_bits fs) = fs @ replicate k False"
      using ne by (simp add: pack_bits.simps [of fs] bitmap_bits_Cons)
    then show ?thesis by blast
  qed
qed

text \<open>Both bit functions on a bit map the server wrote.\<close>

lemma BitCount_pack: "BitCount (pack_bits fs) = count_list fs True"
  using bitmap_bits_pack [of fs] by (auto simp: BitCount_bits count_list_0_iff)

lemma BitGet_pack:
  assumes "i < length fs"
  obtains n where "BitGet (pack_bits fs) i = Inr n" "(n \<noteq> 0) = fs ! i"
proof -
  obtain k where k: "bitmap_bits (pack_bits fs) = fs @ replicate k False" using bitmap_bits_pack by blast
  then have "length fs + k = 8 * length (pack_bits fs)" using length_bitmap_bits [of "pack_bits fs"] by simp
  then have "i < 8 * length (pack_bits fs)" using assms by simp
  from BitGet_bits [OF this] obtain n where "BitGet (pack_bits fs) i = Inr n"
    "n \<noteq> 0 \<longleftrightarrow> bitmap_bits (pack_bits fs) ! i" by blast
  with assms k that show ?thesis by (simp add: nth_append)
qed

section \<open>Reading columns\<close>

text \<open>
  The two bytes a fixed-length string column of up to 1023 bytes is described with: the upper two
  bits of the length are hidden in the type code.
\<close>

definition encode_string_metadata :: "nat \<Rightarrow> byte list" where
  "encode_string_metadata len = [of_nat (254 XOR push_bit 4 (drop_bit 8 len)), of_nat (len mod 256)]"

lemma and_255: "x AND 0xFF = x mod 256" for x :: nat
proof -
  have "x AND mask 8 = x mod 2 ^ 8" by (simp only: take_bit_eq_mask [symmetric] take_bit_eq_mod)
  then show ?thesis by (simp add: mask_eq_exp_minus_1)
qed

lemma and_300: "x AND 0x300 = 256 * (x div 256 mod 4)" for x :: nat
proof -
  have "(0x300 :: nat) = push_bit 8 (mask 2)" by (simp add: push_bit_eq_mult mask_eq_exp_minus_1)
  moreover have "x AND push_bit 8 (mask 2) = push_bit 8 (drop_bit 8 x AND mask 2)"
    by (rule bit_eqI) (auto simp: bit_simps)
  ultimately have "x AND 0x300 = push_bit 8 (drop_bit 8 x AND mask 2)" by simp
  then show ?thesis by (simp add: push_bit_eq_mult drop_bit_eq_div take_bit_eq_mod flip: take_bit_eq_mask)
qed

context byte_source
begin

lemma reads_string_metadata:
  assumes len: "len < 1024"
  shows "reads rest (new_column P FT_STRING) (encode_string_metadata len)
    ((blank_column FT_STRING)\<lparr>col_max_length := Some len\<rparr>)"
proof -
  define h where "h = len div 256"
  define a where "a = (254 XOR push_bit 4 h :: nat)"
  let ?b = "len mod 256"
  have "h < 4" unfolding h_def using len by simp
  then have "h = 0 \<or> h = 1 \<or> h = 2 \<or> h = 3" by auto
  then have a: "a < 256 \<and> a \<noteq> 248 \<and> a \<noteq> 247 \<and> (256 * (a div 16 mod 4)) XOR 0x300 = 256 * h"
    unfolding a_def by (elim disjE) (simp_all add: push_bit_eq_mult)
  have m: "push_bit 8 a + ?b = 256 * a + ?b" by (simp add: push_bit_eq_mult)
  have lo: "(256 * a + ?b) AND 0x00FF = ?b" using and_255 [of "256 * a + ?b"] by simp
  have "(256 * a + ?b) div 16 div 256 = a div 16"
  proof -
    have "(256 * a + ?b) div 16 div 256 = (256 * a + ?b) div 256 div 16" by (simp add: div_mult2_eq [symmetric])
    then show ?thesis by simp
  qed
  then have hi: "(drop_bit 4 (256 * a + ?b) AND 0x300) XOR 0x300 = 256 * h"
    using a by (simp add: and_300 drop_bit_eq_div)
  have r: "drop_bit 8 (256 * a + ?b) = a" by (simp add: drop_bit_eq_div)
  have sum: "256 * h + ?b = len" unfolding h_def by simp
  have e: "encode_string_metadata len = [of_nat a] @ [of_nat ?b]"
    unfolding encode_string_metadata_def a_def h_def by (simp add: drop_bit_eq_div)
  have u: "reads rest (read_uint8 P) [of_nat n] n" if "n < 256" for n
    using reads_uints(1) [of "[of_nat n]"] that by (simp add: unat_of_nat_byte)
  have meta: "reads rest (read_string_metadata P c) ([of_nat a] @ [of_nat ?b]) (c\<lparr>col_max_length := Some len\<rparr>)" for c
    unfolding read_string_metadata_def
  proof (rule reads_bind [OF u reads_bind [OF u]])
    show "reads rest (let metadata = push_bit 8 a + ?b; real_type = drop_bit 8 metadata
       in if real_type = FT_SET \<or> real_type = FT_ENUM
          then retA (c\<lparr>col_type := real_type, col_size := Some (metadata AND 0x00FF)\<rparr>)
          else retA (c\<lparr>col_max_length := Some (((drop_bit 4 metadata AND 0x300) XOR 0x300) + (metadata AND 0x00FF))\<rparr>)) []
      (c\<lparr>col_max_length := Some len\<rparr>)"
      using a hi lo r sum by (simp add: m reads_ret)
  qed (use a in simp_all)
  then show ?thesis unfolding e by (simp add: new_column_def Let_def)
qed

end

end
