(* ===== verification/RowValues.thy ===== *)
theory RowValues
  imports Columns
begin

text \<open>
  The values of row events: the readers of \<^verbatim>\<open>RowsEvent\<close> in \<^verbatim>\<open>pymysqlreplication/row_event.py\<close>, one per
  column type. The library calls they make are arguments: \<^verbatim>\<open>charset_by_name\<close> of \<^verbatim>\<open>pymysql\<close> (the
  \<^verbatim>\<open>encoding\<close> of a character set), \<^verbatim>\<open>bytes.decode\<close> by codec and error handling, and the C++ parser for
  binary JSON. Dates, times and decimals of Python's library are written out.
\<close>

section \<open>Dates and numbers of the library\<close>

record row_lib =
  rl_charset_by_name :: "string \<Rightarrow> string option"
  rl_decode :: "string \<Rightarrow> string \<Rightarrow> byte list \<Rightarrow> string res"
  rl_to_json :: "byte list \<Rightarrow> string res"

definition is_leap :: "int \<Rightarrow> bool" where
  "is_leap y \<longleftrightarrow> y mod 4 = 0 \<and> (y mod 100 \<noteq> 0 \<or> y mod 400 = 0)"

definition days_in_month :: "int \<Rightarrow> int \<Rightarrow> int" where
  "days_in_month y m = (if m = 2 then (if is_leap y then 29 else 28) else if m \<in> {4, 6, 9, 11} then 30 else 31)"

definition date_ok :: "int \<Rightarrow> int \<Rightarrow> int \<Rightarrow> bool" where
  "date_ok y m d \<longleftrightarrow> 1 \<le> y \<and> y \<le> 9999 \<and> 1 \<le> m \<and> m \<le> 12 \<and> 1 \<le> d \<and> d \<le> days_in_month y m"

definition clock_ok :: "int \<Rightarrow> int \<Rightarrow> int \<Rightarrow> bool" where
  "clock_ok h mi s \<longleftrightarrow> 0 \<le> h \<and> h < 24 \<and> 0 \<le> mi \<and> mi < 60 \<and> 0 \<le> s \<and> s < 60"

text \<open>\<^verbatim>\<open>datetime.date(...)\<close> and \<^verbatim>\<open>datetime.datetime(...)\<close>: ValueError out of range.\<close>

definition new_date :: "int \<Rightarrow> int \<Rightarrow> int \<Rightarrow> py_val res" where
  "new_date y m d = (if date_ok y m d then Inr (VDate y m d) else Inl ValueError)"

definition new_datetime :: "int \<Rightarrow> int \<Rightarrow> int \<Rightarrow> int \<Rightarrow> int \<Rightarrow> int \<Rightarrow> py_val res" where
  "new_datetime y m d h mi s =
    (if date_ok y m d \<and> clock_ok h mi s then Inr (VDateTime y m d h mi s 0) else Inl ValueError)"

text \<open>\<^verbatim>\<open>dt.replace(microsecond=us)\<close>.\<close>

definition replace_microsecond :: "py_val \<Rightarrow> int \<Rightarrow> py_val res" where
  "replace_microsecond t us =
    (case t of VDateTime y m d h mi s _ \<Rightarrow>
       if 0 \<le> us \<and> us < 1000000 then Inr (VDateTime y m d h mi s us) else Inl ValueError
     | _ \<Rightarrow> Inl AttributeError)"

text \<open>
  \<^verbatim>\<open>datetime.utcfromtimestamp(ts)\<close> for whole seconds: the day is found from the day number counted
  from 0001-01-01, by the lengths of 400, 100, 4 and 1 years and then of the months.
\<close>

fun month_from :: "nat \<Rightarrow> int \<Rightarrow> int \<Rightarrow> int \<Rightarrow> int \<times> int" where
  "month_from 0 y m n = (m, n + 1)"
| "month_from (Suc k) y m n =
    (if n < days_in_month y m then (m, n + 1) else month_from k y (m + 1) (n - days_in_month y m))"

definition date_of_ordinal :: "int \<Rightarrow> int \<times> int \<times> int" where
  "date_of_ordinal n =
    (let n0 = n - 1; n400 = n0 div 146097; r400 = n0 mod 146097;
         n100 = r400 div 36524; r100 = r400 mod 36524;
         n4 = r100 div 1461; r4 = r100 mod 1461;
         n1 = r4 div 365; r1 = r4 mod 365;
         y = n400 * 400 + n100 * 100 + n4 * 4 + n1 + 1
     in if n1 = 4 \<or> n100 = 4 then (y - 1, 12, 31)
        else (case month_from 11 y 1 r1 of (m, d) \<Rightarrow> (y, m, d)))"

definition utcfromtimestamp :: "int \<Rightarrow> py_val res" where
  "utcfromtimestamp ts =
    (let days = ts div 86400; secs = ts mod 86400
     in case date_of_ordinal (days + 719163) of (y, m, d) \<Rightarrow>
          new_datetime y m d (secs div 3600) (secs mod 3600 div 60) (secs mod 60))"

definition timedelta :: "int \<Rightarrow> int \<Rightarrow> int \<Rightarrow> int \<Rightarrow> int" where
  "timedelta hours minutes seconds microseconds =
    ((hours * 60 + minutes) * 60 + seconds) * 1000000 + microseconds"

text \<open>\<^verbatim>\<open>int(a / b)\<close> for a positive \<open>b\<close>: the quotient towards zero.\<close>

definition trunc_div :: "int \<Rightarrow> int \<Rightarrow> int" where
  "trunc_div a b = (if a < 0 then - ((- a) div b) else a div b)"

text \<open>\<^verbatim>\<open>f"{value:0wd}"\<close>.\<close>

definition pad0 :: "nat \<Rightarrow> string \<Rightarrow> string" where
  "pad0 w s = replicate (w - length s) CHR ''0'' @ s"

definition format_0d :: "nat \<Rightarrow> int \<Rightarrow> string" where
  "format_0d w v = (if v < 0 then CHR ''-'' # pad0 (w - 1) (str_nat (nat (- v))) else pad0 w (str_nat (nat v)))"

text \<open>
  \<^verbatim>\<open>str(decimal.Decimal(s))\<close> for \<open>s\<close> a sign, digits, a point and digits: the sign, the digits as a
  coefficient and the number of digits behind the point determine the text.
\<close>

definition decimal_text :: "bool \<Rightarrow> nat \<Rightarrow> nat \<Rightarrow> string" where
  "decimal_text neg n d =
    (let digs = str_nat n;
         leftdigits = int (length digs) - int d;
         dotplace = (if - 6 < leftdigits then leftdigits else 1);
         intpart = (if dotplace \<le> 0 then ''0'' else take (nat dotplace) digs);
         fracpart = (if dotplace \<le> 0 then replicate (nat (- dotplace)) CHR ''0'' @ digs else drop (nat dotplace) digs);
         point = (if fracpart = [] then [] else ''.'');
         ex = (if leftdigits = dotplace then [] else ''E'' @ str_int (leftdigits - dotplace))
     in (if neg then ''-'' else []) @ intpart @ point @ fracpart @ ex)"

definition py_decimal :: "string \<Rightarrow> py_val res" where
  "py_decimal s =
    (let (neg, t) = (case s of c # r \<Rightarrow> if c = CHR ''-'' then (True, r) else (False, s) | [] \<Rightarrow> (False, []));
         ip = takeWhile (\<lambda>c. c \<noteq> CHR ''.'') t;
         fp = tl (dropWhile (\<lambda>c. c \<noteq> CHR ''.'') t)
     in if digits (ip @ fp) then Inr (VDecimal (decimal_text neg (digits_val (ip @ fp)) (length fp)))
        else Inl (PyException ''InvalidOperation''))"

text \<open>
  \<^verbatim>\<open>struct.unpack("<f", data)\<close>: the double that is equal to a float, on bit patterns; a subnormal
  float is a normal double.
\<close>

fun top_bit :: "nat \<Rightarrow> nat" where
  "top_bit n = (if n < 2 then 0 else Suc (top_bit (n div 2)))"

declare top_bit.simps [simp del]

definition widen_float :: "nat \<Rightarrow> 64 word" where
  "widen_float w =
    (let s = w div 2 ^ 31; e = w div 2 ^ 23 mod 2 ^ 8; f = w mod 2 ^ 23
     in of_nat (s * 2 ^ 63 +
          (if e = 255 then 2047 * 2 ^ 52 + f * 2 ^ 29
           else if e = 0 \<and> f = 0 then 0
           else if e = 0 then (top_bit f + 874) * 2 ^ 52 + (f - 2 ^ top_bit f) * 2 ^ (52 - top_bit f)
           else (e + 896) * 2 ^ 52 + f * 2 ^ 29)))"

section \<open>Slices and fractions\<close>

definition read_binary_slice :: "int \<Rightarrow> nat \<Rightarrow> nat \<Rightarrow> nat \<Rightarrow> int" where
  "read_binary_slice binary start sz data_length =
    drop_bit (data_length - (start + sz)) binary AND (push_bit sz 1 - 1)"

text \<open>An integer reader by size whose result is computed with.\<close>

definition read_int_be :: "'p packet_ops \<Rightarrow> nat \<Rightarrow> ('p wrapper, int) act" where
  "read_int_be P sz = bindA (read_int_be_by_size P sz) (\<lambda>r. pureA (notNone r))"

definition read_fsp :: "'p packet_ops \<Rightarrow> column \<Rightarrow> ('p wrapper, int) act" where
  "read_fsp P c =
    bindA (pureA (attr (col_fsp c))) (\<lambda>fsp.
      let n = (if fsp = 1 \<or> fsp = 2 then 1 else if fsp = 3 \<or> fsp = 4 then 2
               else if fsp = 5 \<or> fsp = 6 then 3 else 0)
      in if 0 < n then
           bindA (read_int_be P n) (\<lambda>us.
             retA ((if fsp mod 2 \<noteq> 0 then trunc_div us 10 else us) * 10 ^ (6 - fsp)))
         else retA 0)"

definition add_fsp_to_time :: "'p packet_ops \<Rightarrow> py_val \<Rightarrow> column \<Rightarrow> ('p wrapper, py_val) act" where
  "add_fsp_to_time P t c =
    bindA (read_fsp P c) (\<lambda>us. if 0 < us then pureA (replace_microsecond t us) else retA t)"

section \<open>Readers\<close>

definition charset_to_encoding :: "row_lib \<Rightarrow> string \<Rightarrow> string" where
  "charset_to_encoding L nm = (case rl_charset_by_name L nm of Some enc \<Rightarrow> enc | None \<Rightarrow> nm)"

text \<open>KeyError and IndexError are LookupErrors.\<close>

definition is_lookup_error :: "py_error \<Rightarrow> bool" where
  "is_lookup_error e \<longleftrightarrow> e = LookupError \<or> e = KeyError \<or> e = IndexError"

definition RowsEvent_read_string :: "row_lib \<Rightarrow> bool \<Rightarrow> 'p packet_ops \<Rightarrow> nat \<Rightarrow> column \<Rightarrow> ('p wrapper, py_val) act" where
  "RowsEvent_read_string L ignore_decode_errors P sz c =
    bindA (read_length_coded_pascal_string P sz) (\<lambda>str.
      let decode_errors = (if ignore_decode_errors then ''ignore'' else ''strict'')
      in case col_character_set_name c of
           None \<Rightarrow> retA (VBytes str)
         | Some nm \<Rightarrow>
             (case rl_decode L (charset_to_encoding L nm) decode_errors str of
                Inr s \<Rightarrow> retA (VStr s)
              | Inl e \<Rightarrow> if is_lookup_error e then retA (VBytes str) else raiseA e))"

text \<open>The characters of the low \<open>end\<close> bits of a byte, highest first.\<close>

definition bit_chars :: "nat \<Rightarrow> nat \<Rightarrow> string" where
  "bit_chars data n =
    rev (map (\<lambda>k. if data AND push_bit k 1 \<noteq> 0 then CHR ''1'' else CHR ''0'') [0..<n])"

fun read_bit_bytes :: "'p packet_ops \<Rightarrow> nat \<Rightarrow> nat \<Rightarrow> nat list \<Rightarrow> string \<Rightarrow> ('p wrapper, string) act" where
  "read_bit_bytes P nbits nbytes [] resp = retA resp"
| "read_bit_bytes P nbits nbytes (i # is) resp =
    bindA (read_uint8 P) (\<lambda>data.
      let n = (if i = 0 then (if nbytes = 1 then nbits else if nbits mod 8 = 0 then 8 else nbits mod 8) else 8)
      in read_bit_bytes P nbits nbytes is (resp @ bit_chars data n))"

definition read_bit :: "'p packet_ops \<Rightarrow> column \<Rightarrow> ('p wrapper, py_val) act" where
  "read_bit P c =
    bindA (pureA (attr (col_bytes c))) (\<lambda>nbytes. bindA (pureA (attr (col_bits c))) (\<lambda>nbits.
    bindA (read_bit_bytes P nbits nbytes [0..<nbytes] []) (\<lambda>s. retA (VStr s))))"

definition read_time :: "'p packet_ops \<Rightarrow> ('p wrapper, py_val) act" where
  "read_time P = bindA (read_uint24 P) (\<lambda>t.
     let t = int t in retA (VTimeDelta (timedelta (t div 10000) (t mod 10000 div 100) (t mod 100) 0)))"

definition read_time2 :: "'p packet_ops \<Rightarrow> column \<Rightarrow> ('p wrapper, py_val) act" where
  "read_time2 P c =
    bindA (read_int_be P 3) (\<lambda>data0.
      let sign = (if read_binary_slice data0 0 1 24 \<noteq> 0 then 1 else - 1);
          data = (if sign = - 1 then NOT data0 + 1 else data0)
      in bindA (read_fsp P c) (\<lambda>us.
           retA (VTimeDelta (timedelta (read_binary_slice data 2 10 24) (read_binary_slice data 12 6 24)
                   (read_binary_slice data 18 6 24) us * sign))))"

text \<open>\<^verbatim>\<open>None\<close> for a zero date.\<close>

definition read_date :: "'p packet_ops \<Rightarrow> ('p wrapper, py_val) act" where
  "read_date P = bindA (read_uint24 P) (\<lambda>t.
    if t = 0 then retA VNone
    else
      let year = drop_bit 9 (t AND push_bit 9 (push_bit 15 1 - 1));
          month = drop_bit 5 (t AND push_bit 5 (push_bit 4 1 - 1));
          day = t AND (push_bit 5 1 - 1)
      in if year = 0 \<or> month = 0 \<or> day = 0 then retA VNone
         else pureA (new_date (int year) (int month) (int day)))"

text \<open>
  The old format: decimal digits. The code divides with floats; below 10 ^ 14 the quotients are at
  least 10 ^ -8 away from the next whole number and above it the year is refused, so whole-number
  division gives the same parts.
\<close>

definition read_datetime :: "'p packet_ops \<Rightarrow> ('p wrapper, py_val) act" where
  "read_datetime P = bindA (read_uint64 P) (\<lambda>v.
    if v = 0 then retA VNone
    else
      let date = v div 1000000; time = v mod 1000000;
          year = date div 10000; month = date mod 10000 div 100; day = date mod 100
      in if year = 0 \<or> month = 0 \<or> day = 0 then retA VNone
         else pureA (new_datetime (int year) (int month) (int day)
                (int (time div 10000)) (int (time mod 10000 div 100)) (int (time mod 100))))"

definition read_datetime2 :: "'p packet_ops \<Rightarrow> column \<Rightarrow> ('p wrapper, py_val) act" where
  "read_datetime2 P c = bindA (read_int_be P 5) (\<lambda>data.
    let year_month = read_binary_slice data 1 17 40
    in case new_datetime (year_month div 13) (year_month mod 13) (read_binary_slice data 18 5 40)
              (read_binary_slice data 23 5 40) (read_binary_slice data 28 6 40) (read_binary_slice data 34 6 40) of
         Inl _ \<Rightarrow> bindA (read_fsp P c) (\<lambda>_. retA VNone)
       | Inr t \<Rightarrow> add_fsp_to_time P t c)"

subsection \<open>Decimals\<close>

definition compressed_bytes :: "nat list" where
  "compressed_bytes = [0, 1, 1, 2, 2, 3, 3, 4, 4, 4]"

text \<open>\<^verbatim>\<open>xs[i]\<close>, a negative \<open>i\<close> counting from the end.\<close>

definition item :: "'a list \<Rightarrow> int \<Rightarrow> 'a res" where
  "item xs i =
    (if 0 \<le> i then nthE xs (nat i)
     else if nat (- i) \<le> length xs then nthE xs (length xs - nat (- i)) else Inl IndexError)"

fun read_decimal_groups :: "'p packet_ops \<Rightarrow> int \<Rightarrow> nat \<Rightarrow> string \<Rightarrow> ('p wrapper, string) act" where
  "read_decimal_groups P sgn_mask 0 res = retA res"
| "read_decimal_groups P sgn_mask (Suc n) res =
    bindA (packet_read P 4) (\<lambda>bs. bindA (pureA (unpack_be_signed 4 bs)) (\<lambda>v.
      read_decimal_groups P sgn_mask n (res @ format_0d 9 (v XOR sgn_mask))))"

text \<open>The digits behind the sign: the leading ones, whole groups, the point, whole groups, the trailing ones.\<close>

definition read_decimal_digits ::
    "'p packet_ops \<Rightarrow> int \<Rightarrow> string \<Rightarrow> int \<Rightarrow> int \<Rightarrow> nat \<Rightarrow> nat \<Rightarrow> ('p wrapper, py_val) act" where
  "read_decimal_digits P sgn_mask res0 uncomp_integral comp_integral uncomp_fractional comp_fractional =
    bindA (pureA (item compressed_bytes comp_integral)) (\<lambda>sz.
    bindA (if 0 < sz then bindA (read_int_be P sz) (\<lambda>v. retA (res0 @ str_int (v XOR sgn_mask))) else retA res0) (\<lambda>res1.
    bindA (read_decimal_groups P sgn_mask (nat uncomp_integral) res1) (\<lambda>res2.
    bindA (read_decimal_groups P sgn_mask uncomp_fractional (res2 @ ''.'')) (\<lambda>res3.
    bindA (pureA (item compressed_bytes (int comp_fractional))) (\<lambda>sz.
    bindA (if 0 < sz then bindA (read_int_be P sz) (\<lambda>v. retA (res3 @ format_0d comp_fractional (v XOR sgn_mask))) else retA res3) (\<lambda>res4.
    pureA (py_decimal res4)))))))"

definition read_new_decimal :: "'p packet_ops \<Rightarrow> column \<Rightarrow> ('p wrapper, py_val) act" where
  "read_new_decimal P c =
    bindA (pureA (attr (col_precision c))) (\<lambda>precision. bindA (pureA (attr (col_decimals c))) (\<lambda>decimals.
    let integral = int precision - int decimals;
        uncomp_integral = trunc_div integral 9;
        uncomp_fractional = decimals div 9;
        comp_integral = integral - uncomp_integral * 9;
        comp_fractional = decimals - uncomp_fractional * 9
    in bindA (read_uint8 P) (\<lambda>b.
       let (res0, sgn_mask) = (if b AND 0x80 \<noteq> 0 then ([], 0) else (''-'', - 1)) in
       bindA (packet_unread [of_nat (b XOR 0x80)]) (\<lambda>_.
       read_decimal_digits P sgn_mask res0 uncomp_integral comp_integral uncomp_fractional comp_fractional))))"

section \<open>A value by its column\<close>

text \<open>The sources of a missing value, from \<^verbatim>\<open>constants/NONE_SOURCE.py\<close>.\<close>

definition "NS_NULL = ''null''"
definition "NS_OUT_OF_DATE_RANGE = ''out of date range''"
definition "NS_OUT_OF_DATETIME_RANGE = ''out of datetime range''"
definition "NS_OUT_OF_DATETIME2_RANGE = ''out of datetime2 range''"
definition "NS_EMPTY_SET = ''empty set''"
definition "NS_COLS_BITMAP = ''cols bitmap''"
definition "NS_JSON_PARTIAL_UPDATE = ''same with before values''"

definition plain :: "('p wrapper, py_val) act \<Rightarrow> ('p wrapper, py_val \<times> string option) act" where
  "plain m = bindA m (\<lambda>v. retA (v, None))"

definition or_none_source :: "string \<Rightarrow> ('p wrapper, py_val) act \<Rightarrow> ('p wrapper, py_val \<times> string option) act" where
  "or_none_source src m = bindA m (\<lambda>v. retA (v, if v = VNone then Some src else None))"

definition read_integer :: "'p packet_ops \<Rightarrow> nat \<Rightarrow> bool \<Rightarrow> ('p wrapper, py_val) act" where
  "read_integer P n is_unsigned =
    bindA (packet_read P (int n)) (\<lambda>bs. pureA
      (if is_unsigned then bindE (unpack_le n bs) (\<lambda>v. Inr (VInt (int v)))
       else bindE (unpack_le_signed n bs) (\<lambda>v. Inr (VInt v))))"

definition read_int24_value :: "'p packet_ops \<Rightarrow> bool \<Rightarrow> ('p wrapper, py_val) act" where
  "read_int24_value P is_unsigned =
    (if is_unsigned then bindA (read_uint24 P) (\<lambda>v. retA (VInt (int v))) else bindA (read_int24 P) (\<lambda>v. retA (VInt v)))"

definition opt_int :: "nat option \<Rightarrow> py_val" where
  "opt_int x = (case x of None \<Rightarrow> VNone | Some n \<Rightarrow> VInt (int n))"

definition read_set :: "'p packet_ops \<Rightarrow> column \<Rightarrow> ('p wrapper, py_val \<times> string option) act" where
  "read_set P c =
    bindA (pureA (attr (col_size c))) (\<lambda>sz. bindA (read_uint_by_size P sz) (\<lambda>bit_mask.
      case col_set_values c of
        Some (v # vs) \<Rightarrow>
          bindA (pureA (notNone bit_mask)) (\<lambda>bm.
            let ret = [VStr val. (idx, val) \<leftarrow> enumerate 0 (v # vs), bm AND push_bit idx 1 \<noteq> 0]
            in if ret = [] then retA (VNone, Some NS_EMPTY_SET) else retA (VSet ret, None))
      | _ \<Rightarrow> retA (opt_int bit_mask, Some NS_EMPTY_SET)))"

text \<open>
  The branches of \<^verbatim>\<open>__read_values_name\<close> behind the two bit maps: the value and, when one is
  recorded, the reason why it is missing.
\<close>

definition read_column_value ::
    "row_lib \<Rightarrow> bool \<Rightarrow> 'p packet_ops \<Rightarrow> column \<Rightarrow> bool \<Rightarrow> ('p wrapper, py_val \<times> string option) act" where
  "read_column_value L ignore_decode_errors P c is_partial =
    (let t = col_type c; is_unsigned = col_unsigned c in
     if t = FT_TINY then plain (read_integer P 1 is_unsigned)
     else if t = FT_SHORT then plain (read_integer P 2 is_unsigned)
     else if t = FT_LONG then plain (read_integer P 4 is_unsigned)
     else if t = FT_INT24 then plain (read_int24_value P is_unsigned)
     else if t = FT_FLOAT then
       plain (bindA (packet_read P 4) (\<lambda>bs. pureA (bindE (unpack_le 4 bs) (\<lambda>n. Inr (VFloat (widen_float n))))))
     else if t = FT_DOUBLE then
       plain (bindA (packet_read P 8) (\<lambda>bs. pureA (bindE (unpack_le 8 bs) (\<lambda>n. Inr (VFloat (of_nat n))))))
     else if t = FT_VARCHAR \<or> t = FT_STRING then
       plain (bindA (pureA (attr (col_max_length c))) (\<lambda>max_length.
         RowsEvent_read_string L ignore_decode_errors P (if 255 < max_length then 2 else 1) c))
     else if t = FT_NEWDECIMAL then plain (read_new_decimal P c)
     else if t = FT_BLOB then
       plain (bindA (pureA (attr (col_length_size c))) (\<lambda>sz. RowsEvent_read_string L ignore_decode_errors P sz c))
     else if t = FT_DATETIME then or_none_source NS_OUT_OF_DATETIME_RANGE (read_datetime P)
     else if t = FT_TIME then plain (read_time P)
     else if t = FT_DATE then or_none_source NS_OUT_OF_DATE_RANGE (read_date P)
     else if t = FT_TIMESTAMP then
       plain (bindA (read_uint32 P) (\<lambda>n. pureA (utcfromtimestamp (int n))))
     else if t = FT_DATETIME2 then or_none_source NS_OUT_OF_DATETIME2_RANGE (read_datetime2 P c)
     else if t = FT_TIME2 then plain (read_time2 P c)
     else if t = FT_TIMESTAMP2 then
       plain (bindA (read_int_be P 4) (\<lambda>i. bindA (pureA (utcfromtimestamp i)) (\<lambda>t. add_fsp_to_time P t c)))
     else if t = FT_LONGLONG then plain (read_integer P 8 is_unsigned)
     else if t = FT_YEAR then plain (bindA (read_uint8 P) (\<lambda>n. retA (VInt (int n + 1900))))
     else if t = FT_ENUM then
       plain (bindA (pureA (attr (col_size c))) (\<lambda>sz. bindA (read_uint_by_size P sz) (\<lambda>r. retA (opt_int r))))
     else if t = FT_SET then read_set P c
     else if t = FT_BIT then plain (read_bit P c)
     else if t = FT_GEOMETRY then
       plain (bindA (pureA (attr (col_length_size c))) (\<lambda>sz.
         bindA (read_length_coded_pascal_string P sz) (\<lambda>bs. retA (VBytes bs))))
     else if t = FT_JSON then
       bindA (pureA (attr (col_length_size c))) (\<lambda>sz. bindA (read_binary_json (rl_to_json L) P sz) (\<lambda>r.
         retA (case r of None \<Rightarrow> VNone | Some s \<Rightarrow> VStr s,
               if (r = None \<or> r = Some []) \<and> is_partial then Some NS_JSON_PARTIAL_UPDATE else None)))
     else raiseA NotImplementedError)"

end
