(* ===== verification/DecimalCodec.thy ===== *)
theory DecimalCodec
  imports RowValues
begin

text \<open>
  Decimals in row events: the packed format as MySQL documents it (nine digits in four bytes, the
  leading and trailing digits in as few as hold them, a negative number inverted, the first bit
  flipped) and the proof that \<^const>\<open>read_new_decimal\<close> reads it back. The reader looks at the first
  byte and pushes it back changed, so it needs a wrapper whose buffer is empty.
\<close>

section \<open>Readers on an empty buffer\<close>

definition decodes :: "('p \<Rightarrow> byte list) \<Rightarrow> ('p wrapper, 'a) act \<Rightarrow> byte list \<Rightarrow> 'a \<Rightarrow> bool" where
  "decodes rest m bs v \<longleftrightarrow> (\<forall>w behind. pw_buffer w = [] \<and> rest (pw_packet w) = bs @ behind \<longrightarrow>
     (\<exists>p. m w = (Inr v, taken (length bs) p w) \<and> rest p = behind))"

lemma reads_decodes: "reads rest m bs v \<Longrightarrow> decodes rest m bs v"
  unfolding decodes_def
proof (intro allI impI, elim conjE)
  fix w :: "_ wrapper" and behind
  assume r: "reads rest m bs v" and w: "pw_buffer w = []" "rest (pw_packet w) = bs @ behind"
  from w have "pending rest w = bs @ behind" by (simp add: pending_def)
  from readsD [OF r this] obtain p where "m w = (Inr v, taken (length bs) p w)"
    "pending rest (taken (length bs) p w) = behind" by blast
  then show "\<exists>p. m w = (Inr v, taken (length bs) p w) \<and> rest p = behind"
    using w(1) by (auto simp: pending_def)
qed

lemma decodesD:
  fixes w :: "'p wrapper"
  assumes "decodes rest m bs v" "pw_buffer w = []" "rest (pw_packet w) = bs @ behind"
  obtains p where "m w = (Inr v, taken (length bs) p w)" "rest p = behind"
  using assms by (auto simp: decodes_def)

lemma decodes_bind:
  assumes m: "decodes rest m bs v" and f: "decodes rest (f v) cs u" and ds: "ds = bs @ cs"
  shows "decodes rest (bindA m f) ds u"
  unfolding decodes_def
proof (intro allI impI, elim conjE)
  fix w :: "_ wrapper" and behind
  assume w: "pw_buffer w = []" "rest (pw_packet w) = ds @ behind"
  then obtain p where p: "m w = (Inr v, taken (length bs) p w)" "rest p = cs @ behind"
    using decodesD [OF m w(1), of "cs @ behind"] ds by auto
  have "pw_buffer (taken (length bs) p w) = []" using w(1) by simp
  from decodesD [OF f this] p(2) obtain q where q: "f v (taken (length bs) p w) = (Inr u, taken (length ds) q w)" "rest q = behind"
    unfolding ds by (auto simp: taken_taken)
  show "\<exists>q. bindA m f w = (Inr u, taken (length ds) q w) \<and> rest q = behind"
    using p(1) q by (auto simp: bindA_def)
qed

lemma decodes_ret: "decodes rest (retA v) [] v"
  by (intro reads_decodes reads_ret)

lemma decodes_pure: "r = Inr v \<Longrightarrow> decodes rest (pureA r) [] v"
  by (intro reads_decodes reads_pure)

text \<open>A first byte that is looked at and pushed back, changed.\<close>

context byte_source
begin

lemma decodes_peek:
  assumes F: "F (unat b) = bindA (packet_unread [b']) (\<lambda>_. K)" and K: "reads rest K (b' # bs) v"
  shows "decodes rest (bindA (read_uint8 P) F) (b # bs) v"
  unfolding decodes_def
proof (intro allI impI, elim conjE)
  fix w :: "_ wrapper" and behind
  assume w: "pw_buffer w = []" "rest (pw_packet w) = (b # bs) @ behind"
  have "reads rest (read_uint8 P) [b] (unat b)" using reads_uints(1) [of "[b]"] by simp
  from decodesD [OF reads_decodes [OF this] w(1)] w(2)
  obtain p where p: "read_uint8 P w = (Inr (unat b), taken 1 p w)" "rest p = bs @ behind" by auto
  define w2 where "w2 = w\<lparr>pw_packet := p, pw_buffer := [b']\<rparr>"
  have un: "packet_unread [b'] (taken 1 p w) = (Inr (), w2)"
    using w(1) by (simp add: packet_unread_def modifyA_def taken_def w2_def)
  have pend: "pending rest w2 = (b' # bs) @ behind" by (simp add: pending_def w2_def p(2))
  from K pend obtain q where q: "K w2 = (Inr v, taken (length (b' # bs)) q w2)"
    "rest q = drop (length (b' # bs) - length (pw_buffer w2)) (rest (pw_packet w2))"
    unfolding reads_def by blast
  have "taken (length (b' # bs)) q w2 = taken (length (b # bs)) q w"
    using w(1) by (simp add: taken_def w2_def)
  moreover have "rest q = behind" using q(2) by (simp add: w2_def p(2))
  ultimately show "\<exists>q. bindA (read_uint8 P) F w = (Inr v, taken (length (b # bs)) q w) \<and> rest q = behind"
    using p(1) un q(1) F by (auto simp: bindA_def)
qed

end

section \<open>The format\<close>

definition flip_bytes :: "bool \<Rightarrow> byte list \<Rightarrow> byte list" where
  "flip_bytes neg bs = (if neg then map NOT bs else bs)"

primrec decimal_groups :: "nat \<Rightarrow> nat \<Rightarrow> byte list" where
  "decimal_groups 0 m = []"
| "decimal_groups (Suc k) m = be_bytes 4 (m div 10 ^ (9 * k)) @ decimal_groups k (m mod 10 ^ (9 * k))"

definition decimal_body :: "nat \<Rightarrow> nat \<Rightarrow> nat \<Rightarrow> byte list" where
  "decimal_body p d n =
    (let ip = n div 10 ^ d; fp = n mod 10 ^ d; i = p - d in
     be_bytes (compressed_bytes ! (i mod 9)) (ip div 10 ^ (9 * (i div 9)))
     @ decimal_groups (i div 9) (ip mod 10 ^ (9 * (i div 9)))
     @ decimal_groups (d div 9) (fp div 10 ^ (d mod 9))
     @ be_bytes (compressed_bytes ! (d mod 9)) (fp mod 10 ^ (d mod 9)))"

text \<open>The number \<open>n\<close> / 10 ^ \<open>d\<close>, negated if \<open>neg\<close>, in a column of \<open>p\<close> digits, \<open>d\<close> behind the point.\<close>

definition encode_decimal :: "nat \<Rightarrow> nat \<Rightarrow> bool \<Rightarrow> nat \<Rightarrow> byte list" where
  "encode_decimal p d neg n =
    (case flip_bytes neg (decimal_body p d n) of [] \<Rightarrow> [] | b # bs \<Rightarrow> (b XOR 0x80) # bs)"

section \<open>Groups of digits\<close>

lemma unat_not_byte: "unat (NOT b :: byte) = 255 - unat b"
proof -
  have "uint b < 2 ^ LENGTH(8)" by (rule unsigned_less)
  then have b: "uint b < 256" by simp
  then have "take_bit 8 (uint b) = uint b" by (simp add: take_bit_eq_mod)
  then have "uint (NOT b) = 255 - uint b" by (simp add: unsigned_not_eq take_bit_not_eq_mask_diff mask_eq_exp_minus_1)
  note b this
  then have "int (unat (NOT b)) = 255 - int (unat b)" by simp
  then show ?thesis using unat_byte [of b] by linarith
qed

lemma le_nat_not: "le_nat (map NOT bs) + le_nat bs + 1 = 256 ^ length bs"
proof (induction bs)
  case (Cons b bs)
  have "unat (NOT b) + unat b = 255" using unat_not_byte [of b] unat_byte [of b] by simp
  with Cons show ?case by simp
qed simp

lemma be_nat_not: "be_nat (map NOT bs) + be_nat bs + 1 = 256 ^ length bs"
  using le_nat_not [of "rev bs"] by (simp add: be_nat_def rev_map)

lemma signed_flip:
  assumes "2 * v < 256 ^ k" "0 < k"
  shows "to_signed k (be_nat (flip_bytes neg (be_bytes k v))) XOR (if neg then - 1 else 0) = int v"
proof -
  have p: "(2 :: nat) ^ (8 * k) = 256 ^ k" by (simp add: pow_256)
  have v: "be_nat (be_bytes k v) = v" using assms p by (intro be_nat_be_bytes) simp
  show ?thesis
  proof (cases neg)
    case True
    define u where "u = be_nat (map NOT (be_bytes k v))"
    have u: "u + v + 1 = 256 ^ k" unfolding u_def using be_nat_not [of "be_bytes k v"] v by simp
    have "even ((256 :: nat) ^ k)" using assms(2) by simp
    then obtain h where h: "(256 :: nat) ^ k = 2 * h" by blast
    have "256 ^ k \<le> 2 * u" using u assms(1) unfolding h by presburger
    moreover have "int u - 2 ^ (8 * k) = NOT (int v)"
    proof -
      have "int (u + v + 1) = 2 ^ (8 * k)" unfolding u p [symmetric] by simp
      then show ?thesis by (simp add: not_int_def)
    qed
    ultimately have "to_signed k u = NOT (int v)" by (simp add: to_signed_def p)
    with True show ?thesis by (simp add: flip_bytes_def u_def)
  next
    case False
    then show ?thesis using assms v p by (simp add: flip_bytes_def to_signed_def)
  qed
qed

lemma length_flip [simp]: "length (flip_bytes neg bs) = length bs"
  by (simp add: flip_bytes_def)

lemma flip_Nil_iff [simp]: "flip_bytes neg bs = [] \<longleftrightarrow> bs = []"
  by (simp add: flip_bytes_def)

lemma flip_append: "flip_bytes neg (xs @ ys) = flip_bytes neg xs @ flip_bytes neg ys"
  by (simp add: flip_bytes_def)

text \<open>A group of up to nine digits fits its bytes, with the sign bit to spare.\<close>

lemma compressed_fit:
  fixes v :: nat
  assumes "c < 10" "v < 10 ^ c"
  shows "2 * v < 256 ^ (compressed_bytes ! c)"
proof -
  have "c \<in> {0, 1, 2, 3, 4, 5, 6, 7, 8, 9}" using assms(1) by auto
  then have "2 * 10 ^ c \<le> (256 :: nat) ^ (compressed_bytes ! c) \<or> c = 0"
    by (elim insertE) (simp_all add: compressed_bytes_def)
  with assms(2) show ?thesis by (auto simp: compressed_bytes_def)
qed

lemma compressed_size:
  assumes "c < 10"
  shows "compressed_bytes ! c \<le> 4" "0 < compressed_bytes ! c \<longleftrightarrow> 0 < c"
proof -
  have "c \<in> {0, 1, 2, 3, 4, 5, 6, 7, 8, 9}" using assms by auto
  then show "compressed_bytes ! c \<le> 4" "0 < compressed_bytes ! c \<longleftrightarrow> 0 < c"
    by (elim insertE; simp add: compressed_bytes_def)+
qed

lemma item_compressed: "c < 10 \<Longrightarrow> item compressed_bytes (int c) = Inr (compressed_bytes ! c)"
  by (simp add: item_def nthE_def) (simp add: compressed_bytes_def)

context byte_source
begin

lemma reads_int_be:
  assumes "length bs = k" "k \<in> {1..4}"
  shows "reads rest (read_int_be P k) bs (to_signed k (be_nat bs))"
  unfolding read_int_be_def
  by (rule reads_then [OF reads_int_be_by_size [OF assms]]) (simp add: notNone_def)

lemma reads_group:
  assumes "k \<in> {1..4}" "2 * v < 256 ^ k"
  shows "reads rest (bindA (read_int_be P k) (\<lambda>x. retA (g (x XOR (if neg then - 1 else 0)))))
    (flip_bytes neg (be_bytes k v)) (g (int v))"
  using reads_map [OF reads_int_be, of "flip_bytes neg (be_bytes k v)" k "\<lambda>x. g (x XOR (if neg then - 1 else 0))"]
    assms signed_flip [OF assms(2), of neg] by simp

end

section \<open>Texts of digits\<close>

lemma digits_val_append: "digits_val (s @ t) = digits_val s * 10 ^ length t + digits_val t"
proof (induction t rule: rev_induct)
  case (snoc c t)
  then show ?case by (simp add: append_assoc [symmetric] algebra_simps del: append_assoc)
qed simp

lemma digits_val_zeros: "digits_val (replicate k CHR ''0'' @ s) = digits_val s"
  by (induction k) (simp_all add: digits_val_def code_def)

lemma length_str_nat_le: "0 < w \<Longrightarrow> n < 10 ^ w \<Longrightarrow> length (str_nat n) \<le> w"
proof (induction n arbitrary: w rule: str_nat.induct)
  case (1 n)
  show ?case
  proof (cases "n < 10")
    case True
    with 1(2) show ?thesis by (simp add: str_nat.simps)
  next
    case False
    obtain u where w: "w = Suc u" using 1(2) by (cases w) auto
    have "0 < u" using 1(3) False w by (cases u) auto
    note w = w this
    have "n div 10 < 10 ^ u" using 1(3) w by (simp add: less_mult_imp_div_less mult.commute)
    with 1(1) [OF False w(2)] w False show ?thesis by (simp add: str_nat.simps [of n])
  qed
qed

lemma is_digit_zero: "is_digit CHR ''0''"
  by (simp add: is_digit_def code_def)

lemma pad0_facts:
  assumes "0 < w" "n < 10 ^ w"
  shows "length (pad0 w (str_nat n)) = w" "digits_val (pad0 w (str_nat n)) = n" "list_all is_digit (pad0 w (str_nat n))"
proof -
  show "length (pad0 w (str_nat n)) = w" using length_str_nat_le [OF assms] by (simp add: pad0_def)
  show "digits_val (pad0 w (str_nat n)) = n" by (simp add: pad0_def digits_val_zeros)
  show "list_all is_digit (pad0 w (str_nat n))"
    using digits_str_nat [of n] by (auto simp: pad0_def digits_def list_all_iff is_digit_zero)
qed

primrec group_text :: "nat \<Rightarrow> nat \<Rightarrow> string" where
  "group_text 0 m = []"
| "group_text (Suc k) m = pad0 9 (str_nat (m div 10 ^ (9 * k))) @ group_text k (m mod 10 ^ (9 * k))"

lemma div_pow_less: "m < 10 ^ (a + b) \<Longrightarrow> m div 10 ^ b < (10 :: nat) ^ a"
  by (simp add: power_add less_mult_imp_div_less)

lemma group_text_facts:
  "m < 10 ^ (9 * k) \<Longrightarrow> length (group_text k m) = 9 * k \<and> digits_val (group_text k m) = m \<and> list_all is_digit (group_text k m)"
proof (induction k arbitrary: m)
  case (Suc k)
  have "m < 10 ^ (9 + 9 * k)" using Suc.prems by (simp only: mult_Suc_right)
  then have "m div 10 ^ (9 * k) < 10 ^ 9" by (rule div_pow_less)
  note p = pad0_facts [OF _ this]
  have "m mod 10 ^ (9 * k) < 10 ^ (9 * k)" by simp
  from Suc.IH [OF this] p have "digits_val (group_text (Suc k) m) = m div 10 ^ (9 * k) * 10 ^ (9 * k) + m mod 10 ^ (9 * k)"
    by (simp add: digits_val_append)
  also have "\<dots> = m" by (rule div_mult_mod_eq)
  finally show ?case using Suc.IH [of "m mod 10 ^ (9 * k)"] p by simp
qed simp

context byte_source
begin

lemma reads_groups:
  "m < 10 ^ (9 * k) \<Longrightarrow> reads rest (read_decimal_groups P (if neg then - 1 else 0) k res)
     (flip_bytes neg (decimal_groups k m)) (res @ group_text k m)"
proof (induction k arbitrary: m res)
  case 0
  then show ?case by (simp add: flip_bytes_def reads_ret)
next
  case (Suc k)
  let ?v = "m div 10 ^ (9 * k)" and ?x = "if neg then - 1 else (0 :: int)"
  have "m < 10 ^ (9 + 9 * k)" using Suc.prems by (simp only: mult_Suc_right)
  then have "?v < 10 ^ 9" by (rule div_pow_less)
  then have v: "2 * ?v < 256 ^ 4" and v4: "0 < (4 :: nat)" by simp_all
  have f: "format_0d 9 (to_signed 4 (be_nat (flip_bytes neg (be_bytes 4 ?v))) XOR ?x) = pad0 9 (str_nat ?v)"
    using signed_flip [OF v, of neg] v4 by (simp add: format_0d_def del: of_nat_div)
  have IH: "reads rest (read_decimal_groups P ?x k (res @ pad0 9 (str_nat ?v)))
      (flip_bytes neg (decimal_groups k (m mod 10 ^ (9 * k)))) (res @ group_text (Suc k) m)"
    using Suc.IH [of "m mod 10 ^ (9 * k)" "res @ pad0 9 (str_nat ?v)"] by simp
  have u: "reads rest (pureA (unpack_be_signed 4 (flip_bytes neg (be_bytes 4 ?v)))) []
      (to_signed 4 (be_nat (flip_bytes neg (be_bytes 4 ?v))))"
    by (rule reads_pure) (simp add: unpack_be_signed_def unpack_be_def)
  show ?case
    unfolding read_decimal_groups.simps decimal_groups.simps flip_append
    by (rule reads_bind, rule reads_read [of _ "flip_bytes neg (be_bytes 4 ?v)"], simp,
        rule reads_bind, rule u) (use IH f in simp_all)
qed

end

section \<open>Reading decimals back\<close>

lemma decimal_parts:
  fixes n :: nat
  assumes "n < 10 ^ p" "d \<le> p"
  shows "n div 10 ^ d < 10 ^ (p - d)" "n mod 10 ^ d < 10 ^ d"
  using assms div_pow_less [of n "p - d" d] by simp_all

lemma split_groups:
  fixes m :: nat
  assumes "m < 10 ^ i"
  shows "m div 10 ^ (9 * (i div 9)) < 10 ^ (i mod 9)" "m mod 10 ^ (9 * (i div 9)) < 10 ^ (9 * (i div 9))"
    "m div 10 ^ (i mod 9) < 10 ^ (9 * (i div 9))" "m mod 10 ^ (i mod 9) < 10 ^ (i mod 9)"
proof -
  have i: "i mod 9 + 9 * (i div 9) = i" "9 * (i div 9) + i mod 9 = i" by simp_all
  show "m div 10 ^ (9 * (i div 9)) < 10 ^ (i mod 9)" by (rule div_pow_less) (use assms i in simp)
  show "m div 10 ^ (i mod 9) < 10 ^ (9 * (i div 9))" by (rule div_pow_less) (use assms i in simp)
qed simp_all

definition int_text :: "nat \<Rightarrow> nat \<Rightarrow> string" where
  "int_text i m = (if 0 < i mod 9 then str_nat (m div 10 ^ (9 * (i div 9))) else [])
     @ group_text (i div 9) (m mod 10 ^ (9 * (i div 9)))"

definition frac_text :: "nat \<Rightarrow> nat \<Rightarrow> string" where
  "frac_text d m = group_text (d div 9) (m div 10 ^ (d mod 9))
     @ (if 0 < d mod 9 then pad0 (d mod 9) (str_nat (m mod 10 ^ (d mod 9))) else [])"

lemma int_text_facts:
  assumes "m < 10 ^ i"
  shows "digits_val (int_text i m) = m" "list_all is_digit (int_text i m)" "0 < i \<Longrightarrow> int_text i m \<noteq> []"
proof -
  note s = split_groups [OF assms] and g = group_text_facts [OF split_groups(2) [OF assms]]
  have z: "m div 10 ^ (9 * (i div 9)) = 0" if "i mod 9 = 0" using s(1) that by simp
  have "digits_val (int_text i m) = m div 10 ^ (9 * (i div 9)) * 10 ^ (9 * (i div 9)) + m mod 10 ^ (9 * (i div 9))"
    using g z by (auto simp: int_text_def digits_val_append)
  then show "digits_val (int_text i m) = m" by (simp only: div_mult_mod_eq)
  show "list_all is_digit (int_text i m)"
    using g digits_str_nat by (auto simp: int_text_def digits_def)
  show "int_text i m \<noteq> []" if "0 < i"
  proof (cases "i mod 9 = 0")
    case True
    then have "0 < i div 9" using that by (metis div_greater_zero_iff dvd_imp_le mod_eq_0_iff_dvd zero_less_numeral)
    with g have "0 < length (int_text i m)" by (simp add: int_text_def)
    then show ?thesis by auto
  next
    case False
    then show ?thesis using digits_str_nat [of "m div 10 ^ (9 * (i div 9))"] by (simp add: int_text_def digits_def)
  qed
qed

lemma frac_text_facts:
  assumes "m < 10 ^ d"
  shows "length (frac_text d m) = d" "digits_val (frac_text d m) = m" "list_all is_digit (frac_text d m)"
proof -
  note g = group_text_facts [OF split_groups(3) [OF assms]]
  note p = pad0_facts [OF _ split_groups(4) [OF assms]]
  have d: "9 * (d div 9) + d mod 9 = d" by simp
  show "length (frac_text d m) = d" using g p d by (auto simp: frac_text_def)
  have "digits_val (frac_text d m) = m div 10 ^ (d mod 9) * 10 ^ (d mod 9) + m mod 10 ^ (d mod 9)"
    using g p by (auto simp: frac_text_def digits_val_append)
  then show "digits_val (frac_text d m) = m" by (simp only: div_mult_mod_eq)
  show "list_all is_digit (frac_text d m)" using g p by (auto simp: frac_text_def)
qed

lemma digit_neq: "is_digit c \<Longrightarrow> c \<noteq> CHR ''.'' \<and> c \<noteq> CHR ''-''"
  by (auto simp: is_digit_def code_def)

lemma py_decimal_text:
  assumes "list_all is_digit ip" "list_all is_digit fp" "ip @ fp \<noteq> []"
  shows "py_decimal ((if neg then ''-'' else []) @ ip @ ''.'' @ fp)
    = Inr (VDecimal (decimal_text neg (digits_val ip * 10 ^ length fp + digits_val fp) (length fp)))"
proof -
  let ?t = "ip @ CHR ''.'' # fp"
  have t: "takeWhile (\<lambda>c. c \<noteq> CHR ''.'') ?t = ip" "tl (dropWhile (\<lambda>c. c \<noteq> CHR ''.'') ?t) = fp"
    using assms(1) digit_neq by (auto simp: list_all_iff takeWhile_append dropWhile_append)
  have d: "digits (ip @ fp)" using assms by (simp add: digits_def)
  have body: "(let ip = takeWhile (\<lambda>c. c \<noteq> CHR ''.'') ?t; fp = tl (dropWhile (\<lambda>c. c \<noteq> CHR ''.'') ?t)
      in if digits (ip @ fp) then Inr (VDecimal (decimal_text n (digits_val (ip @ fp)) (length fp)))
         else Inl (PyException ''InvalidOperation''))
    = Inr (VDecimal (decimal_text n (digits_val ip * 10 ^ length fp + digits_val fp) (length fp)))" for n
    using t d by (simp add: digits_val_append)
  show ?thesis
  proof (cases neg)
    case True
    then show ?thesis using body [of True] by (simp add: py_decimal_def)
  next
    case False
    obtain c r where c: "?t = c # r" by (cases "?t") auto
    then have "c \<noteq> CHR ''-''" using assms(1) digit_neq by (cases ip) auto
    with False c body [of False] show ?thesis by (simp add: py_decimal_def)
  qed
qed

lemma decimal_body_ne:
  assumes "0 < p" "d \<le> p"
  shows "decimal_body p d n \<noteq> []"
proof
  assume e: "decimal_body p d n = []"
  have z: "compressed_bytes ! ((p - d) mod 9) = 0" "compressed_bytes ! (d mod 9) = 0"
    using e by (simp_all add: decimal_body_def Let_def flip: length_0_conv)
  have m: "(p - d) mod 9 = 0" "d mod 9 = 0" using z compressed_size(2) [of "(p - d) mod 9"] compressed_size(2) [of "d mod 9"] by auto
  have g: "decimal_groups k x = [] \<Longrightarrow> k = 0" for k x by (cases k) (simp_all flip: length_0_conv)
  have "(p - d) div 9 = 0" "d div 9 = 0" using e g by (auto simp: decimal_body_def Let_def)
  with m have "p - d = 0" "d = 0" by (metis div_mod_decomp add_0 mult_0)+
  with assms show False by simp
qed

text \<open>The first bit of a number in the packed format is free for the sign.\<close>

definition small_head :: "byte list \<Rightarrow> bool" where
  "small_head bs \<longleftrightarrow> bs = [] \<or> unat (hd bs) < 128"

lemma small_head_append: "small_head xs \<Longrightarrow> small_head ys \<Longrightarrow> small_head (xs @ ys)"
  by (auto simp: small_head_def hd_append)

lemma small_head_be_bytes:
  assumes "2 * v < 256 ^ k"
  shows "small_head (be_bytes k v)"
proof (cases k)
  case 0
  then show ?thesis by (simp add: small_head_def be_bytes_def)
next
  case (Suc j)
  obtain x xs where x: "be_bytes k v = x # xs" "length xs = j"
    using length_be_bytes [of k v] unfolding Suc by (cases "be_bytes (Suc j) v") (auto simp del: length_be_bytes)
  have "v < 2 ^ (8 * k)" using assms by (simp add: flip: pow_256)
  then have "be_nat (x # xs) = v" using be_nat_be_bytes x(1) by metis
  then have "256 ^ j * unat x \<le> v" using be_nat_split [of 1 "x # xs"] x(2) by (simp add: be_nat_def pow_256)
  moreover have "2 * v < 256 * 256 ^ j" using assms by (simp only: Suc power_Suc)
  ultimately have "\<not> 256 ^ j * 128 \<le> 256 ^ j * unat x" by linarith
  then have "unat x < 128" using mult_le_mono2 [of 128 "unat x" "256 ^ j"] by linarith
  then show ?thesis by (simp add: small_head_def x(1))
qed

lemma small_head_groups: "m < 10 ^ (9 * k) \<Longrightarrow> small_head (decimal_groups k m)"
proof (induction k arbitrary: m)
  case (Suc k)
  have "m < 10 ^ (9 + 9 * k)" using Suc.prems by (simp only: mult_Suc_right)
  then have "m div 10 ^ (9 * k) < 10 ^ 9" by (rule div_pow_less)
  then have "2 * (m div 10 ^ (9 * k)) < 256 ^ 4" by simp
  then show ?case using small_head_be_bytes Suc.IH by (simp add: small_head_append)
qed (simp add: small_head_def)

lemma decimal_body_head:
  assumes "d \<le> p" "n < 10 ^ p"
  shows "small_head (decimal_body p d n)"
proof -
  note ip = decimal_parts(1) [OF assms(2,1)] and fp = decimal_parts(2) [OF assms(2,1)]
  have m: "e mod 9 < 10" for e :: nat using mod_less_divisor [of 9 e] by linarith
  show ?thesis
    unfolding decimal_body_def Let_def
    by (intro small_head_append small_head_be_bytes small_head_groups compressed_fit m
        split_groups [OF ip] split_groups [OF fp])
qed

lemma flipped_head:
  assumes "flip_bytes neg bs = x # xs" "small_head bs" "bs \<noteq> []"
  shows "unat x < 128 \<longleftrightarrow> \<not> neg"
proof -
  obtain y ys where "bs = y # ys" using assms(3) by (cases bs) auto
  with assms show ?thesis by (auto simp: flip_bytes_def small_head_def unat_not_byte split: if_splits)
qed

lemma flip_top: "unat (x XOR 0x80 :: byte) AND 0x80 \<noteq> 0 \<longleftrightarrow> unat x < 128"
proof -
  have e: "(0x80 :: nat) = 2 ^ 7" by simp
  have "unat (x XOR 0x80) = unat x XOR 0x80" by (simp add: unsigned_xor_eq)
  then have "unat (x XOR 0x80) AND 0x80 \<noteq> 0 \<longleftrightarrow> bit (unat x XOR 2 ^ 7) 7"
    by (simp only: e and_exp_eq_0_iff_not_bit not_not)
  also have "\<dots> \<longleftrightarrow> \<not> bit (unat x) 7" by (simp add: bit_xor_iff bit_exp_iff del: power_numeral power_Suc)
  also have "\<dots> \<longleftrightarrow> unat x AND 0x80 = 0" by (simp only: e and_exp_eq_0_iff_not_bit)
  finally show ?thesis using and_80 [OF unat_byte, of x] by simp
qed

lemma bind_pure: "bindA (pureA (Inr x)) f = f x"
  by (simp add: bindA_def pureA_def liftA_def)

context byte_source
begin

lemma reads_compressed:
  assumes "c < 9" "v < 10 ^ c" "g (int v) = res @ s"
  shows "reads rest (if 0 < compressed_bytes ! c
        then bindA (read_int_be P (compressed_bytes ! c)) (\<lambda>x. retA (g (x XOR (if neg then - 1 else 0)))) else retA res)
      (flip_bytes neg (be_bytes (compressed_bytes ! c) v)) (res @ (if 0 < c then s else []))"
proof (cases "c = 0")
  case True
  then show ?thesis by (simp add: compressed_bytes_def flip_bytes_def be_bytes_def reads_ret)
next
  case False
  have "c < 10" using assms(1) by simp
  note cs = compressed_size [OF this] and fit = compressed_fit [OF this assms(2)]
  have k: "compressed_bytes ! c \<in> {1..4}" using cs False by auto
  show ?thesis using reads_group [OF k fit, of g neg] cs False assms(3) by simp
qed

lemma reads_decimal_digits:
  assumes ip: "ip < 10 ^ i" and fp: "fp < 10 ^ d" and ne: "0 < i + d"
  shows "reads rest (read_decimal_digits P (if neg then - 1 else 0) (if neg then ''-'' else []) (int (i div 9)) (int (i mod 9)) (d div 9) (d mod 9))
    (flip_bytes neg (be_bytes (compressed_bytes ! (i mod 9)) (ip div 10 ^ (9 * (i div 9)))
      @ decimal_groups (i div 9) (ip mod 10 ^ (9 * (i div 9))) @ decimal_groups (d div 9) (fp div 10 ^ (d mod 9))
      @ be_bytes (compressed_bytes ! (d mod 9)) (fp mod 10 ^ (d mod 9))))
    (VDecimal (decimal_text neg (ip * 10 ^ d + fp) d))"
proof -
  let ?s = "if neg then ''-'' else []"
  note si = split_groups [OF ip] and sf = split_groups [OF fp]
  let ?t2 = "(?s @ (if 0 < i mod 9 then str_nat (ip div 10 ^ (9 * (i div 9))) else [])) @ group_text (i div 9) (ip mod 10 ^ (9 * (i div 9)))"
  let ?t4 = "((?t2 @ ''.'') @ group_text (d div 9) (fp div 10 ^ (d mod 9)))
    @ (if 0 < d mod 9 then pad0 (d mod 9) (str_nat (fp mod 10 ^ (d mod 9))) else [])"
  have t4: "?t4 = ?s @ int_text i ip @ ''.'' @ frac_text d fp" by (simp add: int_text_def frac_text_def)
  have "int_text i ip @ frac_text d fp \<noteq> []"
    using ne int_text_facts(3) [OF ip] frac_text_facts(1) [OF fp] by (cases "i = 0") auto
  from py_decimal_text [OF int_text_facts(2) [OF ip] frac_text_facts(3) [OF fp] this, of neg]
  have val: "py_decimal ?t4 = Inr (VDecimal (decimal_text neg (ip * 10 ^ d + fp) d))"
    unfolding t4 by (simp add: int_text_facts [OF ip] frac_text_facts [OF fp])
  have gi: "?s @ str_int (int (ip div 10 ^ (9 * (i div 9)))) = ?s @ str_nat (ip div 10 ^ (9 * (i div 9)))"
    by (simp add: str_int_def del: of_nat_div)
  have gf: "res @ format_0d (d mod 9) (int (fp mod 10 ^ (d mod 9))) = res @ pad0 (d mod 9) (str_nat (fp mod 10 ^ (d mod 9)))" for res
    by (simp add: format_0d_def del: of_nat_mod)
  note ci = reads_compressed [where g = "\<lambda>v. ?s @ str_int v", OF _ si(1) gi]
  note cf = reads_compressed [where g = "\<lambda>v. res @ format_0d (d mod 9) v" for res, OF _ sf(4) gf]
  have it: "reads rest (pureA (item compressed_bytes (int (e mod 9)))) [] (compressed_bytes ! (e mod 9))" for e
    using mod_less_divisor [of 9 e] by (intro reads_pure item_compressed) linarith
  show ?thesis
    unfolding read_decimal_digits_def flip_append nat_int
    by (rule reads_bind, rule it, rule reads_bind, rule ci, simp,
        rule reads_bind, rule reads_groups [OF si(2)], rule reads_bind, rule reads_groups [OF sf(3)],
        rule reads_bind, rule it, rule reads_bind, rule cf, simp,
        rule reads_pure, rule val) simp_all
qed

lemma decodes_decimal:
  assumes c: "col_precision c = Some p" "col_decimals c = Some d" and p: "0 < p" "d \<le> p" and n: "n < 10 ^ p"
  shows "decodes rest (read_new_decimal P c) (encode_decimal p d neg n) (VDecimal (decimal_text neg n d))"
proof -
  define i where "i = p - d"
  have ip: "n div 10 ^ d < 10 ^ i" and fp: "n mod 10 ^ d < 10 ^ d" unfolding i_def using decimal_parts [OF n p(2)] by simp_all
  have ne: "decimal_body p d n \<noteq> []" by (rule decimal_body_ne [OF p])
  then obtain b bs where bbs: "flip_bytes neg (decimal_body p d n) = b # bs"
    by (cases "flip_bytes neg (decimal_body p d n)") auto
  let ?K = "read_decimal_digits P (if neg then - 1 else 0) (if neg then ''-'' else []) (int (i div 9)) (int (i mod 9)) (d div 9) (d mod 9)"
  have "0 < i + d" using p i_def by simp
  from reads_decimal_digits [OF ip fp this, of neg]
  have K: "reads rest ?K (b # bs) (VDecimal (decimal_text neg n d))"
    unfolding bbs [symmetric] decimal_body_def Let_def i_def [symmetric] div_mult_mod_eq .
  have b: "encode_decimal p d neg n = (b XOR 0x80) # bs" by (simp add: encode_decimal_def bbs)
  have top: "unat (b XOR 0x80) AND 0x80 \<noteq> 0 \<longleftrightarrow> \<not> neg"
    using flipped_head [OF bbs decimal_body_head [OF p(2) n] ne] by (simp only: flip_top)
  have undo: "of_nat (unat (b XOR 0x80) XOR 0x80) = b" by (simp add: unsigned_xor_eq xor.assoc)
  have tr: "trunc_div (int p - int d) 9 = int (i div 9)" using p(2) by (simp add: trunc_div_def i_def zdiv_int of_nat_diff)
  have ci: "int p - int d - int (i div 9) * 9 = int (i mod 9)"
    using p(2) by (simp add: i_def of_nat_diff zdiv_int zmod_int minus_div_mult_eq_mod)
  have df: "d - d div 9 * 9 = d mod 9" by (rule minus_div_mult_eq_mod)
  show ?thesis
    unfolding b read_new_decimal_def c attr_def option.case bind_pure Let_def tr ci df
    by (rule decodes_peek [OF _ K]) (cases neg; simp only: top undo not_True_eq_False not_False_eq_True if_True if_False prod.case)
qed

end

end
