(* ===== verification/TimeCodec.thy ===== *)
theory TimeCodec
  imports DecimalCodec
begin

text \<open>
  Dates and times in row events: the packed formats as MySQL documents them, and the proof that the
  readers of \<^verbatim>\<open>RowsEvent\<close> read them back, with the one case they do not.
\<close>

section \<open>Slices\<close>

lemma and_low: "x AND (push_bit n 1 - 1) = x mod 2 ^ n" for x :: int
proof -
  have "push_bit n 1 - 1 = (mask n :: int)" by (simp add: mask_eq_exp_minus_1 push_bit_eq_mult)
  then show ?thesis by (simp add: take_bit_eq_mod flip: take_bit_eq_mask)
qed

lemma slice_div_mod: "read_binary_slice x s n len = x div 2 ^ (len - (s + n)) mod 2 ^ n"
  by (simp only: read_binary_slice_def and_low drop_bit_eq_div)

text \<open>Fields of a packed number, from the lowest: what is above a field and below it does not matter.\<close>

lemma peel_div:
  fixes x a b :: int
  assumes "x div 2 ^ j = a + 2 ^ k * b" "0 \<le> a" "a < 2 ^ k"
  shows "x div 2 ^ (j + k) = b"
  using assms by (simp flip: div_exp_eq)

lemma peel_mod:
  fixes x a b :: int
  assumes "x div 2 ^ j = a + 2 ^ k * b" "0 \<le> a" "a < 2 ^ k"
  shows "x div 2 ^ j mod 2 ^ k = a"
  using assms by simp

lemma and_low_nat: "x AND (push_bit n 1 - 1) = x mod 2 ^ n" for x :: nat
proof -
  have "push_bit n 1 - 1 = (mask n :: nat)" by (simp add: mask_eq_exp_minus_1 push_bit_eq_mult)
  then show ?thesis by (simp add: take_bit_eq_mod flip: take_bit_eq_mask)
qed

lemma and_field_nat: "drop_bit k (x AND push_bit k (push_bit n 1 - 1)) = x div 2 ^ k mod 2 ^ n" for x :: nat
proof -
  have "drop_bit k (x AND push_bit k (mask n)) = take_bit n (drop_bit k x)" by (rule bit_eqI) (auto simp: bit_simps)
  moreover have "push_bit n 1 - 1 = (mask n :: nat)" by (simp add: mask_eq_exp_minus_1 push_bit_eq_mult)
  ultimately show ?thesis by (simp only: take_bit_eq_mod drop_bit_eq_div)
qed

section \<open>Fractions of a second\<close>

text \<open>Two digits in a byte; a column of an odd number of digits is stored with one more.\<close>

definition fsp_size :: "nat \<Rightarrow> nat" where
  "fsp_size fsp = (fsp + 1) div 2"

definition encode_fsp :: "nat \<Rightarrow> nat \<Rightarrow> byte list" where
  "encode_fsp fsp us = be_bytes (fsp_size fsp) (us div 10 ^ (6 - 2 * fsp_size fsp))"

definition fsp_ok :: "nat \<Rightarrow> nat \<Rightarrow> bool" where
  "fsp_ok fsp us \<longleftrightarrow> fsp \<le> 6 \<and> us < 1000000 \<and> us mod 10 ^ (6 - fsp) = 0"

lemma fsp_cases: "fsp \<le> 6 \<Longrightarrow> fsp = 0 \<or> fsp = 1 \<or> fsp = 2 \<or> fsp = 3 \<or> fsp = 4 \<or> fsp = 5 \<or> fsp = (6 :: nat)"
  by auto

lemma trunc_div_nat: "trunc_div (int a) (int b) = int (a div b)"
  by (simp add: trunc_div_def zdiv_int)

context byte_source
begin

lemma reads_fsp:
  assumes c: "col_fsp c = Some fsp" and ok: "fsp_ok fsp us"
  shows "reads rest (read_fsp P c) (encode_fsp fsp us) (int us)"
proof (cases "fsp = 0")
  case True
  with ok have "us < 1000000" "us mod 1000000 = 0" by (simp_all add: fsp_ok_def)
  then have "us = 0" by (simp only: mod_less)
  with True c show ?thesis by (simp add: read_fsp_def attr_def bind_pure encode_fsp_def fsp_size_def be_bytes_def reads_ret Let_def)
next
  case False
  let ?n = "fsp_size fsp" and ?v = "us div 10 ^ (6 - 2 * fsp_size fsp)"
  have f: "fsp = 1 \<or> fsp = 2 \<or> fsp = 3 \<or> fsp = 4 \<or> fsp = 5 \<or> fsp = 6"
    using False ok fsp_cases [of fsp] by (auto simp: fsp_ok_def)
  have us: "us < 1000000" "us mod 10 ^ (6 - fsp) = 0" using ok by (simp_all add: fsp_ok_def)
  have n: "?n \<in> {1..4}" "(if fsp = 1 \<or> fsp = 2 then 1 else if fsp = 3 \<or> fsp = 4 then 2 else if fsp = 5 \<or> fsp = 6 then 3 else 0) = ?n"
    using f by (elim disjE; simp add: fsp_size_def)+
  have v: "2 * ?v < 256 ^ ?n" using f us(1) by (elim disjE) (simp_all add: fsp_size_def)
  have back_val: "(if fsp mod 2 \<noteq> 0 then trunc_div (int ?v) 10 else int ?v) * 10 ^ (6 - fsp) = int us"
  proof -
    have "(if fsp mod 2 \<noteq> 0 then ?v div 10 else ?v) = us div 10 ^ (6 - fsp)"
      using f by (elim disjE) (simp_all add: fsp_size_def div_mult2_eq [symmetric])
    moreover have "us div 10 ^ (6 - fsp) * 10 ^ (6 - fsp) = us" using us(2) by (metis add.right_neutral div_mult_mod_eq)
    ultimately have "(if fsp mod 2 \<noteq> 0 then ?v div 10 else ?v) * 10 ^ (6 - fsp) = us" by simp
    then have "int ((if fsp mod 2 \<noteq> 0 then ?v div 10 else ?v) * 10 ^ (6 - fsp)) = int us" by (simp only:)
    then show ?thesis using trunc_div_nat [of ?v 10] by (simp only: of_nat_mult of_nat_power of_nat_numeral if_distrib [of int])
  qed
  have rd: "reads rest (bindA (read_int_be P ?n) (\<lambda>x. retA (g (x XOR 0)))) (be_bytes ?n ?v) (g (int ?v))" for g :: "int \<Rightarrow> int"
    using reads_group [OF n(1) v, of g False] by (simp add: flip_bytes_def)
  have "reads rest (bindA (read_int_be P ?n) (\<lambda>us. retA ((if fsp mod 2 \<noteq> 0 then trunc_div us 10 else us) * 10 ^ (6 - fsp))))
      (encode_fsp fsp us) (int us)"
    using rd [of "\<lambda>us. (if fsp mod 2 \<noteq> 0 then trunc_div us 10 else us) * 10 ^ (6 - fsp)"]
    unfolding encode_fsp_def back_val by (simp only: xor.right_neutral)
  with n c show ?thesis by (simp add: read_fsp_def attr_def bind_pure Let_def)
qed

end

section \<open>Dates\<close>

definition encode_date :: "nat \<Rightarrow> nat \<Rightarrow> nat \<Rightarrow> byte list" where
  "encode_date y m d = le_bytes 3 (y * 512 + m * 32 + d)"

lemma date_bounds: "date_ok y m d \<Longrightarrow> 1 \<le> d \<and> d \<le> 31"
  by (auto simp: date_ok_def days_in_month_def split: if_splits)

context byte_source
begin

lemma reads_date:
  assumes ok: "date_ok (int y) (int m) (int d)"
  shows "reads rest (read_date P) (encode_date y m d) (VDate (int y) (int m) (int d))"
proof -
  let ?t = "y * 512 + m * 32 + d"
  have b: "1 \<le> y" "y \<le> 9999" "1 \<le> m" "m \<le> 12" "1 \<le> d" "d \<le> 31"
    using ok date_bounds [OF ok] by (auto simp: date_ok_def)
  have t: "?t < 256 ^ 3" using b by simp
  have e: "?t = d + 32 * (m + 16 * y)" by simp
  have q: "(d + 32 * (m + 16 * y)) div 32 = m + 16 * y" "(d + 32 * (m + 16 * y)) mod 32 = d"
    using b by (simp_all only: mod_mult_self2 div_mult_self2) simp_all
  have "(m + 16 * y) div 16 = y" "(m + 16 * y) mod 16 = m" using b by simp_all
  moreover have "?t div 512 = ?t div 32 div 16" by (simp add: div_mult2_eq [symmetric])
  ultimately have f: "?t div 2 ^ 9 mod 2 ^ 15 = y" "?t div 2 ^ 5 mod 2 ^ 4 = m" "?t mod 2 ^ 5 = d"
    using b q unfolding e by simp_all
  have r: "reads rest (read_uint24 P) (encode_date y m d) ?t"
    using reads_int24s(1) [of "encode_date y m d"] t by (simp add: encode_date_def le_nat_le_bytes)
  show ?thesis unfolding read_date_def
  proof (rule reads_bind [OF r])
    have "new_date (int y) (int m) (int d) = Inr (VDate (int y) (int m) (int d))" using ok by (simp add: new_date_def)
    then show "reads rest (if ?t = 0 then retA VNone
       else let year = drop_bit 9 (?t AND push_bit 9 (push_bit 15 1 - 1)); month = drop_bit 5 (?t AND push_bit 5 (push_bit 4 1 - 1));
                day = ?t AND (push_bit 5 1 - 1)
            in if year = 0 \<or> month = 0 \<or> day = 0 then retA VNone else pureA (new_date (int year) (int month) (int day))) []
      (VDate (int y) (int m) (int d))"
      unfolding and_field_nat and_low_nat f Let_def using b by (simp add: reads_pure)
  qed simp
qed

end

section \<open>Date and time\<close>

definition encode_datetime2 :: "nat \<Rightarrow> nat \<Rightarrow> nat \<Rightarrow> nat \<Rightarrow> nat \<Rightarrow> nat \<Rightarrow> byte list" where
  "encode_datetime2 y m d h mi s =
    be_bytes 5 (s + 2 ^ 6 * (mi + 2 ^ 6 * (h + 2 ^ 5 * (d + 2 ^ 5 * ((y * 13 + m) + 2 ^ 17 * 1)))))"

lemma nat_le_int_bounds: "int a < 2 ^ n \<longleftrightarrow> a < 2 ^ n"
  by (metis of_nat_less_iff of_nat_numeral of_nat_power)

context byte_source
begin

lemma reads_int_be_40: "length bs = 5 \<Longrightarrow> reads rest (read_int_be P 5) bs (int (be_nat bs))"
  unfolding read_int_be_def by (rule reads_then [OF reads_int_be_5]) (simp_all add: notNone_def)

lemma reads_add_fsp:
  assumes "col_fsp c = Some fsp" "fsp_ok fsp us"
  shows "reads rest (add_fsp_to_time P (VDateTime y m d h mi s 0) c) (encode_fsp fsp us) (VDateTime y m d h mi s (int us))"
  unfolding add_fsp_to_time_def
  by (rule reads_bind [OF reads_fsp [OF assms]])
    (use assms in \<open>auto simp: fsp_ok_def replace_microsecond_def intro: reads_pure reads_ret\<close>)

lemma reads_datetime2:
  assumes ok: "date_ok (int y) (int m) (int d)" "clock_ok (int h) (int mi) (int s)"
    and c: "col_fsp c = Some fsp" "fsp_ok fsp us"
  shows "reads rest (read_datetime2 P c) (encode_datetime2 y m d h mi s @ encode_fsp fsp us)
    (VDateTime (int y) (int m) (int d) (int h) (int mi) (int s) (int us))"
proof -
  have b: "y \<le> 9999" "m \<le> 12" "d < 32" "h < 24" "mi < 60" "s < 60"
    using ok date_bounds [OF ok(1)] by (auto simp: date_ok_def clock_ok_def)
  let ?n = "s + 2 ^ 6 * (mi + 2 ^ 6 * (h + 2 ^ 5 * (d + 2 ^ 5 * ((y * 13 + m) + 2 ^ 17 * 1))))"
  define x where "x = int ?n"
  define C where "C = int d + 2 ^ 5 * (int (y * 13 + m) + 2 ^ 17 * 1)"
  define B where "B = int h + 2 ^ 5 * C"
  define A where "A = int mi + 2 ^ 6 * B"
  have n: "?n < 2 ^ (8 * 5)" using b by simp
  have "x div 2 ^ 0 = int s + 2 ^ 6 * A" by (simp add: x_def A_def B_def C_def)
  note x0 = peel_mod [OF this] peel_div [OF this]
  have d6: "x div 2 ^ 6 = int mi + 2 ^ 6 * B" using x0(2) b by (simp add: A_def)
  have d12: "x div 2 ^ 12 = int h + 2 ^ 5 * C" using peel_div [OF d6] b by (simp add: B_def)
  have d17: "x div 2 ^ 17 = int d + 2 ^ 5 * (int (y * 13 + m) + 2 ^ 17 * 1)" using peel_div [OF d12] b by (simp add: C_def)
  have d22: "x div 2 ^ 22 = int (y * 13 + m) + 2 ^ 17 * 1" using peel_div [OF d17] b by simp
  have parts: "read_binary_slice x 34 6 40 = int s"
    "read_binary_slice x 28 6 40 = int mi" "read_binary_slice x 23 5 40 = int h"
    "read_binary_slice x 18 5 40 = int d" "read_binary_slice x 1 17 40 = int (y * 13 + m)"
    subgoal using x0(1) b by (simp add: slice_div_mod)
    subgoal using peel_mod [OF d6] b by (simp add: slice_div_mod)
    subgoal using peel_mod [OF d12] b by (simp add: slice_div_mod)
    subgoal using peel_mod [OF d17] b by (simp add: slice_div_mod)
    subgoal using peel_mod [OF d22] b by (simp add: slice_div_mod)
    done
  have ym: "int (y * 13 + m) div 13 = int y" "int (y * 13 + m) mod 13 = int m" using b by simp_all
  have r: "reads rest (read_int_be P 5) (encode_datetime2 y m d h mi s) x"
    using reads_int_be_40 [of "encode_datetime2 y m d h mi s"] be_nat_be_bytes [OF n] by (simp add: encode_datetime2_def x_def)
  have t: "new_datetime (int y) (int m) (int d) (int h) (int mi) (int s) = Inr (VDateTime (int y) (int m) (int d) (int h) (int mi) (int s) 0)"
    using ok by (simp add: new_datetime_def)
  show ?thesis unfolding read_datetime2_def
    by (rule reads_bind [OF r]) (simp_all only: parts Let_def ym t sum.case reads_add_fsp [OF c])
qed

end

section \<open>Times and timestamps\<close>

text \<open>
  A time of day or a duration: the sign bit is set for times that are not negative; negative ones are
  stored as two's complement.
\<close>

definition time_number :: "nat \<Rightarrow> nat \<Rightarrow> nat \<Rightarrow> nat" where
  "time_number h mi s = s + 2 ^ 6 * (mi + 2 ^ 6 * h)"

definition encode_time2 :: "bool \<Rightarrow> nat \<Rightarrow> nat \<Rightarrow> nat \<Rightarrow> byte list" where
  "encode_time2 neg h mi s = be_bytes 3 (if neg then 2 ^ 23 - time_number h mi s else 2 ^ 23 + time_number h mi s)"

lemma time_slices:
  fixes x :: int
  assumes x: "x mod 2 ^ 23 = int (time_number h mi s)" and b: "h < 1024" "mi < 60" "s < 60"
  shows "read_binary_slice x 2 10 24 = int h" "read_binary_slice x 12 6 24 = int mi" "read_binary_slice x 18 6 24 = int s"
proof -
  have x22: "x mod 2 ^ 22 = int (time_number h mi s)"
  proof -
    have "time_number h mi s < 2 ^ 22" using b by (simp add: time_number_def)
    then have "int (time_number h mi s) mod 2 ^ 22 = int (time_number h mi s)" by simp
    moreover have "x mod 2 ^ 23 mod 2 ^ 22 = x mod 2 ^ 22" by (rule mod_mod_cancel) simp
    ultimately show ?thesis unfolding x by simp
  qed
  define q where "q = x div 2 ^ 22"
  have "x = 2 ^ 22 * q + int (time_number h mi s)" using x22 q_def by (metis mult_div_mod_eq)
  then have d0: "x div 2 ^ 0 = int s + 2 ^ 6 * (int mi + 2 ^ 6 * (int h + 2 ^ 10 * q))" by (simp add: time_number_def)
  have d6: "x div 2 ^ 6 = int mi + 2 ^ 6 * (int h + 2 ^ 10 * q)" using peel_div [OF d0] b by simp
  have d12: "x div 2 ^ 12 = int h + 2 ^ 10 * q" using peel_div [OF d6] b by simp
  show "read_binary_slice x 18 6 24 = int s" using peel_mod [OF d0] b by (simp add: slice_div_mod)
  show "read_binary_slice x 12 6 24 = int mi" using peel_mod [OF d6] b by (simp add: slice_div_mod)
  show "read_binary_slice x 2 10 24 = int h" using peel_mod [OF d12] b by (simp add: slice_div_mod)
qed

text \<open>The sign bit of the signed reading, and the number after the second complement.\<close>

lemma time_sign:
  assumes v: "v < 2 ^ 23" and neg: "neg \<Longrightarrow> 0 < v"
  defines "x \<equiv> to_signed 3 (if neg then 2 ^ 23 - v else 2 ^ 23 + v)"
  shows "read_binary_slice x 0 1 24 \<noteq> 0 \<longleftrightarrow> \<not> neg"
    and "(if neg then NOT x + 1 else x) mod 2 ^ 23 = int v"
proof -
  have v': "int v < 8388608" using v by simp
  show "read_binary_slice x 0 1 24 \<noteq> 0 \<longleftrightarrow> \<not> neg"
  proof (cases neg)
    case True
    then have "x = 8388608 - int v" using v neg by (simp add: x_def to_signed_def of_nat_diff)
    then have "x div 8388608 = 0" using v' neg [OF True] by simp
    then show ?thesis using True by (simp add: slice_div_mod)
  next
    case False
    then have "x = int v - 8388608" by (simp add: x_def to_signed_def)
    then have "x div 8388608 = - 1" using v' by (intro int_div_pos_eq [of _ _ _ "int v"]) simp_all
    then show ?thesis using False by (simp add: slice_div_mod)
  qed
  show "(if neg then NOT x + 1 else x) mod 2 ^ 23 = int v"
  proof (cases neg)
    case True
    then have "NOT x + 1 = int v - 8388608" using v neg by (simp add: x_def to_signed_def of_nat_diff not_int_def)
    then have "(NOT x + 1) mod 8388608 = int v mod 8388608" by (simp only: minus_mod_self2)
    then show ?thesis using True v' by simp
  next
    case False
    then have "x = int v - 8388608" by (simp add: x_def to_signed_def)
    then show ?thesis using False v' by (simp add: mod_diff_right_eq [symmetric])
  qed
qed

definition signed_time :: "bool \<Rightarrow> nat \<Rightarrow> nat \<Rightarrow> nat \<Rightarrow> nat \<Rightarrow> int" where
  "signed_time neg h mi s us = (if neg then - 1 else 1) * timedelta (int h) (int mi) (int s) (int us)"

context byte_source
begin

lemma reads_time2:
  assumes b: "h < 1024" "mi < 60" "s < 60" and c: "col_fsp c = Some fsp" "fsp_ok fsp us"
    and neg: "neg \<Longrightarrow> us = 0 \<and> 0 < time_number h mi s"
  shows "reads rest (read_time2 P c) (encode_time2 neg h mi s @ encode_fsp fsp us) (VTimeDelta (signed_time neg h mi s us))"
proof -
  let ?v = "time_number h mi s"
  let ?n = "if neg then 2 ^ 23 - ?v else 2 ^ 23 + ?v"
  have v: "?v < 2 ^ 23" using b by (simp add: time_number_def)
  then have "?n < 2 ^ (8 * 3)" by auto
  define x where "x = to_signed 3 ?n"
  from be_nat_be_bytes [OF \<open>?n < 2 ^ (8 * 3)\<close>] have r: "reads rest (read_int_be P 3) (encode_time2 neg h mi s) x"
    using reads_int_be [of "encode_time2 neg h mi s" 3] by (simp add: encode_time2_def x_def)
  have n: "0 < ?v" if "neg" using neg that by simp
  have sgn: "read_binary_slice x 0 1 24 \<noteq> 0 \<longleftrightarrow> \<not> neg" and "(if neg then NOT x + 1 else x) mod 2 ^ 23 = int ?v"
    using time_sign [OF v, of neg] n unfolding x_def by blast+
  note sl = time_slices [OF this(2) b]
  have e: "(if (if \<not> neg then 1 else - 1 :: int) = - 1 then NOT x + 1 else x) = (if neg then NOT x + 1 else x)" by simp
  show ?thesis unfolding read_time2_def
  proof (rule reads_bind [OF r])
    show "reads rest (let sign = if read_binary_slice x 0 1 24 \<noteq> 0 then 1 else - 1;
             data = if sign = - 1 then NOT x + 1 else x
         in bindA (read_fsp P c) (\<lambda>us. retA (VTimeDelta (timedelta (read_binary_slice data 2 10 24) (read_binary_slice data 12 6 24)
              (read_binary_slice data 18 6 24) us * sign)))) (encode_fsp fsp us) (VTimeDelta (signed_time neg h mi s us))"
      using reads_map [OF reads_fsp [OF c], of "\<lambda>us. VTimeDelta (timedelta (int h) (int mi) (int s) us * (if \<not> neg then 1 else - 1))"]
      unfolding sgn Let_def e sl signed_time_def by (cases neg) simp_all
  qed simp
qed

text \<open>
  A negative time with a fraction is stored one second lower with a negative fraction. The reader
  negates the whole seconds but also the fraction: \<^verbatim>\<open>-00:00:00.10\<close>, stored as \<^verbatim>\<open>7F FF FF F6\<close>, is read as
  \<^verbatim>\<open>-00:00:00.90\<close>.
\<close>

lemma negative_fraction_misread:
  assumes "col_fsp c = Some 2"
  shows "reads rest (read_time2 P c) [0x7F, 0xFF, 0xFF, 0xF6] (VTimeDelta (- 900000))"
proof -
  have a: "reads rest (read_int_be P 3) [0x7F, 0xFF, 0xFF] 8388607"
    using reads_int_be [of "[0x7F, 0xFF, 0xFF]" 3] by (simp add: be_nat_def to_signed_def)
  have f: "reads rest (read_int_be P 1) [0xF6] (- 10)"
    using reads_int_be [of "[0xF6]" 1] by (simp add: be_nat_def to_signed_def)
  have us: "reads rest (read_fsp P c) [0xF6] (- 100000)"
    using reads_map [OF f, of "\<lambda>us. us * 10000"] assms by (simp add: read_fsp_def attr_def bind_pure Let_def)
  show ?thesis unfolding read_time2_def
    by (rule reads_bind [OF a], simp only: Let_def, rule reads_bind [OF us])
      (simp_all add: slice_div_mod timedelta_def not_int_def reads_ret)
qed

lemma reads_timestamp2:
  assumes secs: "secs < 2 ^ 31" and t: "utcfromtimestamp (int secs) = Inr (VDateTime y m d h mi s 0)"
    and c: "col_fsp c = Some fsp" "fsp_ok fsp us"
  shows "reads rest (bindA (read_int_be P 4) (\<lambda>i. bindA (pureA (utcfromtimestamp i)) (\<lambda>t. add_fsp_to_time P t c)))
    (be_bytes 4 secs @ encode_fsp fsp us) (VDateTime y m d h mi s (int us))"
proof (rule reads_bind)
  have "secs < 2 ^ (8 * 4)" using secs by simp
  from be_nat_be_bytes [OF this] show "reads rest (read_int_be P 4) (be_bytes 4 secs) (int secs)"
    using reads_int_be [of "be_bytes 4 secs" 4] secs by (simp add: to_signed_def)
  show "reads rest (bindA (pureA (utcfromtimestamp (int secs))) (\<lambda>t. add_fsp_to_time P t c)) (encode_fsp fsp us) (VDateTime y m d h mi s (int us))"
    unfolding t bind_pure by (rule reads_add_fsp [OF c])
qed simp

end

section \<open>Bit strings\<close>

text \<open>The \<open>n\<close> binary digits of a number, highest first.\<close>

definition bin_text :: "nat \<Rightarrow> nat \<Rightarrow> string" where
  "bin_text n v = rev (map (\<lambda>k. if bit v k then CHR ''1'' else CHR ''0'') [0..<n])"

lemma bit_chars_text: "bit_chars v n = bin_text n v"
proof -
  have "v AND push_bit k 1 \<noteq> 0 \<longleftrightarrow> bit v k" for k
    using and_exp_eq_0_iff_not_bit [of v k] by (simp add: push_bit_eq_mult)
  then show ?thesis by (simp add: bit_chars_def bin_text_def)
qed

lemma bin_text_split: "bin_text (a + b) v = bin_text a (v div 2 ^ b) @ bin_text b (v mod 2 ^ b)"
proof -
  have "map (\<lambda>k. if bit v k then CHR ''1'' else CHR ''0'') [0..<b + a] =
      map (\<lambda>k. if bit (v mod 2 ^ b) k then CHR ''1'' else CHR ''0'') [0..<b] @
      map (\<lambda>k. if bit (v div 2 ^ b) k then CHR ''1'' else CHR ''0'') [0..<a]"
  proof (rule nth_equalityI)
    fix i assume "i < length (map (\<lambda>k. if bit v k then CHR ''1'' else CHR ''0'') [0..<b + a])"
    then show "map (\<lambda>k. if bit v k then CHR ''1'' else CHR ''0'') [0..<b + a] ! i =
      (map (\<lambda>k. if bit (v mod 2 ^ b) k then CHR ''1'' else CHR ''0'') [0..<b] @
      map (\<lambda>k. if bit (v div 2 ^ b) k then CHR ''1'' else CHR ''0'') [0..<a]) ! i"
      by (auto simp: nth_append bit_take_bit_iff bit_drop_bit_eq simp flip: take_bit_eq_mod drop_bit_eq_div)
  qed simp
  then show ?thesis by (simp add: bin_text_def add.commute)
qed

lemma be_bytes_Suc: "be_bytes (Suc k) v = of_nat (v div 256 ^ k mod 256) # be_bytes k v"
proof -
  have "le_bytes (Suc k) v = le_bytes k v @ [of_nat (v div 256 ^ k mod 256)]"
    by (induction k arbitrary: v) (simp_all add: div_mult2_eq)
  then show ?thesis by (simp add: be_bytes_def)
qed

lemma be_bytes_mod: "be_bytes k (v mod 256 ^ k) = be_bytes k v"
proof -
  have "le_bytes k (v mod 256 ^ k) = le_bytes k v"
  proof (induction k arbitrary: v)
    case (Suc k)
    have "v mod (256 * 256 ^ k) div 256 = v div 256 mod 256 ^ k" by (simp add: mod_mult2_eq)
    moreover have "v mod (256 * 256 ^ k) mod 256 = v mod 256" by (simp add: mod_mod_cancel)
    ultimately show ?case using Suc by simp
  qed simp
  then show ?thesis by (simp add: be_bytes_def)
qed

context byte_source
begin

lemma reads_bit_tail:
  "0 < j \<Longrightarrow> reads rest (read_bit_bytes P nbits nbytes [j..<j + k] resp) (be_bytes k v) (resp @ bin_text (8 * k) (v mod 256 ^ k))"
proof (induction k arbitrary: j resp v)
  case 0
  then show ?case by (simp add: be_bytes_def bin_text_def reads_ret)
next
  case (Suc k)
  let ?x = "v div 256 ^ k mod 256"
  have u: "reads rest (read_uint8 P) [of_nat ?x] ?x" using reads_uints(1) [of "[of_nat ?x]"] by (simp add: unat_of_nat_byte)
  have l: "[j..<j + Suc k] = j # [Suc j..<Suc j + k]" by (simp add: upt_rec)
  have "v mod 256 ^ Suc k div 256 ^ k = ?x" "v mod 256 ^ Suc k mod 256 ^ k = v mod 256 ^ k"
    unfolding power_Suc2 mod_mult2_eq by simp_all
  then have t: "bin_text (8 * Suc k) (v mod 256 ^ Suc k) = bin_text 8 ?x @ bin_text (8 * k) (v mod 256 ^ k)"
    using bin_text_split [of 8 "8 * k" "v mod 256 ^ Suc k"] by (simp add: pow_256)
  have IH: "reads rest (read_bit_bytes P nbits nbytes [Suc j..<Suc j + k] (resp @ bin_text 8 ?x)) (be_bytes k v)
      (resp @ bin_text (8 * Suc k) (v mod 256 ^ Suc k))"
    using Suc.IH [of "Suc j" "resp @ bin_text 8 ?x" v] t by simp
  show ?case unfolding l be_bytes_Suc read_bit_bytes.simps
    by (rule reads_bind [OF u]) (use IH Suc.prems in \<open>simp_all add: bit_chars_text Let_def\<close>)
qed

lemma reads_bits:
  assumes c: "col_bits c = Some n" "col_bytes c = Some k" and k: "k = (n + 7) div 8" "0 < n" and v: "v < 2 ^ n"
  shows "reads rest (read_bit P c) (be_bytes k v) (VStr (bin_text n v))"
proof -
  have "0 < k" using k by (simp add: div_greater_zero_iff)
  then obtain j where j: "k = Suc j" using gr0_conv_Suc by blast
  define e where "e = n - 8 * j"
  have e: "n = e + 8 * j" "0 < e" "e \<le> 8" using k j unfolding e_def by auto
  have m: "(if k = 1 then n else if n mod 8 = 0 then 8 else n mod 8) = e"
  proof (cases "k = 1")
    case True
    then show ?thesis using j e by simp
  next
    case False
    have "n mod 8 = e mod 8" unfolding e(1) by simp
    then show ?thesis using False e(2,3) by (cases "e = 8") auto
  qed
  let ?x = "v div 256 ^ j"
  have "?x < 2 ^ e" using v unfolding e(1) by (simp add: power_add pow_256 less_mult_imp_div_less)
  also have "2 ^ e \<le> (256 :: nat)" using e(3) power_increasing [of e 8 "2 :: nat"] by simp
  finally have x: "?x < 256" .
  have u: "reads rest (read_uint8 P) [of_nat (?x mod 256)] ?x"
    using x reads_uints(1) [of "[of_nat ?x]"] by (simp add: unat_of_nat_byte)
  have l: "[0..<k] = 0 # [1..<1 + j]" unfolding j by (simp add: upt_rec)
  have t: "bin_text n v = bin_text e ?x @ bin_text (8 * j) (v mod 256 ^ j)"
    unfolding e(1) bin_text_split by (simp add: pow_256)
  have "reads rest (read_bit_bytes P n k [0..<k] []) (be_bytes k v) (bin_text n v)"
    unfolding l be_bytes_Suc [of j v, folded j] read_bit_bytes.simps
    by (rule reads_bind [OF u]) (use reads_bit_tail [of 1 n k j "bin_text e ?x" v] m t in \<open>simp_all add: bit_chars_text Let_def\<close>)
  from reads_map [OF this, of VStr] show ?thesis unfolding read_bit_def c attr_def option.case bind_pure .
qed

end

end
