(* ===== verification/RowsEvent.thy ===== *)
theory RowsEvent
  imports TimeCodec
begin

text \<open>
  Row events: \<^verbatim>\<open>RowsEvent\<close> and its subclasses in \<^verbatim>\<open>pymysqlreplication/row_event.py\<close>. The header is read
  when the event object is made, the rows when they are asked for. \<^verbatim>\<open>__none_sources\<close> is one dictionary
  for all rows of the event and is passed along.
\<close>

section \<open>State\<close>

datatype rows_kind = WriteRows | UpdateRows | DeleteRows | PartialUpdateRows

datatype row_image_type = WriteAI | UpdateBI | UpdateAI | DeleteBI

record rows_event =
  re_event_type :: nat
  re_event_size :: int
  re_table_id :: nat
  re_schema :: string
  re_table :: string
  re_primary_key :: py_val
  re_flags :: nat
  re_number_of_columns :: "nat option"
  re_columns :: "column list"
  re_present :: "byte list"
  re_present2 :: "byte list"
  re_complete :: bool

type_synonym none_sources = "(string option, string) dict"

text \<open>The event codes of \<^verbatim>\<open>constants/BINLOG.py\<close>.\<close>

abbreviation (input) "WRITE_ROWS_EVENT_V1 \<equiv> 0x17 :: nat"
abbreviation (input) "UPDATE_ROWS_EVENT_V1 \<equiv> 0x18 :: nat"
abbreviation (input) "DELETE_ROWS_EVENT_V1 \<equiv> 0x19 :: nat"
abbreviation (input) "WRITE_ROWS_EVENT_V2 \<equiv> 0x1E :: nat"
abbreviation (input) "UPDATE_ROWS_EVENT_V2 \<equiv> 0x1F :: nat"
abbreviation (input) "DELETE_ROWS_EVENT_V2 \<equiv> 0x20 :: nat"
abbreviation (input) "PARTIAL_UPDATE_ROWS_EVENT \<equiv> 0x27 :: nat"

section \<open>Making the event\<close>

text \<open>The settings of the stream that an event is made with; \<^const>\<open>None\<close> is no restriction.\<close>

record event_filters =
  ef_only_tables :: "string list option"
  ef_ignored_tables :: "string list option"
  ef_only_schemas :: "string list option"
  ef_ignored_schemas :: "string list option"

definition filtered_out :: "event_filters \<Rightarrow> string \<Rightarrow> string \<Rightarrow> bool" where
  "filtered_out f schema table =
    (if (case ef_only_tables f of Some ts \<Rightarrow> table \<notin> set ts | None \<Rightarrow> False) then True
     else if (case ef_ignored_tables f of Some ts \<Rightarrow> table \<in> set ts | None \<Rightarrow> False) then True
     else if (case ef_only_schemas f of Some ss \<Rightarrow> schema \<notin> set ss | None \<Rightarrow> False) then True
     else (case ef_ignored_schemas f of Some ss \<Rightarrow> schema \<in> set ss | None \<Rightarrow> False))"

text \<open>Six bytes, padded to eight.\<close>

definition read_table_id :: "'p packet_ops \<Rightarrow> ('p wrapper, nat) act" where
  "read_table_id P = bindA (packet_read P 6) (\<lambda>bs. pureA (unpack_le 8 (bs @ [0, 0])))"

definition is_v2 :: "nat \<Rightarrow> bool" where
  "is_v2 t \<longleftrightarrow> t = WRITE_ROWS_EVENT_V2 \<or> t = DELETE_ROWS_EVENT_V2 \<or> t = UPDATE_ROWS_EVENT_V2 \<or> t = PARTIAL_UPDATE_ROWS_EVENT"

text \<open>
  The flags and, from version 2 on, the extra data: nothing, information of the cluster engine,
  partition numbers, or anything else of the length given.
\<close>

definition read_extra_data :: "'p packet_ops \<Rightarrow> nat \<Rightarrow> nat \<Rightarrow> ('p wrapper, unit) act" where
  "read_extra_data P event_type extra_data_length =
    (if 2 < extra_data_length then
       bindA (read_uint8 P) (\<lambda>extra_data_type.
         if extra_data_type = 0 then
           bindA (packet_read P 2) (\<lambda>bs. bindA (pureA (nthE bs 0)) (\<lambda>nbd_info_length.
             bindA (packet_read P (int (unat nbd_info_length) - 2)) (\<lambda>_. retA ())))
         else if extra_data_type = 1 then
           (if event_type = UPDATE_ROWS_EVENT_V2 \<or> event_type = PARTIAL_UPDATE_ROWS_EVENT
            then bindA (packet_read P 4) (\<lambda>_. retA ())
            else bindA (packet_read P 2) (\<lambda>_. retA ()))
         else bindA (packet_read P (int extra_data_length - 3)) (\<lambda>_. retA ()))
     else retA ())"

definition read_rows_flags :: "'p packet_ops \<Rightarrow> nat \<Rightarrow> ('p wrapper, nat) act" where
  "read_rows_flags P event_type =
    (if is_v2 event_type then
       bindA (packet_read P 4) (\<lambda>bs. bindA (pureA (unpack_le 2 (take 2 bs))) (\<lambda>flags.
         bindA (pureA (unpack_le 2 (drop 2 bs))) (\<lambda>extra_data_length.
         bindA (read_extra_data P event_type extra_data_length) (\<lambda>_. retA flags))))
     else read_uint16 P)"

text \<open>\<^const>\<open>None\<close>: the event is not processed.\<close>

definition RowsEvent_init ::
    "'p packet_ops \<Rightarrow> event_filters \<Rightarrow> (nat, table_map_entry) dict \<Rightarrow> int \<Rightarrow> ('p wrapper, rows_event option) act" where
  "RowsEvent_init P filters table_map event_size = (\<lambda>w.
    let event_type = pw_event_type w in
    bindA (read_table_id P) (\<lambda>table_id.
      case map_of table_map table_id of
        None \<Rightarrow> retA None
      | Some tm \<Rightarrow>
          if filtered_out filters (tm_schema tm) (tm_table tm) then retA None
          else bindA (read_rows_flags P event_type) (\<lambda>flags.
               bindA (read_length_coded_binary P) (\<lambda>number_of_columns.
               retA (Some \<lparr>re_event_type = event_type, re_event_size = event_size, re_table_id = table_id,
                 re_schema = tm_schema tm, re_table = tm_table tm, re_primary_key = tm_primary_key tm, re_flags = flags,
                 re_number_of_columns = number_of_columns, re_columns = tm_columns tm,
                 re_present = [], re_present2 = [], re_complete = True\<rparr>)))) w)"

definition read_bitmap :: "'p packet_ops \<Rightarrow> nat option \<Rightarrow> ('p wrapper, byte list) act" where
  "read_bitmap P number_of_columns =
    bindA (pureA (notNone number_of_columns)) (\<lambda>n. packet_read P (int ((n + 7) div 8)))"

text \<open>The constructors of the subclasses: one bit map of present columns, two for an update.\<close>

definition new_rows_event ::
    "'p packet_ops \<Rightarrow> event_filters \<Rightarrow> (nat, table_map_entry) dict \<Rightarrow> rows_kind \<Rightarrow> int \<Rightarrow> ('p wrapper, rows_event option) act" where
  "new_rows_event P filters table_map kind event_size =
    bindA (RowsEvent_init P filters table_map event_size) (\<lambda>r. case r of
      None \<Rightarrow> retA None
    | Some ev \<Rightarrow>
        bindA (read_bitmap P (re_number_of_columns ev)) (\<lambda>bm.
          if kind = WriteRows \<or> kind = DeleteRows then retA (Some (ev\<lparr>re_present := bm\<rparr>))
          else bindA (read_bitmap P (re_number_of_columns ev)) (\<lambda>bm2.
               retA (Some (ev\<lparr>re_present := bm, re_present2 := bm2\<rparr>)))))"

section \<open>One row image\<close>

text \<open>\<^verbatim>\<open>_is_null\<close>: the computation of \<^const>\<open>BitGet\<close>, with \<^verbatim>\<open>%\<close> for \<^verbatim>\<open>&\<close>.\<close>

definition is_null :: "byte list \<Rightarrow> nat \<Rightarrow> nat res" where
  "is_null null_bitmap position =
    bindE (nthE null_bitmap (position div 8)) (\<lambda>b. Inr (unat b AND push_bit (position mod 8) 1))"

definition read_values_name ::
    "row_lib \<Rightarrow> bool \<Rightarrow> 'p packet_ops \<Rightarrow> column \<Rightarrow> byte list \<Rightarrow> nat \<Rightarrow> bool \<Rightarrow> byte list \<Rightarrow> nat
      \<Rightarrow> ('p wrapper, py_val \<times> string option) act" where
  "read_values_name L ignore_decode_errors P c null_bitmap null_bitmap_index is_partial cols_bitmap i =
    bindA (pureA (BitGet cols_bitmap i)) (\<lambda>present.
      if present = 0 then retA (VNone, Some NS_COLS_BITMAP)
      else bindA (pureA (is_null null_bitmap null_bitmap_index)) (\<lambda>null.
           if null \<noteq> 0 then retA (VNone, Some NS_NULL)
           else read_column_value L ignore_decode_errors P c is_partial))"

definition json_column_count :: "column list \<Rightarrow> nat" where
  "json_column_count cs = length (filter (\<lambda>c. col_type c = FT_JSON) cs)"

definition column_key :: "column \<Rightarrow> nat \<Rightarrow> string" where
  "column_key c i = (case col_name c of Some (x # xs) \<Rightarrow> x # xs | _ \<Rightarrow> ''UNKNOWN_COL'' @ str_nat i)"

text \<open>
  The loop of \<^verbatim>\<open>_read_column_data\<close> from column \<open>i\<close> on: the indexes into the bit maps, the values so far
  and the dictionary of sources. \<open>partial\<close> is the bit map of partially updated documents, if any.
\<close>

fun read_columns ::
    "row_lib \<Rightarrow> bool \<Rightarrow> 'p packet_ops \<Rightarrow> byte list \<Rightarrow> byte list \<Rightarrow> byte list option \<Rightarrow> column list \<Rightarrow> nat \<Rightarrow> nat \<Rightarrow> nat
      \<Rightarrow> (string, py_val) dict \<Rightarrow> none_sources \<Rightarrow> ('p wrapper, (string, py_val) dict \<times> none_sources) act" where
  "read_columns L ign P cols_bitmap null_bitmap partial [] i null_idx partial_idx vals sources = retA (vals, sources)"
| "read_columns L ign P cols_bitmap null_bitmap partial (c # cs) i null_idx partial_idx vals sources =
    bindA (case partial of
             Some pb \<Rightarrow> if col_type c = FT_JSON
               then bindA (pureA (BitGet pb partial_idx)) (\<lambda>b. retA (0 < b, Suc partial_idx))
               else retA (False, partial_idx)
           | None \<Rightarrow> retA (False, partial_idx)) (\<lambda>(is_partial, partial_idx').
    bindA (read_values_name L ign P c null_bitmap null_idx is_partial cols_bitmap i) (\<lambda>(v, src).
    let sources' = (case src of None \<Rightarrow> sources | Some s \<Rightarrow> AList.update (col_name c) s sources);
        vals' = AList.update (column_key c i) v vals in
    bindA (pureA (BitGet cols_bitmap i)) (\<lambda>present.
      read_columns L ign P cols_bitmap null_bitmap partial cs (Suc i)
        (if present \<noteq> 0 then Suc null_idx else null_idx) partial_idx' vals' sources')))"

text \<open>
  \<^verbatim>\<open>_read_column_data\<close>. Only the after image of a partial update has the option byte that says
  whether a bit map of partially updated documents follows.
\<close>

definition read_partial_bitmap :: "'p packet_ops \<Rightarrow> nat \<Rightarrow> row_image_type option \<Rightarrow> column list \<Rightarrow> ('p wrapper, byte list option) act" where
  "read_partial_bitmap P event_type img cs =
    (if event_type = PARTIAL_UPDATE_ROWS_EVENT \<and> img = Some UpdateAI then
       bindA (read_length_coded_binary P) (\<lambda>r. bindA (pureA (notNone r)) (\<lambda>row_value_option.
         if row_value_option AND 129 \<noteq> 0
         then bindA (packet_read P (int ((json_column_count cs + 7) div 8))) (\<lambda>bm. retA (Some bm))
         else retA None))
     else retA None)"

definition read_column_data ::
    "row_lib \<Rightarrow> bool \<Rightarrow> 'p packet_ops \<Rightarrow> rows_event \<Rightarrow> byte list \<Rightarrow> row_image_type option \<Rightarrow> none_sources
      \<Rightarrow> ('p wrapper, (string, py_val) dict \<times> none_sources) act" where
  "read_column_data L ign P ev cols_bitmap img sources =
    bindA (read_partial_bitmap P (re_event_type ev) img (re_columns ev)) (\<lambda>partial.
    bindA (packet_read P (int ((BitCount cols_bitmap + 7) div 8))) (\<lambda>null_bitmap.
    read_columns L ign P cols_bitmap null_bitmap partial (re_columns ev) 0 0 0 [] sources))"

text \<open>\<^verbatim>\<open>_get_none_sources\<close>: why the missing values of a row are missing.\<close>

definition get_none_sources :: "none_sources \<Rightarrow> (string, py_val) dict \<Rightarrow> (string, string) dict" where
  "get_none_sources sources vals =
    fold (\<lambda>(nm, v) d. if v \<noteq> VNone then d
       else AList.update nm (case map_of sources (Some nm) of Some s \<Rightarrow> s | None \<Rightarrow> NS_NULL) d) vals []"

section \<open>The rows of an event\<close>

datatype event_row =
    ValuesRow (row_values: "(string, py_val) dict") (row_none_sources: "(string, string) dict")
  | ChangeRow (before_values: "(string, py_val) dict") (before_none_sources: "(string, string) dict")
      (after_values: "(string, py_val) dict") (after_none_sources: "(string, string) dict")

definition fetch_one_row ::
    "row_lib \<Rightarrow> bool \<Rightarrow> 'p packet_ops \<Rightarrow> rows_kind \<Rightarrow> rows_event \<Rightarrow> none_sources \<Rightarrow> ('p wrapper, event_row \<times> none_sources) act" where
  "fetch_one_row L ign P kind ev sources =
    (if kind = WriteRows \<or> kind = DeleteRows then
       bindA (read_column_data L ign P ev (re_present ev) None sources) (\<lambda>(vals, s1).
         retA (ValuesRow vals (get_none_sources s1 vals), s1))
     else
       let bi = (if kind = PartialUpdateRows then Some UpdateBI else None);
           ai = (if kind = PartialUpdateRows then Some UpdateAI else None)
       in bindA (read_column_data L ign P ev (re_present ev) bi sources) (\<lambda>(bvals, s1).
          bindA (read_column_data L ign P ev (re_present2 ev) ai s1) (\<lambda>(avals, s2).
          retA (ChangeRow bvals (get_none_sources s1 bvals) avals (get_none_sources s2 avals), s2))))"

text \<open>The loop of \<^verbatim>\<open>_fetch_rows\<close>, for at most \<open>rounds\<close> rows.\<close>

fun fetch_loop ::
    "nat \<Rightarrow> row_lib \<Rightarrow> bool \<Rightarrow> 'p packet_ops \<Rightarrow> rows_kind \<Rightarrow> rows_event \<Rightarrow> none_sources \<Rightarrow> ('p wrapper, event_row list) act" where
  "fetch_loop 0 L ign P kind ev sources = (\<lambda>w. if pw_read_bytes w < re_event_size ev then (Inl LoopBound, w) else (Inr [], w))"
| "fetch_loop (Suc rounds) L ign P kind ev sources = (\<lambda>w.
    if pw_read_bytes w < re_event_size ev
    then bindA (fetch_one_row L ign P kind ev sources) (\<lambda>(r, s1).
         bindA (fetch_loop rounds L ign P kind ev s1) (\<lambda>rs. retA (r # rs))) w
    else (Inr [], w))"

definition fetch_rows ::
    "nat \<Rightarrow> row_lib \<Rightarrow> bool \<Rightarrow> 'p packet_ops \<Rightarrow> rows_kind \<Rightarrow> rows_event \<Rightarrow> ('p wrapper, event_row list) act" where
  "fetch_rows rounds L ign P kind ev =
    (if \<not> re_complete ev then retA [] else fetch_loop rounds L ign P kind ev [])"

end
