(* ===== verification/RowCodec.thy ===== *)
theory RowCodec
  imports RowsEvent
begin

text \<open>
  Row events read back: the relation between a value of a column and the bytes the server writes for
  it, the bytes of a row image and of a whole event, and the proof that the event object made from
  these bytes gives exactly the rows.
\<close>

section \<open>Values\<close>

definition int_width :: "nat \<Rightarrow> nat option" where
  "int_width t = (if t = FT_TINY then Some 1 else if t = FT_SHORT then Some 2 else if t = FT_INT24 then Some 3
     else if t = FT_LONG then Some 4 else if t = FT_LONGLONG then Some 8 else None)"

definition prefix_size :: "column \<Rightarrow> nat option" where
  "prefix_size c =
    (if col_type c = FT_VARCHAR \<or> col_type c = FT_STRING
     then map_option (\<lambda>m. if 255 < m then 2 else 1) (col_max_length c)
     else if col_type c = FT_BLOB then col_length_size c else None)"

text \<open>What the bytes of a text column are read as: themselves, unless a known character set is given.\<close>

definition text_value :: "row_lib \<Rightarrow> bool \<Rightarrow> column \<Rightarrow> byte list \<Rightarrow> py_val \<Rightarrow> bool" where
  "text_value L ign c bs v \<longleftrightarrow>
    (case col_character_set_name c of
       None \<Rightarrow> v = VBytes bs
     | Some nm \<Rightarrow> \<exists>s. rl_decode L (charset_to_encoding L nm) (if ign then ''ignore'' else ''strict'') bs = Inr s \<and> v = VStr s)"

text \<open>\<open>stored L ign c bs v\<close>: the server writes the value \<open>v\<close> of the column \<open>c\<close> as \<open>bs\<close>.\<close>

inductive stored :: "row_lib \<Rightarrow> bool \<Rightarrow> column \<Rightarrow> byte list \<Rightarrow> py_val \<Rightarrow> bool" for L ign where
  signed_int: "int_width (col_type c) = Some k \<Longrightarrow> \<not> col_unsigned c \<Longrightarrow> - (2 ^ (8 * k - 1)) \<le> i \<Longrightarrow> i < 2 ^ (8 * k - 1)
    \<Longrightarrow> stored L ign c (le_bytes k (nat (i mod 2 ^ (8 * k)))) (VInt i)"
| unsigned_int: "int_width (col_type c) = Some k \<Longrightarrow> col_unsigned c \<Longrightarrow> n < 2 ^ (8 * k)
    \<Longrightarrow> stored L ign c (le_bytes k n) (VInt (int n))"
| single: "col_type c = FT_FLOAT \<Longrightarrow> n < 2 ^ 32 \<Longrightarrow> stored L ign c (le_bytes 4 n) (VFloat (widen_float n))"
| double: "col_type c = FT_DOUBLE \<Longrightarrow> stored L ign c (le_bytes 8 (unat x)) (VFloat x)"
| text_column: "prefix_size c = Some k \<Longrightarrow> k \<in> {1..4} \<Longrightarrow> length bs < 2 ^ (8 * k) \<Longrightarrow> text_value L ign c bs v
    \<Longrightarrow> stored L ign c (le_bytes k (length bs) @ bs) v"
| geometry: "col_type c = FT_GEOMETRY \<Longrightarrow> col_length_size c = Some k \<Longrightarrow> k \<in> {1..4} \<Longrightarrow> length bs < 2 ^ (8 * k)
    \<Longrightarrow> stored L ign c (le_bytes k (length bs) @ bs) (VBytes bs)"
| json: "col_type c = FT_JSON \<Longrightarrow> col_length_size c = Some k \<Longrightarrow> k \<in> {1..4} \<Longrightarrow> 0 < length bs \<Longrightarrow> length bs < 2 ^ (8 * k)
    \<Longrightarrow> rl_to_json L bs = Inr s \<Longrightarrow> stored L ign c (le_bytes k (length bs) @ bs) (VStr s)"
| decimal: "col_type c = FT_NEWDECIMAL \<Longrightarrow> col_precision c = Some p \<Longrightarrow> col_decimals c = Some d \<Longrightarrow> 0 < p \<Longrightarrow> d \<le> p
    \<Longrightarrow> n < 10 ^ p \<Longrightarrow> stored L ign c (encode_decimal p d neg n) (VDecimal (decimal_text neg n d))"
| date: "col_type c = FT_DATE \<Longrightarrow> date_ok (int y) (int m) (int d)
    \<Longrightarrow> stored L ign c (encode_date y m d) (VDate (int y) (int m) (int d))"
| datetime2: "col_type c = FT_DATETIME2 \<Longrightarrow> col_fsp c = Some fsp \<Longrightarrow> fsp_ok fsp us
    \<Longrightarrow> date_ok (int y) (int m) (int d) \<Longrightarrow> clock_ok (int h) (int mi) (int s)
    \<Longrightarrow> stored L ign c (encode_datetime2 y m d h mi s @ encode_fsp fsp us)
          (VDateTime (int y) (int m) (int d) (int h) (int mi) (int s) (int us))"
| time2: "col_type c = FT_TIME2 \<Longrightarrow> col_fsp c = Some fsp \<Longrightarrow> fsp_ok fsp us \<Longrightarrow> h < 1024 \<Longrightarrow> mi < 60 \<Longrightarrow> s < 60
    \<Longrightarrow> (neg \<longrightarrow> us = 0 \<and> 0 < time_number h mi s)
    \<Longrightarrow> stored L ign c (encode_time2 neg h mi s @ encode_fsp fsp us) (VTimeDelta (signed_time neg h mi s us))"
| timestamp2: "col_type c = FT_TIMESTAMP2 \<Longrightarrow> col_fsp c = Some fsp \<Longrightarrow> fsp_ok fsp us \<Longrightarrow> secs < 2 ^ 31
    \<Longrightarrow> utcfromtimestamp (int secs) = Inr (VDateTime y m d h mi s 0)
    \<Longrightarrow> stored L ign c (be_bytes 4 secs @ encode_fsp fsp us) (VDateTime y m d h mi s (int us))"
| year: "col_type c = FT_YEAR \<Longrightarrow> 1900 \<le> y \<Longrightarrow> y < 2156 \<Longrightarrow> stored L ign c [of_nat (y - 1900)] (VInt (int y))"
| enum_index: "col_type c = FT_ENUM \<Longrightarrow> col_size c = Some k \<Longrightarrow> k \<in> {1..8} \<Longrightarrow> n < 2 ^ (8 * k)
    \<Longrightarrow> stored L ign c (le_bytes k n) (VInt (int n))"
| set_mask: "col_type c = FT_SET \<Longrightarrow> col_size c = Some k \<Longrightarrow> k \<in> {1..8} \<Longrightarrow> n < 2 ^ (8 * k) \<Longrightarrow> col_set_values c = None
    \<Longrightarrow> stored L ign c (le_bytes k n) (VInt (int n))"
| bits: "col_type c = FT_BIT \<Longrightarrow> col_bits c = Some n \<Longrightarrow> col_bytes c = Some k \<Longrightarrow> k = (n + 7) div 8 \<Longrightarrow> 0 < n \<Longrightarrow> x < 2 ^ n
    \<Longrightarrow> stored L ign c (be_bytes k x) (VStr (bin_text n x))"

lemma le_nat_bytes_of: "n < 2 ^ (8 * k) \<Longrightarrow> le_nat (le_bytes k n) = n"
  by (simp add: le_nat_le_bytes pow_256)

lemma signed_of_mod:
  assumes "- (2 ^ (8 * k - 1)) \<le> i" "i < 2 ^ (8 * k - 1)" "0 < k"
  shows "to_signed k (nat (i mod 2 ^ (8 * k))) = i" "nat (i mod 2 ^ (8 * k)) < 2 ^ (8 * k)"
proof -
  define H :: int where "H = 2 ^ (8 * k - 1)"
  have e: "(2 :: int) ^ (8 * k) = 2 * H" using assms(3) unfolding H_def by (simp flip: power_Suc)
  have en: "(2 :: nat) ^ (8 * k) \<le> 2 * n \<longleftrightarrow> 2 * H \<le> 2 * int n" for n
    unfolding e [symmetric] by (metis of_nat_le_iff of_nat_mult of_nat_numeral of_nat_power)
  have H: "- H \<le> i" "i < H" using assms unfolding H_def by simp_all
  have m: "i mod (2 * H) = (if i < 0 then i + 2 * H else i)"
  proof (cases "i < 0")
    case True
    have "(i + 2 * H) mod (2 * H) = i + 2 * H" using H True by (intro mod_pos_pos_trivial) auto
    then show ?thesis using True by simp
  next
    case False
    then show ?thesis using H by (simp add: mod_pos_pos_trivial)
  qed
  have nn: "int (nat (i mod (2 * H))) = i mod (2 * H)" using H m by auto
  then show "to_signed k (nat (i mod 2 ^ (8 * k))) = i"
    unfolding to_signed_def en e using m H by auto
  have "int (nat (i mod (2 * H))) < 2 * H" unfolding nn using m H by auto
  then show "nat (i mod 2 ^ (8 * k)) < 2 ^ (8 * k)"
    unfolding e using e by (metis of_nat_less_iff of_nat_numeral of_nat_power)
qed

context byte_source
begin

lemma reads_plain: "reads rest m bs v \<Longrightarrow> reads rest (plain m) bs (v, None)"
  unfolding plain_def by (rule reads_map)

lemma decodes_plain: "decodes rest m bs v \<Longrightarrow> decodes rest (plain m) bs (v, None)"
  unfolding plain_def by (auto intro: decodes_bind decodes_ret)

lemma reads_or_none: "reads rest m bs v \<Longrightarrow> v \<noteq> VNone \<Longrightarrow> reads rest (or_none_source src m) bs (v, None)"
  unfolding or_none_source_def using reads_map [of rest m bs v "\<lambda>v. (v, if v = VNone then Some src else None)"] by simp

lemma reads_integer:
  assumes "length bs = k"
  shows "reads rest (read_integer P k u) bs (VInt (if u then int (le_nat bs) else to_signed k (le_nat bs)))"
  unfolding read_integer_def using assms
  by (intro reads_unpacked) (auto simp: unpack_le_def unpack_le_signed_def)

lemma reads_int24_value:
  assumes "length bs = 3"
  shows "reads rest (read_int24_value P u) bs (VInt (if u then int (le_nat bs) else to_signed 3 (le_nat bs)))"
  unfolding read_int24_value_def
  using reads_map [OF reads_int24s(1) [OF assms], of "\<lambda>v. VInt (int v)"] reads_map [OF reads_int24s(2) [OF assms], of VInt] by auto

lemma reads_int_column:
  assumes "int_width (col_type c) = Some k" "length bs = k"
  shows "reads rest (read_column_value L ign P c part) bs
    (VInt (if col_unsigned c then int (le_nat bs) else to_signed k (le_nat bs)), None)"
  using assms reads_plain [OF reads_integer [OF assms(2)], of "col_unsigned c"] reads_plain [OF reads_int24_value, of bs "col_unsigned c"]
  by (auto simp: int_width_def read_column_value_def Let_def split: if_splits)

lemma reads_text:
  assumes "k \<in> {1..4}" "length bs < 2 ^ (8 * k)" "text_value L ign c bs v"
  shows "reads rest (RowsEvent_read_string L ign P k c) (le_bytes k (length bs) @ bs) v"
  unfolding RowsEvent_read_string_def
proof (rule reads_bind [OF reads_pascal_string])
  show "reads rest (let decode_errors = if ign then ''ignore'' else ''strict''
      in case col_character_set_name c of None \<Rightarrow> retA (VBytes bs)
         | Some nm \<Rightarrow> (case rl_decode L (charset_to_encoding L nm) decode_errors bs of
              Inr s \<Rightarrow> retA (VStr s) | Inl e \<Rightarrow> if is_lookup_error e then retA (VBytes bs) else raiseA e)) [] v"
    using assms(3) by (auto simp: text_value_def Let_def reads_ret split: option.splits)
qed (use assms in auto)

lemma reads_text_column:
  assumes "prefix_size c = Some k" "k \<in> {1..4}" "length bs < 2 ^ (8 * k)" "text_value L ign c bs v"
  shows "reads rest (read_column_value L ign P c part) (le_bytes k (length bs) @ bs) (v, None)"
  using reads_plain [OF reads_text [OF assms(2-)]] assms(1)
  by (auto simp: prefix_size_def read_column_value_def Let_def attr_def bind_pure split: if_splits)

lemma reads_sized:
  assumes "k \<in> {1..8}" "n < 2 ^ (8 * k)"
  shows "reads rest (read_uint_by_size P k) (le_bytes k n) (Some n)"
  using reads_uint_by_size [of "le_bytes k n" k] assms by (simp add: le_nat_bytes_of)

lemma reads_json:
  assumes "k \<in> {1..4}" "0 < length bs" "length bs < 2 ^ (8 * k)" "to_json bs = Inr s"
  shows "reads rest (read_binary_json to_json P k) (le_bytes k (length bs) @ bs) (Some s)"
  unfolding read_binary_json_def
proof (rule reads_bind [OF reads_sized])
  show "reads rest (if Some (length bs) = Some 0 then retA None
      else bindA (pureA (notNone (Some (length bs)))) (\<lambda>n. bindA (packet_read P (int n)) (\<lambda>data. pureA (bindE (to_json data) (\<lambda>s. Inr (Some s))))))
    bs (Some s)"
    using assms reads_unpacked [of bs "length bs" "\<lambda>data. bindE (to_json data) (\<lambda>s. Inr (Some s))" "Some s"]
    by (simp add: notNone_def bind_pure)
qed (use assms in auto)

text \<open>The reader of a column reads back every stored value.\<close>

lemma stored_decodes:
  "stored L ign c bs v \<Longrightarrow> \<exists>src. decodes rest (read_column_value L ign P c False) bs (v, src)"
proof (induction rule: stored.induct)
  case (signed_int c k i)
  have k: "0 < k" using signed_int(1) by (auto simp: int_width_def split: if_splits)
  note m = signed_of_mod [OF signed_int(3,4) k]
  show ?case using reads_decodes [OF reads_int_column [OF signed_int(1), of "le_bytes k (nat (i mod 2 ^ (8 * k)))"]] signed_int(2) m
    by (auto simp: le_nat_bytes_of)
next
  case (unsigned_int c k n)
  then show ?case using reads_decodes [OF reads_int_column [OF unsigned_int(1), of "le_bytes k n"]] by (auto simp: le_nat_bytes_of)
next
  case (single c n)
  have "reads rest (bindA (packet_read P 4) (\<lambda>bs. pureA (bindE (unpack_le 4 bs) (\<lambda>n. Inr (VFloat (widen_float n)))))) (le_bytes 4 n) (VFloat (widen_float n))"
    using single(2) by (intro reads_unpacked [of _ 4, simplified]) (simp_all add: unpack_le_def le_nat_le_bytes)
  from reads_decodes [OF reads_plain [OF this]] single(1) show ?case by (auto simp: read_column_value_def Let_def)
next
  case (double c x)
  have "unat x < 2 ^ LENGTH(64)" by (rule unsigned_less)
  then have "reads rest (bindA (packet_read P 8) (\<lambda>bs. pureA (bindE (unpack_le 8 bs) (\<lambda>n. Inr (VFloat (of_nat n)))))) (le_bytes 8 (unat x)) (VFloat x)"
    by (intro reads_unpacked [of _ 8, simplified]) (simp_all add: unpack_le_def le_nat_le_bytes)
  from reads_decodes [OF reads_plain [OF this]] double show ?case by (auto simp: read_column_value_def Let_def)
next
  case (text_column c k bs v)
  from reads_decodes [OF reads_text_column [OF this]] show ?case by blast
next
  case (geometry c k bs)
  have k: "k \<in> {1..8}" using geometry(3) by auto
  from reads_decodes [OF reads_plain [OF reads_map [OF reads_pascal_string [OF k geometry(4)], of VBytes]]] geometry(1,2)
  show ?case by (auto simp: read_column_value_def Let_def attr_def bind_pure)
next
  case (json c k bs s)
  from reads_decodes [OF reads_map [OF reads_json [OF json(3-5), of "rl_to_json L", OF json(6)], of "\<lambda>r. (case r of None \<Rightarrow> VNone | Some s \<Rightarrow> VStr s,
      if (r = None \<or> r = Some []) \<and> False then Some NS_JSON_PARTIAL_UPDATE else None)"]] json(1,2)
  show ?case by (auto simp: read_column_value_def Let_def attr_def bind_pure)
next
  case (decimal c p d n neg)
  from decodes_plain [OF decodes_decimal [OF decimal(2-6)]] decimal(1) show ?case by (auto simp: read_column_value_def Let_def)
next
  case (date c y m d)
  from reads_decodes [OF reads_or_none [OF reads_date [OF date(2)]]] date(1) show ?case by (auto simp: read_column_value_def Let_def)
next
  case (datetime2 c fsp us y m d h mi s)
  from reads_decodes [OF reads_or_none [OF reads_datetime2 [OF datetime2(4,5,2,3)]]] datetime2(1)
  show ?case by (auto simp: read_column_value_def Let_def)
next
  case (time2 c fsp us h mi s neg)
  from reads_decodes [OF reads_plain [OF reads_time2 [OF time2(4,5,6,2,3)]], of neg] time2(1,7)
  show ?case by (auto simp: read_column_value_def Let_def)
next
  case (timestamp2 c fsp us secs y m d h mi s)
  from reads_decodes [OF reads_plain [OF reads_timestamp2 [OF timestamp2(4,5,2,3)]]] timestamp2(1)
  show ?case by (auto simp: read_column_value_def Let_def)
next
  case (year c y)
  have one: "reads rest (read_uint8 P) [of_nat z] z" if "z < 256" for z
    using reads_uints(1) [of "[of_nat z]"] that by (simp add: unat_of_nat_byte)
  have "y - 1900 < 256" using year(3) by simp
  from reads_decodes [OF reads_plain [OF reads_map [OF one [OF this], of "\<lambda>n. VInt (int n + 1900)"]]] year
  show ?case by (auto simp: read_column_value_def Let_def of_nat_diff)
next
  case (enum_index c k n)
  from reads_decodes [OF reads_plain [OF reads_map [OF reads_sized [OF enum_index(3,4)], of opt_int]]] enum_index(1,2)
  show ?case by (auto simp: read_column_value_def Let_def attr_def bind_pure opt_int_def)
next
  case (set_mask c k n)
  from reads_decodes [OF reads_map [OF reads_sized [OF set_mask(3,4)], of "\<lambda>m. (opt_int m, Some NS_EMPTY_SET)"]] set_mask(1,2,5)
  show ?case by (auto simp: read_column_value_def Let_def attr_def bind_pure opt_int_def read_set_def)
next
  case (bits c n k x)
  from reads_decodes [OF reads_plain [OF reads_bits [OF bits(2-6)]]] bits(1) show ?case by (auto simp: read_column_value_def Let_def)
qed

end

section \<open>Row images\<close>

text \<open>
  A row image: for each column that it is not in the image, that it is NULL, or the bytes of its value.
  Its bytes are the bit map of the NULLs among the present columns and then the values.
\<close>

datatype cell = Absent | Null | Stored "byte list" py_val

fun cell_ok :: "row_lib \<Rightarrow> bool \<Rightarrow> column \<Rightarrow> cell \<Rightarrow> bool" where
  "cell_ok L ign c (Stored bs v) = stored L ign c bs v"
| "cell_ok L ign c _ = True"

fun cell_bytes :: "cell \<Rightarrow> byte list" where
  "cell_bytes (Stored bs v) = bs"
| "cell_bytes _ = []"

fun cell_val :: "cell \<Rightarrow> py_val" where
  "cell_val (Stored bs v) = v"
| "cell_val _ = VNone"

definition present_flags :: "cell list \<Rightarrow> bool list" where
  "present_flags cells = map (\<lambda>x. x \<noteq> Absent) cells"

definition null_flags :: "cell list \<Rightarrow> bool list" where
  "null_flags cells = map (\<lambda>x. x = Null) (filter (\<lambda>x. x \<noteq> Absent) cells)"

definition image_bytes :: "cell list \<Rightarrow> byte list" where
  "image_bytes cells = pack_bits (null_flags cells) @ concat (map cell_bytes cells)"

definition column_keys :: "column list \<Rightarrow> string list" where
  "column_keys cs = map2 column_key cs [0..<length cs]"

definition image_dict :: "column list \<Rightarrow> cell list \<Rightarrow> (string, py_val) dict" where
  "image_dict cs cells = zip (column_keys cs) (map cell_val cells)"

lemma is_null_BitGet: "is_null bm i = BitGet bm i"
  by (simp add: is_null_def BitGet_def and_7_mod)

lemma null_flags_append: "null_flags (xs @ ys) = null_flags xs @ null_flags ys"
  by (simp add: null_flags_def)

lemma count_present: "count_list (present_flags cells) True = length (null_flags cells)"
  by (induction cells) (simp_all add: present_flags_def null_flags_def)

lemma image_nonempty: "null_flags cells \<noteq> [] \<Longrightarrow> image_bytes cells \<noteq> []"
  by (simp add: image_bytes_def pack_bits.simps [of "null_flags cells"])

lemma update_new: "k \<notin> fst ` set al \<Longrightarrow> AList.update k v al = al @ [(k, v)]"
  by (induction al) auto

context byte_source
begin

text \<open>One column: a value, NULL or nothing, as the bit maps say.\<close>

lemma decodes_cell:
  assumes ok: "cell_ok L ign c x" and fs: "present_flags (pre @ x # suf) = fs" "null_flags (pre @ x # suf) = ns"
  shows "\<exists>src. decodes rest (read_values_name L ign P c (pack_bits ns) (length (null_flags pre)) False (pack_bits fs) (length pre))
    (cell_bytes x) (cell_val x, src)"
proof -
  have "length pre < length fs" "fs ! length pre = (x \<noteq> Absent)"
    unfolding fs(1) [symmetric] by (simp_all add: present_flags_def nth_append)
  then obtain p where p: "BitGet (pack_bits fs) (length pre) = Inr p" "(p \<noteq> 0) = (x \<noteq> Absent)" using BitGet_pack by metis
  show ?thesis
  proof (cases "x = Absent")
    case True
    then show ?thesis using p by (auto simp: read_values_name_def bind_pure intro: decodes_ret)
  next
    case False
    then have "null_flags (x # suf) = (x = Null) # null_flags suf" by (simp add: null_flags_def)
    then have "length (null_flags pre) < length ns" "ns ! length (null_flags pre) = (x = Null)"
      unfolding fs(2) [symmetric] null_flags_append by simp_all
    then obtain q where q: "BitGet (pack_bits ns) (length (null_flags pre)) = Inr q" "(q \<noteq> 0) = (x = Null)"
      using BitGet_pack by metis
    show ?thesis
    proof (cases x)
      case Null
      then show ?thesis using p q by (auto simp: read_values_name_def bind_pure is_null_BitGet intro: decodes_ret)
    next
      case (Stored bs v)
      then have "stored L ign c bs v" using ok by simp
      from stored_decodes [OF this] Stored p q show ?thesis by (auto simp: read_values_name_def bind_pure is_null_BitGet)
    qed (use False in simp)
  qed
qed

lemma decodes_columns:
  assumes "list_all2 (cell_ok L ign) cs suf" "distinct (map fst vals @ map2 column_key cs [length pre..<length pre + length cs])"
    and fs: "present_flags (pre @ suf) = fs" "null_flags (pre @ suf) = ns"
  shows "\<exists>s'. decodes rest (read_columns L ign P (pack_bits fs) (pack_bits ns) None cs (length pre) (length (null_flags pre)) j vals s)
    (concat (map cell_bytes suf)) (vals @ zip (map2 column_key cs [length pre..<length pre + length cs]) (map cell_val suf), s')"
  using assms
proof (induction cs arbitrary: suf pre vals s)
  case Nil
  then show ?case by (auto intro: decodes_ret)
next
  case (Cons c cs)
  then obtain x xs where suf: "suf = x # xs" and ok: "cell_ok L ign c x" "list_all2 (cell_ok L ign) cs xs"
    by (auto simp: list_all2_Cons1)
  let ?k = "column_key c (length pre)"
  let ?vals = "vals @ [(?k, cell_val x)]"
  have ks: "map2 column_key (c # cs) [length pre..<length pre + length (c # cs)] =
      ?k # map2 column_key cs [length (pre @ [x])..<length (pre @ [x]) + length cs]" by (simp add: upt_rec)
  have upd: "AList.update ?k (cell_val x) vals = ?vals"
    using Cons.prems(2) unfolding ks by (intro update_new) (auto simp: image_iff)
  have d: "distinct (map fst ?vals @ map2 column_key cs [length (pre @ [x])..<length (pre @ [x]) + length cs])"
    using Cons.prems(2) unfolding ks by simp
  have fl: "present_flags ((pre @ [x]) @ xs) = fs" "null_flags ((pre @ [x]) @ xs) = ns"
    using Cons.prems(3,4) unfolding suf by simp_all
  from decodes_cell [OF ok(1) Cons.prems(3) [unfolded suf] Cons.prems(4) [unfolded suf]]
  obtain src where cell: "decodes rest (read_values_name L ign P c (pack_bits ns) (length (null_flags pre)) False (pack_bits fs) (length pre))
    (cell_bytes x) (cell_val x, src)" by blast
  define s1 where "s1 = (case src of None \<Rightarrow> s | Some t \<Rightarrow> AList.update (col_name c) t s)"
  from Cons.IH [OF ok(2) d fl, of s1] obtain s' where tl: "decodes rest (read_columns L ign P (pack_bits fs) (pack_bits ns) None cs
      (length (pre @ [x])) (length (null_flags (pre @ [x]))) j ?vals s1) (concat (map cell_bytes xs))
      (?vals @ zip (map2 column_key cs [length (pre @ [x])..<length (pre @ [x]) + length cs]) (map cell_val xs), s')" by blast
  have "length pre < length fs" "fs ! length pre = (x \<noteq> Absent)"
    using Cons.prems(3) unfolding suf by (auto simp: present_flags_def nth_append)
  then obtain p where p: "BitGet (pack_bits fs) (length pre) = Inr p" "(p \<noteq> 0) = (x \<noteq> Absent)" using BitGet_pack by metis
  have idx: "(if p \<noteq> 0 then Suc (length (null_flags pre)) else length (null_flags pre)) = length (null_flags (pre @ [x]))"
    unfolding p(2) by (simp add: null_flags_def)
  have len: "Suc (length pre) = length (pre @ [x])" by simp
  have "decodes rest (read_columns L ign P (pack_bits fs) (pack_bits ns) None (c # cs) (length pre) (length (null_flags pre)) j vals s)
    (cell_bytes x @ concat (map cell_bytes xs))
    (?vals @ zip (map2 column_key cs [length (pre @ [x])..<length (pre @ [x]) + length cs]) (map cell_val xs), s')"
    unfolding read_columns.simps option.case
    by (rule decodes_bind, rule decodes_ret, unfold prod.case, rule decodes_bind, rule cell,
        unfold prod.case s1_def [symmetric] Let_def upd p(1) bind_pure idx len, rule tl) simp_all
  then show ?case unfolding ks suf by auto
qed

lemma decodes_image:
  assumes "list_all2 (cell_ok L ign) (re_columns ev) cells" "distinct (column_keys (re_columns ev))"
    and "re_event_type ev \<noteq> PARTIAL_UPDATE_ROWS_EVENT"
  shows "\<exists>s'. decodes rest (read_column_data L ign P ev (pack_bits (present_flags cells)) img s) (image_bytes cells)
    (image_dict (re_columns ev) cells, s')"
proof -
  have d: "distinct (map fst ([] :: (string, py_val) dict) @ map2 column_key (re_columns ev) [length ([] :: cell list)..<length ([] :: cell list) + length (re_columns ev)])"
    using assms(2) by (simp add: column_keys_def)
  from decodes_columns [OF assms(1) d, of "present_flags cells" "null_flags cells" 0 s]
  obtain s' where cols: "decodes rest (read_columns L ign P (pack_bits (present_flags cells)) (pack_bits (null_flags cells)) None (re_columns ev) 0 0 0 [] s)
    (concat (map cell_bytes cells)) (image_dict (re_columns ev) cells, s')"
    by (auto simp: null_flags_def image_dict_def column_keys_def)
  have n: "int ((BitCount (pack_bits (present_flags cells)) + 7) div 8) = int (length (pack_bits (null_flags cells)))"
    by (simp add: BitCount_pack count_present length_pack_bits)
  have pb: "read_partial_bitmap P (re_event_type ev) img (re_columns ev) = retA None"
    using assms(3) by (simp add: read_partial_bitmap_def)
  have "decodes rest (read_column_data L ign P ev (pack_bits (present_flags cells)) img s) (image_bytes cells) (image_dict (re_columns ev) cells, s')"
    unfolding read_column_data_def pb image_bytes_def
    by (rule decodes_bind, rule decodes_ret, rule decodes_bind,
        rule reads_decodes [OF reads_read [OF n]], rule cols) simp_all
  then show ?thesis by blast
qed

end

section \<open>Whole events\<close>

text \<open>A row is a pair of images; write and delete events have only the first.\<close>

definition one_image :: "rows_kind \<Rightarrow> bool" where
  "one_image kind \<longleftrightarrow> kind = WriteRows \<or> kind = DeleteRows"

definition row_bytes :: "rows_kind \<Rightarrow> cell list \<times> cell list \<Rightarrow> byte list" where
  "row_bytes kind r = image_bytes (fst r) @ (if one_image kind then [] else image_bytes (snd r))"

definition image_ok :: "row_lib \<Rightarrow> bool \<Rightarrow> column list \<Rightarrow> bool list \<Rightarrow> cell list \<Rightarrow> bool" where
  "image_ok L ign cs fs cells \<longleftrightarrow> list_all2 (cell_ok L ign) cs cells \<and> present_flags cells = fs"

definition row_ok ::
    "row_lib \<Rightarrow> bool \<Rightarrow> rows_kind \<Rightarrow> column list \<Rightarrow> bool list \<Rightarrow> bool list \<Rightarrow> cell list \<times> cell list \<Rightarrow> bool" where
  "row_ok L ign kind cs fs fs2 r \<longleftrightarrow> image_ok L ign cs fs (fst r) \<and> (one_image kind \<or> image_ok L ign cs fs2 (snd r))"

definition row_dicts :: "event_row \<Rightarrow> (string, py_val) dict \<times> (string, py_val) dict" where
  "row_dicts r = (case r of ValuesRow v _ \<Rightarrow> (v, []) | ChangeRow b _ a _ \<Rightarrow> (b, a))"

definition row_value :: "rows_kind \<Rightarrow> column list \<Rightarrow> cell list \<times> cell list \<Rightarrow> (string, py_val) dict \<times> (string, py_val) dict" where
  "row_value kind cs r = (image_dict cs (fst r), if one_image kind then [] else image_dict cs (snd r))"

definition rows_header :: "bool \<Rightarrow> nat \<Rightarrow> nat \<Rightarrow> nat \<Rightarrow> byte list" where
  "rows_header v2 table_id flags ncols =
    le_bytes 6 table_id @ (le_bytes 2 flags @ (if v2 then le_bytes 2 2 else [])) @ encode_length_coded ncols"

definition encode_rows_event ::
    "rows_kind \<Rightarrow> bool \<Rightarrow> nat \<Rightarrow> nat \<Rightarrow> bool list \<Rightarrow> bool list \<Rightarrow> (cell list \<times> cell list) list \<Rightarrow> byte list" where
  "encode_rows_event kind v2 table_id flags fs fs2 rows =
    rows_header v2 table_id flags (length fs)
    @ (pack_bits fs @ (if one_image kind then [] else pack_bits fs2)) @ concat (map (row_bytes kind) rows)"

lemma present_null: "present_flags cells = fs \<Longrightarrow> True \<in> set fs \<Longrightarrow> null_flags cells \<noteq> []"
  by (auto simp: present_flags_def null_flags_def filter_empty_conv)

context byte_source
begin

lemma decodes_row:
  assumes ok: "row_ok L ign kind (re_columns ev) fs fs2 r" and kind: "kind \<noteq> PartialUpdateRows"
    and t: "re_event_type ev \<noteq> PARTIAL_UPDATE_ROWS_EVENT" and keys: "distinct (column_keys (re_columns ev))"
    and ev: "re_present ev = pack_bits fs" "one_image kind \<or> re_present2 ev = pack_bits fs2"
  shows "\<exists>er s'. decodes rest (fetch_one_row L ign P kind ev s) (row_bytes kind r) (er, s') \<and> row_dicts er = row_value kind (re_columns ev) r"
proof -
  have b: "list_all2 (cell_ok L ign) (re_columns ev) (fst r)" "present_flags (fst r) = fs"
    using ok by (simp_all add: row_ok_def image_ok_def)
  from decodes_image [OF b(1) keys t, of None s] obtain s1 where
    first: "decodes rest (read_column_data L ign P ev (re_present ev) None s) (image_bytes (fst r)) (image_dict (re_columns ev) (fst r), s1)"
    unfolding b(2) ev(1) by blast
  show ?thesis
  proof (cases "one_image kind")
    case True
    have "decodes rest (fetch_one_row L ign P kind ev s) (image_bytes (fst r))
      (ValuesRow (image_dict (re_columns ev) (fst r)) (get_none_sources s1 (image_dict (re_columns ev) (fst r))), s1)"
      unfolding fetch_one_row_def if_P [OF True [unfolded one_image_def]]
      by (rule decodes_bind, rule first, unfold prod.case, rule decodes_ret) simp
    then show ?thesis using True by (auto simp: row_bytes_def row_value_def row_dicts_def intro!: exI)
  next
    case False
    then have c: "list_all2 (cell_ok L ign) (re_columns ev) (snd r)" "present_flags (snd r) = fs2" "re_present2 ev = pack_bits fs2"
      using ok ev(2) by (simp_all add: row_ok_def image_ok_def)
    from decodes_image [OF c(1) keys t, of None s1] obtain s2 where
      second: "decodes rest (read_column_data L ign P ev (re_present2 ev) None s1) (image_bytes (snd r)) (image_dict (re_columns ev) (snd r), s2)"
      unfolding c(2,3) by blast
    have k: "\<not> (kind = WriteRows \<or> kind = DeleteRows)" using False by (simp add: one_image_def)
    have "decodes rest (fetch_one_row L ign P kind ev s) (image_bytes (fst r) @ image_bytes (snd r))
      (ChangeRow (image_dict (re_columns ev) (fst r)) (get_none_sources s1 (image_dict (re_columns ev) (fst r)))
        (image_dict (re_columns ev) (snd r)) (get_none_sources s2 (image_dict (re_columns ev) (snd r))), s2)"
      unfolding fetch_one_row_def if_not_P [OF k] if_not_P [OF kind] Let_def
      by (rule decodes_bind, rule first, unfold prod.case, rule decodes_bind, rule second, unfold prod.case, rule decodes_ret) simp_all
    then show ?thesis using False by (auto simp: row_bytes_def row_value_def row_dicts_def intro!: exI)
  qed
qed

lemma fetch_loop_rows:
  assumes "\<And>r. r \<in> set rows \<Longrightarrow> row_ok L ign kind (re_columns ev) fs fs2 r" and kind: "kind \<noteq> PartialUpdateRows"
    and t: "re_event_type ev \<noteq> PARTIAL_UPDATE_ROWS_EVENT" and keys: "distinct (column_keys (re_columns ev))"
    and ev: "re_present ev = pack_bits fs" "one_image kind \<or> re_present2 ev = pack_bits fs2" and fs: "True \<in> set fs"
    and "length rows \<le> rounds" "pw_buffer w = []" "rest (pw_packet w) = concat (map (row_bytes kind) rows) @ behind"
    and "re_event_size ev = pw_read_bytes w + int (length (concat (map (row_bytes kind) rows)))"
  shows "\<exists>rs p. fetch_loop rounds L ign P kind ev s w = (Inr rs, taken (length (concat (map (row_bytes kind) rows))) p w)
    \<and> rest p = behind \<and> map row_dicts rs = map (row_value kind (re_columns ev)) rows"
  using assms(1,8-)
proof (induction rows arbitrary: rounds s w)
  case Nil
  have "fetch_loop rounds L ign P kind ev s w = (Inr [], w)" using Nil by (cases rounds) simp_all
  moreover have "w = taken 0 (pw_packet w) w" by (simp add: taken_def)
  ultimately show ?case using Nil by auto
next
  case (Cons r rows)
  from Cons.prems(2) obtain n where rounds: "rounds = Suc n" "length rows \<le> n" by (cases rounds) auto
  have ok: "row_ok L ign kind (re_columns ev) fs fs2 r" using Cons.prems(1) by simp
  then have "present_flags (fst r) = fs" by (simp add: row_ok_def image_ok_def)
  from image_nonempty [OF present_null [OF this fs]] have "image_bytes (fst r) \<noteq> []" .
  then have pos: "0 < length (row_bytes kind r)" by (simp add: row_bytes_def)
  from decodes_row [OF ok kind t keys ev, of s] obtain er s1 where
    row: "decodes rest (fetch_one_row L ign P kind ev s) (row_bytes kind r) (er, s1)" "row_dicts er = row_value kind (re_columns ev) r" by blast
  have "rest (pw_packet w) = row_bytes kind r @ concat (map (row_bytes kind) rows) @ behind" using Cons.prems(4) by simp
  from decodesD [OF row(1) Cons.prems(3) this] obtain p where
    p: "fetch_one_row L ign P kind ev s w = (Inr (er, s1), taken (length (row_bytes kind r)) p w)"
      "rest p = concat (map (row_bytes kind) rows) @ behind" by blast
  define w1 where "w1 = taken (length (row_bytes kind r)) p w"
  have w1: "pw_buffer w1 = []" "rest (pw_packet w1) = concat (map (row_bytes kind) rows) @ behind"
    "re_event_size ev = pw_read_bytes w1 + int (length (concat (map (row_bytes kind) rows)))"
    using Cons.prems(3,5) p(2) by (simp_all add: w1_def)
  have "\<And>r. r \<in> set rows \<Longrightarrow> row_ok L ign kind (re_columns ev) fs fs2 r" using Cons.prems(1) by simp
  from Cons.IH [OF this rounds(2) w1, of s1] obtain rs q where
    q: "fetch_loop n L ign P kind ev s1 w1 = (Inr rs, taken (length (concat (map (row_bytes kind) rows))) q w1)"
      "rest q = behind" "map row_dicts rs = map (row_value kind (re_columns ev)) rows" by blast
  have "length (concat (map (row_bytes kind) (r # rows))) = length (row_bytes kind r) + length (concat (map (row_bytes kind) rows))" by simp
  then have lt: "pw_read_bytes w < re_event_size ev" using pos Cons.prems(5) by linarith
  have "fetch_loop rounds L ign P kind ev s w = (Inr (er # rs), taken (length (concat (map (row_bytes kind) (r # rows)))) q w)"
    using p(1) q(1) lt unfolding rounds(1)
    by (simp add: bindA_def retA_def w1_def [symmetric]) (simp add: w1_def taken_taken)
  then show ?case using q(2,3) row(2) by auto
qed

text \<open>The header.\<close>

lemma reads_flags:
  assumes "flags < 2 ^ 16"
  shows "reads rest (read_rows_flags P t) (le_bytes 2 flags @ (if is_v2 t then le_bytes 2 2 else [])) flags"
proof (cases "is_v2 t")
  case True
  have b: "length (le_bytes 2 flags @ le_bytes 2 2) = 4" by simp
  have f: "unpack_le 2 (take 2 (le_bytes 2 flags @ le_bytes 2 2)) = Inr flags"
    "unpack_le 2 (drop 2 (le_bytes 2 flags @ le_bytes 2 2)) = Inr 2"
    using assms by (simp_all add: unpack_le_def le_nat_le_bytes)
  have k: "reads rest (bindA (read_extra_data P t 2) (\<lambda>_. retA flags)) [] flags"
    using reads_map [OF reads_ret, of rest "()" "\<lambda>_. flags"] by (simp add: read_extra_data_def)
  have "reads rest (read_rows_flags P t) ((le_bytes 2 flags @ le_bytes 2 2) @ []) flags"
    unfolding read_rows_flags_def if_P [OF True]
    by (rule reads_bind, rule reads_read [of 4 "le_bytes 2 flags @ le_bytes 2 2"], simp,
        unfold f bind_pure, rule k, simp)
  with True show ?thesis by simp
next
  case False
  then show ?thesis using reads_uints(2) [of "le_bytes 2 flags"] assms by (simp add: read_rows_flags_def le_nat_le_bytes)
qed

lemma reads_table_id:
  assumes "table_id < 2 ^ 48"
  shows "reads rest (read_table_id P) (le_bytes 6 table_id) table_id"
  unfolding read_table_id_def
proof (rule reads_unpacked [of _ 6, simplified])
  have "le_nat (le_bytes 6 table_id @ [0, 0]) = table_id" using assms by (simp add: le_nat_append le_nat_le_bytes)
  then show "unpack_le 8 (le_bytes 6 table_id @ [0, 0]) = Inr table_id" by (simp add: unpack_le_def)
qed simp

lemma reads_bitmap: "length fs = n \<Longrightarrow> reads rest (read_bitmap P (Some n)) (pack_bits fs) (pack_bits fs)"
  unfolding read_bitmap_def notNone_def option.case bind_pure by (rule reads_read) (simp add: length_pack_bits)

lemma new_event_made:
  assumes w: "pw_buffer w = []"
    and pend: "rest (pw_packet w) = rows_header (is_v2 (pw_event_type w)) table_id flags (length fs)
        @ (pack_bits fs @ (if one_image kind then [] else pack_bits fs2)) @ behind"
    and tm: "map_of table_map table_id = Some tm" "\<not> filtered_out filters (tm_schema tm) (tm_table tm)"
    and bounds: "table_id < 2 ^ 48" "flags < 2 ^ 16" "length fs < 2 ^ 24" and fs2: "length fs2 = length fs"
  shows "\<exists>ev p. new_rows_event P filters table_map kind event_size w = (Inr (Some ev),
      taken (length (rows_header (is_v2 (pw_event_type w)) table_id flags (length fs)
        @ (pack_bits fs @ (if one_image kind then [] else pack_bits fs2)))) p w)
    \<and> rest p = behind \<and> re_table ev = tm_table tm \<and> re_schema ev = tm_schema tm \<and> re_columns ev = tm_columns tm
    \<and> re_event_type ev = pw_event_type w \<and> re_event_size ev = event_size \<and> re_complete ev
    \<and> re_present ev = pack_bits fs \<and> (one_image kind \<or> re_present2 ev = pack_bits fs2)"
proof -
  let ?t = "pw_event_type w"
  define ev0 where "ev0 = \<lparr>re_event_type = ?t, re_event_size = event_size, re_table_id = table_id,
    re_schema = tm_schema tm, re_table = tm_table tm, re_primary_key = tm_primary_key tm, re_flags = flags,
    re_number_of_columns = Some (length fs), re_columns = tm_columns tm, re_present = [], re_present2 = [], re_complete = True\<rparr>"
  define ev where "ev = (if one_image kind then ev0\<lparr>re_present := pack_bits fs\<rparr>
    else ev0\<lparr>re_present := pack_bits fs, re_present2 := pack_bits fs2\<rparr>)"
  define init where "init = bindA (read_table_id P) (\<lambda>table_id. case map_of table_map table_id of
        None \<Rightarrow> retA None
      | Some tm \<Rightarrow> if filtered_out filters (tm_schema tm) (tm_table tm) then retA None
          else bindA (read_rows_flags P ?t) (\<lambda>flags. bindA (read_length_coded_binary P) (\<lambda>number_of_columns.
               retA (Some \<lparr>re_event_type = ?t, re_event_size = event_size, re_table_id = table_id,
                 re_schema = tm_schema tm, re_table = tm_table tm, re_primary_key = tm_primary_key tm, re_flags = flags,
                 re_number_of_columns = number_of_columns, re_columns = tm_columns tm,
                 re_present = [], re_present2 = [], re_complete = True\<rparr>))))"
  have i: "reads rest init (rows_header (is_v2 ?t) table_id flags (length fs)) (Some ev0)"
    unfolding init_def rows_header_def
    by (rule reads_bind, rule reads_table_id [OF bounds(1)], unfold tm(1) option.case if_not_P [OF tm(2)], rule reads_bind,
        rule reads_flags [OF bounds(2)], rule reads_bind, rule reads_length_coded [OF bounds(3)], unfold ev0_def, rule reads_ret) simp_all
  define tail where "tail = (\<lambda>r :: rows_event option. case r of None \<Rightarrow> retA None
    | Some e \<Rightarrow> bindA (read_bitmap P (re_number_of_columns e)) (\<lambda>bm.
          if kind = WriteRows \<or> kind = DeleteRows then retA (Some (e\<lparr>re_present := bm\<rparr>))
          else bindA (read_bitmap P (re_number_of_columns e)) (\<lambda>bm2. retA (Some (e\<lparr>re_present := bm, re_present2 := bm2\<rparr>)))))"
  have n: "re_number_of_columns ev0 = Some (length fs)" by (simp add: ev0_def)
  have t: "reads rest (tail (Some ev0)) (pack_bits fs @ (if one_image kind then [] else pack_bits fs2)) (Some ev)"
    unfolding tail_def option.case n one_image_def [symmetric]
    by (rule reads_bind, rule reads_bitmap, rule refl)
      (auto simp: ev_def intro: reads_ret reads_map [OF reads_bitmap [OF fs2], of "\<lambda>bm2. Some (ev0\<lparr>re_present := pack_bits fs, re_present2 := bm2\<rparr>)", simplified])
  have "decodes rest (bindA init tail) (rows_header (is_v2 ?t) table_id flags (length fs)
      @ (pack_bits fs @ (if one_image kind then [] else pack_bits fs2))) (Some ev)"
    by (rule reads_decodes, rule reads_bind, rule i, rule t, rule refl)
  from decodesD [OF this w, of behind] pend obtain p where
    p: "bindA init tail w = (Inr (Some ev), taken (length (rows_header (is_v2 ?t) table_id flags (length fs)
        @ (pack_bits fs @ (if one_image kind then [] else pack_bits fs2)))) p w)" "rest p = behind" by auto
  have "new_rows_event P filters table_map kind event_size w = bindA init tail w"
    unfolding new_rows_event_def tail_def [symmetric] RowsEvent_init_def Let_def init_def by (simp add: bindA_def)
  then show ?thesis using p by (auto simp: ev_def ev0_def intro!: exI [of _ ev])
qed

lemma rows_event_decoded:
  assumes w: "pw_buffer w = []" "pw_read_bytes w = 0"
      "rest (pw_packet w) = encode_rows_event kind (is_v2 (pw_event_type w)) table_id flags fs fs2 rows @ behind"
    and kind: "kind \<noteq> PartialUpdateRows" "pw_event_type w \<noteq> PARTIAL_UPDATE_ROWS_EVENT"
    and tm: "map_of table_map table_id = Some tm" "\<not> filtered_out filters (tm_schema tm) (tm_table tm)"
    and bounds: "table_id < 2 ^ 48" "flags < 2 ^ 16" "length fs < 2 ^ 24" "length fs2 = length fs"
    and keys: "distinct (column_keys (tm_columns tm))" and fs: "True \<in> set fs"
    and rows: "\<And>r. r \<in> set rows \<Longrightarrow> row_ok L ign kind (tm_columns tm) fs fs2 r" "length rows \<le> rounds"
    and sz: "event_size = int (length (encode_rows_event kind (is_v2 (pw_event_type w)) table_id flags fs fs2 rows))"
  shows "\<exists>ev w1 rs w2. new_rows_event P filters table_map kind event_size w = (Inr (Some ev), w1)
    \<and> re_schema ev = tm_schema tm \<and> re_table ev = tm_table tm
    \<and> fetch_rows rounds L ign P kind ev w1 = (Inr rs, w2)
    \<and> map row_dicts rs = map (row_value kind (tm_columns tm)) rows
    \<and> rest (pw_packet w2) = behind \<and> pw_read_bytes w2 = event_size"
proof -
  let ?t = "pw_event_type w" and ?body = "concat (map (row_bytes kind) rows)"
  let ?head = "rows_header (is_v2 ?t) table_id flags (length fs) @ (pack_bits fs @ (if one_image kind then [] else pack_bits fs2))"
  have split: "encode_rows_event kind (is_v2 ?t) table_id flags fs fs2 rows = ?head @ ?body" by (simp add: encode_rows_event_def)
  have pend: "rest (pw_packet w) = rows_header (is_v2 ?t) table_id flags (length fs)
      @ (pack_bits fs @ (if one_image kind then [] else pack_bits fs2)) @ (?body @ behind)"
    using w(3) unfolding split by simp
  from new_event_made [OF w(1) pend tm bounds] obtain ev p where
    ev: "new_rows_event P filters table_map kind event_size w = (Inr (Some ev), taken (length ?head) p w)" "rest p = ?body @ behind"
      "re_table ev = tm_table tm" "re_schema ev = tm_schema tm" "re_columns ev = tm_columns tm" "re_event_type ev = ?t"
      "re_event_size ev = event_size" "re_complete ev" "re_present ev = pack_bits fs" "one_image kind \<or> re_present2 ev = pack_bits fs2"
    by blast
  have ok: "row_ok L ign kind (re_columns ev) fs fs2 r" if "r \<in> set rows" for r using rows(1) that by (simp add: ev(5))
  have t: "re_event_type ev \<noteq> PARTIAL_UPDATE_ROWS_EVENT" using kind(2) by (simp add: ev(6))
  have keys': "distinct (column_keys (re_columns ev))" using keys by (simp add: ev(5))
  have b1: "pw_buffer (taken (length ?head) p w) = []" using w(1) by simp
  have pk: "rest (pw_packet (taken (length ?head) p w)) = ?body @ behind" using ev(2) by simp
  have sz': "re_event_size ev = pw_read_bytes (taken (length ?head) p w) + int (length ?body)"
    unfolding ev(7) sz split taken_fields w(2) length_append of_nat_add by linarith
  from fetch_loop_rows [OF ok kind(1) t keys' ev(9,10) fs rows(2) b1 pk sz'] obtain rs q where
    q: "fetch_loop rounds L ign P kind ev [] (taken (length ?head) p w) = (Inr rs, taken (length ?body) q (taken (length ?head) p w))"
      "rest q = behind" "map row_dicts rs = map (row_value kind (tm_columns tm)) rows" unfolding ev(5) by blast
  have "fetch_rows rounds L ign P kind ev (taken (length ?head) p w) = (Inr rs, taken (length ?body) q (taken (length ?head) p w))"
    using q(1) ev(8) by (simp add: fetch_rows_def)
  moreover have "pw_read_bytes (taken (length ?body) q (taken (length ?head) p w)) = event_size"
    using sz' ev(7) by simp
  ultimately show ?thesis using ev(1,3,4) q(2,3) by (intro exI conjI) auto
qed

end

section \<open>Properties\<close>


text \<open>An update of one row of a table with an INT, a DECIMAL(4,2) and a nullable TINYINT.\<close>

definition sample_columns :: "column list" where
  "sample_columns = [(blank_column 3)\<lparr>col_name := Some ''id''\<rparr>,
     (blank_column 246)\<lparr>col_name := Some ''price'', col_precision := Some 4, col_decimals := Some 2\<rparr>,
     (blank_column 1)\<lparr>col_name := Some ''n''\<rparr>]"

definition sample_rows :: "(cell list \<times> cell list) list" where
  "sample_rows = [([Stored (le_bytes 4 5) (VInt 5), Stored (encode_decimal 4 2 True 1234) (VDecimal ''-12.34''), Null],
     [Stored (le_bytes 4 5) (VInt 5), Absent, Stored (le_bytes 1 7) (VInt 7)])]"

definition sample_event :: "byte list" where
  "sample_event = encode_rows_event UpdateRows True 9 1 [True, True, True] [True, False, True] sample_rows"

definition sample_wrapper :: "byte list wrapper" where
  "sample_wrapper = \<lparr>pw_packet = sample_event @ [1, 2, 3, 4], pw_read_bytes = 0, pw_buffer = [], pw_timestamp = 0,
     pw_event_type = 0x1F, pw_server_id = 1, pw_event_size = 0, pw_log_pos = 0, pw_flags = 0\<rparr>"

definition sample_row_lib :: row_lib where
  "sample_row_lib = \<lparr>rl_charset_by_name = (\<lambda>_. None), rl_decode = (\<lambda>_ _ _. Inl LookupError), rl_to_json = (\<lambda>_. Inl ValueError)\<rparr>"

definition no_filters :: event_filters where
  "no_filters = \<lparr>ef_only_tables = None, ef_ignored_tables = None, ef_only_schemas = None, ef_ignored_schemas = None\<rparr>"

lemma sample_rows_ok:
  "r \<in> set sample_rows \<Longrightarrow> row_ok sample_row_lib False UpdateRows sample_columns [True, True, True] [True, False, True] r"
proof -
  have i: "stored L ign c (le_bytes 4 5) (VInt 5)" if "col_type c = 3" "\<not> col_unsigned c" for L ign c
    using stored.signed_int [of c 4 5 L ign] that by (simp add: int_width_def)
  have n: "stored L ign c (le_bytes 1 7) (VInt 7)" if "col_type c = 1" "\<not> col_unsigned c" for L ign c
    using stored.signed_int [of c 1 7 L ign] that by (simp add: int_width_def)
  have "decimal_text True 1234 2 = ''-12.34''" by code_simp
  then have d: "stored L ign c (encode_decimal 4 2 True 1234) (VDecimal ''-12.34'')"
    if "col_type c = 246" "col_precision c = Some 4" "col_decimals c = Some 2" for L ign c
    using stored.decimal [of c 4 2 1234 L ign True] that by simp
  show "r \<in> set sample_rows \<Longrightarrow> ?thesis"
    by (simp add: sample_rows_def sample_columns_def row_ok_def image_ok_def present_flags_def blank_column_def
        i n [unfolded One_nat_def] d one_image_def del: le_bytes.simps)
qed


end
