(* ===== verification/ByteValues.thy ===== *)
theory ByteValues
  imports TimeCodec
begin

text \<open>
  The decoders of values in \<^verbatim>\<open>pymysqlreplication/util/bytes.py\<close>: decimals, which user variables are sent
  as, and the dates, times and floats of binary JSON. The decimals are those of the rows, so the two
  decoders must agree.
\<close>

section \<open>Decimals\<close>

text \<open>
  \<^verbatim>\<open>decode_decimal_decompress_value\<close>: the size and the number of a group that does not fill its
  nine digits. \<open>sgn_mask\<close> is 0 or -1.
\<close>

definition decompress_value :: "nat \<Rightarrow> byte list \<Rightarrow> int \<Rightarrow> (nat \<times> nat) res" where
  "decompress_value comp_indx data sgn_mask =
    bindE (nthE compressed_bytes comp_indx) (\<lambda>sz.
      if 0 < sz then
        (if length data < sz then Inl IndexError
         else Inr (sz, be_nat (map (\<lambda>b. b XOR of_int sgn_mask) (take sz data))))
      else Inr (0, 0))"

text \<open>The loop over whole groups: the text appended and the bytes behind it.\<close>

fun decimal_group_texts :: "nat \<Rightarrow> int \<Rightarrow> byte list \<Rightarrow> string \<Rightarrow> (string \<times> byte list) res" where
  "decimal_group_texts 0 sgn_mask data res = Inr (res, data)"
| "decimal_group_texts (Suc k) sgn_mask data res =
    bindE (unpack_be_signed 4 (take 4 data)) (\<lambda>v.
      decimal_group_texts k sgn_mask (drop 4 data) (res @ format_0d 9 (v XOR sgn_mask)))"

definition parse_decimal_from_bytes :: "byte list \<Rightarrow> nat \<Rightarrow> nat \<Rightarrow> py_val res" where
  "parse_decimal_from_bytes raw_decimal precision decimals =
    (let integral = int precision - int decimals;
         uncomp_integral = integral div 9; comp_integral = integral mod 9;
         uncomp_fractional = decimals div 9; comp_fractional = decimals mod 9
     in bindE (nthE raw_decimal 0) (\<lambda>b.
        let res0 = (if unat b AND 0x80 = 0 then ''-'' else []);
            sgn_mask = (if res0 = ''-'' then - 1 else 0);
            raw = (b XOR 0x80) # tl raw_decimal
        in bindE (decompress_value (nat comp_integral) raw sgn_mask) (\<lambda>(pointer, v).
           bindE (decimal_group_texts (nat uncomp_integral) sgn_mask (drop pointer raw) (res0 @ str_nat v)) (\<lambda>(res1, data1).
           bindE (decimal_group_texts uncomp_fractional sgn_mask data1 (res1 @ ''.'')) (\<lambda>(res2, data2).
           bindE (decompress_value comp_fractional data2 sgn_mask) (\<lambda>(sz, v2).
           py_decimal (if 0 < sz then res2 @ format_0d comp_fractional (int v2) else res2)))))))"

definition decode_decimal :: "byte list \<Rightarrow> py_val res" where
  "decode_decimal data =
    bindE (nthE data 0) (\<lambda>p. bindE (nthE data 1) (\<lambda>d. parse_decimal_from_bytes (drop 2 data) (unat p) (unat d)))"

section \<open>Dates and times\<close>

text \<open>\<^verbatim>\<open>datetime.time\<close> as hour, minute, second and microsecond.\<close>

definition new_time :: "int \<Rightarrow> int \<Rightarrow> int \<Rightarrow> int \<Rightarrow> (int \<times> int \<times> int \<times> int) res" where
  "new_time h m s us = (if clock_ok h m s \<and> 0 \<le> us \<and> us < 1000000 then Inr (h, m, s, us) else Inl ValueError)"

definition decode_time :: "byte list \<Rightarrow> (int \<times> int \<times> int \<times> int) res" where
  "decode_time data =
    bindE (parse_int64 data) (\<lambda>v0.
      if v0 = 0 then new_time 0 0 0 0
      else
        let v = (if v0 < 0 then - v0 else v0);
            int_part = drop_bit 24 v;
            hour = drop_bit 12 int_part mod push_bit 10 1;
            minute = drop_bit 6 int_part mod push_bit 6 1;
            sec = int_part mod push_bit 6 1;
            frac = v mod push_bit 24 1
        in new_time hour minute sec frac)"

definition decode_datetime :: "byte list \<Rightarrow> py_val res" where
  "decode_datetime data =
    bindE (parse_int64 data) (\<lambda>v0.
      if v0 = 0 then Inr (VStr ''0000-00-00 00:00:00'')
      else
        let v = (if v0 < 0 then - v0 else v0);
            int_part = drop_bit 24 v;
            ymd = drop_bit 17 int_part;
            ym = drop_bit 5 ymd;
            hms = int_part mod push_bit 17 1;
            frac = v mod push_bit 24 1
        in bindE (new_datetime (ym div 13) (ym mod 13) (ymd mod push_bit 5 1)
               (drop_bit 12 hms) (drop_bit 6 hms mod push_bit 6 1) (hms mod push_bit 6 1)) (\<lambda>t.
             replace_microsecond t frac))"

definition parse_double :: "byte list \<Rightarrow> py_val res" where
  "parse_double data = bindE (unpack_le 8 (take 8 data)) (\<lambda>n. Inr (VFloat (of_nat n)))"

section \<open>Agreement with the rows\<close>

lemma xor_mask_flip: "map (\<lambda>b. b XOR of_int (if neg then - 1 else 0)) bs = flip_bytes neg bs" for bs :: "byte list"
  by (simp add: flip_bytes_def)

lemma flip_flip: "flip_bytes neg (flip_bytes neg bs) = bs"
  by (simp add: flip_bytes_def comp_def)

lemma decompress_flipped:
  assumes "c < 10" "v < 10 ^ c"
  shows "decompress_value c (flip_bytes neg (be_bytes (compressed_bytes ! c) v) @ data) (if neg then - 1 else 0)
    = Inr (if 0 < c then (compressed_bytes ! c, v) else (0, 0))"
proof -
  have nth: "nthE compressed_bytes c = Inr (compressed_bytes ! c)" using item_compressed [OF assms(1)] by (simp add: item_def)
  have "2 * v < 256 ^ (compressed_bytes ! c)" by (rule compressed_fit [OF assms])
  then have "be_nat (be_bytes (compressed_bytes ! c) v) = v" by (intro be_nat_be_bytes) (simp flip: pow_256)
  then show ?thesis using compressed_size(2) [OF assms(1)] nth
    by (simp add: decompress_value_def xor_mask_flip flip_flip)
qed

lemma decimal_group_texts_flipped:
  "m < 10 ^ (9 * k) \<Longrightarrow> decimal_group_texts k (if neg then - 1 else 0) (flip_bytes neg (decimal_groups k m) @ data) res
     = Inr (res @ group_text k m, data)"
proof (induction k arbitrary: m res)
  case (Suc k)
  let ?v = "m div 10 ^ (9 * k)"
  have "m < 10 ^ (9 + 9 * k)" using Suc.prems by (simp only: mult_Suc_right)
  then have "?v < 10 ^ 9" by (rule div_pow_less)
  then have v: "2 * ?v < 256 ^ 4" and v4: "0 < (4 :: nat)" by simp_all
  have "format_0d 9 (to_signed 4 (be_nat (flip_bytes neg (be_bytes 4 ?v))) XOR (if neg then - 1 else 0)) = pad0 9 (str_nat ?v)"
    using signed_flip [OF v v4, of neg] by (simp add: format_0d_def del: of_nat_div)
  then show ?case using Suc.IH [of "m mod 10 ^ (9 * k)"]
    by (simp add: flip_append unpack_be_signed_def unpack_be_def)
qed (simp add: flip_bytes_def)

text \<open>The two decoders give the same decimal.\<close>

lemma parse_decimal_encode:
  assumes "d \<le> p" "0 < p" "n < 10 ^ p"
  shows "parse_decimal_from_bytes (encode_decimal p d neg n) p d = Inr (VDecimal (decimal_text neg n d))"
proof -
  let ?i = "p - d" and ?mask = "if neg then - 1 else (0 :: int)"
  let ?ip = "n div 10 ^ d" and ?fp = "n mod 10 ^ d"
  note ip = decimal_parts(1) [OF assms(3,1)] and fp = decimal_parts(2) [OF assms(3,1)]
  have m9: "e mod 9 < 10" for e :: nat using mod_less_divisor [of 9 e] by linarith
  obtain b bs where b: "flip_bytes neg (decimal_body p d n) = b # bs"
    using decimal_body_ne [OF assms(2,1)] by (cases "flip_bytes neg (decimal_body p d n)") auto
  have enc: "encode_decimal p d neg n = (b XOR 0x80) # bs" by (simp add: encode_decimal_def b)
  let ?top = "?ip div 10 ^ (9 * (?i div 9))" and ?groups = "?ip mod 10 ^ (9 * (?i div 9))"
  let ?fgroups = "?fp div 10 ^ (d mod 9)" and ?low = "?fp mod 10 ^ (d mod 9)"
  note si = split_groups [OF ip] and sf = split_groups [OF fp]
  define G1 where "G1 = flip_bytes neg (decimal_groups (?i div 9) ?groups)"
  define G2 where "G2 = flip_bytes neg (decimal_groups (d div 9) ?fgroups)"
  define A where "A = flip_bytes neg (be_bytes (compressed_bytes ! (?i mod 9)) ?top)"
  define B where "B = flip_bytes neg (be_bytes (compressed_bytes ! (d mod 9)) ?low)"
  have body: "b # bs = A @ G1 @ G2 @ B"
    unfolding A_def B_def G1_def G2_def b [symmetric] decimal_body_def Let_def flip_append by simp
  have top: "decompress_value (?i mod 9) (b # bs) ?mask = Inr (if 0 < ?i mod 9 then (compressed_bytes ! (?i mod 9), ?top) else (0, 0))"
    unfolding body A_def by (rule decompress_flipped [OF m9 si(1)])
  have low: "decompress_value (d mod 9) B ?mask = Inr (if 0 < d mod 9 then (compressed_bytes ! (d mod 9), ?low) else (0, 0))"
    unfolding B_def using decompress_flipped [OF m9 sf(4), where data = "[]"] by simp
  have A: "drop (if 0 < ?i mod 9 then compressed_bytes ! (?i mod 9) else 0) (b # bs) = G1 @ G2 @ B"
    unfolding body A_def using compressed_size(2) [OF m9, of ?i] by (auto simp: be_bytes_def)
  define itext where "itext = str_nat (if 0 < ?i mod 9 then ?top else 0) @ group_text (?i div 9) ?groups"
  have it: "digits_val itext = ?ip" "list_all is_digit itext" "itext \<noteq> []"
  proof -
    have z: "?top = 0" if "?i mod 9 = 0" using si(1) that by simp
    note f = int_text_facts [OF ip] and g = group_text_facts [OF si(2)]
    have zero: "str_nat 0 = ''0''" by code_simp
    have lead: "digits_val (CHR ''0'' # s) = digits_val s" for s using digits_val_zeros [of 1 s] by simp
    show "digits_val itext = ?ip"
      using f(1) unfolding itext_def int_text_def by (cases "?i mod 9 = 0") (simp_all add: digits_val_append zero lead)
    show "list_all is_digit itext" using g digits_str_nat by (auto simp: itext_def digits_def)
    show "itext \<noteq> []" using digits_str_nat by (simp add: itext_def digits_def)
  qed
  note ft = frac_text_facts [OF fp]
  have neg: "unat (b XOR 0x80) AND 0x80 = 0 \<longleftrightarrow> neg"
    using flip_top [of b] flipped_head [OF b decimal_body_head [OF assms(1,3)] decimal_body_ne [OF assms(2,1)]] by auto
  have x: "(b XOR 0x80) XOR 0x80 = b" by (simp add: xor.assoc)
  have i: "int p - int d = int ?i" "nat (int ?i mod 9) = ?i mod 9" "nat (int ?i div 9) = ?i div 9"
    using assms(1) by (simp_all add: nat_mod_as_int nat_div_as_int of_nat_diff)
  have dec: "py_decimal ((if neg then ''-'' else []) @ itext @ ''.'' @ frac_text d ?fp)
      = Inr (VDecimal (decimal_text neg n d))"
    using py_decimal_text [OF it(2) ft(3)] it(1,3) ft(1,2) by (simp add: div_mult_mod_eq del: mult_div_mod_eq)

  define z where "z = (if 0 < ?i mod 9 then compressed_bytes ! (?i mod 9) else 0)"
  define v where "v = (if 0 < ?i mod 9 then ?top else 0)"
  define z2 where "z2 = (if 0 < d mod 9 then compressed_bytes ! (d mod 9) else 0)"
  define v2 where "v2 = (if 0 < d mod 9 then ?low else 0)"
  have top': "decompress_value (?i mod 9) (b # bs) ?mask = Inr (z, v)" using top by (simp add: z_def v_def)
  have low': "decompress_value (d mod 9) B ?mask = Inr (z2, v2)" using low by (simp add: z2_def v2_def)
  have last: "(if 0 < z2 then t @ format_0d (d mod 9) (int v2) else t) =
      t @ (if 0 < d mod 9 then pad0 (d mod 9) (str_nat ?low) else [])" for t
    using compressed_size(2) [OF m9, of d] by (cases "d mod 9 = 0") (simp_all add: z2_def v2_def format_0d_def del: of_nat_mod)
  have groups: "decimal_group_texts (?i div 9) ?mask (drop z (b # bs)) (s @ str_nat v) = Inr (s @ itext, G2 @ B)" for s
    unfolding A [folded z_def] G1_def decimal_group_texts_flipped [OF si(2)] by (simp add: itext_def v_def)
  have fgroups: "decimal_group_texts (d div 9) ?mask (G2 @ B) s = Inr (s @ group_text (d div 9) ?fgroups, B)" for s
    unfolding G2_def by (rule decimal_group_texts_flipped [OF sf(3)])
  have mask: "(if (if neg then ''-'' else []) = ''-'' then - 1 else 0) = ?mask" by simp
  show ?thesis
    unfolding enc parse_decimal_from_bytes_def Let_def nthE_def i
    using dec top' low' groups [of "''-''"] groups [of "[]"] fgroups
    by (cases neg) (simp_all add: neg x last frac_text_def del: drop_Cons')
qed

end
