(* ===== verification/Events.thy ===== *)
theory Events
  imports RowCodec ByteValues Gtid
begin

text \<open>
  The events of \<^verbatim>\<open>pymysqlreplication/event.py\<close>: what each constructor reads from the packet. Attributes
  that exist only for some events are in the constructor of the datatype for the event; the status
  variables of a query are set as attributes by name. \<^verbatim>\<open>bytes.decode\<close> is the parameter of \<^typ>\<open>row_lib\<close>.
  \<^verbatim>\<open>dump\<close> and \<^verbatim>\<open>to_json\<close> print and are not modelled.
\<close>

section \<open>Loops up to a position\<close>

text \<open>
  \<^verbatim>\<open>while self.packet.read_bytes < end\<close> around a reader, for at most \<open>rounds\<close> values, and the loop over
  the next \<open>len\<close> bytes.
\<close>

fun read_before :: "nat \<Rightarrow> int \<Rightarrow> ('p wrapper, 'a) act \<Rightarrow> ('p wrapper, 'a list) act" where
  "read_before 0 until m = (\<lambda>w. if pw_read_bytes w < until then (Inl LoopBound, w) else (Inr [], w))"
| "read_before (Suc rounds) until m = (\<lambda>w.
    if pw_read_bytes w < until then bindA m (\<lambda>x. bindA (read_before rounds until m) (\<lambda>xs. retA (x # xs))) w
    else (Inr [], w))"

definition read_items :: "nat \<Rightarrow> nat \<Rightarrow> ('p wrapper, 'a) act \<Rightarrow> ('p wrapper, 'a list) act" where
  "read_items rounds len m = (\<lambda>w. read_before rounds (pw_read_bytes w + int len) m w)"

text \<open>\<^verbatim>\<open>for _ in range(n)\<close> around a reader.\<close>

primrec read_times :: "nat \<Rightarrow> ('p wrapper, 'a) act \<Rightarrow> ('p wrapper, 'a list) act" where
  "read_times 0 m = retA []"
| "read_times (Suc n) m = bindA m (\<lambda>x. bindA (read_times n m) (\<lambda>xs. retA (x # xs)))"

section \<open>Data\<close>

type_synonym attributes = "(string, py_val) dict"

record query_event =
  q_slave_proxy_id :: nat
  q_execution_time :: nat
  q_error_code :: nat
  q_status_vars :: attributes
  q_schema :: "byte list"
  q_query :: string

record format_description =
  fd_binlog_version :: nat
  fd_mysql_version_str :: string
  fd_mysql_version :: "int list"
  fd_created :: nat
  fd_common_header_len :: nat
  fd_post_header_len :: "byte list"
  fd_server_version_split :: "byte list"
  fd_number_of_event_types :: nat

record user_var =
  uv_name :: string
  uv_is_null :: nat
  uv_type :: "nat option"
  uv_charset :: "nat option"
  uv_value_len :: "nat option"
  uv_value :: py_val
  uv_flags :: "nat option"

text \<open>A transaction identifier of MariaDB: domain, server and sequence number.\<close>

type_synonym mariadb_gtid = "nat \<times> nat \<times> nat"

datatype event_body =
    GtidBody (gtid_commit_flag: bool) (gtid_sid_bytes: "byte list") (gtid_gno: nat) (gtid_lt_type: nat)
      (gtid_logical_clock: "(nat \<times> nat) option")
  | PreviousGtidsBody string
  | MariadbGtidBody mariadb_gtid nat
  | CheckpointBody string
  | AnnotateRowsBody "byte list"
  | GtidListBody "mariadb_gtid list"
  | RotateBody nat string
  | XAPrepareBody bool nat "byte list" "byte list"
  | FormatDescriptionBody format_description
  | StopBody
  | XidBody nat
  | HeartbeatBody string
  | QueryBody query_event
  | BeginLoadQueryBody nat "byte list"
  | ExecuteLoadQueryBody "nat list"
  | IntvarBody nat nat
  | RandBody nat nat
  | UserVarBody user_var
  | StartEncryptionBody nat nat "byte list"
  | RowsQueryBody string
  | NotImplementedBody

section \<open>The base class\<close>

text \<open>\<^verbatim>\<open>zlib.crc32\<close>: the reflected polynomial, bit by bit.\<close>

definition crc_bit :: "32 word \<Rightarrow> 32 word" where
  "crc_bit c = (if c AND 1 \<noteq> 0 then drop_bit 1 c XOR 0xEDB88320 else drop_bit 1 c)"

definition crc32 :: "byte list \<Rightarrow> 32 word" where
  "crc32 bs = NOT (foldl (\<lambda>c b. (crc_bit ^^ 8) (c XOR ucast b)) (- 1) bs)"

text \<open>
  \<^verbatim>\<open>_verify_event\<close>: the whole event is read from its first byte, compared with the checksum behind it,
  and the packet is put back to the body. The result is \<^verbatim>\<open>_is_event_valid\<close>; an invalid event is
  only logged.
\<close>

definition verify_event :: "'p packet_ops \<Rightarrow> bool \<Rightarrow> int \<Rightarrow> ('p wrapper, bool option) act" where
  "verify_event P verify_checksum event_size =
    (if \<not> verify_checksum then retA None
     else bindA (on_packet (pk_rewind P 1)) (\<lambda>_. bindA (packet_read P (19 + event_size)) (\<lambda>data.
       bindA (packet_read P 4) (\<lambda>footer.
       bindA (modifyA (\<lambda>w. w\<lparr>pw_read_bytes := pw_read_bytes w - (19 + event_size + 4)\<rparr>)) (\<lambda>_.
       bindA (on_packet (pk_rewind P 20)) (\<lambda>_. retA (Some (le_bytes 4 (unat (crc32 data)) = footer))))))))"

text \<open>\<^verbatim>\<open>bytes.decode()\<close>.\<close>

definition utf8 :: "row_lib \<Rightarrow> byte list \<Rightarrow> string res" where
  "utf8 L bs = rl_decode L ''utf-8'' ''strict'' bs"

definition read_text :: "row_lib \<Rightarrow> 'p packet_ops \<Rightarrow> int \<Rightarrow> ('p wrapper, string) act" where
  "read_text L P n = bindA (packet_read P n) (\<lambda>bs. pureA (utf8 L bs))"

section \<open>Global transaction identifiers\<close>

text \<open>Tuples compare lexicographically.\<close>

fun version_at_least :: "int list \<Rightarrow> int list \<Rightarrow> bool" where
  "version_at_least v [] = True"
| "version_at_least [] (y # ys) = False"
| "version_at_least (x # xs) (y # ys) = (y < x \<or> x = y \<and> version_at_least xs ys)"

definition new_gtid_event :: "'p packet_ops \<Rightarrow> int list \<Rightarrow> ('p wrapper, event_body) act" where
  "new_gtid_event P mysql_version =
    bindA (read_uint8 P) (\<lambda>flag. bindA (packet_read P 16) (\<lambda>sid. bindA (read_uint64 P) (\<lambda>gno.
    bindA (packet_read P 1) (\<lambda>bs. bindA (pureA (nthE bs 0)) (\<lambda>b. let lt_type = unat b in
    if version_at_least mysql_version [5, 7] then
      bindA (read_uint64 P) (\<lambda>last_committed. bindA (read_uint64 P) (\<lambda>sequence_number.
      retA (GtidBody (flag = 1) sid gno lt_type (Some (last_committed, sequence_number)))))
    else retA (GtidBody (flag = 1) sid gno lt_type None))))))"

text \<open>The groups of hexadecimal digits of an identifier, separated by hyphens.\<close>

definition sid_text :: "byte list \<Rightarrow> string" where
  "sid_text sid =
    (let nibbles = hexlify sid in
     take 8 nibbles @ ''-'' @ take 4 (drop 8 nibbles) @ ''-'' @ take 4 (drop 12 nibbles) @ ''-''
       @ take 4 (drop 16 nibbles) @ ''-'' @ drop 20 nibbles)"

fun gtid_text :: "event_body \<Rightarrow> string" where
  "gtid_text (GtidBody flag sid gno lt clock) = sid_text sid @ '':'' @ str_nat gno"
| "gtid_text _ = []"

text \<open>The text of a Python list of texts without quotes or backslashes.\<close>

definition list_repr :: "string list \<Rightarrow> string" where
  "list_repr xs = ''['' @ join '', '' (map (\<lambda>x. [CHR 0x27] @ x @ [CHR 0x27]) xs) @ '']''"

definition read_interval :: "'p packet_ops \<Rightarrow> ('p wrapper, string) act" where
  "read_interval P = bindA (read_int64 P) (\<lambda>a. bindA (read_uint64 P) (\<lambda>b. retA (str_int a @ ''-'' @ str_nat b)))"

definition read_previous_gtid :: "'p packet_ops \<Rightarrow> ('p wrapper, string) act" where
  "read_previous_gtid P =
    bindA (packet_read P 16) (\<lambda>sid. bindA (read_uint64 P) (\<lambda>n_intervals.
    bindA (read_times n_intervals (read_interval P)) (\<lambda>intervals.
    retA (sid_text sid @ ''-'' @ '':'' @ list_repr intervals))))"

definition new_previous_gtids_event :: "'p packet_ops \<Rightarrow> ('p wrapper, event_body) act" where
  "new_previous_gtids_event P =
    bindA (read_int64 P) (\<lambda>n_sid. bindA (read_times (nat n_sid) (read_previous_gtid P)) (\<lambda>gtids.
    retA (PreviousGtidsBody (join '','' gtids))))"

section \<open>MariaDB\<close>

fun mariadb_gtid_text :: "mariadb_gtid \<Rightarrow> string" where
  "mariadb_gtid_text (domain_id, server_id, seq_no) = str_nat domain_id @ ''-'' @ str_nat server_id @ ''-'' @ str_nat seq_no"

definition new_mariadb_gtid_event :: "'p packet_ops \<Rightarrow> ('p wrapper, event_body) act" where
  "new_mariadb_gtid_event P = (\<lambda>w. let server_id = pw_server_id w in
    bindA (read_uint64 P) (\<lambda>seq_no. bindA (read_uint32 P) (\<lambda>domain_id. bindA (read_uint8 P) (\<lambda>flags.
    retA (MariadbGtidBody (domain_id, server_id, seq_no) flags)))) w)"

definition new_checkpoint_event :: "row_lib \<Rightarrow> 'p packet_ops \<Rightarrow> ('p wrapper, event_body) act" where
  "new_checkpoint_event L P =
    bindA (read_uint32 P) (\<lambda>n. bindA (read_text L P (int n)) (\<lambda>filename. retA (CheckpointBody filename)))"

definition new_annotate_rows_event :: "'p packet_ops \<Rightarrow> int \<Rightarrow> ('p wrapper, event_body) act" where
  "new_annotate_rows_event P event_size = bindA (packet_read P event_size) (\<lambda>sql. retA (AnnotateRowsBody sql))"

text \<open>The elements are events themselves, so that each of them verifies the checksum and rewinds the packet.\<close>

definition read_mariadb_gtid :: "'p packet_ops \<Rightarrow> bool \<Rightarrow> int \<Rightarrow> ('p wrapper, mariadb_gtid) act" where
  "read_mariadb_gtid P verify_checksum event_size =
    bindA (verify_event P verify_checksum event_size) (\<lambda>_.
    bindA (read_uint32 P) (\<lambda>domain_id. bindA (read_uint32 P) (\<lambda>server_id. bindA (read_uint64 P) (\<lambda>seq_no.
    retA (domain_id, server_id, seq_no)))))"

definition new_gtid_list_event :: "'p packet_ops \<Rightarrow> bool \<Rightarrow> int \<Rightarrow> ('p wrapper, event_body) act" where
  "new_gtid_list_event P verify_checksum event_size =
    bindA (read_uint32 P) (\<lambda>n. bindA (read_times n (read_mariadb_gtid P verify_checksum event_size)) (\<lambda>gtids.
    retA (GtidListBody gtids)))"

definition new_start_encryption_event :: "'p packet_ops \<Rightarrow> ('p wrapper, event_body) act" where
  "new_start_encryption_event P =
    bindA (read_uint8 P) (\<lambda>schema. bindA (read_uint32 P) (\<lambda>key_version. bindA (packet_read P 12) (\<lambda>nonce.
    retA (StartEncryptionBody schema key_version nonce))))"

section \<open>The log and its transactions\<close>

definition new_rotate_event :: "row_lib \<Rightarrow> 'p packet_ops \<Rightarrow> int \<Rightarrow> ('p wrapper, event_body) act" where
  "new_rotate_event L P event_size =
    bindA (read_uint64 P) (\<lambda>position. bindA (read_text L P (event_size - 8)) (\<lambda>next_binlog.
    retA (RotateBody position next_binlog)))"

definition new_xa_prepare_event :: "'p packet_ops \<Rightarrow> ('p wrapper, event_body) act" where
  "new_xa_prepare_event P =
    bindA (packet_read P 1) (\<lambda>b. bindA (read_uint32 P) (\<lambda>xid_format_id.
    bindA (read_uint32 P) (\<lambda>gtrid_length. bindA (read_uint32 P) (\<lambda>bqual_length.
    bindA (packet_read P (int gtrid_length)) (\<lambda>gtrid. bindA (packet_read P (int bqual_length)) (\<lambda>bqual.
    retA (XAPrepareBody (b \<noteq> [0]) xid_format_id gtrid bqual)))))))"

text \<open>The property \<^verbatim>\<open>xid\<close>.\<close>

definition xid_text :: "row_lib \<Rightarrow> byte list \<Rightarrow> byte list \<Rightarrow> string res" where
  "xid_text L gtrid bqual = bindE (utf8 L gtrid) (\<lambda>a. bindE (utf8 L bqual) (\<lambda>b. Inr (a @ b)))"

definition strip_zeros :: "byte list \<Rightarrow> byte list" where
  "strip_zeros bs = rev (dropWhile (\<lambda>b. b = 0) (rev bs))"

definition parse_version :: "string \<Rightarrow> int list res" where
  "parse_version s = mapE py_int (split_char CHR ''.'' (hd (split_char CHR ''-'' s)))"

text \<open>\<^verbatim>\<open>binlog_version\<close> is a tuple of one number in the code.\<close>

definition new_format_description_event :: "row_lib \<Rightarrow> 'p packet_ops \<Rightarrow> int \<Rightarrow> ('p wrapper, event_body) act" where
  "new_format_description_event L P event_size =
    bindA (read_uint16 P) (\<lambda>binlog_version. bindA (packet_read P 50) (\<lambda>vs.
    bindA (pureA (utf8 L (strip_zeros vs))) (\<lambda>version_str. bindA (pureA (parse_version version_str)) (\<lambda>version.
    bindA (read_uint32 P) (\<lambda>created. bindA (read_uint8 P) (\<lambda>common_header_len.
    let n = event_size - 57 - int common_header_len - 1 - 4 in
    bindA (packet_read P n) (\<lambda>post_header_len. bindA (packet_read P 3) (\<lambda>split. bindA (read_uint8 P) (\<lambda>types.
    retA (FormatDescriptionBody \<lparr>fd_binlog_version = binlog_version, fd_mysql_version_str = version_str,
      fd_mysql_version = version, fd_created = created, fd_common_header_len = common_header_len,
      fd_post_header_len = post_header_len, fd_server_version_split = split, fd_number_of_event_types = types\<rparr>))))))))))"

definition new_xid_event :: "'p packet_ops \<Rightarrow> ('p wrapper, event_body) act" where
  "new_xid_event P = bindA (read_uint64 P) (\<lambda>xid. retA (XidBody xid))"

definition new_heartbeat_event :: "row_lib \<Rightarrow> 'p packet_ops \<Rightarrow> int \<Rightarrow> ('p wrapper, event_body) act" where
  "new_heartbeat_event L P event_size = bindA (read_text L P event_size) (\<lambda>ident. retA (HeartbeatBody ident))"

section \<open>Queries\<close>

text \<open>The keys of \<^verbatim>\<open>constants/STATUS_VAR_KEY.py\<close> are the numbers in the cases below.\<close>

definition read_attr :: "string \<Rightarrow> ('p wrapper, nat) act \<Rightarrow> ('p wrapper, (string \<times> py_val) list) act" where
  "read_attr nm m = bindA m (\<lambda>n. retA [(nm, VInt (int n))])"

definition read_sized_attr :: "'p packet_ops \<Rightarrow> string \<Rightarrow> ('p wrapper, (string \<times> py_val) list) act" where
  "read_sized_attr P nm =
    bindA (read_uint8 P) (\<lambda>len. if len \<noteq> 0 then bindA (packet_read P (int len)) (\<lambda>bs. retA [(nm, VBytes bs)]) else retA [])"

definition both_attrs ::
    "('p wrapper, (string \<times> py_val) list) act \<Rightarrow> ('p wrapper, (string \<times> py_val) list) act \<Rightarrow> ('p wrapper, (string \<times> py_val) list) act" where
  "both_attrs m1 m2 = bindA m1 (\<lambda>xs. bindA m2 (\<lambda>ys. retA (xs @ ys)))"

text \<open>\<^verbatim>\<open>_read_status_vars_value_for_key\<close>: the attributes set, in order.\<close>

definition read_status_var :: "nat \<Rightarrow> 'p packet_ops \<Rightarrow> nat \<Rightarrow> ('p wrapper, (string \<times> py_val) list) act" where
  "read_status_var rounds P key =
    (if key = 0 then read_attr ''flags2'' (read_uint32 P)
     else if key = 1 then read_attr ''sql_mode'' (read_uint64 P)
     else if key = 2 then retA []
     else if key = 3 then
       both_attrs (read_attr ''auto_increment_increment'' (read_uint16 P)) (read_attr ''auto_increment_offset'' (read_uint16 P))
     else if key = 4 then
       both_attrs (read_attr ''character_set_client'' (read_uint16 P))
         (both_attrs (read_attr ''collation_connection'' (read_uint16 P)) (read_attr ''collation_server'' (read_uint16 P)))
     else if key = 5 then read_sized_attr P ''time_zone''
     else if key = 6 then read_sized_attr P ''catalog_nz_code''
     else if key = 7 then read_attr ''lc_time_names_number'' (read_uint16 P)
     else if key = 8 then read_attr ''charset_database_number'' (read_uint16 P)
     else if key = 9 then read_attr ''table_map_for_update'' (read_uint64 P)
     else if key = 10 then retA []
     else if key = 11 then both_attrs (read_sized_attr P ''user'') (read_sized_attr P ''host'')
     else if key = 12 then
       bindA (read_uint8 P) (\<lambda>mts_accessed_dbs.
         if mts_accessed_dbs = 254 then retA []
         else bindA (read_times mts_accessed_dbs (read_string rounds P)) (\<lambda>dbs.
              retA [(''mts_accessed_db_names'', VList (map VBytes dbs))]))
     else if key = 13 then read_attr ''microseconds'' (read_uint24 P)
     else if key = 14 \<or> key = 15 then retA []
     else if key = 16 then read_attr ''explicit_defaults_ts'' (read_uint8 P)
     else if key = 17 then read_attr ''ddl_xid'' (read_uint64 P)
     else if key = 18 then read_attr ''default_collation_for_utf8mb4_number'' (read_uint16 P)
     else if key = 19 then read_attr ''sql_require_primary_key'' (read_uint8 P)
     else if key = 20 then read_attr ''default_table_encryption'' (read_uint8 P)
     else if key = 128 then read_attr ''hrnow'' (read_uint24 P)
     else if key = 129 then read_attr ''xid'' (read_uint64 P)
     else raiseA (PyException ''StatusVariableMismatch''))"

definition read_one_status_var :: "nat \<Rightarrow> 'p packet_ops \<Rightarrow> ('p wrapper, (string \<times> py_val) list) act" where
  "read_one_status_var rounds P = bindA (read_uint8 P) (\<lambda>key. read_status_var rounds P key)"

definition set_attributes :: "(string \<times> py_val) list \<Rightarrow> attributes" where
  "set_attributes xs = fold (\<lambda>(k, v). AList.update k v) xs []"

definition new_query_event :: "nat \<Rightarrow> row_lib \<Rightarrow> 'p packet_ops \<Rightarrow> int \<Rightarrow> ('p wrapper, event_body) act" where
  "new_query_event rounds L P event_size =
    bindA (read_uint32 P) (\<lambda>slave_proxy_id. bindA (read_uint32 P) (\<lambda>execution_time.
    bindA (packet_read P 1) (\<lambda>bs. bindA (pureA (unpack_be 1 bs)) (\<lambda>schema_length.
    bindA (read_uint16 P) (\<lambda>error_code. bindA (read_uint16 P) (\<lambda>status_vars_length.
    bindA (read_items rounds status_vars_length (read_one_status_var rounds P)) (\<lambda>vars.
    bindA (packet_read P (int schema_length)) (\<lambda>schema. bindA (packet_advance P 1) (\<lambda>_.
    bindA (packet_read P (event_size - 13 - int status_vars_length - int schema_length - 1)) (\<lambda>qs.
    bindA (pureA (rl_decode L ''utf-8'' ''backslashreplace'' qs)) (\<lambda>query.
    retA (QueryBody \<lparr>q_slave_proxy_id = slave_proxy_id, q_execution_time = execution_time, q_error_code = error_code,
      q_status_vars = set_attributes (concat vars), q_schema = schema, q_query = query\<rparr>))))))))))))"

section \<open>Loading of files\<close>

definition new_begin_load_query_event :: "'p packet_ops \<Rightarrow> int \<Rightarrow> ('p wrapper, event_body) act" where
  "new_begin_load_query_event P event_size =
    bindA (read_uint32 P) (\<lambda>file_id. bindA (packet_read P (event_size - 4)) (\<lambda>block. retA (BeginLoadQueryBody file_id block)))"

text \<open>
  The nine numbers in the order they are read: \<^verbatim>\<open>slave_proxy_id\<close>, \<^verbatim>\<open>execution_time\<close>, \<^verbatim>\<open>schema_length\<close>,
  \<^verbatim>\<open>error_code\<close>, \<^verbatim>\<open>status_vars_length\<close>, \<^verbatim>\<open>file_id\<close>, \<^verbatim>\<open>start_pos\<close>, \<^verbatim>\<open>end_pos\<close> and \<^verbatim>\<open>dup_handling_flags\<close>.
\<close>

primrec read_each :: "('p wrapper, 'a) act list \<Rightarrow> ('p wrapper, 'a list) act" where
  "read_each [] = retA []"
| "read_each (m # ms) = bindA m (\<lambda>x. bindA (read_each ms) (\<lambda>xs. retA (x # xs)))"

definition new_execute_load_query_event :: "'p packet_ops \<Rightarrow> ('p wrapper, event_body) act" where
  "new_execute_load_query_event P =
    bindA (read_each [read_uint32 P, read_uint32 P, read_uint8 P, read_uint16 P, read_uint16 P, read_uint32 P,
        read_uint32 P, read_uint32 P, read_uint8 P]) (\<lambda>ns. retA (ExecuteLoadQueryBody ns))"

section \<open>Variables\<close>

definition new_intvar_event :: "'p packet_ops \<Rightarrow> ('p wrapper, event_body) act" where
  "new_intvar_event P = bindA (read_uint8 P) (\<lambda>t. bindA (read_uint32 P) (\<lambda>v. retA (IntvarBody t v)))"

definition new_rand_event :: "'p packet_ops \<Rightarrow> ('p wrapper, event_body) act" where
  "new_rand_event P = bindA (read_uint64 P) (\<lambda>seed1. bindA (read_uint64 P) (\<lambda>seed2. retA (RandBody seed1 seed2)))"

text \<open>
  The value of a user variable by its type. \<^verbatim>\<open>_read_default\<close>, the reader of rows and of unknown types,
  takes no buffer but is called with one, which raises TypeError.
\<close>

definition user_var_value ::
    "row_lib \<Rightarrow> nat \<Rightarrow> nat \<Rightarrow> byte list \<Rightarrow> py_val res" where
  "user_var_value L t flags buffer =
    (if buffer = [] then Inr VNone
     else if t = 0 then bindE (utf8 L buffer) (\<lambda>s. Inr (VStr s))
     else if t = 1 then bindE (unpack_le 8 buffer) (\<lambda>n. Inr (VFloat (of_nat n)))
     else if t = 2 then
       (if flags = 1 then bindE (unpack_le 8 buffer) (\<lambda>n. Inr (VInt (int n)))
        else bindE (unpack_le_signed 8 buffer) (\<lambda>i. Inr (VInt i)))
     else if t = 4 then
       bindE (nthE buffer 0) (\<lambda>precision. bindE (nthE buffer 1) (\<lambda>decimals.
       parse_decimal_from_bytes (drop 2 buffer) (unat precision) (unat decimals)))
     else Inl TypeError)"

definition new_user_var_event ::
    "row_lib \<Rightarrow> 'p packet_ops \<Rightarrow> ('p wrapper, event_body) act" where
  "new_user_var_event L P =
    bindA (read_uint32 P) (\<lambda>name_len. bindA (read_text L P (int name_len)) (\<lambda>nm. bindA (read_uint8 P) (\<lambda>null.
    if null = 0 then
      bindA (read_uint8 P) (\<lambda>t. bindA (read_uint32 P) (\<lambda>charset. bindA (read_uint32 P) (\<lambda>value_len.
      bindA (packet_read P (int value_len)) (\<lambda>buffer. bindA (read_uint8 P) (\<lambda>flags.
      bindA (pureA (user_var_value L t flags buffer)) (\<lambda>v.
      retA (UserVarBody \<lparr>uv_name = nm, uv_is_null = null, uv_type = Some t, uv_charset = Some charset,
        uv_value_len = Some value_len, uv_value = v, uv_flags = Some flags\<rparr>)))))))
    else retA (UserVarBody \<lparr>uv_name = nm, uv_is_null = null, uv_type = None, uv_charset = None,
        uv_value_len = None, uv_value = VNone, uv_flags = None\<rparr>))))"

section \<open>Other events\<close>

definition new_rows_query_event :: "row_lib \<Rightarrow> 'p packet_ops \<Rightarrow> ('p wrapper, event_body) act" where
  "new_rows_query_event L P =
    bindA (packet_advance P 1) (\<lambda>_. bindA (read_available P) (\<lambda>bs. bindA (pureA (utf8 L bs)) (\<lambda>s. retA (RowsQueryBody s))))"

definition new_not_implemented_event :: "'p packet_ops \<Rightarrow> int \<Rightarrow> ('p wrapper, event_body) act" where
  "new_not_implemented_event P event_size = bindA (packet_advance P event_size) (\<lambda>_. retA NotImplementedBody)"

section \<open>Readers of loops\<close>

lemma reads_before:
  assumes items: "list_all2 (\<lambda>bs x. bs \<noteq> [] \<and> reads rest m bs x) bss xs"
    and rounds: "length xs \<le> rounds"
    and w: "pending rest w = concat bss @ behind" "until = pw_read_bytes w + int (length (concat bss))"
  shows "\<exists>p. read_before rounds until m w = (Inr xs, taken (length (concat bss)) p w)
    \<and> rest p = drop (length (concat bss) - length (pw_buffer w)) (rest (pw_packet w))"
  using items rounds w
proof (induction bss xs arbitrary: rounds w rule: list_all2_induct)
  case Nil
  have "read_before rounds until m w = (Inr [], w)" using Nil by (cases rounds) simp_all
  moreover have "w = taken 0 (pw_packet w) w" by (simp add: taken_def)
  ultimately show ?case using Nil by (intro exI [of _ "pw_packet w"]) simp
next
  case (Cons bs bss x xs)
  obtain r where r: "rounds = Suc r" "length xs \<le> r" using Cons.prems(1) by (cases rounds) auto
  have hd: "pending rest w = bs @ (concat bss @ behind)" using Cons.prems(2) by simp
  from readsD [OF conjunct2 [OF Cons(1)] hd] obtain p where p: "m w = (Inr x, taken (length bs) p w)"
    "pending rest (taken (length bs) p w) = concat bss @ behind"
    "rest p = drop (length bs - length (pw_buffer w)) (rest (pw_packet w))" by blast
  have "until = pw_read_bytes (taken (length bs) p w) + int (length (concat bss))" using Cons.prems(3) by simp
  from Cons.IH [OF r(2) p(2) this] obtain q where q:
    "read_before r until m (taken (length bs) p w) = (Inr xs, taken (length (concat bss)) q (taken (length bs) p w))"
    "rest q = drop (length (concat bss) - (length (pw_buffer w) - length bs)) (rest p)" by auto
  have "0 < length bs" using Cons(1) by simp
  then have lt: "pw_read_bytes w < until" unfolding Cons.prems(3) by (simp add: add_pos_nonneg)
  have "read_before rounds until m w = (Inr (x # xs), taken (length (concat (bs # bss))) q w)"
    using lt r(1) p(1) q(1) by (simp add: bindA_def retA_def taken_taken)
  moreover have "rest q = drop (length (concat (bs # bss)) - length (pw_buffer w)) (rest (pw_packet w))"
  proof -
    have "a - b + (c - (b - a)) = a + c - b" for a b c :: nat by arith
    then show ?thesis unfolding q(2) p(3) drop_drop by (simp add: add.commute)
  qed
  ultimately show ?case by blast
qed

lemma reads_items:
  assumes "list_all2 (\<lambda>bs x. bs \<noteq> [] \<and> reads rest m bs x) bss xs" "length xs \<le> rounds" "len = length (concat bss)"
  shows "reads rest (read_items rounds len m) (concat bss) xs"
  unfolding reads_def read_items_def using reads_before [OF assms(1,2)] assms(3) by blast

lemma reads_times:
  "list_all2 (reads rest m) bss xs \<Longrightarrow> reads rest (read_times (length xs) m) (concat bss) xs"
proof (induction bss xs rule: list_all2_induct)
  case (Cons bs bss x xs)
  show ?case unfolding list.size read_times.simps
    by (simp, rule reads_bind [OF Cons(1)], rule reads_bind [OF Cons.IH], rule reads_ret) auto
qed (simp add: reads_ret)

end
