(* ===== verification/EventCodec.thy ===== *)
theory EventCodec
  imports Events
begin

text \<open>
  The events the replicator depends on, encoded as the server writes them, and that their constructors
  read them back: statements with their status variables, rotations of the log, identifiers of
  transactions. The calculus of \<^verbatim>\<open>PacketReads\<close> says for each reader which bytes it takes.
\<close>

section \<open>Status variables\<close>

text \<open>The variables with one number: key, attribute and width.\<close>

definition number_vars :: "(nat \<times> string \<times> nat) list" where
  "number_vars =
    [(0, ''flags2'', 4), (1, ''sql_mode'', 8), (7, ''lc_time_names_number'', 2), (8, ''charset_database_number'', 2),
     (9, ''table_map_for_update'', 8), (13, ''microseconds'', 3), (16, ''explicit_defaults_ts'', 1), (17, ''ddl_xid'', 8),
     (18, ''default_collation_for_utf8mb4_number'', 2), (19, ''sql_require_primary_key'', 1),
     (20, ''default_table_encryption'', 1), (128, ''hrnow'', 3), (129, ''xid'', 8)]"

definition sized :: "byte list \<Rightarrow> byte list" where
  "sized bs = of_nat (length bs) # bs"

definition sized_attr :: "string \<Rightarrow> byte list \<Rightarrow> (string \<times> py_val) list" where
  "sized_attr nm bs = (if bs = [] then [] else [(nm, VBytes bs)])"

inductive status_item :: "byte list \<Rightarrow> (string \<times> py_val) list \<Rightarrow> bool" where
  no_value: "k \<in> {2, 10, 14, 15} \<Longrightarrow> status_item [k] []"
| number: "(k, nm, wd) \<in> set number_vars \<Longrightarrow> n < 256 ^ wd \<Longrightarrow> status_item (of_nat k # le_bytes wd n) [(nm, VInt (int n))]"
| increment: "a < 256 ^ 2 \<Longrightarrow> b < 256 ^ 2 \<Longrightarrow> status_item (3 # le_bytes 2 a @ le_bytes 2 b)
    [(''auto_increment_increment'', VInt (int a)), (''auto_increment_offset'', VInt (int b))]"
| charsets: "a < 256 ^ 2 \<Longrightarrow> b < 256 ^ 2 \<Longrightarrow> c < 256 ^ 2 \<Longrightarrow> status_item (4 # le_bytes 2 a @ le_bytes 2 b @ le_bytes 2 c)
    [(''character_set_client'', VInt (int a)), (''collation_connection'', VInt (int b)), (''collation_server'', VInt (int c))]"
| time_zone: "length bs < 256 \<Longrightarrow> status_item (5 # sized bs) (sized_attr ''time_zone'' bs)"
| catalog: "length bs < 256 \<Longrightarrow> status_item (6 # sized bs) (sized_attr ''catalog_nz_code'' bs)"
| invoker: "length us < 256 \<Longrightarrow> length hs < 256 \<Longrightarrow>
    status_item (11 # sized us @ sized hs) (sized_attr ''user'' us @ sized_attr ''host'' hs)"
| many_dbs: "status_item [12, 254] []"
| updated_dbs: "length names < 254 \<Longrightarrow> (\<And>d. d \<in> set names \<Longrightarrow> 0 \<notin> set d) \<Longrightarrow>
    status_item (12 # of_nat (length names) # concat (map (\<lambda>d. d @ [0]) names))
      [(''mts_accessed_db_names'', VList (map VBytes names))]"

context byte_source
begin

lemma reads_le:
  fixes n :: nat
  shows "n < 256 ^ 1 \<Longrightarrow> reads rest (read_uint8 P) (le_bytes 1 n) n"
    and "n < 256 ^ 2 \<Longrightarrow> reads rest (read_uint16 P) (le_bytes 2 n) n"
    and "n < 256 ^ 3 \<Longrightarrow> reads rest (read_uint24 P) (le_bytes 3 n) n"
    and "n < 256 ^ 4 \<Longrightarrow> reads rest (read_uint32 P) (le_bytes 4 n) n"
    and "n < 256 ^ 8 \<Longrightarrow> reads rest (read_uint64 P) (le_bytes 8 n) n"
  using reads_uints(1) [of "le_bytes 1 n"] reads_uints(2) [of "le_bytes 2 n"] reads_int24s(1) [of "le_bytes 3 n"]
    reads_uints(3) [of "le_bytes 4 n"] reads_uints(4) [of "le_bytes 8 n"]
  by (simp_all add: le_nat_le_bytes del: le_bytes.simps)

lemma reads_uint8_byte: "n < 256 \<Longrightarrow> reads rest (read_uint8 P) [of_nat n] n"
  using reads_le(1) [of n] by simp

lemma reads_attr: "reads rest m bs n \<Longrightarrow> reads rest (read_attr nm m) bs [(nm, VInt (int n))]"
  unfolding read_attr_def by (rule reads_map)

lemma reads_both: "reads rest m bs xs \<Longrightarrow> reads rest n cs ys \<Longrightarrow> reads rest (both_attrs m n) (bs @ cs) (xs @ ys)"
  unfolding both_attrs_def by (rule reads_bind, assumption, rule reads_map, assumption) simp

lemma reads_sized:
  assumes "length bs < 256"
  shows "reads rest (read_sized_attr P nm) (sized bs) (sized_attr nm bs)"
proof (cases "bs = []")
  case True
  then show ?thesis using assms unfolding read_sized_attr_def sized_def sized_attr_def
    by (intro reads_bind [OF reads_uint8_byte]) (auto intro: reads_ret)
next
  case False
  then show ?thesis using assms unfolding read_sized_attr_def sized_def sized_attr_def
    by (intro reads_bind [OF reads_uint8_byte]) (auto intro!: reads_map reads_read)
qed

lemma reads_number_var:
  assumes "(k, nm, wd) \<in> set number_vars" "n < 256 ^ wd"
  shows "reads rest (read_status_var rounds P k) (le_bytes wd n) [(nm, VInt (int n))]"
proof -
  have "reads rest (read_status_var rounds P k) (le_bytes wd n) [(nm, VInt (int n))]"
    if "(k, nm, wd) = e" "e \<in> set number_vars" for e
    using that assms(2) unfolding number_vars_def
    by (auto simp: read_status_var_def simp del: le_bytes.simps intro!: reads_attr reads_le reads_le(1) [unfolded One_nat_def])
  with assms(1) show ?thesis by blast
qed

lemma reads_status_key:
  assumes "k < 256" "reads rest (read_status_var rounds P k) bs v"
  shows "reads rest (read_one_status_var rounds P) (of_nat k # bs) v"
  unfolding read_one_status_var_def using assms by (intro reads_bind [OF reads_uint8_byte]) auto

lemma reads_db_names:
  assumes "\<And>d. d \<in> set names \<Longrightarrow> 0 \<notin> set d \<and> length d < rounds"
  shows "reads rest (read_times (length names) (read_string rounds P)) (concat (map (\<lambda>d. d @ [0]) names)) names"
  using assms
proof (induction names)
  case (Cons d names)
  then have "reads rest (read_string rounds P) (d @ [0]) d" by (intro reads_string) auto
  moreover have "reads rest (read_times (length names) (read_string rounds P)) (concat (map (\<lambda>d. d @ [0]) names)) names"
    using Cons by auto
  ultimately show ?case by (auto intro!: reads_bind reads_ret)
qed (simp add: reads_ret)

lemma length_db_name: "d \<in> set names \<Longrightarrow> length d < length (concat (map (\<lambda>d. d @ [0]) names))" for names :: "byte list list"
  by (induction names) auto

lemma reads_status_item:
  assumes "status_item bs attrs" "length bs \<le> rounds"
  shows "reads rest (read_one_status_var rounds P) bs attrs"
  using assms
proof (induction rule: status_item.induct)
  case (no_value k)
  then have "reads rest (read_status_var rounds P (unat k)) [] []" by (auto simp: read_status_var_def reads_ret)
  then show ?case using reads_status_key [of "unat k"] unat_byte [of k] by simp
next
  case (number k nm wd n)
  then have "k < 256" unfolding number_vars_def by auto
  with number show ?case by (intro reads_status_key reads_number_var)
next
  case (increment a b)
  then have "reads rest (read_status_var rounds P 3) (le_bytes 2 a @ le_bytes 2 b)
      ([(''auto_increment_increment'', VInt (int a))] @ [(''auto_increment_offset'', VInt (int b))])"
    unfolding read_status_var_def by (simp del: append.simps) (intro reads_both reads_attr reads_le, simp_all)
  from reads_status_key [OF _ this] show ?case by simp
next
  case (charsets a b c)
  then have "reads rest (read_status_var rounds P 4) (le_bytes 2 a @ le_bytes 2 b @ le_bytes 2 c)
      ([(''character_set_client'', VInt (int a))] @ [(''collation_connection'', VInt (int b))] @ [(''collation_server'', VInt (int c))])"
    unfolding read_status_var_def by (simp del: append.simps) (intro reads_both reads_attr reads_le, simp_all)
  from reads_status_key [OF _ this] show ?case by simp
next
  case (time_zone bs)
  then have "reads rest (read_status_var rounds P 5) (sized bs) (sized_attr ''time_zone'' bs)"
    by (simp add: read_status_var_def reads_sized)
  from reads_status_key [OF _ this] show ?case by simp
next
  case (catalog bs)
  then have "reads rest (read_status_var rounds P 6) (sized bs) (sized_attr ''catalog_nz_code'' bs)"
    by (simp add: read_status_var_def reads_sized)
  from reads_status_key [OF _ this] show ?case by simp
next
  case (invoker us hs)
  then have "reads rest (read_status_var rounds P 11) (sized us @ sized hs) (sized_attr ''user'' us @ sized_attr ''host'' hs)"
    by (simp add: read_status_var_def reads_both reads_sized)
  from reads_status_key [OF _ this] show ?case by simp
next
  case many_dbs
  have "reads rest (read_status_var rounds P 12) [254] []"
    unfolding read_status_var_def using reads_uint8_byte [of 254]
    by (simp, elim reads_bind) (simp_all add: reads_ret)
  from reads_status_key [OF _ this] show ?case by simp
next
  case (updated_dbs names)
  let ?bs = "concat (map (\<lambda>d. d @ [0]) names)"
  have "length d < rounds" if "d \<in> set names" for d
    using length_db_name [OF that] updated_dbs(3) by simp
  then have m: "reads rest (read_times (length names) (read_string rounds P)) ?bs names"
    using updated_dbs by (intro reads_db_names) auto
  have k: "length names < 256" using updated_dbs(1) by simp
  have "reads rest (read_status_var rounds P 12) ([of_nat (length names)] @ ?bs) [(''mts_accessed_db_names'', VList (map VBytes names))]"
    unfolding read_status_var_def using updated_dbs(1)
    by (simp del: append.simps) (rule reads_bind [OF reads_uint8_byte [OF k]], auto intro: reads_map [OF m])
  from reads_status_key [OF _ this] show ?case by simp
qed

end

section \<open>Query events\<close>

definition encode_query :: "nat \<Rightarrow> nat \<Rightarrow> nat \<Rightarrow> byte list list \<Rightarrow> byte list \<Rightarrow> byte list \<Rightarrow> byte list" where
  "encode_query slave_proxy_id execution_time error_code vars schema query =
    le_bytes 4 slave_proxy_id @ le_bytes 4 execution_time @ of_nat (length schema) # le_bytes 2 error_code
      @ le_bytes 2 (length (concat vars)) @ concat vars @ schema @ 0 # query"

lemma status_item_nonempty: "status_item bs attrs \<Longrightarrow> bs \<noteq> []"
  by (induction rule: status_item.induct) auto

lemma length_concat_member: "bs \<in> set bss \<Longrightarrow> length bs \<le> length (concat bss)"
  by (induction bss) auto

lemma length_nonempty_parts: "(\<And>bs. bs \<in> set bss \<Longrightarrow> bs \<noteq> []) \<Longrightarrow> length bss \<le> length (concat bss)"
proof (induction bss)
  case (Cons b bss)
  then have b: "0 < length b" "length bss \<le> length (concat bss)" by simp_all
  have "length (concat (b # bss)) = length b + length (concat bss)" by simp
  with b show ?case by (simp only: list.size)
qed simp

context byte_source
begin

lemma reads_status_vars:
  assumes items: "list_all2 status_item vars attrs" and rounds: "length (concat vars) \<le> rounds"
  shows "reads rest (read_items rounds (length (concat vars)) (read_one_status_var rounds P)) (concat vars) attrs"
proof (rule reads_items)
  have item: "status_item (vars ! i) (attrs ! i)" if "i < length vars" for i using items that by (simp add: list_all2_conv_all_nth)
  have len: "length vars = length attrs" using items by (rule list_all2_lengthD)
  have "vars ! i \<noteq> [] \<and> reads rest (read_one_status_var rounds P) (vars ! i) (attrs ! i)" if "i < length vars" for i
    using item [OF that] status_item_nonempty length_concat_member [of "vars ! i" vars] rounds that
    by (intro conjI reads_status_item) auto
  then show "list_all2 (\<lambda>bs x. bs \<noteq> [] \<and> reads rest (read_one_status_var rounds P) bs x) vars attrs"
    using len by (simp add: list_all2_conv_all_nth)
  have "length vars \<le> length (concat vars)"
    using item status_item_nonempty by (intro length_nonempty_parts) (auto simp: in_set_conv_nth)
  with len rounds show "length attrs \<le> rounds" by simp
qed simp

lemma reads_query_event:
  assumes vars: "list_all2 status_item vars attrs" "length (concat vars) < 2 ^ 16" "length (concat vars) \<le> rounds"
    and bounds: "slave_proxy_id < 2 ^ 32" "execution_time < 2 ^ 32" "length schema < 2 ^ 8" "error_code < 2 ^ 16"
    and dec: "rl_decode L ''utf-8'' ''backslashreplace'' query = Inr q"
    and sz: "event_size = int (length (encode_query slave_proxy_id execution_time error_code vars schema query))"
  shows "reads rest (new_query_event rounds L P event_size)
    (encode_query slave_proxy_id execution_time error_code vars schema query)
    (QueryBody \<lparr>q_slave_proxy_id = slave_proxy_id, q_execution_time = execution_time, q_error_code = error_code,
      q_status_vars = set_attributes (concat attrs), q_schema = schema, q_query = q\<rparr>)"
proof -
  have n: "event_size - 13 - int (length (concat vars)) - int (length schema) - 1 = int (length query)"
    unfolding sz encode_query_def by simp
  have b: "slave_proxy_id < 256 ^ 4" "execution_time < 256 ^ 4" "error_code < 256 ^ 2" "length (concat vars) < 256 ^ 2"
    using bounds vars(2) by simp_all
  have u: "unat (of_nat (length schema) :: byte) = length schema" using bounds(3) by (intro unat_of_nat_byte) simp
  show ?thesis
    unfolding new_query_event_def encode_query_def
    apply (rule reads_bind [OF reads_le(4) [OF b(1)] _ refl])
    apply (rule reads_bind [OF reads_le(4) [OF b(2)] _ refl])
    apply (rule reads_byte)
    apply (rule reads_bind [OF reads_le(2) [OF b(3)] _ refl])
    apply (rule reads_bind [OF reads_le(2) [OF b(4)] _ refl])
    apply (rule reads_bind [OF reads_status_vars [OF vars(1,3)] _ refl])
    apply (rule reads_bind [OF reads_read [of _ schema] _ refl])
     apply (simp only: u)
    apply (rule reads_bind [OF reads_advance [of _ "[0]"], where cs = query])
      apply simp
     apply (rule reads_bind [OF reads_read [of _ query], where cs = "[]"])
       apply (simp only: u n)
      apply (rule reads_bind [OF reads_pure [OF dec], where cs = "[]"])
       apply (rule reads_ret)
      apply simp_all
    done
qed

end

section \<open>Rotations and transactions\<close>

definition encode_rotate :: "nat \<Rightarrow> byte list \<Rightarrow> byte list" where
  "encode_rotate position next_binlog = le_bytes 8 position @ next_binlog"

definition encode_gtid :: "bool \<Rightarrow> byte list \<Rightarrow> nat \<Rightarrow> byte \<Rightarrow> nat \<Rightarrow> nat \<Rightarrow> byte list" where
  "encode_gtid flag sid gno lt_type last_committed sequence_number =
    le_bytes 1 (of_bool flag) @ sid @ le_bytes 8 gno @ lt_type # le_bytes 8 last_committed @ le_bytes 8 sequence_number"

context byte_source
begin

lemma reads_text: "utf8 L bs = Inr s \<Longrightarrow> n = int (length bs) \<Longrightarrow> reads rest (read_text L P n) bs s"
  unfolding read_text_def by (rule reads_then [OF reads_read])

lemma reads_rotate_event:
  assumes "position < 2 ^ 64" "utf8 L next_binlog = Inr s"
    and "event_size = int (length (encode_rotate position next_binlog))"
  shows "reads rest (new_rotate_event L P event_size) (encode_rotate position next_binlog) (RotateBody position s)"
proof -
  have "position < 256 ^ 8" using assms(1) by simp
  then show ?thesis unfolding new_rotate_event_def encode_rotate_def
    by (rule reads_bind [OF reads_le(5) reads_bind [OF reads_text [OF assms(2)] reads_ret]])
      (simp_all add: assms(3) encode_rotate_def del: le_bytes.simps)
qed

lemma reads_gtid_event:
  assumes sid: "length sid = 16" and bounds: "gno < 2 ^ 64" "last_committed < 2 ^ 64" "sequence_number < 2 ^ 64"
    and version: "version_at_least mysql_version [5, 7]"
  shows "reads rest (new_gtid_event P mysql_version) (encode_gtid flag sid gno lt_type last_committed sequence_number)
    (GtidBody flag sid gno (unat lt_type) (Some (last_committed, sequence_number)))"
proof -
  have b: "gno < 256 ^ 8" "last_committed < 256 ^ 8" "sequence_number < 256 ^ 8" using bounds by simp_all
  have f: "of_bool flag < (256 :: nat) ^ 1" by simp
  have one: "(of_bool flag = (1 :: nat)) = flag" by simp
  have tail: "reads rest (bindA (read_uint64 P) (\<lambda>lc. bindA (read_uint64 P) (\<lambda>sn. retA (GtidBody flag sid gno (unat lt_type) (Some (lc, sn))))))
      (le_bytes 8 last_committed @ le_bytes 8 sequence_number)
      (GtidBody flag sid gno (unat lt_type) (Some (last_committed, sequence_number)))"
    by (rule reads_bind [OF reads_le(5) [OF b(2)] reads_map [OF reads_le(5) [OF b(3)]] refl])
  show ?thesis unfolding new_gtid_event_def encode_gtid_def
    apply (rule reads_bind [OF reads_le(1) [OF f] _ refl])
    apply (rule reads_bind [OF reads_read [of 16 sid] _ refl])
     apply (simp add: sid)
    apply (rule reads_bind [OF reads_le(5) [OF b(1)] _ refl])
    apply (rule reads_bind [OF reads_read [of 1 "[lt_type]"]])
      apply simp
     apply (rule reads_bind [OF reads_pure [of _ lt_type]])
       apply (simp add: nthE_def)
      apply (simp only: Let_def version if_True one)
      apply (rule tail)
     apply simp_all
    done
qed

end

text \<open>
  The binary and the textual form of an identifier agree: the event names the source as \<^verbatim>\<open>gtid.py\<close>
  writes it.
\<close>

lemma drop_hexlify: "drop (2 * n) (hexlify bs) = hexlify (drop n bs)"
proof (induction bs arbitrary: n)
  case (Cons b bs)
  then show ?case by (cases n) (simp_all add: hexlify_def)
qed (simp add: hexlify_def)

lemma take_hexlify: "take (2 * n) (hexlify bs) = hexlify (take n bs)"
proof (induction bs arbitrary: n)
  case (Cons b bs)
  then show ?case by (cases n) (simp_all add: hexlify_def)
qed (simp add: hexlify_def)

section \<open>Properties\<close>

text \<open>C7. Statements are decoded exactly: from the bytes the server writes for a query event, with any
  sequence of status variables in front of the schema, the event object has the schema, the statement
  and the attributes the variables stand for, and the reader stops exactly behind the event.
\<close>
theorem query_event_roundtrip:
  assumes src: "byte_source P rest"
    and w: "pending rest w = encode_query slave_proxy_id execution_time error_code vars schema query @ behind"
    and vars: "list_all2 status_item vars attrs" "length (concat vars) < 2 ^ 16" "length (concat vars) \<le> rounds"
    and bounds: "slave_proxy_id < 2 ^ 32" "execution_time < 2 ^ 32" "length schema < 2 ^ 8" "error_code < 2 ^ 16"
    and dec: "rl_decode L ''utf-8'' ''backslashreplace'' query = Inr q"
    and sz: "event_size = int (length (encode_query slave_proxy_id execution_time error_code vars schema query))"
  shows "\<exists>w'. new_query_event rounds L P event_size w = (Inr (QueryBody \<lparr>q_slave_proxy_id = slave_proxy_id,
        q_execution_time = execution_time, q_error_code = error_code, q_status_vars = set_attributes (concat attrs),
        q_schema = schema, q_query = q\<rparr>), w')
    \<and> pending rest w' = behind \<and> pw_read_bytes w' = pw_read_bytes w + event_size"
  using readsD [OF byte_source.reads_query_event [OF src vars bounds dec sz] w] sz by (metis taken_fields(2))

text \<open>A statement with two status variables, behind it the checksum.\<close>

definition sample_text :: "byte list \<Rightarrow> string" where
  "sample_text bs = map (\<lambda>b. char_of (unat b)) bs"

definition sample_query_lib :: row_lib where
  "sample_query_lib = \<lparr>rl_charset_by_name = (\<lambda>_. None), rl_decode = (\<lambda>_ _ bs. Inr (sample_text bs)), rl_to_json = (\<lambda>_. Inl ValueError)\<rparr>"

definition sample_statement :: "byte list" where
  "sample_statement = encode_query 7 1 0 [0 # le_bytes 4 5, 6 # sized [115, 116, 100]] [100, 98] [66, 69, 71, 73, 78]"

theorem query_event_roundtrip_witness:
  "\<exists>w'. new_query_event 20 sample_query_lib bytes_packet 31 (sample_wrapper\<lparr>pw_packet := sample_statement @ [1, 2, 3, 4]\<rparr>) =
      (Inr (QueryBody \<lparr>q_slave_proxy_id = 7, q_execution_time = 1, q_error_code = 0,
        q_status_vars = [(''flags2'', VInt 5), (''catalog_nz_code'', VBytes [115, 116, 100])],
        q_schema = [100, 98], q_query = ''BEGIN''\<rparr>), w')
    \<and> pending (\<lambda>p. p) w' = [1, 2, 3, 4]"
proof -
  let ?vars = "[0 # le_bytes 4 5, 6 # sized [115, 116, 100]] :: byte list list"
  let ?attrs = "[[(''flags2'', VInt 5)], [(''catalog_nz_code'', VBytes [115, 116, 100])]]"
  let ?w = "sample_wrapper\<lparr>pw_packet := sample_statement @ [1, 2, 3, 4]\<rparr>"
  have items: "list_all2 status_item ?vars ?attrs"
    using status_item.number [of 0 "''flags2''" 4 5] status_item.catalog [of "[115, 116, 100]"]
    by (simp add: number_vars_def sized_attr_def del: le_bytes.simps)
  have t: "rl_decode sample_query_lib ''utf-8'' ''backslashreplace'' [66, 69, 71, 73, 78] = Inr ''BEGIN''"
    "set_attributes (concat ?attrs) = [(''flags2'', VInt 5), (''catalog_nz_code'', VBytes [115, 116, 100])]" by code_simp+
  have sz: "31 = int (length (encode_query 7 1 0 ?vars [100, 98] [66, 69, 71, 73, 78]))" by code_simp
  have w: "pending (\<lambda>p. p) ?w = encode_query 7 1 0 ?vars [100, 98] [66, 69, 71, 73, 78] @ [1, 2, 3, 4]"
    by (simp_all add: pending_def sample_wrapper_def sample_statement_def)
  have "\<exists>w'. new_query_event 20 sample_query_lib bytes_packet 31 ?w = (Inr (QueryBody \<lparr>q_slave_proxy_id = 7,
        q_execution_time = 1, q_error_code = 0, q_status_vars = set_attributes (concat ?attrs), q_schema = [100, 98], q_query = ''BEGIN''\<rparr>), w')
      \<and> pending (\<lambda>p. p) w' = [1, 2, 3, 4] \<and> pw_read_bytes w' = pw_read_bytes ?w + 31"
    by (rule query_event_roundtrip [OF bytes.byte_source_axioms w items _ _ _ _ _ _ t(1) sz]) (simp_all add: sized_def)
  then show ?thesis unfolding t(2) by blast
qed

end
