(* ===== verification/Charsets.thy ===== *)
theory Charsets
  imports PyStr
begin

text \<open>
  \<^verbatim>\<open>pymysqlreplication/constants/CHARSET.py\<close>: the character sets and collations of MySQL and MariaDB
  by their number, and the default collation of each character set by its name. The table is written
  out, one \<^verbatim>\<open>charsets.add\<close> to an entry, in the order of the source.
\<close>

section \<open>Character sets\<close>

datatype charset =
  Charset (cs_id: int) (cs_name: string) (cs_collation: string) (cs_is_default: bool) (cs_dbms: string)

text \<open>The name Python has for a character set.\<close>

definition charset_encoding :: "charset \<Rightarrow> string" where
  "charset_encoding c =
    (let nm = cs_name c in
     if nm = ''utf8mb4'' \<or> nm = ''utf8mb3'' then ''utf8''
     else if nm = ''latin1'' then ''cp1252''
     else if nm = ''koi8r'' then ''koi8_r''
     else if nm = ''koi8u'' then ''koi8_u''
     else nm)"

definition is_binary :: "charset \<Rightarrow> bool" where
  "is_binary c \<longleftrightarrow> cs_id c = 63"

record charset_index =
  by_id_dict :: "(string, (int, charset) dict) dict"
  by_name_dict :: "(string, (string, charset) dict) dict"

definition inner :: "('k, ('a, 'b) dict) dict \<Rightarrow> 'k \<Rightarrow> ('a, 'b) dict" where
  "inner d k = (case map_of d k of Some e \<Rightarrow> e | None \<Rightarrow> [])"

definition add_charset :: "charset \<Rightarrow> charset_index \<Rightarrow> charset_index" where
  "add_charset c cs =
    (let cs1 = cs\<lparr>by_id_dict := AList.update (cs_dbms c) (AList.update (cs_id c) c (inner (by_id_dict cs) (cs_dbms c))) (by_id_dict cs)\<rparr>
     in if cs_is_default c
        then cs1\<lparr>by_name_dict := AList.update (cs_dbms c) (AList.update (cs_name c) c (inner (by_name_dict cs) (cs_dbms c))) (by_name_dict cs)\<rparr>
        else cs1)"

definition by_id :: "charset_index \<Rightarrow> int \<Rightarrow> string \<Rightarrow> charset option" where
  "by_id cs i dbms = map_of (inner (by_id_dict cs) dbms) i"

definition by_name :: "charset_index \<Rightarrow> string \<Rightarrow> string \<Rightarrow> charset option" where
  "by_name cs nm dbms =
    (let nm = (if nm = ''utf8'' then ''utf8mb4'' else nm) in map_of (inner (by_name_dict cs) dbms) (lower nm))"

section \<open>The table\<close>

definition mysql_charsets_1 :: "charset list" where
  "mysql_charsets_1 =
    [Charset 1 ''big5'' ''big5_chinese_ci'' True ''mysql'',
     Charset 2 ''latin2'' ''latin2_czech_cs'' False ''mysql'',
     Charset 3 ''dec8'' ''dec8_swedish_ci'' True ''mysql'',
     Charset 4 ''cp850'' ''cp850_general_ci'' True ''mysql'',
     Charset 5 ''latin1'' ''latin1_german1_ci'' False ''mysql'',
     Charset 6 ''hp8'' ''hp8_english_ci'' True ''mysql'',
     Charset 7 ''koi8r'' ''koi8r_general_ci'' True ''mysql'',
     Charset 8 ''latin1'' ''latin1_swedish_ci'' True ''mysql'',
     Charset 9 ''latin2'' ''latin2_general_ci'' True ''mysql'',
     Charset 10 ''swe7'' ''swe7_swedish_ci'' True ''mysql'',
     Charset 11 ''ascii'' ''ascii_general_ci'' True ''mysql'',
     Charset 12 ''ujis'' ''ujis_japanese_ci'' True ''mysql'',
     Charset 13 ''sjis'' ''sjis_japanese_ci'' True ''mysql'',
     Charset 14 ''cp1251'' ''cp1251_bulgarian_ci'' False ''mysql'',
     Charset 15 ''latin1'' ''latin1_danish_ci'' False ''mysql'',
     Charset 16 ''hebrew'' ''hebrew_general_ci'' True ''mysql'',
     Charset 18 ''tis620'' ''tis620_thai_ci'' True ''mysql'',
     Charset 19 ''euckr'' ''euckr_korean_ci'' True ''mysql'',
     Charset 20 ''latin7'' ''latin7_estonian_cs'' False ''mysql'',
     Charset 21 ''latin2'' ''latin2_hungarian_ci'' False ''mysql'',
     Charset 22 ''koi8u'' ''koi8u_general_ci'' True ''mysql'',
     Charset 23 ''cp1251'' ''cp1251_ukrainian_ci'' False ''mysql'',
     Charset 24 ''gb2312'' ''gb2312_chinese_ci'' True ''mysql'',
     Charset 25 ''greek'' ''greek_general_ci'' True ''mysql'',
     Charset 26 ''cp1250'' ''cp1250_general_ci'' True ''mysql'',
     Charset 27 ''latin2'' ''latin2_croatian_ci'' False ''mysql'',
     Charset 28 ''gbk'' ''gbk_chinese_ci'' True ''mysql'',
     Charset 29 ''cp1257'' ''cp1257_lithuanian_ci'' False ''mysql'',
     Charset 30 ''latin5'' ''latin5_turkish_ci'' True ''mysql'',
     Charset 31 ''latin1'' ''latin1_german2_ci'' False ''mysql'',
     Charset 32 ''armscii8'' ''armscii8_general_ci'' True ''mysql'',
     Charset 33 ''utf8mb3'' ''utf8mb3_general_ci'' True ''mysql'',
     Charset 34 ''cp1250'' ''cp1250_czech_cs'' False ''mysql'',
     Charset 35 ''ucs2'' ''ucs2_general_ci'' True ''mysql'',
     Charset 36 ''cp866'' ''cp866_general_ci'' True ''mysql'',
     Charset 37 ''keybcs2'' ''keybcs2_general_ci'' True ''mysql'',
     Charset 38 ''macce'' ''macce_general_ci'' True ''mysql'',
     Charset 39 ''macroman'' ''macroman_general_ci'' True ''mysql'',
     Charset 40 ''cp852'' ''cp852_general_ci'' True ''mysql'',
     Charset 41 ''latin7'' ''latin7_general_ci'' True ''mysql'',
     Charset 42 ''latin7'' ''latin7_general_cs'' False ''mysql'',
     Charset 43 ''macce'' ''macce_bin'' False ''mysql'',
     Charset 44 ''cp1250'' ''cp1250_croatian_ci'' False ''mysql'',
     Charset 45 ''utf8mb4'' ''utf8mb4_general_ci'' False ''mysql'',
     Charset 46 ''utf8mb4'' ''utf8mb4_bin'' False ''mysql'',
     Charset 47 ''latin1'' ''latin1_bin'' False ''mysql'',
     Charset 48 ''latin1'' ''latin1_general_ci'' False ''mysql'',
     Charset 49 ''latin1'' ''latin1_general_cs'' False ''mysql'',
     Charset 50 ''cp1251'' ''cp1251_bin'' False ''mysql'',
     Charset 51 ''cp1251'' ''cp1251_general_ci'' True ''mysql'',
     Charset 52 ''cp1251'' ''cp1251_general_cs'' False ''mysql'',
     Charset 53 ''macroman'' ''macroman_bin'' False ''mysql'',
     Charset 54 ''utf16'' ''utf16_general_ci'' True ''mysql'',
     Charset 55 ''utf16'' ''utf16_bin'' False ''mysql'',
     Charset 56 ''utf16le'' ''utf16le_general_ci'' True ''mysql'',
     Charset 57 ''cp1256'' ''cp1256_general_ci'' True ''mysql'',
     Charset 58 ''cp1257'' ''cp1257_bin'' False ''mysql'',
     Charset 59 ''cp1257'' ''cp1257_general_ci'' True ''mysql'',
     Charset 60 ''utf32'' ''utf32_general_ci'' True ''mysql'',
     Charset 61 ''utf32'' ''utf32_bin'' False ''mysql'',
     Charset 62 ''utf16le'' ''utf16le_bin'' False ''mysql'',
     Charset 63 ''binary'' ''binary'' True ''mysql'',
     Charset 64 ''armscii8'' ''armscii8_bin'' False ''mysql'',
     Charset 65 ''ascii'' ''ascii_bin'' False ''mysql'',
     Charset 66 ''cp1250'' ''cp1250_bin'' False ''mysql'',
     Charset 67 ''cp1256'' ''cp1256_bin'' False ''mysql'',
     Charset 68 ''cp866'' ''cp866_bin'' False ''mysql'',
     Charset 69 ''dec8'' ''dec8_bin'' False ''mysql'',
     Charset 70 ''greek'' ''greek_bin'' False ''mysql'',
     Charset 71 ''hebrew'' ''hebrew_bin'' False ''mysql'',
     Charset 72 ''hp8'' ''hp8_bin'' False ''mysql'',
     Charset 73 ''keybcs2'' ''keybcs2_bin'' False ''mysql'',
     Charset 74 ''koi8r'' ''koi8r_bin'' False ''mysql'',
     Charset 75 ''koi8u'' ''koi8u_bin'' False ''mysql'',
     Charset 76 ''utf8mb3'' ''utf8mb3_tolower_ci'' False ''mysql'',
     Charset 77 ''latin2'' ''latin2_bin'' False ''mysql'',
     Charset 78 ''latin5'' ''latin5_bin'' False ''mysql'',
     Charset 79 ''latin7'' ''latin7_bin'' False ''mysql'',
     Charset 80 ''cp850'' ''cp850_bin'' False ''mysql'',
     Charset 81 ''cp852'' ''cp852_bin'' False ''mysql'',
     Charset 82 ''swe7'' ''swe7_bin'' False ''mysql'',
     Charset 83 ''utf8mb3'' ''utf8mb3_bin'' False ''mysql'',
     Charset 84 ''big5'' ''big5_bin'' False ''mysql'',
     Charset 85 ''euckr'' ''euckr_bin'' False ''mysql'',
     Charset 86 ''gb2312'' ''gb2312_bin'' False ''mysql'',
     Charset 87 ''gbk'' ''gbk_bin'' False ''mysql'',
     Charset 88 ''sjis'' ''sjis_bin'' False ''mysql'',
     Charset 89 ''tis620'' ''tis620_bin'' False ''mysql'',
     Charset 90 ''ucs2'' ''ucs2_bin'' False ''mysql'',
     Charset 91 ''ujis'' ''ujis_bin'' False ''mysql'',
     Charset 92 ''geostd8'' ''geostd8_general_ci'' True ''mysql'',
     Charset 93 ''geostd8'' ''geostd8_bin'' False ''mysql'',
     Charset 94 ''latin1'' ''latin1_spanish_ci'' False ''mysql'',
     Charset 95 ''cp932'' ''cp932_japanese_ci'' True ''mysql'',
     Charset 96 ''cp932'' ''cp932_bin'' False ''mysql'',
     Charset 97 ''eucjpms'' ''eucjpms_japanese_ci'' True ''mysql'',
     Charset 98 ''eucjpms'' ''eucjpms_bin'' False ''mysql'',
     Charset 99 ''cp1250'' ''cp1250_polish_ci'' False ''mysql'',
     Charset 101 ''utf16'' ''utf16_unicode_ci'' False ''mysql'',
     Charset 102 ''utf16'' ''utf16_icelandic_ci'' False ''mysql'',
     Charset 103 ''utf16'' ''utf16_latvian_ci'' False ''mysql'',
     Charset 104 ''utf16'' ''utf16_romanian_ci'' False ''mysql'',
     Charset 105 ''utf16'' ''utf16_slovenian_ci'' False ''mysql'',
     Charset 106 ''utf16'' ''utf16_polish_ci'' False ''mysql'',
     Charset 107 ''utf16'' ''utf16_estonian_ci'' False ''mysql'',
     Charset 108 ''utf16'' ''utf16_spanish_ci'' False ''mysql'',
     Charset 109 ''utf16'' ''utf16_swedish_ci'' False ''mysql'',
     Charset 110 ''utf16'' ''utf16_turkish_ci'' False ''mysql'',
     Charset 111 ''utf16'' ''utf16_czech_ci'' False ''mysql'',
     Charset 112 ''utf16'' ''utf16_danish_ci'' False ''mysql'',
     Charset 113 ''utf16'' ''utf16_lithuanian_ci'' False ''mysql'',
     Charset 114 ''utf16'' ''utf16_slovak_ci'' False ''mysql'',
     Charset 115 ''utf16'' ''utf16_spanish2_ci'' False ''mysql'',
     Charset 116 ''utf16'' ''utf16_roman_ci'' False ''mysql'',
     Charset 117 ''utf16'' ''utf16_persian_ci'' False ''mysql'',
     Charset 118 ''utf16'' ''utf16_esperanto_ci'' False ''mysql'',
     Charset 119 ''utf16'' ''utf16_hungarian_ci'' False ''mysql'',
     Charset 120 ''utf16'' ''utf16_sinhala_ci'' False ''mysql'',
     Charset 121 ''utf16'' ''utf16_german2_ci'' False ''mysql'',
     Charset 122 ''utf16'' ''utf16_croatian_ci'' False ''mysql'',
     Charset 123 ''utf16'' ''utf16_unicode_520_ci'' False ''mysql'',
     Charset 124 ''utf16'' ''utf16_vietnamese_ci'' False ''mysql'',
     Charset 128 ''ucs2'' ''ucs2_unicode_ci'' False ''mysql'',
     Charset 129 ''ucs2'' ''ucs2_icelandic_ci'' False ''mysql'',
     Charset 130 ''ucs2'' ''ucs2_latvian_ci'' False ''mysql'',
     Charset 131 ''ucs2'' ''ucs2_romanian_ci'' False ''mysql'',
     Charset 132 ''ucs2'' ''ucs2_slovenian_ci'' False ''mysql'',
     Charset 133 ''ucs2'' ''ucs2_polish_ci'' False ''mysql'',
     Charset 134 ''ucs2'' ''ucs2_estonian_ci'' False ''mysql'',
     Charset 135 ''ucs2'' ''ucs2_spanish_ci'' False ''mysql'',
     Charset 136 ''ucs2'' ''ucs2_swedish_ci'' False ''mysql'',
     Charset 137 ''ucs2'' ''ucs2_turkish_ci'' False ''mysql'',
     Charset 138 ''ucs2'' ''ucs2_czech_ci'' False ''mysql'',
     Charset 139 ''ucs2'' ''ucs2_danish_ci'' False ''mysql'',
     Charset 140 ''ucs2'' ''ucs2_lithuanian_ci'' False ''mysql'',
     Charset 141 ''ucs2'' ''ucs2_slovak_ci'' False ''mysql'',
     Charset 142 ''ucs2'' ''ucs2_spanish2_ci'' False ''mysql'',
     Charset 143 ''ucs2'' ''ucs2_roman_ci'' False ''mysql'',
     Charset 144 ''ucs2'' ''ucs2_persian_ci'' False ''mysql'',
     Charset 145 ''ucs2'' ''ucs2_esperanto_ci'' False ''mysql'',
     Charset 146 ''ucs2'' ''ucs2_hungarian_ci'' False ''mysql'',
     Charset 147 ''ucs2'' ''ucs2_sinhala_ci'' False ''mysql'',
     Charset 148 ''ucs2'' ''ucs2_german2_ci'' False ''mysql'']"

definition mysql_charsets_2 :: "charset list" where
  "mysql_charsets_2 =
    [Charset 149 ''ucs2'' ''ucs2_croatian_ci'' False ''mysql'',
     Charset 150 ''ucs2'' ''ucs2_unicode_520_ci'' False ''mysql'',
     Charset 151 ''ucs2'' ''ucs2_vietnamese_ci'' False ''mysql'',
     Charset 159 ''ucs2'' ''ucs2_general_mysql500_ci'' False ''mysql'',
     Charset 160 ''utf32'' ''utf32_unicode_ci'' False ''mysql'',
     Charset 161 ''utf32'' ''utf32_icelandic_ci'' False ''mysql'',
     Charset 162 ''utf32'' ''utf32_latvian_ci'' False ''mysql'',
     Charset 163 ''utf32'' ''utf32_romanian_ci'' False ''mysql'',
     Charset 164 ''utf32'' ''utf32_slovenian_ci'' False ''mysql'',
     Charset 165 ''utf32'' ''utf32_polish_ci'' False ''mysql'',
     Charset 166 ''utf32'' ''utf32_estonian_ci'' False ''mysql'',
     Charset 167 ''utf32'' ''utf32_spanish_ci'' False ''mysql'',
     Charset 168 ''utf32'' ''utf32_swedish_ci'' False ''mysql'',
     Charset 169 ''utf32'' ''utf32_turkish_ci'' False ''mysql'',
     Charset 170 ''utf32'' ''utf32_czech_ci'' False ''mysql'',
     Charset 171 ''utf32'' ''utf32_danish_ci'' False ''mysql'',
     Charset 172 ''utf32'' ''utf32_lithuanian_ci'' False ''mysql'',
     Charset 173 ''utf32'' ''utf32_slovak_ci'' False ''mysql'',
     Charset 174 ''utf32'' ''utf32_spanish2_ci'' False ''mysql'',
     Charset 175 ''utf32'' ''utf32_roman_ci'' False ''mysql'',
     Charset 176 ''utf32'' ''utf32_persian_ci'' False ''mysql'',
     Charset 177 ''utf32'' ''utf32_esperanto_ci'' False ''mysql'',
     Charset 178 ''utf32'' ''utf32_hungarian_ci'' False ''mysql'',
     Charset 179 ''utf32'' ''utf32_sinhala_ci'' False ''mysql'',
     Charset 180 ''utf32'' ''utf32_german2_ci'' False ''mysql'',
     Charset 181 ''utf32'' ''utf32_croatian_ci'' False ''mysql'',
     Charset 182 ''utf32'' ''utf32_unicode_520_ci'' False ''mysql'',
     Charset 183 ''utf32'' ''utf32_vietnamese_ci'' False ''mysql'',
     Charset 192 ''utf8mb3'' ''utf8mb3_unicode_ci'' False ''mysql'',
     Charset 193 ''utf8mb3'' ''utf8mb3_icelandic_ci'' False ''mysql'',
     Charset 194 ''utf8mb3'' ''utf8mb3_latvian_ci'' False ''mysql'',
     Charset 195 ''utf8mb3'' ''utf8mb3_romanian_ci'' False ''mysql'',
     Charset 196 ''utf8mb3'' ''utf8mb3_slovenian_ci'' False ''mysql'',
     Charset 197 ''utf8mb3'' ''utf8mb3_polish_ci'' False ''mysql'',
     Charset 198 ''utf8mb3'' ''utf8mb3_estonian_ci'' False ''mysql'',
     Charset 199 ''utf8mb3'' ''utf8mb3_spanish_ci'' False ''mysql'',
     Charset 200 ''utf8mb3'' ''utf8mb3_swedish_ci'' False ''mysql'',
     Charset 201 ''utf8mb3'' ''utf8mb3_turkish_ci'' False ''mysql'',
     Charset 202 ''utf8mb3'' ''utf8mb3_czech_ci'' False ''mysql'',
     Charset 203 ''utf8mb3'' ''utf8mb3_danish_ci'' False ''mysql'',
     Charset 204 ''utf8mb3'' ''utf8mb3_lithuanian_ci'' False ''mysql'',
     Charset 205 ''utf8mb3'' ''utf8mb3_slovak_ci'' False ''mysql'',
     Charset 206 ''utf8mb3'' ''utf8mb3_spanish2_ci'' False ''mysql'',
     Charset 207 ''utf8mb3'' ''utf8mb3_roman_ci'' False ''mysql'',
     Charset 208 ''utf8mb3'' ''utf8mb3_persian_ci'' False ''mysql'',
     Charset 209 ''utf8mb3'' ''utf8mb3_esperanto_ci'' False ''mysql'',
     Charset 210 ''utf8mb3'' ''utf8mb3_hungarian_ci'' False ''mysql'',
     Charset 211 ''utf8mb3'' ''utf8mb3_sinhala_ci'' False ''mysql'',
     Charset 212 ''utf8mb3'' ''utf8mb3_german2_ci'' False ''mysql'',
     Charset 213 ''utf8mb3'' ''utf8mb3_croatian_ci'' False ''mysql'',
     Charset 214 ''utf8mb3'' ''utf8mb3_unicode_520_ci'' False ''mysql'',
     Charset 215 ''utf8mb3'' ''utf8mb3_vietnamese_ci'' False ''mysql'',
     Charset 223 ''utf8mb3'' ''utf8mb3_general_mysql500_ci'' False ''mysql'',
     Charset 224 ''utf8mb4'' ''utf8mb4_unicode_ci'' False ''mysql'',
     Charset 225 ''utf8mb4'' ''utf8mb4_icelandic_ci'' False ''mysql'',
     Charset 226 ''utf8mb4'' ''utf8mb4_latvian_ci'' False ''mysql'',
     Charset 227 ''utf8mb4'' ''utf8mb4_romanian_ci'' False ''mysql'',
     Charset 228 ''utf8mb4'' ''utf8mb4_slovenian_ci'' False ''mysql'',
     Charset 229 ''utf8mb4'' ''utf8mb4_polish_ci'' False ''mysql'',
     Charset 230 ''utf8mb4'' ''utf8mb4_estonian_ci'' False ''mysql'',
     Charset 231 ''utf8mb4'' ''utf8mb4_spanish_ci'' False ''mysql'',
     Charset 232 ''utf8mb4'' ''utf8mb4_swedish_ci'' False ''mysql'',
     Charset 233 ''utf8mb4'' ''utf8mb4_turkish_ci'' False ''mysql'',
     Charset 234 ''utf8mb4'' ''utf8mb4_czech_ci'' False ''mysql'',
     Charset 235 ''utf8mb4'' ''utf8mb4_danish_ci'' False ''mysql'',
     Charset 236 ''utf8mb4'' ''utf8mb4_lithuanian_ci'' False ''mysql'',
     Charset 237 ''utf8mb4'' ''utf8mb4_slovak_ci'' False ''mysql'',
     Charset 238 ''utf8mb4'' ''utf8mb4_spanish2_ci'' False ''mysql'',
     Charset 239 ''utf8mb4'' ''utf8mb4_roman_ci'' False ''mysql'',
     Charset 240 ''utf8mb4'' ''utf8mb4_persian_ci'' False ''mysql'',
     Charset 241 ''utf8mb4'' ''utf8mb4_esperanto_ci'' False ''mysql'',
     Charset 242 ''utf8mb4'' ''utf8mb4_hungarian_ci'' False ''mysql'',
     Charset 243 ''utf8mb4'' ''utf8mb4_sinhala_ci'' False ''mysql'',
     Charset 244 ''utf8mb4'' ''utf8mb4_german2_ci'' False ''mysql'',
     Charset 245 ''utf8mb4'' ''utf8mb4_croatian_ci'' False ''mysql'',
     Charset 246 ''utf8mb4'' ''utf8mb4_unicode_520_ci'' False ''mysql'',
     Charset 247 ''utf8mb4'' ''utf8mb4_vietnamese_ci'' False ''mysql'',
     Charset 248 ''gb18030'' ''gb18030_chinese_ci'' True ''mysql'',
     Charset 249 ''gb18030'' ''gb18030_bin'' False ''mysql'',
     Charset 250 ''gb18030'' ''gb18030_unicode_520_ci'' False ''mysql'',
     Charset 255 ''utf8mb4'' ''utf8mb4_0900_ai_ci'' True ''mysql'',
     Charset 256 ''utf8mb4'' ''utf8mb4_de_pb_0900_ai_ci'' False ''mysql'',
     Charset 257 ''utf8mb4'' ''utf8mb4_is_0900_ai_ci'' False ''mysql'',
     Charset 258 ''utf8mb4'' ''utf8mb4_lv_0900_ai_ci'' False ''mysql'',
     Charset 259 ''utf8mb4'' ''utf8mb4_ro_0900_ai_ci'' False ''mysql'',
     Charset 260 ''utf8mb4'' ''utf8mb4_sl_0900_ai_ci'' False ''mysql'',
     Charset 261 ''utf8mb4'' ''utf8mb4_pl_0900_ai_ci'' False ''mysql'',
     Charset 262 ''utf8mb4'' ''utf8mb4_et_0900_ai_ci'' False ''mysql'',
     Charset 263 ''utf8mb4'' ''utf8mb4_es_0900_ai_ci'' False ''mysql'',
     Charset 264 ''utf8mb4'' ''utf8mb4_sv_0900_ai_ci'' False ''mysql'',
     Charset 265 ''utf8mb4'' ''utf8mb4_tr_0900_ai_ci'' False ''mysql'',
     Charset 266 ''utf8mb4'' ''utf8mb4_cs_0900_ai_ci'' False ''mysql'',
     Charset 267 ''utf8mb4'' ''utf8mb4_da_0900_ai_ci'' False ''mysql'',
     Charset 268 ''utf8mb4'' ''utf8mb4_lt_0900_ai_ci'' False ''mysql'',
     Charset 269 ''utf8mb4'' ''utf8mb4_sk_0900_ai_ci'' False ''mysql'',
     Charset 270 ''utf8mb4'' ''utf8mb4_es_trad_0900_ai_ci'' False ''mysql'',
     Charset 271 ''utf8mb4'' ''utf8mb4_la_0900_ai_ci'' False ''mysql'',
     Charset 273 ''utf8mb4'' ''utf8mb4_eo_0900_ai_ci'' False ''mysql'',
     Charset 274 ''utf8mb4'' ''utf8mb4_hu_0900_ai_ci'' False ''mysql'',
     Charset 275 ''utf8mb4'' ''utf8mb4_hr_0900_ai_ci'' False ''mysql'',
     Charset 277 ''utf8mb4'' ''utf8mb4_vi_0900_ai_ci'' False ''mysql'',
     Charset 278 ''utf8mb4'' ''utf8mb4_0900_as_cs'' False ''mysql'',
     Charset 279 ''utf8mb4'' ''utf8mb4_de_pb_0900_as_cs'' False ''mysql'',
     Charset 280 ''utf8mb4'' ''utf8mb4_is_0900_as_cs'' False ''mysql'',
     Charset 281 ''utf8mb4'' ''utf8mb4_lv_0900_as_cs'' False ''mysql'',
     Charset 282 ''utf8mb4'' ''utf8mb4_ro_0900_as_cs'' False ''mysql'',
     Charset 283 ''utf8mb4'' ''utf8mb4_sl_0900_as_cs'' False ''mysql'',
     Charset 284 ''utf8mb4'' ''utf8mb4_pl_0900_as_cs'' False ''mysql'',
     Charset 285 ''utf8mb4'' ''utf8mb4_et_0900_as_cs'' False ''mysql'',
     Charset 286 ''utf8mb4'' ''utf8mb4_es_0900_as_cs'' False ''mysql'',
     Charset 287 ''utf8mb4'' ''utf8mb4_sv_0900_as_cs'' False ''mysql'',
     Charset 288 ''utf8mb4'' ''utf8mb4_tr_0900_as_cs'' False ''mysql'',
     Charset 289 ''utf8mb4'' ''utf8mb4_cs_0900_as_cs'' False ''mysql'',
     Charset 290 ''utf8mb4'' ''utf8mb4_da_0900_as_cs'' False ''mysql'',
     Charset 291 ''utf8mb4'' ''utf8mb4_lt_0900_as_cs'' False ''mysql'',
     Charset 292 ''utf8mb4'' ''utf8mb4_sk_0900_as_cs'' False ''mysql'',
     Charset 293 ''utf8mb4'' ''utf8mb4_es_trad_0900_as_cs'' False ''mysql'',
     Charset 294 ''utf8mb4'' ''utf8mb4_la_0900_as_cs'' False ''mysql'',
     Charset 296 ''utf8mb4'' ''utf8mb4_eo_0900_as_cs'' False ''mysql'',
     Charset 297 ''utf8mb4'' ''utf8mb4_hu_0900_as_cs'' False ''mysql'',
     Charset 298 ''utf8mb4'' ''utf8mb4_hr_0900_as_cs'' False ''mysql'',
     Charset 300 ''utf8mb4'' ''utf8mb4_vi_0900_as_cs'' False ''mysql'',
     Charset 303 ''utf8mb4'' ''utf8mb4_ja_0900_as_cs'' False ''mysql'',
     Charset 304 ''utf8mb4'' ''utf8mb4_ja_0900_as_cs_ks'' False ''mysql'',
     Charset 305 ''utf8mb4'' ''utf8mb4_0900_as_ci'' False ''mysql'',
     Charset 306 ''utf8mb4'' ''utf8mb4_ru_0900_ai_ci'' False ''mysql'',
     Charset 307 ''utf8mb4'' ''utf8mb4_ru_0900_as_cs'' False ''mysql'',
     Charset 308 ''utf8mb4'' ''utf8mb4_zh_0900_as_cs'' False ''mysql'',
     Charset 309 ''utf8mb4'' ''utf8mb4_0900_bin'' False ''mysql'',
     Charset 310 ''utf8mb4'' ''utf8mb4_nb_0900_ai_ci'' False ''mysql'',
     Charset 311 ''utf8mb4'' ''utf8mb4_nb_0900_as_cs'' False ''mysql'',
     Charset 312 ''utf8mb4'' ''utf8mb4_nn_0900_ai_ci'' False ''mysql'',
     Charset 313 ''utf8mb4'' ''utf8mb4_nn_0900_as_cs'' False ''mysql'',
     Charset 314 ''utf8mb4'' ''utf8mb4_sr_latn_0900_ai_ci'' False ''mysql'',
     Charset 315 ''utf8mb4'' ''utf8mb4_sr_latn_0900_as_cs'' False ''mysql'',
     Charset 316 ''utf8mb4'' ''utf8mb4_bs_0900_ai_ci'' False ''mysql'',
     Charset 317 ''utf8mb4'' ''utf8mb4_bs_0900_as_cs'' False ''mysql'',
     Charset 318 ''utf8mb4'' ''utf8mb4_bg_0900_ai_ci'' False ''mysql'',
     Charset 319 ''utf8mb4'' ''utf8mb4_bg_0900_as_cs'' False ''mysql'',
     Charset 320 ''utf8mb4'' ''utf8mb4_gl_0900_ai_ci'' False ''mysql'',
     Charset 321 ''utf8mb4'' ''utf8mb4_gl_0900_as_cs'' False ''mysql'',
     Charset 322 ''utf8mb4'' ''utf8mb4_mn_cyrl_0900_ai_ci'' False ''mysql'',
     Charset 323 ''utf8mb4'' ''utf8mb4_mn_cyrl_0900_as_cs'' False ''mysql'']"

definition mariadb_charsets_1 :: "charset list" where
  "mariadb_charsets_1 =
    [Charset 1 ''big5'' ''big5_chinese_ci'' True ''mariadb'',
     Charset 2 ''latin2'' ''latin2_czech_cs'' False ''mariadb'',
     Charset 3 ''dec8'' ''dec8_swedish_ci'' True ''mariadb'',
     Charset 4 ''cp850'' ''cp850_general_ci'' True ''mariadb'',
     Charset 5 ''latin1'' ''latin1_german1_ci'' False ''mariadb'',
     Charset 6 ''hp8'' ''hp8_english_ci'' True ''mariadb'',
     Charset 7 ''koi8r'' ''koi8r_general_ci'' True ''mariadb'',
     Charset 8 ''latin1'' ''latin1_swedish_ci'' True ''mariadb'',
     Charset 9 ''latin2'' ''latin2_general_ci'' True ''mariadb'',
     Charset 10 ''swe7'' ''swe7_swedish_ci'' True ''mariadb'',
     Charset 11 ''ascii'' ''ascii_general_ci'' True ''mariadb'',
     Charset 12 ''ujis'' ''ujis_japanese_ci'' True ''mariadb'',
     Charset 13 ''sjis'' ''sjis_japanese_ci'' True ''mariadb'',
     Charset 14 ''cp1251'' ''cp1251_bulgarian_ci'' False ''mariadb'',
     Charset 15 ''latin1'' ''latin1_danish_ci'' False ''mariadb'',
     Charset 16 ''hebrew'' ''hebrew_general_ci'' True ''mariadb'',
     Charset 18 ''tis620'' ''tis620_thai_ci'' True ''mariadb'',
     Charset 19 ''euckr'' ''euckr_korean_ci'' True ''mariadb'',
     Charset 20 ''latin7'' ''latin7_estonian_cs'' False ''mariadb'',
     Charset 21 ''latin2'' ''latin2_hungarian_ci'' False ''mariadb'',
     Charset 22 ''koi8u'' ''koi8u_general_ci'' True ''mariadb'',
     Charset 23 ''cp1251'' ''cp1251_ukrainian_ci'' False ''mariadb'',
     Charset 24 ''gb2312'' ''gb2312_chinese_ci'' True ''mariadb'',
     Charset 25 ''greek'' ''greek_general_ci'' True ''mariadb'',
     Charset 26 ''cp1250'' ''cp1250_general_ci'' True ''mariadb'',
     Charset 27 ''latin2'' ''latin2_croatian_ci'' False ''mariadb'',
     Charset 28 ''gbk'' ''gbk_chinese_ci'' True ''mariadb'',
     Charset 29 ''cp1257'' ''cp1257_lithuanian_ci'' False ''mariadb'',
     Charset 30 ''latin5'' ''latin5_turkish_ci'' True ''mariadb'',
     Charset 31 ''latin1'' ''latin1_german2_ci'' False ''mariadb'',
     Charset 32 ''armscii8'' ''armscii8_general_ci'' True ''mariadb'',
     Charset 33 ''utf8mb3'' ''utf8mb3_general_ci'' True ''mariadb'',
     Charset 34 ''cp1250'' ''cp1250_czech_cs'' False ''mariadb'',
     Charset 35 ''ucs2'' ''ucs2_general_ci'' True ''mariadb'',
     Charset 36 ''cp866'' ''cp866_general_ci'' True ''mariadb'',
     Charset 37 ''keybcs2'' ''keybcs2_general_ci'' True ''mariadb'',
     Charset 38 ''macce'' ''macce_general_ci'' True ''mariadb'',
     Charset 39 ''macroman'' ''macroman_general_ci'' True ''mariadb'',
     Charset 40 ''cp852'' ''cp852_general_ci'' True ''mariadb'',
     Charset 41 ''latin7'' ''latin7_general_ci'' True ''mariadb'',
     Charset 42 ''latin7'' ''latin7_general_cs'' False ''mariadb'',
     Charset 43 ''macce'' ''macce_bin'' False ''mariadb'',
     Charset 44 ''cp1250'' ''cp1250_croatian_ci'' False ''mariadb'',
     Charset 45 ''utf8mb4'' ''utf8mb4_general_ci'' True ''mariadb'',
     Charset 46 ''utf8mb4'' ''utf8mb4_bin'' False ''mariadb'',
     Charset 47 ''latin1'' ''latin1_bin'' False ''mariadb'',
     Charset 48 ''latin1'' ''latin1_general_ci'' False ''mariadb'',
     Charset 49 ''latin1'' ''latin1_general_cs'' False ''mariadb'',
     Charset 50 ''cp1251'' ''cp1251_bin'' False ''mariadb'',
     Charset 51 ''cp1251'' ''cp1251_general_ci'' True ''mariadb'',
     Charset 52 ''cp1251'' ''cp1251_general_cs'' False ''mariadb'',
     Charset 53 ''macroman'' ''macroman_bin'' False ''mariadb'',
     Charset 54 ''utf16'' ''utf16_general_ci'' True ''mariadb'',
     Charset 55 ''utf16'' ''utf16_bin'' False ''mariadb'',
     Charset 56 ''utf16le'' ''utf16le_general_ci'' True ''mariadb'',
     Charset 57 ''cp1256'' ''cp1256_general_ci'' True ''mariadb'',
     Charset 58 ''cp1257'' ''cp1257_bin'' False ''mariadb'',
     Charset 59 ''cp1257'' ''cp1257_general_ci'' True ''mariadb'',
     Charset 60 ''utf32'' ''utf32_general_ci'' True ''mariadb'',
     Charset 61 ''utf32'' ''utf32_bin'' False ''mariadb'',
     Charset 62 ''utf16le'' ''utf16le_bin'' False ''mariadb'',
     Charset 63 ''binary'' ''binary'' True ''mariadb'',
     Charset 64 ''armscii8'' ''armscii8_bin'' False ''mariadb'',
     Charset 65 ''ascii'' ''ascii_bin'' False ''mariadb'',
     Charset 66 ''cp1250'' ''cp1250_bin'' False ''mariadb'',
     Charset 67 ''cp1256'' ''cp1256_bin'' False ''mariadb'',
     Charset 68 ''cp866'' ''cp866_bin'' False ''mariadb'',
     Charset 69 ''dec8'' ''dec8_bin'' False ''mariadb'',
     Charset 70 ''greek'' ''greek_bin'' False ''mariadb'',
     Charset 71 ''hebrew'' ''hebrew_bin'' False ''mariadb'',
     Charset 72 ''hp8'' ''hp8_bin'' False ''mariadb'',
     Charset 73 ''keybcs2'' ''keybcs2_bin'' False ''mariadb'',
     Charset 74 ''koi8r'' ''koi8r_bin'' False ''mariadb'',
     Charset 75 ''koi8u'' ''koi8u_bin'' False ''mariadb'',
     Charset 77 ''latin2'' ''latin2_bin'' False ''mariadb'',
     Charset 78 ''latin5'' ''latin5_bin'' False ''mariadb'',
     Charset 79 ''latin7'' ''latin7_bin'' False ''mariadb'',
     Charset 80 ''cp850'' ''cp850_bin'' False ''mariadb'',
     Charset 81 ''cp852'' ''cp852_bin'' False ''mariadb'',
     Charset 82 ''swe7'' ''swe7_bin'' False ''mariadb'',
     Charset 83 ''utf8mb3'' ''utf8mb3_bin'' False ''mariadb'',
     Charset 84 ''big5'' ''big5_bin'' False ''mariadb'',
     Charset 85 ''euckr'' ''euckr_bin'' False ''mariadb'',
     Charset 86 ''gb2312'' ''gb2312_bin'' False ''mariadb'',
     Charset 87 ''gbk'' ''gbk_bin'' False ''mariadb'',
     Charset 88 ''sjis'' ''sjis_bin'' False ''mariadb'',
     Charset 89 ''tis620'' ''tis620_bin'' False ''mariadb'',
     Charset 90 ''ucs2'' ''ucs2_bin'' False ''mariadb'',
     Charset 91 ''ujis'' ''ujis_bin'' False ''mariadb'',
     Charset 92 ''geostd8'' ''geostd8_general_ci'' True ''mariadb'',
     Charset 93 ''geostd8'' ''geostd8_bin'' False ''mariadb'',
     Charset 94 ''latin1'' ''latin1_spanish_ci'' False ''mariadb'',
     Charset 95 ''cp932'' ''cp932_japanese_ci'' True ''mariadb'',
     Charset 96 ''cp932'' ''cp932_bin'' False ''mariadb'',
     Charset 97 ''eucjpms'' ''eucjpms_japanese_ci'' True ''mariadb'',
     Charset 98 ''eucjpms'' ''eucjpms_bin'' False ''mariadb'',
     Charset 99 ''cp1250'' ''cp1250_polish_ci'' False ''mariadb'',
     Charset 101 ''utf16'' ''utf16_unicode_ci'' False ''mariadb'',
     Charset 102 ''utf16'' ''utf16_icelandic_ci'' False ''mariadb'',
     Charset 103 ''utf16'' ''utf16_latvian_ci'' False ''mariadb'',
     Charset 104 ''utf16'' ''utf16_romanian_ci'' False ''mariadb'',
     Charset 105 ''utf16'' ''utf16_slovenian_ci'' False ''mariadb'',
     Charset 106 ''utf16'' ''utf16_polish_ci'' False ''mariadb'',
     Charset 107 ''utf16'' ''utf16_estonian_ci'' False ''mariadb'',
     Charset 108 ''utf16'' ''utf16_spanish_ci'' False ''mariadb'',
     Charset 109 ''utf16'' ''utf16_swedish_ci'' False ''mariadb'',
     Charset 110 ''utf16'' ''utf16_turkish_ci'' False ''mariadb'',
     Charset 111 ''utf16'' ''utf16_czech_ci'' False ''mariadb'']"

definition mariadb_charsets_2 :: "charset list" where
  "mariadb_charsets_2 =
    [Charset 112 ''utf16'' ''utf16_danish_ci'' False ''mariadb'',
     Charset 113 ''utf16'' ''utf16_lithuanian_ci'' False ''mariadb'',
     Charset 114 ''utf16'' ''utf16_slovak_ci'' False ''mariadb'',
     Charset 115 ''utf16'' ''utf16_spanish2_ci'' False ''mariadb'',
     Charset 116 ''utf16'' ''utf16_roman_ci'' False ''mariadb'',
     Charset 117 ''utf16'' ''utf16_persian_ci'' False ''mariadb'',
     Charset 118 ''utf16'' ''utf16_esperanto_ci'' False ''mariadb'',
     Charset 119 ''utf16'' ''utf16_hungarian_ci'' False ''mariadb'',
     Charset 120 ''utf16'' ''utf16_sinhala_ci'' False ''mariadb'',
     Charset 121 ''utf16'' ''utf16_german2_ci'' False ''mariadb'',
     Charset 122 ''utf16'' ''utf16_croatian_mysql561_ci'' False ''mariadb'',
     Charset 123 ''utf16'' ''utf16_unicode_520_ci'' False ''mariadb'',
     Charset 124 ''utf16'' ''utf16_vietnamese_ci'' False ''mariadb'',
     Charset 128 ''ucs2'' ''ucs2_unicode_ci'' False ''mariadb'',
     Charset 129 ''ucs2'' ''ucs2_icelandic_ci'' False ''mariadb'',
     Charset 130 ''ucs2'' ''ucs2_latvian_ci'' False ''mariadb'',
     Charset 131 ''ucs2'' ''ucs2_romanian_ci'' False ''mariadb'',
     Charset 132 ''ucs2'' ''ucs2_slovenian_ci'' False ''mariadb'',
     Charset 133 ''ucs2'' ''ucs2_polish_ci'' False ''mariadb'',
     Charset 134 ''ucs2'' ''ucs2_estonian_ci'' False ''mariadb'',
     Charset 135 ''ucs2'' ''ucs2_spanish_ci'' False ''mariadb'',
     Charset 136 ''ucs2'' ''ucs2_swedish_ci'' False ''mariadb'',
     Charset 137 ''ucs2'' ''ucs2_turkish_ci'' False ''mariadb'',
     Charset 138 ''ucs2'' ''ucs2_czech_ci'' False ''mariadb'',
     Charset 139 ''ucs2'' ''ucs2_danish_ci'' False ''mariadb'',
     Charset 140 ''ucs2'' ''ucs2_lithuanian_ci'' False ''mariadb'',
     Charset 141 ''ucs2'' ''ucs2_slovak_ci'' False ''mariadb'',
     Charset 142 ''ucs2'' ''ucs2_spanish2_ci'' False ''mariadb'',
     Charset 143 ''ucs2'' ''ucs2_roman_ci'' False ''mariadb'',
     Charset 144 ''ucs2'' ''ucs2_persian_ci'' False ''mariadb'',
     Charset 145 ''ucs2'' ''ucs2_esperanto_ci'' False ''mariadb'',
     Charset 146 ''ucs2'' ''ucs2_hungarian_ci'' False ''mariadb'',
     Charset 147 ''ucs2'' ''ucs2_sinhala_ci'' False ''mariadb'',
     Charset 148 ''ucs2'' ''ucs2_german2_ci'' False ''mariadb'',
     Charset 149 ''ucs2'' ''ucs2_croatian_mysql561_ci'' False ''mariadb'',
     Charset 150 ''ucs2'' ''ucs2_unicode_520_ci'' False ''mariadb'',
     Charset 151 ''ucs2'' ''ucs2_vietnamese_ci'' False ''mariadb'',
     Charset 159 ''ucs2'' ''ucs2_general_mysql500_ci'' False ''mariadb'',
     Charset 160 ''utf32'' ''utf32_unicode_ci'' False ''mariadb'',
     Charset 161 ''utf32'' ''utf32_icelandic_ci'' False ''mariadb'',
     Charset 162 ''utf32'' ''utf32_latvian_ci'' False ''mariadb'',
     Charset 163 ''utf32'' ''utf32_romanian_ci'' False ''mariadb'',
     Charset 164 ''utf32'' ''utf32_slovenian_ci'' False ''mariadb'',
     Charset 165 ''utf32'' ''utf32_polish_ci'' False ''mariadb'',
     Charset 166 ''utf32'' ''utf32_estonian_ci'' False ''mariadb'',
     Charset 167 ''utf32'' ''utf32_spanish_ci'' False ''mariadb'',
     Charset 168 ''utf32'' ''utf32_swedish_ci'' False ''mariadb'',
     Charset 169 ''utf32'' ''utf32_turkish_ci'' False ''mariadb'',
     Charset 170 ''utf32'' ''utf32_czech_ci'' False ''mariadb'',
     Charset 171 ''utf32'' ''utf32_danish_ci'' False ''mariadb'',
     Charset 172 ''utf32'' ''utf32_lithuanian_ci'' False ''mariadb'',
     Charset 173 ''utf32'' ''utf32_slovak_ci'' False ''mariadb'',
     Charset 174 ''utf32'' ''utf32_spanish2_ci'' False ''mariadb'',
     Charset 175 ''utf32'' ''utf32_roman_ci'' False ''mariadb'',
     Charset 176 ''utf32'' ''utf32_persian_ci'' False ''mariadb'',
     Charset 177 ''utf32'' ''utf32_esperanto_ci'' False ''mariadb'',
     Charset 178 ''utf32'' ''utf32_hungarian_ci'' False ''mariadb'',
     Charset 179 ''utf32'' ''utf32_sinhala_ci'' False ''mariadb'',
     Charset 180 ''utf32'' ''utf32_german2_ci'' False ''mariadb'',
     Charset 181 ''utf32'' ''utf32_croatian_mysql561_ci'' False ''mariadb'',
     Charset 182 ''utf32'' ''utf32_unicode_520_ci'' False ''mariadb'',
     Charset 183 ''utf32'' ''utf32_vietnamese_ci'' False ''mariadb'',
     Charset 192 ''utf8mb3'' ''utf8mb3_unicode_ci'' False ''mariadb'',
     Charset 193 ''utf8mb3'' ''utf8mb3_icelandic_ci'' False ''mariadb'',
     Charset 194 ''utf8mb3'' ''utf8mb3_latvian_ci'' False ''mariadb'',
     Charset 195 ''utf8mb3'' ''utf8mb3_romanian_ci'' False ''mariadb'',
     Charset 196 ''utf8mb3'' ''utf8mb3_slovenian_ci'' False ''mariadb'',
     Charset 197 ''utf8mb3'' ''utf8mb3_polish_ci'' False ''mariadb'',
     Charset 198 ''utf8mb3'' ''utf8mb3_estonian_ci'' False ''mariadb'',
     Charset 199 ''utf8mb3'' ''utf8mb3_spanish_ci'' False ''mariadb'',
     Charset 200 ''utf8mb3'' ''utf8mb3_swedish_ci'' False ''mariadb'',
     Charset 201 ''utf8mb3'' ''utf8mb3_turkish_ci'' False ''mariadb'',
     Charset 202 ''utf8mb3'' ''utf8mb3_czech_ci'' False ''mariadb'',
     Charset 203 ''utf8mb3'' ''utf8mb3_danish_ci'' False ''mariadb'',
     Charset 204 ''utf8mb3'' ''utf8mb3_lithuanian_ci'' False ''mariadb'',
     Charset 205 ''utf8mb3'' ''utf8mb3_slovak_ci'' False ''mariadb'',
     Charset 206 ''utf8mb3'' ''utf8mb3_spanish2_ci'' False ''mariadb'',
     Charset 207 ''utf8mb3'' ''utf8mb3_roman_ci'' False ''mariadb'',
     Charset 208 ''utf8mb3'' ''utf8mb3_persian_ci'' False ''mariadb'',
     Charset 209 ''utf8mb3'' ''utf8mb3_esperanto_ci'' False ''mariadb'',
     Charset 210 ''utf8mb3'' ''utf8mb3_hungarian_ci'' False ''mariadb'',
     Charset 211 ''utf8mb3'' ''utf8mb3_sinhala_ci'' False ''mariadb'',
     Charset 212 ''utf8mb3'' ''utf8mb3_german2_ci'' False ''mariadb'',
     Charset 213 ''utf8mb3'' ''utf8mb3_croatian_mysql561_ci'' False ''mariadb'',
     Charset 214 ''utf8mb3'' ''utf8mb3_unicode_520_ci'' False ''mariadb'',
     Charset 215 ''utf8mb3'' ''utf8mb3_vietnamese_ci'' False ''mariadb'',
     Charset 223 ''utf8mb3'' ''utf8mb3_general_mysql500_ci'' False ''mariadb'',
     Charset 224 ''utf8mb4'' ''utf8mb4_unicode_ci'' False ''mariadb'',
     Charset 225 ''utf8mb4'' ''utf8mb4_icelandic_ci'' False ''mariadb'',
     Charset 226 ''utf8mb4'' ''utf8mb4_latvian_ci'' False ''mariadb'',
     Charset 227 ''utf8mb4'' ''utf8mb4_romanian_ci'' False ''mariadb'',
     Charset 228 ''utf8mb4'' ''utf8mb4_slovenian_ci'' False ''mariadb'',
     Charset 229 ''utf8mb4'' ''utf8mb4_polish_ci'' False ''mariadb'',
     Charset 230 ''utf8mb4'' ''utf8mb4_estonian_ci'' False ''mariadb'',
     Charset 231 ''utf8mb4'' ''utf8mb4_spanish_ci'' False ''mariadb'',
     Charset 232 ''utf8mb4'' ''utf8mb4_swedish_ci'' False ''mariadb'',
     Charset 233 ''utf8mb4'' ''utf8mb4_turkish_ci'' False ''mariadb'',
     Charset 234 ''utf8mb4'' ''utf8mb4_czech_ci'' False ''mariadb'',
     Charset 235 ''utf8mb4'' ''utf8mb4_danish_ci'' False ''mariadb'',
     Charset 236 ''utf8mb4'' ''utf8mb4_lithuanian_ci'' False ''mariadb'',
     Charset 237 ''utf8mb4'' ''utf8mb4_slovak_ci'' False ''mariadb'',
     Charset 238 ''utf8mb4'' ''utf8mb4_spanish2_ci'' False ''mariadb'',
     Charset 239 ''utf8mb4'' ''utf8mb4_roman_ci'' False ''mariadb'',
     Charset 240 ''utf8mb4'' ''utf8mb4_persian_ci'' False ''mariadb'',
     Charset 241 ''utf8mb4'' ''utf8mb4_esperanto_ci'' False ''mariadb'',
     Charset 242 ''utf8mb4'' ''utf8mb4_hungarian_ci'' False ''mariadb'',
     Charset 243 ''utf8mb4'' ''utf8mb4_sinhala_ci'' False ''mariadb'']"

definition mariadb_charsets_3 :: "charset list" where
  "mariadb_charsets_3 =
    [Charset 244 ''utf8mb4'' ''utf8mb4_german2_ci'' False ''mariadb'',
     Charset 245 ''utf8mb4'' ''utf8mb4_croatian_mysql561_ci'' False ''mariadb'',
     Charset 246 ''utf8mb4'' ''utf8mb4_unicode_520_ci'' False ''mariadb'',
     Charset 247 ''utf8mb4'' ''utf8mb4_vietnamese_ci'' False ''mariadb'',
     Charset 576 ''utf8mb3'' ''utf8mb3_croatian_ci'' False ''mariadb'',
     Charset 577 ''utf8mb3'' ''utf8mb3_myanmar_ci'' False ''mariadb'',
     Charset 578 ''utf8mb3'' ''utf8mb3_thai_520_w2'' False ''mariadb'',
     Charset 608 ''utf8mb4'' ''utf8mb4_croatian_ci'' False ''mariadb'',
     Charset 609 ''utf8mb4'' ''utf8mb4_myanmar_ci'' False ''mariadb'',
     Charset 610 ''utf8mb4'' ''utf8mb4_thai_520_w2'' False ''mariadb'',
     Charset 640 ''ucs2'' ''ucs2_croatian_ci'' False ''mariadb'',
     Charset 641 ''ucs2'' ''ucs2_myanmar_ci'' False ''mariadb'',
     Charset 642 ''ucs2'' ''ucs2_thai_520_w2'' False ''mariadb'',
     Charset 672 ''utf16'' ''utf16_croatian_ci'' False ''mariadb'',
     Charset 673 ''utf16'' ''utf16_myanmar_ci'' False ''mariadb'',
     Charset 674 ''utf16'' ''utf16_thai_520_w2'' False ''mariadb'',
     Charset 736 ''utf32'' ''utf32_croatian_ci'' False ''mariadb'',
     Charset 737 ''utf32'' ''utf32_myanmar_ci'' False ''mariadb'',
     Charset 738 ''utf32'' ''utf32_thai_520_w2'' False ''mariadb'',
     Charset 1025 ''big5'' ''big5_chinese_nopad_ci'' False ''mariadb'',
     Charset 1027 ''dec8'' ''dec8_swedish_nopad_ci'' False ''mariadb'',
     Charset 1028 ''cp850'' ''cp850_general_nopad_ci'' False ''mariadb'',
     Charset 1030 ''hp8'' ''hp8_english_nopad_ci'' False ''mariadb'',
     Charset 1031 ''koi8r'' ''koi8r_general_nopad_ci'' False ''mariadb'',
     Charset 1032 ''latin1'' ''latin1_swedish_nopad_ci'' False ''mariadb'',
     Charset 1033 ''latin2'' ''latin2_general_nopad_ci'' False ''mariadb'',
     Charset 1034 ''swe7'' ''swe7_swedish_nopad_ci'' False ''mariadb'',
     Charset 1035 ''ascii'' ''ascii_general_nopad_ci'' False ''mariadb'',
     Charset 1036 ''ujis'' ''ujis_japanese_nopad_ci'' False ''mariadb'',
     Charset 1037 ''sjis'' ''sjis_japanese_nopad_ci'' False ''mariadb'',
     Charset 1040 ''hebrew'' ''hebrew_general_nopad_ci'' False ''mariadb'',
     Charset 1042 ''tis620'' ''tis620_thai_nopad_ci'' False ''mariadb'',
     Charset 1043 ''euckr'' ''euckr_korean_nopad_ci'' False ''mariadb'',
     Charset 1046 ''koi8u'' ''koi8u_general_nopad_ci'' False ''mariadb'',
     Charset 1048 ''gb2312'' ''gb2312_chinese_nopad_ci'' False ''mariadb'',
     Charset 1049 ''greek'' ''greek_general_nopad_ci'' False ''mariadb'',
     Charset 1050 ''cp1250'' ''cp1250_general_nopad_ci'' False ''mariadb'',
     Charset 1052 ''gbk'' ''gbk_chinese_nopad_ci'' False ''mariadb'',
     Charset 1054 ''latin5'' ''latin5_turkish_nopad_ci'' False ''mariadb'',
     Charset 1056 ''armscii8'' ''armscii8_general_nopad_ci'' False ''mariadb'',
     Charset 1057 ''utf8mb3'' ''utf8mb3_general_nopad_ci'' False ''mariadb'',
     Charset 1059 ''ucs2'' ''ucs2_general_nopad_ci'' False ''mariadb'',
     Charset 1060 ''cp866'' ''cp866_general_nopad_ci'' False ''mariadb'',
     Charset 1061 ''keybcs2'' ''keybcs2_general_nopad_ci'' False ''mariadb'',
     Charset 1062 ''macce'' ''macce_general_nopad_ci'' False ''mariadb'',
     Charset 1063 ''macroman'' ''macroman_general_nopad_ci'' False ''mariadb'',
     Charset 1064 ''cp852'' ''cp852_general_nopad_ci'' False ''mariadb'',
     Charset 1065 ''latin7'' ''latin7_general_nopad_ci'' False ''mariadb'',
     Charset 1067 ''macce'' ''macce_nopad_bin'' False ''mariadb'',
     Charset 1069 ''utf8mb4'' ''utf8mb4_general_nopad_ci'' False ''mariadb'',
     Charset 1070 ''utf8mb4'' ''utf8mb4_nopad_bin'' False ''mariadb'',
     Charset 1071 ''latin1'' ''latin1_nopad_bin'' False ''mariadb'',
     Charset 1074 ''cp1251'' ''cp1251_nopad_bin'' False ''mariadb'',
     Charset 1075 ''cp1251'' ''cp1251_general_nopad_ci'' False ''mariadb'',
     Charset 1077 ''macroman'' ''macroman_nopad_bin'' False ''mariadb'',
     Charset 1078 ''utf16'' ''utf16_general_nopad_ci'' False ''mariadb'',
     Charset 1079 ''utf16'' ''utf16_nopad_bin'' False ''mariadb'',
     Charset 1080 ''utf16le'' ''utf16le_general_nopad_ci'' False ''mariadb'',
     Charset 1081 ''cp1256'' ''cp1256_general_nopad_ci'' False ''mariadb'',
     Charset 1082 ''cp1257'' ''cp1257_nopad_bin'' False ''mariadb'',
     Charset 1083 ''cp1257'' ''cp1257_general_nopad_ci'' False ''mariadb'',
     Charset 1084 ''utf32'' ''utf32_general_nopad_ci'' False ''mariadb'',
     Charset 1085 ''utf32'' ''utf32_nopad_bin'' False ''mariadb'',
     Charset 1086 ''utf16le'' ''utf16le_nopad_bin'' False ''mariadb'',
     Charset 1088 ''armscii8'' ''armscii8_nopad_bin'' False ''mariadb'',
     Charset 1089 ''ascii'' ''ascii_nopad_bin'' False ''mariadb'',
     Charset 1090 ''cp1250'' ''cp1250_nopad_bin'' False ''mariadb'',
     Charset 1091 ''cp1256'' ''cp1256_nopad_bin'' False ''mariadb'',
     Charset 1092 ''cp866'' ''cp866_nopad_bin'' False ''mariadb'',
     Charset 1093 ''dec8'' ''dec8_nopad_bin'' False ''mariadb'',
     Charset 1094 ''greek'' ''greek_nopad_bin'' False ''mariadb'',
     Charset 1095 ''hebrew'' ''hebrew_nopad_bin'' False ''mariadb'',
     Charset 1096 ''hp8'' ''hp8_nopad_bin'' False ''mariadb'',
     Charset 1097 ''keybcs2'' ''keybcs2_nopad_bin'' False ''mariadb'',
     Charset 1098 ''koi8r'' ''koi8r_nopad_bin'' False ''mariadb'',
     Charset 1099 ''koi8u'' ''koi8u_nopad_bin'' False ''mariadb'',
     Charset 1101 ''latin2'' ''latin2_nopad_bin'' False ''mariadb'',
     Charset 1102 ''latin5'' ''latin5_nopad_bin'' False ''mariadb'',
     Charset 1103 ''latin7'' ''latin7_nopad_bin'' False ''mariadb'',
     Charset 1104 ''cp850'' ''cp850_nopad_bin'' False ''mariadb'',
     Charset 1105 ''cp852'' ''cp852_nopad_bin'' False ''mariadb'',
     Charset 1106 ''swe7'' ''swe7_nopad_bin'' False ''mariadb'',
     Charset 1107 ''utf8mb3'' ''utf8mb3_nopad_bin'' False ''mariadb'',
     Charset 1108 ''big5'' ''big5_nopad_bin'' False ''mariadb'',
     Charset 1109 ''euckr'' ''euckr_nopad_bin'' False ''mariadb'',
     Charset 1110 ''gb2312'' ''gb2312_nopad_bin'' False ''mariadb'',
     Charset 1111 ''gbk'' ''gbk_nopad_bin'' False ''mariadb'',
     Charset 1112 ''sjis'' ''sjis_nopad_bin'' False ''mariadb'',
     Charset 1113 ''tis620'' ''tis620_nopad_bin'' False ''mariadb'',
     Charset 1114 ''ucs2'' ''ucs2_nopad_bin'' False ''mariadb'',
     Charset 1115 ''ujis'' ''ujis_nopad_bin'' False ''mariadb'',
     Charset 1116 ''geostd8'' ''geostd8_general_nopad_ci'' False ''mariadb'',
     Charset 1117 ''geostd8'' ''geostd8_nopad_bin'' False ''mariadb'',
     Charset 1119 ''cp932'' ''cp932_japanese_nopad_ci'' False ''mariadb'',
     Charset 1120 ''cp932'' ''cp932_nopad_bin'' False ''mariadb'',
     Charset 1121 ''eucjpms'' ''eucjpms_japanese_nopad_ci'' False ''mariadb'',
     Charset 1122 ''eucjpms'' ''eucjpms_nopad_bin'' False ''mariadb'',
     Charset 1125 ''utf16'' ''utf16_unicode_nopad_ci'' False ''mariadb'',
     Charset 1147 ''utf16'' ''utf16_unicode_520_nopad_ci'' False ''mariadb'',
     Charset 1152 ''ucs2'' ''ucs2_unicode_nopad_ci'' False ''mariadb'',
     Charset 1174 ''ucs2'' ''ucs2_unicode_520_nopad_ci'' False ''mariadb'',
     Charset 1184 ''utf32'' ''utf32_unicode_nopad_ci'' False ''mariadb'',
     Charset 1206 ''utf32'' ''utf32_unicode_520_nopad_ci'' False ''mariadb'',
     Charset 1216 ''utf8mb3'' ''utf8mb3_unicode_nopad_ci'' False ''mariadb'',
     Charset 1238 ''utf8mb3'' ''utf8mb3_unicode_520_nopad_ci'' False ''mariadb'',
     Charset 1248 ''utf8mb4'' ''utf8mb4_unicode_nopad_ci'' False ''mariadb'',
     Charset 1270 ''utf8mb4'' ''utf8mb4_unicode_520_nopad_ci'' False ''mariadb'']"

definition charset_table :: "charset list" where
  "charset_table = mysql_charsets_1 @ mysql_charsets_2 @ mariadb_charsets_1 @ mariadb_charsets_2 @ mariadb_charsets_3"

definition charsets :: charset_index where
  "charsets = fold add_charset charset_table \<lparr>by_id_dict = [], by_name_dict = []\<rparr>"

section \<open>Every entry is found\<close>

text \<open>
  The numbers of a server's character sets are all different, so that no entry hides an earlier one.
\<close>

lemma by_id_add:
  "by_id (add_charset c cs) i d = (if d = cs_dbms c \<and> i = cs_id c then Some c else by_id cs i d)"
  by (simp add: by_id_def add_charset_def inner_def Let_def update_conv')

lemma by_id_fold:
  assumes "distinct (map (\<lambda>c. (cs_dbms c, cs_id c)) cs)" "c \<in> set cs"
  shows "by_id (fold add_charset cs st) (cs_id c) (cs_dbms c) = Some c"
  using assms
proof (induction cs rule: rev_induct)
  case (snoc x cs)
  show ?case
  proof (cases "c = x")
    case False
    with snoc.prems have "c \<in> set cs" by simp
    moreover have "(cs_dbms x, cs_id x) \<notin> (\<lambda>c. (cs_dbms c, cs_id c)) ` set cs" using snoc.prems(1) by auto
    ultimately have "\<not> (cs_dbms c = cs_dbms x \<and> cs_id c = cs_id x)" by (metis (no_types, lifting) image_eqI)
    moreover have "distinct (map (\<lambda>c. (cs_dbms c, cs_id c)) cs)" using snoc.prems(1) by simp
    ultimately show ?thesis using snoc.IH \<open>c \<in> set cs\<close> by (auto simp: by_id_add)
  qed (simp add: by_id_add)
qed simp

text \<open>Congruences that keep the simplifier out of the entries that are not looked at yet.\<close>

lemma map_blocked: "map f xs = map f xs" by (rule refl)

lemma list_all_blocked: "list_all p xs = list_all p xs" by (rule refl)

lemma charset_ids:
  "map cs_id mysql_charsets_1 =
    [1, 2, 3, 4, 5, 6, 7, 8, 9, 10, 11, 12, 13, 14, 15, 16, 18, 19, 20, 21, 22, 23, 24, 25, 26, 27, 28, 29,
     30, 31, 32, 33, 34, 35, 36, 37, 38, 39, 40, 41, 42, 43, 44, 45, 46, 47, 48, 49, 50, 51, 52, 53, 54, 55,
     56, 57, 58, 59, 60, 61, 62, 63, 64, 65, 66, 67, 68, 69, 70, 71, 72, 73, 74, 75, 76, 77, 78, 79, 80, 81,
     82, 83, 84, 85, 86, 87, 88, 89, 90, 91, 92, 93, 94, 95, 96, 97, 98, 99, 101, 102, 103, 104, 105, 106,
     107, 108, 109, 110, 111, 112, 113, 114, 115, 116, 117, 118, 119, 120, 121, 122, 123, 124, 128, 129, 130,
     131, 132, 133, 134, 135, 136, 137, 138, 139, 140, 141, 142, 143, 144, 145, 146, 147, 148]"
  "map cs_id mysql_charsets_2 =
    [149, 150, 151, 159, 160, 161, 162, 163, 164, 165, 166, 167, 168, 169, 170, 171, 172, 173, 174, 175, 176,
     177, 178, 179, 180, 181, 182, 183, 192, 193, 194, 195, 196, 197, 198, 199, 200, 201, 202, 203, 204, 205,
     206, 207, 208, 209, 210, 211, 212, 213, 214, 215, 223, 224, 225, 226, 227, 228, 229, 230, 231, 232, 233,
     234, 235, 236, 237, 238, 239, 240, 241, 242, 243, 244, 245, 246, 247, 248, 249, 250, 255, 256, 257, 258,
     259, 260, 261, 262, 263, 264, 265, 266, 267, 268, 269, 270, 271, 273, 274, 275, 277, 278, 279, 280, 281,
     282, 283, 284, 285, 286, 287, 288, 289, 290, 291, 292, 293, 294, 296, 297, 298, 300, 303, 304, 305, 306,
     307, 308, 309, 310, 311, 312, 313, 314, 315, 316, 317, 318, 319, 320, 321, 322, 323]"
  "map cs_id mariadb_charsets_1 =
    [1, 2, 3, 4, 5, 6, 7, 8, 9, 10, 11, 12, 13, 14, 15, 16, 18, 19, 20, 21, 22, 23, 24, 25, 26, 27, 28, 29,
     30, 31, 32, 33, 34, 35, 36, 37, 38, 39, 40, 41, 42, 43, 44, 45, 46, 47, 48, 49, 50, 51, 52, 53, 54, 55,
     56, 57, 58, 59, 60, 61, 62, 63, 64, 65, 66, 67, 68, 69, 70, 71, 72, 73, 74, 75, 77, 78, 79, 80, 81, 82,
     83, 84, 85, 86, 87, 88, 89, 90, 91, 92, 93, 94, 95, 96, 97, 98, 99, 101, 102, 103, 104, 105, 106, 107,
     108, 109, 110, 111]"
  "map cs_id mariadb_charsets_2 =
    [112, 113, 114, 115, 116, 117, 118, 119, 120, 121, 122, 123, 124, 128, 129, 130, 131, 132, 133, 134, 135,
     136, 137, 138, 139, 140, 141, 142, 143, 144, 145, 146, 147, 148, 149, 150, 151, 159, 160, 161, 162, 163,
     164, 165, 166, 167, 168, 169, 170, 171, 172, 173, 174, 175, 176, 177, 178, 179, 180, 181, 182, 183, 192,
     193, 194, 195, 196, 197, 198, 199, 200, 201, 202, 203, 204, 205, 206, 207, 208, 209, 210, 211, 212, 213,
     214, 215, 223, 224, 225, 226, 227, 228, 229, 230, 231, 232, 233, 234, 235, 236, 237, 238, 239, 240, 241,
     242, 243]"
  "map cs_id mariadb_charsets_3 =
    [244, 245, 246, 247, 576, 577, 578, 608, 609, 610, 640, 641, 642, 672, 673, 674, 736, 737, 738, 1025,
     1027, 1028, 1030, 1031, 1032, 1033, 1034, 1035, 1036, 1037, 1040, 1042, 1043, 1046, 1048, 1049, 1050,
     1052, 1054, 1056, 1057, 1059, 1060, 1061, 1062, 1063, 1064, 1065, 1067, 1069, 1070, 1071, 1074, 1075,
     1077, 1078, 1079, 1080, 1081, 1082, 1083, 1084, 1085, 1086, 1088, 1089, 1090, 1091, 1092, 1093, 1094,
     1095, 1096, 1097, 1098, 1099, 1101, 1102, 1103, 1104, 1105, 1106, 1107, 1108, 1109, 1110, 1111, 1112,
     1113, 1114, 1115, 1116, 1117, 1119, 1120, 1121, 1122, 1125, 1147, 1152, 1174, 1184, 1206, 1216, 1238,
     1248, 1270]"
  unfolding mysql_charsets_1_def mysql_charsets_2_def mariadb_charsets_1_def mariadb_charsets_2_def mariadb_charsets_3_def
  by (simp_all only: list.map charset.sel cong: map_blocked)

lemma charset_servers:
  "list_all (\<lambda>c. cs_dbms c = ''mysql'') mysql_charsets_1"
  "list_all (\<lambda>c. cs_dbms c = ''mysql'') mysql_charsets_2"
  "list_all (\<lambda>c. cs_dbms c = ''mariadb'') mariadb_charsets_1"
  "list_all (\<lambda>c. cs_dbms c = ''mariadb'') mariadb_charsets_2"
  "list_all (\<lambda>c. cs_dbms c = ''mariadb'') mariadb_charsets_3"
  unfolding mysql_charsets_1_def mysql_charsets_2_def mariadb_charsets_1_def mariadb_charsets_2_def mariadb_charsets_3_def
  by (simp_all only: list.pred_inject charset.sel simp_thms cong: list_all_blocked)

fun increasing :: "int list \<Rightarrow> bool" where
  "increasing (x # y # xs) = (x < y \<and> increasing (y # xs))"
| "increasing _ = True"

lemma increasing_distinct:
  assumes "increasing xs"
  shows "distinct xs"
proof -
  have "sorted_wrt (<) xs" using assms by (induction xs rule: increasing.induct) (auto intro: less_trans)
  then show ?thesis by (simp add: strict_sorted_iff)
qed

lemma charset_ids_distinct:
  "distinct (map cs_id (mysql_charsets_1 @ mysql_charsets_2))"
  "distinct (map cs_id (mariadb_charsets_1 @ mariadb_charsets_2 @ mariadb_charsets_3))"
  by (rule increasing_distinct, simp add: charset_ids)+

lemma charset_found:
  assumes "c \<in> set charset_table"
  shows "by_id charsets (cs_id c) (cs_dbms c) = Some c"
proof -
  let ?key = "\<lambda>c. (cs_dbms c, cs_id c)"
  let ?mysql = "mysql_charsets_1 @ mysql_charsets_2" and ?mariadb = "mariadb_charsets_1 @ mariadb_charsets_2 @ mariadb_charsets_3"
  have d: "distinct (map ?key xs)" if "distinct (map cs_id xs)" for xs
    using that by (auto simp: distinct_map inj_on_def)
  have "cs_dbms c = ''mysql''" if "c \<in> set ?mysql" for c using that charset_servers(1,2) by (auto simp: list_all_iff)
  moreover have "cs_dbms c = ''mariadb''" if "c \<in> set ?mariadb" for c using that charset_servers(3-5) by (auto simp: list_all_iff)
  ultimately have "set (map ?key ?mysql) \<inter> set (map ?key ?mariadb) = {}" by fastforce
  then have "distinct (map ?key (?mysql @ ?mariadb))"
    unfolding map_append [of ?key ?mysql] distinct_append using d [OF charset_ids_distinct(1)] d [OF charset_ids_distinct(2)] by blast
  then have "distinct (map ?key charset_table)" by (simp add: charset_table_def)
  then show ?thesis unfolding charsets_def using assms by (rule by_id_fold)
qed

end
