(* ===== verification/TableMap.thy ===== *)
theory TableMap
  imports EventCodec Charsets
begin

text \<open>
  \<^verbatim>\<open>TableMapEvent\<close> of \<^verbatim>\<open>pymysqlreplication/row_event.py\<close>: the description of a table that precedes its row
  events, with the optional metadata (names, signs, character sets, members of enums and sets, primary
  keys) in fields of type, length and value. The event enters its table into the table map of the
  stream, which is an argument here. The columns are objects that the event, its table and the entry
  of the table map share, so that \<^verbatim>\<open>_sync_column_info\<close> changes them for all three.
\<close>

section \<open>Kinds of columns\<close>

definition is_character_column :: "nat \<Rightarrow> string \<Rightarrow> bool" where
  "is_character_column t dbms \<longleftrightarrow>
    t \<in> {FT_STRING, FT_VAR_STRING, FT_VARCHAR, FT_BLOB} \<or> t = FT_GEOMETRY \<and> dbms = ''mariadb''"

definition is_enum_column :: "nat \<Rightarrow> bool" where
  "is_enum_column t \<longleftrightarrow> t = FT_ENUM"

definition is_set_column :: "nat \<Rightarrow> bool" where
  "is_set_column t \<longleftrightarrow> t = FT_SET"

definition is_enum_or_set_column :: "nat \<Rightarrow> string \<Rightarrow> bool" where
  "is_enum_or_set_column t dbms \<longleftrightarrow> t \<in> {FT_ENUM, FT_SET}"

definition is_numeric_column :: "nat \<Rightarrow> bool" where
  "is_numeric_column t \<longleftrightarrow>
    t \<in> {FT_TINY, FT_SHORT, FT_INT24, FT_LONG, FT_LONGLONG, FT_NEWDECIMAL, FT_FLOAT, FT_DOUBLE, FT_YEAR}"

section \<open>Optional metadata\<close>

text \<open>
  Numbers in length-coded form may be \<^verbatim>\<open>None\<close>. The lists that a method leaves by an early \<^verbatim>\<open>return\<close> are
  \<^verbatim>\<open>None\<close>, too.
\<close>

record optional_meta_data =
  om_unsigned_column_list :: "bool list"
  om_default_charset_collation :: "nat option"
  om_charset_collation :: "(nat option, nat option) dict"
  om_column_charset :: "nat option list"
  om_column_name_list :: "string list"
  om_set_str_value_list :: "string list list option"
  om_set_enum_str_value_list :: "string list list option"
  om_geometry_type_list :: "nat option list"
  om_simple_primary_key_list :: "nat option list"
  om_primary_keys_with_prefix :: "(nat option, nat option) dict"
  om_enum_and_set_default_charset :: "nat option"
  om_enum_and_set_charset_collation :: "(nat option, nat option) dict"
  om_enum_and_set_default_column_charset_list :: "nat option list"
  om_charset_collation_list :: "nat option list option"
  om_enum_and_set_collation_list :: "nat option list option"
  om_visibility_list :: "bool list"

definition new_optional_meta_data :: optional_meta_data where
  "new_optional_meta_data = \<lparr>om_unsigned_column_list = [], om_default_charset_collation = None,
     om_charset_collation = [], om_column_charset = [], om_column_name_list = [],
     om_set_str_value_list = Some [], om_set_enum_str_value_list = Some [], om_geometry_type_list = [],
     om_simple_primary_key_list = [], om_primary_keys_with_prefix = [], om_enum_and_set_default_charset = None,
     om_enum_and_set_charset_collation = [], om_enum_and_set_default_column_charset_list = [],
     om_charset_collation_list = Some [], om_enum_and_set_collation_list = Some [], om_visibility_list = []\<rparr>"

subsection \<open>Flags\<close>

text \<open>
  The loop of \<^verbatim>\<open>_read_bool_list\<close>: one bit for each column, or for each numeric column, the highest bit
  of a byte first.
\<close>

fun bool_list_loop :: "bool \<Rightarrow> byte list \<Rightarrow> column list \<Rightarrow> nat \<Rightarrow> nat \<Rightarrow> byte \<Rightarrow> bool list res" where
  "bool_list_loop signedness_flag data [] byte_idx bit_idx b = Inr []"
| "bool_list_loop signedness_flag data (c # cs) byte_idx bit_idx b =
    (if \<not> is_numeric_column (col_type c) \<and> signedness_flag then bool_list_loop signedness_flag data cs byte_idx bit_idx b
     else bindE (if bit_idx = 0 then nthE data byte_idx else Inr b) (\<lambda>b.
       bindE (bool_list_loop signedness_flag data cs (if bit_idx = 0 then Suc byte_idx else byte_idx) ((bit_idx + 1) mod 8) b) (\<lambda>bs.
         Inr ((unat b AND drop_bit bit_idx 128 \<noteq> 0) # bs))))"

definition read_bool_list :: "'p packet_ops \<Rightarrow> column list \<Rightarrow> nat \<Rightarrow> bool \<Rightarrow> ('p wrapper, bool list) act" where
  "read_bool_list P columns len signedness_flag =
    bindA (packet_read P (int len)) (\<lambda>data. pureA (bool_list_loop signedness_flag data columns 0 0 0))"

text \<open>\<^verbatim>\<open>_convert_include_non_numeric_column\<close>.\<close>

fun convert_include_non_numeric_column :: "column list \<Rightarrow> bool list \<Rightarrow> nat \<Rightarrow> bool list res" where
  "convert_include_non_numeric_column [] signedness position = Inr []"
| "convert_include_non_numeric_column (c # cs) signedness position =
    (if is_numeric_column (col_type c) then
       bindE (nthE signedness position) (\<lambda>s.
       bindE (convert_include_non_numeric_column cs signedness (Suc position)) (\<lambda>bs. Inr (s # bs)))
     else bindE (convert_include_non_numeric_column cs signedness position) (\<lambda>bs. Inr (False # bs)))"

subsection \<open>Lists of numbers and names\<close>

definition read_ints :: "nat \<Rightarrow> 'p packet_ops \<Rightarrow> nat \<Rightarrow> ('p wrapper, nat option list) act" where
  "read_ints rounds P len = read_items rounds len (read_length_coded_binary P)"

definition read_pair :: "'p packet_ops \<Rightarrow> ('p wrapper, nat option \<times> nat option) act" where
  "read_pair P = bindA (read_length_coded_binary P) (\<lambda>a. bindA (read_length_coded_binary P) (\<lambda>b. retA (a, b)))"

definition set_items :: "('k \<times> 'v) list \<Rightarrow> ('k, 'v) dict" where
  "set_items xs = fold (\<lambda>(k, v). AList.update k v) xs []"

text \<open>Without a byte the method returns \<^verbatim>\<open>None\<close>, which its callers cannot unpack.\<close>

definition read_default_charset ::
    "nat \<Rightarrow> 'p packet_ops \<Rightarrow> nat \<Rightarrow> ('p wrapper, nat option \<times> (nat option, nat option) dict) act" where
  "read_default_charset rounds P len = (\<lambda>w.
    let read_until = pw_read_bytes w + int len in
    if read_until \<le> pw_read_bytes w then (Inl TypeError, w)
    else bindA (read_length_coded_binary P) (\<lambda>default_charset_collation.
         bindA (read_before rounds read_until (read_pair P)) (\<lambda>pairs.
         retA (default_charset_collation, set_items pairs))) w)"

definition read_column_names :: "nat \<Rightarrow> row_lib \<Rightarrow> 'p packet_ops \<Rightarrow> nat \<Rightarrow> ('p wrapper, string list) act" where
  "read_column_names rounds L P len =
    read_items rounds len (bindA (read_variable_length_string rounds P) (\<lambda>bs. pureA (utf8 L bs)))"

text \<open>Bytes that are not UTF-8 give the empty text.\<close>

definition read_type_value :: "nat \<Rightarrow> row_lib \<Rightarrow> 'p packet_ops \<Rightarrow> ('p wrapper, string) act" where
  "read_type_value rounds L P =
    bindA (read_variable_length_string rounds P) (\<lambda>bs. pureA (case utf8 L bs of
      Inr s \<Rightarrow> Inr s | Inl e \<Rightarrow> if e = UnicodeError then Inr [] else Inl e))"

definition read_type_value_list :: "nat \<Rightarrow> row_lib \<Rightarrow> 'p packet_ops \<Rightarrow> ('p wrapper, string list) act" where
  "read_type_value_list rounds L P =
    bindA (read_length_coded_binary P) (\<lambda>c. bindA (pureA (notNone c)) (\<lambda>value_count.
      read_times value_count (read_type_value rounds L P)))"

definition read_type_values :: "nat \<Rightarrow> row_lib \<Rightarrow> 'p packet_ops \<Rightarrow> nat \<Rightarrow> ('p wrapper, string list list option) act" where
  "read_type_values rounds L P len =
    (if len = 0 then retA None
     else bindA (read_items rounds len (read_type_value_list rounds L P)) (\<lambda>vs. retA (Some vs)))"

text \<open>The pairs of a list; an odd length raises IndexError.\<close>

fun pair_items :: "'a list \<Rightarrow> ('a \<times> 'a) list res" where
  "pair_items [] = Inr []"
| "pair_items [a] = Inl IndexError"
| "pair_items (a # b # xs) = bindE (pair_items xs) (\<lambda>ps. Inr ((a, b) # ps))"

definition read_primary_keys_with_prefix :: "nat \<Rightarrow> 'p packet_ops \<Rightarrow> nat \<Rightarrow> ('p wrapper, (nat option, nat option) dict) act" where
  "read_primary_keys_with_prefix rounds P len =
    bindA (read_ints rounds P len) (\<lambda>ints. pureA (bindE (pair_items ints) (\<lambda>ps. Inr (set_items ps))))"

subsection \<open>Character sets of columns\<close>

fun parsed_column_charset_by_default_charset ::
    "nat option \<Rightarrow> (nat option, nat option) dict \<Rightarrow> (nat \<Rightarrow> bool) \<Rightarrow> column list \<Rightarrow> nat \<Rightarrow> nat option list" where
  "parsed_column_charset_by_default_charset dflt charset detect [] position = []"
| "parsed_column_charset_by_default_charset dflt charset detect (c # cs) position =
    (if \<not> detect (col_type c) then parsed_column_charset_by_default_charset dflt charset detect cs position
     else (case map_of charset (Some position) of None \<Rightarrow> dflt | Some v \<Rightarrow> v)
       # parsed_column_charset_by_default_charset dflt charset detect cs (Suc position))"

fun column_charset_loop :: "nat option list \<Rightarrow> (nat \<Rightarrow> bool) \<Rightarrow> column list \<Rightarrow> nat \<Rightarrow> nat option list res" where
  "column_charset_loop charset_list detect [] position = Inr []"
| "column_charset_loop charset_list detect (c # cs) position =
    (if \<not> detect (col_type c) then column_charset_loop charset_list detect cs position
     else bindE (nthE charset_list position) (\<lambda>v.
          bindE (column_charset_loop charset_list detect cs (Suc position)) (\<lambda>vs. Inr (v # vs))))"

definition parsed_column_charset_by_column_charset ::
    "nat option list \<Rightarrow> (nat \<Rightarrow> bool) \<Rightarrow> column list \<Rightarrow> nat option list option res" where
  "parsed_column_charset_by_column_charset charset_list detect columns =
    (if charset_list = [] then Inr None
     else bindE (column_charset_loop charset_list detect columns 0) (\<lambda>vs. Inr (Some vs)))"

subsection \<open>The fields\<close>

text \<open>
  One field of \<^verbatim>\<open>_get_optional_meta_data\<close>: what it does to the metadata. A type that is none of
  \<^verbatim>\<open>MetadataFieldType\<close> raises ValueError; type 128 is known and does nothing.
\<close>

definition read_meta_field ::
    "nat \<Rightarrow> row_lib \<Rightarrow> 'p packet_ops \<Rightarrow> string \<Rightarrow> column list \<Rightarrow> nat \<Rightarrow> nat option
      \<Rightarrow> ('p wrapper, optional_meta_data \<Rightarrow> optional_meta_data) act" where
  "read_meta_field rounds L P dbms columns t len =
    (if t = 128 then retA (\<lambda>m. m)
     else if \<not> (1 \<le> t \<and> t \<le> 12) then raiseA ValueError
     else bindA (pureA (notNone len)) (\<lambda>len.
       if t = 1 then
         bindA (read_bool_list P columns len True) (\<lambda>bs.
         bindA (pureA (convert_include_non_numeric_column columns bs 0)) (\<lambda>unsigneds.
         retA (\<lambda>m. m\<lparr>om_unsigned_column_list := unsigneds\<rparr>)))
       else if t = 2 then
         bindA (read_default_charset rounds P len) (\<lambda>(d, cc).
         retA (\<lambda>m. m\<lparr>om_default_charset_collation := d, om_charset_collation := cc,
           om_charset_collation_list := Some (parsed_column_charset_by_default_charset d cc (\<lambda>t. is_character_column t dbms) columns 0)\<rparr>))
       else if t = 3 then
         bindA (read_ints rounds P len) (\<lambda>ns.
         bindA (pureA (parsed_column_charset_by_column_charset ns (\<lambda>t. is_character_column t dbms) columns)) (\<lambda>l.
         retA (\<lambda>m. m\<lparr>om_column_charset := ns, om_charset_collation_list := l\<rparr>)))
       else if t = 4 then
         bindA (read_column_names rounds L P len) (\<lambda>nms. retA (\<lambda>m. m\<lparr>om_column_name_list := nms\<rparr>))
       else if t = 5 then
         bindA (read_type_values rounds L P len) (\<lambda>vs. retA (\<lambda>m. m\<lparr>om_set_str_value_list := vs\<rparr>))
       else if t = 6 then
         bindA (read_type_values rounds L P len) (\<lambda>vs. retA (\<lambda>m. m\<lparr>om_set_enum_str_value_list := vs\<rparr>))
       else if t = 7 then
         bindA (read_ints rounds P len) (\<lambda>ns. retA (\<lambda>m. m\<lparr>om_geometry_type_list := ns\<rparr>))
       else if t = 8 then
         bindA (read_ints rounds P len) (\<lambda>ns. retA (\<lambda>m. m\<lparr>om_simple_primary_key_list := ns\<rparr>))
       else if t = 9 then
         bindA (read_primary_keys_with_prefix rounds P len) (\<lambda>d. retA (\<lambda>m. m\<lparr>om_primary_keys_with_prefix := d\<rparr>))
       else if t = 10 then
         bindA (read_default_charset rounds P len) (\<lambda>(d, cc).
         retA (\<lambda>m. m\<lparr>om_enum_and_set_default_charset := d, om_enum_and_set_charset_collation := cc,
           om_enum_and_set_collation_list := Some (parsed_column_charset_by_default_charset d cc (\<lambda>t. is_enum_or_set_column t dbms) columns 0)\<rparr>))
       else if t = 11 then
         bindA (read_ints rounds P len) (\<lambda>ns.
         bindA (pureA (parsed_column_charset_by_column_charset ns (\<lambda>t. is_enum_or_set_column t dbms) columns)) (\<lambda>l.
         retA (\<lambda>m. m\<lparr>om_enum_and_set_default_column_charset_list := ns, om_enum_and_set_collation_list := l\<rparr>)))
       else
         bindA (read_bool_list P columns len False) (\<lambda>bs. retA (\<lambda>m. m\<lparr>om_visibility_list := bs\<rparr>))))"

definition read_one_meta_field ::
    "nat \<Rightarrow> row_lib \<Rightarrow> 'p packet_ops \<Rightarrow> string \<Rightarrow> column list \<Rightarrow> ('p wrapper, optional_meta_data \<Rightarrow> optional_meta_data) act" where
  "read_one_meta_field rounds L P dbms columns =
    bindA (packet_read P 1) (\<lambda>bs. bindA (pureA (nthE bs 0)) (\<lambda>b.
    bindA (read_length_coded_binary P) (\<lambda>len. read_meta_field rounds L P dbms columns (unat b) len)))"

text \<open>\<^verbatim>\<open>_get_optional_meta_data\<close>: fields are read as long as there are more bytes than a checksum has.\<close>

fun meta_loop ::
    "nat \<Rightarrow> nat \<Rightarrow> row_lib \<Rightarrow> 'p packet_ops \<Rightarrow> string \<Rightarrow> column list \<Rightarrow> optional_meta_data \<Rightarrow> ('p wrapper, optional_meta_data) act" where
  "meta_loop 0 rounds L P dbms columns m = (\<lambda>w. if 4 < bytes_to_read P w then (Inl LoopBound, w) else (Inr m, w))"
| "meta_loop (Suc n) rounds L P dbms columns m = (\<lambda>w.
    if 4 < bytes_to_read P w
    then bindA (read_one_meta_field rounds L P dbms columns) (\<lambda>upd. meta_loop n rounds L P dbms columns (upd m)) w
    else (Inr m, w))"

definition get_optional_meta_data ::
    "nat \<Rightarrow> row_lib \<Rightarrow> 'p packet_ops \<Rightarrow> string \<Rightarrow> column list \<Rightarrow> ('p wrapper, optional_meta_data) act" where
  "get_optional_meta_data rounds L P dbms columns = meta_loop rounds rounds L P dbms columns new_optional_meta_data"

section \<open>Column information\<close>

text \<open>\<^verbatim>\<open>find_charset(str(charset_id), dbms)\<close>: Python's name, the collation and the name; \<^verbatim>\<open>int("None")\<close> raises.\<close>

definition find_charset :: "nat option \<Rightarrow> string \<Rightarrow> (string \<times> string option \<times> string) res" where
  "find_charset charset_id dbms =
    (case charset_id of
       None \<Rightarrow> Inl ValueError
     | Some i \<Rightarrow> (case by_id charsets (int i) dbms of
         None \<Rightarrow> Inr (''utf8'', None, ''utf8'')
       | Some c \<Rightarrow> Inr (charset_encoding c, Some (cs_collation c), cs_name c)))"

definition subscript :: "'a list option \<Rightarrow> nat \<Rightarrow> 'a res" where
  "subscript xs i = (case xs of None \<Rightarrow> Inl TypeError | Some ys \<Rightarrow> nthE ys i)"

record sync_positions =
  charset_pos :: nat
  enum_or_set_pos :: nat
  enum_pos :: nat
  set_pos :: nat

definition set_column_charset :: "nat option \<Rightarrow> string \<Rightarrow> column \<Rightarrow> column res" where
  "set_column_charset charset_id dbms c =
    bindE (find_charset charset_id dbms) (\<lambda>(encode_name, collation_name, charset_name).
      Inr (c\<lparr>col_collation_name := collation_name, col_character_set_name := Some encode_name\<rparr>))"

definition sync_character :: "optional_meta_data \<Rightarrow> string \<Rightarrow> column \<times> sync_positions \<Rightarrow> (column \<times> sync_positions) res" where
  "sync_character m dbms cp = (case cp of (c, p) \<Rightarrow>
    if is_character_column (col_type c) dbms then
      bindE (subscript (om_charset_collation_list m) (charset_pos p)) (\<lambda>charset_id.
      bindE (set_column_charset charset_id dbms c) (\<lambda>c. Inr (c, p\<lparr>charset_pos := Suc (charset_pos p)\<rparr>)))
    else Inr (c, p))"

definition sync_members :: "optional_meta_data \<Rightarrow> string \<Rightarrow> column \<times> sync_positions \<Rightarrow> (column \<times> sync_positions) res" where
  "sync_members m dbms cp = (case cp of (c, p) \<Rightarrow>
    if is_enum_or_set_column (col_type c) dbms then
      bindE (subscript (om_enum_and_set_collation_list m) (enum_or_set_pos p)) (\<lambda>charset_id.
      let p = p\<lparr>enum_or_set_pos := Suc (enum_or_set_pos p)\<rparr> in
      bindE (set_column_charset charset_id dbms c) (\<lambda>c.
      bindE (if is_enum_column (col_type c) then
               bindE (subscript (om_set_enum_str_value_list m) (enum_pos p)) (\<lambda>vs.
                 Inr (c\<lparr>col_enum_values := Some ([] # vs)\<rparr>, p\<lparr>enum_pos := Suc (enum_pos p)\<rparr>))
             else Inr (c, p)) (\<lambda>(c, p).
      if is_set_column (col_type c) then
        bindE (subscript (om_set_str_value_list m) (set_pos p)) (\<lambda>vs.
          Inr (c\<lparr>col_set_values := Some vs\<rparr>, p\<lparr>set_pos := Suc (set_pos p)\<rparr>))
      else Inr (c, p))))
    else Inr (c, p))"

definition flag_at :: "bool list \<Rightarrow> nat \<Rightarrow> bool res" where
  "flag_at fs i = (if fs = [] then Inr False else nthE fs i)"

definition sync_flags :: "optional_meta_data \<Rightarrow> nat \<Rightarrow> column \<Rightarrow> column res" where
  "sync_flags m column_idx c =
    bindE (flag_at (om_unsigned_column_list m) column_idx) (\<lambda>u.
    let c = (if u then c\<lparr>col_unsigned := True\<rparr> else c);
        c = (if Some column_idx \<in> set (om_simple_primary_key_list m) then c\<lparr>col_is_primary := True\<rparr> else c)
    in bindE (flag_at (om_visibility_list m) column_idx) (\<lambda>v.
       Inr (if v then c\<lparr>col_visibility := True\<rparr> else c)))"

text \<open>The loop of \<^verbatim>\<open>_sync_column_info\<close> from column \<open>i\<close> on.\<close>

fun sync_columns :: "optional_meta_data \<Rightarrow> string \<Rightarrow> column list \<Rightarrow> nat \<Rightarrow> sync_positions \<Rightarrow> column list res" where
  "sync_columns m dbms [] i p = Inr []"
| "sync_columns m dbms (c # cs) i p =
    bindE (nthE (om_column_name_list m) i) (\<lambda>nm.
    bindE (sync_character m dbms (c\<lparr>col_name := Some nm\<rparr>, p)) (\<lambda>cp.
    bindE (sync_members m dbms cp) (\<lambda>(c, p).
    bindE (sync_flags m i c) (\<lambda>c.
    bindE (sync_columns m dbms cs (Suc i) p) (\<lambda>cs. Inr (c # cs))))))"

section \<open>The event\<close>

record table_map_event =
  te_table_id :: nat
  te_flags :: nat
  te_schema :: string
  te_table :: string
  te_columns :: "column list"
  te_null_bitmask :: "byte list"
  te_table_obj :: table_map_entry
  te_metadata :: optional_meta_data

text \<open>The columns after \<^verbatim>\<open>_sync_column_info\<close> and the table made of them, if it is remade.\<close>

definition sync_column_info :: "bool \<Rightarrow> string \<Rightarrow> table_map_event \<Rightarrow> (column list \<times> table_map_entry) res" where
  "sync_column_info optional_meta_data dbms ev =
    (if \<not> optional_meta_data \<or> om_column_name_list (te_metadata ev) = [] then Inr (te_columns ev, te_table_obj ev)
     else bindE (sync_columns (te_metadata ev) dbms (te_columns ev) 0 \<lparr>charset_pos = 0, enum_or_set_pos = 0, enum_pos = 0, set_pos = 0\<rparr>) (\<lambda>cs.
          Inr (cs, new_table (te_table_id ev) (te_schema ev) (te_table ev) cs True)))"

fun read_each_column :: "'p packet_ops \<Rightarrow> byte list \<Rightarrow> ('p wrapper, column list) act" where
  "read_each_column P [] = retA []"
| "read_each_column P (b # bs) = bindA (new_column P (unat b)) (\<lambda>c. bindA (read_each_column P bs) (\<lambda>cs. retA (c # cs)))"

text \<open>
  The constructor up to the entry into the table map: the table id and the names, the settings of the
  stream, the columns and the bits of the nullable columns. \<^const>\<open>None\<close>: the event is not processed.
\<close>

definition read_table_map ::
    "row_lib \<Rightarrow> 'p packet_ops \<Rightarrow> event_filters \<Rightarrow> bool \<Rightarrow> (nat, table_map_entry) dict \<Rightarrow> ('p wrapper, table_map_event option) act" where
  "read_table_map L P filters freeze_schema table_map =
    bindA (read_table_id P) (\<lambda>table_id.
    if table_id \<in> fst ` set table_map \<and> freeze_schema then retA None
    else
      bindA (read_uint16 P) (\<lambda>flags.
      bindA (read_uint8 P) (\<lambda>schema_length. bindA (read_text L P (int schema_length)) (\<lambda>schema.
      bindA (packet_advance P 1) (\<lambda>_.
      bindA (read_uint8 P) (\<lambda>table_length. bindA (read_text L P (int table_length)) (\<lambda>table.
      if filtered_out filters schema table then retA None
      else
        bindA (packet_advance P 1) (\<lambda>_.
        bindA (read_length_coded_binary P) (\<lambda>c. bindA (pureA (notNone c)) (\<lambda>column_count.
        bindA (packet_read P (int column_count)) (\<lambda>column_types.
        bindA (read_length_coded_binary P) (\<lambda>_.
        bindA (read_each_column P column_types) (\<lambda>columns.
        bindA (packet_read P (int ((column_count + 7) div 8))) (\<lambda>null_bitmask.
        retA (Some \<lparr>te_table_id = table_id, te_flags = flags, te_schema = schema, te_table = table,
          te_columns = columns, te_null_bitmask = null_bitmask,
          te_table_obj = new_table table_id schema table columns False,
          te_metadata = new_optional_meta_data\<rparr>)))))))))))))))"

text \<open>The rest of the constructor, and the entry the table map has then.\<close>

definition read_table_metadata ::
    "nat \<Rightarrow> row_lib \<Rightarrow> 'p packet_ops \<Rightarrow> bool \<Rightarrow> string \<Rightarrow> table_map_event \<Rightarrow> ('p wrapper, table_map_event \<times> table_map_entry) act" where
  "read_table_metadata rounds L P optional_meta_data dbms ev =
    bindA (get_optional_meta_data rounds L P dbms (te_columns ev)) (\<lambda>m.
    let ev = ev\<lparr>te_metadata := m\<rparr> in
    bindA (pureA (sync_column_info optional_meta_data dbms ev)) (\<lambda>(cs, table_obj).
    retA (ev\<lparr>te_columns := cs, te_table_obj := table_obj\<lparr>tm_columns := cs\<rparr>\<rparr>, (te_table_obj ev)\<lparr>tm_columns := cs\<rparr>)))"

end
