(* ===== verification/TableMapCodec.thy ===== *)
theory TableMapCodec
  imports TableMap
begin

text \<open>
  Table map events as the server writes them, and that the event object has the table they describe:
  its names, its columns with their metadata, and the optional metadata field by field.
\<close>

section \<open>Columns\<close>

text \<open>The type code of a column, its metadata, and the column that is made of them.\<close>

inductive described :: "nat \<Rightarrow> byte list \<Rightarrow> column \<Rightarrow> bool" where
  plain: "t \<in> {FT_TINY, FT_SHORT, FT_LONG, FT_INT24, FT_LONGLONG, FT_YEAR, FT_DATE, FT_TIME, FT_DATETIME, FT_TIMESTAMP} \<Longrightarrow>
    described t [] (blank_column t)"
| varchar: "n < 2 ^ 16 \<Longrightarrow> described FT_VARCHAR (le_bytes 2 n) ((blank_column FT_VARCHAR)\<lparr>col_max_length := Some n\<rparr>)"
| float: "t \<in> {FT_FLOAT, FT_DOUBLE} \<Longrightarrow> described t [b] ((blank_column t)\<lparr>col_size := Some (unat b)\<rparr>)"
| fraction: "t \<in> {FT_TIMESTAMP2, FT_DATETIME2, FT_TIME2} \<Longrightarrow> described t [b] ((blank_column t)\<lparr>col_fsp := Some (unat b)\<rparr>)"
| blob: "t \<in> {FT_BLOB, FT_GEOMETRY, FT_JSON} \<Longrightarrow> described t [b] ((blank_column t)\<lparr>col_length_size := Some (unat b)\<rparr>)"
| decimal: "described FT_NEWDECIMAL [a, b]
    ((blank_column FT_NEWDECIMAL)\<lparr>col_precision := Some (unat a), col_decimals := Some (unat b)\<rparr>)"
| bits: "n = unat b * 8 + unat a \<Longrightarrow> described FT_BIT [a, b]
    ((blank_column FT_BIT)\<lparr>col_bits := Some n, col_bytes := Some ((n + 7) div 8)\<rparr>)"
| string: "n < 1024 \<Longrightarrow> described FT_STRING (encode_string_metadata n) ((blank_column FT_STRING)\<lparr>col_max_length := Some n\<rparr>)"
| members: "t \<in> {FT_ENUM, FT_SET} \<Longrightarrow> described FT_STRING [of_nat t, b]
    ((blank_column FT_STRING)\<lparr>col_type := t, col_size := Some (unat b)\<rparr>)"

context byte_source
begin

lemma reads_one_byte: "reads rest (read_uint8 P) [b] (unat b)"
  using reads_uints(1) [of "[b]"] by simp

lemma reads_described: "described t bs c \<Longrightarrow> reads rest (new_column P t) bs c"
proof (induction rule: described.induct)
  case (varchar n)
  then have "n < 256 ^ 2" by simp
  from reads_map [OF reads_le(2) [OF this]] show ?case by (simp add: new_column_def del: le_bytes.simps)
next
  case (decimal a b)
  show ?case by (simp add: new_column_def) (rule reads_bind [OF reads_one_byte], rule reads_map, rule reads_one_byte, simp)
next
  case (bits n b a)
  show ?case unfolding bits by (simp add: new_column_def Let_def) (rule reads_bind [OF reads_one_byte], rule reads_map, rule reads_one_byte, simp)
next
  case (string n)
  then show ?case by (rule reads_string_metadata)
next
  case (members t b)
  have d: "drop_bit 8 (push_bit 8 t + unat b) = t" using unat_byte [of b] by (simp add: push_bit_eq_mult drop_bit_eq_div)
  have m: "(push_bit 8 t + unat b) AND 0x00FF = unat b" using unat_byte [of b] and_255 [of "push_bit 8 t + unat b"] by (simp add: push_bit_eq_mult)
  have t: "unat (of_nat t :: byte) = t" using members by (intro unat_of_nat_byte) auto
  have k: "t = FT_SET \<or> t = FT_ENUM" using members by auto
  have "reads rest (read_string_metadata P c) ([of_nat t] @ [b]) (c\<lparr>col_type := t, col_size := Some (unat b)\<rparr>)" for c
    unfolding read_string_metadata_def
    apply (rule reads_bind [OF reads_one_byte [of "of_nat t", unfolded t] _ refl])
    apply (rule reads_bind [OF reads_one_byte [of b], where cs = "[]"])
     apply (simp only: Let_def d m if_P [OF k] reads_ret)
    apply simp
    done
  then show ?case by (simp add: new_column_def)
qed (auto simp: new_column_def intro: reads_map [OF reads_one_byte] reads_ret)

lemma reads_columns:
  assumes "list_all2 (\<lambda>(t, bs) c. t < 256 \<and> described t bs c) ds cs"
  shows "reads rest (read_each_column P (map (\<lambda>(t, bs). of_nat t) ds)) (concat (map snd ds)) cs"
  using assms
proof (induction ds cs rule: list_all2_induct)
  case (Cons d ds c cs)
  obtain t bs where d: "d = (t, bs)" by (cases d)
  with Cons have t: "unat (of_nat t :: byte) = t" by (auto intro: unat_of_nat_byte)
  from Cons d have "reads rest (new_column P t) bs c" by (auto intro: reads_described)
  then show ?case using d t by (simp, elim reads_bind) (rule reads_map, rule Cons.IH, simp)
qed (simp add: reads_ret)

end

section \<open>Flags, highest bit first\<close>

definition msb_bits :: "byte list \<Rightarrow> bool list" where
  "msb_bits bs = concat (map (\<lambda>b. rev (byte_bits b)) bs)"

fun pack_msb :: "bool list \<Rightarrow> byte list" where
  "pack_msb fs = (if fs = [] then [] else pack_byte (rev (take 8 (fs @ replicate 7 False))) # pack_msb (drop 8 fs))"

declare pack_msb.simps [simp del]

lemma length_msb_bits: "length (msb_bits bs) = 8 * length bs"
  by (induction bs) (simp_all add: msb_bits_def)

lemma msb_bits_nth:
  assumes "q < 8 * length bs"
  shows "msb_bits bs ! q \<longleftrightarrow> unat (bs ! (q div 8)) AND drop_bit (q mod 8) 128 \<noteq> 0"
  using assms
proof (induction bs arbitrary: q)
  case (Cons b bs)
  show ?case
  proof (cases "q < 8")
    case True
    then have "q = 0 \<or> q = 1 \<or> q = 2 \<or> q = 3 \<or> q = 4 \<or> q = 5 \<or> q = 6 \<or> q = 7" by auto
    then have d: "drop_bit q 128 = (2 :: nat) ^ (7 - q)" by (elim disjE) (simp_all add: drop_bit_eq_div)
    have "msb_bits (b # bs) ! q \<longleftrightarrow> rev (byte_bits b) ! q" using True by (simp add: msb_bits_def nth_append)
    also have "\<dots> \<longleftrightarrow> bit (unat b) (7 - q)" using True by (simp add: rev_nth byte_bits_nth bit_unsigned_iff)
    also have "\<dots> \<longleftrightarrow> unat b AND 2 ^ (7 - q) \<noteq> 0" by (simp only: and_exp_eq_0_iff_not_bit not_not)
    finally show ?thesis using True d by simp
  next
    case False
    then have "msb_bits (b # bs) ! q = msb_bits bs ! (q - 8)" by (simp add: msb_bits_def nth_append)
    moreover have "(q - 8) div 8 = q div 8 - 1" "(q - 8) mod 8 = q mod 8" "0 < q div 8" using False by (auto simp: le_div_geq le_mod_geq)
    ultimately show ?thesis using Cons False by (simp add: nth_Cons')
  qed
qed simp

lemma msb_bits_pack: "\<exists>k. msb_bits (pack_msb fs) = fs @ replicate k False"
proof (induction fs rule: pack_msb.induct)
  case (1 fs)
  show ?case
  proof (cases "fs = []")
    case False
    let ?hd = "take 8 (fs @ replicate 7 False)"
    have len: "length ?hd = 8" using False by (cases fs) auto
    have "byte_bits (pack_byte (rev ?hd)) = rev ?hd" using byte_bits_pack [of "rev ?hd"] len by simp
    then have e: "msb_bits (pack_msb fs) = ?hd @ msb_bits (pack_msb (drop 8 fs))"
      using False by (simp add: pack_msb.simps [of fs] msb_bits_def)
    show ?thesis
    proof (cases "length fs \<le> 8")
      case True
      then have "?hd = fs @ replicate (8 - length fs) False" using False by (cases fs) (auto simp: take_replicate)
      then show ?thesis using e True by (auto simp: pack_msb.simps [of "[]"] msb_bits_def)
    next
      case False
      from 1 [OF \<open>fs \<noteq> []\<close>] obtain k where "msb_bits (pack_msb (drop 8 fs)) = drop 8 fs @ replicate k False" by blast
      then have "msb_bits (pack_msb fs) = fs @ replicate k False" using e False by simp
      then show ?thesis by blast
    qed
  qed (simp add: pack_msb.simps msb_bits_def)
qed

definition flagged :: "bool \<Rightarrow> column list \<Rightarrow> nat" where
  "flagged signedness_flag cs = length (filter (\<lambda>c. is_numeric_column (col_type c) \<or> \<not> signedness_flag) cs)"

lemma bool_list_from:
  assumes "q + flagged sf cs \<le> 8 * length data" "q mod 8 \<noteq> 0 \<Longrightarrow> b = data ! (q div 8)"
  shows "bool_list_loop sf data cs ((q + 7) div 8) (q mod 8) b = Inr (take (flagged sf cs) (drop q (msb_bits data)))"
  using assms
proof (induction cs arbitrary: q b)
  case (Cons c cs)
  show ?case
  proof (cases "is_numeric_column (col_type c) \<or> \<not> sf")
    case False
    then show ?thesis using Cons by (simp add: flagged_def)
  next
    case True
    then have step: "(\<not> is_numeric_column (col_type c) \<and> sf) = False" by simp
    from True have k: "flagged sf (c # cs) = Suc (flagged sf cs)" by (simp add: flagged_def)
    with Cons.prems(1) have q: "q < 8 * length data" by simp
    then have byte: "(if q mod 8 = 0 then nthE data ((q + 7) div 8) else Inr b) = Inr (data ! (q div 8))"
    proof (cases "q mod 8 = 0")
      case True
      then have "(q + 7) div 8 = q div 8" by presburger
      moreover have "q div 8 < length data" using q by (simp add: less_mult_imp_div_less mult.commute)
      ultimately show ?thesis using True by (simp add: nthE_def)
    qed (use Cons.prems(2) in simp)
    have idx: "(if q mod 8 = 0 then Suc ((q + 7) div 8) else (q + 7) div 8) = (Suc q + 7) div 8" by presburger
    have nxt: "(q mod 8 + 1) mod 8 = Suc q mod 8" by presburger
    have "Suc q mod 8 \<noteq> 0 \<Longrightarrow> Suc q div 8 = q div 8" by presburger
    then have IH: "bool_list_loop sf data cs ((Suc q + 7) div 8) (Suc q mod 8) (data ! (q div 8))
        = Inr (take (flagged sf cs) (drop (Suc q) (msb_bits data)))"
      using Cons.IH [of "Suc q" "data ! (q div 8)"] Cons.prems(1) k by simp
    have "q < length (msb_bits data)" using q by (simp add: length_msb_bits)
    then have "drop q (msb_bits data) = msb_bits data ! q # drop (Suc q) (msb_bits data)" by (rule Cons_nth_drop_Suc [symmetric])
    then show ?thesis using msb_bits_nth [OF q]
      by (simp only: bool_list_loop.simps step if_False byte idx nxt IH bindE_simps k take_Suc_Cons)
  qed
qed (simp add: flagged_def)

lemma bool_list_pack:
  assumes "length fs = flagged sf cs"
  shows "bool_list_loop sf (pack_msb fs) cs 0 0 b = Inr fs"
proof -
  obtain k where k: "msb_bits (pack_msb fs) = fs @ replicate k False" using msb_bits_pack by blast
  then have "flagged sf cs \<le> 8 * length (pack_msb fs)" using assms length_msb_bits [of "pack_msb fs"] by simp
  then show ?thesis using bool_list_from [of 0 sf cs "pack_msb fs" b] k assms by simp
qed

section \<open>Fields of the optional metadata\<close>

text \<open>The flags of the numeric columns among the flags of all columns.\<close>

definition numeric_flags :: "column list \<Rightarrow> bool list \<Rightarrow> bool list" where
  "numeric_flags cs us = map snd (filter (\<lambda>(c, u). is_numeric_column (col_type c)) (zip cs us))"

definition detected :: "(nat \<Rightarrow> bool) \<Rightarrow> column list \<Rightarrow> nat" where
  "detected detect cs = length (filter (\<lambda>c. detect (col_type c)) cs)"

definition vstring :: "byte list \<Rightarrow> byte list" where
  "vstring bs = encode_variable_length (length bs) @ bs"

definition encode_members :: "byte list list \<Rightarrow> byte list" where
  "encode_members vs = encode_length_coded (length vs) @ concat (map vstring vs)"

definition encode_pairs :: "(nat \<times> nat) list \<Rightarrow> byte list" where
  "encode_pairs ps = concat (map (\<lambda>(a, b). encode_length_coded a @ encode_length_coded b) ps)"

definition charset_dict :: "(nat \<times> nat) list \<Rightarrow> (nat option, nat option) dict" where
  "charset_dict ps = set_items (map (\<lambda>(a, b). (Some a, Some b)) ps)"

definition small :: "nat list \<Rightarrow> bool" where
  "small ns \<longleftrightarrow> (\<forall>n \<in> set ns. n < 2 ^ 24)"

definition small_pairs :: "(nat \<times> nat) list \<Rightarrow> bool" where
  "small_pairs ps \<longleftrightarrow> (\<forall>(a, b) \<in> set ps. a < 2 ^ 24 \<and> b < 2 ^ 24)"

definition names_of :: "row_lib \<Rightarrow> byte list list \<Rightarrow> string list \<Rightarrow> bool" where
  "names_of L raws nms \<longleftrightarrow> list_all2 (\<lambda>bs s. utf8 L bs = Inr s) raws nms"

definition charset_kind :: "nat \<Rightarrow> string \<Rightarrow> nat \<Rightarrow> bool" where
  "charset_kind t dbms = (if t \<in> {2, 3} then (\<lambda>t. is_character_column t dbms) else (\<lambda>t. is_enum_or_set_column t dbms))"

inductive meta_value ::
    "row_lib \<Rightarrow> string \<Rightarrow> column list \<Rightarrow> nat \<Rightarrow> byte list \<Rightarrow> (optional_meta_data \<Rightarrow> optional_meta_data) \<Rightarrow> bool"
  for L dbms cs where
  signedness: "length us = length cs \<Longrightarrow> (\<And>i. i < length cs \<Longrightarrow> us ! i \<Longrightarrow> is_numeric_column (col_type (cs ! i))) \<Longrightarrow>
    meta_value L dbms cs 1 (pack_msb (numeric_flags cs us)) (\<lambda>m. m\<lparr>om_unsigned_column_list := us\<rparr>)"
| default_charset: "small (d # []) \<Longrightarrow> small_pairs ps \<Longrightarrow>
    meta_value L dbms cs 2 (encode_length_coded d @ encode_pairs ps)
      (\<lambda>m. m\<lparr>om_default_charset_collation := Some d, om_charset_collation := charset_dict ps,
        om_charset_collation_list := Some (parsed_column_charset_by_default_charset (Some d) (charset_dict ps) (charset_kind 2 dbms) cs 0)\<rparr>)"
| column_charset: "small ns \<Longrightarrow> length ns = detected (charset_kind 3 dbms) cs \<Longrightarrow> ns \<noteq> [] \<Longrightarrow>
    meta_value L dbms cs 3 (concat (map encode_length_coded ns))
      (\<lambda>m. m\<lparr>om_column_charset := map Some ns, om_charset_collation_list := Some (map Some ns)\<rparr>)"
| column_name: "names_of L raws nms \<Longrightarrow>
    meta_value L dbms cs 4 (concat (map vstring raws)) (\<lambda>m. m\<lparr>om_column_name_list := nms\<rparr>)"
| set_str_value: "list_all2 (names_of L) raws vs \<Longrightarrow> raws \<noteq> [] \<Longrightarrow> small (map length raws) \<Longrightarrow>
    meta_value L dbms cs 5 (concat (map encode_members raws)) (\<lambda>m. m\<lparr>om_set_str_value_list := Some vs\<rparr>)"
| enum_str_value: "list_all2 (names_of L) raws vs \<Longrightarrow> raws \<noteq> [] \<Longrightarrow> small (map length raws) \<Longrightarrow>
    meta_value L dbms cs 6 (concat (map encode_members raws)) (\<lambda>m. m\<lparr>om_set_enum_str_value_list := Some vs\<rparr>)"
| geometry_type: "small ns \<Longrightarrow>
    meta_value L dbms cs 7 (concat (map encode_length_coded ns)) (\<lambda>m. m\<lparr>om_geometry_type_list := map Some ns\<rparr>)"
| simple_primary_key: "small ns \<Longrightarrow>
    meta_value L dbms cs 8 (concat (map encode_length_coded ns)) (\<lambda>m. m\<lparr>om_simple_primary_key_list := map Some ns\<rparr>)"
| primary_key_with_prefix: "small_pairs ps \<Longrightarrow>
    meta_value L dbms cs 9 (encode_pairs ps) (\<lambda>m. m\<lparr>om_primary_keys_with_prefix := charset_dict ps\<rparr>)"
| enum_and_set_default_charset: "small (d # []) \<Longrightarrow> small_pairs ps \<Longrightarrow>
    meta_value L dbms cs 10 (encode_length_coded d @ encode_pairs ps)
      (\<lambda>m. m\<lparr>om_enum_and_set_default_charset := Some d, om_enum_and_set_charset_collation := charset_dict ps,
        om_enum_and_set_collation_list := Some (parsed_column_charset_by_default_charset (Some d) (charset_dict ps) (charset_kind 10 dbms) cs 0)\<rparr>)"
| enum_and_set_column_charset: "small ns \<Longrightarrow> length ns = detected (charset_kind 11 dbms) cs \<Longrightarrow> ns \<noteq> [] \<Longrightarrow>
    meta_value L dbms cs 11 (concat (map encode_length_coded ns))
      (\<lambda>m. m\<lparr>om_enum_and_set_default_column_charset_list := map Some ns, om_enum_and_set_collation_list := Some (map Some ns)\<rparr>)"
| visibility: "length us = length cs \<Longrightarrow>
    meta_value L dbms cs 12 (pack_msb us) (\<lambda>m. m\<lparr>om_visibility_list := us\<rparr>)"

definition encode_field :: "nat \<Rightarrow> byte list \<Rightarrow> byte list" where
  "encode_field t bs = of_nat t # encode_length_coded (length bs) @ bs"

subsection \<open>Lists by column\<close>

lemma convert_numeric_flags:
  assumes "length us = length cs" "\<And>i. i < length cs \<Longrightarrow> us ! i \<Longrightarrow> is_numeric_column (col_type (cs ! i))"
  shows "convert_include_non_numeric_column cs (pre @ numeric_flags cs us) (length pre) = Inr us"
  using assms
proof (induction cs arbitrary: us pre)
  case (Cons c cs)
  then obtain u us' where u: "us = u # us'" "length us' = length cs" by (cases us) auto
  have step: "us' ! i \<Longrightarrow> i < length cs \<Longrightarrow> is_numeric_column (col_type (cs ! i))" for i
    using Cons.prems(2) [of "Suc i"] u by simp
  show ?case
  proof (cases "is_numeric_column (col_type c)")
    case True
    then show ?thesis using Cons.IH [of us' "pre @ [u]"] u step by (simp add: numeric_flags_def nthE_def)
  next
    case False
    then have "\<not> u" using Cons.prems(2) [of 0] u by auto
    then show ?thesis using False Cons.IH [of us' pre] u step by (simp add: numeric_flags_def)
  qed
qed simp

lemma length_numeric_flags: "length us = length cs \<Longrightarrow> length (numeric_flags cs us) = flagged True cs"
proof (induction cs arbitrary: us)
  case (Cons c cs)
  then show ?case by (cases us) (auto simp: numeric_flags_def flagged_def)
qed (simp add: numeric_flags_def flagged_def)

lemma column_charset_loop_all:
  "length ns = detected detect cs \<Longrightarrow> column_charset_loop (pre @ ns) detect cs (length pre) = Inr ns"
proof (induction cs arbitrary: ns pre)
  case (Cons c cs)
  show ?case
  proof (cases "detect (col_type c)")
    case True
    then obtain n ns' where "ns = n # ns'" "length ns' = detected detect cs" using Cons.prems by (cases ns) (auto simp: detected_def)
    then show ?thesis using True Cons.IH [of ns' "pre @ [n]"] by (simp add: nthE_def)
  next
    case False
    then show ?thesis using Cons by (simp add: detected_def)
  qed
qed (simp add: detected_def)

lemma pair_items_concat: "pair_items (concat (map (\<lambda>(a, b). [Some a, Some b]) ps)) = Inr (map (\<lambda>(a, b). (Some a, Some b)) ps)"
  by (induction ps) auto

subsection \<open>Reading them\<close>

lemma encode_length_coded_ne [simp]: "encode_length_coded n \<noteq> []"
  by (simp add: encode_length_coded_def)

lemma vstring_ne [simp]: "vstring bs \<noteq> []"
  by (simp add: vstring_def encode_variable_length.simps [of "length bs"])

lemma encode_members_ne [simp]: "encode_members vs \<noteq> []"
  by (simp add: encode_members_def)

lemma length_list_parts: "(\<And>x. x \<in> set xs \<Longrightarrow> f x \<noteq> []) \<Longrightarrow> length xs \<le> length (concat (map f xs))"
  using length_nonempty_parts [of "map f xs"] by fastforce

context byte_source
begin

lemma reads_map_items:
  assumes items: "list_all2 (\<lambda>x y. f x \<noteq> [] \<and> reads rest m (f x) y) xs ys" and rounds: "length (concat (map f xs)) \<le> rounds"
  shows "reads rest (read_items rounds (length (concat (map f xs))) m) (concat (map f xs)) ys"
proof (rule reads_items)
  show "list_all2 (\<lambda>bs y. bs \<noteq> [] \<and> reads rest m bs y) (map f xs) ys" using items by (simp add: list_all2_map1)
  have "length xs \<le> length (concat (map f xs))" using items by (intro length_list_parts) (auto simp: list_all2_conv_all_nth in_set_conv_nth)
  then show "length ys \<le> rounds" using rounds list_all2_lengthD [OF items] by simp
qed simp

lemma reads_ints:
  assumes "small ns" "length (concat (map encode_length_coded ns)) \<le> rounds"
  shows "reads rest (read_ints rounds P (length (concat (map encode_length_coded ns)))) (concat (map encode_length_coded ns)) (map Some ns)"
  unfolding read_ints_def using assms
  by (intro reads_map_items) (auto simp: list_all2_conv_all_nth small_def intro!: reads_length_coded)

lemma reads_vstring:
  assumes "length (vstring bs) \<le> rounds"
  shows "reads rest (read_variable_length_string rounds P) (vstring bs) bs"
  using assms unfolding vstring_def by (intro reads_variable_length_string) simp

lemma length_part: "x \<in> set xs \<Longrightarrow> length (f x) \<le> length (concat (map f xs))"
  using length_concat_member [of "f x" "map f xs"] by simp

lemma reads_column_names:
  assumes "names_of L raws nms" "length (concat (map vstring raws)) \<le> rounds"
  shows "reads rest (read_column_names rounds L P (length (concat (map vstring raws)))) (concat (map vstring raws)) nms"
  unfolding read_column_names_def
proof (rule reads_map_items [OF _ assms(2)])
  have "reads rest (bindA (read_variable_length_string rounds P) (\<lambda>bs. pureA (utf8 L bs))) (vstring (raws ! i)) (nms ! i)"
    if "i < length raws" for i
  proof (rule reads_then [OF reads_vstring])
    show "length (vstring (raws ! i)) \<le> rounds" using length_part [of "raws ! i" raws vstring] assms(2) that by simp
    show "utf8 L (raws ! i) = Inr (nms ! i)" using assms(1) that by (simp add: names_of_def list_all2_conv_all_nth)
  qed
  then show "list_all2 (\<lambda>x y. vstring x \<noteq> [] \<and> reads rest (bindA (read_variable_length_string rounds P) (\<lambda>bs. pureA (utf8 L bs))) (vstring x) y) raws nms"
    using assms(1) by (simp add: names_of_def list_all2_conv_all_nth)
qed

lemma reads_members:
  assumes "names_of L raws vs" "length raws < 2 ^ 24" "length (encode_members raws) \<le> rounds"
  shows "reads rest (read_type_value_list rounds L P) (encode_members raws) vs"
proof -
  have len: "length vs = length raws" using assms(1) by (simp add: names_of_def list_all2_lengthD)
  have "reads rest (read_type_value rounds L P) (vstring (raws ! i)) (vs ! i)" if "i < length raws" for i
    unfolding read_type_value_def
  proof (rule reads_then [OF reads_vstring])
    show "length (vstring (raws ! i)) \<le> rounds" using length_part [of "raws ! i" raws vstring] assms(3) that by (simp add: encode_members_def)
    show "(case utf8 L (raws ! i) of Inl e \<Rightarrow> if e = UnicodeError then Inr [] else Inl e | Inr s \<Rightarrow> Inr s) = Inr (vs ! i)"
      using assms(1) that by (simp add: names_of_def list_all2_conv_all_nth)
  qed
  then have "list_all2 (reads rest (read_type_value rounds L P)) (map vstring raws) vs"
    using len by (simp add: list_all2_conv_all_nth)
  from reads_times [OF this] have t: "reads rest (read_times (length raws) (read_type_value rounds L P)) (concat (map vstring raws)) vs"
    by (simp add: len)
  show ?thesis unfolding read_type_value_list_def encode_members_def
    by (rule reads_bind [OF reads_length_coded [OF assms(2)] _ refl], rule reads_bind [OF reads_pure], simp add: notNone_def, rule t, simp)
qed

lemma reads_type_values:
  assumes "list_all2 (names_of L) raws vs" "raws \<noteq> []" "small (map length raws)" "length (concat (map encode_members raws)) \<le> rounds"
  shows "reads rest (read_type_values rounds L P (length (concat (map encode_members raws)))) (concat (map encode_members raws)) (Some vs)"
proof -
  have "reads rest (read_type_value_list rounds L P) (encode_members (raws ! i)) (vs ! i)" if "i < length raws" for i
    using assms(1,3,4) length_part [of "raws ! i" raws encode_members] that
    by (intro reads_members) (auto simp: list_all2_conv_all_nth small_def)
  then have "reads rest (read_items rounds (length (concat (map encode_members raws))) (read_type_value_list rounds L P))
      (concat (map encode_members raws)) vs"
    using assms(1) by (intro reads_map_items [OF _ assms(4)]) (auto simp: list_all2_conv_all_nth)
  note items = this
  have "length (concat (map encode_members raws)) \<noteq> 0" using assms(2) by (cases raws) auto
  then show ?thesis unfolding read_type_values_def by (simp only: if_False) (rule reads_map [OF items])
qed

lemma reads_bools:
  assumes "length fs = flagged sf cs"
  shows "reads rest (read_bool_list P cs (length (pack_msb fs)) sf) (pack_msb fs) fs"
  unfolding read_bool_list_def by (rule reads_then, rule reads_read, rule refl, rule bool_list_pack [OF assms])

lemma reads_pair:
  "a < 2 ^ 24 \<Longrightarrow> b < 2 ^ 24 \<Longrightarrow> reads rest (read_pair P) (encode_length_coded a @ encode_length_coded b) (Some a, Some b)"
  unfolding read_pair_def by (rule reads_bind [OF reads_length_coded], assumption, rule reads_map, rule reads_length_coded) simp_all

lemma reads_default_charset:
  assumes "d < 2 ^ 24" "small_pairs ps" "length (encode_pairs ps) \<le> rounds"
  shows "reads rest (read_default_charset rounds P (length (encode_length_coded d @ encode_pairs ps)))
    (encode_length_coded d @ encode_pairs ps) (Some d, charset_dict ps)"
proof -
  let ?len = "length (encode_length_coded d @ encode_pairs ps)"
  let ?m = "\<lambda>until. bindA (read_length_coded_binary P) (\<lambda>dflt. bindA (read_before rounds until (read_pair P)) (\<lambda>pairs.
      retA (dflt, set_items pairs)))"
  show ?thesis unfolding reads_def
  proof (intro allI impI)
    fix w behind
    assume w: "pending rest w = (encode_length_coded d @ encode_pairs ps) @ behind"
    let ?until = "pw_read_bytes w + int ?len"
    from readsD [OF reads_length_coded [OF assms(1)]] w obtain p where p:
      "read_length_coded_binary P w = (Inr (Some d), taken (length (encode_length_coded d)) p w)"
      "pending rest (taken (length (encode_length_coded d)) p w) = encode_pairs ps @ behind"
      "rest p = drop (length (encode_length_coded d) - length (pw_buffer w)) (rest (pw_packet w))"
      by (metis append_assoc)
    let ?enc = "\<lambda>(a, b). encode_length_coded a @ encode_length_coded b"
    have items: "list_all2 (\<lambda>bs x. bs \<noteq> [] \<and> reads rest (read_pair P) bs x) (map ?enc ps) (map (\<lambda>(a, b). (Some a, Some b)) ps)"
      using assms(2) by (auto simp: list_all2_conv_all_nth small_pairs_def split: prod.splits intro!: reads_pair) (metis nth_mem case_prodD)+
    have "length ps \<le> length (concat (map ?enc ps))" by (rule length_list_parts) auto
    then have n: "length (map (\<lambda>(a, b). (Some a, Some b)) ps) \<le> rounds" using assms(3) by (simp add: encode_pairs_def)
    from reads_before [OF items n, of "taken (length (encode_length_coded d)) p w" behind ?until] p(2)
    obtain q where q: "read_before rounds ?until (read_pair P) (taken (length (encode_length_coded d)) p w) =
        (Inr (map (\<lambda>(a, b). (Some a, Some b)) ps), taken (length (encode_pairs ps)) q (taken (length (encode_length_coded d)) p w))"
      "rest q = drop (length (encode_pairs ps) - (length (pw_buffer w) - length (encode_length_coded d))) (rest p)"
      by (auto simp: encode_pairs_def)
    have "\<not> ?until \<le> pw_read_bytes w" by (simp add: encode_length_coded_def)
    then have r: "read_default_charset rounds P ?len w = (Inr (Some d, charset_dict ps), taken ?len q w)"
      using p(1) q(1) by (simp add: read_default_charset_def Let_def bindA_def retA_def charset_dict_def taken_taken)
    have "a - b + (c - (b - a)) = a + c - b" for a b c :: nat by simp
    then have "rest q = drop (?len - length (pw_buffer w)) (rest (pw_packet w))" using q(2) p(3) by (simp add: add.commute)
    with r show "\<exists>p. read_default_charset rounds P ?len w = (Inr (Some d, charset_dict ps), taken ?len p w)
      \<and> rest p = drop (?len - length (pw_buffer w)) (rest (pw_packet w))" by blast
  qed
qed

lemma reads_primary_keys_with_prefix:
  assumes "small_pairs ps" "length (encode_pairs ps) \<le> rounds"
  shows "reads rest (read_primary_keys_with_prefix rounds P (length (encode_pairs ps))) (encode_pairs ps) (charset_dict ps)"
proof -
  let ?ns = "concat (map (\<lambda>(a, b). [a, b]) ps)"
  have e: "encode_pairs ps = concat (map encode_length_coded ?ns)" "map Some ?ns = concat (map (\<lambda>(a, b). [Some a, Some b]) ps)"
    by (induction ps) (auto simp: encode_pairs_def)
  have "small ?ns" using assms(1) by (auto simp: small_def small_pairs_def)
  from reads_ints [OF this] assms(2) e have "reads rest (read_ints rounds P (length (encode_pairs ps))) (encode_pairs ps) (map Some ?ns)"
    by simp
  then show ?thesis unfolding read_primary_keys_with_prefix_def
    by (rule reads_then) (simp add: e(2) pair_items_concat charset_dict_def)
qed

lemma reads_meta_value:
  assumes "meta_value L dbms cs t bs upd" "length bs \<le> rounds"
  shows "reads rest (read_meta_field rounds L P dbms cs t (Some (length bs))) bs upd"
  using assms
proof (induction rule: meta_value.induct)
  case (signedness us)
  let ?fs = "numeric_flags cs us"
  have "reads rest (read_bool_list P cs (length (pack_msb ?fs)) True) (pack_msb ?fs) ?fs"
    by (rule reads_bools) (rule length_numeric_flags [OF signedness(1)])
  moreover have "convert_include_non_numeric_column cs ?fs 0 = Inr us"
    using convert_numeric_flags [OF signedness(1,2), of "[]"] by simp
  ultimately show ?case by (simp add: read_meta_field_def notNone_def bind_pure) (elim reads_bind, rule reads_map [OF reads_pure], simp_all)
next
  case (default_charset d ps)
  then have "reads rest (read_default_charset rounds P (length (encode_length_coded d @ encode_pairs ps))) (encode_length_coded d @ encode_pairs ps) (Some d, charset_dict ps)"
    by (intro reads_default_charset) (auto simp: small_def)
  then show ?case
    by (simp add: read_meta_field_def notNone_def bind_pure charset_kind_def) (elim reads_bind, simp_all add: reads_ret)
next
  case (column_charset ns)
  have "parsed_column_charset_by_column_charset (map Some ns) (charset_kind 3 dbms) cs = Inr (Some (map Some ns))"
    using column_charset column_charset_loop_all [of "map Some ns" "charset_kind 3 dbms" cs "[]"]
    by (simp add: parsed_column_charset_by_column_charset_def)
  then show ?case using reads_ints [OF column_charset(1,4)]
    by (simp add: read_meta_field_def notNone_def bind_pure charset_kind_def) (elim reads_bind, rule reads_map [OF reads_pure], simp_all)
next
  case (column_name raws nms)
  then show ?case using reads_map [OF reads_column_names] by (simp add: read_meta_field_def notNone_def bind_pure)
next
  case (set_str_value raws vs)
  then show ?case using reads_map [OF reads_type_values] by (simp add: read_meta_field_def notNone_def bind_pure)
next
  case (enum_str_value raws vs)
  then show ?case using reads_map [OF reads_type_values] by (simp add: read_meta_field_def notNone_def bind_pure)
next
  case (geometry_type ns)
  then show ?case using reads_map [OF reads_ints] by (simp add: read_meta_field_def notNone_def bind_pure)
next
  case (simple_primary_key ns)
  then show ?case using reads_map [OF reads_ints] by (simp add: read_meta_field_def notNone_def bind_pure)
next
  case (primary_key_with_prefix ps)
  then show ?case using reads_map [OF reads_primary_keys_with_prefix] by (simp add: read_meta_field_def notNone_def bind_pure)
next
  case (enum_and_set_default_charset d ps)
  then have "reads rest (read_default_charset rounds P (length (encode_length_coded d @ encode_pairs ps))) (encode_length_coded d @ encode_pairs ps) (Some d, charset_dict ps)"
    by (intro reads_default_charset) (auto simp: small_def)
  then show ?case
    by (simp add: read_meta_field_def notNone_def bind_pure charset_kind_def) (elim reads_bind, simp_all add: reads_ret)
next
  case (enum_and_set_column_charset ns)
  have "parsed_column_charset_by_column_charset (map Some ns) (charset_kind 11 dbms) cs = Inr (Some (map Some ns))"
    using enum_and_set_column_charset column_charset_loop_all [of "map Some ns" "charset_kind 11 dbms" cs "[]"]
    by (simp add: parsed_column_charset_by_column_charset_def)
  then show ?case using reads_ints [OF enum_and_set_column_charset(1,4)]
    by (simp add: read_meta_field_def notNone_def bind_pure charset_kind_def) (elim reads_bind, rule reads_map [OF reads_pure], simp_all)
next
  case (visibility us)
  have "reads rest (read_bool_list P cs (length (pack_msb us)) False) (pack_msb us) us"
    by (rule reads_bools) (simp add: visibility flagged_def)
  then show ?case by (simp add: read_meta_field_def notNone_def bind_pure) (elim reads_bind, simp_all add: reads_ret)
qed

lemma reads_field:
  assumes "meta_value L dbms cs t bs upd" "t < 256" "length bs < 2 ^ 24" "length bs \<le> rounds"
  shows "reads rest (read_one_meta_field rounds L P dbms cs) (encode_field t bs) upd"
proof -
  have t: "unat (of_nat t :: byte) = t" by (rule unat_of_nat_byte) (use assms(2) in simp)
  have "reads rest (bindA (read_length_coded_binary P) (\<lambda>len. read_meta_field rounds L P dbms cs t len)) (encode_length_coded (length bs) @ bs) upd"
    by (rule reads_bind [OF reads_length_coded [OF assms(3)] _ refl]) (rule reads_meta_value [OF assms(1,4)])
  then show ?thesis unfolding read_one_meta_field_def encode_field_def
    by (intro reads_bind [OF reads_read [of 1 "[of_nat t]"]] reads_bind [OF reads_pure, of _ "of_nat t"]) (simp_all add: nthE_def t)
qed

end

section \<open>The event\<close>

definition encode_table_map ::
    "nat \<Rightarrow> nat \<Rightarrow> byte list \<Rightarrow> byte list \<Rightarrow> (nat \<times> byte list) list \<Rightarrow> byte list \<Rightarrow> byte list" where
  "encode_table_map table_id flags schema table ds null_bitmask =
    le_bytes 6 table_id @ le_bytes 2 flags @ [of_nat (length schema)] @ schema @ [0] @ [of_nat (length table)] @ table @ [0]
      @ encode_length_coded (length ds) @ map (\<lambda>(t, bs). of_nat t) ds @ encode_length_coded (length (concat (map snd ds)))
      @ concat (map snd ds) @ null_bitmask"

context byte_source
begin

lemma reads_table_map:
  assumes bounds: "table_id < 2 ^ 48" "flags < 2 ^ 16" "length schema < 256" "length table < 256" "length ds < 2 ^ 24"
      "length (concat (map snd ds)) < 2 ^ 24"
    and names: "utf8 L schema = Inr s" "utf8 L table = Inr t"
    and cols: "list_all2 (\<lambda>(t, bs) c. t < 256 \<and> described t bs c) ds cs" and nulls: "length null_bitmask = (length ds + 7) div 8"
    and used: "\<not> (table_id \<in> fst ` set table_map \<and> freeze)" "\<not> filtered_out filters s t"
  shows "reads rest (read_table_map L P filters freeze table_map)
    (encode_table_map table_id flags schema table ds null_bitmask)
    (Some \<lparr>te_table_id = table_id, te_flags = flags, te_schema = s, te_table = t, te_columns = cs,
       te_null_bitmask = null_bitmask, te_table_obj = new_table table_id s t cs False, te_metadata = new_optional_meta_data\<rparr>)"
proof -
  have f: "flags < 256 ^ 2" using bounds by simp
  show ?thesis
    unfolding read_table_map_def encode_table_map_def
    apply (rule reads_bind [OF reads_table_id [OF bounds(1)] _ refl])
    apply (unfold if_not_P [OF used(1)])
    apply (rule reads_bind [OF reads_le(2) [OF f] _ refl])
    apply (rule reads_bind [OF reads_uint8_byte [OF bounds(3)] _ refl])
    apply (rule reads_bind [OF reads_text [OF names(1) refl] _ refl])
    apply (rule reads_bind [OF reads_advance [of _ "[0]"] _ refl], simp)
    apply (rule reads_bind [OF reads_uint8_byte [OF bounds(4)] _ refl])
    apply (rule reads_bind [OF reads_text [OF names(2) refl] _ refl])
    apply (unfold if_not_P [OF used(2)])
    apply (rule reads_bind [OF reads_advance [of _ "[0]"] _ refl], simp)
    apply (rule reads_bind [OF reads_length_coded [OF bounds(5)] _ refl])
    apply (simp only: notNone_def option.case bind_pure)
    apply (rule reads_bind [OF reads_read [of _ "map (\<lambda>(t, bs). of_nat t) ds"] _ refl], simp)
    apply (rule reads_bind [OF reads_length_coded [OF bounds(6)] _ refl])
    apply (rule reads_bind [OF reads_columns [OF cols] _ refl])
    apply (rule reads_map [OF reads_read], simp add: nulls)
    done
qed

end

context counted_source
begin

lemma meta_loop_reads:
  assumes fields: "list_all2 (\<lambda>bs u. bs \<noteq> [] \<and> reads rest (read_one_meta_field rounds L P dbms cs) bs u) fs us"
    and n: "length us \<le> n" and w: "pw_buffer w = []" "rest (pw_packet w) = concat fs @ checksum" "length checksum = 4"
  shows "\<exists>p. meta_loop n rounds L P dbms cs m w = (Inr (fold (\<lambda>u m. u m) us m), taken (length (concat fs)) p w) \<and> rest p = checksum"
  using fields n w(1,2)
proof (induction fs us arbitrary: n m w rule: list_all2_induct)
  case Nil
  then have left: "\<not> 4 < bytes_to_read P w" using w(3) by (simp add: bytes_to_read_def source_left)
  have "w = taken 0 (pw_packet w) w" by (simp add: taken_def)
  then show ?case using Nil left by (cases n) (auto intro!: exI [of _ "pw_packet w"])
next
  case (Cons bs fs u us)
  obtain k where k: "n = Suc k" "length us \<le> k" using Cons.prems(1) by (cases n) auto
  have pend: "pending rest w = bs @ (concat fs @ checksum)" using Cons.prems(2,3) by (simp add: pending_def)
  have "0 < length bs" using Cons(1) by simp
  then have left: "4 < bytes_to_read P w" using Cons.prems(3) w(3) by (simp add: bytes_to_read_def source_left add_pos_nonneg)
  from readsD [OF conjunct2 [OF Cons(1)] pend] obtain p where p:
    "read_one_meta_field rounds L P dbms cs w = (Inr u, taken (length bs) p w)"
    "pending rest (taken (length bs) p w) = concat fs @ checksum" by blast
  have b: "pw_buffer (taken (length bs) p w) = []" using Cons.prems(2) by simp
  have r: "rest (pw_packet (taken (length bs) p w)) = concat fs @ checksum" using p(2) b by (simp add: pending_def)
  from Cons.IH [OF k(2) b r, of "u m"] obtain q where q:
    "meta_loop k rounds L P dbms cs (u m) (taken (length bs) p w) =
      (Inr (fold (\<lambda>u m. u m) us (u m)), taken (length (concat fs)) q (taken (length bs) p w))" "rest q = checksum" by blast
  have "meta_loop n rounds L P dbms cs m w = (Inr (fold (\<lambda>u m. u m) (u # us) m), taken (length (concat (bs # fs))) q w)"
    using k left p(1) q(1) by (simp add: bindA_def taken_taken)
  with q(2) show ?case by blast
qed

end

text \<open>Without names in the event the keys of a row are the positions of its columns, all different.\<close>

lemma described_unnamed: "described t bs c \<Longrightarrow> col_name c = None"
  by (induction rule: described.induct) (auto simp: blank_column_def)

lemma unnamed_keys_distinct:
  assumes "\<And>c. c \<in> set cs \<Longrightarrow> col_name c = None"
  shows "column_keys cs = map (\<lambda>i. ''UNKNOWN_COL'' @ str_nat i) [0..<length cs]" "distinct (column_keys cs)"
proof -
  show e: "column_keys cs = map (\<lambda>i. ''UNKNOWN_COL'' @ str_nat i) [0..<length cs]"
    using assms by (auto simp: column_keys_def column_key_def intro!: nth_equalityI)
  show "distinct (column_keys cs)" unfolding e by (simp add: distinct_map inj_on_def)
qed

context counted_source
begin

lemma reads_table_metadata:
  assumes fdok: "list_all2 (\<lambda>(t, bs) u. t < 256 \<and> length bs < 2 ^ 24 \<and> meta_value L dbms (te_columns ev) t bs u) fds us"
    and rounds: "length (concat (map (\<lambda>(t, bs). encode_field t bs) fds)) \<le> rounds"
    and w: "pw_buffer w = []" "rest (pw_packet w) = concat (map (\<lambda>(t, bs). encode_field t bs) fds) @ checksum" "length checksum = 4"
    and obj: "tm_columns (te_table_obj ev) = te_columns ev"
  shows "\<exists>w'. read_table_metadata rounds L P False dbms ev w =
      (Inr (ev\<lparr>te_metadata := fold (\<lambda>u m. u m) us new_optional_meta_data\<rparr>, te_table_obj ev), w') \<and> rest (pw_packet w') = checksum"
proof -
  let ?enc = "\<lambda>(t, bs). encode_field t bs"
  have len: "length us = length fds" using list_all2_lengthD [OF fdok] by simp
  have "list_all2 (\<lambda>bs u. bs \<noteq> [] \<and> reads rest (read_one_meta_field rounds L P dbms (te_columns ev)) bs u) (map ?enc fds) us"
    unfolding list_all2_conv_all_nth
  proof (rule conjI, simp add: len, intro allI impI)
    fix i assume "i < length (map ?enc fds)"
    then have i: "i < length fds" by simp
    obtain t bs where f: "fds ! i = (t, bs)" by (cases "fds ! i")
    have v: "t < 256" "length bs < 2 ^ 24" "meta_value L dbms (te_columns ev) t bs (us ! i)"
      using fdok i f by (auto simp: list_all2_conv_all_nth)
    have "length (encode_field t bs) \<le> rounds" using length_part [of "fds ! i" fds ?enc] rounds nth_mem [OF i] f by simp
    then have "length bs \<le> rounds" by (simp add: encode_field_def)
    then have "reads rest (read_one_meta_field rounds L P dbms (te_columns ev)) (encode_field t bs) (us ! i)"
      using v by (intro reads_field)
    then show "map ?enc fds ! i \<noteq> [] \<and> reads rest (read_one_meta_field rounds L P dbms (te_columns ev)) (map ?enc fds ! i) (us ! i)"
      using i f by (simp add: encode_field_def)
  qed
  moreover have "length us \<le> rounds"
    using length_list_parts [of fds ?enc] rounds by (auto simp: len encode_field_def)
  ultimately obtain p where "meta_loop rounds rounds L P dbms (te_columns ev) new_optional_meta_data w =
      (Inr (fold (\<lambda>u m. u m) us new_optional_meta_data), taken (length (concat (map ?enc fds))) p w)" "rest p = checksum"
    using meta_loop_reads [OF _ _ w] by blast
  moreover have "(te_table_obj ev)\<lparr>tm_columns := te_columns ev\<rparr> = te_table_obj ev"
    using obj by (cases "te_table_obj ev") simp
  moreover have "ev\<lparr>te_metadata := m, te_columns := te_columns ev, te_table_obj := te_table_obj ev\<rparr> = ev\<lparr>te_metadata := m\<rparr>" for m
    by (cases ev) simp
  ultimately show ?thesis
    by (simp add: read_table_metadata_def get_optional_meta_data_def sync_column_info_def bindA_def pureA_def liftA_def retA_def Let_def)
qed

end

section \<open>Properties\<close>


text \<open>A table with an unsigned INT and a DECIMAL(4,2), which may be NULL.\<close>

definition sample_described :: "(nat \<times> byte list) list" where
  "sample_described = [(3, []), (246, [4, 2])]"

definition sample_map_columns :: "column list" where
  "sample_map_columns = [blank_column 3, (blank_column 246)\<lparr>col_precision := Some 4, col_decimals := Some 2\<rparr>]"

definition sample_table_map :: "byte list" where
  "sample_table_map = encode_table_map 9 1 [100, 98] [116] sample_described [2] @ encode_field 1 [0x80] @ [1, 2, 3, 4]"


end
