(* ===== verification/DecodingEnds.thy ===== *)
theory DecodingEnds
  imports TableMapCodec
begin

text \<open>
  The loops of the decoders end on any input, well-formed or not: they read at least one byte in each
  round, and a packet raises when its bytes run out. In the model a loop takes a number of rounds;
  with more rounds than there are bytes left the outcome is never \<^const>\<open>LoopBound\<close>.
\<close>

section \<open>A packet that raises at its end\<close>

locale strict_source = counted_source +
  assumes source_short: "\<not> (0 \<le> n \<and> n \<le> int (length (rest p))) \<Longrightarrow> \<exists>p'. pk_read P n p = (Inl AssertionError, p')"
    and advance_short: "int (length (rest p)) < n \<Longrightarrow> \<exists>p'. pk_advance P n p = (Inl AssertionError, p')"
    and unpack_raises: "pk_unpack_int64 P bs \<noteq> Inl LoopBound"

interpretation strict: strict_source bytes_packet "\<lambda>p. p"
  by unfold_locales (auto simp: bytes_packet_def)

section \<open>Results without the loop bound\<close>

definition fine :: "'a res \<Rightarrow> bool" where
  "fine r \<longleftrightarrow> r \<noteq> Inl LoopBound"

text \<open>With at most \<open>r\<close> bytes left, the reader ends and takes at least \<open>k\<close> bytes off.\<close>

definition takes :: "nat \<Rightarrow> ('p \<Rightarrow> byte list) \<Rightarrow> nat \<Rightarrow> ('p wrapper, 'a) act \<Rightarrow> bool" where
  "takes k rest r m \<longleftrightarrow> (\<forall>w. length (pending rest w) \<le> r \<longrightarrow> fine (fst (m w))
     \<and> (\<forall>v w'. m w = (Inr v, w') \<longrightarrow> length (pending rest w') + k \<le> length (pending rest w)))"

abbreviation "ends \<equiv> takes 0"
abbreviation "eats \<equiv> takes 1"

lemma takesD:
  assumes "takes k rest r m" "length (pending rest w) \<le> r" "m w = (q, w')"
  shows "fine q" "q = Inr v \<Longrightarrow> length (pending rest w') + k \<le> length (pending rest w)"
  using assms by (auto simp: takes_def dest: spec [of _ w])

named_theorems ending \<open>readers that end\<close>

lemma fine_Inr [ending]: "fine (Inr x)"
  and fine_Inl [ending]: "e \<noteq> LoopBound \<Longrightarrow> fine (Inl e)"
  by (simp_all add: fine_def)

lemma fine_bind [ending]: "fine m \<Longrightarrow> (\<And>x. m = Inr x \<Longrightarrow> fine (f x)) \<Longrightarrow> fine (bindE m f)"
  by (cases m) (auto simp: fine_def)

lemma fine_basic [ending]:
  "fine (unpack_le k bs)" "fine (unpack_be k bs)" "fine (unpack_le_signed k bs)" "fine (nthE xs i)" "fine (notNone x)"
  "fine (subscript ys i)"
  by (auto simp: fine_def unpack_le_def unpack_be_def unpack_le_signed_def nthE_def notNone_def subscript_def bindE_def split: option.splits)

lemma takes_less: "takes k rest r m \<Longrightarrow> j \<le> k \<Longrightarrow> takes j rest r m"
  unfolding takes_def by (meson add_le_mono1 le_trans nat_add_left_cancel_le)

lemma takes_fewer: "takes k rest r m \<Longrightarrow> q \<le> r \<Longrightarrow> takes k rest q m"
  unfolding takes_def by (meson le_trans)

lemma eats_ends: "eats rest r m \<Longrightarrow> ends rest r m"
  by (erule takes_less) simp

lemma ends_ret [ending]: "ends rest r (retA v)"
  by (simp add: takes_def retA_def fine_def)

lemma ends_pure [ending]: "fine q \<Longrightarrow> ends rest r (pureA q)"
  by (simp add: takes_def pureA_def liftA_def)

lemma ends_raise [ending]: "e \<noteq> LoopBound \<Longrightarrow> ends rest r (raiseA e)"
  by (simp add: takes_def raiseA_def fine_def)

lemma takes_bind:
  assumes m: "takes k rest r m" and f: "\<And>v. k \<le> r \<Longrightarrow> takes j rest (r - k) (f v)"
  shows "takes (k + j) rest r (bindA m f)"
  unfolding takes_def
proof (intro allI impI)
  fix w assume w: "length (pending rest w) \<le> r"
  obtain q w1 where q: "m w = (q, w1)" by fastforce
  note d = takesD [OF m w q]
  show "fine (fst (bindA m f w)) \<and> (\<forall>v w'. bindA m f w = (Inr v, w') \<longrightarrow>
      length (pending rest w') + (k + j) \<le> length (pending rest w))"
  proof (cases q)
    case (Inl e)
    then show ?thesis using q d(1) by (simp add: bindA_def fine_def)
  next
    case (Inr x)
    have w1: "length (pending rest w1) + k \<le> length (pending rest w)" by (rule d(2) [OF Inr])
    then have "length (pending rest w1) \<le> r - k" "k \<le> r" using w by simp_all
    then have "fine (fst (f x w1))" "\<And>v w'. f x w1 = (Inr v, w') \<Longrightarrow> length (pending rest w') + j \<le> length (pending rest w1)"
      using f [of x] by (simp_all add: takes_def)
    then show ?thesis using q Inr w1 by (auto simp: bindA_def)
  qed
qed

lemma ends_bind [ending]: "ends rest r m \<Longrightarrow> (\<And>v. ends rest r (f v)) \<Longrightarrow> ends rest r (bindA m f)"
  using takes_bind [of 0 rest r m 0 f] by simp

lemma eats_bind: "eats rest r m \<Longrightarrow> (\<And>v. ends rest r (f v)) \<Longrightarrow> eats rest r (bindA m f)"
  using takes_bind [of 1 rest r m 0 f] takes_fewer by (metis add.right_neutral diff_le_self)

lemma ends_if [ending]: "ends rest r m \<Longrightarrow> ends rest r n \<Longrightarrow> ends rest r (if b then m else n)"
  by simp

lemma ends_times [ending]: "ends rest r m \<Longrightarrow> ends rest r (read_times n m)"
  by (induction n) (auto intro: ending)

text \<open>A loop up to a position, each round taking a byte.\<close>

lemma ends_before:
  assumes "eats rest r m" "r < rounds"
  shows "ends rest r (read_before rounds until m)"
  using assms
proof (induction rounds arbitrary: r)
  case (Suc rounds)
  have body: "ends rest r (bindA m (\<lambda>x. bindA (read_before rounds until m) (\<lambda>xs. retA (x # xs))))"
  proof -
    have "ends rest (r - 1) (read_before rounds until m)" if "1 \<le> r"
      using Suc.IH [OF takes_fewer [OF Suc.prems(1)], of "r - 1"] Suc.prems(2) that by simp
    then have "takes (1 + 0) rest r (bindA m (\<lambda>x. bindA (read_before rounds until m) (\<lambda>xs. retA (x # xs))))"
      by (intro takes_bind [OF Suc.prems(1)] ending)
    then show ?thesis by (rule takes_less) simp
  qed
  then show ?case by (simp add: takes_def fine_def)
qed simp

lemma ends_items: "eats rest r m \<Longrightarrow> r < rounds \<Longrightarrow> ends rest r (read_items rounds len m)"
  using ends_before [of rest r m rounds] by (auto simp: read_items_def takes_def)

section \<open>Readers\<close>

context strict_source
begin

lemma read_short:
  assumes "\<not> (0 \<le> n \<and> n \<le> int (length (pending rest w)))"
  shows "fst (packet_read P n w) = Inl AssertionError"
proof -
  let ?w = "w\<lparr>pw_read_bytes := pw_read_bytes w + n\<rparr>"
  have short: "fst (on_packet (pk_read P k) v) = Inl AssertionError" if "\<not> (0 \<le> k \<and> k \<le> int (length (rest (pw_packet v))))" for k v
    using source_short [OF that] by (auto simp: on_packet_def)
  show ?thesis
  proof (cases "pw_buffer w = []")
    case True
    then show ?thesis using short [of n ?w] assms by (simp add: packet_read_def pending_def)
  next
    case False
    let ?data = "slice_to (pw_buffer w) n" and ?v = "?w\<lparr>pw_buffer := slice_from (pw_buffer w) n\<rparr>"
    have d: "int (length ?data) \<noteq> n" "\<not> (0 \<le> n - int (length ?data) \<and> n - int (length ?data) \<le> int (length (rest (pw_packet w))))"
      using assms by (auto simp: slice_to_def pending_def)
    then show ?thesis using short [of "n - int (length ?data)" ?v] False
      by (auto simp: packet_read_def Let_def bindA_def split: sum.splits prod.splits)
  qed
qed

lemma takes_read: "takes (nat n) rest r (packet_read P n)"
  unfolding takes_def
proof (intro allI impI)
  fix w
  show "fine (fst (packet_read P n w)) \<and> (\<forall>v w'. packet_read P n w = (Inr v, w') \<longrightarrow>
      length (pending rest w') + nat n \<le> length (pending rest w))"
  proof (cases "0 \<le> n \<and> n \<le> int (length (pending rest w))")
    case True
    then have le: "nat n \<le> length (pending rest w)" by linarith
    from read_taken [OF le] True obtain p where p: "packet_read P n w = (Inr (take (nat n) (pending rest w)), taken (nat n) p w)"
      "rest p = drop (nat n - length (pw_buffer w)) (rest (pw_packet w))" by auto
    then have "length (pending rest (taken (nat n) p w)) = length (pending rest w) - nat n" by (simp add: pending_def)
    then show ?thesis using p(1) le by (simp add: fine_def)
  next
    case False
    from read_short [OF this] show ?thesis by (auto simp: fine_def)
  qed
qed

lemma ends_read [ending]: "ends rest r (packet_read P n)"
  using takes_read by (rule takes_less) simp

lemma eats_read: "1 \<le> n \<Longrightarrow> eats rest r (packet_read P n)"
  using takes_read by (rule takes_less) simp

lemma ends_advance [ending]: "ends rest r (packet_advance P 1)"
  unfolding takes_def
proof (intro allI impI)
  fix w
  show "fine (fst (packet_advance P 1 w)) \<and> (\<forall>v w'. packet_advance P 1 w = (Inr v, w') \<longrightarrow>
      length (pending rest w') + 0 \<le> length (pending rest w))"
  proof (cases "1 \<le> length (pending rest w)")
    case True
    from advance_taken [OF this] obtain p where "packet_advance P 1 w = (Inr (), taken 1 p w)"
      "rest p = drop (1 - length (pw_buffer w)) (rest (pw_packet w))" by auto
    then show ?thesis by (simp add: fine_def pending_def)
  next
    case False
    then have w: "pw_buffer w = []" "rest (pw_packet w) = []" by (auto simp: pending_def not_le)
    obtain p' where "pk_advance P 1 (pw_packet w) = (Inl AssertionError, p')"
      using advance_short [of "pw_packet w" 1] w(2) by auto
    then show ?thesis using w by (simp add: packet_advance_def on_packet_def fine_def)
  qed
qed

lemma eats_uint8: "eats rest r (read_uint8 P)"
  unfolding read_uint8_def by (intro eats_bind eats_read ending) simp

lemma ends_uints [ending]:
  "ends rest r (read_uint8 P)" "ends rest r (read_uint16 P)" "ends rest r (read_uint24 P)" "ends rest r (read_uint32 P)" "ends rest r (read_uint64 P)"
proof -
  have b: "fine (unpack_BBB bs)" for bs by (simp add: fine_def unpack_BBB_def split: list.splits)
  show "ends rest r (read_uint8 P)" "ends rest r (read_uint16 P)" "ends rest r (read_uint24 P)" "ends rest r (read_uint32 P)" "ends rest r (read_uint64 P)"
    unfolding read_uint8_def read_uint16_def read_uint24_def read_uint32_def read_uint64_def
    by (intro ending b; simp split: prod.split add: ending)+
qed

lemma eats_length_coded: "eats rest r (read_length_coded_binary P)"
proof -
  have u: "fine (unpack_uint16 n)" "fine (unpack_int24 n)" "fine (pk_unpack_int64 P n)" for n
    using unpack_raises [of n] by (simp_all add: fine_def unpack_uint16_def unpack_int24_def unpack_le_def nthE_def bindE_def)
  show ?thesis unfolding read_length_coded_binary_def by (intro eats_bind eats_read ending u) simp
qed

lemma ends_length_coded [ending]: "ends rest r (read_length_coded_binary P)"
  by (rule eats_ends [OF eats_length_coded])

lemma eats_variable_length: "r < rounds \<Longrightarrow> eats rest r (variable_length rounds P len bits)"
proof (induction rounds arbitrary: r len bits)
  case (Suc rounds)
  have "takes (1 + 0) rest r (variable_length (Suc rounds) P len bits)"
    unfolding variable_length.simps
  proof (intro takes_bind [OF eats_read], simp)
    fix v assume "1 \<le> r"
    then have "r - 1 < rounds" using Suc.prems by simp
    from eats_ends [OF Suc.IH [OF this]]
    show "ends rest (r - 1) (bindA (pureA (unpack_be 1 v)) (\<lambda>b. let len' = len OR push_bit bits (b AND 0x7F)
        in if b AND 0x80 \<noteq> 0 then variable_length rounds P len' (bits + 7) else retA len'))"
      unfolding Let_def by (intro ending)
  qed
  then show ?case by simp
qed simp

lemma eats_variable_length_string: "r < rounds \<Longrightarrow> eats rest r (read_variable_length_string rounds P)"
  unfolding read_variable_length_string_def by (intro eats_bind eats_variable_length ending)

lemma eats_until_zero: "r < rounds \<Longrightarrow> eats rest r (read_until_zero rounds P str)"
proof (induction rounds arbitrary: r str)
  case (Suc rounds)
  have "takes (1 + 0) rest r (read_until_zero (Suc rounds) P str)"
    unfolding read_until_zero.simps
  proof (intro takes_bind [OF eats_read], simp)
    fix v assume "1 \<le> r"
    then have "r - 1 < rounds" using Suc.prems by simp
    from eats_ends [OF Suc.IH [OF this]]
    show "ends rest (r - 1) (if v = [0] then retA str else read_until_zero rounds P (str @ v))" by (intro ending)
  qed
  then show ?case by simp
qed simp

section \<open>Query events\<close>

lemma ends_attrs [ending]:
  "ends rest r m \<Longrightarrow> ends rest r (read_attr nm m)"
  "ends rest r m1 \<Longrightarrow> ends rest r m2 \<Longrightarrow> ends rest r (both_attrs m1 m2)"
  "ends rest r (read_sized_attr P nm)"
  unfolding read_attr_def both_attrs_def read_sized_attr_def by (intro ending; assumption)+

lemma eats_status_var:
  assumes "r < rounds"
  shows "eats rest r (read_one_status_var rounds P)"
proof -
  have s: "ends rest r (read_string rounds P)" unfolding read_string_def by (rule eats_ends [OF eats_until_zero [OF assms]])
  show ?thesis unfolding read_one_status_var_def read_status_var_def
    by (intro eats_bind [OF eats_uint8] ending s) simp_all
qed

lemma ends_query_event:
  assumes "\<And>bs. fine (rl_decode L ''utf-8'' ''backslashreplace'' bs)" "r < rounds"
  shows "ends rest r (new_query_event rounds L P event_size)"
  unfolding new_query_event_def
  by (intro ending assms ends_items [OF eats_status_var])

section \<open>Table map events\<close>

lemma fine_columns:
  "fine (bool_list_loop sf data cs byte_idx bit_idx b)"
  "fine (convert_include_non_numeric_column cs bs pos)"
  "fine (column_charset_loop ns detect cs pos)"
  "fine (parsed_column_charset_by_column_charset ns detect cs)"
  "fine (pair_items xs)"
proof -
  show "fine (bool_list_loop sf data cs byte_idx bit_idx b)"
    by (induction cs arbitrary: byte_idx bit_idx b) (auto intro!: ending)
  show "fine (convert_include_non_numeric_column cs bs pos)"
    by (induction cs bs pos rule: convert_include_non_numeric_column.induct) (auto intro!: ending)
  show c: "fine (column_charset_loop ns detect cs pos)" for pos
    by (induction ns detect cs pos rule: column_charset_loop.induct) (auto intro!: ending)
  show "fine (parsed_column_charset_by_column_charset ns detect cs)"
    unfolding parsed_column_charset_by_column_charset_def using c by (auto intro!: ending)
  show "fine (pair_items xs)" by (induction xs rule: pair_items.induct) (auto intro!: ending)
qed

lemma fine_sync: "fine (sync_columns m dbms cs i p)"
proof -
  have s: "fine (set_column_charset x d c)" for x d c
    by (auto simp: set_column_charset_def find_charset_def intro!: ending split: option.split)
  have f: "fine (flag_at fs i)" for fs i by (auto simp: flag_at_def intro!: ending)
  have a: "fine (sync_character m dbms cp)" "fine (sync_members m dbms cp)" "fine (sync_flags m i c)" for m :: optional_meta_data and dbms cp i c
    unfolding sync_character_def sync_members_def sync_flags_def Let_def
    by (auto intro!: ending s f split: prod.split)
  show ?thesis by (induction cs arbitrary: i p) (auto intro!: ending a split: prod.split)
qed

lemma ends_bools: "ends rest r (read_bool_list P cs len sf)"
  unfolding read_bool_list_def by (intro ending fine_columns)

lemma ends_ints: "r < rounds \<Longrightarrow> ends rest r (read_ints rounds P len)"
  unfolding read_ints_def by (intro ends_items eats_length_coded)

lemma ends_default_charset:
  assumes "r < rounds"
  shows "ends rest r (read_default_charset rounds P len)"
proof -
  have p: "eats rest r (read_pair P)" unfolding read_pair_def by (intro eats_bind eats_length_coded ending)
  have e: "ends rest r (bindA (read_length_coded_binary P) (\<lambda>d. bindA (read_before rounds until (read_pair P)) (\<lambda>pairs. retA (d, set_items pairs))))" for until
    by (intro ending ends_before p assms)
  show ?thesis unfolding takes_def
  proof (intro allI impI)
    fix w assume w: "length (pending rest w) \<le> r"
    from takesD [OF e w] show "fine (fst (read_default_charset rounds P len w)) \<and>
        (\<forall>v w'. read_default_charset rounds P len w = (Inr v, w') \<longrightarrow> length (pending rest w') + 0 \<le> length (pending rest w))"
      by (simp add: read_default_charset_def Let_def fine_def) (metis prod.collapse)
  qed
qed

lemma ends_names:
  assumes "\<And>bs. fine (utf8 L bs)" "r < rounds"
  shows "ends rest r (read_column_names rounds L P len)"
  unfolding read_column_names_def
  by (intro ends_items assms eats_bind eats_variable_length_string ending)

lemma ends_type_values:
  assumes u: "\<And>bs. fine (utf8 L bs)" and r: "r < rounds"
  shows "ends rest r (read_type_values rounds L P len)"
proof -
  have v: "ends rest r (read_type_value rounds L P)"
    unfolding read_type_value_def using u
    by (intro ending eats_ends [OF eats_variable_length_string] r) (auto simp: fine_def split: sum.split)
  show ?thesis unfolding read_type_values_def read_type_value_list_def
    by (intro ending ends_items eats_bind eats_length_coded r v)
qed

lemma ends_meta_field:
  assumes u: "\<And>bs. fine (utf8 L bs)" and r: "r < rounds"
  shows "ends rest r (read_meta_field rounds L P dbms cs t len)"
proof -
  have k: "ends rest r (read_primary_keys_with_prefix rounds P n)" for n
    unfolding read_primary_keys_with_prefix_def by (intro ending ends_ints r fine_columns)
  show ?thesis unfolding read_meta_field_def
    by (intro ending ends_bools ends_ints ends_default_charset ends_names ends_type_values u r k fine_columns; simp split: prod.split add: ending)
qed

lemma eats_meta_field: "(\<And>bs. fine (utf8 L bs)) \<Longrightarrow> r < rounds \<Longrightarrow> eats rest r (read_one_meta_field rounds L P dbms cs)"
  unfolding read_one_meta_field_def by (intro eats_bind eats_read ending ends_meta_field; simp)

lemma ends_meta_loop:
  assumes u: "\<And>bs. fine (utf8 L bs)" and "r < rounds" "r \<le> n"
  shows "ends rest r (meta_loop n rounds L P dbms cs m)"
  using assms(2,3)
proof (induction n arbitrary: r m)
  case 0
  then show ?case by (auto simp: takes_def fine_def pending_def bytes_to_read_def source_left)
next
  case (Suc n)
  have "takes (1 + 0) rest r (bindA (read_one_meta_field rounds L P dbms cs) (\<lambda>upd. meta_loop n rounds L P dbms cs (upd m)))"
    by (rule takes_bind [OF eats_meta_field [OF u Suc.prems(1)]], rule Suc.IH) (use Suc.prems in simp_all)
  then have body: "ends rest r (bindA (read_one_meta_field rounds L P dbms cs) (\<lambda>upd. meta_loop n rounds L P dbms cs (upd m)))"
    by (rule takes_less) simp
  then show ?case by (simp add: takes_def fine_def)
qed

lemma ends_table_metadata:
  assumes "\<And>bs. fine (utf8 L bs)" "r < rounds"
  shows "ends rest r (read_table_metadata rounds L P omd dbms ev)"
  unfolding read_table_metadata_def get_optional_meta_data_def sync_column_info_def Let_def
  using assms by (intro ending ends_meta_loop; simp split: prod.split add: ending fine_sync)

end

section \<open>Properties\<close>

text \<open>C6. Decoding ends on any bytes, well-formed or not. For a packet that raises when its bytes run out,
  the loops over the status variables of a query and over the optional metadata of a table, and those
  inside them, need at most one round more than there are bytes left, so that they end with a value or
  an exception.
\<close>
theorem decoding_ends:
  assumes src: "strict_source P rest"
    and dec: "\<And>codec errors bs. rl_decode L codec errors bs \<noteq> Inl LoopBound"
    and rounds: "length (pending rest w) < rounds"
  shows "fst (new_query_event rounds L P event_size w) \<noteq> Inl LoopBound
    \<and> fst (read_table_metadata rounds L P optional_meta_data dbms ev w) \<noteq> Inl LoopBound"
proof (rule conjI)
  have u: "fine (utf8 L bs)" "fine (rl_decode L ''utf-8'' ''backslashreplace'' bs)" for bs
    using dec by (simp_all add: utf8_def fine_def)
  show "fst (new_query_event rounds L P event_size w) \<noteq> Inl LoopBound"
    using strict_source.ends_query_event [OF src u(2) rounds, of event_size] by (auto simp: takes_def fine_def)
  show "fst (read_table_metadata rounds L P optional_meta_data dbms ev w) \<noteq> Inl LoopBound"
    using strict_source.ends_table_metadata [OF src u(1) rounds] by (auto simp: takes_def fine_def)
qed

text \<open>Bytes that are no query event.\<close>

theorem decoding_ends_witness:
  "fst (new_query_event 9 sample_query_lib bytes_packet 30 (sample_wrapper\<lparr>pw_packet := [1, 2, 3, 4, 5, 6, 7, 8]\<rparr>)) \<noteq> Inl LoopBound"
  by (rule conjunct1 [OF decoding_ends [OF strict.strict_source_axioms]])
    (simp_all add: sample_query_lib_def pending_def sample_wrapper_def)

end
