(* ===== verification/EventDispatch.thy ===== *)
theory EventDispatch
  imports DecodingEnds
begin

text \<open>
  The rest of \<^verbatim>\<open>pymysqlreplication/packet.py\<close>: \<^verbatim>\<open>BinLogPacketWrapper.__init__\<close> reads the header of a packet,
  looks up the class of its event and makes the event. A row event keeps its packet, from which the
  rows are read later, and a table map event enters its table into the table map of the stream, so that
  the state here is the wrapper with the table map. The server \<^verbatim>\<open>_get_dbms\<close> finds is a setting.
\<close>

section \<open>Classes of events\<close>

datatype event_class =
    QueryEvent | RotateEvent | FormatDescriptionEvent | XidEvent | IntvarEvent | GtidEvent | PreviousGtidsEvent
  | StopEvent | BeginLoadQueryEvent | ExecuteLoadQueryEvent | HeartbeatLogEvent | XAPrepareEvent | RowsQueryLogEvent
  | RandEvent | UserVarEvent | RowsEventOf rows_kind | TableMapEvent | NotImplementedEvent | MariadbAnnotateRowsEvent
  | MariadbBinLogCheckPointEvent | MariadbGtidEvent | MariadbGtidListEvent | MariadbStartEncryptionEvent

abbreviation (input) "QUERY_EVENT \<equiv> 0x02 :: nat"
abbreviation (input) "ROTATE_EVENT \<equiv> 0x04 :: nat"
abbreviation (input) "FORMAT_DESCRIPTION_EVENT \<equiv> 0x0F :: nat"
abbreviation (input) "TABLE_MAP_EVENT \<equiv> 0x13 :: nat"

definition event_map :: "(nat, event_class) dict" where
  "event_map =
    [(QUERY_EVENT, QueryEvent), (ROTATE_EVENT, RotateEvent), (FORMAT_DESCRIPTION_EVENT, FormatDescriptionEvent),
     (0x10, XidEvent), (0x05, IntvarEvent), (0x21, GtidEvent), (0x23, PreviousGtidsEvent), (0x03, StopEvent),
     (0x11, BeginLoadQueryEvent), (0x12, ExecuteLoadQueryEvent), (0x1B, HeartbeatLogEvent), (0x26, XAPrepareEvent),
     (0x1D, RowsQueryLogEvent), (0x0D, RandEvent), (0x0E, UserVarEvent),
     (UPDATE_ROWS_EVENT_V1, RowsEventOf UpdateRows), (WRITE_ROWS_EVENT_V1, RowsEventOf WriteRows),
     (DELETE_ROWS_EVENT_V1, RowsEventOf DeleteRows), (UPDATE_ROWS_EVENT_V2, RowsEventOf UpdateRows),
     (WRITE_ROWS_EVENT_V2, RowsEventOf WriteRows), (DELETE_ROWS_EVENT_V2, RowsEventOf DeleteRows),
     (TABLE_MAP_EVENT, TableMapEvent), (PARTIAL_UPDATE_ROWS_EVENT, RowsEventOf PartialUpdateRows),
     (0x22, NotImplementedEvent), (0xA0, MariadbAnnotateRowsEvent), (0xA1, MariadbBinLogCheckPointEvent),
     (0xA2, MariadbGtidEvent), (0xA3, MariadbGtidListEvent), (0xA4, MariadbStartEncryptionEvent)]"

definition event_class_of :: "nat \<Rightarrow> event_class" where
  "event_class_of event_type = (case map_of event_map event_type of Some c \<Rightarrow> c | None \<Rightarrow> NotImplementedEvent)"

section \<open>Making an event\<close>

record event_settings =
  es_filters :: event_filters
  es_freeze_schema :: bool
  es_verify_checksum :: bool
  es_optional_meta_data :: bool
  es_dbms :: string

type_synonym tables = "(nat, table_map_entry) dict"

datatype binlog_event =
    BodyEvent event_class event_body
  | RowsOf rows_kind rows_event
  | TableOf table_map_event

fun class_of :: "binlog_event \<Rightarrow> event_class" where
  "class_of (BodyEvent c _) = c"
| "class_of (RowsOf k _) = RowsEventOf k"
| "class_of (TableOf _) = TableMapEvent"

definition body_event ::
    "nat \<Rightarrow> row_lib \<Rightarrow> 'p packet_ops \<Rightarrow> int list \<Rightarrow> bool \<Rightarrow> int \<Rightarrow> event_class \<Rightarrow> ('p wrapper, event_body) act" where
  "body_event rounds L P mysql_version verify_checksum event_size c =
    (case c of
       QueryEvent \<Rightarrow> new_query_event rounds L P event_size
     | RotateEvent \<Rightarrow> new_rotate_event L P event_size
     | FormatDescriptionEvent \<Rightarrow> new_format_description_event L P event_size
     | XidEvent \<Rightarrow> new_xid_event P
     | IntvarEvent \<Rightarrow> new_intvar_event P
     | GtidEvent \<Rightarrow> new_gtid_event P mysql_version
     | PreviousGtidsEvent \<Rightarrow> new_previous_gtids_event P
     | StopEvent \<Rightarrow> retA StopBody
     | BeginLoadQueryEvent \<Rightarrow> new_begin_load_query_event P event_size
     | ExecuteLoadQueryEvent \<Rightarrow> new_execute_load_query_event P
     | HeartbeatLogEvent \<Rightarrow> new_heartbeat_event L P event_size
     | XAPrepareEvent \<Rightarrow> new_xa_prepare_event P
     | RowsQueryLogEvent \<Rightarrow> new_rows_query_event L P
     | RandEvent \<Rightarrow> new_rand_event P
     | UserVarEvent \<Rightarrow> new_user_var_event L P
     | MariadbAnnotateRowsEvent \<Rightarrow> new_annotate_rows_event P event_size
     | MariadbBinLogCheckPointEvent \<Rightarrow> new_checkpoint_event L P
     | MariadbGtidEvent \<Rightarrow> new_mariadb_gtid_event P
     | MariadbGtidListEvent \<Rightarrow> new_gtid_list_event P verify_checksum event_size
     | MariadbStartEncryptionEvent \<Rightarrow> new_start_encryption_event P
     | _ \<Rightarrow> new_not_implemented_event P event_size)"

text \<open>A reader of the packet, run with the table map beside it.\<close>

definition on_wrapper :: "('p wrapper, 'a) act \<Rightarrow> ('p wrapper \<times> tables, 'a) act" where
  "on_wrapper m = (\<lambda>(w, tm). case m w of (r, w') \<Rightarrow> (r, (w', tm)))"

definition enter_table :: "nat \<Rightarrow> table_map_entry \<Rightarrow> ('p wrapper \<times> tables, unit) act" where
  "enter_table i t = modifyA (\<lambda>(w, tm). (w, AList.update i t tm))"

text \<open>\<^verbatim>\<open>TableMapEvent.__init__\<close>: the table is entered before its metadata is read.\<close>

definition new_table_map_event ::
    "nat \<Rightarrow> row_lib \<Rightarrow> 'p packet_ops \<Rightarrow> event_settings \<Rightarrow> ('p wrapper \<times> tables, table_map_event option) act" where
  "new_table_map_event rounds L P es = (\<lambda>(w, tm).
    bindA (on_wrapper (read_table_map L P (es_filters es) (es_freeze_schema es) tm)) (\<lambda>r. case r of
      None \<Rightarrow> retA None
    | Some ev \<Rightarrow>
        bindA (enter_table (te_table_id ev) (te_table_obj ev)) (\<lambda>_.
        bindA (on_wrapper (read_table_metadata rounds L P (es_optional_meta_data es) (es_dbms es) ev)) (\<lambda>(ev, entry).
        bindA (enter_table (te_table_id ev) entry) (\<lambda>_. retA (Some ev))))) (w, tm))"

text \<open>The call of the class: the base constructor verifies the checksum first. \<^const>\<open>None\<close>: not processed.\<close>

definition new_event ::
    "nat \<Rightarrow> row_lib \<Rightarrow> 'p packet_ops \<Rightarrow> event_settings \<Rightarrow> int list \<Rightarrow> bool \<Rightarrow> int \<Rightarrow> event_class
      \<Rightarrow> ('p wrapper \<times> tables, binlog_event option) act" where
  "new_event rounds L P es mysql_version verify_checksum event_size c = (\<lambda>(w, tm).
    bindA (on_wrapper (verify_event P verify_checksum event_size)) (\<lambda>_.
      case c of
        RowsEventOf kind \<Rightarrow>
          bindA (on_wrapper (new_rows_event P (es_filters es) tm kind event_size)) (\<lambda>ev. retA (map_option (RowsOf kind) ev))
      | TableMapEvent \<Rightarrow>
          bindA (new_table_map_event rounds L P es) (\<lambda>ev. retA (map_option TableOf ev))
      | _ \<Rightarrow>
          bindA (on_wrapper (body_event rounds L P mysql_version verify_checksum event_size c)) (\<lambda>b.
          retA (Some (BodyEvent c b)))) (w, tm))"

text \<open>
  \<^verbatim>\<open>BinLogPacketWrapper(packet, table_map, ...)\<close>: the wrapper with its event, and the table map, which is
  kept when the constructor raises.
\<close>

definition wrap_packet ::
    "nat \<Rightarrow> row_lib \<Rightarrow> 'p packet_ops \<Rightarrow> event_settings \<Rightarrow> int list \<Rightarrow> bool \<Rightarrow> event_class set \<Rightarrow> 'p \<Rightarrow> tables
      \<Rightarrow> ('p wrapper \<times> binlog_event option) res \<times> tables" where
  "wrap_packet rounds L P es mysql_version use_checksum allowed_events p tm =
    (case new_wrapper P p of
       Inl e \<Rightarrow> (Inl e, tm)
     | Inr w \<Rightarrow>
         (case event_size_without_header use_checksum (es_verify_checksum es) w of (event_size, verify_checksum) \<Rightarrow>
            if event_class_of (pw_event_type w) \<notin> allowed_events then (Inr (w, None), tm)
            else (case new_event rounds L P es mysql_version verify_checksum event_size (event_class_of (pw_event_type w)) (w, tm) of
                    (Inl e, (w', tm')) \<Rightarrow> (Inl e, tm')
                  | (Inr ev, (w', tm')) \<Rightarrow> (Inr (w', ev), tm'))))"

section \<open>What the wrapper keeps\<close>

text \<open>An event is of the class its code stands for.\<close>

lemma new_event_class:
  "new_event rounds L P es v vc sz c s = (Inr (Some ev), t) \<Longrightarrow> class_of ev = c"
  by (cases s; cases c) (auto simp: new_event_def bindA_def retA_def split: prod.splits sum.splits)

lemma wrap_packet_class:
  assumes "wrap_packet rounds L P es v uc allowed p tm = (Inr (w, Some ev), tm')"
  shows "class_of ev \<in> allowed"
  using assms new_event_class
  by (fastforce simp: wrap_packet_def split: sum.splits prod.splits if_splits)

text \<open>An event that is neither a row event nor a table map leaves the table map alone.\<close>

lemma on_wrapper_tables: "snd (snd (on_wrapper m s)) = snd s"
  by (simp add: on_wrapper_def split: prod.split)

definition body_class :: "event_class \<Rightarrow> bool" where
  "body_class c = (case c of RowsEventOf _ \<Rightarrow> False | TableMapEvent \<Rightarrow> False | _ \<Rightarrow> True)"

lemma new_body_event:
  assumes "body_class c"
  shows "new_event rounds L P es v False sz c (w, tm) =
    (case body_event rounds L P v False sz c w of (Inl e, w') \<Rightarrow> (Inl e, (w', tm))
       | (Inr b, w') \<Rightarrow> (Inr (Some (BodyEvent c b)), (w', tm)))"
  using assms
  by (cases c) (simp_all add: body_class_def new_event_def verify_event_def on_wrapper_def bindA_def retA_def
      split: prod.split sum.split)

end
