(* ===== verification/BinlogStream.thy ===== *)
theory BinlogStream
  imports EventDispatch
begin

text \<open>
  \<^verbatim>\<open>pymysqlreplication/binlogstream.py\<close>: \<^verbatim>\<open>BinLogStreamReader\<close> asks the server for its binary log, from a
  position or a set of transactions on, and decodes the packets it receives. A lost connection is made
  again, from the position reached. What the server answers to the \<open>n\<close>-th connection is an argument,
  what arrives on the connections a list of deliveries; a call that finds no delivery waits. Everything
  the reader sends is kept in \<open>br_sent\<close>. The server's kind is a function of the text it introduces itself
  with. \<^verbatim>\<open>__check_optional_meta_data\<close> is never called, so that the names in table maps are not used.
\<close>

section \<open>Encoding\<close>

text \<open>\<^verbatim>\<open>str.encode()\<close> for characters of eight bits, and the signed number of \<^verbatim>\<open>struct.pack("<i", n)\<close>.\<close>

definition encode_char :: "char \<Rightarrow> byte list" where
  "encode_char c = (let n = of_char c :: nat in
     if n < 128 then [of_nat n] else [of_nat (192 + n div 64), of_nat (128 + n mod 64)])"

definition encode_text :: "string \<Rightarrow> byte list" where
  "encode_text s = concat (map encode_char s)"

definition pack_int32 :: "nat \<Rightarrow> byte list res" where
  "pack_int32 n = (if n < 2 ^ 31 then Inr (le_bytes 4 n) else Inl StructError)"

section \<open>Reporting the reader to the server\<close>

record report_slave =
  rs_hostname :: string
  rs_username :: string
  rs_password :: string
  rs_port :: int

datatype report_value =
    ReportHost string
  | ReportTuple "string list"
  | ReportDict "string option" "string option" "string option" "int option"

text \<open>A short tuple leaves the attributes behind its end as they are.\<close>

fun new_report_slave :: "report_value \<Rightarrow> report_slave res" where
  "new_report_slave (ReportHost h) = Inr \<lparr>rs_hostname = h, rs_username = [], rs_password = [], rs_port = 0\<rparr>"
| "new_report_slave (ReportTuple vs) =
    bindE (case vs of _ # _ # _ # p # _ \<Rightarrow> py_int p | _ \<Rightarrow> Inr 0) (\<lambda>port.
    Inr \<lparr>rs_hostname = (if 0 < length vs then vs ! 0 else []), rs_username = (if 1 < length vs then vs ! 1 else []),
      rs_password = (if 2 < length vs then vs ! 2 else []), rs_port = port\<rparr>)"
| "new_report_slave (ReportDict h u pw p) =
    Inr \<lparr>rs_hostname = (case h of Some x \<Rightarrow> x | None \<Rightarrow> []), rs_username = (case u of Some x \<Rightarrow> x | None \<Rightarrow> []),
      rs_password = (case pw of Some x \<Rightarrow> x | None \<Rightarrow> []), rs_port = (case p of Some x \<Rightarrow> x | None \<Rightarrow> 0)\<rparr>"

text \<open>\<^verbatim>\<open>struct.pack(f"<{min(257, len + 1)}p", s)\<close>: at most 256 bytes behind the length, which is at most 255.\<close>

definition pack_pascal :: "byte list \<Rightarrow> byte list" where
  "pack_pascal bs = (let kept = take 256 bs in of_nat (min 255 (length kept)) # kept)"

definition report_slave_encoded :: "report_slave \<Rightarrow> nat \<Rightarrow> nat \<Rightarrow> byte list res" where
  "report_slave_encoded s server_id master_id =
    (let hostname = encode_text (rs_hostname s); username = encode_text (rs_username s); password = encode_text (rs_password s);
         packet_len = 1 + 4 + 1 + length hostname + 1 + length username + 1 + length password + 2 + 4 + 4
     in bindE (pack_int32 packet_len) (\<lambda>len. bindE (pack_le 4 server_id) (\<lambda>server.
        bindE (if 0 \<le> rs_port s then pack_le 2 (nat (rs_port s)) else Inl StructError) (\<lambda>port. bindE (pack_int32 master_id) (\<lambda>master.
        Inr (len @ [0x15] @ server @ pack_pascal hostname @ pack_pascal username @ pack_pascal password @ port
          @ le_bytes 4 0 @ master))))))"

section \<open>State\<close>

text \<open>Intervals in seconds; the rounds are for the loops of the decoders.\<close>

record 'p stream_settings =
  ss_lib :: row_lib
  ss_packets :: "'p packet_ops"
  ss_rounds :: nat
  ss_server_id :: nat
  ss_resume_stream :: bool
  ss_blocking :: bool
  ss_allowed_events :: "event_class set"
  ss_event_settings :: event_settings
  ss_end_log_pos :: "nat option"
  ss_auto_position :: "string option"
  ss_skip_to_timestamp :: "nat option"
  ss_report_slave :: "report_slave option"
  ss_slave_uuid :: "string option"
  ss_slave_heartbeat :: "nat option"
  ss_read_timeout :: "nat option"
  ss_is_mariadb :: bool
  ss_annotate_rows_event :: bool
  ss_server_info :: string

datatype request = Connect | Execute string | Write "byte list" | CloseStream | ConnectCtl | CloseCtl

record stream_reader =
  br_connected_stream :: bool
  br_connected_ctl :: bool
  br_use_checksum :: bool
  br_table_map :: tables
  br_log_pos :: "nat option"
  br_log_file :: "string option"
  br_past_end_log_pos :: bool
  br_mysql_version :: "int list"
  br_connections :: nat
  br_sent :: "request list"

definition new_stream_reader :: "string option \<Rightarrow> nat option \<Rightarrow> stream_reader" where
  "new_stream_reader log_file log_pos = \<lparr>br_connected_stream = False, br_connected_ctl = False, br_use_checksum = False,
     br_table_map = [], br_log_pos = log_pos, br_log_file = log_file, br_past_end_log_pos = False,
     br_mysql_version = [0, 0, 0], br_connections = 0, br_sent = []\<rparr>"

text \<open>The answers to one connection; \<open>sa_refused\<close>: \<^verbatim>\<open>pymysql.connect\<close> raises.\<close>

record server_answers =
  sa_refused :: bool
  sa_checksum :: "string option"
  sa_knows_master_status :: bool
  sa_master_status :: "(string \<times> nat) option"

section \<open>Allowed events\<close>

text \<open>\<^verbatim>\<open>set.remove\<close> raises KeyError for a class that is not there.\<close>

definition allowed_event_list ::
    "event_class list option \<Rightarrow> event_class list option \<Rightarrow> bool \<Rightarrow> event_class set res" where
  "allowed_event_list only_events ignored_events filter_non_implemented_events =
    (let events = (case only_events of Some es \<Rightarrow> set es | None \<Rightarrow>
           {QueryEvent, RotateEvent, StopEvent, FormatDescriptionEvent, XAPrepareEvent, XidEvent, GtidEvent,
            BeginLoadQueryEvent, ExecuteLoadQueryEvent, RowsEventOf UpdateRows, RowsEventOf WriteRows,
            RowsEventOf DeleteRows, TableMapEvent, HeartbeatLogEvent, NotImplementedEvent, MariadbGtidEvent,
            RowsQueryLogEvent, MariadbAnnotateRowsEvent, RandEvent, MariadbStartEncryptionEvent, MariadbGtidListEvent,
            MariadbBinLogCheckPointEvent, UserVarEvent, PreviousGtidsEvent, RowsEventOf PartialUpdateRows})
     in bindE (case ignored_events of
           None \<Rightarrow> Inr events
         | Some es \<Rightarrow> foldE (\<lambda>e events. if e \<in> events then Inr (events - {e}) else Inl KeyError) es events) (\<lambda>events.
        Inr (if filter_non_implemented_events then events - {NotImplementedEvent} else events)))"

text \<open>Table maps and rotations are needed to decode the others.\<close>

definition allowed_events_in_packet :: "'p stream_settings \<Rightarrow> event_class set" where
  "allowed_events_in_packet C = {TableMapEvent, RotateEvent} \<union> ss_allowed_events C"

section \<open>Connecting\<close>

definition send :: "request \<Rightarrow> (stream_reader, unit) act" where
  "send q = modifyA (\<lambda>r. r\<lparr>br_sent := br_sent r @ [q]\<rparr>)"

definition in_quotes :: "string \<Rightarrow> string" where
  "in_quotes s = [CHR 0x27] @ s @ [CHR 0x27]"

definition checksum_enabled :: "server_answers \<Rightarrow> bool" where
  "checksum_enabled a = (case sa_checksum a of None \<Rightarrow> False | Some v \<Rightarrow> v \<noteq> ''NONE'')"

text \<open>The half of the read timeout or the interval asked for, in nanoseconds, at most 4294967 seconds.\<close>

definition heartbeat_period :: "'p stream_settings \<Rightarrow> nat \<Rightarrow> nat" where
  "heartbeat_period C seconds =
    (let net_timeout = (case ss_read_timeout C of None \<Rightarrow> 4294967 | Some t \<Rightarrow> t)
     in min (min (net_timeout * 500000000) (seconds * 1000000000)) (4294967 * 1000000000))"

definition session_statements :: "'p stream_settings \<Rightarrow> bool \<Rightarrow> string list" where
  "session_statements C use_checksum =
    (if use_checksum then [''SET @master_binlog_checksum= @@global.binlog_checksum''] else [])
    @ (case ss_slave_uuid C of
         Some u \<Rightarrow> if u = [] then [] else [''SET @slave_uuid = '' @ in_quotes u @ '', @replica_uuid = '' @ in_quotes u]
       | None \<Rightarrow> [])
    @ (case ss_slave_heartbeat C of
         Some s \<Rightarrow> if s = 0 then [] else [''SET @master_heartbeat_period= '' @ str_nat (heartbeat_period C s)]
       | None \<Rightarrow> [])
    @ [''SET @mariadb_slave_capability=4'']"

definition register_slave :: "'p stream_settings \<Rightarrow> (stream_reader, unit) act" where
  "register_slave C = (case ss_report_slave C of
     None \<Rightarrow> retA ()
   | Some s \<Rightarrow> bindA (liftA (\<lambda>_. report_slave_encoded s (ss_server_id C) 0)) (\<lambda>bs. send (Write bs)))"

definition non_block :: "'p stream_settings \<Rightarrow> nat" where
  "non_block C = (if ss_blocking C then 0 else 1)"

text \<open>The requests: by position, by a set of transactions, and that of MariaDB.\<close>

definition dump_request :: "'p stream_settings \<Rightarrow> string \<Rightarrow> nat \<Rightarrow> byte list res" where
  "dump_request C log_file log_pos =
    bindE (pack_int32 (length log_file + 11)) (\<lambda>len.
    bindE (pack_le 4 (if ss_resume_stream C then log_pos else 4)) (\<lambda>pos.
    bindE (pack_le 4 (ss_server_id C)) (\<lambda>server.
    Inr (len @ [0x12] @ pos @ le_bytes 2 (non_block C) @ server @ encode_text log_file))))"

definition dump_request_gtid :: "'p stream_settings \<Rightarrow> string \<Rightarrow> byte list res" where
  "dump_request_gtid C auto_position =
    bindE (new_gtid_set (GtidText auto_position)) (\<lambda>gtid_set.
    bindE (pack_int32 (2 + 4 + 4 + 4 + 8 + 4 + set_encoded_length gtid_set)) (\<lambda>len.
    bindE (pack_le 4 (ss_server_id C)) (\<lambda>server.
    bindE (pack_le 4 (set_encoded_length gtid_set)) (\<lambda>data_len.
    bindE (set_encoded gtid_set) (\<lambda>data.
    Inr (len @ [0x1E] @ le_bytes 2 (non_block C OR 4) @ server @ le_bytes 4 3 @ [0, 0, 0] @ le_bytes 8 4 @ data_len @ data))))))"

definition set_mariadb_settings :: "'p stream_settings \<Rightarrow> (stream_reader, byte list) act" where
  "set_mariadb_settings C =
    bindA (case ss_auto_position C of
        Some a \<Rightarrow> send (Execute (''SET @slave_connect_state='' @ [CHR 0x22] @ a @ [CHR 0x22]))
      | None \<Rightarrow> retA ()) (\<lambda>_.
    bindA (send (Execute ''SET @slave_gtid_strict_mode=1'')) (\<lambda>_.
    bindA (send (Execute ''SET @slave_gtid_ignore_duplicates=0'')) (\<lambda>_.
    liftA (\<lambda>_. bindE (pack_le 4 (ss_server_id C)) (\<lambda>server.
      Inr (le_bytes 4 14 @ [0x12] @ le_bytes 4 4 @ le_bytes 2 ((if ss_annotate_rows_event C then 2 else 0) OR non_block C)
        @ server @ [0, 0, 0, 0]))))))"

text \<open>Without a file or a position the server is asked for its own.\<close>

definition find_position :: "server_answers \<Rightarrow> (stream_reader, unit) act" where
  "find_position a = (\<lambda>r.
    if br_log_file r = None \<or> br_log_pos r = None then
      bindA (send (Execute ''SHOW MASTER STATUS'')) (\<lambda>_.
      bindA (if sa_knows_master_status a then retA () else send (Execute ''SHOW BINARY LOG STATUS'')) (\<lambda>_.
      case sa_master_status a of
        None \<Rightarrow> raiseA (PyException ''BinLogNotEnabled'')
      | Some (log_file, log_pos) \<Rightarrow> modifyA (\<lambda>r. r\<lparr>br_log_file := Some log_file, br_log_pos := Some log_pos\<rparr>))) r
    else (Inr (), r))"

definition has_auto_position :: "'p stream_settings \<Rightarrow> bool" where
  "has_auto_position C = (case ss_auto_position C of None \<Rightarrow> False | Some a \<Rightarrow> a \<noteq> [])"

definition dump_prelude :: "'p stream_settings \<Rightarrow> server_answers \<Rightarrow> (stream_reader, byte list) act" where
  "dump_prelude C a =
    (if ss_is_mariadb C then set_mariadb_settings C
     else if has_auto_position C then liftA (\<lambda>_. dump_request_gtid C (the (ss_auto_position C)))
     else bindA (find_position a) (\<lambda>_. liftA (\<lambda>r. dump_request C (the (br_log_file r)) (the (br_log_pos r)))))"

definition connect_to_stream :: "'p stream_settings \<Rightarrow> (nat \<Rightarrow> server_answers) \<Rightarrow> (stream_reader, unit) act" where
  "connect_to_stream C server = (\<lambda>r.
    let a = server (br_connections r); use_checksum = checksum_enabled a in
    bindA (modifyA (\<lambda>r. r\<lparr>br_connections := Suc (br_connections r), br_sent := br_sent r @ [Connect]\<rparr>)) (\<lambda>_.
    bindA (if sa_refused a then raiseA OperationalError else retA ()) (\<lambda>_.
    bindA (send (Execute (''SHOW GLOBAL VARIABLES LIKE '' @ in_quotes ''BINLOG_CHECKSUM''))) (\<lambda>_.
    bindA (modifyA (\<lambda>r. r\<lparr>br_use_checksum := use_checksum\<rparr>)) (\<lambda>_.
    bindA (mapA (\<lambda>s. send (Execute s)) (session_statements C use_checksum)) (\<lambda>_.
    bindA (register_slave C) (\<lambda>_.
    bindA (dump_prelude C a) (\<lambda>bs.
    bindA (send (Write bs)) (\<lambda>_. modifyA (\<lambda>r. r\<lparr>br_connected_stream := True\<rparr>))))))))) r)"

definition connect_to_ctl :: "(stream_reader, unit) act" where
  "connect_to_ctl = bindA (send ConnectCtl) (\<lambda>_. modifyA (\<lambda>r. r\<lparr>br_connected_ctl := True\<rparr>))"

definition ensure_connected :: "'p stream_settings \<Rightarrow> (nat \<Rightarrow> server_answers) \<Rightarrow> (stream_reader, unit) act" where
  "ensure_connected C server =
    bindA (\<lambda>r. if br_connected_stream r then (Inr (), r) else connect_to_stream C server r) (\<lambda>_ r.
      if br_connected_ctl r then (Inr (), r) else connect_to_ctl r)"

definition close_stream :: "stream_reader \<Rightarrow> stream_reader" where
  "close_stream r = r\<lparr>br_connected_stream := False, br_sent := br_sent r @ [CloseStream]\<rparr>"

definition close_reader :: "stream_reader \<Rightarrow> stream_reader" where
  "close_reader r =
    (let r = (if br_connected_stream r then close_stream r else r)
     in if br_connected_ctl r then r\<lparr>br_connected_ctl := False, br_sent := br_sent r @ [CloseCtl]\<rparr> else r)"

definition get_dbms :: "string \<Rightarrow> string" where
  "get_dbms server_info = (if contains server_info ''MariaDB'' then ''mariadb'' else ''mysql'')"

section \<open>Receiving events\<close>

text \<open>
  What arrives: an error of \<^verbatim>\<open>pymysql\<close> with its code, the end of the log, a packet that is not an OK
  packet, or a packet.
\<close>

datatype 'p delivery = Lost nat | EndOfLog | NotOk | Packet 'p

definition EXPECTED_ERROR_CODES :: "nat list" where
  "EXPECTED_ERROR_CODES = [2013, 2006]"

text \<open>The position behind an event; the first rotation of a file has no timestamp and keeps the table map.\<close>

definition note_position :: "'p wrapper \<Rightarrow> binlog_event option \<Rightarrow> stream_reader \<Rightarrow> stream_reader res" where
  "note_position w ev r =
    (if pw_event_type w = ROTATE_EVENT then
       (case ev of
          Some (BodyEvent _ (RotateBody position next_binlog)) \<Rightarrow>
            Inr (r\<lparr>br_log_pos := Some position, br_log_file := Some next_binlog,
              br_table_map := (if pw_timestamp w \<noteq> 0 then [] else br_table_map r)\<rparr>)
        | _ \<Rightarrow> Inl AttributeError)
     else if pw_log_pos w \<noteq> 0 then Inr (r\<lparr>br_log_pos := Some (pw_log_pos w)\<rparr>)
     else Inr r)"

definition has_end :: "'p stream_settings \<Rightarrow> nat option" where
  "has_end C = (case ss_end_log_pos C of Some 0 \<Rightarrow> None | e \<Rightarrow> e)"

definition note_end :: "'p stream_settings \<Rightarrow> stream_reader \<Rightarrow> stream_reader res" where
  "note_end C r =
    (case has_end C of
       None \<Rightarrow> Inr r
     | Some end_log_pos \<Rightarrow> (case br_log_pos r of
         None \<Rightarrow> Inl TypeError
       | Some pos \<Rightarrow> Inr (if end_log_pos \<le> pos then r\<lparr>br_past_end_log_pos := True\<rparr> else r)))"

definition too_early :: "'p stream_settings \<Rightarrow> 'p wrapper \<Rightarrow> bool" where
  "too_early C w = (case ss_skip_to_timestamp C of None \<Rightarrow> False | Some t \<Rightarrow> t \<noteq> 0 \<and> pw_timestamp w < t)"

definition note_table :: "'p wrapper \<Rightarrow> binlog_event option \<Rightarrow> stream_reader \<Rightarrow> stream_reader" where
  "note_table w ev r =
    (case ev of
       Some (TableOf t) \<Rightarrow> if pw_event_type w = TABLE_MAP_EVENT
                        then r\<lparr>br_table_map := AList.update (te_table_id t) (te_table_obj t) (br_table_map r)\<rparr> else r
     | _ \<Rightarrow> r)"

definition note_version :: "binlog_event \<Rightarrow> stream_reader \<Rightarrow> stream_reader" where
  "note_version ev r =
    (case ev of BodyEvent _ (FormatDescriptionBody fd) \<Rightarrow> r\<lparr>br_mysql_version := fd_mysql_version fd\<rparr> | _ \<Rightarrow> r)"

text \<open>The loop of \<^verbatim>\<open>fetchone\<close> behind the packet. \<^const>\<open>None\<close>: it goes on.\<close>

definition handle_packet :: "'p stream_settings \<Rightarrow> 'p \<Rightarrow> (stream_reader, ('p wrapper \<times> binlog_event) option) act" where
  "handle_packet C p = (\<lambda>r.
    case wrap_packet (ss_rounds C) (ss_lib C) (ss_packets C)
        ((ss_event_settings C)\<lparr>es_optional_meta_data := False, es_dbms := get_dbms (ss_server_info C)\<rparr>)
        (br_mysql_version r) (br_use_checksum r) (allowed_events_in_packet C) p (br_table_map r) of
      (Inl e, tm) \<Rightarrow> (Inl e, r\<lparr>br_table_map := tm\<rparr>)
    | (Inr (w, ev), tm) \<Rightarrow>
        (case note_position w ev (r\<lparr>br_table_map := tm\<rparr>) of
           Inl e \<Rightarrow> (Inl e, r\<lparr>br_table_map := tm\<rparr>)
         | Inr r1 \<Rightarrow> (case note_end C r1 of
             Inl e \<Rightarrow> (Inl e, r1)
           | Inr r2 \<Rightarrow>
               if too_early C w then (Inr None, r2)
               else (let r3 = note_table w ev r2 in
                 case ev of
                   None \<Rightarrow> (Inr None, r3)
                 | Some e \<Rightarrow>
                     if class_of e \<notin> ss_allowed_events C then (Inr None, r3)
                     else (Inr (Some (w, e)),
                       if pw_event_type w = FORMAT_DESCRIPTION_EVENT then note_version e r3 else r3)))))"

text \<open>
  \<^verbatim>\<open>fetchone\<close> with the deliveries that are still to come; the outcome \<^const>\<open>None\<close> is a call that waits, an
  event of \<^const>\<open>None\<close> the end of the stream.
\<close>

fun fetchone ::
    "'p stream_settings \<Rightarrow> (nat \<Rightarrow> server_answers) \<Rightarrow> 'p delivery list \<Rightarrow> stream_reader
      \<Rightarrow> ('p wrapper \<times> binlog_event) option res option \<times> 'p delivery list \<times> stream_reader" where
  "fetchone C server ds r =
    (if has_end C \<noteq> None \<and> br_past_end_log_pos r then (Some (Inr None), ds, r)
     else case ensure_connected C server r of
       (Inl e, r1) \<Rightarrow> (Some (Inl e), ds, r1)
     | (Inr _, r1) \<Rightarrow> (case ds of
         [] \<Rightarrow> (None, [], r1)
       | Lost c # ds' \<Rightarrow>
           if c \<in> set EXPECTED_ERROR_CODES then fetchone C server ds' (close_stream r1)
           else (Some (Inl OperationalError), ds', r1)
       | EndOfLog # ds' \<Rightarrow> (Some (Inr None), ds', close_reader r1)
       | NotOk # ds' \<Rightarrow> fetchone C server ds' r1
       | Packet p # ds' \<Rightarrow> (case handle_packet C p r1 of
           (Inl e, r2) \<Rightarrow> (Some (Inl e), ds', r2)
         | (Inr None, r2) \<Rightarrow> fetchone C server ds' r2
         | (Inr (Some ev), r2) \<Rightarrow> (Some (Inr (Some ev)), ds', r2))))"

declare fetchone.simps [simp del]

end
