(* ===== verification/StreamRecovery.thy ===== *)
theory StreamRecovery
  imports BinlogStream
begin

text \<open>
  Lost connections. A server that answers a request for a position with the events behind it, after the
  artificial rotation and format description it sends first, and whose connections break at any time,
  gives the reader the same events as one connection that never breaks.
\<close>

section \<open>Reading on\<close>

lemma fetchone_shorter:
  "fetchone C server ds r = (Some (Inr (Some ev)), ds', r') \<Longrightarrow> length ds' < length ds"
proof (induction C server ds r rule: fetchone.induct)
  case (1 C server ds r)
  show ?case
    using "1.prems" "1.IH" by (subst (asm) fetchone.simps)
      (fastforce split: if_splits prod.splits sum.splits list.splits delivery.splits option.splits)
qed

text \<open>\<^verbatim>\<open>for event in reader\<close>: the events, and \<^const>\<open>None\<close> if the reader waits.\<close>

function fetch_all ::
    "'p stream_settings \<Rightarrow> (nat \<Rightarrow> server_answers) \<Rightarrow> 'p delivery list \<Rightarrow> stream_reader
      \<Rightarrow> ('p wrapper \<times> binlog_event) list \<times> unit res option \<times> stream_reader" where
  "fetch_all C server ds r =
    (case fetchone C server ds r of
       (None, _, r') \<Rightarrow> ([], None, r')
     | (Some (Inl e), _, r') \<Rightarrow> ([], Some (Inl e), r')
     | (Some (Inr None), _, r') \<Rightarrow> ([], Some (Inr ()), r')
     | (Some (Inr (Some ev)), ds', r') \<Rightarrow>
         (case fetch_all C server ds' r' of (evs, out, r'') \<Rightarrow> (ev # evs, out, r'')))"
  by pat_completeness auto
termination by (relation "measure (\<lambda>(C, server, ds, r). length ds)") (auto dest: sym [THEN fetchone_shorter])

declare fetch_all.simps [simp del]

text \<open>Packets one after another, without a connection.\<close>

fun handle_all :: "'p stream_settings \<Rightarrow> 'p list \<Rightarrow> (stream_reader, ('p wrapper \<times> binlog_event) list) act" where
  "handle_all C [] = retA []"
| "handle_all C (p # ps) = bindA (handle_packet C p) (\<lambda>e. bindA (handle_all C ps) (\<lambda>es.
    retA ((case e of None \<Rightarrow> [] | Some x \<Rightarrow> [x]) @ es)))"

definition ready :: "stream_reader \<Rightarrow> bool" where
  "ready r \<longleftrightarrow> br_connected_stream r \<and> br_connected_ctl r"

lemma connect_ready: "ready r \<Longrightarrow> ensure_connected C server r = (Inr (), r)"
  by (simp add: ready_def ensure_connected_def bindA_def)

text \<open>The reader apart from its connections.\<close>

definition core :: "stream_reader \<Rightarrow> stream_reader" where
  "core r = r\<lparr>br_connected_stream := True, br_connected_ctl := True, br_connections := 0, br_sent := []\<rparr>"

lemma core_fields [simp]:
  "br_log_file (core r) = br_log_file r" "br_log_pos (core r) = br_log_pos r" "br_use_checksum (core r) = br_use_checksum r"
  by (simp_all add: core_def)

definition at_core :: "stream_reader \<Rightarrow> stream_reader \<Rightarrow> stream_reader" where
  "at_core r c = c\<lparr>br_connected_stream := br_connected_stream r, br_connected_ctl := br_connected_ctl r,
     br_connections := br_connections r, br_sent := br_sent r\<rparr>"

lemma at_core_core: "at_core r (core r) = r"
  by (simp add: at_core_def core_def)

lemma core_at_core: "core (at_core r c) = core c"
  by (simp add: at_core_def core_def)

lemma note_position_at_core: "note_position w ev (at_core r c) = (case note_position w ev c of Inl e \<Rightarrow> Inl e | Inr c \<Rightarrow> Inr (at_core r c))"
  by (auto simp: note_position_def at_core_def split: option.split binlog_event.split event_body.split)

lemma note_end_at_core: "note_end C (at_core r c) = (case note_end C c of Inl e \<Rightarrow> Inl e | Inr c \<Rightarrow> Inr (at_core r c))"
  by (auto simp: note_end_def at_core_def split: option.split)

lemma note_table_at_core: "note_table w ev (at_core r c) = at_core r (note_table w ev c)"
  by (auto simp: note_table_def at_core_def split: option.split binlog_event.split)

lemma note_version_at_core: "note_version ev (at_core r c) = at_core r (note_version ev c)"
  by (auto simp: note_version_def at_core_def split: event_body.split binlog_event.split)

lemma at_core_fields:
  "br_mysql_version (at_core r c) = br_mysql_version c" "br_use_checksum (at_core r c) = br_use_checksum c"
  "br_table_map (at_core r c) = br_table_map c" "(at_core r c)\<lparr>br_table_map := tm\<rparr> = at_core r (c\<lparr>br_table_map := tm\<rparr>)"
  "br_log_file (at_core r c) = br_log_file c" "br_log_pos (at_core r c) = br_log_pos c"
  by (simp_all add: at_core_def)

lemma handle_packet_at_core:
  "handle_packet C p (at_core r c) = (case handle_packet C p c of (x, c') \<Rightarrow> (x, at_core r c'))"
  unfolding handle_packet_def at_core_fields
  by (auto simp: note_position_at_core note_end_at_core note_table_at_core note_version_at_core Let_def
      split: prod.split sum.split option.split)

lemma handle_all_at_core:
  "handle_all C ps (at_core r c) = (case handle_all C ps c of (x, c') \<Rightarrow> (x, at_core r c'))"
proof (induction ps arbitrary: c)
  case (Cons p ps)
  then show ?case by (auto simp: bindA_def retA_def handle_packet_at_core split: prod.splits sum.splits)
qed (simp add: retA_def)

lemma ready_at_core: "ready (at_core r c) = ready r"
  by (simp add: ready_def at_core_def)

lemma fetch_all_packet:
  assumes "ready r" "has_end C = None" "handle_packet C p r = (Inr e, r')"
  shows "fetch_all C server (Packet p # ds) r =
    (case e of None \<Rightarrow> fetch_all C server ds r'
       | Some x \<Rightarrow> (case fetch_all C server ds r' of (evs, out, r'') \<Rightarrow> (x # evs, out, r'')))"
proof -
  have "fetchone C server (Packet p # ds) r =
      (case e of None \<Rightarrow> fetchone C server ds r' | Some x \<Rightarrow> (Some (Inr (Some x)), ds, r'))"
    using assms by (subst fetchone.simps) (simp add: connect_ready split: option.split)
  then show ?thesis
    by (cases e) (simp_all add: fetch_all.simps [of C server "Packet p # ds"] fetch_all.simps [of C server ds r'])
qed

lemma handle_packet_ready: "ready r \<Longrightarrow> ready (snd (handle_packet C p r))"
  using handle_packet_at_core [of C p r "core r"] by (simp add: at_core_core ready_at_core split: prod.splits)

lemma fetch_all_packets:
  "ready r \<Longrightarrow> has_end C = None \<Longrightarrow> handle_all C ps r = (Inr es, r') \<Longrightarrow>
    fetch_all C server (map Packet ps @ ds) r = (case fetch_all C server ds r' of (evs, out, r'') \<Rightarrow> (es @ evs, out, r''))"
proof (induction ps arbitrary: r es)
  case (Cons p ps)
  obtain e r1 es1 where s: "handle_packet C p r = (Inr e, r1)" "handle_all C ps r1 = (Inr es1, r')"
    "es = (case e of None \<Rightarrow> [] | Some x \<Rightarrow> [x]) @ es1"
    using Cons.prems(3) by (auto simp: bindA_Inr_iff retA_def)
  have "ready r1" using handle_packet_ready [OF Cons.prems(1), of C p] s(1) by simp
  from Cons.IH [OF this Cons.prems(2) s(2)] show ?case
    by (simp add: fetch_all_packet [OF Cons.prems(1,2) s(1)] s(3) split: option.split prod.split)
qed (simp add: retA_def)

section \<open>Connecting again\<close>

text \<open>The last command written to the server; statements are sent by other means.\<close>

fun written :: "request \<Rightarrow> byte list list" where
  "written (Write bs) = [bs]"
| "written _ = []"

definition last_request :: "stream_reader \<Rightarrow> byte list" where
  "last_request r = last (concat (map written (br_sent r)))"

text \<open>A reader of MySQL by position, without an end, whose report fits its format.\<close>

definition by_position :: "'p stream_settings \<Rightarrow> bool" where
  "by_position C \<longleftrightarrow> \<not> ss_is_mariadb C \<and> \<not> has_auto_position C \<and> ss_resume_stream C \<and> has_end C = None
     \<and> (case ss_report_slave C of None \<Rightarrow> True | Some s \<Rightarrow> \<not> isl (report_slave_encoded s (ss_server_id C) 0))"

lemma mapA_send: "mapA (\<lambda>s. send (Execute s)) ss r = (Inr (), r\<lparr>br_sent := br_sent r @ map Execute ss\<rparr>)"
  by (induction ss arbitrary: r) (simp_all add: send_def act_defs)

lemma register_slave_ok:
  assumes "by_position C"
  shows "\<exists>qs. register_slave C r = (Inr (), r\<lparr>br_sent := br_sent r @ qs\<rparr>)"
proof (cases "ss_report_slave C")
  case None
  then show ?thesis by (intro exI [of _ "[]"]) (simp add: register_slave_def retA_def)
next
  case (Some s)
  then obtain bs where "report_slave_encoded s (ss_server_id C) 0 = Inr bs"
    using assms by (cases "report_slave_encoded s (ss_server_id C) 0") (auto simp: by_position_def)
  then show ?thesis using Some
    by (intro exI [of _ "[Write bs]"]) (simp add: register_slave_def send_def act_defs)
qed

lemma connect_by_position:
  assumes C: "by_position C" "\<not> sa_refused (server (br_connections r))" and r: "\<not> br_connected_stream r"
    and pos: "br_log_file r = Some f" "br_log_pos r = Some q" "dump_request C f q = Inr bs"
  shows "\<exists>r'. ensure_connected C server r = (Inr (), r') \<and> ready r' \<and> last_request r' = bs
    \<and> core r' = (core r)\<lparr>br_use_checksum := checksum_enabled (server (br_connections r))\<rparr>"
proof -
  let ?use = "checksum_enabled (server (br_connections r))"
  let ?r1 = "r\<lparr>br_connections := Suc (br_connections r), br_use_checksum := ?use, br_sent := br_sent r @ [Connect,
      Execute (''SHOW GLOBAL VARIABLES LIKE '' @ in_quotes ''BINLOG_CHECKSUM'')] @ map Execute (session_statements C ?use)\<rparr>"
  obtain qs where reg: "register_slave C ?r1 = (Inr (), ?r1\<lparr>br_sent := br_sent ?r1 @ qs\<rparr>)"
    using register_slave_ok [OF C(1), of ?r1] by blast
  have pre: "dump_prelude C a s = (Inr bs, s)" if "br_log_file s = Some f" "br_log_pos s = Some q" for a s
    using C(1) that pos(3) by (simp add: dump_prelude_def by_position_def find_position_def bindA_def liftA_def)
  let ?r2 = "?r1\<lparr>br_sent := br_sent ?r1 @ qs @ [Write bs], br_connected_stream := True\<rparr>"
  have con: "connect_to_stream C server r = (Inr (), ?r2)"
    using C(2) pos reg pre
    by (simp add: connect_to_stream_def Let_def bindA_def modifyA_def retA_def send_def [of Connect] mapA_send)
      (simp add: send_def modifyA_def)
  show ?thesis
  proof (cases "br_connected_ctl r")
    case True
    then have "ensure_connected C server r = (Inr (), ?r2)" using con r by (simp add: ensure_connected_def bindA_def)
    then show ?thesis using True by (simp add: ready_def core_def last_request_def)
  next
    case False
    then have "ensure_connected C server r = (Inr (), ?r2\<lparr>br_connected_ctl := True, br_sent := br_sent ?r2 @ [ConnectCtl]\<rparr>)"
      using con r by (simp add: ensure_connected_def bindA_def connect_to_ctl_def send_def modifyA_def)
    then show ?thesis by (simp add: ready_def core_def last_request_def)
  qed
qed

section \<open>Artificial events\<close>

text \<open>
  Behind a request the server sends a rotation to the position asked for, without a timestamp, and
  the format description, without a position.
\<close>

definition artificial :: "'p stream_settings \<Rightarrow> bool \<Rightarrow> string \<Rightarrow> nat \<Rightarrow> 'p \<Rightarrow> bool" where
  "artificial C use_checksum f q p = (case new_wrapper (ss_packets C) p of
     Inl _ \<Rightarrow> False
   | Inr w \<Rightarrow>
       if pw_event_type w = ROTATE_EVENT
       then pw_timestamp w = 0 \<and> fst (new_rotate_event (ss_lib C) (ss_packets C) (fst (event_size_without_header use_checksum False w)) w)
              = Inr (RotateBody q f)
       else pw_event_type w = FORMAT_DESCRIPTION_EVENT \<and> pw_log_pos w = 0)"

text \<open>The reader passes on neither of them and does not check checksums.\<close>

definition unwanted :: "'p stream_settings \<Rightarrow> bool" where
  "unwanted C \<longleftrightarrow> RotateEvent \<notin> ss_allowed_events C \<and> FormatDescriptionEvent \<notin> ss_allowed_events C
     \<and> \<not> es_verify_checksum (ss_event_settings C)"

definition header :: "'p wrapper \<Rightarrow> nat \<times> nat \<times> nat" where
  "header w = (pw_timestamp w, pw_event_type w, pw_log_pos w)"

lemma header_bind:
  assumes "\<And>w. header (snd (m w)) = header w" "\<And>x w. header (snd (f x w)) = header w"
  shows "header (snd (bindA m f w)) = header w"
  using assms(1) [of w] assms(2) by (auto simp: bindA_def split: prod.split sum.split) 

lemma header_packet: "header (snd (on_packet m w)) = header w"
  by (simp add: on_packet_def header_def split: prod.split)

lemma header_pure: "header (snd (pureA r w)) = header w" "header (snd (retA x w)) = header w"
  by (simp_all add: pureA_def liftA_def retA_def)

lemma header_on_packet_bind: "header (snd (bindA (on_packet m) (\<lambda>bs. retA (g bs)) v)) = header v"
  by (rule header_bind) (simp_all add: header_packet header_pure)

lemma header_fields: "header (w\<lparr>pw_read_bytes := i\<rparr>) = header w" "header (w\<lparr>pw_buffer := b\<rparr>) = header w"
  by (simp_all add: header_def)

lemma header_read: "header (snd (packet_read P n w)) = header w"
  by (simp add: packet_read_def Let_def header_packet header_fields header_on_packet_bind)

lemma header_rotate: "header (snd (new_rotate_event L P n w)) = header w"
  unfolding new_rotate_event_def read_uint64_def read_text_def
  by (intro header_bind header_read header_pure)

lemma artificial_invisible:
  assumes C: "unwanted C" "has_end C = None" and p: "artificial C (br_use_checksum r) f q p"
    and r: "br_log_file r = Some f" "br_log_pos r = Some q"
  shows "handle_packet C p r = (Inr None, r)"
proof -
  let ?es = "(ss_event_settings C)\<lparr>es_optional_meta_data := False, es_dbms := get_dbms (ss_server_info C)\<rparr>"
  obtain w where w: "new_wrapper (ss_packets C) p = Inr w"
    using p by (auto simp: artificial_def split: sum.splits)
  define sz where "sz = fst (event_size_without_header (br_use_checksum r) False w)"
  have sz: "event_size_without_header (br_use_checksum r) False w = (sz, False)"
    by (simp add: sz_def event_size_without_header_def)
  have vc: "\<not> es_verify_checksum (ss_event_settings C)" using C(1) by (simp add: unwanted_def)
  show ?thesis
  proof (cases "pw_event_type w = ROTATE_EVENT")
    case True
    then have rot: "pw_timestamp w = 0" "fst (new_rotate_event (ss_lib C) (ss_packets C) sz w) = Inr (RotateBody q f)"
      using p w sz by (simp_all add: artificial_def)
    then obtain w' where w': "new_rotate_event (ss_lib C) (ss_packets C) sz w = (Inr (RotateBody q f), w')"
      by (metis prod.collapse)
    have h: "pw_timestamp w' = 0" "pw_event_type w' = ROTATE_EVENT"
      using header_rotate [of "ss_lib C" "ss_packets C" sz w] w' rot(1) True by (simp_all add: header_def)
    have cls: "event_class_of ROTATE_EVENT = RotateEvent" by (simp add: event_class_of_def event_map_def)
    have "wrap_packet (ss_rounds C) (ss_lib C) (ss_packets C) ?es (br_mysql_version r) (br_use_checksum r)
        (allowed_events_in_packet C) p (br_table_map r) = (Inr (w', Some (BodyEvent RotateEvent (RotateBody q f))), br_table_map r)"
      using sz vc w' True cls by (simp add: wrap_packet_def w new_body_event body_class_def body_event_def allowed_events_in_packet_def)
    moreover have "r\<lparr>br_log_pos := Some q, br_log_file := Some f\<rparr> = r" using r by simp
    ultimately show ?thesis using h C r
      by (simp add: handle_packet_def note_position_def note_end_def note_table_def unwanted_def Let_def)
  next
    case False
    then have fde: "pw_event_type w = FORMAT_DESCRIPTION_EVENT" "pw_log_pos w = 0"
      using p w by (simp_all add: artificial_def)
    have cls: "event_class_of FORMAT_DESCRIPTION_EVENT = FormatDescriptionEvent" by (simp add: event_class_of_def event_map_def)
    have "wrap_packet (ss_rounds C) (ss_lib C) (ss_packets C) ?es (br_mysql_version r) (br_use_checksum r)
        (allowed_events_in_packet C) p (br_table_map r) = (Inr (w, None), br_table_map r)"
      using sz vc fde cls C(1) by (simp add: wrap_packet_def w allowed_events_in_packet_def unwanted_def)
    then show ?thesis using fde C
      by (simp add: handle_packet_def note_position_def note_end_def note_table_def Let_def)
  qed
qed

lemma artificial_all:
  assumes "unwanted C" "has_end C = None" "br_log_file r = Some f" "br_log_pos r = Some q"
  shows "list_all (artificial C (br_use_checksum r) f q) ps \<Longrightarrow> handle_all C ps r = (Inr [], r)"
  by (induction ps) (simp_all add: bindA_def retA_def artificial_invisible [OF assms(1,2) _ assms(3,4)])

section \<open>The server's log\<close>

text \<open>
  Asked for the position of the reader, the server sends at most two artificial events and then the
  packets \<open>ps\<close>; and so on behind each of them. This is what the positions in the headers promise.
\<close>

definition continues :: "'p stream_settings \<Rightarrow> (byte list \<Rightarrow> 'p list) \<Rightarrow> 'p list \<Rightarrow> stream_reader \<Rightarrow> bool" where
  "continues C srv ps r =
    (case (br_log_file r, br_log_pos r) of
       (Some f, Some q) \<Rightarrow> (case dump_request C f q of
          Inl _ \<Rightarrow> False
        | Inr bs \<Rightarrow>
            let got = srv bs; heads = length got - length ps in
            heads \<le> 2 \<and> drop heads got = ps \<and> list_all (artificial C (br_use_checksum r) f q) (take heads got))
     | _ \<Rightarrow> False)"

fun serves :: "'p stream_settings \<Rightarrow> (byte list \<Rightarrow> 'p list) \<Rightarrow> 'p list \<Rightarrow> stream_reader \<Rightarrow> bool" where
  "serves C srv [] r = continues C srv [] r"
| "serves C srv (p # ps) r = (continues C srv (p # ps) r \<and>
    (case handle_packet C p r of (Inl _, _) \<Rightarrow> False | (Inr _, r') \<Rightarrow> serves C srv ps r'))"

text \<open>
  Connections that break: each is a number of packets that still arrive, and the error code behind
  them. What is sent depends on the request the reader has written last.
\<close>

fun sessions ::
    "'p stream_settings \<Rightarrow> (nat \<Rightarrow> server_answers) \<Rightarrow> (byte list \<Rightarrow> 'p list) \<Rightarrow> (nat \<times> nat) list \<Rightarrow> stream_reader
      \<Rightarrow> ('p wrapper \<times> binlog_event) list \<times> unit res option \<times> stream_reader" where
  "sessions C server srv [] r = ([], None, r)"
| "sessions C server srv ((n, c) # breaks) r =
    (case fetch_all C server (map Packet (take n (srv (last_request r))) @ [Lost c]) r of
       (evs, None, r') \<Rightarrow> (case sessions C server srv breaks r' of (evs', out, r'') \<Rightarrow> (evs @ evs', out, r''))
     | x \<Rightarrow> x)"

definition interrupted ::
    "'p stream_settings \<Rightarrow> (nat \<Rightarrow> server_answers) \<Rightarrow> (byte list \<Rightarrow> 'p list) \<Rightarrow> (nat \<times> nat) list \<Rightarrow> stream_reader
      \<Rightarrow> ('p wrapper \<times> binlog_event) list \<times> unit res option \<times> stream_reader" where
  "interrupted C server srv breaks r =
    (case fetch_all C server [] r of
       (evs, None, r') \<Rightarrow> (case sessions C server srv breaks r' of (evs', out, r'') \<Rightarrow> (evs @ evs', out, r''))
     | x \<Rightarrow> x)"

lemma serves_continues: "serves C srv ps r \<Longrightarrow> continues C srv ps r"
  by (cases ps) simp_all

lemma serves_take:
  "serves C srv ps r \<Longrightarrow> \<exists>es r'. handle_all C (take j ps) r = (Inr es, r') \<and> serves C srv (drop j ps) r'"
proof (induction ps arbitrary: j r)
  case (Cons p ps)
  show ?case
  proof (cases j)
    case (Suc i)
    obtain e r1 where s: "handle_packet C p r = (Inr e, r1)" "serves C srv ps r1"
      using Cons.prems by (auto split: prod.splits sum.splits)
    from Cons.IH [OF s(2), of i] obtain es r' where
      "handle_all C (take i ps) r1 = (Inr es, r')" "serves C srv (drop i ps) r'" by blast
    then show ?thesis using Suc s(1) by (simp add: bindA_def retA_def)
  qed (use Cons.prems in \<open>simp add: retA_def\<close>)
qed (simp add: retA_def)

lemma handle_all_append:
  "handle_all C ps r = (Inr es, r1) \<Longrightarrow> handle_all C qs r1 = (Inr es', r2) \<Longrightarrow> handle_all C (ps @ qs) r = (Inr (es @ es'), r2)"
  by (induction ps arbitrary: r es) (fastforce simp: bindA_Inr_iff retA_def)+

section \<open>One broken connection\<close>

lemma fetch_all_connect:
  assumes "has_end C = None" "ensure_connected C server r = (Inr (), r')"
  shows "fetch_all C server [] r = ([], None, r')"
  using assms by (simp add: fetch_all.simps [of C server "[]"] fetchone.simps [of C server "[]"])

lemma fetch_all_lost:
  assumes "has_end C = None" "ready r" "c \<in> set EXPECTED_ERROR_CODES" "ensure_connected C server (close_stream r) = (Inr (), r')"
  shows "fetch_all C server [Lost c] r = ([], None, r')"
proof -
  have "fetchone C server [Lost c] r = fetchone C server [] (close_stream r)"
    using assms by (subst fetchone.simps) (simp add: connect_ready)
  then show ?thesis using assms(1,4)
    by (simp add: fetch_all.simps [of C server "[Lost c]"] fetchone.simps [of C server "[]"])
qed

lemma note_checksum:
  "note_position w ev r = Inr r' \<Longrightarrow> br_use_checksum r' = br_use_checksum r"
  "note_end C r = Inr r' \<Longrightarrow> br_use_checksum r' = br_use_checksum r"
  "br_use_checksum (note_table w ev r) = br_use_checksum r"
  "br_use_checksum (note_version e r) = br_use_checksum r"
  by (auto simp: note_position_def note_end_def note_table_def note_version_def
      split: if_splits option.splits binlog_event.splits event_body.splits)

lemma handle_packet_checksum: "handle_packet C p r = (x, r') \<Longrightarrow> br_use_checksum r' = br_use_checksum r"
  by (auto simp: handle_packet_def Let_def note_checksum dest!: note_checksum(1,2)
      split: prod.splits sum.splits option.splits if_splits)

lemma handle_all_checksum: "handle_all C ps r = (x, r') \<Longrightarrow> br_use_checksum r' = br_use_checksum r"
proof (induction ps arbitrary: r x)
  case (Cons p ps)
  then show ?case using handle_packet_checksum [of C p r]
    by (auto simp: bindA_def retA_def split: prod.splits sum.splits)
qed (simp add: retA_def)

lemma at_core_at_core: "core r' = core c \<Longrightarrow> r' = at_core r' c"
  by (cases r'; cases c) (simp add: at_core_def core_def)

lemma continuesE:
  assumes "continues C srv ps r"
  obtains f q bs heads where "br_log_file r = Some f" "br_log_pos r = Some q" "dump_request C f q = Inr bs"
    "srv bs = heads @ ps" "length heads \<le> 2" "list_all (artificial C (br_use_checksum r) f q) heads"
proof -
  obtain f q bs where p: "br_log_file r = Some f" "br_log_pos r = Some q" "dump_request C f q = Inr bs"
    using assms by (auto simp: continues_def split: option.splits sum.splits)
  let ?h = "length (srv bs) - length ps"
  have h: "?h \<le> 2" "drop ?h (srv bs) = ps" "list_all (artificial C (br_use_checksum r) f q) (take ?h (srv bs))"
    using assms p by (simp_all add: continues_def Let_def)
  have "srv bs = take ?h (srv bs) @ ps" using h(2) by (metis append_take_drop_id)
  then show ?thesis using that [OF p, of "take ?h (srv bs)"] h(1,3) by simp
qed

lemma close_stream_simps:
  "core (close_stream r) = core r" "\<not> br_connected_stream (close_stream r)"
  "br_log_file (close_stream r) = br_log_file r" "br_log_pos (close_stream r) = br_log_pos r"
  by (simp_all add: close_stream_def core_def)

lemma by_position_no_end: "by_position C \<Longrightarrow> has_end C = None"
  by (simp add: by_position_def)

text \<open>The reader connects where its reference copy \<open>c\<close> is.\<close>

lemma connect_at:
  assumes C: "by_position C" and server: "\<forall>n. \<not> sa_refused (server n) \<and> checksum_enabled (server n) = use"
    and r: "\<not> br_connected_stream r" "(core r)\<lparr>br_use_checksum := use\<rparr> = core c" "continues C srv ps c"
  shows "\<exists>r'. ensure_connected C server r = (Inr (), r') \<and> ready r' \<and> r' = at_core r' c
    \<and> dump_request C (the (br_log_file c)) (the (br_log_pos c)) = Inr (last_request r')"
proof -
  obtain f q bs where p: "br_log_file c = Some f" "br_log_pos c = Some q" "dump_request C f q = Inr bs"
    using r(3) by (rule continuesE)
  have "br_log_file ((core r)\<lparr>br_use_checksum := use\<rparr>) = br_log_file (core c)"
    "br_log_pos ((core r)\<lparr>br_use_checksum := use\<rparr>) = br_log_pos (core c)" by (simp_all only: r(2))
  then have e: "br_log_file r = br_log_file c" "br_log_pos r = br_log_pos c" by simp_all
  obtain r' where r': "ensure_connected C server r = (Inr (), r')" "ready r'" "last_request r' = bs"
    "core r' = (core r)\<lparr>br_use_checksum := checksum_enabled (server (br_connections r))\<rparr>"
    using connect_by_position [OF C _ r(1) e(1) [unfolded p(1)] e(2) [unfolded p(2)] p(3)] server by blast
  have "core r' = core c" using r'(4) server r(2) by simp
  then show ?thesis using r'(1-3) p at_core_at_core by auto
qed

section \<open>Any number of broken connections\<close>

lemma sessions_uninterrupted:
  assumes C: "by_position C" "unwanted C"
    and server: "\<forall>n. \<not> sa_refused (server n) \<and> checksum_enabled (server n) = use"
  shows "\<lbrakk>serves C srv log c; r = at_core r c; ready r; br_use_checksum c = use;
      dump_request C (the (br_log_file c)) (the (br_log_pos c)) = Inr (last_request r);
      list_all (\<lambda>b. snd b \<in> set EXPECTED_ERROR_CODES) breaks\<rbrakk> \<Longrightarrow>
    \<exists>k es c' r'. k \<le> length log \<and> handle_all C (take k log) c = (Inr es, c')
      \<and> sessions C server srv breaks r = (es, None, r') \<and> r' = at_core r' c'
      \<and> (list_ex (\<lambda>b. length log + 2 \<le> fst b) breaks \<longrightarrow> k = length log)"
proof (induction breaks arbitrary: log c r)
  case Nil
  then show ?case by (intro exI [of _ 0] exI [of _ "[]"] exI [of _ c] exI [of _ r]) (simp add: retA_def)
next
  case (Cons b breaks)
  note ends = by_position_no_end [OF C(1)]
  obtain n e where b: "b = (n, e)" by fastforce
  obtain f q bs heads where h: "br_log_file c = Some f" "br_log_pos c = Some q" "dump_request C f q = Inr bs"
    "srv bs = heads @ log" "length heads \<le> 2" "list_all (artificial C (br_use_checksum c) f q) heads"
    using continuesE [OF serves_continues [OF Cons.prems(1)]] by blast
  have srv: "srv (last_request r) = heads @ log" using Cons.prems(5) h by simp
  define j where "j = n - length heads"
  have "list_all (artificial C (br_use_checksum c) f q) (take n heads)"
    using h(6) by (auto simp: list_all_iff dest: in_set_takeD)
  then have heads: "handle_all C (take n heads) c = (Inr [], c)"
    by (rule artificial_all [OF C(2) ends h(1,2)])
  obtain es1 c1 where c1: "handle_all C (take j log) c = (Inr es1, c1)" "serves C srv (drop j log) c1"
    using serves_take [OF Cons.prems(1)] by blast
  have "handle_all C (take n (heads @ log)) c = (Inr es1, c1)"
    using handle_all_append [OF heads c1(1)] by (simp add: j_def)
  then have run: "handle_all C (take n (heads @ log)) r = (Inr es1, at_core r c1)"
    using handle_all_at_core [of C "take n (heads @ log)" r c] Cons.prems(2) by simp
  have use: "br_use_checksum c1 = use" using handle_all_checksum [OF c1(1)] Cons.prems(4) by simp
  have c1core: "(core (close_stream (at_core r c1)))\<lparr>br_use_checksum := use\<rparr> = core c1"
    using use by (simp add: close_stream_simps core_at_core)
  have rdy: "ready (at_core r c1)" using Cons.prems(3) by (simp add: ready_at_core)
  obtain r2 where r2: "ensure_connected C server (close_stream (at_core r c1)) = (Inr (), r2)" "ready r2" "r2 = at_core r2 c1"
    "dump_request C (the (br_log_file c1)) (the (br_log_pos c1)) = Inr (last_request r2)"
    using connect_at [OF C(1) server close_stream_simps(2) c1core serves_continues [OF c1(2)]] by blast
  have lost: "fetch_all C server [Lost e] (at_core r c1) = ([], None, r2)"
    using fetch_all_lost [OF ends rdy _ r2(1)] Cons.prems(6) b by simp
  have step: "fetch_all C server (map Packet (take n (srv (last_request r))) @ [Lost e]) r = (es1, None, r2)"
    unfolding srv using fetch_all_packets [OF Cons.prems(3) ends run, of server "[Lost e]"] lost by simp
  obtain k es2 c2 r3 where IH: "k \<le> length (drop j log)" "handle_all C (take k (drop j log)) c1 = (Inr es2, c2)"
    "sessions C server srv breaks r2 = (es2, None, r3)" "r3 = at_core r3 c2"
    "list_ex (\<lambda>b. length (drop j log) + 2 \<le> fst b) breaks \<longrightarrow> k = length (drop j log)"
    using Cons.IH [OF c1(2) r2(3,2) use r2(4)] Cons.prems(6) by auto
  let ?k = "min j (length log) + k"
  have tk: "take ?k log = take j log @ take k (drop j log)"
    by (cases "j \<le> length log") (simp_all add: take_add min_def)
  have "sessions C server srv (b # breaks) r = (es1 @ es2, None, r3)" unfolding b using step IH(3) by simp
  moreover have "handle_all C (take ?k log) c = (Inr (es1 @ es2), c2)"
    unfolding tk by (rule handle_all_append [OF c1(1) IH(2)])
  moreover have "?k \<le> length log" using IH(1) by simp
  moreover have "list_ex (\<lambda>b. length log + 2 \<le> fst b) (b # breaks) \<longrightarrow> ?k = length log"
  proof (intro impI)
    assume "list_ex (\<lambda>b. length log + 2 \<le> fst b) (b # breaks)"
    then consider "length log + 2 \<le> n" | "list_ex (\<lambda>b. length log + 2 \<le> fst b) breaks" by (auto simp: b)
    then show "?k = length log"
    proof cases
      case 1
      then have "length log \<le> j" using h(5) by (simp add: j_def)
      then show ?thesis using IH(1) by simp
    next
      case 2
      then have "list_ex (\<lambda>b. length (drop j log) + 2 \<le> fst b) breaks" by (force simp: list_ex_iff)
      then show ?thesis using IH(5) by simp
    qed
  qed
  ultimately show ?case using IH(4) by blast
qed

lemma fetch_all_connected:
  assumes "has_end C = None" "ensure_connected C server r = (Inr (), r')" "ready r'"
  shows "fetch_all C server ds r = fetch_all C server ds r'"
proof -
  have "fetchone C server ds r = fetchone C server ds r'"
    using assms by (subst (1 2) fetchone.simps) (simp add: connect_ready)
  then show ?thesis by (subst (1 2) fetch_all.simps) simp
qed

section \<open>Properties\<close>


text \<open>
  A server with two transactions in its log, and three connections: the first breaks behind the first
  transaction, the second at once, the third lasts.
\<close>

definition sample_packet :: "nat \<Rightarrow> byte \<Rightarrow> nat \<Rightarrow> byte list \<Rightarrow> byte list" where
  "sample_packet timestamp event_type log_pos body =
    [0] @ le_bytes 4 timestamp @ [event_type] @ le_bytes 4 1 @ le_bytes 4 (19 + length body) @ le_bytes 4 log_pos @ [0, 0] @ body"

definition sample_log :: "byte list list" where
  "sample_log = [sample_packet 7 16 31 (le_bytes 8 5), sample_packet 8 16 58 (le_bytes 8 6)]"

definition sample_server :: "byte list \<Rightarrow> byte list list" where
  "sample_server request =
    (let position = le_nat (take 4 (drop 5 request)); behind = (if position = 4 then 0 else if position = 31 then 1 else 2)
     in [sample_packet 0 4 0 (le_bytes 8 position @ [98]), sample_packet 0 15 0 []] @ drop behind sample_log)"

definition sample_settings :: "byte list stream_settings" where
  "sample_settings = \<lparr>ss_lib = sample_query_lib, ss_packets = bytes_packet, ss_rounds = 30, ss_server_id = 9,
     ss_resume_stream = True, ss_blocking = True, ss_allowed_events = {XidEvent},
     ss_event_settings = \<lparr>es_filters = \<lparr>ef_only_tables = None, ef_ignored_tables = None, ef_only_schemas = None, ef_ignored_schemas = None\<rparr>,
       es_freeze_schema = False, es_verify_checksum = False, es_optional_meta_data = False, es_dbms = []\<rparr>,
     ss_end_log_pos = None, ss_auto_position = None, ss_skip_to_timestamp = None, ss_report_slave = None,
     ss_slave_uuid = None, ss_slave_heartbeat = None, ss_read_timeout = None, ss_is_mariadb = False,
     ss_annotate_rows_event = False, ss_server_info = ''8.0''\<rparr>"

definition sample_answers :: "nat \<Rightarrow> server_answers" where
  "sample_answers n = \<lparr>sa_refused = False, sa_checksum = None, sa_knows_master_status = True, sa_master_status = None\<rparr>"

lemma sample_wrapped:
  assumes "t < 2 ^ 32" "pos < 2 ^ 32" "length body < 2 ^ 31"
  shows "new_wrapper bytes_packet (sample_packet t k pos body) = Inr \<lparr>pw_packet = body, pw_read_bytes = 0,
    pw_buffer = [], pw_timestamp = t, pw_event_type = unat k, pw_server_id = 1, pw_event_size = 19 + length body,
    pw_log_pos = pos, pw_flags = 0\<rparr>"
  using assms
  by (simp add: new_wrapper_def bytes_packet_def parse_header_def sample_packet_def le_nat_le_bytes nth_append del: le_bytes.simps)

lemma sample_xid:
  assumes "t < 2 ^ 32" "pos < 2 ^ 32" "pos \<noteq> 0" "x < 2 ^ 64"
  shows "\<exists>w. handle_packet sample_settings (sample_packet t 16 pos (le_bytes 8 x)) r
    = (Inr (Some (w, BodyEvent XidEvent (XidBody x))), r\<lparr>br_log_pos := Some pos\<rparr>)"
proof -
  let ?w = "\<lparr>pw_packet = le_bytes 8 x, pw_read_bytes = 0, pw_buffer = [], pw_timestamp = t, pw_event_type = unat (16 :: byte),
    pw_server_id = 1, pw_event_size = 19 + length (le_bytes 8 x), pw_log_pos = pos, pw_flags = 0\<rparr>"
  have w: "new_wrapper bytes_packet (sample_packet t 16 pos (le_bytes 8 x)) = Inr ?w"
    by (rule sample_wrapped [OF assms(1,2)]) simp
  have x: "x < 256 ^ 8" using assms(4) by simp
  have "pending (\<lambda>p. p) ?w = le_bytes 8 x @ []" by (simp add: pending_def del: le_bytes.simps)
  from readsD [OF bytes.reads_le(5) [OF x] this] obtain p where
    "read_uint64 bytes_packet ?w = (Inr x, taken (length (le_bytes 8 x)) p ?w)" by blast
  then have b: "body_event rounds L bytes_packet v False sz XidEvent ?w = (Inr (XidBody x), taken 8 p ?w)" for rounds L v sz
    by (simp add: body_event_def new_xid_event_def bindA_def retA_def del: le_bytes.simps)
  have cls: "event_class_of (unat (16 :: byte)) = XidEvent" by (simp add: event_class_of_def event_map_def)
  have "wrap_packet (ss_rounds sample_settings) (ss_lib sample_settings) (ss_packets sample_settings)
      ((ss_event_settings sample_settings)\<lparr>es_optional_meta_data := False, es_dbms := get_dbms (ss_server_info sample_settings)\<rparr>)
      (br_mysql_version r) (br_use_checksum r) (allowed_events_in_packet sample_settings)
      (sample_packet t 16 pos (le_bytes 8 x)) (br_table_map r) = (Inr (taken 8 p ?w, Some (BodyEvent XidEvent (XidBody x))), br_table_map r)"
    using w b cls
    by (simp add: wrap_packet_def sample_settings_def event_size_without_header_def allowed_events_in_packet_def
        new_body_event body_class_def del: le_bytes.simps)
  then show ?thesis using assms(3)
    by (simp add: handle_packet_def note_position_def taken_def note_end_def has_end_def too_early_def note_table_def Let_def
        sample_settings_def del: le_bytes.simps)
qed

lemma sample_rotation:
  assumes "q < 2 ^ 32"
  shows "artificial sample_settings False ''b'' q (sample_packet 0 4 0 (le_bytes 8 q @ [98]))"
proof -
  let ?w = "\<lparr>pw_packet = le_bytes 8 q @ [98], pw_read_bytes = 0, pw_buffer = [], pw_timestamp = 0, pw_event_type = unat (4 :: byte),
    pw_server_id = 1, pw_event_size = 19 + length (le_bytes 8 q @ [98 :: byte]), pw_log_pos = 0, pw_flags = 0\<rparr>"
  have w: "new_wrapper bytes_packet (sample_packet 0 4 0 (le_bytes 8 q @ [98])) = Inr ?w"
    by (rule sample_wrapped) simp_all
  have q: "q < 2 ^ 64" "9 = int (length (encode_rotate q [98]))" using assms by (simp_all add: encode_rotate_def del: le_bytes.simps)
  have t: "utf8 sample_query_lib [98] = Inr ''b''" by code_simp
  have "pending (\<lambda>p. p) ?w = encode_rotate q [98] @ []" by (simp add: pending_def encode_rotate_def del: le_bytes.simps)
  from readsD [OF bytes.reads_rotate_event [OF q(1) t q(2)] this] obtain p where
    "new_rotate_event sample_query_lib bytes_packet 9 ?w = (Inr (RotateBody q ''b''), taken (length (encode_rotate q [98])) p ?w)" by blast
  then show ?thesis using w
    by (simp add: artificial_def sample_settings_def event_size_without_header_def del: le_bytes.simps)
qed

lemma sample_description: "artificial sample_settings False ''b'' q (sample_packet 0 15 0 [])"
  by (simp add: artificial_def sample_settings_def sample_wrapped)

lemma sample_request:
  assumes "q < 2 ^ 32"
  shows "dump_request sample_settings ''b'' q = Inr (le_bytes 4 12 @ [0x12] @ le_bytes 4 q @ le_bytes 2 0 @ le_bytes 4 9 @ [98])"
  using assms
  by (simp add: dump_request_def sample_settings_def pack_int32_def pack_le_def non_block_def encode_text_def encode_char_def
      del: le_bytes.simps)

lemma sample_continues:
  assumes "q < 2 ^ 32" "br_log_file r = Some ''b''" "br_log_pos r = Some q" "\<not> br_use_checksum r"
    and "ps = drop (if q = 4 then 0 else if q = 31 then 1 else 2) sample_log"
  shows "continues sample_settings sample_server ps r"
proof -
  have "le_nat (take 4 (drop 5 (le_bytes 4 12 @ [0x12] @ le_bytes 4 q @ le_bytes 2 0 @ le_bytes 4 9 @ [98]))) = q"
    using assms(1) by (simp add: le_nat_le_bytes del: le_bytes.simps)
  then have "sample_server (le_bytes 4 12 @ [0x12] @ le_bytes 4 q @ le_bytes 2 0 @ le_bytes 4 9 @ [98]) =
      [sample_packet 0 4 0 (le_bytes 8 q @ [98]), sample_packet 0 15 0 []] @ ps"
    unfolding sample_server_def assms(5) by (simp only: Let_def)
  then show ?thesis
    using sample_request [OF assms(1)] sample_rotation [OF assms(1)] sample_description assms(2-4)
    by (simp add: continues_def Let_def del: le_bytes.simps)
qed

lemma sample_serves:
  "serves sample_settings sample_server sample_log ((new_stream_reader (Some ''b'') (Some 4))\<lparr>br_use_checksum := False\<rparr>)"
proof -
  let ?r = "(new_stream_reader (Some ''b'') (Some 4))\<lparr>br_use_checksum := False\<rparr>"
  let ?p = "sample_packet 7 16 31 (le_bytes 8 5)" and ?q = "sample_packet 8 16 58 (le_bytes 8 6)"
  have c: "continues sample_settings sample_server [?p, ?q] ?r"
    "continues sample_settings sample_server [?q] (?r\<lparr>br_log_pos := Some 31\<rparr>)"
    "continues sample_settings sample_server [] (?r\<lparr>br_log_pos := Some 58\<rparr>)"
    by (rule sample_continues [where q = 4] sample_continues [where q = 31] sample_continues [where q = 58],
        simp_all add: new_stream_reader_def sample_log_def del: le_bytes.simps)+
  obtain w1 where h1: "handle_packet sample_settings ?p ?r = (Inr (Some (w1, BodyEvent XidEvent (XidBody 5))), ?r\<lparr>br_log_pos := Some 31\<rparr>)"
    using sample_xid [of 7 31 5 ?r] by auto
  obtain w2 where h2: "handle_packet sample_settings ?q (?r\<lparr>br_log_pos := Some 31\<rparr>)
      = (Inr (Some (w2, BodyEvent XidEvent (XidBody 6))), ?r\<lparr>br_log_pos := Some 58\<rparr>)"
    using sample_xid [of 8 58 6 "?r\<lparr>br_log_pos := Some 31\<rparr>"] by auto
  show ?thesis unfolding sample_log_def using c h1 h2 by (simp del: le_bytes.simps)
qed


end
