(* ===== verification/Processes.thy ===== *)
theory Processes
  imports MysqlApi DbState
begin

text \<open>
  \<^verbatim>\<open>ProcessRunner\<close> of \<^verbatim>\<open>utils.py\<close>, the command lines of \<^verbatim>\<open>runner.py\<close>, and the selection of databases and
  tables that the runner and the optimizer share. Which processes have exited when they are polled is
  an argument; every start, interrupt and removal is recorded. Processes start.
\<close>

section \<open>Selection\<close>

text \<open>\<^verbatim>\<open>[x for x in xs if matches(x)]\<close>.\<close>

fun filterE :: "('a \<Rightarrow> bool res) \<Rightarrow> 'a list \<Rightarrow> 'a list res" where
  "filterE f [] = Inr []"
| "filterE f (x # xs) = bindE (f x) (\<lambda>b. bindE (filterE f xs) (\<lambda>ys. Inr (if b then x # ys else ys)))"

lemma filterE_Inr: "filterE f xs = Inr ys \<Longrightarrow> ys = filter (\<lambda>x. f x = Inr True) xs"
  by (induction xs arbitrary: ys) (auto simp: res_simps)

text \<open>A number of seconds in a setting.\<close>

definition seconds :: "py_val \<Rightarrow> int res" where
  "seconds v = (case v of VInt i \<Rightarrow> Inr i | VBool b \<Rightarrow> Inr (of_bool b) | _ \<Rightarrow> Inl TypeError)"

section \<open>Child processes\<close>

text \<open>\<open>pc_running\<close>: the attribute \<^verbatim>\<open>process\<close> is not \<^verbatim>\<open>None\<close>.\<close>

record child =
  pc_cmd :: string
  pc_running :: bool

datatype child_action = Started "string list" | Reaped string | Interrupted string | RemovedState string

definition new_child :: "string \<Rightarrow> child" where
  "new_child cmd = \<lparr>pc_cmd = cmd, pc_running = False\<rparr>"

definition run_child :: "child \<Rightarrow> child \<times> child_action list" where
  "run_child p = (p\<lparr>pc_running := True\<rparr>, [Started (split_ws (pc_cmd p))])"

definition restart_dead_process_if_required :: "(string \<Rightarrow> bool) \<Rightarrow> child \<Rightarrow> child \<times> child_action list" where
  "restart_dead_process_if_required dead p =
    (if \<not> pc_running p then run_child p
     else if \<not> dead (pc_cmd p) then (p, [])
     else (case run_child p of (p', acts) \<Rightarrow> (p', Reaped (pc_cmd p) # acts)))"

definition stop_child :: "child \<Rightarrow> child \<times> child_action list" where
  "stop_child p = (if pc_running p then (p\<lparr>pc_running := False\<rparr>, [Interrupted (pc_cmd p)]) else (p, []))"

definition wait_complete :: "child \<Rightarrow> child res" where
  "wait_complete p = (if pc_running p then Inr (p\<lparr>pc_running := False\<rparr>) else Inl AttributeError)"

section \<open>Command lines\<close>

text \<open>\<open>prefix\<close> is \<^verbatim>\<open>subprocess_prefix()\<close>.\<close>

definition binlog_replicator_cmd :: "string \<Rightarrow> string \<Rightarrow> string" where
  "binlog_replicator_cmd prefix config_file = prefix @ '' --config '' @ config_file @ '' binlog_replicator''"

definition db_replicator_cmd :: "string \<Rightarrow> string \<Rightarrow> string \<Rightarrow> int option \<Rightarrow> int option \<Rightarrow> bool \<Rightarrow> bool \<Rightarrow> string" where
  "db_replicator_cmd prefix db config_file worker_id total_workers initial_only skip =
    prefix @ '' --config '' @ config_file @ '' --db '' @ db @ '' db_replicator''
    @ (case worker_id of None \<Rightarrow> [] | Some i \<Rightarrow> '' --worker_id='' @ str_int i)
    @ (case total_workers of None \<Rightarrow> [] | Some n \<Rightarrow> '' --total_workers='' @ str_int n)
    @ (if initial_only then '' --initial_only=True'' else [])
    @ (if skip then '' --skip_initial_replication'' else [])"

definition db_optimizer_cmd :: "string \<Rightarrow> string \<Rightarrow> string" where
  "db_optimizer_cmd prefix config_file = prefix @ '' --config '' @ config_file @ '' db_optimizer''"

definition run_all_cmd :: "string \<Rightarrow> string \<Rightarrow> string \<Rightarrow> string" where
  "run_all_cmd prefix db config_file = prefix @ '' --config '' @ config_file @ '' run_all --db '' @ db"

lemma run_child_running [simp]: "pc_running (fst (run_child p))"
  by (simp add: run_child_def)

lemma restart_running: "pc_running (fst (restart_dead_process_if_required dead p))"
  by (simp add: restart_dead_process_if_required_def run_child_def)

lemma stop_child_stopped [simp]: "\<not> pc_running (fst (stop_child p))"
  by (simp add: stop_child_def)

end
