(* ===== verification/Runner.thy ===== *)
theory Runner
  imports Processes
begin

text \<open>
  \<^verbatim>\<open>Runner\<close> of \<^verbatim>\<open>runner.py\<close>: one process for the binlog, one for each database and the optimizer. The
  outside is a list of ticks: each reading of the kill flag finds the next one, with the time, the
  processes that have exited, the state files and whether the HTTP endpoint has asked for a restart
  since. When the ticks end the runner is still running. The recovery of the relay files is the result
  of \<^verbatim>\<open>RelayRecovery\<close>.
\<close>

section \<open>State\<close>

record tick =
  tk_kill :: bool
  tk_time :: int
  tk_dead :: "string \<Rightarrow> bool"
  tk_state :: "string \<Rightarrow> saved_state option"
  tk_restart_request :: bool

record runner_context =
  rc_settings :: Settings
  rc_prefix :: string
  rc_config_file :: string
  rc_wait_initial_replication :: bool

record runner =
  rn_runners :: "(string, child) dict"
  rn_binlog :: "child option"
  rn_optimizer :: "child option"
  rn_need_restart :: bool
  rn_restarted :: bool
  rn_mysql :: mysql_api
  rn_actions :: "child_action list"

definition DB_REPLICATOR_RUN_DELAY :: int where "DB_REPLICATOR_RUN_DELAY = 5"

definition new_runner :: "mysql_api \<Rightarrow> runner" where
  "new_runner my = \<lparr>rn_runners = [], rn_binlog = None, rn_optimizer = None, rn_need_restart = False, rn_restarted = False,
     rn_mysql = my, rn_actions = []\<rparr>"

section \<open>Operations\<close>

definition is_initial_replication_finished :: "tick \<Rightarrow> string \<Rightarrow> bool" where
  "is_initial_replication_finished t db \<longleftrightarrow>
    db_status (fst (db_state_load (tk_state t db))) = RUNNING_REALTIME_REPLICATION"

definition add_actions :: "child_action list \<Rightarrow> runner \<Rightarrow> runner" where
  "add_actions acts st = st\<lparr>rn_actions := rn_actions st @ acts\<rparr>"

text \<open>The same method of every process of a dictionary, in its order; and of one that may be missing.\<close>

fun each_child :: "(child \<Rightarrow> child \<times> child_action list) \<Rightarrow> (string, child) dict \<Rightarrow> (string, child) dict \<times> child_action list" where
  "each_child f [] = ([], [])"
| "each_child f ((db, p) # ps) =
    (case f p of (p', acts) \<Rightarrow> (case each_child f ps of (ps', acts') \<Rightarrow> ((db, p') # ps', acts @ acts')))"

fun one_child :: "(child \<Rightarrow> child \<times> child_action list) \<Rightarrow> child option \<Rightarrow> child option \<times> child_action list" where
  "one_child f None = (None, [])"
| "one_child f (Some p) = (case f p of (p', acts) \<Rightarrow> (Some p', acts))"

definition on_runners :: "(child \<Rightarrow> child \<times> child_action list) \<Rightarrow> runner \<Rightarrow> runner" where
  "on_runners f st = (case each_child f (rn_runners st) of (ps, acts) \<Rightarrow> add_actions acts (st\<lparr>rn_runners := ps\<rparr>))"

definition on_binlog :: "(child \<Rightarrow> child \<times> child_action list) \<Rightarrow> runner \<Rightarrow> runner" where
  "on_binlog f st = (case one_child f (rn_binlog st) of (p, acts) \<Rightarrow> add_actions acts (st\<lparr>rn_binlog := p\<rparr>))"

definition on_optimizer :: "(child \<Rightarrow> child \<times> child_action list) \<Rightarrow> runner \<Rightarrow> runner" where
  "on_optimizer f st = (case one_child f (rn_optimizer st) of (p, acts) \<Rightarrow> add_actions acts (st\<lparr>rn_optimizer := p\<rparr>))"

definition restart_dead_processes :: "(string \<Rightarrow> bool) \<Rightarrow> runner \<Rightarrow> runner" where
  "restart_dead_processes dead st =
    (let f = restart_dead_process_if_required dead in on_optimizer f (on_binlog f (on_runners f st)))"

text \<open>Every replicator is stopped and its state file removed.\<close>

fun stop_and_forget :: "(string \<Rightarrow> saved_state option) \<Rightarrow> (string, child) dict \<Rightarrow> (string, child) dict \<times> child_action list" where
  "stop_and_forget file [] = ([], [])"
| "stop_and_forget file ((db, p) # ps) =
    (case stop_child p of (p', acts) \<Rightarrow> (case stop_and_forget file ps of (ps', acts') \<Rightarrow>
       ((db, p') # ps', acts @ (if file db \<noteq> None then [RemovedState db] else []) @ acts')))"

definition restart_replication_if_required :: "tick \<Rightarrow> runner \<Rightarrow> runner" where
  "restart_replication_if_required t st =
    (if \<not> rn_need_restart st then st
     else (case stop_and_forget (tk_state t) (rn_runners st) of (ps, acts) \<Rightarrow>
       (restart_dead_processes (tk_dead t) (add_actions acts (st\<lparr>rn_runners := ps\<rparr>)))
         \<lparr>rn_need_restart := False, rn_restarted := True\<rparr>))"

text \<open>The request of the HTTP endpoint, which then waits for \<open>rn_restarted\<close>.\<close>

definition restart_replication :: "runner \<Rightarrow> runner" where
  "restart_replication st = st\<lparr>rn_restarted := False, rn_need_restart := True\<rparr>"

definition start_db :: "runner_context \<Rightarrow> string \<Rightarrow> runner \<Rightarrow> runner" where
  "start_db cx db st =
    (case run_child (new_child (db_replicator_cmd (rc_prefix cx) db (rc_config_file cx) None None False False)) of
       (p, acts) \<Rightarrow> add_actions acts (st\<lparr>rn_runners := AList.update db p (rn_runners st)\<rparr>))"

definition on_mysql :: "(mysql_api, 'a) act \<Rightarrow> (runner, 'a) act" where
  "on_mysql m = (\<lambda>st. case m (rn_mysql st) of (r, my) \<Rightarrow> (r, st\<lparr>rn_mysql := my\<rparr>))"

definition matching_databases :: "runner_context \<Rightarrow> (runner, string list) act" where
  "matching_databases cx = bindA (on_mysql mysql_get_databases) (\<lambda>dbs. liftA (\<lambda>_. filterE (is_database_matches (rc_settings cx)) dbs))"

text \<open>
  The second loop of \<^verbatim>\<open>check_databases_updated\<close> runs over the keys of the dictionary it removes from:
  the first removal makes the loop raise RuntimeError when it goes on.
\<close>

definition check_databases_updated :: "runner_context \<Rightarrow> (runner, unit) act" where
  "check_databases_updated cx =
    bindA (matching_databases cx) (\<lambda>dbs.
    bindA (mapA (\<lambda>db st. if db \<in> fst ` set (rn_runners st) then (Inr (), st) else (Inr (), start_db cx db st)) dbs) (\<lambda>_ st.
      case find (\<lambda>(db, _). db \<notin> set dbs) (rn_runners st) of
        None \<Rightarrow> (Inr (), st)
      | Some (db, p) \<Rightarrow> (case stop_child p of (_, acts) \<Rightarrow>
          (Inl RuntimeError, add_actions acts (st\<lparr>rn_runners := AList.delete db (rn_runners st)\<rparr>)))))"

section \<open>The run\<close>

text \<open>
  The stages give the ticks that are left, \<^const>\<open>None\<close> when they ended in the stage. First the delay, in
  which the binlog replicator gets ahead.
\<close>

fun wait_delay :: "int \<Rightarrow> tick list \<Rightarrow> tick list option" where
  "wait_delay t1 [] = None"
| "wait_delay t1 (t # ts) =
    (if tk_time t - t1 < DB_REPLICATOR_RUN_DELAY \<and> \<not> tk_kill t then wait_delay t1 ts else Some ts)"

text \<open>The databases whose copy is finished go on.\<close>

fun resume_finished :: "runner_context \<Rightarrow> string list \<Rightarrow> tick list \<Rightarrow> runner \<Rightarrow> tick list option \<times> runner" where
  "resume_finished cx [] ts st = (Some ts, st)"
| "resume_finished cx (db # dbs) [] st = (None, st)"
| "resume_finished cx (db # dbs) (t # ts) st =
    (if tk_kill t then (Some ts, st)
     else if \<not> is_initial_replication_finished t db then resume_finished cx dbs ts st
     else resume_finished cx dbs ts (start_db cx db st))"

fun wait_initial :: "string \<Rightarrow> tick list \<Rightarrow> runner \<Rightarrow> tick list option \<times> runner" where
  "wait_initial db [] st = (None, st)"
| "wait_initial db (t # ts) st =
    (if \<not> is_initial_replication_finished t db \<and> \<not> tk_kill t then wait_initial db ts (restart_dead_processes (tk_dead t) st)
     else (Some ts, st))"

text \<open>The others one by one.\<close>

fun launch_others :: "runner_context \<Rightarrow> string list \<Rightarrow> tick list \<Rightarrow> runner \<Rightarrow> tick list option \<times> runner" where
  "launch_others cx [] ts st = (Some ts, st)"
| "launch_others cx (db # dbs) ts st =
    (if db \<in> fst ` set (rn_runners st) then launch_others cx dbs ts st
     else (case ts of
       [] \<Rightarrow> (None, st)
     | t # ts \<Rightarrow>
         if tk_kill t then (Some ts, st)
         else if \<not> rc_wait_initial_replication cx then launch_others cx dbs ts (start_db cx db st)
         else (case wait_initial db ts (start_db cx db st) of
             (None, st) \<Rightarrow> (None, st)
           | (Some ts, st) \<Rightarrow> launch_others cx dbs ts st)))"

definition launch_replicators :: "runner_context \<Rightarrow> string list \<Rightarrow> tick list \<Rightarrow> runner \<Rightarrow> tick list option \<times> runner" where
  "launch_replicators cx dbs ts st =
    (case ts of [] \<Rightarrow> (None, st) | t # ts \<Rightarrow>
     (case wait_delay (tk_time t) ts of None \<Rightarrow> (None, st) | Some ts \<Rightarrow>
     (case resume_finished cx dbs ts st of (None, st) \<Rightarrow> (None, st) | (Some ts, st) \<Rightarrow>
        launch_others cx dbs ts st)))"

text \<open>The main loop; the outcome is \<^const>\<open>None\<close> when it still runs.\<close>

fun main_loop :: "runner_context \<Rightarrow> int \<Rightarrow> tick list \<Rightarrow> runner \<Rightarrow> unit res option \<times> runner" where
  "main_loop cx last_check [] st = (None, st)"
| "main_loop cx last_check (t # ts) st =
    (if tk_kill t then (Some (Inr ()), st)
     else
       let st = (if tk_restart_request t then restart_replication st else st);
           st = restart_dead_processes (tk_dead t) (restart_replication_if_required t st)
       in case seconds (check_db_updated_interval (rc_settings cx)) of
            Inl e \<Rightarrow> (Some (Inl e), st)
          | Inr interval \<Rightarrow>
              if interval < tk_time t - last_check
              then (case check_databases_updated cx st of
                  (Inl e, st) \<Rightarrow> (Some (Inl e), st)
                | (Inr _, st) \<Rightarrow> main_loop cx (tk_time t) ts st)
              else main_loop cx last_check ts st)"

definition stop_all :: "runner \<Rightarrow> runner" where
  "stop_all st = on_runners stop_child (on_optimizer stop_child (on_binlog stop_child st))"

text \<open>\<^verbatim>\<open>Runner.run\<close>; \<open>recovered\<close> is the outcome of the recovery of the relay files.\<close>

definition run_all :: "runner_context \<Rightarrow> unit res \<Rightarrow> tick list \<Rightarrow> runner \<Rightarrow> unit res option \<times> runner" where
  "run_all cx recovered ts st =
    (case bindA (matching_databases cx) (\<lambda>dbs. bindA (liftA (\<lambda>_. recovered)) (\<lambda>_. retA dbs)) st of
       (Inl e, st) \<Rightarrow> (Some (Inl e), st)
     | (Inr dbs, st) \<Rightarrow>
         let st = on_binlog run_child (st\<lparr>rn_binlog := Some (new_child (binlog_replicator_cmd (rc_prefix cx) (rc_config_file cx)))\<rparr>);
             st = on_optimizer run_child (st\<lparr>rn_optimizer := Some (new_child (db_optimizer_cmd (rc_prefix cx) (rc_config_file cx)))\<rparr>)
         in case launch_replicators cx dbs ts st of
              (Some (t # ts), st) \<Rightarrow> (case main_loop cx (tk_time t) ts st of
                  (Some (Inr _), st) \<Rightarrow> (Some (Inr ()), stop_all st)
                | x \<Rightarrow> x)
            | (_, st) \<Rightarrow> (None, st))"

section \<open>The processes\<close>

definition keys :: "runner \<Rightarrow> string list" where
  "keys st = map fst (rn_runners st)"

lemma each_child_keys: "map fst (fst (each_child f ps)) = map fst ps"
  by (induction ps) (auto simp: split_beta)

lemma each_child_stopped: "p \<in> snd ` set (fst (each_child stop_child ps)) \<Longrightarrow> \<not> pc_running p"
proof (induction ps)
  case (Cons a ps)
  then show ?case by (cases a) (auto simp: split_beta)
qed simp

lemma on_children_keys [simp]:
  "keys (add_actions acts st) = keys st" "keys (on_runners f st) = keys st"
  "keys (on_binlog f st) = keys st" "keys (on_optimizer f st) = keys st"
  by (simp_all add: keys_def add_actions_def on_runners_def on_binlog_def on_optimizer_def each_child_keys split_beta)

lemma restart_dead_keys [simp]: "keys (restart_dead_processes dead st) = keys st"
  by (simp add: restart_dead_processes_def Let_def)

lemma keys_start_db: "keys (start_db cx db st) = (if db \<in> set (keys st) then keys st else keys st @ [db])"
proof -
  have "map fst (AList.update db p ps) = (if db \<in> fst ` set ps then map fst ps else map fst ps @ [db])" for p :: child and ps
    by (induction ps) auto
  then show ?thesis by (simp add: start_db_def keys_def add_actions_def run_child_def)
qed

definition stopped :: "runner \<Rightarrow> bool" where
  "stopped st \<longleftrightarrow> list_all (\<lambda>(_, p). \<not> pc_running p) (rn_runners st)
     \<and> (case rn_binlog st of None \<Rightarrow> True | Some p \<Rightarrow> \<not> pc_running p)
     \<and> (case rn_optimizer st of None \<Rightarrow> True | Some p \<Rightarrow> \<not> pc_running p)"

lemma one_child_stopped: "fst (one_child stop_child p) = Some q \<Longrightarrow> \<not> pc_running q"
  by (cases p) (auto simp: split_beta)

lemma stop_all_stopped: "stopped (stop_all st)"
proof -
  obtain b bacts where b: "one_child stop_child (rn_binlog st) = (b, bacts)" by fastforce
  obtain o' oacts where o: "one_child stop_child (rn_optimizer st) = (o', oacts)" by fastforce
  obtain ps pacts where p: "each_child stop_child (rn_runners st) = (ps, pacts)" by fastforce
  have "list_all (\<lambda>(_, p). \<not> pc_running p) ps"
    using each_child_stopped [of _ "rn_runners st"] p by (force simp: list_all_iff)
  moreover have "case b of None \<Rightarrow> True | Some p \<Rightarrow> \<not> pc_running p" "case o' of None \<Rightarrow> True | Some p \<Rightarrow> \<not> pc_running p"
    using one_child_stopped [of "rn_binlog st"] one_child_stopped [of "rn_optimizer st"] b o by (auto split: option.split)
  ultimately show ?thesis using b o p
    by (simp add: stop_all_def stopped_def on_runners_def on_binlog_def on_optimizer_def add_actions_def)
qed

section \<open>Ending\<close>

text \<open>The last \<open>n\<close> ticks have the kill flag set.\<close>

definition kill_behind :: "nat \<Rightarrow> tick list \<Rightarrow> bool" where
  "kill_behind n ts \<longleftrightarrow> (\<exists>pre post. ts = pre @ post \<and> list_all tk_kill post \<and> n \<le> length post)"

lemma kill_behind_Nil [simp]: "kill_behind n [] \<longleftrightarrow> n = 0"
  by (auto simp: kill_behind_def)

lemma kill_behind_mono: "kill_behind n ts \<Longrightarrow> m \<le> n \<Longrightarrow> kill_behind m ts"
  by (auto simp: kill_behind_def intro: le_trans)

lemma kill_behind_all: "list_all tk_kill ts \<Longrightarrow> n \<le> length ts \<Longrightarrow> kill_behind n ts"
  unfolding kill_behind_def by (rule exI [of _ "[]"]) auto

text \<open>Behind a tick either as many follow, or all that follow are such ticks and one less.\<close>

lemma kill_behind_Cons:
  assumes "kill_behind n (t # ts)"
  obtains "kill_behind n ts" | "tk_kill t" "list_all tk_kill ts" "n \<le> Suc (length ts)"
proof -
  obtain pre post where p: "t # ts = pre @ post" "list_all tk_kill post" "n \<le> length post"
    using assms by (auto simp: kill_behind_def)
  show thesis
  proof (cases pre)
    case Nil
    then show thesis using p that(2) by (cases post) auto
  next
    case (Cons u us)
    then have "kill_behind n ts" using p by (auto simp: kill_behind_def)
    then show thesis by (rule that(1))
  qed
qed

lemma kill_behind_tl: "kill_behind (Suc n) (t # ts) \<Longrightarrow> kill_behind n ts"
  by (erule kill_behind_Cons) (auto intro: kill_behind_mono kill_behind_all)

lemma kill_behind_alive: "kill_behind n (t # ts) \<Longrightarrow> \<not> tk_kill t \<Longrightarrow> kill_behind n ts"
  by (erule kill_behind_Cons) auto

lemma wait_delay_ends: "kill_behind (Suc n) ts \<Longrightarrow> \<exists>ts'. wait_delay t1 ts = Some ts' \<and> kill_behind n ts'"
  by (induction ts) (auto dest: kill_behind_tl kill_behind_alive)

lemma resume_finished_ends:
  "kill_behind (Suc n) ts \<Longrightarrow> \<exists>ts' st'. resume_finished cx dbs ts st = (Some ts', st') \<and> kill_behind n ts'"
proof (induction cx dbs ts st rule: resume_finished.induct)
  case (1 cx ts st)
  then show ?case by (auto intro: kill_behind_mono)
qed (auto dest: kill_behind_tl kill_behind_alive)

lemma wait_initial_ends:
  "kill_behind (Suc n) ts \<Longrightarrow> \<exists>ts' st'. wait_initial db ts st = (Some ts', st')
    \<and> (kill_behind (Suc n) ts' \<or> list_all tk_kill ts' \<and> n \<le> length ts')"
proof (induction db ts st rule: wait_initial.induct)
  case (2 db t ts st)
  show ?case
  proof (cases "\<not> is_initial_replication_finished t db \<and> \<not> tk_kill t")
    case True
    then show ?thesis using "2.IH" kill_behind_alive [OF "2.prems"] by simp
  next
    case False
    show ?thesis using "2.prems" by (rule kill_behind_Cons) (use False in auto)
  qed
qed simp

lemma launch_others_killed:
  "list_all tk_kill ts \<Longrightarrow> Suc n \<le> length ts \<Longrightarrow> \<exists>ts' st'. launch_others cx dbs ts st = (Some ts', st') \<and> kill_behind n ts'"
proof (induction dbs arbitrary: st)
  case Nil
  then show ?case by (auto intro: kill_behind_all)
next
  case (Cons db dbs)
  then show ?case by (cases ts) (auto intro: kill_behind_all)
qed

lemma launch_others_ends:
  "kill_behind (Suc (Suc n)) ts \<Longrightarrow> \<exists>ts' st'. launch_others cx dbs ts st = (Some ts', st') \<and> kill_behind n ts'"
proof (induction dbs arbitrary: ts st)
  case Nil
  then show ?case by (auto intro: kill_behind_mono)
next
  case (Cons db dbs)
  show ?case
  proof (cases "db \<in> fst ` set (rn_runners st)")
    case True
    then show ?thesis using Cons by simp
  next
    case new: False
    obtain t us where ts: "ts = t # us" using Cons.prems by (cases ts) auto
    show ?thesis
    proof (cases "tk_kill t")
      case True
      have "kill_behind n us" using kill_behind_tl Cons.prems ts kill_behind_mono by (metis le_SucI order_refl)
      then show ?thesis using True new ts by simp
    next
      case False
      note us = kill_behind_alive [OF Cons.prems [unfolded ts] False]
      show ?thesis
      proof (cases "rc_wait_initial_replication cx")
        case True
        obtain ts1 st1 where w: "wait_initial db us (start_db cx db st) = (Some ts1, st1)"
          "kill_behind (Suc (Suc n)) ts1 \<or> list_all tk_kill ts1 \<and> Suc n \<le> length ts1"
          using wait_initial_ends [OF us] by blast
        then have "\<exists>ts' st'. launch_others cx dbs ts1 st1 = (Some ts', st') \<and> kill_behind n ts'"
          using Cons.IH launch_others_killed by blast
        then show ?thesis using new False True w(1) ts by simp
      qed (use new False us Cons.IH ts in simp)
    qed
  qed
qed

lemma main_loop_ends: "kill_behind (Suc 0) ts \<Longrightarrow> fst (main_loop cx checked ts st) \<noteq> None"
  by (induction cx checked ts st rule: main_loop.induct)
    (auto simp: Let_def dest: kill_behind_alive split: sum.splits prod.splits)

lemma launch_replicators_ends:
  assumes "kill_behind (n + 5) ts"
  shows "\<exists>ts' st'. launch_replicators cx dbs ts st = (Some ts', st') \<and> kill_behind n ts'"
proof -
  obtain t us where ts: "ts = t # us" using assms by (cases ts) auto
  have "kill_behind (Suc (Suc (Suc (Suc n)))) us" using kill_behind_tl assms ts by (simp add: numeral_eq_Suc)
  then obtain ts1 where t1: "wait_delay (tk_time t) us = Some ts1" "kill_behind (Suc (Suc (Suc n))) ts1"
    using wait_delay_ends by blast
  obtain ts2 st2 where t2: "resume_finished cx dbs ts1 st = (Some ts2, st2)" "kill_behind (Suc (Suc n)) ts2"
    using resume_finished_ends [OF t1(2)] by blast
  show ?thesis using launch_others_ends [OF t2(2)] t1(1) t2(1) ts by (simp add: launch_replicators_def)
qed

section \<open>Properties\<close>


text \<open>A database whose copy one of the ticks has seen finished.\<close>

definition seen :: "tick list \<Rightarrow> string \<Rightarrow> bool" where
  "seen ts db \<longleftrightarrow> list_ex (\<lambda>t. is_initial_replication_finished t db) ts"

lemma seen_member: "t \<in> set ts \<Longrightarrow> is_initial_replication_finished t db \<Longrightarrow> seen ts db"
  by (auto simp: seen_def list_ex_iff)

lemma wait_delay_set: "wait_delay t1 us = Some us' \<Longrightarrow> set us' \<subseteq> set us"
  by (induction us) (auto split: if_splits)

lemma resume_finished_seen:
  "set us \<subseteq> set ts \<Longrightarrow> list_all (seen ts) (keys s) \<Longrightarrow> resume_finished cx dbs us s = (r, s')
    \<Longrightarrow> list_all (seen ts) (keys s') \<and> (\<forall>us'. r = Some us' \<longrightarrow> set us' \<subseteq> set ts)"
proof (induction cx dbs us s rule: resume_finished.induct)
  case (3 cx db dbs t us s)
  then show ?case by (cases "db \<in> set (keys s)") (auto simp: keys_start_db seen_member split: if_splits)
qed auto

lemma wait_initial_seen:
  "list_all (\<lambda>t. \<not> tk_kill t) ts \<Longrightarrow> set us \<subseteq> set ts \<Longrightarrow> wait_initial db us s = (r, s')
    \<Longrightarrow> keys s' = keys s \<and> (\<forall>us'. r = Some us' \<longrightarrow> set us' \<subseteq> set ts \<and> seen ts db)"
  by (induction db us s rule: wait_initial.induct) (auto simp: seen_member list_all_iff split: if_splits)

lemma list_all_butlast: "list_all P xs \<Longrightarrow> list_all P (butlast xs)"
  by (auto simp: list_all_iff dest: in_set_butlastD)

lemma launch_others_seen:
  assumes wait: "rc_wait_initial_replication cx" and alive: "list_all (\<lambda>t. \<not> tk_kill t) ts"
  shows "set us \<subseteq> set ts \<Longrightarrow> list_all (seen ts) (keys s) \<Longrightarrow> list_all (seen ts) (butlast (keys (snd (launch_others cx dbs us s))))"
proof (induction dbs arbitrary: us s)
  case Nil
  then show ?case by (simp add: list_all_butlast)
next
  case (Cons db dbs)
  show ?case
  proof (cases "db \<in> fst ` set (rn_runners s)")
    case True
    then show ?thesis using Cons by simp
  next
    case new: False
    then have k: "keys (start_db cx db s) = keys s @ [db]" by (simp add: keys_start_db) (simp add: keys_def)
    show ?thesis
    proof (cases us)
      case Nil
      then show ?thesis using new Cons.prems(2) by (simp add: list_all_butlast)
    next
      case us: (Cons t vs)
      then have t: "\<not> tk_kill t" "set vs \<subseteq> set ts" using Cons.prems(1) alive by (auto simp: list_all_iff)
      obtain r s1 where w: "wait_initial db vs (start_db cx db s) = (r, s1)" by fastforce
      note i = wait_initial_seen [OF alive t(2) w, unfolded k]
      then show ?thesis using new us t(1) wait w Cons.prems(2) Cons.IH [of _ s1] by (cases r) auto
    qed
  qed
qed

text \<open>C37. One copy at a time. While the runner launches replicators and is not killed, every replicator
  but the one started last has been seen with a finished copy: a new copy begins only when all others
  are done.
\<close>
theorem one_copy_at_a_time:
  assumes wait: "rc_wait_initial_replication cx" and alive: "list_all (\<lambda>t. \<not> tk_kill t) ts" and st: "rn_runners st = []"
  shows "list_all (\<lambda>db. list_ex (\<lambda>t. is_initial_replication_finished t db) ts)
    (butlast (keys (snd (launch_replicators cx dbs ts st))))"
proof -
  have "list_all (seen ts) (butlast (keys (snd (launch_replicators cx dbs ts st))))"
  proof (cases "\<exists>t us vs. ts = t # us \<and> wait_delay (tk_time t) us = Some vs")
    case True
    then obtain t us vs where ts: "ts = t # us" "wait_delay (tk_time t) us = Some vs" by blast
    then have vs: "set vs \<subseteq> set ts" using wait_delay_set by fastforce
    obtain r s1 where r: "resume_finished cx dbs vs st = (r, s1)" by fastforce
    have i: "list_all (seen ts) (keys s1)" "\<And>us'. r = Some us' \<Longrightarrow> set us' \<subseteq> set ts"
      using resume_finished_seen [OF vs _ r] st by (auto simp: keys_def)
    then show ?thesis using ts r launch_others_seen [OF wait alive _ i(1)]
      by (cases r) (simp_all add: launch_replicators_def list_all_butlast)
  next
    case False
    then have "snd (launch_replicators cx dbs ts st) = st"
      by (auto simp: launch_replicators_def split: list.split option.split)
    then show ?thesis using st by (simp add: keys_def)
  qed
  then show ?thesis by (simp add: seen_def [abs_def])
qed

lemma start_missing_keys:
  "\<exists>st'. mapA (\<lambda>db st. if db \<in> fst ` set (rn_runners st) then (Inr (), st) else (Inr (), start_db cx db st)) dbs st = (Inr (), st')
    \<and> set (keys st') = set (keys st) \<union> set dbs"
proof (induction dbs arbitrary: st)
  case (Cons db dbs)
  have "db \<in> fst ` set (rn_runners st) \<longleftrightarrow> db \<in> set (keys st)" by (simp add: keys_def)
  then show ?case using Cons.IH [of st] Cons.IH [of "start_db cx db st"]
    by (cases "db \<in> set (keys st)") (auto simp: bindA_def keys_start_db)
qed (simp add: retA_def)

text \<open>C39. A dropped database ends the runner. When the check finds a replicator whose database is not
  among the databases of the server any more, it raises RuntimeError instead of going on without it;
  otherwise it ends and exactly the databases of the server have replicators.
\<close>
theorem dropped_database_ends_run:
  assumes "matching_databases cx st = (Inr dbs, st1)"
  shows "(\<not> set (keys st1) \<subseteq> set dbs \<longrightarrow> fst (check_databases_updated cx st) = Inl RuntimeError)
    \<and> (set (keys st1) \<subseteq> set dbs \<longrightarrow> (\<exists>st2. check_databases_updated cx st = (Inr (), st2) \<and> set (keys st2) = set dbs))"
proof -
  obtain st2 where s: "mapA (\<lambda>db st. if db \<in> fst ` set (rn_runners st) then (Inr (), st) else (Inr (), start_db cx db st)) dbs st1 = (Inr (), st2)"
    "set (keys st2) = set (keys st1) \<union> set dbs"
    using start_missing_keys [of cx dbs st1] by blast
  have "find (\<lambda>(db, _). db \<notin> set dbs) (rn_runners st2) = None \<longleftrightarrow> set (keys st2) \<subseteq> set dbs"
    by (force simp: find_None_iff keys_def)
  moreover have "check_databases_updated cx st =
      (case find (\<lambda>(db, _). db \<notin> set dbs) (rn_runners st2) of
        None \<Rightarrow> (Inr (), st2)
      | Some (db, p) \<Rightarrow> (case stop_child p of (_, acts) \<Rightarrow>
          (Inl RuntimeError, add_actions acts (st2\<lparr>rn_runners := AList.delete db (rn_runners st2)\<rparr>))))"
    using assms s(1) by (simp add: check_databases_updated_def bindA_def)
  ultimately show ?thesis using s(2) by (auto split: option.split prod.split)
qed

section \<open>Witnesses\<close>

definition sample_mysql :: "answer list \<Rightarrow> mysql_api" where
  "sample_mysql answers = \<lparr>my_database = None, my_charset = VStr ''utf8mb4'', my_timezone = [], last_connect_time = 0,
     my_clock = [], my_answers = answers, my_calls = []\<rparr>"

definition sample_context :: runner_context where
  "sample_context = \<lparr>rc_settings = sample_settings, rc_prefix = ''python main.py'', rc_config_file = ''config.yaml'',
     rc_wait_initial_replication = True\<rparr>"

definition sample_tick :: "bool \<Rightarrow> string list \<Rightarrow> int \<Rightarrow> tick" where
  "sample_tick kill finished now = \<lparr>tk_kill = kill, tk_time = now, tk_dead = (\<lambda>_. False),
     tk_state = (\<lambda>db. if db \<in> set finished
        then Some (db_state_save (new_db_state\<lparr>db_status := RUNNING_REALTIME_REPLICATION\<rparr>) [] []) else None),
     tk_restart_request = False\<rparr>"


definition sample_ticks :: "tick list" where
  "sample_ticks = map (sample_tick False []) [0, 6, 6, 6, 7, 8] @ [sample_tick False [''a''] 9, sample_tick False [''a''] 10]"

theorem one_copy_at_a_time_witness:
  "keys (snd (launch_replicators sample_context [''a'', ''b''] sample_ticks (new_runner (sample_mysql [])))) = [''a'', ''b'']
    \<and> (\<exists>t \<in> set sample_ticks. is_initial_replication_finished t ''a'')"
proof -
  have k: "keys (snd (launch_replicators sample_context [''a'', ''b''] sample_ticks (new_runner (sample_mysql [])))) = [''a'', ''b'']"
    by (simp add: sample_ticks_def launch_replicators_def DB_REPLICATOR_RUN_DELAY_def sample_tick_def
        is_initial_replication_finished_def db_state_load_def new_db_state_def db_state_save_def keys_start_db
        sample_context_def new_runner_def keys_def start_db_def run_child_def add_actions_def restart_dead_processes_def Let_def
        on_runners_def on_binlog_def on_optimizer_def restart_dead_process_if_required_def new_child_def)
  have "rc_wait_initial_replication sample_context" "list_all (\<lambda>t. \<not> tk_kill t) sample_ticks"
    "rn_runners (new_runner (sample_mysql [])) = []"
    by (simp_all add: sample_context_def sample_ticks_def sample_tick_def new_runner_def)
  from one_copy_at_a_time [OF this, of "[''a'', ''b'']"] show ?thesis unfolding k by (simp add: list_ex_iff)
qed

definition sample_runner :: runner where
  "sample_runner = start_db sample_context ''old'' (new_runner (sample_mysql [\<lambda>_. Inr [], \<lambda>_. Inr [[VStr ''shop_eu'']]]))"

theorem dropped_database_ends_run_witness:
  "fst (check_databases_updated sample_context sample_runner) = Inl RuntimeError"
proof -
  have f: "fst (matching_databases sample_context sample_runner) = Inr [''shop_eu'']"
    "keys (snd (matching_databases sample_context sample_runner)) = [''old'']" by code_simp+
  then have m: "matching_databases sample_context sample_runner = (Inr [''shop_eu''], snd (matching_databases sample_context sample_runner))"
    by (metis prod.collapse)
  show ?thesis using conjunct1 [OF dropped_database_ends_run [OF m]] by (simp add: f(2))
qed

end
