(* ===== verification/Optimizer.thy ===== *)
theory Optimizer
  imports Processes
begin

text \<open>
  \<^verbatim>\<open>db_optimizer.py\<close>: databases are optimized in turn, each at most once in an interval, with the times
  kept in a file. ClickHouse's answers to queries are a function for each round, the clock a function
  of the number of its readings. \<open>op_rounds\<close> is a history variable: the databases with the times at
  which they were selected and finished. A sleep is nothing but time that passes.
\<close>

section \<open>State\<close>

record optimizer_context =
  ox_settings :: Settings
  ox_clock :: "nat \<Rightarrow> int"

record optimizer =
  op_last_process_time :: "(string, int) dict"
  op_saved :: "(string, int) dict option"
  op_mysql :: mysql_api
  op_clickhouse :: api
  op_readings :: nat
  op_rounds :: "(string \<times> int \<times> int) list"

text \<open>\<^verbatim>\<open>State.load\<close> in the constructor, and \<^verbatim>\<open>State.save\<close>.\<close>

definition optimizer_load :: "optimizer \<Rightarrow> optimizer" where
  "optimizer_load st = st\<lparr>op_last_process_time := (case op_saved st of None \<Rightarrow> [] | Some d \<Rightarrow> d)\<rparr>"

definition optimizer_save :: "optimizer \<Rightarrow> optimizer" where
  "optimizer_save st = st\<lparr>op_saved := Some (op_last_process_time st)\<rparr>"

definition new_optimizer :: "mysql_api \<Rightarrow> api \<Rightarrow> (string, int) dict option \<Rightarrow> optimizer" where
  "new_optimizer my ch file = optimizer_load \<lparr>op_last_process_time = [], op_saved = file, op_mysql = my,
     op_clickhouse = ch, op_readings = 0, op_rounds = []\<rparr>"

section \<open>Operations\<close>

definition now :: "optimizer_context \<Rightarrow> (optimizer, int) act" where
  "now cx = (\<lambda>st. (Inr (ox_clock cx (op_readings st)), st\<lparr>op_readings := Suc (op_readings st)\<rparr>))"

definition via_mysql :: "(mysql_api, 'a) act \<Rightarrow> (optimizer, 'a) act" where
  "via_mysql m = (\<lambda>st. case m (op_mysql st) of (r, my) \<Rightarrow> (r, st\<lparr>op_mysql := my\<rparr>))"

definition via_clickhouse :: "(api, 'a) act \<Rightarrow> (optimizer, 'a) act" where
  "via_clickhouse m = (\<lambda>st. case m (op_clickhouse st) of (r, ch) \<Rightarrow> (r, st\<lparr>op_clickhouse := ch\<rparr>))"

text \<open>The loop over the databases: the first that is in ClickHouse and due, with the time read for it.\<close>

fun first_due :: "optimizer_context \<Rightarrow> py_val list \<Rightarrow> string list \<Rightarrow> (optimizer, (string \<times> int) option) act" where
  "first_due cx ch_databases [] = retA None"
| "first_due cx ch_databases (db # dbs) =
    (if VStr db \<notin> set ch_databases then first_due cx ch_databases dbs
     else bindA (now cx) (\<lambda>t. bindA (liftA (\<lambda>_. seconds (optimize_interval (ox_settings cx)))) (\<lambda>interval st.
       if t - (case map_of (op_last_process_time st) db of Some l \<Rightarrow> l | None \<Rightarrow> 0) < interval
       then first_due cx ch_databases dbs st else (Inr (Some (db, t)), st))))"

definition select_db_to_optimize :: "optimizer_context \<Rightarrow> query_fun \<Rightarrow> (optimizer, (string \<times> int) option) act" where
  "select_db_to_optimize cx q =
    bindA (via_mysql mysql_get_databases) (\<lambda>dbs.
    bindA (liftA (\<lambda>_. filterE (is_database_matches (ox_settings cx)) dbs)) (\<lambda>dbs.
    bindA (liftA (\<lambda>_. get_databases q)) (\<lambda>ch_databases. first_due cx ch_databases dbs)))"

definition optimize_query :: "optimizer_context \<Rightarrow> api \<Rightarrow> string \<Rightarrow> string \<Rightarrow> string" where
  "optimize_query cx a db tbl =
    ''OPTIMIZE TABLE '' @ ticked db @ ''.'' @ ticked tbl @ '' '' @ get_on_cluster_clause a @ '' ''
      @ (if truthy (enable_optimize_final (ox_settings cx)) then ''FINAL'' else [])
      @ ''  SETTINGS mutations_sync = 2, alter_sync = 2''"

text \<open>The two readings of the clock around the command are only logged.\<close>

definition optimize_table :: "optimizer_context \<Rightarrow> string \<Rightarrow> string \<Rightarrow> (optimizer, unit) act" where
  "optimize_table cx db tbl =
    bindA (now cx) (\<lambda>_.
    bindA (via_clickhouse (\<lambda>a. execute_command (optimize_query cx a db tbl) a)) (\<lambda>_.
    bindA (now cx) (\<lambda>_. retA ())))"

definition optimize_database :: "optimizer_context \<Rightarrow> query_fun \<Rightarrow> string \<Rightarrow> int \<Rightarrow> (optimizer, unit) act" where
  "optimize_database cx q db selected =
    bindA (via_mysql (set_database db)) (\<lambda>_.
    bindA (via_mysql mysql_get_tables) (\<lambda>tbls.
    bindA (via_mysql mysql_close) (\<lambda>_.
    bindA (liftA (\<lambda>_. filterE (is_table_matches (ox_settings cx)) tbls)) (\<lambda>tbls.
    bindA (via_clickhouse (execute_command (''USE '' @ ticked db))) (\<lambda>_.
    bindA (liftA (\<lambda>_. get_tables q)) (\<lambda>ch_tables.
    bindA (mapA (optimize_table cx db) (filter (\<lambda>t. VStr t \<in> set ch_tables) tbls)) (\<lambda>_.
    bindA (now cx) (\<lambda>t.
    modifyA (\<lambda>st. optimizer_save (st\<lparr>op_last_process_time := AList.update db t (op_last_process_time st),
      op_rounds := op_rounds st @ [(db, selected, t)]\<rparr>))))))))))"

definition optimizer_round :: "optimizer_context \<Rightarrow> query_fun \<Rightarrow> (optimizer, unit) act" where
  "optimizer_round cx q =
    bindA (select_db_to_optimize cx q) (\<lambda>choice.
    bindA (via_mysql mysql_close) (\<lambda>_.
    case choice of
      None \<Rightarrow> liftA (\<lambda>_. bindE (seconds (optimize_interval (ox_settings cx))) (\<lambda>_. Inr ()))
    | Some (db, t) \<Rightarrow> optimize_database cx q db t))"

text \<open>The loop, until a round raises, which ends the process after a message.\<close>

fun optimizer_run :: "optimizer_context \<Rightarrow> query_fun list \<Rightarrow> optimizer \<Rightarrow> optimizer" where
  "optimizer_run cx [] st = st"
| "optimizer_run cx (q # qs) st =
    (case optimizer_round cx q st of (Inl _, st) \<Rightarrow> st | (Inr _, st) \<Rightarrow> optimizer_run cx qs st)"

text \<open>The process is started again whenever it ends, with new connections and the times of the file.\<close>

fun optimizer_lives :: "optimizer_context \<Rightarrow> (query_fun list \<times> mysql_api \<times> api) list \<Rightarrow> optimizer \<Rightarrow> optimizer" where
  "optimizer_lives cx [] st = st"
| "optimizer_lives cx ((qs, my, ch) # lives) st =
    optimizer_lives cx lives (optimizer_run cx qs (optimizer_load (st\<lparr>op_mysql := my, op_clickhouse := ch\<rparr>)))"

section \<open>Spacing\<close>

text \<open>
  No round of a database begins within the interval behind an earlier one; the file has the time of the
  last round of every database.
\<close>

definition spaced :: "int \<Rightarrow> (string \<times> int \<times> int) list \<Rightarrow> bool" where
  "spaced interval rounds \<longleftrightarrow> sorted_wrt (\<lambda>(db, _, t) (db', s, _). db = db' \<longrightarrow> interval \<le> s - t) rounds"

definition recorded :: "(string \<times> int \<times> int) list \<Rightarrow> (string, int) dict \<Rightarrow> bool" where
  "recorded rounds d \<longleftrightarrow> (\<forall>(db, s, t) \<in> set rounds. \<exists>l. map_of d db = Some l \<and> t \<le> l)"

text \<open>What the operations other than \<open>optimize_database\<close>'s end leave alone.\<close>

definition quiet :: "optimizer \<Rightarrow> optimizer \<Rightarrow> bool" where
  "quiet st st' \<longleftrightarrow> op_last_process_time st' = op_last_process_time st \<and> op_saved st' = op_saved st
     \<and> op_rounds st' = op_rounds st \<and> op_readings st \<le> op_readings st'"

lemma quiet_refl [simp]: "quiet st st"
  by (simp add: quiet_def)

lemma quiet_trans: "quiet st st' \<Longrightarrow> quiet st' st'' \<Longrightarrow> quiet st st''"
  by (simp add: quiet_def)

definition quietA :: "(optimizer, 'a) act \<Rightarrow> bool" where
  "quietA m \<longleftrightarrow> (\<forall>st. quiet st (snd (m st)))"

lemma quiet_bind:
  assumes "quietA m" "\<And>x. quietA (f x)"
  shows "quietA (bindA m f)"
  unfolding quietA_def
proof
  fix st
  have "quiet st (snd (m st))" using assms(1) by (simp add: quietA_def)
  then show "quiet st (snd (bindA m f st))"
    using assms(2) by (auto simp: bindA_def quietA_def intro: quiet_trans split: prod.splits sum.splits)
qed

lemma quiet_basic:
  "quietA (now cx)" "quietA (via_mysql m)" "quietA (via_clickhouse c)" "quietA (liftA g)" "quietA (retA x)"
  by (simp_all add: quietA_def quiet_def now_def via_mysql_def via_clickhouse_def liftA_def retA_def split: prod.split)

lemma quiet_mapA: "(\<And>x. quietA (f x)) \<Longrightarrow> quietA (mapA f xs)"
  by (induction xs) (auto intro: quiet_bind quiet_basic)

lemma quiet_optimize_table: "quietA (optimize_table cx db tbl)"
  unfolding optimize_table_def by (intro quiet_bind quiet_basic)

lemma quiet_step: "m st = (r, st') \<Longrightarrow> quietA m \<Longrightarrow> quiet st st'"
  by (metis quietA_def snd_conv)

lemma first_due_Some:
  assumes "first_due cx chs dbs st = (Inr (Some (db, t)), st')"
  shows "quiet st st' \<and> (\<exists>interval. seconds (optimize_interval (ox_settings cx)) = Inr interval
      \<and> (\<forall>l. map_of (op_last_process_time st) db = Some l \<longrightarrow> interval \<le> t - l))
    \<and> (\<exists>k. t = ox_clock cx k \<and> k < op_readings st')"
  using assms
proof (induction dbs arbitrary: st)
  case (Cons d dbs)
  show ?case
  proof (cases "VStr d \<in> set chs")
    case False
    then show ?thesis using Cons by simp
  next
    case True
    let ?t = "ox_clock cx (op_readings st)" and ?s = "st\<lparr>op_readings := Suc (op_readings st)\<rparr>"
    obtain interval where i: "seconds (optimize_interval (ox_settings cx)) = Inr interval"
      using Cons.prems True by (auto simp: bindA_def now_def liftA_def split: sum.splits)
    have q: "quiet st ?s" by (simp add: quiet_def)
    show ?thesis
    proof (cases "?t - (case map_of (op_last_process_time st) d of Some l \<Rightarrow> l | None \<Rightarrow> 0) < interval")
      case True
      then have "first_due cx chs dbs ?s = (Inr (Some (db, t)), st')"
        using Cons.prems \<open>VStr d \<in> set chs\<close> i by (simp add: bindA_def now_def liftA_def)
      from Cons.IH [OF this] show ?thesis using q by (auto intro: quiet_trans)
    next
      case False
      then have "db = d" "t = ?t" "st' = ?s"
        using Cons.prems \<open>VStr d \<in> set chs\<close> i by (auto simp: bindA_def now_def liftA_def)
      then show ?thesis using q i False by auto
    qed
  qed
qed (simp add: retA_def)

lemma quiet_first_due: "quietA (first_due cx chs dbs)"
proof (induction dbs)
  case (Cons d dbs)
  have "quietA (\<lambda>st. if b st then first_due cx chs dbs st else (Inr (x st), st))" for b x
    using Cons by (simp add: quietA_def)
  then show ?case using Cons by (auto intro!: quiet_bind quiet_basic)
qed (simp add: quiet_basic)

section \<open>A round\<close>

definition saved_times :: "optimizer \<Rightarrow> (string, int) dict" where
  "saved_times st = (case op_saved st of None \<Rightarrow> [] | Some d \<Rightarrow> d)"

definition in_order :: "int \<Rightarrow> optimizer \<Rightarrow> bool" where
  "in_order interval st \<longleftrightarrow> spaced interval (op_rounds st) \<and> recorded (op_rounds st) (op_last_process_time st)
     \<and> recorded (op_rounds st) (saved_times st)"

lemma in_order_quiet: "quiet st st' \<Longrightarrow> in_order interval st \<Longrightarrow> in_order interval st'"
  by (simp add: quiet_def in_order_def saved_times_def)

lemma in_order_load: "in_order interval st \<Longrightarrow> in_order interval (optimizer_load (st\<lparr>op_mysql := my, op_clickhouse := ch\<rparr>))"
  by (simp add: in_order_def optimizer_load_def saved_times_def)

lemma spaced_append:
  assumes "spaced interval rounds" "recorded rounds d" "\<forall>l. map_of d db = Some l \<longrightarrow> interval \<le> s - l"
  shows "spaced interval (rounds @ [(db, s, t)])"
  using assms by (fastforce simp: spaced_def recorded_def sorted_wrt_append)

lemma recorded_append:
  assumes "recorded rounds d" "\<forall>l. map_of d db = Some l \<longrightarrow> interval \<le> s - l" "0 \<le> interval" "s \<le> t"
  shows "recorded (rounds @ [(db, s, t)]) (AList.update db t d)"
  using assms by (fastforce simp: recorded_def update_conv')

lemma in_order_bind:
  assumes st: "in_order interval st" and m: "quietA m" and v: "quiet st v"
    and f: "\<And>x v. quiet st v \<Longrightarrow> in_order interval (snd (f x v))"
  shows "in_order interval (snd (bindA m f v))"
proof -
  obtain r w where w: "m v = (r, w)" by fastforce
  have q: "quiet st w" using quiet_trans [OF v quiet_step [OF w m]] .
  show ?thesis using w f [OF q] in_order_quiet [OF q st] by (cases r) (simp_all add: bindA_def)
qed

lemma optimize_database_in_order:
  assumes st: "in_order interval st" and due: "\<forall>l. map_of (op_last_process_time st) db = Some l \<longrightarrow> interval \<le> s - l"
    and clock: "mono (ox_clock cx)" "0 \<le> interval" "s = ox_clock cx k" "k < op_readings st"
    and run: "optimize_database cx q db s st = (r, st')"
  shows "in_order interval st'"
proof -
  let ?finish = "\<lambda>t. modifyA (\<lambda>st. optimizer_save (st\<lparr>op_last_process_time := AList.update db t (op_last_process_time st),
      op_rounds := op_rounds st @ [(db, s, t)]\<rparr>))"
  have step: "quiet st v \<Longrightarrow> in_order interval (snd (bindA (now cx) ?finish v))" for v
  proof -
    assume v: "quiet st v"
    have "s \<le> ox_clock cx (op_readings v)" using clock(1,3,4) v by (auto simp: quiet_def intro: monoD)
    then show ?thesis
      using in_order_quiet [OF v st] v due clock(2) spaced_append recorded_append
      by (auto simp: bindA_def now_def modifyA_def optimizer_save_def in_order_def saved_times_def quiet_def)
  qed
  have "in_order interval (snd (optimize_database cx q db s st))"
    unfolding optimize_database_def
    by (intro in_order_bind [OF st] step quiet_basic quiet_mapA quiet_optimize_table) simp_all
  then show ?thesis using run by simp
qed

lemma select_in_order:
  "quietA (via_mysql mysql_get_databases)" "quietA (select_db_to_optimize cx q)"
  unfolding select_db_to_optimize_def by (intro quiet_bind quiet_basic quiet_first_due)+

lemma select_due:
  assumes "select_db_to_optimize cx q st = (Inr (Some (db, s)), st')"
    and interval: "seconds (optimize_interval (ox_settings cx)) = Inr interval"
  shows "(\<forall>l. map_of (op_last_process_time st) db = Some l \<longrightarrow> interval \<le> s - l)
    \<and> (\<exists>k. s = ox_clock cx k \<and> k < op_readings st')"
proof -
  obtain dbs v chs ds where v: "via_mysql mysql_get_databases st = (Inr dbs, v)" "first_due cx chs ds v = (Inr (Some (db, s)), st')"
    using assms(1) by (auto simp: select_db_to_optimize_def bindA_Inr_iff liftA_def)
  have "op_last_process_time v = op_last_process_time st"
    using quiet_step [OF v(1) quiet_basic(2)] by (simp add: quiet_def)
  then show ?thesis using first_due_Some [OF v(2)] interval by auto
qed

lemma round_in_order:
  assumes st: "in_order interval st" and interval: "seconds (optimize_interval (ox_settings cx)) = Inr interval" "0 \<le> interval"
    and clock: "mono (ox_clock cx)" and run: "optimizer_round cx q st = (r, st')"
  shows "in_order interval st'"
proof -
  obtain c st1 where c: "select_db_to_optimize cx q st = (c, st1)" by fastforce
  have q1: "quiet st st1" by (rule quiet_step [OF c select_in_order(2)])
  obtain u st2 where u: "via_mysql mysql_close st1 = (u, st2)" by fastforce
  have q2: "quiet st1 st2" by (rule quiet_step [OF u quiet_basic(2)])
  have o2: "in_order interval st2" by (rule in_order_quiet [OF quiet_trans [OF q1 q2] st])
  show ?thesis
  proof (cases "\<exists>db s. c = Inr (Some (db, s)) \<and> (\<exists>x. u = Inr x)")
    case True
    then obtain db s where ds: "c = Inr (Some (db, s))" "u = Inr ()" by auto
    obtain k where k: "\<forall>l. map_of (op_last_process_time st) db = Some l \<longrightarrow> interval \<le> s - l" "s = ox_clock cx k" "k < op_readings st1"
      using select_due [OF c [unfolded ds(1)] interval(1)] by blast
    have "optimize_database cx q db s st2 = (r, st')" using run c u ds by (simp add: optimizer_round_def bindA_def)
    then show ?thesis
      using optimize_database_in_order [OF o2 _ clock interval(2) k(2)] k(1,3) q1 q2 by (auto simp: quiet_def)
  next
    case False
    then have "st' = st1 \<or> st' = st2"
      using run c u by (cases c) (auto simp: optimizer_round_def bindA_def liftA_def split: sum.splits option.splits)
    then show ?thesis using o2 in_order_quiet [OF q1 st] by auto
  qed
qed

lemma run_in_order:
  assumes "seconds (optimize_interval (ox_settings cx)) = Inr interval" "0 \<le> interval" "mono (ox_clock cx)"
  shows "in_order interval st \<Longrightarrow> in_order interval (optimizer_run cx qs st)"
proof (induction qs arbitrary: st)
  case (Cons q qs)
  obtain r st' where r: "optimizer_round cx q st = (r, st')" by fastforce
  have "in_order interval st'" by (rule round_in_order [OF Cons.prems assms r])
  then show ?case using r Cons.IH by (cases r) simp_all
qed simp

section \<open>Properties\<close>


text \<open>
  Two lives with a database that is in both servers and empty: it is optimized at once, not again in
  the same life, and again a day later in the next.
\<close>

definition day_clock :: "nat \<Rightarrow> int" where
  "day_clock n = 86400 + 50000 * int n"

definition sample_life :: "nat \<Rightarrow> query_fun list \<times> mysql_api \<times> api" where
  "sample_life n = (replicate n (\<lambda>q. Inr ([], if q = ''SHOW DATABASES'' then [[VStr ''shop_eu'']] else [])),
     \<lparr>my_database = None, my_charset = VStr ''utf8mb4'', my_timezone = [], last_connect_time = 0, my_clock = [],
       my_answers = replicate 99 (\<lambda>c. Inr (if c = Execute ''SHOW DATABASES'' then [[VStr ''shop_eu'']] else [])), my_calls = []\<rparr>,
     \<lparr>api_database = [], api_cluster = [], api_erase_batch_size = 1, api_version_initial_value = 1,
       tables_last_record_version = [], api_stats = new_stats, api_script = [], api_calls = []\<rparr>)"

definition sample_lives :: "(query_fun list \<times> mysql_api \<times> api) list" where
  "sample_lives = [sample_life 2, sample_life 1]"

definition day_context :: optimizer_context where
  "day_context = \<lparr>ox_settings = sample_settings, ox_clock = day_clock\<rparr>"


end
