(* ===== verification/Monitoring.thy ===== *)
theory Monitoring
  imports BinlogReplicator MysqlApi DbState
begin

text \<open>
  \<^verbatim>\<open>monitoring.py\<close>: a line at intervals with the positions of MySQL, the relay and the databases. What is
  read at one time is a \<open>glance\<close>; the lines printed are the result. Files are ordered as texts, as the
  code orders them.
\<close>

record glance =
  gl_time :: int
  gl_binlog_state :: "relay_state option"
  gl_states :: "string \<Rightarrow> saved_state option"

definition bnum :: "string \<Rightarrow> int res" where
  "bnum fname = py_int (last (split_char CHR ''.'' fname))"

definition monitored_databases :: "string \<Rightarrow> string list" where
  "monitored_databases names = filter (\<lambda>db. db \<noteq> []) (map strip (split_char CHR '','' names))"

text \<open>The first of a position; \<^verbatim>\<open>None[0]\<close> raises TypeError.\<close>

definition transaction_file :: "transaction option \<Rightarrow> string res" where
  "transaction_file t = (case t of None \<Rightarrow> Inl TypeError | Some (f, _) \<Rightarrow> Inr f)"

definition get_last_binlog_binlog :: "glance \<Rightarrow> string res" where
  "get_last_binlog_binlog g =
    (case gl_binlog_state g of None \<Rightarrow> Inl FileNotFoundError | Some s \<Rightarrow> transaction_file (last_seen_transaction s))"

definition get_last_binlog_mysql :: "(mysql_api, string) act" where
  "get_last_binlog_mysql =
    bindA get_binlog_files (\<lambda>files. liftA (\<lambda>_. if files = [] then Inl IndexError else Inr (last (sort files))))"

definition get_last_binlog_database :: "glance \<Rightarrow> string \<Rightarrow> string res" where
  "get_last_binlog_database g db =
    (case gl_states g db of None \<Rightarrow> Inl FileNotFoundError | Some d \<Rightarrow> transaction_file (saved_transaction d))"

definition header_line :: "string list \<Rightarrow> string" where
  "header_line names = join ''|'' ([''timestamp'', ''mysql'', ''binlog'', ''binlog_diff''] @ concat (map (\<lambda>db. [db, db @ ''_diff'']) names))"

definition database_stats :: "glance \<Rightarrow> string \<Rightarrow> string \<Rightarrow> string list res" where
  "database_stats g binlog_file_mysql db =
    bindE (get_last_binlog_database g db) (\<lambda>database_binlog.
    bindE (bnum binlog_file_mysql) (\<lambda>m. bindE (bnum database_binlog) (\<lambda>d. Inr [database_binlog, str_int (m - d)])))"

definition stats_line :: "string list \<Rightarrow> glance \<Rightarrow> (mysql_api, string) act" where
  "stats_line names g =
    bindA (liftA (\<lambda>_. get_last_binlog_binlog g)) (\<lambda>binlog_file_binlog.
    bindA get_last_binlog_mysql (\<lambda>binlog_file_mysql.
    liftA (\<lambda>_. bindE (bnum binlog_file_mysql) (\<lambda>m. bindE (bnum binlog_file_binlog) (\<lambda>b.
      bindE (mapE (database_stats g binlog_file_mysql) names) (\<lambda>stats.
      Inr (join ''|'' ([str_int (gl_time g), binlog_file_mysql, binlog_file_binlog, str_int (m - b)] @ concat stats))))))))"

text \<open>\<^verbatim>\<open>run\<close>: the lines until one cannot be made.\<close>

fun stats_lines :: "string list \<Rightarrow> glance list \<Rightarrow> mysql_api \<Rightarrow> string list \<times> py_error option \<times> mysql_api" where
  "stats_lines names [] my = ([], None, my)"
| "stats_lines names (g # gs) my =
    (case stats_line names g my of
       (Inl e, my) \<Rightarrow> ([], Some e, my)
     | (Inr l, my) \<Rightarrow> (case stats_lines names gs my of (ls, e, my) \<Rightarrow> (l # ls, e, my)))"

definition run_monitoring :: "string \<Rightarrow> glance list \<Rightarrow> mysql_api \<Rightarrow> string list \<times> py_error option \<times> mysql_api" where
  "run_monitoring names gs my =
    (let names = monitored_databases names in case stats_lines names gs my of (ls, e, my) \<Rightarrow> (header_line names # ls, e, my))"

text \<open>The last file as a text is not the last file once the numbers have one more digit.\<close>

lemma text_order_of_files:
  "last (sort [''bin.999999'', ''bin.1000000'']) = ''bin.999999''"
  by code_simp

end
