(* ===== verification/Spec2Isabelle.thy ===== *)
theory Spec2Isabelle
  imports Config RelayRecovery TableStructure ClickhouseApi EnumParse SqlText TypeConvert Wkb AlterPlan RecordConvert DbState Delivery Gtid CreateTable DbReplicator StreamRecovery Runner Optimizer Monitoring
begin

text \<open>
  A verification of \<^verbatim>\<open>mysql_ch_replicator\<close>, which replicates MySQL databases to ClickHouse.

  \<^bold>\<open>The program.\<close> A binlog replicator reads MySQL's binary log and writes the events of each
  database to numbered relay files. A database replicator copies the tables once (initial
  replication) and then reads the relay files and applies their events (realtime replication):
  row events are converted and collected, rows are inserted with growing versions and deleted by
  key, and statements change the table structures and are translated for ClickHouse. Each process
  keeps its position in a state file and starts again from it. A runner starts the processes and
  starts them again when they end, and an optimizer merges the tables in ClickHouse at intervals. When a position is no longer in
  the binary log or the relay files, relay recovery rebuilds the files.

  \<^bold>\<open>The theories.\<close>
  \<^item> \<^verbatim>\<open>Prelude\<close>, \<^verbatim>\<open>PyStr\<close>, \<^verbatim>\<open>Bytes\<close>, \<^verbatim>\<open>PyValue\<close>: exceptions as values (\<open>res\<close>, and \<open>act\<close> for methods that
    may raise after changing their object), dictionaries, Python's string methods, \<^verbatim>\<open>struct\<close> and
    \<^verbatim>\<open>util/bytes.py\<close>, dynamically typed values.
  \<^item> \<^verbatim>\<open>Transactions\<close>, \<^verbatim>\<open>RelayFile\<close>, \<^verbatim>\<open>DataReader\<close>, \<^verbatim>\<open>DataWriter\<close>, \<^verbatim>\<open>BinlogReplicator\<close>, \<^verbatim>\<open>RelayRecovery\<close>:
    \<^verbatim>\<open>binlog_replicator.py\<close>. Events survive the framing of a relay file however it is read, a reader
    resumes behind a given position, events are appended in order over rotations, only files behind
    the position are removed, the resume position was stored before, a failed recovery restores
    the old files.
  \<^item> \<^verbatim>\<open>Config\<close>: \<^verbatim>\<open>config.py\<close>. Which databases and tables are selected, which settings are refused.
  \<^item> \<^verbatim>\<open>TableStructure\<close>, \<^verbatim>\<open>EnumParse\<close>, \<^verbatim>\<open>SqlText\<close>, \<^verbatim>\<open>TypeConvert\<close>, \<^verbatim>\<open>AlterPlan\<close>, \<^verbatim>\<open>Wkb\<close>, \<^verbatim>\<open>RecordConvert\<close>:
    \<^verbatim>\<open>table_structure.py\<close>, the package \<^verbatim>\<open>enum\<close> and \<^verbatim>\<open>converter.py\<close>. Structures keep their key positions,
    column types hold the values of the MySQL columns, an ALTER TABLE is carried out as checked
    or not at all, values convert back.
  \<^item> \<^verbatim>\<open>ClickhouseApi\<close>: \<^verbatim>\<open>clickhouse_api.py\<close>. Retries, versions that grow, deletes that cover all keys.
  \<^item> \<^verbatim>\<open>DbState\<close>, \<^verbatim>\<open>Realtime\<close>, \<^verbatim>\<open>Delivery\<close>: \<^verbatim>\<open>State\<close> of \<^verbatim>\<open>db_replicator.py\<close> and
    \<^verbatim>\<open>db_replicator_realtime.py\<close>. Row events have the effect of being applied once and in order over
    any number of crashes and restarts; where the code falls short of this is shown as well.
  \<^item> \<^verbatim>\<open>CreateTable\<close>: the parser of CREATE TABLE in \<^verbatim>\<open>converter.py\<close>, from the tokens of \<^verbatim>\<open>sqlparse\<close>.
  \<^item> \<^verbatim>\<open>MysqlApi\<close>, \<^verbatim>\<open>InitialReplication\<close>, \<^verbatim>\<open>InitialCopy\<close>, \<^verbatim>\<open>InitialDatabase\<close>, \<^verbatim>\<open>InitialSwap\<close>:
    \<^verbatim>\<open>mysql_api.py\<close> and \<^verbatim>\<open>db_replicator_initial.py\<close>. The copy of a table ends and has all rows that
    stayed in it, the copy of a database can be interrupted and resumed, and the target database is
    replaced only after the structures were found unchanged.
  \<^item> \<^verbatim>\<open>DbReplicator\<close>: \<^verbatim>\<open>DbReplicator\<close> of \<^verbatim>\<open>db_replicator.py\<close>, which chooses between copying, resuming and
    reading the relay.
  \<^item> \<^verbatim>\<open>Packet\<close>, \<^verbatim>\<open>PacketReads\<close>: \<^verbatim>\<open>pymysqlreplication/packet.py\<close>; what a reader takes from the packet
    and returns.
  \<^item> \<^verbatim>\<open>Columns\<close>, \<^verbatim>\<open>RowValues\<close>, \<^verbatim>\<open>DecimalCodec\<close>, \<^verbatim>\<open>TimeCodec\<close>, \<^verbatim>\<open>RowsEvent\<close>, \<^verbatim>\<open>RowCodec\<close>: \<^verbatim>\<open>column.py\<close>,
    \<^verbatim>\<open>table.py\<close>, \<^verbatim>\<open>bitmap.py\<close> and the row events of \<^verbatim>\<open>row_event.py\<close>. The bytes the server writes for
    row events decode to their rows, value by value and as a whole.
  \<^item> \<^verbatim>\<open>ByteValues\<close>, \<^verbatim>\<open>Events\<close>, \<^verbatim>\<open>EventCodec\<close>: the values of \<^verbatim>\<open>util/bytes.py\<close> and the constructors of
    \<^verbatim>\<open>pymysqlreplication/event.py\<close>. Queries, with their status variables, rotations and transaction
    identifiers are read back from the bytes the server writes.
  \<^item> \<^verbatim>\<open>Charsets\<close>, \<^verbatim>\<open>TableMap\<close>, \<^verbatim>\<open>TableMapCodec\<close>, \<^verbatim>\<open>DecodingEnds\<close>: \<^verbatim>\<open>constants/CHARSET.py\<close> and
    \<^verbatim>\<open>TableMapEvent\<close> of \<^verbatim>\<open>row_event.py\<close>. A table is described to the reader of its rows with the names,
    signs, character sets, members and keys the server sent; decoding of any bytes, sound or not,
    ends.
  \<^item> \<^verbatim>\<open>EventDispatch\<close>, \<^verbatim>\<open>BinlogStream\<close>, \<^verbatim>\<open>StreamRecovery\<close>: the constructor of the packet wrapper and
    \<^verbatim>\<open>binlogstream.py\<close>. Connections that break at any time do not change the events the reader yields.
  \<^item> \<^verbatim>\<open>Processes\<close>, \<^verbatim>\<open>Runner\<close>, \<^verbatim>\<open>Optimizer\<close>, \<^verbatim>\<open>Monitoring\<close>: \<^verbatim>\<open>runner.py\<close>, \<^verbatim>\<open>db_optimizer.py\<close>,
    \<^verbatim>\<open>monitoring.py\<close> and the processes of \<^verbatim>\<open>utils.py\<close>. One database is copied at a time, a kill ends all
    processes, a database is not optimized more often than asked for; a removed database ends the
    runner, which it should not.
  \<^item> \<^verbatim>\<open>Gtid\<close>: \<^verbatim>\<open>pymysqlreplication/gtid.py\<close>. Interval arithmetic is set arithmetic; both encodings
    round-trip.

  \<^bold>\<open>Conventions.\<close> A class is a \<open>record\<close> or a \<open>datatype\<close>, a method a function from its state to the
  outcome and the new state, a raise an \<open>Inl\<close>. Loops over data are recursive functions; loops over
  the outside world (deliveries of a connection, polls of the relay, readings of the clock and of the
  kill flag, outcomes of ClickHouse calls) run over an explicit list of what the world delivers, so that no fuel is
  needed: they end with the list. The loops that read from a packet or ask the MySQL server take a
  number of rounds: one for each byte or row left in the packet and one for each answer the server
  gives are enough, and the theorems about them say so. The nesting of expressions in a CREATE TABLE
  is bounded by Python's recursion limit. Integers of Python are \<open>int\<close>; bytes are \<open>8 word\<close>.

  \<^bold>\<open>Parameters.\<close> The packet object and the character sets of \<^verbatim>\<open>pymysql\<close>, \<^verbatim>\<open>bytes.decode\<close>, the C++
  parser of binary JSON, the answers of the MySQL server, pickle, JSON, \<^verbatim>\<open>sqlparse\<close>, YAML, the text
  of floats and decimals and Python's \<^verbatim>\<open>str\<close> of a value are arguments of the definitions that use
  them, with the laws they need as hypotheses of the theorems.

  \<^bold>\<open>Not modelled.\<close> The binlog replicator runs over the stream of events that \<^verbatim>\<open>binlogstream.py\<close> yields,
  with the rows already read; the two models are not composed. The parser of binary JSON written in
  Python is not used by the program, which calls the C++ one. The command line, logging, printing
  (\<^verbatim>\<open>dump\<close>, \<^verbatim>\<open>to_json\<close>) and the HTTP server have no state of their own.
\<close>

end
